(* ===== verification/Prelude.thy ===== *)
theory Prelude
  imports Complex_Main "HOL-Library.AList" "HOL-Library.Product_Lexorder"
    "HOL-Library.List_Lexorder" "HOL-Library.Char_ord"
begin

text \<open>
  What the component theories share: Python values that HOL does not have as such (decimal
  and padded rendering of integers, \<open>str.join\<close>, \<open>range\<close> with a step, sets of integers in a
  canonical form, insertion-ordered dictionaries), the type of a computation that may raise,
  and the lemmas on them that carry the component proofs.

  A Python \<open>dict\<close> keeps insertion order, and assigning to a key that is there keeps its place:
  that is an association list under \<open>AList.update\<close> and \<open>AList.delete\<close>.  The laws a client
  relies on are the locale \<open>dict_table\<close>; it is interpreted on the association lists below.
\<close>

named_theorems string_simps \<open>rendering of numbers and lists as text\<close>
named_theorems dict_simps \<open>lookup after update and delete\<close>

subsection \<open>Time and errors\<close>

text \<open>\<open>time.time()\<close> and \<open>time.monotonic()\<close>: seconds, as exact rationals.\<close>

type_synonym seconds = rat

text \<open>Python's \<open>int(x)\<close> on a float truncates towards zero.\<close>

definition py_int :: "rat \<Rightarrow> int" where
  "py_int x = (if 0 \<le> x then \<lfloor>x\<rfloor> else \<lceil>x\<rceil>)"

text \<open>A computation that may raise: \<open>Inl\<close> the error, \<open>Inr\<close> the value.\<close>

type_synonym ('e, 'a) result = "'e + 'a"

fun bind_result :: "('e, 'a) result \<Rightarrow> ('a \<Rightarrow> ('e, 'b) result) \<Rightarrow> ('e, 'b) result" where
  "bind_result (Inl e) f = Inl e"
| "bind_result (Inr a) f = f a"

lemma bind_result_Inr_iff [simp]:
  "bind_result r f = Inr b \<longleftrightarrow> (\<exists>a. r = Inr a \<and> f a = Inr b)"
  by (cases r) auto

lemma bind_result_Inl_iff:
  "bind_result r f = Inl e \<longleftrightarrow> r = Inl e \<or> (\<exists>a. r = Inr a \<and> f a = Inl e)"
  by (cases r) auto

lemma bind_result_cong [fundef_cong]:
  "r = r' \<Longrightarrow> (\<And>a. r' = Inr a \<Longrightarrow> f a = g a) \<Longrightarrow> bind_result r f = bind_result r' g"
  by (cases r') auto

text \<open>A loop over a list that may raise.\<close>

fun fold_result :: "('a \<Rightarrow> 's \<Rightarrow> ('e, 's) result) \<Rightarrow> 'a list \<Rightarrow> 's \<Rightarrow> ('e, 's) result" where
  "fold_result f [] s = Inr s"
| "fold_result f (x # xs) s = bind_result (f x s) (fold_result f xs)"

lemma fold_result_invariant:
  assumes "fold_result f xs s = Inr s'" and "P s" and "\<And>x s s'. x \<in> set xs \<Longrightarrow> P s \<Longrightarrow> f x s = Inr s' \<Longrightarrow> P s'"
  shows "P s'"
  using assms by (induction xs arbitrary: s) auto

lemma fold_adds:
  assumes "\<And>x s. set (g (f x s)) \<subseteq> set (g s) \<union> {e. P x e}"
  shows "set (g (fold f xs s)) \<subseteq> set (g s) \<union> {e. \<exists>x\<in>set xs. P x e}"
proof (induction xs arbitrary: s)
  case (Cons x xs)
  from Cons.IH [of "f x s"] assms [of x s] show ?case by auto
qed simp

lemma bex_pair_cong:
  "(\<And>a b. (a, b) \<in> S \<Longrightarrow> P a b = Q a b) \<Longrightarrow> (\<exists>(a, b)\<in>S. P a b) \<longleftrightarrow> (\<exists>(a, b)\<in>S. Q a b)"
  by (rule bex_cong) auto

subsection \<open>Text\<close>

definition digit_char :: "nat \<Rightarrow> char" where
  "digit_char d = ''0123456789'' ! d"

fun show_nat :: "nat \<Rightarrow> string" where
  "show_nat n = (if n < 10 then [digit_char n] else show_nat (n div 10) @ [digit_char (n mod 10)])"

declare show_nat.simps [simp del]

definition show_int :: "int \<Rightarrow> string" where
  "show_int i = (if i < 0 then CHR ''-'' # show_nat (nat (- i)) else show_nat (nat i))"

text \<open>The format \<open>{:02d}\<close> of a number that is not negative.\<close>

definition show_02d :: "nat \<Rightarrow> string" where
  "show_02d n = (if n < 10 then CHR ''0'' # show_nat n else show_nat n)"

fun py_join :: "string \<Rightarrow> string list \<Rightarrow> string" where
  "py_join sep [] = []"
| "py_join sep [x] = x"
| "py_join sep (x # y # zs) = x @ sep @ py_join sep (y # zs)"

definition dquote :: char where
  "dquote = char_of (34::nat)"

definition quoted :: "string \<Rightarrow> string" where
  "quoted s = dquote # s @ [dquote]"

definition in_range :: "nat \<Rightarrow> nat \<Rightarrow> char \<Rightarrow> bool" where
  "in_range lo hi c \<longleftrightarrow> lo \<le> of_char c \<and> of_char c \<le> hi"

definition is_digit :: "char \<Rightarrow> bool" where "is_digit c = in_range 48 57 c"
definition is_lower :: "char \<Rightarrow> bool" where "is_lower c = in_range 97 122 c"
definition is_upper :: "char \<Rightarrow> bool" where "is_upper c = in_range 65 90 c"
definition is_alnum_char :: "char \<Rightarrow> bool" where "is_alnum_char c \<longleftrightarrow> is_digit c \<or> is_lower c \<or> is_upper c"
definition is_hex_lower :: "char \<Rightarrow> bool" where "is_hex_lower c \<longleftrightarrow> is_digit c \<or> in_range 97 102 c"

definition lower_char :: "char \<Rightarrow> char" where
  "lower_char c = (if is_upper c then char_of (of_char c + (32::nat)) else c)"

definition lower :: "string \<Rightarrow> string" where
  "lower s = map lower_char s"

text \<open>\<open>str.strip()\<close> and \<open>str.rstrip(".")\<close>.\<close>

definition is_space :: "char \<Rightarrow> bool" where
  "is_space c \<longleftrightarrow> in_range 9 13 c \<or> in_range 28 32 c \<or> in_range 133 133 c \<or> in_range 160 160 c"

definition strip :: "string \<Rightarrow> string" where
  "strip s = rev (dropWhile is_space (rev (dropWhile is_space s)))"

definition rstrip_dots :: "string \<Rightarrow> string" where
  "rstrip_dots s = rev (dropWhile (\<lambda>c. c = CHR ''.'') (rev s))"

definition ends_with :: "string \<Rightarrow> string \<Rightarrow> bool" where
  "ends_with s t \<longleftrightarrow> length t \<le> length s \<and> drop (length s - length t) s = t"

fun split_on :: "char \<Rightarrow> string \<Rightarrow> string list" where
  "split_on sep [] = [[]]"
| "split_on sep (c # s) =
     (if c = sep then [] # split_on sep s
      else case split_on sep s of [] \<Rightarrow> [[c]] | l # ls \<Rightarrow> (c # l) # ls)"

lemma lower_char_idem [simp]: "lower_char (lower_char c) = lower_char c"
  by (auto simp: lower_char_def is_upper_def in_range_def)

lemma lower_lower [simp]: "lower (lower s) = lower s"
  by (simp add: lower_def)

lemma split_on_not_Nil [simp]: "split_on sep s \<noteq> []"
  by (induction s) (auto split: list.split)

lemma join_split_on: "py_join [sep] (split_on sep s) = s"
proof (induction s)
  case (Cons c s)
  obtain l ls where "split_on sep s = l # ls" by (cases "split_on sep s") auto
  with Cons show ?case by (cases ls) auto
qed simp

lemma split_on_join:
  assumes "ps \<noteq> []" and "\<And>p. p \<in> set ps \<Longrightarrow> sep \<notin> set p"
  shows "split_on sep (py_join [sep] ps) = ps"
proof -
  have one: "sep \<notin> set p \<Longrightarrow> split_on sep p = [p]" for p by (induction p) auto
  have more: "sep \<notin> set p \<Longrightarrow> split_on sep (p @ sep # q) = p # split_on sep q" for p q by (induction p) auto
  from assms show ?thesis by (induction ps rule: induct_list012) (simp_all add: one more)
qed

lemma split_on_chars: "c \<in> set s \<Longrightarrow> c = sep \<or> (\<exists>p\<in>set (split_on sep s). c \<in> set p)"
proof (induction s)
  case (Cons a s)
  obtain l ls where "split_on sep s = l # ls" by (cases "split_on sep s") auto
  with Cons show ?case by auto
qed simp

lemma split_on_hd: "split_on sep s = p # ps \<Longrightarrow> p \<noteq> [] \<Longrightarrow> s \<noteq> [] \<and> hd s = hd p"
  by (cases s) (auto split: if_splits list.splits)

lemma show_nat_not_Nil [simp]: "show_nat n \<noteq> []"
  by (subst show_nat.simps) simp

lemma show_nat_digits: "set (show_nat n) \<subseteq> digit_char ` {0..<10}"
proof (induction n rule: show_nat.induct)
  case (1 n)
  show ?case
  proof (cases "n < 10")
    case True
    then show ?thesis by (subst show_nat.simps) auto
  next
    case False
    with 1 have "set (show_nat (n div 10)) \<subseteq> digit_char ` {0..<10}" by simp
    with False show ?thesis by (subst show_nat.simps) auto
  qed
qed

lemma digit_char_inj: "i < 10 \<Longrightarrow> j < 10 \<Longrightarrow> digit_char i = digit_char j \<Longrightarrow> i = j"
  unfolding digit_char_def by (subst (asm) nth_eq_iff_index_eq) simp_all

lemma show_nat_inj: "show_nat m = show_nat n \<Longrightarrow> m = n"
proof (induction m arbitrary: n rule: show_nat.induct)
  case (1 m)
  show ?case
  proof (cases "m < 10")
    case True
    with 1 show ?thesis
      by (cases "n < 10") (auto simp: show_nat.simps [of m] show_nat.simps [of n] intro: digit_char_inj dest: sym)
  next
    case False
    with 1 have n: "\<not> n < 10"
      by (auto simp: show_nat.simps [of m] show_nat.simps [of n])
    with False 1 have "show_nat (m div 10) = show_nat (n div 10)"
      and d: "digit_char (m mod 10) = digit_char (n mod 10)"
      by (simp_all add: show_nat.simps [of m] show_nat.simps [of n])
    with False 1 have "m div 10 = n div 10" by blast
    moreover from d have "m mod 10 = n mod 10" by (rule digit_char_inj [rotated 2]) simp_all
    ultimately show ?thesis by (metis div_mult_mod_eq)
  qed
qed

subsection \<open>Ranges and sets of integers\<close>

text \<open>\<open>range(first, stop, step)\<close> with a positive step.\<close>

function py_range :: "int \<Rightarrow> int \<Rightarrow> int \<Rightarrow> int list" where
  "py_range first stop step =
     (if step \<le> 0 \<or> stop \<le> first then [] else first # py_range (first + step) stop step)"
  by pat_completeness auto
termination
  by (relation "measure (\<lambda>(first, stop, step). nat (stop - first))") auto

declare py_range.simps [simp del]

lemma set_py_range:
  "0 < step \<Longrightarrow> x \<in> set (py_range first stop step) \<longleftrightarrow>
     first \<le> x \<and> x < stop \<and> (x - first) mod step = 0"
proof (induction first stop step rule: py_range.induct)
  case (1 first stop step)
  show ?case
  proof (cases "stop \<le> first")
    case True
    then show ?thesis by (auto simp: py_range.simps [of first stop step])
  next
    case False
    have m: "(x - (first + step)) mod step = (x - first) mod step"
      using mod_add_self2 [of "x - (first + step)" step] by (simp add: algebra_simps)
    have far: "(x - first) mod step = x - first" if "x < first + step" "first \<le> x"
      using that by (simp add: mod_pos_pos_trivial)
    have "x \<in> set (py_range first stop step) \<longleftrightarrow> x = first \<or> x \<in> set (py_range (first + step) stop step)"
      using 1(2) False by (simp add: py_range.simps [of first stop step])
    also have "\<dots> \<longleftrightarrow> x = first \<or> (first + step \<le> x \<and> x < stop \<and> (x - first) mod step = 0)"
      using 1 False m by simp
    also have "\<dots> \<longleftrightarrow> first \<le> x \<and> x < stop \<and> (x - first) mod step = 0"
    proof (cases "x < first + step \<and> first \<le> x")
      case True
      with far have "(x - first) mod step = 0 \<longleftrightarrow> x = first" by simp
      with True False 1(2) show ?thesis by auto
    next
      case out: False
      with 1(2) False show ?thesis by auto
    qed
    finally show ?thesis .
  qed
qed

text \<open>A Python set of integers as its sorted, duplicate-free list: equal sets are equal lists.\<close>

type_synonym int_set = "int list"

definition int_set_of :: "int list \<Rightarrow> int_set" where
  "int_set_of xs = sort (remdups xs)"

definition int_set_add :: "int \<Rightarrow> int_set \<Rightarrow> int_set" where
  "int_set_add x s = List.insort_insert x s"

lemma set_int_set_of [simp]: "set (int_set_of xs) = set xs"
  by (simp add: int_set_of_def)

lemma set_int_set_add [simp]: "set (int_set_add x s) = insert x (set s)"
  by (simp add: int_set_add_def set_insort_insert)

lemma int_set_add_canonical: "sorted s \<and> distinct s \<Longrightarrow> sorted (int_set_add x s) \<and> distinct (int_set_add x s)"
  by (simp add: int_set_add_def sorted_insort_insert distinct_insort_insert)

subsection \<open>Dictionaries\<close>

type_synonym ('k, 'v) dict = "('k \<times> 'v) list"

definition dict_ok :: "('k, 'v) dict \<Rightarrow> bool" where
  "dict_ok d = distinct (map fst d)"

locale dict_table =
  fixes get :: "'d \<Rightarrow> 'k \<Rightarrow> 'v option"
    and put :: "'k \<Rightarrow> 'v \<Rightarrow> 'd \<Rightarrow> 'd"
    and del :: "'k \<Rightarrow> 'd \<Rightarrow> 'd"
    and items :: "'d \<Rightarrow> ('k \<times> 'v) list"
    and ok :: "'d \<Rightarrow> bool"
  assumes get_put: "get (put k v d) j = (if j = k then Some v else get d j)"
    and get_del: "get (del k d) j = (if j = k then None else get d j)"
    and get_items: "ok d \<Longrightarrow> get d k = Some v \<longleftrightarrow> (k, v) \<in> set (items d)"
    and ok_put: "ok d \<Longrightarrow> ok (put k v d)"
    and ok_del: "ok d \<Longrightarrow> ok (del k d)"
    and size_put: "ok d \<Longrightarrow> length (items (put k v d)) =
      (if get d k = None then Suc (length (items d)) else length (items d))"
    and size_del: "ok d \<Longrightarrow> length (items (del k d)) =
      (if get d k = None then length (items d) else length (items d) - 1)"
begin

lemma get_put_same: "get (put k v d) k = Some v"
  by (simp add: get_put)

lemma get_put_other: "j \<noteq> k \<Longrightarrow> get (put k v d) j = get d j"
  by (simp add: get_put)

lemma get_fold_del: "get (fold del ks d) j = (if j \<in> set ks then None else get d j)"
  by (induction ks arbitrary: d) (auto simp: get_del)

lemma ok_fold_del: "ok d \<Longrightarrow> ok (fold del ks d)"
  by (induction ks arbitrary: d) (auto simp: ok_del)

lemma size_fold_del: "ok d \<Longrightarrow> length (items (fold del ks d)) \<le> length (items d)"
proof (induction ks arbitrary: d)
  case Nil
  then show ?case by simp
next
  case (Cons k ks)
  have "length (items (fold del ks (del k d))) \<le> length (items (del k d))"
    using Cons.IH Cons.prems ok_del by blast
  also have "\<dots> \<le> length (items d)"
    using Cons.prems by (simp add: size_del)
  finally show ?case by simp
qed

lemma get_put_del: "get (put k v (del k d)) j = get (put k v d) j"
  by (simp add: get_put get_del)

end

lemma length_AList_update:
  "length (AList.update k v d) = (if map_of d k = None then Suc (length d) else length d)"
  by (induction d) auto

lemma length_AList_delete:
  "distinct (map fst d) \<Longrightarrow>
     length (AList.delete k d) = (if map_of d k = None then length d else length d - 1)"
proof (induction d)
  case Nil
  then show ?case by simp
next
  case (Cons p d)
  show ?case
  proof (cases "fst p = k")
    case True
    with Cons.prems have "k \<notin> fst ` set d" by auto
    then have "AList.delete k d = d" by (induction d) auto
    with True show ?thesis by (cases p) simp
  next
    case False
    with Cons show ?thesis
      by (cases p; cases d) (auto simp: dom_map_of_conv_image_fst dest!: map_of_SomeD)
  qed
qed

lemma set_AList_update: "set (AList.update k v d) \<subseteq> insert (k, v) (set d)"
  by (induction d) auto

lemma set_AList_delete: "set (AList.delete k d) \<subseteq> set d"
  by (induction d) auto

interpretation py_dict: dict_table map_of AList.update AList.delete "\<lambda>d. d" dict_ok
proof unfold_locales
  fix k :: 'k and v :: 'v and d :: "('k, 'v) dict" and j :: 'k
  show "map_of (AList.update k v d) j = (if j = k then Some v else map_of d j)"
    by (simp add: update_conv')
  show "map_of (AList.delete k d) j = (if j = k then None else map_of d j)"
    by (simp add: delete_conv')
  assume ok: "dict_ok d"
  then show "map_of d k = Some v \<longleftrightarrow> (k, v) \<in> set d"
    by (simp add: dict_ok_def map_of_eq_Some_iff)
  from ok show "dict_ok (AList.update k v d)"
    by (simp add: dict_ok_def distinct_update)
  from ok show "dict_ok (AList.delete k d)"
    by (simp add: dict_ok_def distinct_delete)
  show "length (AList.update k v d) = (if map_of d k = None then Suc (length d) else length d)"
    by (rule length_AList_update)
  from ok show "length (AList.delete k d) = (if map_of d k = None then length d else length d - 1)"
    by (simp add: dict_ok_def length_AList_delete)
qed

lemmas py_dict_laws [dict_simps] =
  py_dict.get_put py_dict.get_del py_dict.ok_put py_dict.ok_del py_dict.get_fold_del

lemma mem_AList_update:
  assumes "dict_ok d"
  shows "(j, x) \<in> set (AList.update k v d) \<longleftrightarrow> (if j = k then x = v else (j, x) \<in> set d)"
proof -
  have iff: "dict_ok d' \<Longrightarrow> (j, x) \<in> set d' \<longleftrightarrow> map_of d' j = Some x" for d' :: "('a, 'b) dict" by (simp add: dict_ok_def)
  show ?thesis unfolding iff [OF assms] iff [OF py_dict.ok_put [OF assms]] by (auto simp: update_conv')
qed

lemma sort_key_Nil: "sort_key f xs = [] \<longleftrightarrow> xs = []"
  by (metis length_0_conv length_sort)

lemma dict_ok_filter: "dict_ok d \<Longrightarrow> dict_ok (filter P d)"
  by (simp add: dict_ok_def distinct_map_filter)

lemma map_of_filter_dict:
  "dict_ok d \<Longrightarrow> map_of (filter P d) k = (case map_of d k of None \<Rightarrow> None | Some v \<Rightarrow> if P (k, v) then Some v else None)"
proof (induction d)
  case (Cons p d)
  have "map_of (filter P d) k = None" if "k \<notin> fst ` set d" using that by (auto simp: map_of_eq_None_iff)
  with Cons show ?case by (cases p) (auto simp: dict_ok_def)
qed simp

text \<open>\<open>d.get(k, default)\<close>.\<close>

definition dict_get_or :: "('k, 'v) dict \<Rightarrow> 'k \<Rightarrow> 'v \<Rightarrow> 'v" where
  "dict_get_or d k v = (case map_of d k of None \<Rightarrow> v | Some x \<Rightarrow> x)"

text \<open>Room for one more in a bounded table: the entry with the least \<open>f\<close> goes, the first of them.\<close>

definition evict_least :: "nat \<Rightarrow> ('v \<Rightarrow> seconds) \<Rightarrow> ('k, 'v) dict \<Rightarrow> ('k, 'v) dict" where
  "evict_least limit f d = (if length d \<ge> limit then AList.delete (fst (arg_min_list (\<lambda>(k, v). f v) d)) d else d)"

lemma evict_least_ok:
  assumes "dict_ok d" and "length d \<le> limit" and "0 < limit"
  shows "dict_ok (evict_least limit f d)" "length (evict_least limit f d) < limit" "set (evict_least limit f d) \<subseteq> set d"
proof -
  show "dict_ok (evict_least limit f d)" using assms(1) by (simp add: evict_least_def dict_simps)
  show "set (evict_least limit f d) \<subseteq> set d" using set_AList_delete [of _ d] by (simp add: evict_least_def)
  show "length (evict_least limit f d) < limit"
  proof (cases "length d \<ge> limit")
    case True
    let ?p = "arg_min_list (\<lambda>(k, v). f v) d"
    have "d \<noteq> []" using True assms(3) by auto
    then have "?p \<in> set d" by (rule arg_min_list_in)
    then have "map_of d (fst ?p) \<noteq> None" by (auto simp: map_of_eq_None_iff)
    with True assms show ?thesis by (auto simp: evict_least_def length_AList_delete dict_ok_def)
  qed (simp add: evict_least_def)
qed

end
