(* ===== verification/Schedule.thy ===== *)
theory Schedule
  imports Prelude
begin

text \<open>
  Time-based rules (\<open>src/src/frfw/nft/schedule.py\<close>): a weekly schedule written in local time is
  rendered as kernel matches on the UTC second of the day and on the kernel's own weekday.  Those
  are two clocks that cross midnight at different moments, so the local intervals are cut at both
  midnights, grouped by hours and by days, and merged.  The main result is that the rendered
  segments match at exactly the minutes the reference semantics \<open>is_active\<close> calls active.
\<close>

definition MINUTES_PER_DAY :: int where
  "MINUTES_PER_DAY = 24 * 60"

definition MINUTES_PER_WEEK :: int where
  "MINUTES_PER_WEEK = 7 * MINUTES_PER_DAY"

definition WEEKDAY_NAMES :: "string list" where
  "WEEKDAY_NAMES = [''Monday'', ''Tuesday'', ''Wednesday'', ''Thursday'', ''Friday'', ''Saturday'', ''Sunday'']"

lemma minutes_num: "MINUTES_PER_DAY = 1440" "MINUTES_PER_WEEK = 10080"
  by (simp_all add: MINUTES_PER_DAY_def MINUTES_PER_WEEK_def)

lemmas minutes_defs = MINUTES_PER_DAY_def MINUTES_PER_WEEK_def

record schedule_clock =
  utc_offset_minutes :: int
  kernel_minuteswest :: int

definition clock_describe :: "schedule_clock \<Rightarrow> string" where
  "clock_describe c =
     (let sign = (if 0 \<le> utc_offset_minutes c then ''+'' else ''-'');
          a = nat \<bar>utc_offset_minutes c\<bar>
      in ''UTC'' @ sign @ show_02d (a div 60) @ '':'' @ show_02d (a mod 60))"

record segment =
  seg_days :: "string list option"
  seg_hours :: "(int \<times> int) option"

definition hms :: "int \<Rightarrow> string" where
  "hms s = show_02d (nat (s div 3600)) @ '':'' @ show_02d (nat (s mod 3600 div 60)) @ '':'' @
     show_02d (nat (s mod 3600 mod 60))"

definition segment_render :: "segment \<Rightarrow> string" where
  "segment_render seg =
     py_join '' ''
       ((case seg_days seg of None \<Rightarrow> []
         | Some ds \<Rightarrow> (let names = map quoted ds in
             [if length names = 1 then ''meta day '' @ hd names
              else ''meta day { '' @ py_join '', '' names @ '' }'']))
        @ (case seg_hours seg of None \<Rightarrow> []
           | Some (lo, hi) \<Rightarrow> [''meta hour '' @ quoted (hms lo) @ ''-'' @ quoted (hms hi)]))"

text \<open>The schedule as \<open>[a, b)\<close> minutes-of-week intervals in local time.\<close>

definition window_length :: "int \<Rightarrow> int \<Rightarrow> int" where
  "window_length start end' = (if start < end' then end' - start else MINUTES_PER_DAY - start + end')"

definition local_intervals :: "int list \<Rightarrow> int \<Rightarrow> int \<Rightarrow> (int \<times> int) list" where
  "local_intervals days start end' =
     (let len = window_length start end' in
      map (\<lambda>d. (d * MINUTES_PER_DAY + start, d * MINUTES_PER_DAY + start + len)) (sort days))"

definition is_active :: "int list \<Rightarrow> int \<Rightarrow> int \<Rightarrow> int \<Rightarrow> bool" where
  "is_active days start end' local_minute_of_week =
     (let t = local_minute_of_week mod MINUTES_PER_WEEK in
      list_ex (\<lambda>(a, b). (a \<le> t \<and> t < b) \<or> (a \<le> t + MINUTES_PER_WEEK \<and> t + MINUTES_PER_WEEK < b))
        (local_intervals days start end'))"

text \<open>Minutes \<open>t\<close> with \<open>a < t < b\<close> where the clock \<open>UTC + shift\<close> reads 00:00.\<close>

definition midnights :: "int \<Rightarrow> int \<Rightarrow> int \<Rightarrow> int list" where
  "midnights a b shift =
     py_range (((a + shift) div MINUTES_PER_DAY + 1) * MINUTES_PER_DAY - shift) b MINUTES_PER_DAY"

definition pieces_of :: "schedule_clock \<Rightarrow> int \<times> int \<Rightarrow> (int \<times> int) list" where
  "pieces_of clock = (\<lambda>(a0, b0).
     let kernel_shift = - kernel_minuteswest clock;
         a = a0 - utc_offset_minutes clock;
         b = b0 - utc_offset_minutes clock;
         cuts = int_set_of (midnights a b 0 @ midnights a b kernel_shift);
         bounds = a # cuts @ [b]
     in zip bounds (tl bounds))"

definition add_by_hours :: "int \<Rightarrow> int \<times> int \<Rightarrow> (int \<times> int, int_set) dict \<Rightarrow> (int \<times> int, int_set) dict" where
  "add_by_hours kernel_shift = (\<lambda>(p, q) by_hours.
     let kernel_day = (p + kernel_shift) div MINUTES_PER_DAY mod 7;
         day_start = p - p mod MINUTES_PER_DAY;
         hours = ((p - day_start) * 60, (q - day_start) * 60 - 1)
     in AList.update hours (int_set_add kernel_day (dict_get_or by_hours hours [])) by_hours)"

definition add_by_days :: "(int \<times> int) \<times> int_set \<Rightarrow> (int_set, (int \<times> int) list) dict \<Rightarrow>
    (int_set, (int \<times> int) list) dict" where
  "add_by_days = (\<lambda>(hours, day_set) by_days.
     AList.update day_set (dict_get_or by_days day_set [] @ [hours]) by_days)"

definition merge_range :: "int \<times> int \<Rightarrow> (int \<times> int) list \<Rightarrow> (int \<times> int) list" where
  "merge_range = (\<lambda>(lo, hi) merged.
     if merged \<noteq> [] \<and> lo \<le> snd (last merged) + 1
     then butlast merged @ [(fst (last merged), max (snd (last merged)) hi)]
     else merged @ [(lo, hi)])"

definition segments_of_days :: "int_set \<times> (int \<times> int) list \<Rightarrow> segment list" where
  "segments_of_days = (\<lambda>(day_set, ranges).
     let merged = fold merge_range (sort ranges) [];
         day_names = (if length day_set = 7 then None
                      else Some (map (\<lambda>d. WEEKDAY_NAMES ! nat d) (sort day_set)))
     in map (\<lambda>(lo, hi). \<lparr>seg_days = day_names,
          seg_hours = (if (lo, hi) = (0, MINUTES_PER_DAY * 60 - 1) then None else Some (lo, hi))\<rparr>) merged)"

definition segment_key :: "segment \<Rightarrow> (int \<times> int) \<times> string list" where
  "segment_key seg =
     (case seg_hours seg of None \<Rightarrow> (0, 0) | Some h \<Rightarrow> h,
      case seg_days seg of None \<Rightarrow> [] | Some ds \<Rightarrow> ds)"

definition segments :: "int list \<Rightarrow> int \<Rightarrow> int \<Rightarrow> schedule_clock \<Rightarrow> segment list" where
  "segments days start end' clock =
     (let kernel_shift = - kernel_minuteswest clock;
          pieces = concat (map (pieces_of clock) (local_intervals days start end'));
          by_hours = fold (add_by_hours kernel_shift) pieces [];
          by_days = fold add_by_days by_hours [];
          out = concat (map segments_of_days by_days)
      in sort_key segment_key out)"

text \<open>What the kernel decides for one segment at a UTC minute of the week.\<close>

definition segment_matches :: "segment \<Rightarrow> int \<Rightarrow> schedule_clock \<Rightarrow> bool" where
  "segment_matches seg utc_minute_of_week clock =
     (let t = utc_minute_of_week mod MINUTES_PER_WEEK;
          kernel_day = (t - kernel_minuteswest clock) div MINUTES_PER_DAY mod 7;
          second = t mod MINUTES_PER_DAY * 60
      in (case seg_days seg of None \<Rightarrow> True | Some ds \<Rightarrow> WEEKDAY_NAMES ! nat kernel_day \<in> set ds)
       \<and> (case seg_hours seg of None \<Rightarrow> True | Some (lo, hi) \<Rightarrow> lo \<le> second \<and> second \<le> hi))"

definition describe :: "int list \<Rightarrow> int \<Rightarrow> int \<Rightarrow> string" where
  "describe days start end' =
     (let day_set = int_set_of days;
          day_text = (if day_set = [0, 1, 2, 3, 4, 5, 6] then ''Daily''
                      else if day_set = [0, 1, 2, 3, 4] then ''Mon-Fri''
                      else if day_set = [5, 6] then ''Sat-Sun''
                      else py_join '', '' (map (\<lambda>d. take 3 (WEEKDAY_NAMES ! nat d)) day_set));
          fmt = (\<lambda>m. show_02d (nat (m div 60)) @ '':'' @ show_02d (nat (m mod 60)))
      in day_text @ '' '' @ fmt start @ ''-'' @ fmt end')"

text \<open>The schedules the config loader lets through.\<close>

definition schedule_ok :: "int list \<Rightarrow> int \<Rightarrow> int \<Rightarrow> bool" where
  "schedule_ok days start end' \<longleftrightarrow>
     (\<forall>d\<in>set days. 0 \<le> d \<and> d < 7) \<and> 0 \<le> start \<and> start < MINUTES_PER_DAY \<and> 0 \<le> end' \<and> end' \<le> MINUTES_PER_DAY"


subsection \<open>Cutting an interval at both midnights\<close>

abbreviation kernel_day_of :: "schedule_clock \<Rightarrow> int \<Rightarrow> int" where
  "kernel_day_of clock t \<equiv> (t - kernel_minuteswest clock) div 1440 mod 7"

lemma day_multiple_mod: "(d * 1440 + r) mod 1440 = r" if "0 \<le> r" "r < 1440" for d r :: int
  using that by simp

lemma set_midnights:
  "t \<in> set (midnights a b shift) \<longleftrightarrow> a < t \<and> t < b \<and> (t + shift) mod 1440 = 0"
proof -
  let ?f = "((a + shift) div 1440 + 1) * 1440 - shift"
  have "(t - ?f) mod 1440 = (t + shift + (- ((a + shift) div 1440) - 1) * 1440) mod 1440"
    by (simp add: algebra_simps)
  then have m: "(t - ?f) mod 1440 = (t + shift) mod 1440"
    by (simp only: mod_mult_self1)
  have b: "?f \<le> t \<longleftrightarrow> a < t" if z: "(t + shift) mod 1440 = 0"
  proof -
    define A where "A = (a + shift) div 1440"
    define Q where "Q = (t + shift) div 1440"
    have t: "t + shift = Q * 1440"
      using z div_mult_mod_eq [of "t + shift" 1440] by (simp add: Q_def)
    have a: "A * 1440 \<le> a + shift" "a + shift < A * 1440 + 1440"
      using div_mult_mod_eq [of "a + shift" 1440] pos_mod_bound [of 1440 "a + shift"]
        pos_mod_sign [of 1440 "a + shift"] unfolding A_def by linarith+
    have "(A + 1) * 1440 - shift \<le> t \<longleftrightarrow> a < t"
    proof
      show "a < t" if "(A + 1) * 1440 - shift \<le> t" using that a by (simp add: algebra_simps)
      show "(A + 1) * 1440 - shift \<le> t" if "a < t"
      proof -
        from that t a have "A * 1440 < Q * 1440" by linarith
        then have "A + 1 \<le> Q" by simp
        then show ?thesis using t by (simp add: algebra_simps)
      qed
    qed
    then show ?thesis by (simp add: A_def)
  qed
  show ?thesis
    unfolding midnights_def minutes_defs by (subst set_py_range) (use m b in auto)
qed

lemma zip_tl_consecutive:
  fixes xs :: "int list"
  assumes "sorted_wrt (<) xs" and "(p, q) \<in> set (zip xs (tl xs))"
  shows "p < q \<and> hd xs \<le> p \<and> q \<le> last xs \<and> (\<forall>x\<in>set xs. x \<le> p \<or> q \<le> x)"
  using assms
proof (induction xs rule: induct_list012)
  case (3 x y zs)
  show ?case
  proof (cases "(p, q) = (x, y)")
    case True
    with 3 show ?thesis by (cases zs) (auto simp: less_imp_le)
  next
    case False
    with 3 have "p < q \<and> y \<le> p \<and> q \<le> last (y # zs) \<and> (\<forall>z\<in>set (y # zs). z \<le> p \<or> q \<le> z)"
      by auto
    with 3 show ?thesis by auto
  qed
qed auto

lemma zip_tl_covers:
  fixes xs :: "int list"
  assumes "xs \<noteq> []" and "sorted_wrt (<) xs"
  shows "(\<exists>(p, q)\<in>set (zip xs (tl xs)). p \<le> s \<and> s < q) \<longleftrightarrow> hd xs \<le> s \<and> s < last xs"
  using assms
proof (induction xs rule: induct_list012)
  case (3 x y zs)
  then have le: "x < y" "y \<le> last (y # zs)" by (auto simp: less_imp_le)
  have "(\<exists>(p, q)\<in>set (zip (x # y # zs) (tl (x # y # zs))). p \<le> s \<and> s < q) \<longleftrightarrow>
      (x \<le> s \<and> s < y) \<or> (\<exists>(p, q)\<in>set (zip (y # zs) (tl (y # zs))). p \<le> s \<and> s < q)"
    by auto
  also have "\<dots> \<longleftrightarrow> (x \<le> s \<and> s < y) \<or> (y \<le> s \<and> s < last (y # zs))"
    using 3 by simp
  also have "\<dots> \<longleftrightarrow> x \<le> s \<and> s < last (x # y # zs)"
    using le by auto
  finally show ?case by simp
qed auto

definition uncut :: "schedule_clock \<Rightarrow> int \<Rightarrow> int \<Rightarrow> bool" where
  "uncut clock p q \<longleftrightarrow> p < q \<and>
     (\<forall>s. p < s \<and> s < q \<longrightarrow> s mod 1440 \<noteq> 0 \<and> (s - kernel_minuteswest clock) mod 1440 \<noteq> 0)"

lemma pieces_of_bounds:
  assumes "a0 < b0"
  obtains xs where "pieces_of clock (a0, b0) = zip xs (tl xs)" and "xs \<noteq> []" and "sorted_wrt (<) xs"
    and "hd xs = a0 - utc_offset_minutes clock" and "last xs = b0 - utc_offset_minutes clock"
    and "\<And>s. hd xs < s \<Longrightarrow> s < last xs \<Longrightarrow>
      s mod 1440 = 0 \<or> (s - kernel_minuteswest clock) mod 1440 = 0 \<Longrightarrow> s \<in> set xs"
proof -
  let ?a = "a0 - utc_offset_minutes clock" and ?b = "b0 - utc_offset_minutes clock"
  let ?cuts = "int_set_of (midnights ?a ?b 0 @ midnights ?a ?b (- kernel_minuteswest clock))"
  let ?xs = "?a # ?cuts @ [?b]"
  have inside: "\<forall>c\<in>set ?cuts. ?a < c \<and> c < ?b" by (simp add: set_midnights ball_Un)
  have "sorted_wrt (<) ?cuts"
    by (simp add: int_set_of_def strict_sorted_iff)
  then have "sorted_wrt (<) ?xs"
    using inside assms by (simp add: sorted_wrt_append)
  moreover have "pieces_of clock (a0, b0) = zip ?xs (tl ?xs)"
    by (simp add: pieces_of_def Let_def)
  moreover have "s \<in> set ?xs" if "hd ?xs < s" "s < last ?xs"
    "s mod 1440 = 0 \<or> (s - kernel_minuteswest clock) mod 1440 = 0" for s
    using that by (simp add: set_midnights disj_commute)
  ultimately show ?thesis
    by (intro that [of ?xs]) simp_all
qed

lemma pieces_of_uncut:
  assumes "a0 < b0" and "(p, q) \<in> set (pieces_of clock (a0, b0))"
  shows "uncut clock p q"
proof -
  obtain xs where xs: "pieces_of clock (a0, b0) = zip xs (tl xs)" "sorted_wrt (<) xs"
      "hd xs = a0 - utc_offset_minutes clock" "last xs = b0 - utc_offset_minutes clock"
    and cuts: "\<And>s. hd xs < s \<Longrightarrow> s < last xs \<Longrightarrow>
      s mod 1440 = 0 \<or> (s - kernel_minuteswest clock) mod 1440 = 0 \<Longrightarrow> s \<in> set xs"
    using pieces_of_bounds [OF assms(1), of clock] by blast
  have c: "p < q" "hd xs \<le> p" "q \<le> last xs" "\<forall>x\<in>set xs. x \<le> p \<or> q \<le> x"
    using zip_tl_consecutive [OF xs(2)] assms(2) xs(1) by auto
  show ?thesis
    unfolding uncut_def
  proof (intro conjI allI impI)
    show "p < q" by (rule c(1))
    fix s assume s: "p < s \<and> s < q"
    with c have out: "s \<notin> set xs" by fastforce
    from s c have "hd xs < s" "s < last xs" by auto
    from cuts [OF this] out show "s mod 1440 \<noteq> 0" "(s - kernel_minuteswest clock) mod 1440 \<noteq> 0"
      by auto
  qed
qed

lemma pieces_of_cover:
  assumes "a0 < b0"
  shows "(\<exists>(p, q)\<in>set (pieces_of clock (a0, b0)). p \<le> s \<and> s < q) \<longleftrightarrow>
    a0 \<le> s + utc_offset_minutes clock \<and> s + utc_offset_minutes clock < b0"
proof -
  obtain xs where xs: "pieces_of clock (a0, b0) = zip xs (tl xs)" "xs \<noteq> []" "sorted_wrt (<) xs"
      "hd xs = a0 - utc_offset_minutes clock" "last xs = b0 - utc_offset_minutes clock"
    using pieces_of_bounds [OF assms, of clock] by blast
  then show ?thesis
    using zip_tl_covers [OF xs(2,3), of s] by auto
qed

lemma uncut_same_day:
  assumes "uncut clock p q" and "p \<le> s" and "s < q"
  shows "s div 1440 = p div 1440"
    and "(s - kernel_minuteswest clock) div 1440 = (p - kernel_minuteswest clock) div 1440"
proof -
  have same: "(s + k) div 1440 = (p + k) div 1440"
    if cut: "\<And>x. p < x \<Longrightarrow> x < q \<Longrightarrow> (x + k) mod 1440 \<noteq> 0" for k :: int
  proof (rule ccontr)
    assume ne: "(s + k) div 1440 \<noteq> (p + k) div 1440"
    have "(p + k) div 1440 \<le> (s + k) div 1440"
      using assms(2) by (simp add: zdiv_mono1)
    with ne have "(p + k) div 1440 < (s + k) div 1440" by simp
    moreover define x where "x = (s + k) div 1440 * 1440 - k"
    ultimately have "p < x"
      using div_mult_mod_eq [of "p + k" 1440] pos_mod_bound [of 1440 "p + k"] by linarith
    moreover have "x \<le> s"
      using div_mult_mod_eq [of "s + k" 1440] pos_mod_sign [of 1440 "s + k"] by (simp add: x_def)
    moreover have "(x + k) mod 1440 = 0" by (simp add: x_def)
    ultimately show False using cut [of x] assms(3) by simp
  qed
  show "s div 1440 = p div 1440"
    using same [of 0] assms(1) by (auto simp: uncut_def)
  show "(s - kernel_minuteswest clock) div 1440 = (p - kernel_minuteswest clock) div 1440"
    using same [of "- kernel_minuteswest clock"] assms(1) by (auto simp: uncut_def)
qed


subsection \<open>One piece against the kernel's two clocks\<close>

definition piece_hours :: "int \<times> int \<Rightarrow> int \<times> int" where
  "piece_hours = (\<lambda>(p, q). ((p - (p - p mod 1440)) * 60, (q - (p - p mod 1440)) * 60 - 1))"

definition in_hours :: "int \<times> int \<Rightarrow> int \<Rightarrow> bool" where
  "in_hours h t \<longleftrightarrow> fst h \<le> t mod 1440 * 60 \<and> t mod 1440 * 60 \<le> snd h"

lemma piece_hit_forward:
  assumes cut: "uncut clock p q" and s: "p \<le> s" "s < q" and st: "s = t + 10080 * m"
  shows "kernel_day_of clock t = kernel_day_of clock p \<and> in_hours (piece_hours (p, q)) t"
proof
  let ?k = "kernel_minuteswest clock"
  have "(s - ?k) div 1440 = (t - ?k + 1440 * (7 * m)) div 1440"
    by (simp add: st algebra_simps)
  also have "\<dots> = 7 * m + (t - ?k) div 1440"
    by (rule div_mult_self2) simp
  finally have "(t - ?k) div 1440 mod 7 = (s - ?k) div 1440 mod 7"
    by simp
  then show "kernel_day_of clock t = kernel_day_of clock p"
    using uncut_same_day(2) [OF cut s] by simp
  have sm: "s mod 1440 = t mod 1440"
    using mod_mult_self2 [of t 1440 "7 * m"] by (simp add: st)
  define P where "P = p div 1440"
  have p: "p = P * 1440 + p mod 1440" by (simp add: P_def)
  have "s = P * 1440 + s mod 1440"
    using div_mult_mod_eq [of s 1440] uncut_same_day(1) [OF cut s] by (simp add: P_def)
  with p s have "p mod 1440 \<le> t mod 1440" "t mod 1440 < q - P * 1440"
    unfolding sm by linarith+
  with p show "in_hours (piece_hours (p, q)) t"
    by (simp add: in_hours_def piece_hours_def algebra_simps)
qed

lemma piece_hit_backward:
  assumes cut: "uncut clock p q" and day: "kernel_day_of clock t = kernel_day_of clock p"
    and hours: "in_hours (piece_hours (p, q)) t"
  shows "\<exists>s m. p \<le> s \<and> s < q \<and> s = t + 10080 * m"
proof -
  let ?k = "kernel_minuteswest clock"
  define P where "P = p div 1440"
  define T where "T = t div 1440"
  define r where "r = t mod 1440"
  define s where "s = P * 1440 + r"
  have p: "p = P * 1440 + p mod 1440" by (simp add: P_def)
  have t: "t = T * 1440 + r" by (simp add: T_def r_def)
  have "p - p mod 1440 = P * 1440" using p by linarith
  with hours have "p mod 1440 * 60 \<le> t mod 1440 * 60" "t mod 1440 * 60 \<le> (q - P * 1440) * 60 - 1"
    by (simp_all add: in_hours_def piece_hours_def)
  then have "p mod 1440 \<le> t mod 1440" "t mod 1440 < q - P * 1440" by simp_all
  then have s: "p \<le> s" "s < q" using p by (simp_all add: s_def r_def)
  have "s - ?k = (t - ?k) + 1440 * (P - T)" using t by (simp add: s_def algebra_simps)
  then have "(s - ?k) div 1440 = (t - ?k) div 1440 + (P - T)"
    using div_mult_self2 [of 1440 "t - ?k" "P - T"] by simp
  with day uncut_same_day(2) [OF cut s]
  have "((t - ?k) div 1440 + (P - T)) mod 7 = (t - ?k) div 1440 mod 7" by simp
  then have "7 dvd P - T"
    by (metis add_diff_cancel_left' mod_eq_dvd_iff)
  then obtain m where "P - T = 7 * m" ..
  then have "s = t + 10080 * m" using t unfolding s_def by linarith
  with s show ?thesis by blast
qed

lemma piece_hit:
  "uncut clock p q \<Longrightarrow>
    (kernel_day_of clock t = kernel_day_of clock p \<and> in_hours (piece_hours (p, q)) t) \<longleftrightarrow>
    (\<exists>s m. p \<le> s \<and> s < q \<and> s = t + 10080 * m)"
  using piece_hit_forward piece_hit_backward by blast


subsection \<open>Grouping and merging keep the union\<close>

lemma add_by_hours_eq:
  "add_by_hours (- kernel_minuteswest clock) (p, q) bh =
     AList.update (piece_hours (p, q))
       (int_set_add (kernel_day_of clock p) (dict_get_or bh (piece_hours (p, q)) [])) bh"
  by (simp add: add_by_hours_def piece_hours_def Let_def MINUTES_PER_DAY_def)

definition days_at :: "(int \<times> int, int_set) dict \<Rightarrow> int \<times> int \<Rightarrow> int set" where
  "days_at bh h = set (dict_get_or bh h [])"

lemma days_at_items: "dict_ok bh \<Longrightarrow> d \<in> days_at bh h \<longleftrightarrow> (\<exists>ds. (h, ds) \<in> set bh \<and> d \<in> set ds)"
  by (auto simp: days_at_def dict_get_or_def dict_ok_def split: option.split)

lemma days_at_add:
  "days_at (add_by_hours (- kernel_minuteswest clock) pq bh) h =
     (if h = piece_hours pq then insert (kernel_day_of clock (fst pq)) (days_at bh h) else days_at bh h)"
  by (cases pq; cases "map_of bh (piece_hours pq)") (auto simp: add_by_hours_eq days_at_def dict_get_or_def dict_simps)

lemma days_at_fold:
  "d \<in> days_at (fold (add_by_hours (- kernel_minuteswest clock)) pieces bh) h \<longleftrightarrow>
     d \<in> days_at bh h \<or> (\<exists>pq\<in>set pieces. h = piece_hours pq \<and> d = kernel_day_of clock (fst pq))"
  by (induction pieces arbitrary: bh) (auto simp: days_at_add)

definition by_hours_ok :: "(int \<times> int, int_set) dict \<Rightarrow> bool" where
  "by_hours_ok bh \<longleftrightarrow> dict_ok bh \<and>
     (\<forall>(h, ds)\<in>set bh. sorted ds \<and> distinct ds \<and> set ds \<subseteq> {0..<7})"

lemma AList_update_set: "set (AList.update k v d) \<subseteq> insert (k, v) (set d)"
  by (induction d) auto

lemma by_hours_ok_add:
  fixes clock :: schedule_clock
  assumes ok: "by_hours_ok bh"
  shows "by_hours_ok (add_by_hours (- kernel_minuteswest clock) pq bh)"
proof (cases pq)
  case pq: (Pair p q)
  let ?ds = "dict_get_or bh (piece_hours (p, q)) []"
  have "sorted ?ds \<and> distinct ?ds \<and> set ?ds \<subseteq> {0..<7}"
    using ok by (force simp: by_hours_ok_def dict_get_or_def split: option.split dest: map_of_SomeD)
  then have "sorted (int_set_add (kernel_day_of clock p) ?ds) \<and>
      distinct (int_set_add (kernel_day_of clock p) ?ds) \<and>
      set (int_set_add (kernel_day_of clock p) ?ds) \<subseteq> {0..<7}"
    using int_set_add_canonical [of ?ds] by (simp add: pos_mod_bound)
  moreover have "dict_ok bh" "\<forall>(h, ds)\<in>set bh. sorted ds \<and> distinct ds \<and> set ds \<subseteq> {0..<7}"
    using ok by (auto simp: by_hours_ok_def)
  ultimately show ?thesis
    using AList_update_set unfolding by_hours_ok_def pq add_by_hours_eq
    by (intro conjI ballI) (fastforce simp: dict_simps dest!: subsetD [OF AList_update_set])+
qed

lemma by_hours_ok_fold:
  "by_hours_ok bh \<Longrightarrow>
     by_hours_ok (fold (add_by_hours (- kernel_minuteswest (clock :: schedule_clock))) pieces bh)"
  by (induction pieces arbitrary: bh) (auto simp: by_hours_ok_add)

definition ranges_at :: "(int_set, (int \<times> int) list) dict \<Rightarrow> int_set \<Rightarrow> (int \<times> int) set" where
  "ranges_at bd ds = set (dict_get_or bd ds [])"

lemma ranges_at_add:
  "ranges_at (add_by_days e bd) ds = (if ds = snd e then insert (fst e) (ranges_at bd ds) else ranges_at bd ds)"
  by (cases e; cases "map_of bd (snd e)") (auto simp: add_by_days_def ranges_at_def dict_get_or_def dict_simps)

lemma ranges_at_fold:
  "h \<in> ranges_at (fold add_by_days bh bd) ds \<longleftrightarrow> h \<in> ranges_at bd ds \<or> (h, ds) \<in> set bh"
proof (induction bh arbitrary: bd)
  case (Cons e bh)
  then show ?case by (cases e) (auto simp: ranges_at_add)
qed simp

lemma dict_ok_by_days: "dict_ok bd \<Longrightarrow> dict_ok (fold add_by_days bh bd)"
  by (induction bh arbitrary: bd) (auto simp: add_by_days_def dict_simps)

definition in_some :: "(int \<times> int) set \<Rightarrow> int \<Rightarrow> bool" where
  "in_some R x \<longleftrightarrow> (\<exists>(lo, hi)\<in>R. lo \<le> x \<and> x \<le> hi)"

lemma in_some_insert: "in_some (insert (lo, hi) R) x \<longleftrightarrow> (lo \<le> x \<and> x \<le> hi) \<or> in_some R x"
  by (auto simp: in_some_def)

lemma in_some_Un: "in_some (R \<union> S) x \<longleftrightarrow> in_some R x \<or> in_some S x"
  by (auto simp: in_some_def)

lemma in_some_merge_range:
  assumes "\<forall>(l, h)\<in>set merged. l \<le> lo"
  shows "in_some (set (merge_range (lo, hi) merged)) x \<longleftrightarrow> (lo \<le> x \<and> x \<le> hi) \<or> in_some (set merged) x"
proof (cases "merged \<noteq> [] \<and> lo \<le> snd (last merged) + 1")
  case True
  then obtain ms l h where m: "merged = ms @ [(l, h)]"
    by (metis append_butlast_last_id surj_pair)
  with assms have "l \<le> lo" by auto
  with True m show ?thesis
    by (auto simp: merge_range_def in_some_Un in_some_insert in_some_def)
next
  case False
  then show ?thesis by (auto simp: merge_range_def in_some_Un in_some_insert in_some_def)
qed

lemma merge_range_starts:
  assumes "\<forall>(l, h)\<in>set merged. l \<le> lo" and "lo \<le> lo'"
  shows "\<forall>(l, h)\<in>set (merge_range (lo, hi) merged). l \<le> lo'"
proof (cases merged rule: rev_cases)
  case Nil
  with assms show ?thesis by (simp add: merge_range_def)
next
  case (snoc ms m)
  with assms show ?thesis by (cases m) (auto simp: merge_range_def)
qed

lemma in_some_fold_merge:
  assumes "sorted ranges" and "\<forall>(l, h)\<in>set merged. \<forall>(lo, hi)\<in>set ranges. l \<le> lo"
  shows "in_some (set (fold merge_range ranges merged)) x \<longleftrightarrow> in_some (set ranges) x \<or> in_some (set merged) x"
  using assms
proof (induction ranges arbitrary: merged)
  case Nil
  then show ?case by (simp add: in_some_def)
next
  case (Cons r ranges)
  obtain lo hi where r: "r = (lo, hi)" by (cases r)
  have lo: "\<forall>(l, h)\<in>set merged. l \<le> lo" using Cons.prems(2) r by auto
  have later: "lo \<le> lo'" if "(lo', hi') \<in> set ranges" for lo' hi'
    using Cons.prems(1) that r by (auto simp: less_eq_prod_def)
  have "\<forall>(l, h)\<in>set (merge_range r merged). \<forall>(lo', hi')\<in>set ranges. l \<le> lo'"
    using merge_range_starts [OF lo] later r by fastforce
  with Cons have "in_some (set (fold merge_range ranges (merge_range r merged))) x \<longleftrightarrow>
      in_some (set ranges) x \<or> in_some (set (merge_range r merged)) x" by simp
  also have "in_some (set (merge_range r merged)) x \<longleftrightarrow> (lo \<le> x \<and> x \<le> hi) \<or> in_some (set merged) x"
    using in_some_merge_range [OF lo] r by simp
  finally show ?case by (auto simp: r in_some_insert)
qed


subsection \<open>The rendered segments mean the schedule\<close>

lemma weekday_names_distinct: "distinct WEEKDAY_NAMES" "length WEEKDAY_NAMES = 7"
  by (simp_all add: WEEKDAY_NAMES_def)

lemma weekday_name_mem:
  assumes "set ds \<subseteq> {0..<7}" and "0 \<le> d" and "d < 7"
  shows "WEEKDAY_NAMES ! nat d \<in> set (map (\<lambda>d. WEEKDAY_NAMES ! nat d) (sort ds)) \<longleftrightarrow> d \<in> set ds"
proof -
  have "WEEKDAY_NAMES ! nat d = WEEKDAY_NAMES ! nat e \<longleftrightarrow> d = e" if "e \<in> set ds" for e
  proof -
    from that assms have "0 \<le> e" "e < 7" by auto
    with assms weekday_names_distinct show ?thesis by (subst nth_eq_iff_index_eq) auto
  qed
  then show ?thesis by auto
qed

lemma seven_days: "distinct ds \<Longrightarrow> set ds \<subseteq> {0..<7} \<Longrightarrow> length ds = 7 \<Longrightarrow> set ds = {0..<7::int}"
  by (rule card_subset_eq) (simp_all add: distinct_card)

definition segment_at :: "segment \<Rightarrow> schedule_clock \<Rightarrow> int \<Rightarrow> bool" where
  "segment_at seg clock t \<longleftrightarrow>
     (case seg_days seg of None \<Rightarrow> True | Some ds \<Rightarrow> WEEKDAY_NAMES ! nat (kernel_day_of clock t) \<in> set ds)
     \<and> (case seg_hours seg of None \<Rightarrow> True | Some h \<Rightarrow> in_hours h t)"

lemma segment_matches_at: "segment_matches seg t clock \<longleftrightarrow> segment_at seg clock t"
proof -
  define m where "m = t div 10080"
  have t: "t = t mod 10080 + 10080 * m" by (simp add: m_def)
  have "(t - kernel_minuteswest clock) div 1440 =
      (t mod 10080 - kernel_minuteswest clock + 1440 * (7 * m)) div 1440"
    using t by (simp add: algebra_simps)
  also have "\<dots> = 7 * m + (t mod 10080 - kernel_minuteswest clock) div 1440"
    by (rule div_mult_self2) simp
  finally have day: "kernel_day_of clock t = kernel_day_of clock (t mod 10080)" by simp
  have second: "t mod 10080 mod 1440 = t mod 1440"
    by (rule mod_mod_cancel) simp
  show ?thesis
    unfolding segment_matches_def segment_at_def in_hours_def minutes_num Let_def day second
    by (simp add: case_prod_beta split: option.split)
qed

lemma segments_of_days_at:
  assumes "distinct ds" and "set ds \<subseteq> {0..<7}"
  shows "(\<exists>seg\<in>set (segments_of_days (ds, ranges)). segment_at seg clock t) \<longleftrightarrow>
    kernel_day_of clock t \<in> set ds \<and> (\<exists>h\<in>set ranges. in_hours h t)"
proof -
  let ?merged = "fold merge_range (sort ranges) []"
  let ?names = "if length ds = 7 then None else Some (map (\<lambda>d. WEEKDAY_NAMES ! nat d) (sort ds))"
  let ?day = "kernel_day_of clock t"
  have day: "(case ?names of None \<Rightarrow> True | Some ns \<Rightarrow> WEEKDAY_NAMES ! nat ?day \<in> set ns) \<longleftrightarrow> ?day \<in> set ds"
    using weekday_name_mem [OF assms(2), of ?day] seven_days [OF assms] by (auto simp: pos_mod_bound)
  have whole: "in_hours (0, 86399) t"
    using pos_mod_bound [of 1440 t] pos_mod_sign [of 1440 t] by (simp add: in_hours_def)
  define mk where "mk = (\<lambda>h. \<lparr>seg_days = ?names,
      seg_hours = (if h = (0, 86399) then None else Some h)\<rparr>)"
  have mk: "segment_at (mk h) clock t \<longleftrightarrow> ?day \<in> set ds \<and> in_hours h t" for h
    unfolding mk_def segment_at_def segment.select_convs day using whole by simp
  have "segments_of_days (ds, ranges) = map mk ?merged"
    by (simp add: segments_of_days_def minutes_num mk_def Let_def split_beta prod_eq_iff)
  then have "(\<exists>seg\<in>set (segments_of_days (ds, ranges)). segment_at seg clock t) \<longleftrightarrow>
      ?day \<in> set ds \<and> (\<exists>h\<in>set ?merged. in_hours h t)"
    by (simp add: mk)
  also have "(\<exists>h\<in>set ?merged. in_hours h t) \<longleftrightarrow> in_some (set ?merged) (t mod 1440 * 60)"
    by (simp add: in_hours_def in_some_def case_prod_beta)
  also have "\<dots> \<longleftrightarrow> in_some (set ranges) (t mod 1440 * 60)"
    using in_some_fold_merge [of "sort ranges" "[]"] by (simp add: in_some_def)
  also have "\<dots> \<longleftrightarrow> (\<exists>h\<in>set ranges. in_hours h t)"
    by (simp add: in_hours_def in_some_def case_prod_beta)
  finally show ?thesis .
qed

lemma segments_of_days_Nil: "segments_of_days (ds, []) = []"
  by (simp add: segments_of_days_def)

lemma segments_hit_pieces:
  fixes clock :: schedule_clock
  defines "pieces \<equiv> \<lambda>days start end'. concat (map (pieces_of clock) (local_intervals days start end'))"
  shows "(\<exists>seg\<in>set (segments days start end' clock). segment_matches seg t clock) \<longleftrightarrow>
    (\<exists>(p, q)\<in>set (pieces days start end').
       kernel_day_of clock t = kernel_day_of clock p \<and> in_hours (piece_hours (p, q)) t)"
proof -
  let ?bh = "fold (add_by_hours (- kernel_minuteswest clock)) (pieces days start end') []"
  let ?bd = "fold add_by_days ?bh []"
  have bh: "by_hours_ok ?bh" by (rule by_hours_ok_fold) (simp add: by_hours_ok_def dict_ok_def)
  have bd: "dict_ok ?bd" by (rule dict_ok_by_days) (simp add: dict_ok_def)
  have mem: "h \<in> set rs \<longleftrightarrow> (h, ds) \<in> set ?bh" if "(ds, rs) \<in> set ?bd" for ds rs h
    using ranges_at_fold [of h ?bh "[]" ds] that bd
    by (simp add: ranges_at_def dict_get_or_def dict_ok_def)
  have ex: "\<exists>rs. (ds, rs) \<in> set ?bd" if "(h, ds) \<in> set ?bh" for h ds
    using ranges_at_fold [of h ?bh "[]" ds] that
    by (cases "map_of ?bd ds") (auto simp: ranges_at_def dict_get_or_def dest: map_of_SomeD)
  have canon: "distinct ds \<and> set ds \<subseteq> {0..<7}" if "(ds, rs) \<in> set ?bd" "h \<in> set rs" for ds rs h
    using that mem bh by (fastforce simp: by_hours_ok_def)
  have "(\<exists>seg\<in>set (segments days start end' clock). segment_matches seg t clock) \<longleftrightarrow>
      (\<exists>(ds, rs)\<in>set ?bd. \<exists>seg\<in>set (segments_of_days (ds, rs)). segment_at seg clock t)"
    by (auto simp: segments_def Let_def pieces_def segment_matches_at)
  also have "\<dots> \<longleftrightarrow> (\<exists>(ds, rs)\<in>set ?bd. kernel_day_of clock t \<in> set ds \<and> (\<exists>h\<in>set rs. in_hours h t))"
  proof (rule bex_cong [OF refl], clarify)
    fix ds rs assume mem: "(ds, rs) \<in> set ?bd"
    show "(\<exists>seg\<in>set (segments_of_days (ds, rs)). segment_at seg clock t) \<longleftrightarrow>
        kernel_day_of clock t \<in> set ds \<and> (\<exists>h\<in>set rs. in_hours h t)"
    proof (cases rs)
      case Nil
      then show ?thesis by (simp add: segments_of_days_Nil)
    next
      case (Cons r rs')
      then have "distinct ds" "set ds \<subseteq> {0..<7}" using canon [OF mem, of r] by simp_all
      then show ?thesis by (rule segments_of_days_at)
    qed
  qed
  also have "\<dots> \<longleftrightarrow> (\<exists>(h, ds)\<in>set ?bh. kernel_day_of clock t \<in> set ds \<and> in_hours h t)"
    using mem ex by fast
  also have "\<dots> \<longleftrightarrow> (\<exists>h. kernel_day_of clock t \<in> days_at ?bh h \<and> in_hours h t)"
    using days_at_items [of ?bh] bh by (auto simp: by_hours_ok_def)
  also have "\<dots> \<longleftrightarrow> (\<exists>(p, q)\<in>set (pieces days start end').
      kernel_day_of clock t = kernel_day_of clock p \<and> in_hours (piece_hours (p, q)) t)"
  proof -
    have "days_at [] h = {}" for h by (simp add: days_at_def dict_get_or_def)
    then have "(\<exists>h. kernel_day_of clock t \<in> days_at ?bh h \<and> in_hours h t) \<longleftrightarrow>
        (\<exists>pq\<in>set (pieces days start end').
          kernel_day_of clock t = kernel_day_of clock (fst pq) \<and> in_hours (piece_hours pq) t)"
      unfolding days_at_fold by blast
    then show ?thesis by (simp only: case_prod_beta' prod.collapse)
  qed
  finally show ?thesis .
qed


lemma window_length_bounds:
  "schedule_ok days start end' \<Longrightarrow> days \<noteq> [] \<Longrightarrow> 0 \<le> window_length start end' \<and> window_length start end' \<le> 1440"
  by (auto simp: schedule_ok_def window_length_def minutes_num)

lemma local_interval_bounds:
  assumes "schedule_ok days start end'" and "(a, b) \<in> set (local_intervals days start end')"
  shows "0 \<le> a \<and> a < b \<and> a < 10080 \<and> b \<le> a + 1440"
proof -
  from assms obtain d where "d \<in> set days" and ab: "a = d * 1440 + start" "b = a + window_length start end'"
    by (auto simp: local_intervals_def minutes_num)
  with assms(1) show ?thesis
    by (auto simp: schedule_ok_def window_length_def minutes_num)
qed

lemma is_active_iff:
  assumes "schedule_ok days start end'"
  shows "is_active days start end' u \<longleftrightarrow>
    (\<exists>(a, b)\<in>set (local_intervals days start end'). \<exists>m. a \<le> u + 10080 * m \<and> u + 10080 * m < b)"
proof -
  define r where "r = u mod 10080"
  define M where "M = u div 10080"
  have r: "0 \<le> r" "r < 10080" by (simp_all add: r_def)
  have u: "u = r + 10080 * M" by (simp add: r_def M_def)
  have "(a \<le> r \<and> r < b) \<or> (a \<le> r + 10080 \<and> r + 10080 < b) \<longleftrightarrow>
      (\<exists>m. a \<le> u + 10080 * m \<and> u + 10080 * m < b)" (is "?L \<longleftrightarrow> ?R")
    if "(a, b) \<in> set (local_intervals days start end')" for a b
  proof
    assume ?L
    then show ?R
    proof
      assume "a \<le> r \<and> r < b" then show ?R by (intro exI [of _ "- M"]) (simp add: u)
    next
      assume "a \<le> r + 10080 \<and> r + 10080 < b" then show ?R by (intro exI [of _ "1 - M"]) (simp add: u)
    qed
  next
    assume ?R
    then obtain m where m: "a \<le> u + 10080 * m" "u + 10080 * m < b" by blast
    define n where "n = M + m"
    have n: "u + 10080 * m = r + 10080 * n" by (simp add: u n_def algebra_simps)
    have ab: "0 \<le> a" "a < 10080" "b \<le> a + 1440" using local_interval_bounds [OF assms that] by auto
    from m n ab r have "0 \<le> n" "n \<le> 1" by linarith+
    then have "n = 0 \<or> n = 1" by linarith
    with m n show ?L by auto
  qed
  then show ?thesis
    unfolding is_active_def Let_def minutes_num list_ex_iff r_def [symmetric] by (rule bex_pair_cong)
qed

lemma segments_active:
  assumes "schedule_ok days start end'"
  shows "(\<exists>seg\<in>set (segments days start end' clock). segment_matches seg t clock) \<longleftrightarrow>
    is_active days start end' (t + utc_offset_minutes clock)"
proof -
  let ?I = "set (local_intervals days start end')"
  have lt: "a < b" if "(a, b) \<in> ?I" for a b using local_interval_bounds [OF assms that] by auto
  have "(\<exists>seg\<in>set (segments days start end' clock). segment_matches seg t clock) \<longleftrightarrow>
      (\<exists>(a, b)\<in>?I. \<exists>(p, q)\<in>set (pieces_of clock (a, b)).
        kernel_day_of clock t = kernel_day_of clock p \<and> in_hours (piece_hours (p, q)) t)"
    unfolding segments_hit_pieces by fastforce
  also have "\<dots> \<longleftrightarrow> (\<exists>(a, b)\<in>?I. \<exists>m. \<exists>(p, q)\<in>set (pieces_of clock (a, b)). p \<le> t + 10080 * m \<and> t + 10080 * m < q)"
    using pieces_of_uncut [OF lt] piece_hit by fast
  also have "\<dots> \<longleftrightarrow> (\<exists>(a, b)\<in>?I. \<exists>m. a \<le> t + utc_offset_minutes clock + 10080 * m \<and>
      t + utc_offset_minutes clock + 10080 * m < b)"
  proof (rule bex_pair_cong)
    fix a b assume "(a, b) \<in> ?I"
    from pieces_of_cover [OF lt [OF this]]
    show "(\<exists>m. \<exists>(p, q)\<in>set (pieces_of clock (a, b)). p \<le> t + 10080 * m \<and> t + 10080 * m < q) \<longleftrightarrow>
        (\<exists>m. a \<le> t + utc_offset_minutes clock + 10080 * m \<and> t + utc_offset_minutes clock + 10080 * m < b)"
      by (simp add: algebra_simps)
  qed
  also have "\<dots> \<longleftrightarrow> is_active days start end' (t + utc_offset_minutes clock)"
    using is_active_iff [OF assms] by simp
  finally show ?thesis .
qed

text \<open>
  C1: for every schedule the loader accepts, every UTC offset and every kernel time zone, the
  rendered segments match a UTC minute exactly when the schedule is active at the local time of
  that minute -- no minute is missed or added at either clock's midnight, by the grouping, by the
  merging of adjacent ranges or by leaving out a full week of days or a whole day of hours.
\<close>

theorem segments_match_schedule:
  assumes "schedule_ok days start end'"
  shows "(\<exists>seg\<in>set (segments days start end' clock). segment_matches seg t clock) \<longleftrightarrow>
    is_active days start end' (t + utc_offset_minutes clock)"
  by (rule segments_active [OF assms])

theorem segments_match_schedule_witness:
  "schedule_ok [4] 1320 360 \<and>
   ((\<exists>seg\<in>set (segments [4] 1320 360 \<lparr>utc_offset_minutes = 120, kernel_minuteswest = -120\<rparr>).
      segment_matches seg 7200 \<lparr>utc_offset_minutes = 120, kernel_minuteswest = -120\<rparr>) \<longleftrightarrow>
    is_active [4] 1320 360 (7200 + 120)) \<and>
   is_active [4] 1320 360 (7200 + 120)"
proof -
  have ok: "schedule_ok [4] 1320 360" by (simp add: schedule_ok_def minutes_num)
  moreover have "is_active [4] 1320 360 (7200 + 120)" by code_simp
  ultimately show ?thesis
    using segments_match_schedule [OF ok, of "\<lparr>utc_offset_minutes = 120, kernel_minuteswest = -120\<rparr>" 7200]
    by simp
qed

end
