(* ===== verification/Ip_Address.thy ===== *)
theory Ip_Address
  imports Prelude
begin

text \<open>
  The part of Python's \<open>ipaddress\<close> the sources use: addresses as integers of a family, networks
  as an address and a prefix length, \<open>subnet_of\<close>, and the text \<open>str()\<close> gives them (dotted quads,
  compressed hexadecimal groups).  A configuration holds the normalised text of a network; the
  model holds what that text denotes, and renders it where a ruleset line needs the text.
\<close>

datatype family = V4 | V6

primrec family_bits :: "family \<Rightarrow> nat" where
  "family_bits V4 = 32"
| "family_bits V6 = 128"

record ip_network =
  net_family :: family
  net_address :: int
  net_prefixlen :: nat

definition ip_network_ok :: "ip_network \<Rightarrow> bool" where
  "ip_network_ok n \<longleftrightarrow> net_prefixlen n \<le> family_bits (net_family n) \<and> 0 \<le> net_address n \<and>
     net_address n + 2 ^ (family_bits (net_family n) - net_prefixlen n) \<le> 2 ^ family_bits (net_family n) \<and>
     net_address n mod 2 ^ (family_bits (net_family n) - net_prefixlen n) = 0"

text \<open>\<open>broadcast_address\<close>: the last address (the host bits of a normalised network are zero).\<close>

definition net_broadcast :: "ip_network \<Rightarrow> int" where
  "net_broadcast n = net_address n + 2 ^ (family_bits (net_family n) - net_prefixlen n) - 1"

definition subnet_of :: "ip_network \<Rightarrow> ip_network \<Rightarrow> bool" where
  "subnet_of a other \<longleftrightarrow> net_address other \<le> net_address a \<and> net_broadcast a \<le> net_broadcast other"

definition in_network :: "family \<Rightarrow> int \<Rightarrow> ip_network \<Rightarrow> bool" where
  "in_network f x n \<longleftrightarrow> f = net_family n \<and> net_address n \<le> x \<and> x \<le> net_broadcast n"

lemma subnet_of_in_network:
  "net_family a = net_family b \<Longrightarrow> subnet_of a b \<Longrightarrow> in_network f x a \<Longrightarrow> in_network f x b"
  by (auto simp: subnet_of_def in_network_def)

lemma subnet_of_refl [simp]: "subnet_of a a"
  by (simp add: subnet_of_def)

lemma subnet_of_trans: "subnet_of a b \<Longrightarrow> subnet_of b c \<Longrightarrow> subnet_of a c"
  by (auto simp: subnet_of_def)

subsection \<open>Text\<close>

definition hex_char :: "int \<Rightarrow> char" where
  "hex_char d = ''0123456789abcdef'' ! nat d"

function show_hex :: "int \<Rightarrow> string" where
  "show_hex n = (if n < 16 then [hex_char n] else show_hex (n div 16) @ [hex_char (n mod 16)])"
  by pat_completeness auto
termination
  by (relation "measure nat") auto

declare show_hex.simps [simp del]

lemmas show_ip_simps = show_hex.simps show_nat.simps hex_char_def digit_char_def

definition octet :: "int \<Rightarrow> nat \<Rightarrow> nat" where
  "octet x i = nat (x div 2 ^ (8 * i) mod 256)"

definition show_ipv4 :: "int \<Rightarrow> string" where
  "show_ipv4 x = py_join ''.'' (map (\<lambda>i. show_nat (octet x i)) [3, 2, 1, 0])"

definition hextets :: "int \<Rightarrow> int list" where
  "hextets x = map (\<lambda>i. x div 2 ^ (16 * i) mod 65536) [7, 6, 5, 4, 3, 2, 1, 0]"

text \<open>
  \<open>_compress_hextets\<close>: the first longest run of zero groups, when it is longer than one, is
  written as a double colon.
\<close>

fun zero_run :: "int list \<Rightarrow> nat" where
  "zero_run [] = 0"
| "zero_run (x # xs) = (if x = 0 then Suc (zero_run xs) else 0)"

fun best_run :: "nat \<Rightarrow> int list \<Rightarrow> nat \<times> nat" where
  "best_run i [] = (0, 0)"
| "best_run i (x # xs) =
     (let (j, n) = best_run (Suc i) xs; here = zero_run (x # xs)
      in if n \<le> here \<and> 0 < here then (i, here) else (j, n))"

definition show_ipv6 :: "int \<Rightarrow> string" where
  "show_ipv6 x =
     (let hs = hextets x; (i, n) = best_run 0 hs
      in if n > 1
         then py_join '':'' (map show_hex (take i hs)) @ ''::'' @ py_join '':'' (map show_hex (drop (i + n) hs))
         else py_join '':'' (map show_hex hs))"

definition show_address :: "family \<Rightarrow> int \<Rightarrow> string" where
  "show_address f x = (case f of V4 \<Rightarrow> show_ipv4 x | V6 \<Rightarrow> show_ipv6 x)"

definition show_network :: "ip_network \<Rightarrow> string" where
  "show_network n = show_address (net_family n) (net_address n) @ ''/'' @ show_nat (net_prefixlen n)"

lemma best_run_bound: "best_run i xs = (j, n) \<Longrightarrow> n \<le> length xs"
proof (induction xs arbitrary: i j n)
  case (Cons x xs)
  have z: "zero_run ys \<le> length ys" for ys
    by (induction ys) auto
  obtain j' n' where r: "best_run (Suc i) xs = (j', n')" by fastforce
  then have "n' \<le> length xs" by (rule Cons.IH)
  with z [of xs] r Cons.prems show ?case
    by (auto simp: Let_def split: if_splits)
qed simp

end
