(* ===== verification/Config_Schema.thy ===== *)
theory Config_Schema
  imports Ip_Address
begin

text \<open>
  The configuration (\<open>src/src/frfw/config/schema.py\<close>): one record per dataclass, its enums as
  datatypes.  Mappings keep their insertion order, which the ruleset depends on, so they are the
  association lists of \<open>Prelude\<close>.  Networks and addresses a rule or pinhole matches on are held as
  values of \<open>Ip_Address\<close>; addresses that are only ever copied as text stay text.
\<close>

definition SELF_ZONE :: string where
  "SELF_ZONE = ''self''"

datatype rule_action = ACCEPT | DROP | REJECT

primrec action_value :: "rule_action \<Rightarrow> string" where
  "action_value ACCEPT = ''accept''"
| "action_value DROP = ''drop''"
| "action_value REJECT = ''reject''"

datatype protocol = ANY | TCP | UDP | ICMP

primrec proto_value :: "protocol \<Rightarrow> string" where
  "proto_value ANY = ''any''"
| "proto_value TCP = ''tcp''"
| "proto_value UDP = ''udp''"
| "proto_value ICMP = ''icmp''"

record interface =
  if_name :: string
  if_device :: string
  if_zone :: string
  if_address :: "string option"
  if_description :: string
  vlan_parent :: "string option"
  vlan_id :: "int option"

record zone =
  zone_name :: string
  zone_description :: string

record rule_schedule =
  sched_days :: "int list"
  sched_start :: int
  sched_end :: int
  cut_established :: bool

text \<open>
  A port specification is the text \<open>"p"\<close> or \<open>"lo-hi"\<close> the loader wrote; the model holds its bounds
  and whether it was a range, so that the text can be given back.
\<close>

datatype port_spec = Port nat | PortRange nat nat

primrec show_port_spec :: "port_spec \<Rightarrow> string" where
  "show_port_spec (Port p) = show_nat p"
| "show_port_spec (PortRange lo hi) = show_nat lo @ ''-'' @ show_nat hi"

record rule =
  rule_name :: string
  action :: rule_action
  from_zone :: "string option"
  to_zone :: "string option"
  proto :: protocol
  dst_port :: "port_spec option"
  src_address :: "ip_network list option"
  dst_address :: "ip_network list option"
  rule_log :: bool
  require_ztna :: bool
  src_mac :: "string option"
  schedule :: "rule_schedule option"
  expires :: "int option"

datatype address_field = Src_address | Dst_address

primrec address_of :: "rule \<Rightarrow> address_field \<Rightarrow> ip_network list option" where
  "address_of r Src_address = src_address r"
| "address_of r Dst_address = dst_address r"

text \<open>\<open>getattr(self, field_name) or ()\<close>\<close>

definition address_list :: "rule \<Rightarrow> address_field \<Rightarrow> ip_network list" where
  "address_list r f = (case address_of r f of None \<Rightarrow> [] | Some ns \<Rightarrow> ns)"

definition networks :: "rule \<Rightarrow> address_field \<Rightarrow> family \<Rightarrow> ip_network list" where
  "networks r f v = filter (\<lambda>n. net_family n = v) (address_list r f)"

definition families :: "rule \<Rightarrow> family list" where
  "families r =
     fold (\<lambda>f out. if address_list r f \<noteq> [] then filter (\<lambda>v. networks r f v \<noteq> []) out else out)
       [Src_address, Dst_address] [V4, V6]"

definition ipv4_addresses_only :: "rule \<Rightarrow> bool" where
  "ipv4_addresses_only r \<longleftrightarrow>
     (address_list r Src_address \<noteq> [] \<or> address_list r Dst_address \<noteq> []) \<and> V6 \<notin> set (families r)"

record masquerade =
  out_zone :: string

record port_forward =
  pf_name :: string
  pf_in_zone :: string
  pf_proto :: protocol
  pf_dst_port :: nat
  pf_to_address :: string
  pf_to_port :: nat

record nat_config =
  nat_masquerade :: "masquerade list"
  nat_port_forwards :: "port_forward list"

record dhcp_reservation =
  res_mac_address :: string
  res_address :: string
  res_hostname :: string

record dhcp_pool =
  pool_zone :: string
  range_start :: string
  range_end :: string
  dns_servers :: "string list"
  lease_time :: int
  reservations :: "dhcp_reservation list"

record ai_ids_config =
  ai_ids_enabled :: bool
  excluded_macs :: "string list"
  quarantine_duration_seconds :: int

record xdp_sni_filter_config =
  xdp_enabled :: bool
  xdp_interfaces :: "string list"
  xdp_blocklist :: "string list"

record ztna_user =
  ztna_username :: string
  ztna_password_hash :: string

record ztna_config =
  ztna_enabled :: bool
  session_ttl_seconds :: int
  ztna_users :: "ztna_user list"

record update_config =
  update_repo :: string
  auto_install_security :: bool
  kernel_updates :: bool

record adblocker_config =
  adblock_enabled :: bool
  source_urls :: "string list"
  xdp_critical_limit :: int
  adblock_categories :: "(string, string list) dict"
  adblock_allowlist :: "string list"
  serve_lan :: bool
  force_dns :: bool
  query_logging :: bool

record ipv6_pinhole =
  pin_name :: string
  pin_zone :: string
  pin_host :: int
  pin_proto :: protocol
  port_from :: nat
  port_to :: nat
  pin_source :: "ip_network option"

definition is_suffix :: "ipv6_pinhole \<Rightarrow> bool" where
  "is_suffix p \<longleftrightarrow> pin_host p div 2 ^ 64 = 0"

definition pin_port :: "ipv6_pinhole \<Rightarrow> port_spec" where
  "pin_port p = (if port_from p = port_to p then Port (port_from p) else PortRange (port_from p) (port_to p))"

record ipv6_config =
  ipv6_enabled :: bool
  lan_zones :: "string list option"
  ula_prefix :: "ip_network option"
  pinholes :: "ipv6_pinhole list"

record local_dns_config =
  dns_domain :: string
  dns_hosts :: "(string, string) dict"
  dns_overrides :: "(string, string) dict"

definition local_dns_names :: "local_dns_config \<Rightarrow> string list" where
  "local_dns_names c = map fst (dns_hosts c) @ map fst (dns_overrides c) @
     (if dns_domain c = [] then [] else [dns_domain c])"

datatype iot_isolation_mode = INTERNET_ONLY | BLOCK

record iot_config =
  iot_enabled :: bool
  iot_zones :: "string list"
  auto_isolate :: bool
  isolation_mode :: iot_isolation_mode
  trusted_macs :: "string list"
  isolated_macs :: "string list"

record app_control_config =
  app_enabled :: bool
  blocked_apps :: "string list"
  block_via_xdp :: bool
  observe_sni :: bool

record tls_fingerprint_entry =
  fingerprint :: string
  fp_label :: string

record tls_fingerprint_config =
  tls_fp_enabled :: bool
  tls_fp_blocklist :: "tls_fingerprint_entry list"
  quarantine_on_match :: bool

record metrics_config =
  metrics_site :: "string option"
  token_sha256 :: "string option"

record management_config =
  mgmt_zones :: "string list"
  allow_wan :: bool
  confirm_apply_seconds :: int
  mgmt_addresses :: "string list"
  mgmt_ipv6 :: bool

record logging_config =
  log_drops :: bool
  drops_per_minute :: nat

record wireguard_peer =
  peer_name :: string
  peer_public_key :: string
  peer_address :: string
  dual_stack :: bool

record wireguard_config =
  wg_enabled :: bool
  wg_listen_port :: nat
  wg_address :: string
  wg_zone :: string
  wg_endpoint :: string
  wg_peers :: "wireguard_peer list"

record config =
  cfg_version :: int
  cfg_hostname :: string
  interfaces :: "(string, interface) dict"
  zones :: "(string, zone) dict"
  rules :: "rule list"
  nat_cfg :: nat_config
  dhcp_zones :: "(string, dhcp_pool) dict"
  ai_ids :: ai_ids_config
  update_cfg :: update_config
  xdp_sni_filter :: xdp_sni_filter_config
  ztna :: ztna_config
  pqc_enabled :: bool
  adblocker :: adblocker_config
  local_dns :: local_dns_config
  ipv6 :: ipv6_config
  iot :: iot_config
  app_control :: app_control_config
  tls_fingerprint :: tls_fingerprint_config
  metrics :: metrics_config
  management :: management_config
  wireguard :: wireguard_config
  logging :: logging_config
  timezone :: "string option"

subsection \<open>Address families of a rule\<close>

lemma families_mem:
  "v \<in> set (families r) \<longleftrightarrow>
     (\<forall>f. address_list r f \<noteq> [] \<longrightarrow> networks r f v \<noteq> [])"
proof -
  have "(\<forall>f. P f) \<longleftrightarrow> P Src_address \<and> P Dst_address" for P
    by (metis address_field.exhaust)
  then show ?thesis by (cases v) (auto simp: families_def)
qed

lemma families_unaddressed:
  "address_list r Src_address = [] \<Longrightarrow> address_list r Dst_address = [] \<Longrightarrow> families r = [V4, V6]"
  by (simp add: families_def)

subsection \<open>A small configuration\<close>

text \<open>
  A router with one internet and one LAN interface, everything optional off: what examples start
  from.
\<close>

definition rule0 :: rule where
  "rule0 = \<lparr>rule_name = ''r'', action = ACCEPT, from_zone = None, to_zone = None, proto = ANY, dst_port = None,
     src_address = None, dst_address = None, rule_log = False, require_ztna = False, src_mac = None,
     schedule = None, expires = None\<rparr>"

definition interface0 :: "string \<Rightarrow> string \<Rightarrow> interface" where
  "interface0 d z = \<lparr>if_name = d, if_device = d, if_zone = z, if_address = None, if_description = [],
     vlan_parent = None, vlan_id = None\<rparr>"

definition zone0 :: "string \<Rightarrow> zone" where
  "zone0 z = \<lparr>zone_name = z, zone_description = []\<rparr>"

definition config0 :: config where
  "config0 = \<lparr>cfg_version = 1, cfg_hostname = ''router'',
     interfaces = [(''eth0'', interface0 ''eth0'' ''wan''), (''eth1'', interface0 ''eth1'' ''lan'')],
     zones = [(''wan'', zone0 ''wan''), (''lan'', zone0 ''lan'')], rules = [],
     nat_cfg = \<lparr>nat_masquerade = [\<lparr>out_zone = ''wan''\<rparr>], nat_port_forwards = []\<rparr>, dhcp_zones = [],
     ai_ids = \<lparr>ai_ids_enabled = False, excluded_macs = [], quarantine_duration_seconds = 3600\<rparr>,
     update_cfg = \<lparr>update_repo = [], auto_install_security = False, kernel_updates = False\<rparr>,
     xdp_sni_filter = \<lparr>xdp_enabled = False, xdp_interfaces = [], xdp_blocklist = []\<rparr>,
     ztna = \<lparr>ztna_enabled = False, session_ttl_seconds = 3600, ztna_users = []\<rparr>, pqc_enabled = False,
     adblocker = \<lparr>adblock_enabled = False, source_urls = [], xdp_critical_limit = 0, adblock_categories = [],
       adblock_allowlist = [], serve_lan = False, force_dns = False, query_logging = False\<rparr>,
     local_dns = \<lparr>dns_domain = [], dns_hosts = [], dns_overrides = []\<rparr>,
     ipv6 = \<lparr>ipv6_enabled = False, lan_zones = None, ula_prefix = None, pinholes = []\<rparr>,
     iot = \<lparr>iot_enabled = False, iot_zones = [], auto_isolate = False, isolation_mode = INTERNET_ONLY,
       trusted_macs = [], isolated_macs = []\<rparr>,
     app_control = \<lparr>app_enabled = False, blocked_apps = [], block_via_xdp = False, observe_sni = False\<rparr>,
     tls_fingerprint = \<lparr>tls_fp_enabled = False, tls_fp_blocklist = [], quarantine_on_match = False\<rparr>,
     metrics = \<lparr>metrics_site = None, token_sha256 = None\<rparr>,
     management = \<lparr>mgmt_zones = [], allow_wan = False, confirm_apply_seconds = 120, mgmt_addresses = [],
       mgmt_ipv6 = False\<rparr>,
     wireguard = \<lparr>wg_enabled = False, wg_listen_port = 51820, wg_address = [], wg_zone = [], wg_endpoint = [],
       wg_peers = []\<rparr>,
     logging = \<lparr>log_drops = False, drops_per_minute = 10\<rparr>, timezone = None\<rparr>"

lemmas config0_simps = config0_def rule0_def interface0_def zone0_def

end
