(* ===== verification/Nft.thy ===== *)
theory Nft
  imports Config_Schema Schedule
begin

text \<open>
  The nftables script the builder writes, as a syntax tree: elementary matches, lines (matches,
  statements, verdict, comment), sets and chains, each with the text nft reads
  (\<open>render_match\<close>, \<open>render_line\<close>, ...).

  The kernel that evaluates the script is not part of the sources.  It enters as a parameter
  \<open>holds\<close>, its answer to each elementary match for the packet at hand; \<open>run_lines\<close> states the one
  documented thing the builder relies on (nft(8)): a chain's lines are tried in order, a line
  applies when all its matches hold, \<open>accept\<close>, \<open>drop\<close> and \<open>reject\<close> decide, \<open>jump\<close> evaluates
  another chain and comes back if that one does not decide or says \<open>return\<close>, and the base
  chain's policy applies when no line decided.
\<close>

datatype direction = Saddr | Daddr

datatype nft_match =
    IifnameSet string
  | OifnameSet string
  | IifnameIs string
  | IifnameIn "string list"
  | IifnameNotIn "string list"
  | OifnameIs string
  | OifnameIn "string list"
  | OifnameNotIn "string list"
  | AddrSet family direction string
  | AddrIn family direction "ip_network list"
  | AddrIs family direction int
  | AddrNotIn family direction ip_network
  | DaddrMasked int int
  | EtherSet string
  | EtherIs string
  | AddrEtherSet family string
  | Nfproto family
  | L4proto "string list"
  | Dport string "port_spec list"
  | Sport string nat
  | Icmpv6Type "string list"
  | Hoplimit nat
  | CtState "string list"
  | PkttypeNotHost
  | FibDaddrIifLocal
  | FibSaddrIifMissing
  | FibSaddrOif "string list"
  | LimitRate nat string nat
  | MetaTimeLess int
  | TimeSegment segment

datatype verdict = Accept | Drop | Reject | RejectAdminProhibited | Jump string | Return

record nft_line =
  line_matches :: "nft_match list"
  line_log :: "string option"
  line_counter :: bool
  line_verdict :: "verdict option"
  line_comment :: string

definition nft :: "nft_match list \<Rightarrow> verdict \<Rightarrow> string \<Rightarrow> nft_line" where
  "nft ms v c = \<lparr>line_matches = ms, line_log = None, line_counter = False, line_verdict = Some v, line_comment = c\<rparr>"

definition nft_log :: "nft_match list \<Rightarrow> string \<Rightarrow> string \<Rightarrow> nft_line" where
  "nft_log ms p c = \<lparr>line_matches = ms, line_log = Some p, line_counter = False, line_verdict = None, line_comment = c\<rparr>"

subsection \<open>Text\<close>

definition family_keyword :: "family \<Rightarrow> string" where
  "family_keyword f = (case f of V4 \<Rightarrow> ''ip'' | V6 \<Rightarrow> ''ip6'')"

definition family_nfproto :: "family \<Rightarrow> string" where
  "family_nfproto f = (case f of V4 \<Rightarrow> ''ipv4'' | V6 \<Rightarrow> ''ipv6'')"

definition dir_keyword :: "direction \<Rightarrow> string" where
  "dir_keyword d = (case d of Saddr \<Rightarrow> ''saddr'' | Daddr \<Rightarrow> ''daddr'')"

definition braces :: "string list \<Rightarrow> string" where
  "braces xs = ''{ '' @ py_join '', '' xs @ '' }''"

definition one_or_braces :: "string list \<Rightarrow> string" where
  "one_or_braces xs = (if length xs = 1 then hd xs else braces xs)"

fun render_match :: "nft_match \<Rightarrow> string" where
  "render_match (IifnameSet s) = ''iifname @'' @ s"
| "render_match (OifnameSet s) = ''oifname @'' @ s"
| "render_match (IifnameIs d) = ''iifname '' @ quoted d"
| "render_match (IifnameIn ds) = ''iifname '' @ braces (map quoted ds)"
| "render_match (IifnameNotIn ds) = ''iifname != '' @ braces (map quoted ds)"
| "render_match (OifnameIs d) = ''oifname '' @ quoted d"
| "render_match (OifnameIn ds) = ''oifname '' @ braces (map quoted ds)"
| "render_match (OifnameNotIn ds) = ''oifname != '' @ braces (map quoted ds)"
| "render_match (AddrSet f d s) = family_keyword f @ '' '' @ dir_keyword d @ '' @'' @ s"
| "render_match (AddrIn f d ns) = family_keyword f @ '' '' @ dir_keyword d @ '' '' @ one_or_braces (map show_network ns)"
| "render_match (AddrIs f d x) = family_keyword f @ '' '' @ dir_keyword d @ '' '' @ show_address f x"
| "render_match (AddrNotIn f d n) = family_keyword f @ '' '' @ dir_keyword d @ '' != '' @ show_network n"
| "render_match (DaddrMasked m h) = ''ip6 daddr & '' @ show_ipv6 m @ '' == '' @ show_ipv6 h"
| "render_match (EtherSet s) = ''ether saddr @'' @ s"
| "render_match (EtherIs m) = ''ether saddr '' @ m"
| "render_match (AddrEtherSet f s) = family_keyword f @ '' saddr . ether saddr @'' @ s"
| "render_match (Nfproto f) = ''meta nfproto '' @ family_nfproto f"
| "render_match (L4proto ps) = ''meta l4proto '' @ one_or_braces ps"
| "render_match (Dport p ps) = p @ '' dport '' @ one_or_braces (map show_port_spec ps)"
| "render_match (Sport p n) = p @ '' sport '' @ show_nat n"
| "render_match (Icmpv6Type ts) = ''icmpv6 type '' @ one_or_braces ts"
| "render_match (Hoplimit n) = ''ip6 hoplimit '' @ show_nat n"
| "render_match (CtState ss) = ''ct state '' @ py_join '','' ss"
| "render_match PkttypeNotHost = ''meta pkttype != host''"
| "render_match FibDaddrIifLocal = ''fib daddr . iif type local''"
| "render_match FibSaddrIifMissing = ''fib saddr . iif oif missing''"
| "render_match (FibSaddrOif ds) = ''fib saddr oifname '' @ braces (map quoted ds)"
| "render_match (LimitRate n per b) = ''limit rate '' @ show_nat n @ ''/'' @ per @ '' burst '' @ show_nat b @ '' packets''"
| "render_match (MetaTimeLess e) = ''meta time < '' @ show_int e"
| "render_match (TimeSegment seg) = segment_render seg"

fun render_verdict :: "verdict \<Rightarrow> string" where
  "render_verdict Accept = ''accept''"
| "render_verdict Drop = ''drop''"
| "render_verdict Reject = ''reject''"
| "render_verdict RejectAdminProhibited = ''reject with icmpv6 type admin-prohibited''"
| "render_verdict (Jump c) = ''jump '' @ c"
| "render_verdict Return = ''return''"

text \<open>A double quote in a comment is written as a single one.\<close>

definition comment :: "string \<Rightarrow> string" where
  "comment text = ''comment '' @ quoted (map (\<lambda>c. if c = dquote then char_of (39::nat) else c) text)"

definition render_line :: "nft_line \<Rightarrow> string" where
  "render_line l =
     py_join '' '' (filter (\<lambda>m. m \<noteq> []) (map render_match (line_matches l))
       @ (case line_log l of None \<Rightarrow> [] | Some p \<Rightarrow> [''log prefix '' @ quoted p])
       @ (if line_counter l then [''counter''] else [])
       @ (case line_verdict l of None \<Rightarrow> [] | Some v \<Rightarrow> [render_verdict v])
       @ (if line_comment l = [] then [] else [comment (line_comment l)]))"

text \<open>A blank line of the script: it matches everything and does nothing.\<close>

definition nft_blank :: nft_line where
  "nft_blank = \<lparr>line_matches = [], line_log = None, line_counter = False, line_verdict = None, line_comment = []\<rparr>"

lemma nft_sel [simp]:
  "line_matches (nft ms v c) = ms" "line_verdict (nft ms v c) = Some v"
  "line_matches (nft_log ms p c) = ms" "line_verdict (nft_log ms p c) = None"
  "line_matches nft_blank = []" "line_verdict nft_blank = None"
  by (simp_all add: nft_def nft_log_def nft_blank_def)

subsection \<open>Evaluation\<close>

datatype decision = Accepted | Dropped | Rejected

datatype run = Decided decision | Returned | Undecided

definition line_applies :: "(nft_match \<Rightarrow> bool) \<Rightarrow> nft_line \<Rightarrow> bool" where
  "line_applies holds l = list_all holds (line_matches l)"

text \<open>\<open>sub\<close> is the run of the regular chain a line may jump to.\<close>

fun run_lines :: "(nft_match \<Rightarrow> bool) \<Rightarrow> (string \<Rightarrow> run) \<Rightarrow> nft_line list \<Rightarrow> run" where
  "run_lines holds sub [] = Undecided"
| "run_lines holds sub (l # ls) =
     (if \<not> line_applies holds l then run_lines holds sub ls
      else case line_verdict l of
          None \<Rightarrow> run_lines holds sub ls
        | Some Accept \<Rightarrow> Decided Accepted
        | Some Drop \<Rightarrow> Decided Dropped
        | Some Reject \<Rightarrow> Decided Rejected
        | Some RejectAdminProhibited \<Rightarrow> Decided Rejected
        | Some Return \<Rightarrow> Returned
        | Some (Jump c) \<Rightarrow> (case sub c of Decided d \<Rightarrow> Decided d | _ \<Rightarrow> run_lines holds sub ls))"

text \<open>A base chain with \<open>policy drop\<close>.\<close>

definition policy_drop :: "run \<Rightarrow> decision" where
  "policy_drop r = (case r of Decided d \<Rightarrow> d | _ \<Rightarrow> Dropped)"

definition skips :: "(nft_match \<Rightarrow> bool) \<Rightarrow> nft_line list \<Rightarrow> bool" where
  "skips holds ls \<longleftrightarrow> (\<forall>l\<in>set ls. line_verdict l = None \<or> \<not> line_applies holds l)"

lemma run_lines_append:
  "run_lines holds sub (ls @ ms) =
     (case run_lines holds sub ls of Undecided \<Rightarrow> run_lines holds sub ms | r \<Rightarrow> r)"
  by (induction ls) (auto split: option.split verdict.split run.split)

lemma run_lines_skips: "skips holds ls \<Longrightarrow> run_lines holds sub (ls @ ms) = run_lines holds sub ms"
  by (induction ls) (auto simp: skips_def)

lemma skips_run: "skips holds ls \<Longrightarrow> run_lines holds sub ls = Undecided"
  using run_lines_skips [of holds ls sub "[]"] by simp

text \<open>No line of \<open>ls\<close> that applies can let the packet through.\<close>

definition denies :: "nft_line list \<Rightarrow> bool" where
  "denies ls \<longleftrightarrow> (\<forall>l\<in>set ls. line_verdict l \<in> {None, Some Drop, Some Reject, Some RejectAdminProhibited})"

lemma denies_run: "denies ls \<Longrightarrow> run_lines holds sub ls \<in> {Undecided, Decided Dropped, Decided Rejected}"
  by (induction ls) (auto simp: denies_def)

text \<open>
  A line that applies and refuses, behind lines that do not apply, refuse too, or only log:
  the packet is refused whatever comes after.
\<close>

lemma refused_by:
  assumes "ls = pre @ l # post" and "line_applies holds l"
    and "line_verdict l \<in> {Some Drop, Some Reject, Some RejectAdminProhibited}"
    and "\<forall>k\<in>set pre. line_applies holds k \<longrightarrow> line_verdict k \<in> {None, Some Drop, Some Reject, Some RejectAdminProhibited}"
  shows "run_lines holds sub ls \<in> {Decided Dropped, Decided Rejected}"
  using assms(4) unfolding assms(1)
proof (induction pre)
  case Nil
  with assms(2,3) show ?case by auto
next
  case (Cons k pre)
  then show ?case by (auto split: option.split)
qed

lemma dropped_by:
  assumes "ls = pre @ l # post" and "line_applies holds l" and "line_verdict l = Some Drop"
    and "\<forall>k\<in>set pre. line_applies holds k \<longrightarrow> line_verdict k \<in> {None, Some Drop}"
  shows "run_lines holds sub ls = Decided Dropped"
  using assms(4) unfolding assms(1)
proof (induction pre)
  case Nil
  with assms(2,3) show ?case by simp
next
  case (Cons k pre)
  then show ?case by auto
qed

text \<open>A packet is accepted by a chain only through a line that applies and accepts, or a jump.\<close>

lemma accepted_by:
  assumes "run_lines holds sub ls = Decided Accepted"
  shows "\<exists>l\<in>set ls. line_applies holds l \<and>
    (line_verdict l = Some Accept \<or> (\<exists>c. line_verdict l = Some (Jump c) \<and> sub c = Decided Accepted))"
  using assms
  by (induction ls) (auto split: if_splits option.splits verdict.splits run.splits)

end
