(* ===== verification/Rule_Lint.thy ===== *)
theory Rule_Lint
  imports Config_Schema
begin

text \<open>
  The rule check (\<open>src/src/frfw/rule_lint.py\<close>), the hit counters it reads
  (\<open>src/src/frfw/rule_hits.py\<close>) and the placement of rules in the list
  (\<open>src/src/frfw/rule_order.py\<close>).  A raw rule is the mapping the screen edits: its name, if it has
  one, and the rest of it, which placement never looks at.
\<close>

subsection \<open>Internet-facing zones (config/loader.py)\<close>

definition internet_facing_zones :: "(string, zone) dict \<Rightarrow> nat_config \<Rightarrow> string list" where
  "internet_facing_zones zs n =
     map out_zone (nat_masquerade n) @ (if ''wan'' \<in> fst ` set zs then [''wan''] else [])"

subsection \<open>Hit counters (rule_hits.py)\<close>

definition UNUSED_SECONDS :: rat where
  "UNUSED_SECONDS = 90 * 24 * 3600"

record hit_entry =
  since :: "seconds option"
  last_hit :: "seconds option"
  packets :: int

text \<open>Python's \<open>a or b\<close> on optional numbers: 0 counts as missing.\<close>

definition py_or :: "rat option \<Rightarrow> rat option \<Rightarrow> rat option" where
  "py_or a b = (case a of None \<Rightarrow> b | Some x \<Rightarrow> if x = 0 then b else a)"

definition unused :: "hit_entry option \<Rightarrow> seconds \<Rightarrow> bool" where
  "unused entry now =
     (case entry of None \<Rightarrow> False
      | Some e \<Rightarrow> now - the (py_or (py_or (last_hit e) (since e)) (Some now)) \<ge> UNUSED_SECONDS)"

definition record_one :: "(string, hit_entry) dict \<Rightarrow> (string, int) dict \<Rightarrow> seconds \<Rightarrow> string \<Rightarrow> hit_entry" where
  "record_one old counters now name =
     (let entry = (case map_of old name of Some e \<Rightarrow> e
                   | None \<Rightarrow> \<lparr>since = Some now, last_hit = None, packets = 0\<rparr>)
      in case map_of counters name of None \<Rightarrow> entry
         | Some p \<Rightarrow> (let before = packets entry;
                          entry' = (if p > before \<or> (p < before \<and> p > 0)
                                    then entry\<lparr>last_hit := Some now\<rparr> else entry)
                      in entry'\<lparr>packets := p\<rparr>))"

definition record_hits :: "(string, hit_entry) dict \<Rightarrow> (string, int) dict \<Rightarrow> string list \<Rightarrow> seconds \<Rightarrow>
    (string, hit_entry) dict" where
  "record_hits old counters rule_names now =
     fold (\<lambda>name d. AList.update name (record_one old counters now name) d) rule_names []"

subsection \<open>The rule check (rule_lint.py)\<close>

record finding =
  fnd_rule :: string
  fnd_kind :: string
  fnd_severity :: string
  fnd_message :: string

fun ports :: "port_spec \<Rightarrow> nat \<times> nat" where
  "ports (Port p) = (p, p)"
| "ports (PortRange lo hi) = (lo, hi)"

definition net_covers :: "ip_network list option \<Rightarrow> ip_network list option \<Rightarrow> bool" where
  "net_covers outer inner =
     (case outer of None \<Rightarrow> True
      | Some os \<Rightarrow> (case inner of None \<Rightarrow> False
          | Some is \<Rightarrow> list_all (\<lambda>i. list_ex (\<lambda>o'. net_family i = net_family o' \<and> subnet_of i o') os) is))"

definition covers :: "rule \<Rightarrow> rule \<Rightarrow> bool" where
  "covers a b =
     (if from_zone a \<noteq> None \<and> from_zone a \<noteq> from_zone b then False
      else if to_zone a \<noteq> None \<and> to_zone a \<noteq> to_zone b then False
      else if proto a \<noteq> ANY \<and> proto a \<noteq> proto b then False
      else if (case dst_port a of None \<Rightarrow> False
               | Some pa \<Rightarrow> (case dst_port b of None \<Rightarrow> True
                   | Some pb \<Rightarrow> proto b \<noteq> proto a \<or>
                       \<not> (fst (ports pa) \<le> fst (ports pb) \<and> snd (ports pb) \<le> snd (ports pa)))) then False
      else if \<not> (net_covers (src_address a) (src_address b) \<and> net_covers (dst_address a) (dst_address b)) then False
      else if src_mac a \<noteq> None \<and> src_mac a \<noteq> src_mac b then False
      else if require_ztna a \<and> \<not> require_ztna b then False
      else if schedule a \<noteq> None \<and> schedule a \<noteq> schedule b then False
      else (case expires a of None \<Rightarrow> True
            | Some ea \<Rightarrow> (case expires b of None \<Rightarrow> False | Some eb \<Rightarrow> \<not> eb > ea)))"

definition cuts :: "rule \<Rightarrow> bool" where
  "cuts r = (case schedule r of None \<Rightarrow> False | Some s \<Rightarrow> cut_established s)"

definition in_input :: "rule \<Rightarrow> bool" where
  "in_input r \<longleftrightarrow> to_zone r = Some SELF_ZONE"

definition chains :: "rule list \<Rightarrow> rule list list" where
  "chains rs = map (\<lambda>side. let chain = filter (\<lambda>r. in_input r = side) rs
                            in filter cuts chain @ filter (\<lambda>r. \<not> cuts r) chain) [True, False]"

definition wide_open :: "rule \<Rightarrow> bool" where
  "wide_open r \<longleftrightarrow> dst_port r = None \<and> proto r = ANY \<and> src_address r = None \<and> dst_address r = None
     \<and> src_mac r = None \<and> \<not> require_ztna r"

definition live_at :: "seconds \<Rightarrow> rule \<Rightarrow> bool" where
  "live_at now r = (case expires r of None \<Rightarrow> True | Some e \<Rightarrow> of_int e > now)"

definition py_repr :: "string \<Rightarrow> string" where
  "py_repr s = [char_of (39::nat)] @ s @ [char_of (39::nat)]"

definition lint_rule :: "string list \<Rightarrow> seconds \<Rightarrow> rule \<Rightarrow> finding list" where
  "lint_rule internet now r =
     (if \<not> live_at now r
      then [\<lparr>fnd_rule = rule_name r, fnd_kind = ''expired'', fnd_severity = ''info'',
             fnd_message = ''expired: the firewall already ignores it; remove it to keep the list clean''\<rparr>]
      else if action r = ACCEPT \<and> schedule r = None
      then (if from_zone r = None \<and> to_zone r = None \<and> wide_open r
            then [\<lparr>fnd_rule = rule_name r, fnd_kind = ''any-to-any'', fnd_severity = ''warning'',
                   fnd_message = ''accepts everything from anywhere to anywhere: the firewall is off for it''\<rparr>]
            else if (case from_zone r of None \<Rightarrow> True | Some z \<Rightarrow> z \<in> set internet) \<and> dst_port r = None
              \<and> src_address r = None \<and> \<not> require_ztna r
            then (let where' = (if to_zone r = Some SELF_ZONE then ''the router itself''
                                else case to_zone r of Some z \<Rightarrow> ''the '' @ z @ '' zone'' | None \<Rightarrow> ''every zone'');
                      origin = (case from_zone r of Some z \<Rightarrow> ''the internet ('' @ z @ '')''
                                | None \<Rightarrow> ''any zone, the internet included'')
                  in [\<lparr>fnd_rule = rule_name r, fnd_kind = ''open-from-internet'', fnd_severity = ''warning'',
                       fnd_message = ''opens all of '' @ where' @ '' to '' @ origin @
                         '': limit it to a port or a source address''\<rparr>])
            else [])
      else [])"

definition lint_shadow :: "rule list \<Rightarrow> rule \<Rightarrow> finding list" where
  "lint_shadow before r =
     (case find (\<lambda>e. covers e r) before of None \<Rightarrow> []
      | Some e \<Rightarrow>
          if action e = action r
          then [\<lparr>fnd_rule = rule_name r, fnd_kind = ''redundant'', fnd_severity = ''info'',
                 fnd_message = ''redundant: '' @ py_repr (rule_name e) @ '' above already matches all of it the same way''\<rparr>]
          else [\<lparr>fnd_rule = rule_name r, fnd_kind = ''shadowed'', fnd_severity = ''warning'',
                 fnd_message = ''never matches: '' @ py_repr (rule_name e) @ '' above matches all of it first and '' @
                   action_value (action e) @ ''s it''\<rparr>])"

definition lint_chain :: "rule list \<Rightarrow> finding list" where
  "lint_chain chain = concat (map (\<lambda>i. lint_shadow (take i chain) (chain ! i)) [0..<length chain])"

definition lint_unused :: "(string, hit_entry) dict \<Rightarrow> seconds \<Rightarrow> rule \<Rightarrow> finding list" where
  "lint_unused hits now r =
     (if unused (map_of hits (rule_name r)) now
      then [\<lparr>fnd_rule = rule_name r, fnd_kind = ''unused'', fnd_severity = ''info'',
             fnd_message = ''no traffic has matched it for 90 days: is it still needed?''\<rparr>]
      else [])"

definition lint :: "config \<Rightarrow> (string, hit_entry) dict \<Rightarrow> seconds \<Rightarrow> finding list" where
  "lint cfg hits now =
     (let internet = internet_facing_zones (zones cfg) (nat_cfg cfg);
          live = filter (live_at now) (rules cfg)
      in concat (map (lint_rule internet now) (rules cfg))
       @ concat (map lint_chain (chains live))
       @ concat (map (lint_unused hits now) live))"

subsection \<open>Where a rule sits (rule_order.py)\<close>

definition chain_group :: "rule \<Rightarrow> bool \<times> bool" where
  "chain_group r = (to_zone r = Some SELF_ZONE, cuts r)"

definition defeats :: "rule \<Rightarrow> rule \<Rightarrow> bool" where
  "defeats earlier later =
     (if action earlier \<noteq> action later then True else require_ztna later \<and> \<not> require_ztna earlier)"

definition shadows :: "rule \<Rightarrow> rule \<Rightarrow> bool" where
  "shadows r new \<longleftrightarrow> rule_name r \<noteq> rule_name new \<and> chain_group r = chain_group new \<and> covers r new \<and> defeats r new"

definition earliest_shadower :: "rule list \<Rightarrow> rule \<Rightarrow> rule option" where
  "earliest_shadower rs new = find (\<lambda>r. shadows r new) rs"

type_synonym 'b raw_rule = "string option \<times> 'b"

text \<open>\<open>list.index\<close>: the first position, or a \<open>ValueError\<close>.\<close>

fun index_of :: "'a \<Rightarrow> 'a list \<Rightarrow> nat option" where
  "index_of x [] = None"
| "index_of x (y # ys) = (if x = y then Some 0 else map_option Suc (index_of x ys))"

definition py_insert :: "nat \<Rightarrow> 'a \<Rightarrow> 'a list \<Rightarrow> 'a list" where
  "py_insert i x xs = take i xs @ x # drop i xs"

definition py_pop :: "nat \<Rightarrow> 'a list \<Rightarrow> 'a list" where
  "py_pop i xs = take i xs @ drop (Suc i) xs"

definition place :: "'b raw_rule list \<Rightarrow> string \<Rightarrow> config \<Rightarrow> 'b raw_rule list \<times> string option" where
  "place raw_rules new_name cfg =
     (case find (\<lambda>r. rule_name r = new_name) (rules cfg) of None \<Rightarrow> (raw_rules, None)
      | Some new \<Rightarrow>
         (case earliest_shadower (rules cfg) new of None \<Rightarrow> (raw_rules, None)
          | Some shadower \<Rightarrow>
             (case (index_of (Some new_name) (map fst raw_rules),
                    index_of (Some (rule_name shadower)) (map fst raw_rules)) of
                (Some src, Some dst) \<Rightarrow>
                  if src < dst then (raw_rules, None)
                  else (py_insert dst (raw_rules ! src) (py_pop src raw_rules), Some (rule_name shadower))
              | _ \<Rightarrow> (raw_rules, None))))"

definition swap :: "'b raw_rule list \<Rightarrow> string \<Rightarrow> string \<Rightarrow> 'b raw_rule list option \<times> string" where
  "swap raw_rules name direction =
     (case index_of (Some name) (map fst raw_rules) of
        None \<Rightarrow> (None, ''No such rule '' @ py_repr name)
      | Some i \<Rightarrow>
          let j = (if direction = ''up'' then int i - 1 else int i + 1)
          in if j < 0 \<or> j \<ge> int (length raw_rules)
             then (None, ''Rule '' @ py_repr name @ '' is already at the '' @
                     (if direction = ''up'' then ''top'' else ''bottom'') @ '' of the list'')
             else (Some (raw_rules[i := raw_rules ! nat j, nat j := raw_rules ! i]),
                   ''Rule '' @ py_repr name @ '' moved '' @ direction))"

definition move_before :: "'b raw_rule list \<Rightarrow> string \<Rightarrow> string \<Rightarrow> 'b raw_rule list option \<times> string" where
  "move_before raw_rules name before =
     (if Some name \<notin> set (map fst raw_rules) then (None, ''No such rule '' @ py_repr name)
      else if Some before \<notin> set (map fst raw_rules) then (None, ''No such rule '' @ py_repr before)
      else if name = before then (None, ''a rule cannot be moved before itself'')
      else (let out = filter (\<lambda>r. fst r \<noteq> Some name) raw_rules;
                entry = the (find (\<lambda>r. fst r = Some name) raw_rules)
            in (Some (py_insert (the (index_of (Some before) (map fst out))) entry out),
                ''Rule '' @ py_repr name @ '' moved before '' @ py_repr before)))"


subsection \<open>Positions\<close>

lemma index_of_None: "index_of x xs = None \<longleftrightarrow> x \<notin> set xs"
  by (induction xs) auto

lemma index_of_nth: "index_of x xs = Some i \<Longrightarrow> i < length xs \<and> xs ! i = x"
  by (induction xs arbitrary: i) (auto split: if_splits)

lemma index_of_first: "index_of x xs = Some i \<Longrightarrow> x \<notin> set (take i xs)"
  by (induction xs arbitrary: i) (auto split: if_splits)

lemma index_of_distinct: "distinct xs \<Longrightarrow> i < length xs \<Longrightarrow> index_of (xs ! i) xs = Some i"
proof (induction xs arbitrary: i)
  case (Cons y ys)
  then show ?case by (cases i) auto
qed simp

lemma take_py_pop: "d \<le> i \<Longrightarrow> i < length xs \<Longrightarrow> take d (py_pop i xs) = take d xs"
  by (simp add: py_pop_def min_def)

lemma filter_py_insert: "\<not> P x \<Longrightarrow> filter P (py_insert i x xs) = filter P xs"
  by (simp add: py_insert_def) (metis append_take_drop_id filter_append)

lemma filter_py_pop: "i < length xs \<Longrightarrow> \<not> P (xs ! i) \<Longrightarrow> filter P (py_pop i xs) = filter P xs"
  by (subst (2) id_take_nth_drop [of i xs]) (simp_all add: py_pop_def)

lemma find_first_split:
  "find P xs = Some x \<Longrightarrow> \<exists>as bs. xs = as @ x # bs \<and> P x \<and> (\<forall>a\<in>set as. \<not> P a)"
proof (induction xs)
  case (Cons y ys)
  show ?case
  proof (cases "P y")
    case True
    with Cons.prems show ?thesis by (intro exI [of _ "[]"] exI [of _ ys]) auto
  next
    case False
    with Cons obtain as bs where "ys = as @ x # bs" "P x" "\<forall>a\<in>set as. \<not> P a" by auto
    with False show ?thesis by (intro exI [of _ "y # as"] exI [of _ bs]) auto
  qed
qed simp

subsection \<open>Placement\<close>

lemma find_by_name:
  "distinct (map rule_name rs) \<Longrightarrow> new \<in> set rs \<Longrightarrow> find (\<lambda>r. rule_name r = rule_name new) rs = Some new"
  by (induction rs) auto

definition in_front :: "'b raw_rule list \<Rightarrow> string \<Rightarrow> string set" where
  "in_front raw name = {n. Some n \<in> set (takeWhile (\<lambda>x. x \<noteq> Some name) (map fst raw))}"

lemma in_front_split:
  "map fst raw = pre @ Some name # post \<Longrightarrow> Some name \<notin> set pre \<Longrightarrow> in_front raw name = {n. Some n \<in> set pre}"
  by (simp add: in_front_def) (subst takeWhile_append2; auto)

lemma place_moved:
  assumes "src < length raw" and "d < src" and "raw ! src = (Some name, x)" and "Some name \<notin> set (take d (map fst raw))"
  defines "raw' \<equiv> py_insert d (raw ! src) (py_pop src raw)"
  shows "in_front raw' name = {n. Some n \<in> set (take d (map fst raw))}"
    and "filter (\<lambda>r. fst r \<noteq> Some name) raw' = filter (\<lambda>r. fst r \<noteq> Some name) raw"
proof -
  have "map fst raw' = take d (map fst raw) @ Some name # map fst (drop d (py_pop src raw))"
    using assms(1-3) by (simp add: raw'_def py_insert_def take_py_pop take_map)
  then show "in_front raw' name = {n. Some n \<in> set (take d (map fst raw))}"
    using assms(4) by (rule in_front_split)
  show "filter (\<lambda>r. fst r \<noteq> Some name) raw' = filter (\<lambda>r. fst r \<noteq> Some name) raw"
    unfolding raw'_def using assms(1,3) by (subst filter_py_insert) (simp_all add: filter_py_pop)
qed

lemma rules_in_prefix:
  assumes names: "map fst raw = map (\<lambda>r. Some (rule_name r)) rs" and rs: "rs = as @ bs"
    and dist: "distinct (map rule_name rs)" and r: "r \<in> set rs"
    and front: "Some (rule_name r) \<in> set (take k (map fst raw))" "k \<le> length as"
  shows "r \<in> set as"
proof -
  have "Some (rule_name r) \<in> set (take (length as) (map fst raw))"
    using front(1) set_take_subset_set_take [OF front(2), of "map fst raw"] by (rule subsetD [rotated])
  moreover have "take (length as) (map fst raw) = map (\<lambda>r. Some (rule_name r)) as"
    by (simp add: names rs)
  ultimately obtain a where "a \<in> set as" "rule_name a = rule_name r" by auto
  moreover have "inj_on rule_name (set rs)" using dist by (simp add: distinct_map)
  ultimately show ?thesis using r rs by (metis Un_iff inj_onD set_append)
qed

text \<open>
  C2: after the screen saves a new rule and places it, no rule in front of it matches everything it
  matches and decides against it, and the other rules keep their order -- whichever branch of the
  placement was taken (nothing shadows it, it was ahead already, or it was moved).
\<close>

theorem place_takes_effect:
  assumes names: "map fst raw = map (\<lambda>r. Some (rule_name r)) (rules cfg)"
    and dist: "distinct (map rule_name (rules cfg))" and new: "new \<in> set (rules cfg)"
  shows "(\<forall>r\<in>set (rules cfg). rule_name r \<in> in_front (fst (place raw (rule_name new) cfg)) (rule_name new)
            \<longrightarrow> \<not> shadows r new)
    \<and> filter (\<lambda>r. fst r \<noteq> Some (rule_name new)) (fst (place raw (rule_name new) cfg)) =
        filter (\<lambda>r. fst r \<noteq> Some (rule_name new)) raw"
proof -
  let ?rs = "rules cfg" and ?n = "rule_name new"
  have dn: "distinct (map fst raw)"
    using dist by (simp add: names distinct_map inj_on_def)
  have pos: "\<exists>i. index_of (Some (rule_name r)) (map fst raw) = Some i" if "r \<in> set ?rs" for r
    using that index_of_None [of "Some (rule_name r)" "map fst raw"] names by fastforce
  obtain src where src: "index_of (Some ?n) (map fst raw) = Some src" using pos [OF new] by blast
  have srcn: "src < length raw" "fst (raw ! src) = Some ?n"
    using index_of_nth [OF src] by auto
  show ?thesis
  proof (cases "earliest_shadower ?rs new")
    case None
    then have "fst (place raw ?n cfg) = raw" "\<forall>r\<in>set ?rs. \<not> shadows r new"
      using find_by_name [OF dist new] by (simp_all add: place_def) (simp add: earliest_shadower_def find_None_iff)
    then show ?thesis by simp
  next
    case (Some sh)
    then obtain as bs where rs: "?rs = as @ sh # bs" and sh: "shadows sh new" and as: "\<forall>a\<in>set as. \<not> shadows a new"
      using find_first_split [of "\<lambda>r. shadows r new" ?rs sh] by (auto simp: earliest_shadower_def)
    have lt: "length as < length (map fst raw)" "map fst raw ! length as = Some (rule_name sh)"
      using names rs by (auto simp: nth_append)
    then have dst: "index_of (Some (rule_name sh)) (map fst raw) = Some (length as)"
      using index_of_distinct [OF dn lt(1)] by simp
    have ne: "src \<noteq> length as" using sh srcn lt by (auto simp: shadows_def)
    have pl: "fst (place raw ?n cfg) =
        (if src < length as then raw else py_insert (length as) (raw ! src) (py_pop src raw))"
      using find_by_name [OF dist new] Some src dst by (simp add: place_def)
    have pre: "\<not> shadows r new"
      if "r \<in> set ?rs" "Some (rule_name r) \<in> set (take k (map fst raw))" "k \<le> length as" for r k
      using rules_in_prefix [OF names rs dist that] as by blast
    show ?thesis
    proof (cases "src < length as")
      case True
      have "map fst raw = take src (map fst raw) @ Some ?n # drop (Suc src) (map fst raw)"
        using id_take_nth_drop [of src "map fst raw"] srcn by simp
      then have "in_front raw ?n = {n. Some n \<in> set (take src (map fst raw))}"
        using index_of_first [OF src] by (rule in_front_split)
      with True pl pre show ?thesis by auto
    next
      case False
      obtain x where x: "raw ! src = (Some ?n, x)" using srcn(2) by (cases "raw ! src") auto
      have "Some ?n \<notin> set (take (length as) (map fst raw))"
        using index_of_first [OF src] False set_take_subset_set_take [of "length as" src "map fst raw"] by auto
      from place_moved [OF srcn(1) _ x this] False ne pl pre show ?thesis by auto
    qed
  qed
qed

theorem place_takes_effect_witness:
  "let cfg = config0\<lparr>rules := [rule0\<lparr>rule_name := ''all''\<rparr>, rule0\<lparr>rule_name := ''no-lan'', action := DROP, from_zone := Some ''lan''\<rparr>]\<rparr>;
       placed = fst (place [(Some ''all'', 0 :: nat), (Some ''no-lan'', 1)] ''no-lan'' cfg)
   in placed = [(Some ''no-lan'', 1), (Some ''all'', 0)] \<and>
      (\<forall>r\<in>set (rules cfg). rule_name r \<in> in_front placed ''no-lan'' \<longrightarrow> \<not> shadows r (rules cfg ! 1))"
proof -
  let ?cfg = "config0\<lparr>rules := [rule0\<lparr>rule_name := ''all''\<rparr>, rule0\<lparr>rule_name := ''no-lan'', action := DROP, from_zone := Some ''lan''\<rparr>]\<rparr>"
  let ?raw = "[(Some ''all'', 0 :: nat), (Some ''no-lan'', 1)]"
  have "fst (place ?raw ''no-lan'' ?cfg) = [(Some ''no-lan'', 1), (Some ''all'', 0)]"
    by (simp add: config0_simps place_def earliest_shadower_def shadows_def chain_group_def covers_def net_covers_def
        defeats_def cuts_def py_insert_def py_pop_def)
  moreover have "\<forall>r\<in>set (rules ?cfg). rule_name r \<in> in_front (fst (place ?raw ''no-lan'' ?cfg)) ''no-lan''
      \<longrightarrow> \<not> shadows r (rules ?cfg ! 1)"
    using place_takes_effect [of ?raw ?cfg "rules ?cfg ! 1"] by (simp add: config0_simps)
  ultimately show ?thesis by (simp add: Let_def)
qed

lemma index_of_swapped:
  assumes "distinct xs" and "i < length xs" and "j < length xs"
  shows "index_of (xs ! i) (xs[i := xs ! j, j := xs ! i]) = Some j"
proof -
  have "distinct (xs[i := xs ! j, j := xs ! i])" using assms by (simp add: distinct_swap)
  from index_of_distinct [OF this, of j] assms show ?thesis by simp
qed

text \<open>
  Moving a rule up and then down (the two arrows of the screen) gives the list back.
\<close>

theorem swap_up_down:
  assumes "distinct (map fst raw)" and "swap raw name ''up'' = (Some raw', msg)"
  shows "fst (swap raw' name ''down'') = Some raw"
proof -
  from assms(2) obtain i where i0: "index_of (Some name) (map fst raw) = Some i" "0 < i"
    and raw': "raw' = raw[i := raw ! (i - 1), i - 1 := raw ! i]"
    by (auto simp: swap_def Let_def nat_diff_distrib split: option.splits if_splits)
  have i: "index_of (Some name) (map fst raw) = Some i" "0 < i" "i < length raw"
    using i0 index_of_nth [OF i0(1)] by auto
  have n: "map fst raw ! i = Some name" using index_of_nth [OF i(1)] by simp
  have "map fst raw' = (map fst raw)[i := map fst raw ! (i - 1), i - 1 := map fst raw ! i]"
    using i by (simp add: raw' map_update)
  then have "index_of (Some name) (map fst raw') = Some (i - 1)"
    using index_of_swapped [OF assms(1), of i "i - 1"] i n by simp
  moreover have "raw'[i - 1 := raw' ! i, i := raw' ! (i - 1)] = raw"
    using i by (intro nth_equalityI) (auto simp: raw' nth_list_update)
  moreover have "nat (int (i - 1) + 1) = i" using i by simp
  ultimately show ?thesis
    using i by (simp add: swap_def Let_def raw')
qed

theorem swap_up_down_witness:
  "fst (swap [(Some ''b'', 2), (Some ''a'', 1 :: nat)] ''b'' ''down'') = Some [(Some ''a'', 1), (Some ''b'', 2)]"
proof (rule swap_up_down [where msg = "''Rule '' @ py_repr ''b'' @ '' moved '' @ ''up''"])
  show "distinct (map fst [(Some ''a'', 1 :: nat), (Some ''b'', 2)])" by simp
  show "swap [(Some ''a'', 1 :: nat), (Some ''b'', 2)] ''b'' ''up'' =
      (Some [(Some ''b'', 2), (Some ''a'', 1)], ''Rule '' @ py_repr ''b'' @ '' moved '' @ ''up'')"
    by (simp add: swap_def)
qed

subsection \<open>The findings are real\<close>

lemma lint_shadow_kind:
  assumes "f \<in> set (lint_shadow before r)" and "fnd_kind f = ''shadowed''"
  shows "fnd_rule f = rule_name r \<and> (\<exists>e\<in>set before. covers e r \<and> action e \<noteq> action r)"
proof (cases "find (\<lambda>e. covers e r) before")
  case None
  with assms show ?thesis by (simp add: lint_shadow_def)
next
  case (Some e)
  then have "e \<in> set before" "covers e r" using find_first_split by fastforce+
  with Some assms show ?thesis by (auto simp: lint_shadow_def split: if_splits)
qed

lemma lint_other_kinds:
  "f \<in> set (lint_rule internet now r) \<Longrightarrow> fnd_kind f \<noteq> ''shadowed''"
  "f \<in> set (lint_unused hits now r) \<Longrightarrow> fnd_kind f \<noteq> ''shadowed''"
  by (auto simp: lint_rule_def lint_unused_def Let_def split: if_splits)

text \<open>
  The rule check calls a rule shadowed only when a rule evaluated before it in the same chain,
  itself not expired, matches everything it does (\<open>covers\<close>) and decides the other way.
\<close>

theorem lint_shadowed_sound:
  assumes "f \<in> set (lint cfg hits now)" and "fnd_kind f = ''shadowed''"
  shows "\<exists>chain\<in>set (chains (filter (live_at now) (rules cfg))). \<exists>i<length chain. \<exists>e\<in>set (take i chain).
    fnd_rule f = rule_name (chain ! i) \<and> covers e (chain ! i) \<and> action e \<noteq> action (chain ! i) \<and>
    in_input e = in_input (chain ! i) \<and> live_at now e \<and> live_at now (chain ! i)"
proof -
  let ?live = "filter (live_at now) (rules cfg)"
  from assms obtain chain i where chain: "chain \<in> set (chains ?live)" and i: "i < length chain"
    and f: "f \<in> set (lint_shadow (take i chain) (chain ! i))"
    by (auto simp: lint_def lint_chain_def Let_def dest: lint_other_kinds)
  from lint_shadow_kind [OF f assms(2)] obtain e where e: "fnd_rule f = rule_name (chain ! i)"
    "e \<in> set (take i chain)" "covers e (chain ! i)" "action e \<noteq> action (chain ! i)" by blast
  moreover from e(2) i have "e \<in> set chain" "chain ! i \<in> set chain" by (auto dest: in_set_takeD)
  moreover have "in_input x = in_input y \<and> live_at now x" if "x \<in> set chain" "y \<in> set chain" for x y
    using chain that by (auto simp: chains_def Let_def)
  ultimately show ?thesis using chain i by blast
qed

theorem lint_shadowed_sound_witness:
  "let a = rule0\<lparr>rule_name := ''all''\<rparr>; b = rule0\<lparr>rule_name := ''no-lan'', action := DROP, from_zone := Some ''lan''\<rparr>;
       cfg = config0\<lparr>rules := [a, b]\<rparr>
   in \<exists>chain\<in>set (chains (filter (live_at 0) (rules cfg))). \<exists>i<length chain. \<exists>e\<in>set (take i chain).
        ''no-lan'' = rule_name (chain ! i) \<and> covers e (chain ! i)"
proof -
  let ?a = "rule0\<lparr>rule_name := ''all''\<rparr>"
  let ?b = "rule0\<lparr>rule_name := ''no-lan'', action := DROP, from_zone := Some ''lan''\<rparr>"
  let ?cfg = "config0\<lparr>rules := [?a, ?b]\<rparr>"
  let ?f = "\<lparr>fnd_rule = ''no-lan'', fnd_kind = ''shadowed'', fnd_severity = ''warning'',
     fnd_message = ''never matches: '' @ py_repr ''all'' @ '' above matches all of it first and accepts it''\<rparr>"
  have "?f \<in> set (lint ?cfg [] 0)"
    by (simp add: config0_simps lint_def lint_chain_def lint_shadow_def chains_def live_at_def in_input_def cuts_def covers_def
        net_covers_def Let_def)
  from lint_shadowed_sound [OF this]
  show ?thesis unfolding Let_def finding.simps by blast
qed

end
