(* ===== verification/Builder.thy ===== *)
theory Builder
  imports Nft Rule_Lint
begin

text \<open>
  The ruleset builder (\<open>src/src/frfw/nft/builder.py\<close>) with what it asks of
  \<open>src/src/frfw/management.py\<close>, \<open>src/src/frfw/ipv6.py\<close> and the loader: one definition per
  \<open>_render_*\<close> function, giving the lines of \<open>Nft\<close> the function writes.
\<close>

subsection \<open>Names\<close>

definition FILTER_TABLE :: string where "FILTER_TABLE = ''fr_os''"
definition BRUTEFORCE_JAIL_SET_NAME :: string where "BRUTEFORCE_JAIL_SET_NAME = ''bruteforce_jail''"
definition BRUTEFORCE_JAIL6_SET_NAME :: string where "BRUTEFORCE_JAIL6_SET_NAME = ''bruteforce_jail6''"
definition BRUTEFORCE_JAIL_MAC_SET_NAME :: string where "BRUTEFORCE_JAIL_MAC_SET_NAME = ''bruteforce_jail_mac''"
definition IPV6_INPUT_CHAIN :: string where "IPV6_INPUT_CHAIN = ''ipv6_input''"
definition IDS_QUARANTINE_SET_NAME :: string where "IDS_QUARANTINE_SET_NAME = ''ids_quarantine''"
definition IDS_QUARANTINE_MAC_SET_NAME :: string where "IDS_QUARANTINE_MAC_SET_NAME = ''ids_quarantine_mac''"
definition ZTNA_SET_NAME :: string where "ZTNA_SET_NAME = ''authenticated_ztna_users''"
definition ZTNA_TUNNEL_SET_NAME :: string where "ZTNA_TUNNEL_SET_NAME = ''authenticated_ztna_tunnel''"
definition ZTNA6_SET_NAME :: string where "ZTNA6_SET_NAME = ''authenticated_ztna_users6''"
definition ZTNA_TUNNEL6_SET_NAME :: string where "ZTNA_TUNNEL6_SET_NAME = ''authenticated_ztna_tunnel6''"
definition IOT_ISOLATED_SET_NAME :: string where "IOT_ISOLATED_SET_NAME = ''iot_isolated''"
definition IOT_MDNS_REPLY_PORT :: nat where "IOT_MDNS_REPLY_PORT = 53530"
definition DROP_LOG_PREFIX :: string where "DROP_LOG_PREFIX = ''fr_os/drop/''"
definition WIREGUARD_IFACE :: string where "WIREGUARD_IFACE = ''wg0''"
definition MANAGEMENT_PORTS :: "port_spec list" where "MANAGEMENT_PORTS = [Port 22, Port 443]"

definition net6 :: "int \<Rightarrow> nat \<Rightarrow> ip_network" where
  "net6 a p = \<lparr>net_family = V6, net_address = a, net_prefixlen = p\<rparr>"

text \<open>\<open>fe80::/10\<close> and \<open>fc00::/7\<close>.\<close>

definition LINK_LOCAL :: ip_network where "LINK_LOCAL = net6 (0xfe80 * 2 ^ 112) 10"
definition ULA :: ip_network where "ULA = net6 (0xfc00 * 2 ^ 112) 7"

definition iface_set_name :: "string \<Rightarrow> string" where
  "iface_set_name zone = zone @ ''_ifaces''"

subsection \<open>Zones and devices (loader, management, ipv6)\<close>

definition internet_zones :: "config \<Rightarrow> string list" where
  "internet_zones cfg = internet_facing_zones (zones cfg) (nat_cfg cfg)"

definition management_zones :: "config \<Rightarrow> string list" where
  "management_zones cfg =
     (if mgmt_zones (management cfg) \<noteq> [] then mgmt_zones (management cfg)
      else if allow_wan (management cfg) then sort (map fst (zones cfg))
      else sort (filter (\<lambda>z. z \<notin> set (internet_zones cfg)) (map fst (zones cfg))))"

definition blocked_zones :: "config \<Rightarrow> string list" where
  "blocked_zones cfg = sort (filter (\<lambda>z. z \<notin> set (management_zones cfg)) (map fst (zones cfg)))"

definition exclusion_reason :: "rule \<Rightarrow> string" where
  "exclusion_reason r = ''rule '' @ py_repr (rule_name r) @
     '' blocks by IPv4 address only, which IPv6 would get around (block a LAN host by MAC, src_mac: it picks its IPv6 addresses itself; or name the IPv6 networks in the rule too)''"

definition excluding_rule :: "string list \<Rightarrow> rule \<Rightarrow> bool" where
  "excluding_rule facing r \<longleftrightarrow>
     \<not> (action r = ACCEPT \<or> to_zone r = Some SELF_ZONE) \<and> ipv4_addresses_only r \<and>
     \<not> (\<exists>z\<in>set facing. from_zone r = Some z)"

definition ipv6_lan_exclusions :: "(string, zone) dict \<Rightarrow> nat_config \<Rightarrow> rule list \<Rightarrow> (string, string) dict" where
  "ipv6_lan_exclusions zs n rs =
     (let facing = internet_facing_zones zs n
      in fold (\<lambda>r out. if excluding_rule facing r
           then fold (\<lambda>z out. if z \<notin> set facing \<and> (from_zone r \<in> {None, Some z} \<or> to_zone r \<in> {None, Some z})
                  \<and> z \<notin> fst ` set out
                  then AList.update z (exclusion_reason r) out else out) (map fst zs) out
           else out) rs [])"

definition ipv6_lan_zones :: "config \<Rightarrow> string list" where
  "ipv6_lan_zones cfg =
     (if \<not> ipv6_enabled (ipv6 cfg) then []
      else case lan_zones (ipv6 cfg) of Some zs \<Rightarrow> zs
        | None \<Rightarrow> filter (\<lambda>z. z \<notin> set (internet_zones cfg) \<and> z \<in> (\<lambda>(_, i). if_zone i) ` set (interfaces cfg)
            \<and> z \<notin> fst ` set (ipv6_lan_exclusions (zones cfg) (nat_cfg cfg) (rules cfg))) (map fst (zones cfg)))"

definition wan_devices :: "config \<Rightarrow> string list" where
  "wan_devices cfg =
     fold (\<lambda>(_, i) ds. if if_zone i \<in> set (internet_zones cfg) \<and> if_device i \<notin> set ds then ds @ [if_device i] else ds)
       (interfaces cfg) []"

definition lan_devices :: "config \<Rightarrow> (string \<times> string) list" where
  "lan_devices cfg =
     fold (\<lambda>z out. fold (\<lambda>(_, i) out. if if_zone i = z \<and> if_device i \<notin> snd ` set out
              then out @ [(z, if_device i)] else out) (interfaces cfg) out)
       (ipv6_lan_zones cfg) []"

definition tunnel_served :: "config \<Rightarrow> bool" where
  "tunnel_served cfg \<longleftrightarrow> wg_enabled (wireguard cfg) \<and> ipv6_enabled (ipv6 cfg) \<and>
     wg_zone (wireguard cfg) \<notin> fst ` set (ipv6_lan_exclusions (zones cfg) (nat_cfg cfg) (rules cfg))"

datatype build_error = KeyError string | NoClock string

definition append_device :: "string \<Rightarrow> string \<Rightarrow> (string, string list) dict \<Rightarrow> (build_error, (string, string list) dict) result" where
  "append_device z d zd = (case map_of zd z of None \<Rightarrow> Inl (KeyError z) | Some ds \<Rightarrow> Inr (AList.update z (ds @ [d]) zd))"

fun append_devices :: "(string \<times> string) list \<Rightarrow> (string, string list) dict \<Rightarrow> (build_error, (string, string list) dict) result" where
  "append_devices [] zd = Inr zd"
| "append_devices ((z, d) # ps) zd = bind_result (append_device z d zd) (append_devices ps)"

definition zone_devices :: "config \<Rightarrow> (build_error, (string, string list) dict) result" where
  "zone_devices cfg =
     append_devices (map (\<lambda>(_, i). (if_zone i, if_device i)) (interfaces cfg)
         @ (if wg_enabled (wireguard cfg) then [(wg_zone (wireguard cfg), WIREGUARD_IFACE)] else []))
       (map (\<lambda>z. (z, [])) (map fst (zones cfg)))"

definition dns_resolver_zones :: "config \<Rightarrow> string list" where
  "dns_resolver_zones cfg =
     (if adblock_enabled (adblocker cfg) \<and> serve_lan (adblocker cfg) then sort (map fst (dhcp_zones cfg)) else [])"

definition sni_filtered_devices :: "config \<Rightarrow> string list" where
  "sni_filtered_devices cfg =
     (if \<not> xdp_enabled (xdp_sni_filter cfg) then []
      else (let ports' = List.map_filter (\<lambda>n. map_option if_device (map_of (interfaces cfg) n)) (xdp_interfaces (xdp_sni_filter cfg));
                vlans = map (\<lambda>(_, i). if_device i)
                  (filter (\<lambda>(_, i). case vlan_parent i of None \<Rightarrow> False | Some p \<Rightarrow> p \<in> set ports') (interfaces cfg))
            in sort (remdups (ports' @ vlans))))"

subsection \<open>Sets\<close>

record nft_set =
  set_name :: string
  set_type :: string
  set_flags :: "string option"
  set_timeout :: "int option"
  set_elements :: "string list"

record runtime_sets =
  rt_bruteforce_jail :: "(int \<times> int) list"
  rt_ids_quarantine :: "(int \<times> int) list"
  rt_ztna :: "((family \<times> int) option \<times> string \<times> int) list"
  rt_iot_isolated :: "string list"
  rt_ids_quarantine_mac :: "(string \<times> int) list"
  rt_bruteforce_jail6 :: "(ip_network \<times> int) list"
  rt_bruteforce_jail_mac :: "(string \<times> int) list"

definition is_hex :: "char \<Rightarrow> bool" where
  "is_hex c \<longleftrightarrow> c \<in> set ''0123456789abcdef''"

text \<open>\<open>[0-9a-f]{2}(:[0-9a-f]{2}){5}\<close>\<close>

fun mac_groups :: "nat \<Rightarrow> string \<Rightarrow> bool" where
  "mac_groups 0 s \<longleftrightarrow> s = []"
| "mac_groups (Suc n) (c # a # b # s) \<longleftrightarrow> c = CHR '':'' \<and> is_hex a \<and> is_hex b \<and> mac_groups n s"
| "mac_groups (Suc n) _ \<longleftrightarrow> False"

definition mac_ok :: "string \<Rightarrow> bool" where
  "mac_ok s = mac_groups 6 (CHR '':'' # s)"

definition timeout_item :: "string \<Rightarrow> int \<Rightarrow> string" where
  "timeout_item x left = x @ '' timeout '' @ show_int left @ ''s''"

definition timed_elements :: "(int \<times> int) list \<Rightarrow> string list" where
  "timed_elements members = map (\<lambda>(ip, left). timeout_item (show_ipv4 ip) left) (filter (\<lambda>(_, left). left > 0) members)"

definition mac_elements :: "(string \<times> int) list \<Rightarrow> string list" where
  "mac_elements members = map (\<lambda>(mac, left). timeout_item mac left) (filter (\<lambda>(mac, left). mac_ok mac \<and> left > 0) members)"

definition render_bruteforce_jail_set :: "(int \<times> int) list \<Rightarrow> nft_set" where
  "render_bruteforce_jail_set members = \<lparr>set_name = BRUTEFORCE_JAIL_SET_NAME, set_type = ''ipv4_addr'',
     set_flags = Some ''timeout'', set_timeout = None, set_elements = timed_elements members\<rparr>"

definition jail6_live :: "(ip_network \<times> int) list \<Rightarrow> (ip_network \<times> int) list" where
  "jail6_live members = filter (\<lambda>(_, left). left > 0) members"

definition jail6_kept :: "(ip_network \<times> int) list \<Rightarrow> (ip_network \<times> int) list" where
  "jail6_kept live = filter (\<lambda>(net, _). \<not> list_ex (\<lambda>(other, _). other \<noteq> net \<and> subnet_of net other) live) live"

definition jail6_member :: "ip_network \<Rightarrow> string" where
  "jail6_member n = (if net_prefixlen n = 128 then show_ipv6 (net_address n) else show_network n)"

definition render_bruteforce_jail6_set :: "(ip_network \<times> int) list \<Rightarrow> nft_set" where
  "render_bruteforce_jail6_set members = \<lparr>set_name = BRUTEFORCE_JAIL6_SET_NAME, set_type = ''ipv6_addr'',
     set_flags = Some ''interval, timeout'', set_timeout = None,
     set_elements = map (\<lambda>(net, left). timeout_item (jail6_member net) left) (jail6_kept (jail6_live members))\<rparr>"

definition render_bruteforce_jail_mac_set :: "(string \<times> int) list \<Rightarrow> nft_set" where
  "render_bruteforce_jail_mac_set members = \<lparr>set_name = BRUTEFORCE_JAIL_MAC_SET_NAME, set_type = ''ether_addr'',
     set_flags = Some ''timeout'', set_timeout = None, set_elements = mac_elements members\<rparr>"

definition render_ids_quarantine_set :: "(int \<times> int) list \<Rightarrow> nft_set" where
  "render_ids_quarantine_set members = \<lparr>set_name = IDS_QUARANTINE_SET_NAME, set_type = ''ipv4_addr'',
     set_flags = Some ''timeout'', set_timeout = None, set_elements = timed_elements members\<rparr>"

definition render_ids_quarantine_mac_set :: "(string \<times> int) list \<Rightarrow> nft_set" where
  "render_ids_quarantine_mac_set members = \<lparr>set_name = IDS_QUARANTINE_MAC_SET_NAME, set_type = ''ether_addr'',
     set_flags = Some ''timeout'', set_timeout = None, set_elements = mac_elements members\<rparr>"

text \<open>
  A session: \<open>None\<close> for an address text that \<open>ip_address\<close> refuses, the MAC (empty for a tunnel
  client) and the seconds left.  The result names the set it goes to and its element.
\<close>

fun ztna_item :: "(family \<times> int) option \<times> string \<times> int \<Rightarrow> (string \<times> string) option" where
  "ztna_item (ip, mac, left) =
     (if left \<le> 0 then None
      else case ip of None \<Rightarrow> None
        | Some (f, x) \<Rightarrow>
            if mac \<noteq> []
            then (if \<not> mac_ok mac then None
                  else Some (if f = V6 then ZTNA6_SET_NAME else ZTNA_SET_NAME,
                             timeout_item (show_address f x @ '' . '' @ mac) left))
            else Some (if f = V6 then ZTNA_TUNNEL6_SET_NAME else ZTNA_TUNNEL_SET_NAME,
                       timeout_item (show_address f x) left))"

definition ztna_items :: "((family \<times> int) option \<times> string \<times> int) list \<Rightarrow> string \<Rightarrow> string list" where
  "ztna_items members name = map snd (filter (\<lambda>(s, _). s = name) (List.map_filter ztna_item members))"

definition render_ztna_sets :: "config \<Rightarrow> ((family \<times> int) option \<times> string \<times> int) list \<Rightarrow> nft_set list" where
  "render_ztna_sets cfg members =
     map (\<lambda>(name, kind). \<lparr>set_name = name, set_type = kind, set_flags = Some ''dynamic,timeout'',
            set_timeout = Some (session_ttl_seconds (ztna cfg)), set_elements = ztna_items members name\<rparr>)
       [(ZTNA_SET_NAME, ''ipv4_addr . ether_addr''), (ZTNA_TUNNEL_SET_NAME, ''ipv4_addr''),
        (ZTNA6_SET_NAME, ''ipv6_addr . ether_addr''), (ZTNA_TUNNEL6_SET_NAME, ''ipv6_addr'')]"

definition render_iot_isolated_set :: "string list \<Rightarrow> nft_set" where
  "render_iot_isolated_set members = \<lparr>set_name = IOT_ISOLATED_SET_NAME, set_type = ''ether_addr'', set_flags = None,
     set_timeout = None, set_elements = filter mac_ok members\<rparr>"

definition render_iface_set :: "string \<Rightarrow> string list \<Rightarrow> nft_set" where
  "render_iface_set zone devices = \<lparr>set_name = iface_set_name zone, set_type = ''ifname'', set_flags = None,
     set_timeout = None, set_elements = map quoted devices\<rparr>"


subsection \<open>Fixed lines\<close>

definition render_bruteforce_drop_rule :: nft_line where
  "render_bruteforce_drop_rule = nft [AddrSet V4 Saddr BRUTEFORCE_JAIL_SET_NAME] Drop ''bruteforce-jail''"

definition render_bruteforce_jail6_drop_rule :: nft_line where
  "render_bruteforce_jail6_drop_rule =
     nft [AddrSet V6 Saddr BRUTEFORCE_JAIL6_SET_NAME, Dport ''tcp'' MANAGEMENT_PORTS] Drop ''bruteforce-jail6''"

definition render_bruteforce_jail_mac_drop_rule :: nft_line where
  "render_bruteforce_jail_mac_drop_rule =
     nft [EtherSet BRUTEFORCE_JAIL_MAC_SET_NAME, Dport ''tcp'' MANAGEMENT_PORTS] Drop ''bruteforce-jail-mac''"

definition render_ids_quarantine_drop_rule :: nft_line where
  "render_ids_quarantine_drop_rule = nft [AddrSet V4 Saddr IDS_QUARANTINE_SET_NAME] Drop ''ids-quarantine''"

definition render_ids_quarantine_forward_rule :: nft_line where
  "render_ids_quarantine_forward_rule = nft [AddrSet V4 Saddr IDS_QUARANTINE_SET_NAME] Drop ''ids-quarantine-forward''"

definition render_ids_quarantine_mac_forward_rule :: nft_line where
  "render_ids_quarantine_mac_forward_rule =
     nft [Nfproto V6, EtherSet IDS_QUARANTINE_MAC_SET_NAME] Drop ''ids-quarantine-ipv6''"

definition render_drop_log :: "config \<Rightarrow> string \<Rightarrow> nft_line list" where
  "render_drop_log cfg chain =
     (if \<not> log_drops (logging cfg) then []
      else (let rate = drops_per_minute (logging cfg)
            in [nft_blank, nft_log [LimitRate rate ''minute'' rate] (DROP_LOG_PREFIX @ chain @ '': '') ''log-default-drop'']))"

subsection \<open>IPv6 lines\<close>

definition ICMPV6_ERRORS :: "string list" where
  "ICMPV6_ERRORS = [''destination-unreachable'', ''packet-too-big'', ''time-exceeded'', ''parameter-problem'']"

definition render_ipv6_wan_input :: "config \<Rightarrow> nft_line list" where
  "render_ipv6_wan_input cfg =
     (if \<not> ipv6_enabled (ipv6 cfg) \<or> wan_devices cfg = [] then []
      else (let wan = IifnameIn (wan_devices cfg) in
        [nft [wan, Icmpv6Type [''nd-neighbor-solicit'', ''nd-neighbor-advert''], Hoplimit 255] Accept ''ipv6-nd'',
         nft [wan, AddrIn V6 Saddr [LINK_LOCAL], Icmpv6Type [''nd-router-advert''], Hoplimit 255] Accept ''ipv6-ra'',
         nft [wan, AddrIn V6 Saddr [LINK_LOCAL], Icmpv6Type [''mld-listener-query''], Hoplimit 1] Accept ''ipv6-mld'',
         nft [wan, Icmpv6Type ICMPV6_ERRORS] Accept ''ipv6-errors'',
         nft [wan, Icmpv6Type [''echo-request''], LimitRate 5 ''second'' 10] Accept ''ipv6-ping'',
         nft [wan, AddrIn V6 Saddr [LINK_LOCAL], Sport ''udp'' 547, Dport ''udp'' [Port 546]] Accept ''ipv6-dhcpv6-client'']))"

definition render_vpn_ipv6_refused :: "config \<Rightarrow> string \<Rightarrow> nft_line list" where
  "render_vpn_ipv6_refused cfg c =
     (if \<not> wg_enabled (wireguard cfg) then []
      else [nft [IifnameIs WIREGUARD_IFACE, Nfproto V6] RejectAdminProhibited c])"

definition render_ipv6_input_jump :: "config \<Rightarrow> nft_line list" where
  "render_ipv6_input_jump cfg =
     (if \<not> ipv6_enabled (ipv6 cfg)
      then render_vpn_ipv6_refused cfg ''ipv6-vpn-off'' @ [nft [Nfproto V6] Drop ''ipv6-off'']
      else [nft [Nfproto V6] (Jump IPV6_INPUT_CHAIN) []])"

definition render_ipv6_input_drop :: "config \<Rightarrow> nft_line list" where
  "render_ipv6_input_drop cfg =
     [nft [Nfproto V6, PkttypeNotHost] Drop ''ipv6-not-for-the-router''] @
     (if log_drops (logging cfg)
      then (let rate = drops_per_minute (logging cfg)
            in [nft_log [Nfproto V6, LimitRate rate ''minute'' rate] (DROP_LOG_PREFIX @ ''input: '') ''log-ipv6-drop''])
      else []) @
     [nft [Nfproto V6] Drop ''ipv6-default-drop'']"

definition ipv6_management_devices :: "config \<Rightarrow> string list" where
  "ipv6_management_devices cfg =
     (if \<not> mgmt_ipv6 (management cfg) then []
      else map snd (filter (\<lambda>(z, _). z \<in> set (management_zones cfg)) (lan_devices cfg)))"

definition render_ipv6_input_chain :: "config \<Rightarrow> nft_line list" where
  "render_ipv6_input_chain cfg =
     (let dns = map snd (filter (\<lambda>(z, _). z \<in> set (dns_resolver_zones cfg)) (lan_devices cfg));
          managed = ipv6_management_devices cfg;
          wan = wan_devices cfg
      in (if dns \<noteq> [] then [nft [IifnameIn dns, L4proto [''tcp'', ''udp''], Dport ''th'' [Port 53]] Accept ''ipv6-dns''] else [])
       @ (if managed \<noteq> []
          then [nft [IifnameIn managed, AddrIn V6 Daddr [ULA], FibDaddrIifLocal, Dport ''tcp'' MANAGEMENT_PORTS] Return ''ipv6-management'']
          else [])
       @ (if wg_enabled (wireguard cfg) \<and> wan \<noteq> []
          then [nft [IifnameIn wan, Dport ''udp'' [Port (wg_listen_port (wireguard cfg))]] Accept ''ipv6-wireguard''] else [])
       @ (if tunnel_served cfg
          then [nft [IifnameIs WIREGUARD_IFACE, Icmpv6Type [''echo-request''], LimitRate 5 ''second'' 10] Accept ''ipv6-vpn-ping''] else [])
       @ render_vpn_ipv6_refused cfg ''ipv6-vpn-not-served''
       @ render_ipv6_input_drop cfg)"

definition ipv6_lan_devices :: "config \<Rightarrow> string list" where
  "ipv6_lan_devices cfg = map snd (lan_devices cfg)"

definition render_ipv6_lan_input :: "config \<Rightarrow> nft_line list" where
  "render_ipv6_lan_input cfg =
     (let devices = ipv6_lan_devices cfg
      in if devices = [] then []
         else [nft [IifnameIn devices, Icmpv6Type [''nd-neighbor-solicit'', ''nd-neighbor-advert'', ''nd-router-solicit''], Hoplimit 255]
                 Accept ''ipv6-lan-nd'',
               nft [IifnameIn devices, Icmpv6Type [''echo-request''], LimitRate 5 ''second'' 10] Accept ''ipv6-lan-ping''])"

definition render_lan_source_from_wan :: "string list \<Rightarrow> string list \<Rightarrow> nft_line list" where
  "render_lan_source_from_wan wan lan =
     (let inside = filter (\<lambda>d. d \<notin> set wan) lan
      in if inside = [] then []
         else [nft [Nfproto V6, IifnameIn wan, FibSaddrOif inside] Drop ''ipv6-lan-source-from-wan''])"

definition render_ipv6_forward_guard :: "config \<Rightarrow> nft_line list" where
  "render_ipv6_forward_guard cfg =
     (let lan = ipv6_lan_devices cfg;
          routes_tunnel = (lan \<noteq> [] \<and> wg_enabled (wireguard cfg) \<and> tunnel_served cfg);
          vpn = (if \<not> wg_enabled (wireguard cfg) then []
                 else if routes_tunnel
                 then [nft [IifnameIs WIREGUARD_IFACE, Nfproto V6, AddrNotIn V6 Daddr ULA] RejectAdminProhibited ''ipv6-vpn-ula-only'',
                       nft [OifnameIs WIREGUARD_IFACE, Nfproto V6, AddrNotIn V6 Saddr ULA] Drop ''ipv6-vpn-ula-only'']
                 else render_vpn_ipv6_refused cfg ''ipv6-vpn-not-routed'');
          wan = wan_devices cfg;
          routed = wan @ filter (\<lambda>d. d \<notin> set wan) lan @ (if routes_tunnel then [WIREGUARD_IFACE] else [])
      in if lan = [] then vpn @ [nft [Nfproto V6] Drop ''ipv6-no-routing'']
         else vpn
            @ [nft [Nfproto V6, IifnameNotIn routed] Drop ''ipv6-not-routed-here'',
               nft [Nfproto V6, OifnameNotIn routed] Drop ''ipv6-not-routed-here'',
               nft [Nfproto V6, IifnameIn lan, FibSaddrIifMissing] Drop ''ipv6-lan-spoofed'']
            @ render_lan_source_from_wan wan lan)"

definition render_ipv6_no_inbound :: "config \<Rightarrow> nft_line list" where
  "render_ipv6_no_inbound cfg =
     (if ipv6_lan_devices cfg = [] then []
      else (let rate = drops_per_minute (logging cfg); wan = [Nfproto V6, IifnameIn (wan_devices cfg)]
            in (if log_drops (logging cfg)
                then [nft_log (wan @ [LimitRate rate ''minute'' rate]) (DROP_LOG_PREFIX @ ''forward: '') ''log-ipv6-inbound''] else [])
             @ [nft wan Drop ''ipv6-no-inbound'']))"

definition render_ula_border :: "config \<Rightarrow> nft_line list" where
  "render_ula_border cfg =
     (if ipv6_lan_devices cfg = [] then []
      else (let wan = wan_devices cfg
            in [nft [IifnameIn wan, AddrIn V6 Saddr [ULA]] Drop ''ipv6-ula-from-internet'',
                nft [IifnameIn wan, AddrIn V6 Daddr [ULA]] Drop ''ipv6-ula-from-internet'',
                nft [OifnameIn wan, AddrIn V6 Saddr [ULA]] RejectAdminProhibited ''ipv6-ula-to-internet'',
                nft [OifnameIn wan, AddrIn V6 Daddr [ULA]] RejectAdminProhibited ''ipv6-ula-to-internet'']))"

definition IID_MASK :: int where
  "IID_MASK = 2 ^ 64 - 1"

definition render_pinhole :: "config \<Rightarrow> ipv6_pinhole \<Rightarrow> nft_line" where
  "render_pinhole cfg p =
     (nft ([Nfproto V6, IifnameIn (wan_devices cfg), OifnameSet (iface_set_name (pin_zone p))]
          @ (case pin_source p of None \<Rightarrow> [] | Some n \<Rightarrow> [AddrIn V6 Saddr [n]])
          @ [if is_suffix p then DaddrMasked IID_MASK (pin_host p) else AddrIs V6 Daddr (pin_host p),
             Dport (proto_value (pin_proto p)) [pin_port p]])
        Accept (''pinhole:'' @ pin_name p))\<lparr>line_counter := True\<rparr>"

definition render_ipv6_pinholes :: "config \<Rightarrow> nft_line list" where
  "render_ipv6_pinholes cfg =
     (let served = map fst (lan_devices cfg)
      in if served = [] \<or> pinholes (ipv6 cfg) = [] then []
         else map (render_pinhole cfg) (filter (\<lambda>p. pin_zone p \<in> set served) (pinholes (ipv6 cfg))))"

subsection \<open>IoT isolation and the SNI filter\<close>

definition render_iot_input_rules :: "config \<Rightarrow> nft_line list" where
  "render_iot_input_rules cfg =
     map (\<lambda>z. nft [IifnameSet (iface_set_name z), Sport ''udp'' 5353, Dport ''udp'' [Port IOT_MDNS_REPLY_PORT]]
            Accept ''iot-mdns-replies'') (iot_zones (iot cfg))
     @ [nft [EtherSet IOT_ISOLATED_SET_NAME, Dport ''udp'' [Port 53, Port 67]] Accept ''iot-isolated-dhcp-dns'',
        nft [EtherSet IOT_ISOLATED_SET_NAME, Dport ''tcp'' [Port 53]] Accept ''iot-isolated-dns-tcp'',
        nft [EtherSet IOT_ISOLATED_SET_NAME] Drop ''iot-isolated-input'']"

definition masquerade_zones :: "config \<Rightarrow> string list" where
  "masquerade_zones cfg = sort (remdups (map out_zone (nat_masquerade (nat_cfg cfg))))"

definition render_iot_forward_rules :: "config \<Rightarrow> nft_line list" where
  "render_iot_forward_rules cfg =
     (if isolation_mode (iot cfg) = INTERNET_ONLY
      then map (\<lambda>z. nft [EtherSet IOT_ISOLATED_SET_NAME, OifnameSet (iface_set_name z)] Accept ''iot-isolated-internet'')
             (masquerade_zones cfg)
      else [])
     @ [nft [EtherSet IOT_ISOLATED_SET_NAME] Drop ''iot-isolated-forward'']"

definition render_sni_filter_quic_reject :: "config \<Rightarrow> nft_line option" where
  "render_sni_filter_quic_reject cfg =
     (let devices = sni_filtered_devices cfg
      in if devices = [] then None
         else Some (nft [IifnameIn devices, Dport ''udp'' [Port 443]] Reject ''sni-filter-no-quic''))"

subsection \<open>Rules\<close>

definition ZTNA_MATCHES :: "(family \<times> nft_match list) list" where
  "ZTNA_MATCHES =
     [(V4, [AddrEtherSet V4 ZTNA_SET_NAME]),
      (V4, [IifnameIs WIREGUARD_IFACE, AddrSet V4 Saddr ZTNA_TUNNEL_SET_NAME]),
      (V6, [AddrEtherSet V6 ZTNA6_SET_NAME]),
      (V6, [IifnameIs WIREGUARD_IFACE, AddrSet V6 Saddr ZTNA_TUNNEL6_SET_NAME])]"

definition action_verdict :: "rule_action \<Rightarrow> verdict" where
  "action_verdict a = (case a of ACCEPT \<Rightarrow> Accept | DROP \<Rightarrow> Drop | REJECT \<Rightarrow> Reject)"

definition rule_matches :: "rule \<Rightarrow> family option \<Rightarrow> nft_match list option \<Rightarrow> nft_match list" where
  "rule_matches r family ztna_match =
     (case expires r of None \<Rightarrow> [] | Some e \<Rightarrow> [MetaTimeLess e])
     @ (case from_zone r of None \<Rightarrow> [] | Some z \<Rightarrow> [IifnameSet (iface_set_name z)])
     @ (case to_zone r of None \<Rightarrow> [] | Some z \<Rightarrow> if z \<noteq> SELF_ZONE then [OifnameSet (iface_set_name z)] else [])
     @ (case ztna_match of None \<Rightarrow> [] | Some ms \<Rightarrow> ms)
     @ (case dst_port r of Some p \<Rightarrow> [Dport (proto_value (proto r)) [p]]
        | None \<Rightarrow> (if proto r = ICMP then [L4proto [''icmp'', ''ipv6-icmp'']]
                  else if proto r \<noteq> ANY then [L4proto [proto_value (proto r)]] else []))
     @ (case src_mac r of None \<Rightarrow> [] | Some m \<Rightarrow> [EtherIs m])
     @ (case family of None \<Rightarrow> []
        | Some f \<Rightarrow> (if networks r Src_address f \<noteq> [] then [AddrIn f Saddr (networks r Src_address f)] else [])
                   @ (if networks r Dst_address f \<noteq> [] then [AddrIn f Daddr (networks r Dst_address f)] else []))"

definition rule_line :: "rule \<Rightarrow> nft_match list \<Rightarrow> nft_line" where
  "rule_line r ms = \<lparr>line_matches = ms, line_log = (if rule_log r then Some (''fr_os/'' @ rule_name r @ '': '') else None),
     line_counter = True, line_verdict = Some (action_verdict (action r)), line_comment = ''rule:'' @ rule_name r\<rparr>"

definition render_rule_lines :: "rule \<Rightarrow> schedule_clock option \<Rightarrow> family option \<Rightarrow> nft_match list option \<Rightarrow>
    (build_error, nft_line list) result" where
  "render_rule_lines r clock family ztna_match =
     (let ms = rule_matches r family ztna_match
      in case schedule r of None \<Rightarrow> Inr [rule_line r ms]
         | Some sched \<Rightarrow>
            (case clock of None \<Rightarrow> Inl (NoClock (rule_name r))
             | Some c \<Rightarrow> Inr (map (\<lambda>seg. rule_line r (TimeSegment seg # ms))
                 (segments (sched_days sched) (sched_start sched) (sched_end sched) c))))"

fun concat_results :: "('e, 'a list) result list \<Rightarrow> ('e, 'a list) result" where
  "concat_results [] = Inr []"
| "concat_results (r # rs) = bind_result r (\<lambda>xs. bind_result (concat_results rs) (\<lambda>ys. Inr (xs @ ys)))"

definition addressed :: "rule \<Rightarrow> bool" where
  "addressed r \<longleftrightarrow> address_list r Src_address \<noteq> [] \<or> address_list r Dst_address \<noteq> []"

text \<open>The variants of a rule: the families it is rendered for and the ways a client can be signed in.\<close>

definition rule_variants :: "rule \<Rightarrow> (family option \<times> nft_match list option) list" where
  "rule_variants r =
     (if \<not> addressed r \<and> \<not> require_ztna r then [(None, None)]
      else concat (map (\<lambda>f. if f \<notin> set (families r) then []
        else map (\<lambda>m. (if addressed r then Some f else None, m))
               (if require_ztna r then map (\<lambda>(_, m). Some m) (filter (\<lambda>(f', _). f' = f) ZTNA_MATCHES) else [None]))
        [V4, V6]))"

definition render_rule :: "schedule_clock option \<Rightarrow> rule \<Rightarrow> (build_error, nft_line list) result" where
  "render_rule clock r = concat_results (map (\<lambda>(f, m). render_rule_lines r clock f m) (rule_variants r))"

definition render_rules :: "schedule_clock option \<Rightarrow> rule list \<Rightarrow> (build_error, nft_line list) result" where
  "render_rules clock rs = concat_results (map (render_rule clock) rs)"

end
