(* ===== verification/Ruleset.thy ===== *)
theory Ruleset
  imports Builder
begin

text \<open>
  The whole ruleset: the second half of \<open>src/src/frfw/nft/builder.py\<close> (\<open>build_ruleset\<close>, the NAT
  chains and the text of the script).  \<open>build_ruleset\<close> gives the script as a tree (\<open>ruleset\<close>), so
  that its chains can be run by \<open>Nft.run_lines\<close>; \<open>render_ruleset\<close> is the text of the tree, which the
  code joins as it goes.

  \<open>current_clock\<close>, which reads the host's clock and time zone, is a parameter.  The current time
  \<open>now\<close> is always given (the code reads \<open>time.time()\<close> when it is not).
\<close>

subsection \<open>NAT\<close>

datatype nat_action = RedirectTo nat | DnatIpTo string nat | Masquerade

record nat_line =
  nat_matches :: "nft_match list"
  nat_target :: nat_action
  nat_comment :: string

primrec render_nat_action :: "nat_action \<Rightarrow> string" where
  "render_nat_action (RedirectTo p) = ''redirect to :'' @ show_nat p"
| "render_nat_action (DnatIpTo a p) = ''dnat ip to '' @ a @ '':'' @ show_nat p"
| "render_nat_action Masquerade = ''masquerade''"

definition render_nat_line :: "nat_line \<Rightarrow> string" where
  "render_nat_line l = py_join '' '' (map render_match (nat_matches l) @ [render_nat_action (nat_target l), comment (nat_comment l)])"

definition render_masquerade :: "masquerade \<Rightarrow> nat_line" where
  "render_masquerade m = \<lparr>nat_matches = [Nfproto V4, OifnameSet (iface_set_name (out_zone m))],
     nat_target = Masquerade, nat_comment = ''nat:masquerade:'' @ out_zone m\<rparr>"

definition render_port_forward :: "port_forward \<Rightarrow> nat_line" where
  "render_port_forward pf =
     \<lparr>nat_matches = [IifnameSet (iface_set_name (pf_in_zone pf)), Dport (proto_value (pf_proto pf)) [Port (pf_dst_port pf)]],
      nat_target = DnatIpTo (pf_to_address pf) (pf_to_port pf), nat_comment = ''nat:portfwd:'' @ pf_name pf\<rparr>"

definition force_dns_line :: "family \<Rightarrow> string \<Rightarrow> string \<Rightarrow> nat_line" where
  "force_dns_line f zone p =
     \<lparr>nat_matches = [Nfproto f, IifnameSet (iface_set_name zone), Dport p [Port 53]], nat_target = RedirectTo 53,
      nat_comment = ''force-dns''\<rparr>"

definition force_dns_lines :: "config \<Rightarrow> string list \<Rightarrow> nat_line list" where
  "force_dns_lines cfg zs =
     (let ipv6_zones = map fst (lan_devices cfg)
      in concat (map (\<lambda>z. concat (map (\<lambda>f. map (force_dns_line f z) [''udp'', ''tcp''])
           (if z \<in> set ipv6_zones then [V4, V6] else [V4]))) zs))"

record nat_chains =
  nat_redirects :: "nat_line list"
  nat_forwards :: "nat_line list"
  nat_masquerades :: "nat_line list"

definition render_nat_chains :: "config \<Rightarrow> string list \<Rightarrow> nat_chains" where
  "render_nat_chains cfg force_dns_zones =
     \<lparr>nat_redirects = force_dns_lines cfg force_dns_zones,
      nat_forwards = map render_port_forward (nat_port_forwards (nat_cfg cfg)),
      nat_masquerades = map render_masquerade (nat_masquerade (nat_cfg cfg))\<rparr>"

subsection \<open>build\_ruleset\<close>

record ruleset =
  rs_iface_sets :: "nft_set list"
  rs_jail_sets :: "nft_set list"
  rs_ids_sets :: "nft_set list"
  rs_ztna_sets :: "nft_set list"
  rs_iot_set :: "nft_set option"
  rs_input :: "nft_line list"
  rs_ipv6_input :: "nft_line list option"
  rs_forward :: "nft_line list"
  rs_nat :: "nat_chains option"

definition active_rules :: "config \<Rightarrow> seconds \<Rightarrow> rule list" where
  "active_rules cfg now = filter (live_at now) (rules cfg)"

definition input_cut :: "rule list \<Rightarrow> rule list" where
  "input_cut live = filter (\<lambda>r. in_input r \<and> cuts r) live"

definition forward_cut :: "rule list \<Rightarrow> rule list" where
  "forward_cut live = filter (\<lambda>r. \<not> in_input r \<and> cuts r) live"

definition input_rules :: "rule list \<Rightarrow> rule list" where
  "input_rules live = filter (\<lambda>r. in_input r \<and> \<not> cuts r) live"

definition forward_rules :: "rule list \<Rightarrow> rule list" where
  "forward_rules live = filter (\<lambda>r. \<not> in_input r \<and> \<not> cuts r) live"

definition ct_lines :: "nft_line list" where
  "ct_lines = [nft [CtState [''established'', ''related'']] Accept [], nft [CtState [''invalid'']] Drop []]"

definition jail_lines :: "nft_line list" where
  "jail_lines = [render_bruteforce_drop_rule, render_ids_quarantine_drop_rule, render_bruteforce_jail6_drop_rule,
     render_bruteforce_jail_mac_drop_rule, render_ids_quarantine_mac_forward_rule]"

definition dns_accept_lines :: "config \<Rightarrow> nft_line list" where
  "dns_accept_lines cfg = concat (map (\<lambda>z. map (\<lambda>p. nft [IifnameSet (iface_set_name z), Dport p [Port 53]] Accept ''dns-resolver'')
     [''udp'', ''tcp'']) (dns_resolver_zones cfg))"

definition management_drop :: "string \<Rightarrow> nft_line" where
  "management_drop z = nft [IifnameSet (iface_set_name z), Dport ''tcp'' MANAGEMENT_PORTS] Drop (''no-management-from-'' @ z)"

definition management_drop_lines :: "config \<Rightarrow> (string, string list) dict \<Rightarrow> nft_line list" where
  "management_drop_lines cfg zd =
     map management_drop (filter (\<lambda>z. dict_get_or zd z [] \<noteq> []) (blocked_zones cfg))"

definition wireguard_line :: "config \<Rightarrow> nft_line list" where
  "wireguard_line cfg =
     (if wg_enabled (wireguard cfg)
      then [nft [Dport ''udp'' [Port (wg_listen_port (wireguard cfg))]] Accept ''wireguard''] else [])"

definition with_blank :: "'a list \<Rightarrow> nft_line list \<Rightarrow> nft_line list" where
  "with_blank rs ls = (if rs = [] then [] else nft_blank # ls)"

text \<open>The input chain, from the rendered rules ahead of the established accept and behind it.\<close>

definition input_head :: "config \<Rightarrow> nft_line list" where
  "input_head cfg = jail_lines
     @ (if iot_enabled (iot cfg) then render_iot_input_rules cfg else [])
     @ [nft [IifnameIs ''lo''] Accept []]
     @ render_ipv6_wan_input cfg @ render_ipv6_lan_input cfg"

definition input_chain :: "config \<Rightarrow> (string, string list) dict \<Rightarrow> rule list \<Rightarrow> nft_line list \<Rightarrow> nft_line list \<Rightarrow> nft_line list" where
  "input_chain cfg zd live cut_lines rule_lines =
     input_head cfg @ cut_lines @ ct_lines @ render_ipv6_input_jump cfg @ dns_accept_lines cfg
     @ management_drop_lines cfg zd @ wireguard_line cfg
     @ with_blank (input_rules live) rule_lines
     @ render_drop_log cfg ''input''"

definition forcing_dns :: "config \<Rightarrow> bool" where
  "forcing_dns cfg \<longleftrightarrow> adblock_enabled (adblocker cfg) \<and> force_dns (adblocker cfg)"

definition block_dot_lines :: "config \<Rightarrow> nft_line list" where
  "block_dot_lines cfg =
     (if forcing_dns cfg
      then concat (map (\<lambda>z. map (\<lambda>p. nft [IifnameSet (iface_set_name z), Dport p [Port 853]] Reject ''force-dns-block-dot'')
             [''tcp'', ''udp'']) (dns_resolver_zones cfg))
      else [])"

definition forward_head :: "config \<Rightarrow> nft_line list" where
  "forward_head cfg = render_ipv6_forward_guard cfg @ render_ula_border cfg
     @ [render_ids_quarantine_forward_rule, render_ids_quarantine_mac_forward_rule]
     @ (case render_sni_filter_quic_reject cfg of None \<Rightarrow> [] | Some l \<Rightarrow> [l])
     @ (if iot_enabled (iot cfg) then render_iot_forward_rules cfg else [])"

definition forward_chain :: "config \<Rightarrow> rule list \<Rightarrow> nft_line list \<Rightarrow> nft_line list \<Rightarrow> nft_line list" where
  "forward_chain cfg live cut_lines rule_lines =
     forward_head cfg @ cut_lines @ ct_lines @ render_ipv6_pinholes cfg @ render_ipv6_no_inbound cfg
     @ block_dot_lines cfg
     @ with_blank (forward_rules live) rule_lines
     @ render_drop_log cfg ''forward''"

definition effective_clock :: "schedule_clock \<Rightarrow> config \<Rightarrow> schedule_clock option \<Rightarrow> schedule_clock option" where
  "effective_clock current_clock cfg clock =
     (if clock = None \<and> list_ex (\<lambda>r. schedule r \<noteq> None) (rules cfg) then Some current_clock else clock)"

definition nat_part :: "config \<Rightarrow> nat_chains option" where
  "nat_part cfg =
     (if nat_masquerade (nat_cfg cfg) \<noteq> [] \<or> nat_port_forwards (nat_cfg cfg) \<noteq> [] \<or> forcing_dns cfg
      then Some (render_nat_chains cfg (if forcing_dns cfg then dns_resolver_zones cfg else [])) else None)"

definition sorted_iface_sets :: "(string, string list) dict \<Rightarrow> nft_set list" where
  "sorted_iface_sets zd = map (\<lambda>z. render_iface_set z (dict_get_or zd z [])) (sort (map fst zd))"

definition build_ruleset :: "schedule_clock \<Rightarrow> config \<Rightarrow> schedule_clock option \<Rightarrow> seconds \<Rightarrow> runtime_sets \<Rightarrow>
    (build_error, ruleset) result" where
  "build_ruleset current_clock cfg clock0 now runtime =
     bind_result (zone_devices cfg) (\<lambda>zd.
     let clock = effective_clock current_clock cfg clock0; live = active_rules cfg now in
     bind_result (render_rules clock (input_cut live)) (\<lambda>in_cut.
     bind_result (render_rules clock (input_rules live)) (\<lambda>in_rules.
     bind_result (render_rules clock (forward_cut live)) (\<lambda>fwd_cut.
     bind_result (render_rules clock (forward_rules live)) (\<lambda>fwd_rules.
     Inr \<lparr>rs_iface_sets = sorted_iface_sets zd,
          rs_jail_sets = [render_bruteforce_jail_set (rt_bruteforce_jail runtime),
                          render_bruteforce_jail6_set (rt_bruteforce_jail6 runtime),
                          render_bruteforce_jail_mac_set (rt_bruteforce_jail_mac runtime)],
          rs_ids_sets = [render_ids_quarantine_set (rt_ids_quarantine runtime),
                         render_ids_quarantine_mac_set (rt_ids_quarantine_mac runtime)],
          rs_ztna_sets = render_ztna_sets cfg (if ztna_enabled (ztna cfg) then rt_ztna runtime else []),
          rs_iot_set = (if iot_enabled (iot cfg) then Some (render_iot_isolated_set (rt_iot_isolated runtime)) else None),
          rs_input = input_chain cfg zd live in_cut in_rules,
          rs_ipv6_input = (if ipv6_enabled (ipv6 cfg) then Some (render_ipv6_input_chain cfg) else None),
          rs_forward = forward_chain cfg live fwd_cut fwd_rules,
          rs_nat = nat_part cfg\<rparr>)))))"

subsection \<open>The text of the script\<close>

definition tab :: string where "tab = [char_of (9::nat)]"
definition newline :: string where "newline = [char_of (10::nat)]"

definition render_set :: "nft_set \<Rightarrow> string list" where
  "render_set s =
     [tab @ ''set '' @ set_name s @ '' {'', tab @ tab @ ''type '' @ set_type s]
     @ (case set_flags s of None \<Rightarrow> [] | Some f \<Rightarrow> [tab @ tab @ ''flags '' @ f])
     @ (case set_timeout s of None \<Rightarrow> [] | Some t \<Rightarrow> [tab @ tab @ ''timeout '' @ show_int t @ ''s''])
     @ (if set_elements s = [] then [] else [tab @ tab @ ''elements = '' @ braces (set_elements s)])
     @ [tab @ ''}'']"

definition render_script_line :: "nft_line \<Rightarrow> string" where
  "render_script_line l = (if l = nft_blank then [] else tab @ tab @ render_line l)"

definition render_base_chain :: "string \<Rightarrow> nft_line list \<Rightarrow> string list" where
  "render_base_chain name ls =
     [tab @ ''chain '' @ name @ '' {'', tab @ tab @ ''type filter hook '' @ name @ '' priority filter; policy drop;'', []]
     @ map render_script_line ls @ [tab @ ''}'']"

definition nat_group :: "nat_line list \<Rightarrow> string list" where
  "nat_group ls = (if ls = [] then [] else [] # map (\<lambda>l. tab @ tab @ render_nat_line l) ls)"

definition render_nat_text :: "nat_chains \<Rightarrow> string list" where
  "render_nat_text n =
     [tab @ ''chain prerouting {'', tab @ tab @ ''type nat hook prerouting priority dstnat; policy accept;'']
     @ nat_group (nat_redirects n) @ nat_group (nat_forwards n)
     @ [tab @ ''}'', [], tab @ ''chain postrouting {'', tab @ tab @ ''type nat hook postrouting priority srcnat; policy accept;'']
     @ nat_group (nat_masquerades n) @ [tab @ ''}'']"

definition ruleset_lines :: "ruleset \<Rightarrow> string list" where
  "ruleset_lines s =
     [''flush ruleset'', [], ''table inet '' @ FILTER_TABLE @ '' {'']
     @ concat (map render_set (rs_iface_sets s))
     @ [[]] @ concat (map render_set (rs_jail_sets s))
     @ [[]] @ concat (map render_set (rs_ids_sets s))
     @ [[]] @ concat (map render_set (rs_ztna_sets s))
     @ (case rs_iot_set s of None \<Rightarrow> [] | Some t \<Rightarrow> [[]] @ render_set t)
     @ [[]] @ render_base_chain ''input'' (rs_input s)
     @ (case rs_ipv6_input s of None \<Rightarrow> []
        | Some ls \<Rightarrow> [[], tab @ ''chain '' @ IPV6_INPUT_CHAIN @ '' {''] @ map render_script_line ls @ [tab @ ''}''])
     @ [[]] @ render_base_chain ''forward'' (rs_forward s)
     @ [[], tab @ ''chain output {'', tab @ tab @ ''type filter hook output priority filter; policy accept;'', tab @ ''}'']
     @ (case rs_nat s of None \<Rightarrow> [] | Some n \<Rightarrow> [[]] @ render_nat_text n)
     @ [''}'', []]"

definition render_ruleset :: "ruleset \<Rightarrow> string" where
  "render_ruleset s = py_join newline (ruleset_lines s)"

end
