(* ===== verification/Kernel.thy ===== *)
theory Kernel
  imports Nft Rule_Lint
begin

text \<open>
  What the builder relies on of the kernel's matches, as a contract on the parameter \<open>holds\<close> of
  \<open>Nft\<close> (nft(8), PAYLOAD EXPRESSIONS and META EXPRESSIONS): a packet belongs to one address family,
  carries one transport protocol, one destination port, one source and one destination address and
  arrives on one interface at one time, and a match on such a field compares with that value
  (adding the protocol dependency a payload match implies).  \<open>timed_kernel\<close> adds the kernel's clock
  for \<open>meta day\<close> and \<open>meta hour\<close>.

  \<open>packet_holds\<close> is a packet that has those fields, with the contents of the named sets: the
  contract is met by every packet and every content of the sets.
\<close>

definition port_in :: "port_spec \<Rightarrow> nat \<Rightarrow> bool" where
  "port_in P n \<longleftrightarrow> fst (ports P) \<le> n \<and> n \<le> snd (ports P)"

locale nft_kernel =
  fixes holds :: "nft_match \<Rightarrow> bool"
  assumes one_family: "\<exists>f. \<forall>g. holds (Nfproto g) \<longleftrightarrow> g = f"
    and one_protocol: "\<exists>p. \<forall>ps. holds (L4proto ps) \<longleftrightarrow> p \<in> set ps"
    and one_port: "p \<in> {''tcp'', ''udp''} \<Longrightarrow>
      \<exists>n. \<forall>ps. holds (Dport p ps) \<longleftrightarrow> holds (L4proto [p]) \<and> (\<exists>P\<in>set ps. port_in P n)"
    and th_port: "p \<in> {''tcp'', ''udp''} \<Longrightarrow> holds (Dport ''th'' ps) \<Longrightarrow> holds (L4proto [p]) \<Longrightarrow> holds (Dport p ps)"
    and one_address: "\<exists>x. \<forall>ns. holds (AddrIn f d ns) \<longleftrightarrow> holds (Nfproto f) \<and> (\<exists>n\<in>set ns. in_network f x n)"
    and one_time: "\<exists>t. \<forall>e. holds (MetaTimeLess e) \<longleftrightarrow> t < (of_int e :: rat)"
    and one_iif: "\<exists>d. \<forall>e ds. (holds (IifnameIs e) \<longleftrightarrow> e = d) \<and> (holds (IifnameIn ds) \<longleftrightarrow> d \<in> set ds)
      \<and> (holds (IifnameNotIn ds) \<longleftrightarrow> d \<notin> set ds)"
    and icmpv6_protocol: "holds (Icmpv6Type ts) \<Longrightarrow> holds (L4proto [''ipv6-icmp''])"
    and addr_set_family: "holds (AddrSet f d s) \<Longrightarrow> holds (Nfproto f)"
begin

lemma other_family: "holds (Nfproto f) \<Longrightarrow> f \<noteq> g \<Longrightarrow> \<not> holds (Nfproto g)"
  using one_family by metis

lemma other_protocol: "holds (L4proto [p]) \<Longrightarrow> p \<noteq> q \<Longrightarrow> \<not> holds (L4proto [q])"
  using one_protocol by (metis empty_iff empty_set set_ConsD)

lemma protocol_weaken: "holds (L4proto [p]) \<Longrightarrow> p \<in> set ps \<Longrightarrow> holds (L4proto ps)"
  using one_protocol by (metis empty_iff empty_set set_ConsD)

lemma port_protocol: "p \<in> {''tcp'', ''udp''} \<Longrightarrow> holds (Dport p ps) \<Longrightarrow> holds (L4proto [p])"
  using one_port by blast

lemma port_weaken:
  assumes p: "p \<in> {''tcp'', ''udp''}" and h: "holds (Dport p ps)"
    and sub: "\<And>P. P \<in> set ps \<Longrightarrow> \<exists>Q\<in>set qs. fst (ports Q) \<le> fst (ports P) \<and> snd (ports P) \<le> snd (ports Q)"
  shows "holds (Dport p qs)"
proof -
  obtain n where n: "\<And>ps. holds (Dport p ps) \<longleftrightarrow> holds (L4proto [p]) \<and> (\<exists>P\<in>set ps. port_in P n)"
    using one_port [OF p] by blast
  with h obtain P where "holds (L4proto [p])" "P \<in> set ps" "port_in P n" by blast
  with sub n show ?thesis by (fastforce simp: port_in_def)
qed

lemma tcp_ports_apart:
  assumes "holds (Dport ''tcp'' [Port a, Port b])" and "c \<noteq> a" and "c \<noteq> b"
  shows "\<not> holds (Dport ''tcp'' [Port c])" and "\<not> holds (Dport ''udp'' ps)" and "\<not> holds (Icmpv6Type ts)"
    and "\<not> holds (Dport ''th'' [Port c])"
proof -
  obtain n where n: "\<And>ps. holds (Dport ''tcp'' ps) \<longleftrightarrow> holds (L4proto [''tcp'']) \<and> (\<exists>P\<in>set ps. port_in P n)"
    using one_port [of "''tcp''"] by blast
  have l4: "holds (L4proto [''tcp''])" and "n = a \<or> n = b"
    using assms(1) n by (auto simp: port_in_def)
  with assms(2,3) n show other: "\<not> holds (Dport ''tcp'' [Port c])" by (auto simp: port_in_def)
  show "\<not> holds (Dport ''udp'' ps)"
    using other_protocol [OF l4, of "''udp''"] port_protocol [of "''udp''" ps] by auto
  show "\<not> holds (Icmpv6Type ts)"
    using other_protocol [OF l4, of "''ipv6-icmp''"] icmpv6_protocol [of ts] by auto
  show "\<not> holds (Dport ''th'' [Port c])"
    using th_port [of "''tcp''" "[Port c]"] l4 other by auto
qed

lemma address_weaken:
  assumes h: "holds (AddrIn f d ns)"
    and sub: "\<And>n. n \<in> set ns \<Longrightarrow> \<exists>m\<in>set ms. net_family n = net_family m \<and> subnet_of n m"
  shows "holds (AddrIn f d ms)"
proof -
  obtain x where x: "\<And>ns. holds (AddrIn f d ns) \<longleftrightarrow> holds (Nfproto f) \<and> (\<exists>n\<in>set ns. in_network f x n)"
    using one_address [of f d] by blast
  with h obtain n where "holds (Nfproto f)" "n \<in> set ns" "in_network f x n" by blast
  with sub x subnet_of_in_network show ?thesis by metis
qed

lemma time_weaken: "holds (MetaTimeLess a) \<Longrightarrow> a \<le> b \<Longrightarrow> holds (MetaTimeLess b)"
  using one_time by (metis of_int_le_iff order_less_le_trans)

lemma iif_weaken: "holds (IifnameIn ds) \<Longrightarrow> set ds \<subseteq> set es \<Longrightarrow> holds (IifnameIn es)"
  using one_iif by blast

lemma iif_not: "holds (IifnameNotIn ds) \<longleftrightarrow> \<not> holds (IifnameIn ds)"
  using one_iif by blast

end

locale timed_kernel = nft_kernel +
  fixes minute :: int and clock :: schedule_clock
  assumes segment_time: "holds (TimeSegment seg) \<longleftrightarrow> segment_matches seg minute clock"
begin

lemma some_segment_holds:
  assumes "schedule_ok (sched_days s) (sched_start s) (sched_end s)"
  shows "(\<exists>seg\<in>set (segments (sched_days s) (sched_start s) (sched_end s) clock). holds (TimeSegment seg)) \<longleftrightarrow>
    is_active (sched_days s) (sched_start s) (sched_end s) (minute + utc_offset_minutes clock)"
  using segments_active [OF assms, of clock minute] by (simp add: segment_time)

end

subsection \<open>A packet\<close>

record packet =
  pk_in :: string
  pk_out :: string
  pk_family :: family
  pk_src :: int
  pk_dst :: int
  pk_mac :: string
  pk_l4 :: string
  pk_sport :: nat
  pk_dport :: nat
  pk_icmp6 :: string
  pk_hoplimit :: nat
  pk_ct :: string
  pk_for_host :: bool
  pk_dst_local :: bool
  pk_route_back :: bool
  pk_src_oif :: string
  pk_within_limit :: bool
  pk_time :: rat
  pk_minute :: int

record named_sets =
  iface_sets :: "string \<Rightarrow> string list"
  addr_sets :: "string \<Rightarrow> ip_network list"
  mac_sets :: "string \<Rightarrow> string list"
  addr_mac_sets :: "string \<Rightarrow> (int \<times> string) list"

definition pk_addr :: "packet \<Rightarrow> direction \<Rightarrow> int" where
  "pk_addr p d = (case d of Saddr \<Rightarrow> pk_src p | Daddr \<Rightarrow> pk_dst p)"

fun packet_holds :: "named_sets \<Rightarrow> schedule_clock \<Rightarrow> packet \<Rightarrow> nft_match \<Rightarrow> bool" where
  "packet_holds S c p (IifnameSet s) \<longleftrightarrow> pk_in p \<in> set (iface_sets S s)"
| "packet_holds S c p (OifnameSet s) \<longleftrightarrow> pk_out p \<in> set (iface_sets S s)"
| "packet_holds S c p (IifnameIs d) \<longleftrightarrow> d = pk_in p"
| "packet_holds S c p (IifnameIn ds) \<longleftrightarrow> pk_in p \<in> set ds"
| "packet_holds S c p (IifnameNotIn ds) \<longleftrightarrow> pk_in p \<notin> set ds"
| "packet_holds S c p (OifnameIs d) \<longleftrightarrow> d = pk_out p"
| "packet_holds S c p (OifnameIn ds) \<longleftrightarrow> pk_out p \<in> set ds"
| "packet_holds S c p (OifnameNotIn ds) \<longleftrightarrow> pk_out p \<notin> set ds"
| "packet_holds S c p (AddrSet f d s) \<longleftrightarrow> f = pk_family p \<and> list_ex (in_network f (pk_addr p d)) (addr_sets S s)"
| "packet_holds S c p (AddrIn f d ns) \<longleftrightarrow> f = pk_family p \<and> list_ex (in_network f (pk_addr p d)) ns"
| "packet_holds S c p (AddrIs f d x) \<longleftrightarrow> f = pk_family p \<and> pk_addr p d = x"
| "packet_holds S c p (AddrNotIn f d n) \<longleftrightarrow> f = pk_family p \<and> \<not> in_network f (pk_addr p d) n"
| "packet_holds S c p (DaddrMasked m h) \<longleftrightarrow> pk_family p = V6 \<and> and (pk_dst p) m = h"
| "packet_holds S c p (EtherSet s) \<longleftrightarrow> pk_mac p \<in> set (mac_sets S s)"
| "packet_holds S c p (EtherIs m) \<longleftrightarrow> pk_mac p = m"
| "packet_holds S c p (AddrEtherSet f s) \<longleftrightarrow> f = pk_family p \<and> (pk_src p, pk_mac p) \<in> set (addr_mac_sets S s)"
| "packet_holds S c p (Nfproto f) \<longleftrightarrow> f = pk_family p"
| "packet_holds S c p (L4proto ps) \<longleftrightarrow> pk_l4 p \<in> set ps"
| "packet_holds S c p (Dport q ps) \<longleftrightarrow>
     (if q = ''th'' then pk_l4 p \<in> {''tcp'', ''udp''} else pk_l4 p = q) \<and> list_ex (\<lambda>P. port_in P (pk_dport p)) ps"
| "packet_holds S c p (Sport q n) \<longleftrightarrow> pk_l4 p = q \<and> pk_sport p = n"
| "packet_holds S c p (Icmpv6Type ts) \<longleftrightarrow> pk_l4 p = ''ipv6-icmp'' \<and> pk_icmp6 p \<in> set ts"
| "packet_holds S c p (Hoplimit n) \<longleftrightarrow> pk_family p = V6 \<and> pk_hoplimit p = n"
| "packet_holds S c p (CtState ss) \<longleftrightarrow> pk_ct p \<in> set ss"
| "packet_holds S c p PkttypeNotHost \<longleftrightarrow> \<not> pk_for_host p"
| "packet_holds S c p FibDaddrIifLocal \<longleftrightarrow> pk_dst_local p"
| "packet_holds S c p FibSaddrIifMissing \<longleftrightarrow> \<not> pk_route_back p"
| "packet_holds S c p (FibSaddrOif ds) \<longleftrightarrow> pk_src_oif p \<in> set ds"
| "packet_holds S c p (LimitRate n per b) \<longleftrightarrow> pk_within_limit p"
| "packet_holds S c p (MetaTimeLess e) \<longleftrightarrow> pk_time p < of_int e"
| "packet_holds S c p (TimeSegment seg) \<longleftrightarrow> segment_matches seg (pk_minute p) c"

interpretation packet_kernel: timed_kernel "packet_holds S c p" "pk_minute p" c
proof unfold_locales
  show "\<exists>f. \<forall>g. packet_holds S c p (Nfproto g) \<longleftrightarrow> g = f" by auto
  show "\<exists>q. \<forall>ps. packet_holds S c p (L4proto ps) \<longleftrightarrow> q \<in> set ps" by auto
  show "\<exists>n. \<forall>ps. packet_holds S c p (Dport q ps) \<longleftrightarrow> packet_holds S c p (L4proto [q]) \<and> (\<exists>P\<in>set ps. port_in P n)"
    if "q \<in> {''tcp'', ''udp''}" for q
    using that by (intro exI [of _ "pk_dport p"]) (auto simp: list_ex_iff)
  show "packet_holds S c p (Dport q ps)"
    if "q \<in> {''tcp'', ''udp''}" "packet_holds S c p (Dport ''th'' ps)" "packet_holds S c p (L4proto [q])" for q ps
    using that by auto
  show "\<exists>x. \<forall>ns. packet_holds S c p (AddrIn f d ns) \<longleftrightarrow>
      packet_holds S c p (Nfproto f) \<and> (\<exists>n\<in>set ns. in_network f x n)" for f d
    by (intro exI [of _ "pk_addr p d"]) (auto simp: list_ex_iff)
  show "\<exists>t. \<forall>e. packet_holds S c p (MetaTimeLess e) \<longleftrightarrow> t < (of_int e :: rat)"
    by auto
  show "\<exists>d. \<forall>e ds. (packet_holds S c p (IifnameIs e) \<longleftrightarrow> e = d) \<and> (packet_holds S c p (IifnameIn ds) \<longleftrightarrow> d \<in> set ds)
      \<and> (packet_holds S c p (IifnameNotIn ds) \<longleftrightarrow> d \<notin> set ds)"
    by auto
qed simp_all

end
