(* ===== verification/Ruleset_Props.thy ===== *)
theory Ruleset_Props
  imports Ruleset Kernel
begin

text \<open>
  What the ruleset does with a packet: the chains of \<open>Ruleset.build_ruleset\<close> run by
  \<open>Nft.run_lines\<close> on the kernel contract of \<open>Kernel\<close>.
\<close>

subsection \<open>Running the chains\<close>

definition sub_chain :: "(nft_match \<Rightarrow> bool) \<Rightarrow> ruleset \<Rightarrow> string \<Rightarrow> run" where
  "sub_chain holds s c =
     (if c = IPV6_INPUT_CHAIN
      then (case rs_ipv6_input s of None \<Rightarrow> Undecided | Some ls \<Rightarrow> run_lines holds (\<lambda>_. Undecided) ls)
      else Undecided)"

definition input_decision :: "(nft_match \<Rightarrow> bool) \<Rightarrow> ruleset \<Rightarrow> decision" where
  "input_decision holds s = policy_drop (run_lines holds (sub_chain holds s) (rs_input s))"

definition forward_decision :: "(nft_match \<Rightarrow> bool) \<Rightarrow> ruleset \<Rightarrow> decision" where
  "forward_decision holds s = policy_drop (run_lines holds (sub_chain holds s) (rs_forward s))"

lemma policy_drop_simps [simp]:
  "policy_drop (Decided d) = d" "policy_drop Undecided = Dropped" "policy_drop Returned = Dropped"
  by (simp_all add: policy_drop_def)

lemma line_applies_nft [simp]:
  "line_applies holds (nft ms v c) \<longleftrightarrow> list_all holds ms"
  "line_applies holds (nft_log ms p c) \<longleftrightarrow> list_all holds ms"
  by (simp_all add: line_applies_def)

subsection \<open>The lines of a rule\<close>

definition time_matches :: "rule \<Rightarrow> schedule_clock option \<Rightarrow> nft_match list list" where
  "time_matches r clock =
     (case schedule r of None \<Rightarrow> [[]]
      | Some s \<Rightarrow> (case clock of None \<Rightarrow> []
          | Some c \<Rightarrow> map (\<lambda>seg. [TimeSegment seg]) (segments (sched_days s) (sched_start s) (sched_end s) c)))"

definition lines_of :: "schedule_clock option \<Rightarrow> rule \<Rightarrow> nft_line list" where
  "lines_of clock r = concat (map (\<lambda>(f, m). map (\<lambda>ts. rule_line r (ts @ rule_matches r f m)) (time_matches r clock))
     (rule_variants r))"

definition has_clock :: "schedule_clock option \<Rightarrow> rule \<Rightarrow> bool" where
  "has_clock clock r \<longleftrightarrow> schedule r = None \<or> clock \<noteq> None"

lemma concat_results_Inr: "(\<And>x. x \<in> set xs \<Longrightarrow> f x = Inr (g x)) \<Longrightarrow> concat_results (map f xs) = Inr (concat (map g xs))"
  by (induction xs) auto

lemma render_rule_lines_eq:
  "render_rule_lines r clock f m =
     (if has_clock clock r then Inr (map (\<lambda>ts. rule_line r (ts @ rule_matches r f m)) (time_matches r clock))
      else Inl (NoClock (rule_name r)))"
  by (auto simp: render_rule_lines_def has_clock_def time_matches_def Let_def split: option.split)

lemma render_rule_has_clock: "has_clock clock r \<Longrightarrow> render_rule clock r = Inr (lines_of clock r)"
  unfolding render_rule_def lines_of_def
  by (rule concat_results_Inr) (auto simp: render_rule_lines_eq)

lemma render_rules_has_clock:
  "(\<And>r. r \<in> set rs \<Longrightarrow> has_clock clock r) \<Longrightarrow> render_rules clock rs = Inr (concat (map (lines_of clock) rs))"
  unfolding render_rules_def by (rule concat_results_Inr) (auto simp: render_rule_has_clock)

lemma lines_of_verdict:
  "l \<in> set (lines_of clock r) \<Longrightarrow> line_verdict l = Some (action_verdict (action r))"
  by (auto simp: lines_of_def rule_line_def)

lemma lines_of_iff:
  "l \<in> set (lines_of clock r) \<longleftrightarrow>
     (\<exists>(f, m)\<in>set (rule_variants r). \<exists>ts\<in>set (time_matches r clock). l = rule_line r (ts @ rule_matches r f m))"
  by (auto simp: lines_of_def)

lemma action_verdict_cases:
  "action_verdict a = Accept \<longleftrightarrow> a = ACCEPT" "action_verdict a = Drop \<longleftrightarrow> a = DROP" "action_verdict a = Reject \<longleftrightarrow> a = REJECT"
  "action_verdict a \<noteq> Jump c" "action_verdict a \<noteq> Return" "action_verdict a \<noteq> RejectAdminProhibited"
  by (cases a; simp add: action_verdict_def)+

subsection \<open>The pieces of a ruleset\<close>

lemma effective_clock_covers: "r \<in> set (rules cfg) \<Longrightarrow> has_clock (effective_clock cur cfg clock) r"
  by (auto simp: has_clock_def effective_clock_def list_ex_iff)

lemma active_rules_subset: "r \<in> set (active_rules cfg now) \<Longrightarrow> r \<in> set (rules cfg)"
  by (simp add: active_rules_def)

abbreviation rule_lines :: "schedule_clock \<Rightarrow> config \<Rightarrow> schedule_clock option \<Rightarrow> rule list \<Rightarrow> nft_line list" where
  "rule_lines cur cfg clock rs \<equiv> concat (map (lines_of (effective_clock cur cfg clock)) rs)"

lemma render_active:
  assumes "set rs \<subseteq> set (active_rules cfg now)"
  shows "render_rules (effective_clock cur cfg clock) rs = Inr (rule_lines cur cfg clock rs)"
  using assms active_rules_subset effective_clock_covers by (intro render_rules_has_clock) blast

lemma group_subsets:
  "set (input_cut live) \<subseteq> set live" "set (input_rules live) \<subseteq> set live"
  "set (forward_cut live) \<subseteq> set live" "set (forward_rules live) \<subseteq> set live"
  by (auto simp: input_cut_def input_rules_def forward_cut_def forward_rules_def)

lemma build_ruleset_zones:
  "build_ruleset cur cfg clock now rt = Inl e \<longleftrightarrow> zone_devices cfg = Inl e"
  by (cases "zone_devices cfg")
     (simp_all add: build_ruleset_def Let_def render_active [OF group_subsets(1)] render_active [OF group_subsets(2)]
       render_active [OF group_subsets(3)] render_active [OF group_subsets(4)])

lemma build_ruleset_pieces:
  assumes "build_ruleset cur cfg clock now rt = Inr s"
  obtains zd where "zone_devices cfg = Inr zd"
    and "rs_input s = input_chain cfg zd (active_rules cfg now)
           (rule_lines cur cfg clock (input_cut (active_rules cfg now)))
           (rule_lines cur cfg clock (input_rules (active_rules cfg now)))"
    and "rs_forward s = forward_chain cfg (active_rules cfg now)
           (rule_lines cur cfg clock (forward_cut (active_rules cfg now)))
           (rule_lines cur cfg clock (forward_rules (active_rules cfg now)))"
    and "rs_ipv6_input s = (if ipv6_enabled (ipv6 cfg) then Some (render_ipv6_input_chain cfg) else None)"
    and "rs_jail_sets s = [render_bruteforce_jail_set (rt_bruteforce_jail rt),
           render_bruteforce_jail6_set (rt_bruteforce_jail6 rt), render_bruteforce_jail_mac_set (rt_bruteforce_jail_mac rt)]"
    and "rs_ids_sets s = [render_ids_quarantine_set (rt_ids_quarantine rt),
           render_ids_quarantine_mac_set (rt_ids_quarantine_mac rt)]"
    and "rs_iface_sets s = sorted_iface_sets zd"
    and "rs_nat s = nat_part cfg"
proof (cases "zone_devices cfg")
  case (Inl e)
  with assms show ?thesis using build_ruleset_zones [of cur cfg clock now rt e] by simp
next
  case (Inr zd)
  with assms that [of zd] show ?thesis
    by (auto simp: build_ruleset_def Let_def render_active [OF group_subsets(1)] render_active [OF group_subsets(2)]
       render_active [OF group_subsets(3)] render_active [OF group_subsets(4)])
qed

subsection \<open>The ruleset is always built\<close>

definition zones_declared :: "config \<Rightarrow> bool" where
  "zones_declared cfg \<longleftrightarrow> list_all (\<lambda>(_, i). if_zone i \<in> fst ` set (zones cfg)) (interfaces cfg) \<and>
     (wg_enabled (wireguard cfg) \<longrightarrow> wg_zone (wireguard cfg) \<in> fst ` set (zones cfg))"

definition devices_of :: "config \<Rightarrow> string \<Rightarrow> string list" where
  "devices_of cfg z = map (\<lambda>(_, i). if_device i) (filter (\<lambda>(_, i). if_zone i = z) (interfaces cfg))
     @ (if wg_enabled (wireguard cfg) \<and> wg_zone (wireguard cfg) = z then [WIREGUARD_IFACE] else [])"

lemma is_Inr: "(\<exists>y. x = Inr y) \<longleftrightarrow> (\<forall>e. x \<noteq> Inl e)"
  by (cases x) auto

lemma append_devices_Inr:
  "(\<exists>zd'. append_devices ps zd = Inr zd') \<longleftrightarrow> (\<forall>(z, d)\<in>set ps. map_of zd z \<noteq> None)"
proof (induction ps zd rule: append_devices.induct)
  case (2 z d ps zd)
  show ?case
  proof (cases "map_of zd z")
    case None
    then show ?thesis by (simp add: append_device_def)
  next
    case (Some ds)
    let ?zd = "AList.update z (ds @ [d]) zd"
    have "append_device z d zd = Inr ?zd" using Some by (simp add: append_device_def)
    moreover have "map_of ?zd y \<noteq> None \<longleftrightarrow> map_of zd y \<noteq> None" for y
      using Some by (simp add: dict_simps)
    ultimately show ?thesis using "2.IH" [of ?zd] Some by simp
  qed
qed simp

lemma append_devices_get:
  "append_devices ps zd = Inr zd' \<Longrightarrow>
     map_of zd' z = map_option (\<lambda>ds. ds @ map snd (filter (\<lambda>p. fst p = z) ps)) (map_of zd z)"
proof (induction ps arbitrary: zd)
  case (Cons p ps)
  obtain y d where p: "p = (y, d)" by (cases p)
  with Cons.prems obtain ds where ds: "map_of zd y = Some ds" and r: "append_devices ps (AList.update y (ds @ [d]) zd) = Inr zd'"
    by (cases "map_of zd y") (auto simp: append_device_def)
  from Cons.IH [OF r] ds p show ?case by (simp add: dict_simps)
qed (simp add: option.map_ident)

lemma map_of_empty_lists: "map_of (map (\<lambda>z. (z, [])) zs) z = (if z \<in> set zs then Some [] else None)"
  by (induction zs) auto

lemma map_of_empty_lists_None: "map_of (map (\<lambda>z. (z, [])) zs) z \<noteq> None \<longleftrightarrow> z \<in> set zs"
  by (simp add: map_of_empty_lists)

lemma zone_devices_get:
  assumes "zone_devices cfg = Inr zd"
  shows "map_of zd z = (if z \<in> fst ` set (zones cfg) then Some (devices_of cfg z) else None)"
proof -
  have "map snd (filter (\<lambda>p. fst p = z) (map (\<lambda>(_, i). (if_zone i, if_device i)) is)) =
      map (\<lambda>(_, i). if_device i) (filter (\<lambda>(_, i). if_zone i = z) is)" for "is" :: "(string \<times> interface) list"
    by (induction "is") auto
  with append_devices_get [OF assms [unfolded zone_devices_def], of z] show ?thesis
    by (simp add: map_of_empty_lists devices_of_def del: map_map)
qed

lemma build_ruleset_declared:
  "(\<exists>s. build_ruleset current_clock cfg clock now runtime = Inr s) \<longleftrightarrow> zones_declared cfg"
proof -
  have "(\<exists>s. build_ruleset current_clock cfg clock now runtime = Inr s) \<longleftrightarrow> (\<exists>zd. zone_devices cfg = Inr zd)"
    by (simp only: is_Inr build_ruleset_zones)
  also have "\<dots> \<longleftrightarrow> zones_declared cfg"
    unfolding zone_devices_def append_devices_Inr zones_declared_def map_of_empty_lists_None
    by (simp add: list_all_iff case_prod_beta' ball_Un del: map_map)
  finally show ?thesis .
qed

text \<open>
  \<open>build_ruleset\<close> gives a ruleset exactly for the configurations whose interfaces (and tunnel)
  name declared zones -- for every clock argument, time and set of runtime members.  The one other
  error of the code, a scheduled rule without a clock, cannot happen: the clock is read whenever a
  rule has a schedule.
\<close>

theorem build_ruleset_total:
  "(\<exists>s. build_ruleset current_clock cfg clock now runtime = Inr s) \<longleftrightarrow> zones_declared cfg"
  by (rule build_ruleset_declared)

subsection \<open>Banned and quarantined hosts\<close>

lemma jailed_input_dropped:
  assumes "build_ruleset current_clock cfg clock now runtime = Inr s"
    and "holds (AddrSet V4 Saddr BRUTEFORCE_JAIL_SET_NAME) \<or> holds (AddrSet V4 Saddr IDS_QUARANTINE_SET_NAME)
      \<or> (holds (Nfproto V6) \<and> holds (EtherSet IDS_QUARANTINE_MAC_SET_NAME))
      \<or> (holds (Dport ''tcp'' MANAGEMENT_PORTS) \<and>
          (holds (AddrSet V6 Saddr BRUTEFORCE_JAIL6_SET_NAME) \<or> holds (EtherSet BRUTEFORCE_JAIL_MAC_SET_NAME)))"
  shows "input_decision holds s = Dropped"
proof -
  have "run_lines holds sub (jail_lines @ ls) = Decided Dropped" for sub ls
    using assms(2) by (auto simp: jail_lines_def render_bruteforce_drop_rule_def render_ids_quarantine_drop_rule_def
      render_bruteforce_jail6_drop_rule_def render_bruteforce_jail_mac_drop_rule_def render_ids_quarantine_mac_forward_rule_def)
  with build_ruleset_pieces [OF assms(1)] show ?thesis
    by (metis input_chain_def input_head_def append.assoc input_decision_def policy_drop_simps(1))
qed

text \<open>
  C6: a packet to the router from a jailed or quarantined IPv4 address, from a quarantined MAC over
  IPv6, or to a management port from a jailed IPv6 address or MAC, is dropped -- whatever the
  configuration and its rules say.
\<close>

theorem banned_dropped:
  assumes "build_ruleset current_clock cfg clock now runtime = Inr s"
    and "holds (AddrSet V4 Saddr BRUTEFORCE_JAIL_SET_NAME) \<or> holds (AddrSet V4 Saddr IDS_QUARANTINE_SET_NAME)
      \<or> (holds (Nfproto V6) \<and> holds (EtherSet IDS_QUARANTINE_MAC_SET_NAME))
      \<or> (holds (Dport ''tcp'' MANAGEMENT_PORTS) \<and>
          (holds (AddrSet V6 Saddr BRUTEFORCE_JAIL6_SET_NAME) \<or> holds (EtherSet BRUTEFORCE_JAIL_MAC_SET_NAME)))"
  shows "input_decision holds s = Dropped"
  using assms by (rule jailed_input_dropped)

lemma guard_denies:
  "denies (render_ipv6_forward_guard cfg)" "denies (render_ula_border cfg)"
  by (auto simp: denies_def render_ipv6_forward_guard_def render_ula_border_def render_vpn_ipv6_refused_def
    render_lan_source_from_wan_def Let_def)

lemma denies_append: "denies (xs @ ys) \<longleftrightarrow> denies xs \<and> denies ys"
  by (simp add: denies_def ball_Un)

lemma not_accepted_behind:
  assumes "denies pre" and "line_applies holds l" and "line_verdict l = Some Drop"
  shows "policy_drop (run_lines holds sub (pre @ l # post)) \<noteq> Accepted"
proof -
  have "run_lines holds sub (pre @ l # post) \<in> {Decided Dropped, Decided Rejected}"
    by (rule refused_by [OF refl]) (use assms in \<open>auto simp: denies_def\<close>)
  then show ?thesis by auto
qed

lemma quarantine_forward_refused:
  assumes "build_ruleset current_clock cfg clock now runtime = Inr s"
    and "holds (AddrSet V4 Saddr IDS_QUARANTINE_SET_NAME)
      \<or> (holds (Nfproto V6) \<and> holds (EtherSet IDS_QUARANTINE_MAC_SET_NAME))"
  shows "forward_decision holds s \<noteq> Accepted"
proof -
  let ?pre = "render_ipv6_forward_guard cfg @ render_ula_border cfg"
  have pre: "denies ?pre" "denies (?pre @ [render_ids_quarantine_forward_rule])"
    by (simp_all add: denies_append guard_denies) (simp add: denies_def render_ids_quarantine_forward_rule_def)
  obtain rest where "rs_forward s = ?pre @ render_ids_quarantine_forward_rule # render_ids_quarantine_mac_forward_rule # rest"
    using build_ruleset_pieces [OF assms(1)] by (metis forward_chain_def forward_head_def append.assoc append_Cons append_Nil)
  with assms(2) not_accepted_behind [OF pre(1), of holds render_ids_quarantine_forward_rule]
    not_accepted_behind [OF pre(2), of holds render_ids_quarantine_mac_forward_rule]
  show ?thesis
    by (auto simp: forward_decision_def render_ids_quarantine_forward_rule_def render_ids_quarantine_mac_forward_rule_def)
qed

subsection \<open>What is forwarded, and why\<close>

lemma accepted_ahead:
  assumes "run_lines holds sub (as @ d # rest) = Decided Accepted" and "line_applies holds d" and "line_verdict d = Some Drop"
  shows "\<exists>l\<in>set as. line_applies holds l \<and>
    (line_verdict l = Some Accept \<or> (\<exists>c. line_verdict l = Some (Jump c) \<and> sub c = Decided Accepted))"
proof -
  have "run_lines holds sub as = Decided Accepted"
    using assms by (simp add: run_lines_append split: run.splits)
  then show ?thesis by (rule accepted_by)
qed

text \<open>The lines of a part that could let a packet through: all but refusals and log lines.\<close>

definition passing :: "nft_line list \<Rightarrow> nft_line set" where
  "passing ls = {l \<in> set ls. \<exists>v. line_verdict l = Some v \<and> v \<noteq> Drop \<and> v \<noteq> Reject \<and> v \<noteq> RejectAdminProhibited}"

lemma passing_append: "passing (xs @ ys) = passing xs \<union> passing ys"
  by (auto simp: passing_def)

lemma passing_denies: "denies ls \<Longrightarrow> passing ls = {}"
  by (auto simp: passing_def denies_def)

lemma accepting_passing:
  "l \<in> set ls \<Longrightarrow> line_verdict l = Some Accept \<Longrightarrow> l \<in> passing ls"
  "l \<in> set ls \<Longrightarrow> line_verdict l = Some (Jump c) \<Longrightarrow> l \<in> passing ls"
  by (auto simp: passing_def)

definition iot_internet_lines :: "config \<Rightarrow> nft_line set" where
  "iot_internet_lines cfg = (if iot_enabled (iot cfg) \<and> isolation_mode (iot cfg) = INTERNET_ONLY
     then (\<lambda>z. nft [EtherSet IOT_ISOLATED_SET_NAME, OifnameSet (iface_set_name z)] Accept ''iot-isolated-internet'') `
       set (masquerade_zones cfg) else {})"

abbreviation established :: nft_match where
  "established \<equiv> CtState [''established'', ''related'']"

lemma denies_simple:
  "denies (render_ipv6_no_inbound cfg)" "denies (block_dot_lines cfg)" "denies (render_drop_log cfg c)"
  by (auto simp: denies_def render_ipv6_no_inbound_def block_dot_lines_def render_drop_log_def Let_def)

lemma passing_parts:
  "passing ct_lines = {nft [established] Accept []}"
  "passing (with_blank rs ls) \<subseteq> passing ls"
  "passing (render_ipv6_pinholes cfg) =
     render_pinhole cfg ` {p \<in> set (pinholes (ipv6 cfg)). pin_zone p \<in> fst ` set (lan_devices cfg)}"
  by (auto simp: passing_def ct_lines_def with_blank_def render_ipv6_pinholes_def render_pinhole_def Let_def nft_def)

lemma passing_forward_head: "passing (forward_head cfg) = iot_internet_lines cfg"
proof -
  have "passing [render_ids_quarantine_forward_rule, render_ids_quarantine_mac_forward_rule] = {}"
    by (auto simp: passing_def render_ids_quarantine_forward_rule_def render_ids_quarantine_mac_forward_rule_def)
  moreover have "passing (case render_sni_filter_quic_reject cfg of None \<Rightarrow> [] | Some l \<Rightarrow> [l]) = {}"
    by (auto simp: passing_def render_sni_filter_quic_reject_def Let_def)
  moreover have "passing (if iot_enabled (iot cfg) then render_iot_forward_rules cfg else []) = iot_internet_lines cfg"
    by (auto simp: passing_def render_iot_forward_rules_def iot_internet_lines_def)
  ultimately show ?thesis
    by (simp only: forward_head_def passing_append passing_denies [OF guard_denies(1)] passing_denies [OF guard_denies(2)])
       simp
qed

lemma passing_rule_lines:
  assumes "l \<in> passing (concat (map (lines_of clock) rs))"
  shows "\<exists>r\<in>set rs. action r = ACCEPT \<and> l \<in> set (lines_of clock r)"
proof -
  from assms obtain r where r: "r \<in> set rs" "l \<in> set (lines_of clock r)" by (auto simp: passing_def)
  then have "action r = ACCEPT"
    using assms lines_of_verdict [OF r(2)] by (cases "action r") (auto simp: passing_def action_verdict_def)
  with r show ?thesis by blast
qed

definition accepts_forward :: "(nft_match \<Rightarrow> bool) \<Rightarrow> config \<Rightarrow> seconds \<Rightarrow> schedule_clock option \<Rightarrow> rule \<Rightarrow> bool" where
  "accepts_forward holds cfg now clock r \<longleftrightarrow> action r = ACCEPT \<and> \<not> in_input r \<and> live_at now r \<and>
     list_ex (line_applies holds) (lines_of clock r)"

lemma passing_forward:
  assumes "build_ruleset cur cfg clock now rt = Inr s" and "l \<in> passing (rs_forward s)" and "line_applies holds l"
  shows "l \<in> iot_internet_lines cfg \<or> l = nft [established] Accept []
    \<or> l \<in> passing (render_ipv6_pinholes cfg)
    \<or> (\<exists>r\<in>set (rules cfg). accepts_forward holds cfg now (effective_clock cur cfg clock) r)"
proof -
  let ?live = "active_rules cfg now"
  obtain zd where "rs_forward s = forward_chain cfg ?live (rule_lines cur cfg clock (forward_cut ?live))
      (rule_lines cur cfg clock (forward_rules ?live))"
    by (rule build_ruleset_pieces [OF assms(1)])
  with assms(2) have "l \<in> iot_internet_lines cfg \<union> passing (rule_lines cur cfg clock (forward_cut ?live))
      \<union> {nft [established] Accept []} \<union> passing (render_ipv6_pinholes cfg)
      \<union> passing (rule_lines cur cfg clock (forward_rules ?live))"
    using passing_parts(2) [of "forward_rules ?live"]
    by (auto simp: forward_chain_def passing_append passing_forward_head passing_parts(1) passing_denies denies_simple)
  moreover have "\<exists>r\<in>set (rules cfg). accepts_forward holds cfg now (effective_clock cur cfg clock) r"
    if "l \<in> passing (rule_lines cur cfg clock rs)" "rs = forward_cut ?live \<or> rs = forward_rules ?live" for rs
    using passing_rule_lines [OF that(1)] that(2) assms(3)
    by (auto simp: accepts_forward_def list_ex_iff forward_cut_def forward_rules_def active_rules_def)
  ultimately show ?thesis by blast
qed

text \<open>
  C8: nothing is forwarded without a reason the configuration names: an isolated device going out
  to a masqueraded zone, a connection already established, a pinhole in a zone that has IPv6, or a
  rule that accepts, is not expired and has a line that applies.
\<close>

theorem forwarded_only_if:
  assumes "build_ruleset current_clock cfg clock now runtime = Inr s" and "forward_decision holds s = Accepted"
  shows "(\<exists>l\<in>iot_internet_lines cfg. line_applies holds l) \<or> holds established
    \<or> (\<exists>p\<in>set (pinholes (ipv6 cfg)). pin_zone p \<in> fst ` set (lan_devices cfg) \<and> line_applies holds (render_pinhole cfg p))
    \<or> (\<exists>r\<in>set (rules cfg). accepts_forward holds cfg now (effective_clock current_clock cfg clock) r)"
proof -
  have "run_lines holds (sub_chain holds s) (rs_forward s) = Decided Accepted"
    using assms(2) by (auto simp: forward_decision_def policy_drop_def split: run.splits)
  from accepted_by [OF this] obtain l where l: "l \<in> passing (rs_forward s)" "line_applies holds l"
    using accepting_passing by blast
  from passing_forward [OF assms(1) l] l(2) show ?thesis
    by (auto simp: passing_parts(3))
qed

lemma decided_accepted:
  "policy_drop (run_lines holds sub ls) = Accepted \<longleftrightarrow> run_lines holds sub ls = Decided Accepted"
  by (auto simp: policy_drop_def split: run.splits)

text \<open>
  An isolated device gets through the router only to a masqueraded (internet) zone and only
  while the isolation mode is \<open>internet_only\<close>; no rule of the configuration and no open connection
  widens that.
\<close>

theorem isolated_only_internet:
  assumes "build_ruleset current_clock cfg clock now runtime = Inr s" and "iot_enabled (iot cfg)"
    and "holds (EtherSet IOT_ISOLATED_SET_NAME)" and "forward_decision holds s = Accepted"
  shows "isolation_mode (iot cfg) = INTERNET_ONLY \<and>
    (\<exists>z\<in>set (masquerade_zones cfg). holds (OifnameSet (iface_set_name z)))"
proof -
  let ?drop = "nft [EtherSet IOT_ISOLATED_SET_NAME] Drop ''iot-isolated-forward''"
  obtain as rest where fwd: "rs_forward s = as @ ?drop # rest" and head: "forward_head cfg = as @ [?drop]"
    using build_ruleset_pieces [OF assms(1)] assms(2)
    by (fastforce simp: forward_chain_def forward_head_def render_iot_forward_rules_def)
  have "\<exists>l\<in>set as. line_applies holds l \<and> (line_verdict l = Some Accept \<or>
      (\<exists>c. line_verdict l = Some (Jump c) \<and> sub_chain holds s c = Decided Accepted))"
    by (rule accepted_ahead [of _ _ _ ?drop rest])
       (use assms(3,4) in \<open>auto simp: fwd [symmetric] forward_decision_def decided_accepted\<close>)
  then obtain l where "l \<in> passing (forward_head cfg)" "line_applies holds l"
    using accepting_passing unfolding head passing_append by blast
  then show ?thesis
    by (auto simp: passing_forward_head iot_internet_lines_def split: if_splits)
qed

text \<open>A rule of the configuration that cuts open connections never accepts (the loader refuses it).\<close>

definition cuts_refuse :: "config \<Rightarrow> bool" where
  "cuts_refuse cfg \<longleftrightarrow> list_all (\<lambda>r. cuts r \<longrightarrow> action r \<noteq> ACCEPT) (rules cfg)"

lemma passing_cut_lines:
  assumes "cuts_refuse cfg"
  shows "passing (rule_lines cur cfg clock (forward_cut (active_rules cfg now))) = {}"
    and "passing (rule_lines cur cfg clock (input_cut (active_rules cfg now))) = {}"
  using assms
  by (auto simp: cuts_refuse_def list_all_iff forward_cut_def input_cut_def active_rules_def dest!: passing_rule_lines)

lemma guard_no_lan:
  assumes "ipv6_lan_devices cfg = []" and "holds (Nfproto V6)"
  shows "run_lines holds sub (render_ipv6_forward_guard cfg @ ls) \<noteq> Decided Accepted"
  using assms by (simp add: render_ipv6_forward_guard_def render_vpn_ipv6_refused_def)

lemma no_inbound_split:
  assumes "ipv6_lan_devices cfg \<noteq> []"
  obtains as where "denies as"
    and "render_ipv6_no_inbound cfg = as @ [nft [Nfproto V6, IifnameIn (wan_devices cfg)] Drop ''ipv6-no-inbound'']"
proof -
  have "denies (butlast (render_ipv6_no_inbound cfg))"
    using denies_simple(1) [of cfg] by (meson denies_def in_set_butlastD)
  with that [of "butlast (render_ipv6_no_inbound cfg)"] assms show ?thesis
    by (simp add: render_ipv6_no_inbound_def Let_def)
qed

text \<open>
  C10: an IPv6 packet from the internet is forwarded only on an established connection or through a
  pinhole of a zone that has IPv6 (or from a device that is itself isolated to the internet); no
  rule of the configuration, even one that accepts everything, lets it in.
\<close>

theorem ipv6_inbound_only_pinholes:
  assumes "build_ruleset current_clock cfg clock now runtime = Inr s" and "cuts_refuse cfg"
    and "holds (Nfproto V6)" and "holds (IifnameIn (wan_devices cfg))"
    and "\<not> holds (EtherSet IOT_ISOLATED_SET_NAME)" and "forward_decision holds s = Accepted"
  shows "holds established \<or>
    (\<exists>p\<in>set (pinholes (ipv6 cfg)). pin_zone p \<in> fst ` set (lan_devices cfg) \<and> line_applies holds (render_pinhole cfg p))"
proof -
  let ?live = "active_rules cfg now"
  let ?drop = "nft [Nfproto V6, IifnameIn (wan_devices cfg)] Drop ''ipv6-no-inbound''"
  let ?cut = "rule_lines current_clock cfg clock (forward_cut ?live)"
  have fwd: "rs_forward s = forward_chain cfg ?live ?cut (rule_lines current_clock cfg clock (forward_rules ?live))"
    using build_ruleset_pieces [OF assms(1)] by metis
  have acc: "run_lines holds (sub_chain holds s) (rs_forward s) = Decided Accepted"
    using assms(6) by (simp add: forward_decision_def decided_accepted)
  then have "ipv6_lan_devices cfg \<noteq> []"
    using guard_no_lan [of cfg holds] assms(3) by (auto simp: fwd forward_chain_def forward_head_def)
  then obtain as where as: "denies as" and inbound: "render_ipv6_no_inbound cfg = as @ [?drop]"
    by (rule no_inbound_split)
  obtain rest where split: "rs_forward s = (forward_head cfg @ ?cut @ ct_lines @ render_ipv6_pinholes cfg @ as) @ ?drop # rest"
    by (simp add: fwd forward_chain_def inbound)
  from accepted_ahead [OF acc [unfolded split]] assms(3,4)
  obtain l where l: "l \<in> passing (forward_head cfg @ ?cut @ ct_lines @ render_ipv6_pinholes cfg @ as)" "line_applies holds l"
    using accepting_passing by (fastforce simp del: set_append)
  then have "l \<in> iot_internet_lines cfg \<or> l = nft [established] Accept [] \<or> l \<in> passing (render_ipv6_pinholes cfg)"
    by (auto simp: passing_append passing_forward_head passing_cut_lines [OF assms(2)] passing_parts(1) passing_denies [OF as])
  with l(2) assms(5) show ?thesis
    by (auto simp: passing_parts(3) iot_internet_lines_def split: if_splits)
qed

subsection \<open>The management plane\<close>

definition blocks_tcp :: "(nft_match \<Rightarrow> bool) \<Rightarrow> bool" where
  "blocks_tcp holds \<longleftrightarrow> \<not> holds (Dport ''tcp'' [Port 53]) \<and> \<not> holds (Dport ''th'' [Port 53]) \<and> (\<forall>ps. \<not> holds (Dport ''udp'' ps))
     \<and> (\<forall>ts. \<not> holds (Icmpv6Type ts)) \<and> \<not> holds (IifnameIs ''lo'') \<and> \<not> holds established"

lemma passing_not_tcp:
  assumes "blocks_tcp holds"
  shows "l \<in> passing (input_head cfg) \<Longrightarrow> \<not> line_applies holds l"
    and "l \<in> passing ct_lines \<Longrightarrow> \<not> line_applies holds l"
    and "l \<in> passing (dns_accept_lines cfg) \<Longrightarrow> \<not> line_applies holds l"
    and "l \<in> passing (render_ipv6_input_chain cfg) \<Longrightarrow> line_verdict l = Some Accept \<Longrightarrow> \<not> line_applies holds l"
  using assms
  by (auto simp: blocks_tcp_def passing_def input_head_def jail_lines_def render_bruteforce_drop_rule_def
    render_ids_quarantine_drop_rule_def render_bruteforce_jail6_drop_rule_def render_bruteforce_jail_mac_drop_rule_def
    render_ids_quarantine_mac_forward_rule_def render_iot_input_rules_def render_ipv6_wan_input_def render_ipv6_lan_input_def
    ct_lines_def dns_accept_lines_def render_ipv6_input_chain_def render_vpn_ipv6_refused_def render_ipv6_input_drop_def
    Let_def split: if_splits)

lemma ipv6_input_not_accepted:
  assumes "blocks_tcp holds" and "rs_ipv6_input s = (if ipv6_enabled (ipv6 cfg) then Some (render_ipv6_input_chain cfg) else None)"
  shows "sub_chain holds s c \<noteq> Decided Accepted"
proof
  assume "sub_chain holds s c = Decided Accepted"
  then have "run_lines holds (\<lambda>_. Undecided) (render_ipv6_input_chain cfg) = Decided Accepted"
    using assms(2) by (auto simp: sub_chain_def split: if_splits)
  from accepted_by [OF this] passing_not_tcp(4) [OF assms(1)] accepting_passing(1) show False by fastforce
qed

lemma management_drop_split:
  assumes "z \<in> set (blocked_zones cfg)" and "zone_devices cfg = Inr zd" and "devices_of cfg z \<noteq> []"
  obtains as bs where "management_drop_lines cfg zd = as @ management_drop z # bs" and "denies as"
proof -
  have "z \<in> fst ` set (zones cfg)" using assms(1) by (auto simp: blocked_zones_def)
  then have "management_drop z \<in> set (management_drop_lines cfg zd)"
    using assms zone_devices_get [OF assms(2), of z] by (auto simp: management_drop_lines_def dict_get_or_def)
  then obtain as bs where split: "management_drop_lines cfg zd = as @ management_drop z # bs"
    by (meson split_list)
  moreover have "denies (management_drop_lines cfg zd)"
    by (auto simp: denies_def management_drop_lines_def management_drop_def)
  ultimately show ?thesis using that by (simp add: denies_append)
qed

lemma management_refused:
  assumes "build_ruleset current_clock cfg clock now runtime = Inr s" and "cuts_refuse cfg" and "nft_kernel holds"
    and "z \<in> set (blocked_zones cfg)" and "devices_of cfg z \<noteq> []"
    and "holds (IifnameSet (iface_set_name z))" and "holds (Dport ''tcp'' MANAGEMENT_PORTS)"
    and "\<not> holds (IifnameIs ''lo'')" and "\<not> holds established"
  shows "input_decision holds s \<noteq> Accepted"
proof
  assume accepted: "input_decision holds s = Accepted"
  let ?cut = "rule_lines current_clock cfg clock (input_cut (active_rules cfg now))"
  have bt: "blocks_tcp holds"
    using nft_kernel.tcp_ports_apart [OF assms(3) assms(7) [unfolded MANAGEMENT_PORTS_def], where c = 53] assms(8,9)
    by (simp add: blocks_tcp_def)
  obtain zd where zd: "zone_devices cfg = Inr zd"
    and inp: "rs_input s = input_chain cfg zd (active_rules cfg now) ?cut (rule_lines current_clock cfg clock (input_rules (active_rules cfg now)))"
    and sub: "rs_ipv6_input s = (if ipv6_enabled (ipv6 cfg) then Some (render_ipv6_input_chain cfg) else None)"
    by (rule build_ruleset_pieces [OF assms(1)])
  obtain as bs where drops: "management_drop_lines cfg zd = as @ management_drop z # bs" and as: "denies as"
    by (rule management_drop_split [OF assms(4) zd assms(5)])
  obtain rest where split: "rs_input s =
      (input_head cfg @ ?cut @ ct_lines @ render_ipv6_input_jump cfg @ dns_accept_lines cfg @ as) @ management_drop z # rest"
    by (simp add: inp input_chain_def drops)
  have "run_lines holds (sub_chain holds s) (rs_input s) = Decided Accepted"
    using accepted by (simp add: input_decision_def decided_accepted)
  from accepted_ahead [OF this [unfolded split]] assms(6,7) ipv6_input_not_accepted [OF bt sub]
  obtain l where l: "l \<in> passing (input_head cfg @ ?cut @ ct_lines @ render_ipv6_input_jump cfg @ dns_accept_lines cfg @ as)"
    "line_applies holds l" "line_verdict l = Some Accept"
    using accepting_passing by (fastforce simp: management_drop_def simp del: set_append)
  moreover have "l \<notin> passing (render_ipv6_input_jump cfg)"
    using l(3) by (auto simp: passing_def render_ipv6_input_jump_def render_vpn_ipv6_refused_def)
  ultimately show False
    using passing_not_tcp [OF bt] by (auto simp: passing_append passing_cut_lines(2) [OF assms(2)] passing_denies [OF as])
qed

text \<open>
  C11: a new connection to the web interface or SSH from a zone that is not a management zone is
  refused, over IPv4 and IPv6: no rule of the configuration (\<open>allow 443 from wan\<close> included) opens
  the management plane.
\<close>

theorem management_blocked:
  assumes "build_ruleset current_clock cfg clock now runtime = Inr s" and "cuts_refuse cfg" and "nft_kernel holds"
    and "z \<in> set (blocked_zones cfg)" and "devices_of cfg z \<noteq> []"
    and "holds (IifnameSet (iface_set_name z))" and "holds (Dport ''tcp'' MANAGEMENT_PORTS)"
    and "\<not> holds (IifnameIs ''lo'')" and "\<not> holds established"
  shows "input_decision holds s \<noteq> Accepted"
  by (rule management_refused [OF assms])

subsection \<open>Examples\<close>

definition clock0 :: schedule_clock where
  "clock0 = \<lparr>utc_offset_minutes = 0, kernel_minuteswest = 0\<rparr>"

definition runtime0 :: runtime_sets where
  "runtime0 = \<lparr>rt_bruteforce_jail = [], rt_ids_quarantine = [], rt_ztna = [], rt_iot_isolated = [],
     rt_ids_quarantine_mac = [], rt_bruteforce_jail6 = [], rt_bruteforce_jail_mac = []\<rparr>"

definition sets0 :: named_sets where
  "sets0 = \<lparr>iface_sets = (\<lambda>s. if s = ''wan_ifaces'' then [''eth0''] else if s = ''lan_ifaces'' then [''eth1''] else []),
     addr_sets = (\<lambda>s. if s = BRUTEFORCE_JAIL_SET_NAME then [\<lparr>net_family = V4, net_address = 7, net_prefixlen = 32\<rparr>]
        else if s = IDS_QUARANTINE_SET_NAME then [\<lparr>net_family = V4, net_address = 8, net_prefixlen = 32\<rparr>] else []),
     mac_sets = (\<lambda>s. if s = IOT_ISOLATED_SET_NAME then [''02:00:00:00:00:01''] else []),
     addr_mac_sets = (\<lambda>_. [])\<rparr>"

definition packet0 :: packet where
  "packet0 = \<lparr>pk_in = ''eth1'', pk_out = ''eth0'', pk_family = V4, pk_src = 9, pk_dst = 10, pk_mac = ''02:00:00:00:00:02'',
     pk_l4 = ''tcp'', pk_sport = 40000, pk_dport = 443, pk_icmp6 = [], pk_hoplimit = 64, pk_ct = ''new'',
     pk_for_host = True, pk_dst_local = False, pk_route_back = True, pk_src_oif = [], pk_within_limit = True,
     pk_time = 0, pk_minute = 0\<rparr>"

definition pinhole1 :: ipv6_pinhole where
  "pinhole1 = \<lparr>pin_name = ''web'', pin_zone = ''lan'', pin_host = 1, pin_proto = TCP, port_from = 443, port_to = 443,
     pin_source = None\<rparr>"

definition config1 :: config where
  "config1 = config0\<lparr>rules := [rule0\<lparr>rule_name := ''out'', from_zone := Some ''lan'', to_zone := Some ''wan''\<rparr>],
     ipv6 := \<lparr>ipv6_enabled = True, lan_zones = Some [''lan''], ula_prefix = None,
       pinholes = [pinhole1]\<rparr>,
     iot := \<lparr>iot_enabled = True, iot_zones = [''lan''], auto_isolate = True, isolation_mode = INTERNET_ONLY,
       trusted_macs = [], isolated_macs = []\<rparr>\<rparr>"

definition ruleset1 :: ruleset where
  "ruleset1 = projr (build_ruleset clock0 config1 None 0 runtime0)"

lemmas sample_simps = rule0_def sets0_def packet0_def clock0_def IOT_ISOLATED_SET_NAME_def
  BRUTEFORCE_JAIL_SET_NAME_def IDS_QUARANTINE_SET_NAME_def IDS_QUARANTINE_MAC_SET_NAME_def WIREGUARD_IFACE_def iface_set_name_def

lemma config1_sel [simp]:
  "rules config1 = [rule0\<lparr>rule_name := ''out'', from_zone := Some ''lan'', to_zone := Some ''wan''\<rparr>]"
  "zones config1 = [(''wan'', zone0 ''wan''), (''lan'', zone0 ''lan'')]"
  "interfaces config1 = [(''eth0'', interface0 ''eth0'' ''wan''), (''eth1'', interface0 ''eth1'' ''lan'')]"
  "if_zone (interface0 d z) = z" "if_device (interface0 d z) = d"
  "nat_masquerade (nat_cfg config1) = [\<lparr>out_zone = ''wan''\<rparr>]"
  "mgmt_zones (management config1) = []" "\<not> allow_wan (management config1)" "\<not> wg_enabled (wireguard config1)"
  "ipv6_enabled (ipv6 config1)" "lan_zones (ipv6 config1) = Some [''lan'']"
  "\<not> xdp_enabled (xdp_sni_filter config1)" "\<not> log_drops (logging config1)" "\<not> adblock_enabled (adblocker config1)"
  "pinholes (ipv6 config1) = [pinhole1]" "pin_zone pinhole1 = ''lan''" "pin_source pinhole1 = None" "pin_proto pinhole1 = TCP"
  "pin_port pinhole1 = Port 443" "is_suffix pinhole1" "pin_host pinhole1 = 1"
  "iot_enabled (iot config1)" "isolation_mode (iot config1) = INTERNET_ONLY"
  by (simp_all add: config1_def config0_simps pinhole1_def pin_port_def is_suffix_def)

lemma built1: "build_ruleset clock0 config1 None 0 runtime0 = Inr ruleset1"
proof -
  have "zones_declared config1" by (simp add: zones_declared_def sample_simps)
  then obtain s where "build_ruleset clock0 config1 None 0 runtime0 = Inr s"
    using build_ruleset_declared by blast
  then show ?thesis by (simp add: ruleset1_def)
qed

lemma zones1: "set (internet_zones config1) = {''wan''}" "wan_devices config1 = [''eth0'']" "lan_devices config1 = [(''lan'', ''eth1'')]"
  "masquerade_zones config1 = [''wan'']" "blocked_zones config1 = [''wan'']"
proof -
  show i: "set (internet_zones config1) = {''wan''}" by (simp add: internet_zones_def internet_facing_zones_def)
  show "wan_devices config1 = [''eth0'']" by (simp add: wan_devices_def i)
  show "lan_devices config1 = [(''lan'', ''eth1'')]" by (simp add: lan_devices_def ipv6_lan_zones_def)
  show "masquerade_zones config1 = [''wan'']" by (simp add: masquerade_zones_def)
  show "blocked_zones config1 = [''wan'']" by (simp add: blocked_zones_def management_zones_def i)
qed

lemma cuts1: "cuts_refuse config1"
  by (simp add: cuts_refuse_def cuts_def sample_simps)

theorem banned_dropped_witness:
  "input_decision (packet_holds sets0 clock0 (packet0\<lparr>pk_src := 7\<rparr>)) ruleset1 = Dropped"
  by (rule banned_dropped [OF built1]) (simp add: sample_simps in_network_def net_broadcast_def pk_addr_def)

theorem management_blocked_witness:
  "input_decision (packet_holds sets0 clock0 (packet0\<lparr>pk_in := ''eth0''\<rparr>)) ruleset1 \<noteq> Accepted"
  by (rule management_blocked [OF built1 cuts1 packet_kernel.nft_kernel_axioms, of "''wan''"])
     (simp_all add: zones1 sample_simps devices_of_def MANAGEMENT_PORTS_def port_in_def)

lemma chain_parts1:
  "render_ipv6_forward_guard config1 =
     [nft [Nfproto V6, IifnameNotIn [''eth0'', ''eth1'']] Drop ''ipv6-not-routed-here'',
      nft [Nfproto V6, OifnameNotIn [''eth0'', ''eth1'']] Drop ''ipv6-not-routed-here'',
      nft [Nfproto V6, IifnameIn [''eth1''], FibSaddrIifMissing] Drop ''ipv6-lan-spoofed'',
      nft [Nfproto V6, IifnameIn [''eth0''], FibSaddrOif [''eth1'']] Drop ''ipv6-lan-source-from-wan'']"
  "render_sni_filter_quic_reject config1 = None"
  "render_ipv6_pinholes config1 = [render_pinhole config1 pinhole1]"
  "block_dot_lines config1 = []" "render_drop_log config1 c = []"
  "forward_cut (rules config1) = []" "forward_rules (rules config1) = rules config1"
  "active_rules config1 0 = rules config1"
  by (simp_all add: render_ipv6_forward_guard_def ipv6_lan_devices_def zones1 render_lan_source_from_wan_def
    render_sni_filter_quic_reject_def sni_filtered_devices_def render_ipv6_pinholes_def block_dot_lines_def forcing_dns_def
    render_drop_log_def forward_cut_def forward_rules_def in_input_def cuts_def active_rules_def live_at_def
    rule0_def SELF_ZONE_def Let_def)

lemma lines1:
  "lines_of c (rules config1 ! 0) = [rule_line (rules config1 ! 0) [IifnameSet ''lan_ifaces'', OifnameSet ''wan_ifaces'']]"
  by (simp add: lines_of_def rule_variants_def addressed_def address_list_def time_matches_def rule_matches_def
    rule0_def SELF_ZONE_def iface_set_name_def)

lemma forward1:
  "rs_forward ruleset1 = forward_chain config1 (rules config1) []
     [rule_line (rules config1 ! 0) [IifnameSet ''lan_ifaces'', OifnameSet ''wan_ifaces'']]"
proof -
  have "concat (map (lines_of c) (rules config1)) = lines_of c (rules config1 ! 0)" for c by simp
  then have "rule_lines cur config1 clock (rules config1) =
      [rule_line (rules config1 ! 0) [IifnameSet ''lan_ifaces'', OifnameSet ''wan_ifaces'']]" for cur clock
    by (simp only: lines1)
  with build_ruleset_pieces [OF built1, unfolded chain_parts1] show ?thesis
    by (metis concat.simps(1) list.map(1))
qed

lemmas forward1_simps = forward1 forward_decision_def forward_chain_def forward_head_def chain_parts1
  render_ula_border_def render_iot_forward_rules_def ipv6_lan_devices_def render_pinhole_def render_ipv6_no_inbound_def
  zones1 ct_lines_def with_blank_def line_applies_def Let_def forward_rules_def in_input_def cuts_def SELF_ZONE_def
  render_ids_quarantine_forward_rule_def render_ids_quarantine_mac_forward_rule_def rule_line_def action_verdict_def

theorem forwarded_only_if_witness:
  "\<exists>r\<in>set (rules config1). accepts_forward (packet_holds sets0 clock0 packet0) config1 0 (effective_clock clock0 config1 None) r"
proof -
  have "forward_decision (packet_holds sets0 clock0 packet0) ruleset1 = Accepted"
    by (simp add: forward1_simps sample_simps in_network_def net_broadcast_def pk_addr_def)
  from forwarded_only_if [OF built1 this] show ?thesis
    by (simp add: iot_internet_lines_def sample_simps zones1 render_pinhole_def line_applies_def)
qed

theorem isolated_only_internet_witness:
  "\<exists>z\<in>set (masquerade_zones config1).
     packet_holds sets0 clock0 (packet0\<lparr>pk_mac := ''02:00:00:00:00:01''\<rparr>) (OifnameSet (iface_set_name z))"
proof -
  let ?p = "packet0\<lparr>pk_mac := ''02:00:00:00:00:01''\<rparr>"
  have "forward_decision (packet_holds sets0 clock0 ?p) ruleset1 = Accepted"
    by (simp add: forward1_simps sample_simps in_network_def net_broadcast_def pk_addr_def)
  moreover have "packet_holds sets0 clock0 ?p (EtherSet IOT_ISOLATED_SET_NAME)"
    by (simp add: sample_simps)
  ultimately show ?thesis
    using isolated_only_internet [OF built1, of "packet_holds sets0 clock0 ?p"] by simp
qed

theorem ipv6_inbound_only_pinholes_witness:
  "line_applies (packet_holds sets0 clock0 (packet0\<lparr>pk_family := V6, pk_in := ''eth0'', pk_out := ''eth1'', pk_dst := 1\<rparr>))
     (render_pinhole config1 pinhole1)"
proof -
  let ?p = "packet0\<lparr>pk_family := V6, pk_in := ''eth0'', pk_out := ''eth1'', pk_dst := 1\<rparr>"
  let ?h = "packet_holds sets0 clock0 ?p"
  have "forward_decision ?h ruleset1 = Accepted"
    by (simp add: forward1_simps sample_simps in_network_def net_broadcast_def pk_addr_def ULA_def net6_def IID_MASK_def
      port_in_def)
  then show ?thesis
    using ipv6_inbound_only_pinholes [OF built1 cuts1, of ?h] by (simp add: sample_simps zones1)
qed

subsection \<open>The IPv6 jail across a reload\<close>

definition net6_ok :: "ip_network \<Rightarrow> bool" where
  "net6_ok n \<longleftrightarrow> net_family n = V6 \<and> net_prefixlen n \<le> 128"

definition net_span :: "ip_network \<Rightarrow> int" where
  "net_span n = net_broadcast n - net_address n"

lemma subnet_of_span:
  assumes "net6_ok a" and "net6_ok b" and "subnet_of a b" and "a \<noteq> b"
  shows "net_span a < net_span b"
proof (rule ccontr)
  assume "\<not> net_span a < net_span b"
  then have eq: "net_address a = net_address b" "net_broadcast a = net_broadcast b"
    using assms(3) by (auto simp: net_span_def subnet_of_def)
  then have "(2::int) ^ (128 - net_prefixlen a) = 2 ^ (128 - net_prefixlen b)"
    using assms(1,2) by (simp add: net_broadcast_def net6_ok_def)
  then have "128 - net_prefixlen a = 128 - net_prefixlen b" by simp
  then have "net_prefixlen a = net_prefixlen b" using assms(1,2) unfolding net6_ok_def by linarith
  with eq(1) assms show False by (simp add: net6_ok_def)
qed

text \<open>
  Reloading the ruleset releases no IPv6 source that is still jailed: every live member lies in
  a member the new set declares; and no declared member lies in another, which nft would refuse
  (with the whole ruleset) as conflicting intervals.
\<close>

theorem jail6_carried_over:
  assumes "list_all (\<lambda>(n, _). net6_ok n) members"
  shows "(\<forall>(n, left)\<in>set members. left > 0 \<longrightarrow> (\<exists>(k, l)\<in>set (jail6_kept (jail6_live members)). subnet_of n k \<and> l > 0)) \<and>
    (\<forall>(a, l)\<in>set (jail6_kept (jail6_live members)). \<forall>(b, m)\<in>set (jail6_kept (jail6_live members)). a \<noteq> b \<longrightarrow> \<not> subnet_of a b)"
proof
  let ?live = "jail6_live members"
  have ok: "net6_ok n" if "(n, l) \<in> set ?live" for n l using assms that by (auto simp: jail6_live_def list_all_iff)
  show "\<forall>(a, l)\<in>set (jail6_kept ?live). \<forall>(b, m)\<in>set (jail6_kept ?live). a \<noteq> b \<longrightarrow> \<not> subnet_of a b"
    by (auto simp: jail6_kept_def list_ex_iff)
  have "\<exists>(k, l)\<in>set (jail6_kept ?live). subnet_of n k \<and> l > 0" if n: "(n, left) \<in> set members" "left > 0" for n left
  proof -
    let ?S = "{(k, l) \<in> set ?live. subnet_of n k}"
    have "(n, left) \<in> ?S" using n by (simp add: jail6_live_def)
    moreover have fin: "finite ?S" by (rule finite_subset [of _ "set ?live"]) auto
    ultimately have "Max ((\<lambda>(k, _). net_span k) ` ?S) \<in> (\<lambda>(k, _). net_span k) ` ?S" by (intro Max_in) auto
    then obtain k l where k: "(k, l) \<in> set ?live" "subnet_of n k" "Max ((\<lambda>(k, _). net_span k) ` ?S) = net_span k" by auto
    have "\<not> (o' \<noteq> k \<and> subnet_of k o')" if o: "(o', m) \<in> set ?live" for o' m
    proof
      assume a: "o' \<noteq> k \<and> subnet_of k o'"
      then have "(o', m) \<in> ?S" using o k(2) subnet_of_trans by auto
      then have "net_span o' \<le> net_span k" unfolding k(3) [symmetric] using fin by (intro Max_ge) auto
      with subnet_of_span [OF ok [OF k(1)] ok [OF o]] a show False by auto
    qed
    then have "(k, l) \<in> set (jail6_kept ?live)" using k(1) by (auto simp: jail6_kept_def list_ex_iff)
    moreover have "l > 0" using k(1) by (simp add: jail6_live_def)
    ultimately show ?thesis using k(2) by blast
  qed
  then show "\<forall>(n, left)\<in>set members. left > 0 \<longrightarrow> (\<exists>(k, l)\<in>set (jail6_kept ?live). subnet_of n k \<and> l > 0)" by fast
qed

theorem jail6_carried_over_witness:
  "\<exists>(k, l)\<in>set (jail6_kept (jail6_live [(net6 1 128, 60), (net6 0 64, 10)])). subnet_of (net6 1 128) k \<and> l > 0"
proof -
  have "list_all (\<lambda>(n, _). net6_ok n) [(net6 1 128, 60 :: int), (net6 0 64, 10)]" by (simp add: net6_ok_def net6_def)
  from jail6_carried_over [OF this] show ?thesis by auto
qed

text \<open>
  The declared member may expire before the one it stands for: an address jailed for an hour, inside
  a network with a minute left, is free after that minute.
\<close>

lemma jail6_ban_shortened:
  "jail6_kept (jail6_live [(net6 1 128, 3600), (net6 0 64, 60)]) = [(net6 0 64, 60)]"
  by (simp add: jail6_kept_def jail6_live_def net6_def subnet_of_def net_broadcast_def)

end
