(* ===== verification/Rule_Semantics.thy ===== *)
theory Rule_Semantics
  imports Ruleset_Props
begin

text \<open>
  What the rule check says of two rules (\<open>Rule_Lint\<close>), proved on the lines the builder renders for
  them (\<open>Builder\<close>): \<open>covers\<close> is inclusion of the matched packets, a shadowed rule never decides, and
  a scheduled rule applies during its schedule.
\<close>

subsection \<open>Variants of a rule\<close>

text \<open>What the loader guarantees of a rule: no empty address list, a port only with TCP or UDP.\<close>

definition rule_ok :: "rule \<Rightarrow> bool" where
  "rule_ok r \<longleftrightarrow> src_address r \<noteq> Some [] \<and> dst_address r \<noteq> Some [] \<and> (dst_port r \<noteq> None \<longrightarrow> proto r \<in> {TCP, UDP})"

lemma family_bex: "(\<exists>v\<in>set xs. P v) \<longleftrightarrow> V4 \<in> set xs \<and> P V4 \<or> V6 \<in> set xs \<and> P V6"
  by (metis family.exhaust)

lemma rule_variants_iff:
  "(f, m) \<in> set (rule_variants r) \<longleftrightarrow>
     (if \<not> addressed r \<and> \<not> require_ztna r then f = None \<and> m = None
      else \<exists>v\<in>set (families r). f = (if addressed r then Some v else None) \<and>
        (if require_ztna r then \<exists>ms. (v, ms) \<in> set ZTNA_MATCHES \<and> m = Some ms else m = None))"
  unfolding family_bex
  by (cases "addressed r"; cases "require_ztna r") (auto simp: rule_variants_def ZTNA_MATCHES_def)

lemma address_list_ok:
  "rule_ok r \<Longrightarrow> address_of r d = None \<longleftrightarrow> address_list r d = []"
  by (cases d) (auto simp: rule_ok_def address_list_def split: option.split)

lemma covers_parts:
  assumes "covers a b"
  shows "from_zone a = None \<or> from_zone a = from_zone b" and "to_zone a = None \<or> to_zone a = to_zone b"
    and "proto a = ANY \<or> proto a = proto b"
    and "dst_port a = None \<or> (\<exists>pa pb. dst_port a = Some pa \<and> dst_port b = Some pb \<and> proto b = proto a \<and>
       fst (ports pa) \<le> fst (ports pb) \<and> snd (ports pb) \<le> snd (ports pa))"
    and "net_covers (address_of a d) (address_of b d)"
    and "src_mac a = None \<or> src_mac a = src_mac b" and "require_ztna a \<Longrightarrow> require_ztna b"
    and "schedule a = None \<or> schedule a = schedule b"
    and "expires a = None \<or> (\<exists>ea eb. expires a = Some ea \<and> expires b = Some eb \<and> eb \<le> ea)"
  using assms by (cases d; fastforce simp: covers_def split: if_splits option.splits)+

lemma covers_networks:
  assumes "covers a b" and "n \<in> set (networks b d v)" and "address_list a d \<noteq> []"
  shows "\<exists>m\<in>set (networks a d v). net_family n = net_family m \<and> subnet_of n m"
  using assms(2,3) covers_parts(5) [OF assms(1), of d]
  by (fastforce simp: networks_def address_list_def net_covers_def list_all_iff list_ex_iff split: option.splits)

lemma covers_addressed:
  assumes "covers a b" and "rule_ok b" and "address_list a d \<noteq> []"
  shows "address_list b d \<noteq> []"
proof -
  from assms(3) obtain os where "address_of a d = Some os" by (auto simp: address_list_def split: option.splits)
  then have "address_of b d \<noteq> None"
    using covers_parts(5) [OF assms(1), of d] by (auto simp: net_covers_def split: option.splits)
  with address_list_ok [OF assms(2), of d] show ?thesis by blast
qed

lemma covers_families:
  assumes "covers a b" and "rule_ok b" and "v \<in> set (families b)"
  shows "v \<in> set (families a)"
proof -
  have "networks a d v \<noteq> []" if d: "address_list a d \<noteq> []" for d
  proof -
    have "networks b d v \<noteq> []"
      using covers_addressed [OF assms(1,2) d] assms(3) by (simp add: families_mem)
    then obtain n where "n \<in> set (networks b d v)" by (meson last_in_set)
    from covers_networks [OF assms(1) this d] show ?thesis by auto
  qed
  then show ?thesis by (simp add: families_mem)
qed

lemma covers_variant:
  assumes "covers a b" and "rule_ok b" and "(f, m) \<in> set (rule_variants b)"
  shows "(if addressed a then f else None, if require_ztna a then m else None) \<in> set (rule_variants a)"
proof -
  have "addressed a \<Longrightarrow> addressed b" using covers_addressed [OF assms(1,2)] by (auto simp: addressed_def)
  then show ?thesis
    using assms(3) covers_families [OF assms(1,2)] covers_parts(7) [OF assms(1)]
    by (auto simp: rule_variants_iff split: if_splits)
qed

lemma lines_ofI:
  "(f, m) \<in> set (rule_variants r) \<Longrightarrow> ts \<in> set (time_matches r clock) \<Longrightarrow>
     rule_line r (ts @ rule_matches r f m) \<in> set (lines_of clock r)"
  by (force simp: lines_of_def)

subsection \<open>Covering is inclusion\<close>

definition address_matches :: "rule \<Rightarrow> family option \<Rightarrow> address_field \<Rightarrow> nft_match list" where
  "address_matches r family d = (case family of None \<Rightarrow> []
     | Some f \<Rightarrow> if networks r d f \<noteq> []
         then [AddrIn f (case d of Src_address \<Rightarrow> Saddr | Dst_address \<Rightarrow> Daddr) (networks r d f)] else [])"

definition port_matches :: "rule \<Rightarrow> nft_match list" where
  "port_matches r = (case dst_port r of Some p \<Rightarrow> [Dport (proto_value (proto r)) [p]]
     | None \<Rightarrow> (if proto r = ICMP then [L4proto [''icmp'', ''ipv6-icmp'']]
               else if proto r \<noteq> ANY then [L4proto [proto_value (proto r)]] else []))"

lemma rule_matches_parts:
  "list_all holds (rule_matches r f m) \<longleftrightarrow>
     (\<forall>e. expires r = Some e \<longrightarrow> holds (MetaTimeLess e)) \<and>
     (\<forall>z. from_zone r = Some z \<longrightarrow> holds (IifnameSet (iface_set_name z))) \<and>
     (\<forall>z. to_zone r = Some z \<longrightarrow> z \<noteq> SELF_ZONE \<longrightarrow> holds (OifnameSet (iface_set_name z))) \<and>
     (\<forall>ms. m = Some ms \<longrightarrow> list_all holds ms) \<and> list_all holds (port_matches r) \<and>
     (\<forall>mac. src_mac r = Some mac \<longrightarrow> holds (EtherIs mac)) \<and>
     list_all holds (address_matches r f Src_address) \<and> list_all holds (address_matches r f Dst_address)"
  by (auto simp: rule_matches_def port_matches_def address_matches_def split: option.splits)

context nft_kernel
begin

lemma address_cover:
  assumes cov: "covers a b" and ok: "rule_ok b" and var: "(f, m) \<in> set (rule_variants b)"
    and h: "list_all holds (address_matches b f d)"
  shows "list_all holds (address_matches a (if addressed a then f else None) d)"
proof (cases "addressed a \<and> address_list a d \<noteq> []")
  case False
  then show ?thesis by (auto simp: address_matches_def networks_def split: option.split)
next
  case True
  then have "address_list b d \<noteq> []" using covers_addressed [OF cov ok] by blast
  then have "addressed b" by (cases d) (auto simp: addressed_def)
  with var obtain v where v: "v \<in> set (families b)" "f = Some v" by (auto simp: rule_variants_iff split: if_splits)
  have "networks b d v \<noteq> []" using v(1) \<open>address_list b d \<noteq> []\<close> by (simp add: families_mem)
  then have hb: "holds (AddrIn v (case d of Src_address \<Rightarrow> Saddr | Dst_address \<Rightarrow> Daddr) (networks b d v))"
    using h v(2) by (simp add: address_matches_def)
  have "holds (AddrIn v (case d of Src_address \<Rightarrow> Saddr | Dst_address \<Rightarrow> Daddr) (networks a d v))"
    by (rule address_weaken [OF hb]) (use covers_networks [OF cov] True in blast)
  with v(2) True show ?thesis by (simp add: address_matches_def)
qed

lemma port_cover:
  assumes cov: "covers a b" and ok: "rule_ok b" "rule_ok a" and h: "list_all holds (port_matches b)"
  shows "list_all holds (port_matches a)"
proof (cases "dst_port a")
  case (Some pa)
  then obtain pb where pb: "dst_port b = Some pb" "proto b = proto a" "fst (ports pa) \<le> fst (ports pb)" "snd (ports pb) \<le> snd (ports pa)"
    using covers_parts(4) [OF cov] by auto
  have p: "proto_value (proto a) \<in> {''tcp'', ''udp''}" using ok(2) Some by (auto simp: rule_ok_def)
  have "holds (Dport (proto_value (proto a)) [pb])" using h pb by (simp add: port_matches_def)
  from port_weaken [OF p this] pb Some show ?thesis by (simp add: port_matches_def)
next
  case None
  show ?thesis
  proof (cases "proto a = ANY \<or> dst_port b = None")
    case True
    with None h covers_parts(3) [OF cov] show ?thesis by (auto simp: port_matches_def)
  next
    case False
    then obtain pb where pb: "dst_port b = Some pb" "proto a = proto b" "proto b \<in> {TCP, UDP}"
      using covers_parts(3) [OF cov] ok(1) by (auto simp: rule_ok_def)
    then have "holds (L4proto [proto_value (proto b)])"
      using h port_protocol [of "proto_value (proto b)" "[pb]"] by (auto simp: port_matches_def)
    with None pb show ?thesis by (auto simp: port_matches_def)
  qed
qed

lemma covered_line:
  assumes cov: "covers a b" and ok: "rule_ok a" "rule_ok b"
    and l: "l \<in> set (lines_of clock b)" "line_applies holds l"
  shows "\<exists>k\<in>set (lines_of clock a). line_applies holds k"
proof -
  from l obtain f m ts where var: "(f, m) \<in> set (rule_variants b)" and ts: "ts \<in> set (time_matches b clock)"
    and h: "list_all holds ts" "list_all holds (rule_matches b f m)"
    by (auto simp: lines_of_iff line_applies_def rule_line_def)
  let ?f = "if addressed a then f else None" and ?m = "if require_ztna a then m else None"
  have "\<exists>ts'\<in>set (time_matches a clock). list_all holds ts'"
    using covers_parts(8) [OF cov] ts h(1) by (cases "schedule a = None") (auto simp: time_matches_def)
  then obtain ts' where ts': "ts' \<in> set (time_matches a clock)" "list_all holds ts'" by blast
  note hb = h(2) [unfolded rule_matches_parts]
  have "list_all holds (rule_matches a ?f ?m)"
    unfolding rule_matches_parts
  proof (intro conjI)
    show "\<forall>e. expires a = Some e \<longrightarrow> holds (MetaTimeLess e)"
      using covers_parts(9) [OF cov] hb time_weaken by fastforce
    show "\<forall>z. from_zone a = Some z \<longrightarrow> holds (IifnameSet (iface_set_name z))"
      using covers_parts(1) [OF cov] hb by force
    show "\<forall>z. to_zone a = Some z \<longrightarrow> z \<noteq> SELF_ZONE \<longrightarrow> holds (OifnameSet (iface_set_name z))"
      using covers_parts(2) [OF cov] hb by force
    show "\<forall>ms. ?m = Some ms \<longrightarrow> list_all holds ms" using hb by simp
    show "list_all holds (port_matches a)" using port_cover [OF cov ok(2,1)] hb by blast
    show "\<forall>mac. src_mac a = Some mac \<longrightarrow> holds (EtherIs mac)" using covers_parts(6) [OF cov] hb by force
    show "list_all holds (address_matches a ?f Src_address)" using address_cover [OF cov ok(2) var] hb by blast
    show "list_all holds (address_matches a ?f Dst_address)" using address_cover [OF cov ok(2) var] hb by blast
  qed
  then have "line_applies holds (rule_line a (ts' @ rule_matches a ?f ?m))"
    using ts'(2) by (simp add: line_applies_def rule_line_def)
  with lines_ofI [OF covers_variant [OF cov ok(2) var] ts'(1)] show ?thesis by blast
qed

end

text \<open>
  The relation \<open>covers a b\<close> the rule check decides on is sound: every packet a rendered line of
  \<open>b\<close> matches is matched by a rendered line of \<open>a\<close> -- zones, protocol, ports, address families,
  source MAC, sign-in sets, schedule and expiry together.
\<close>

theorem covers_sound:
  assumes "nft_kernel holds" and "covers a b" and "rule_ok a" and "rule_ok b"
    and "l \<in> set (lines_of clock b)" and "line_applies holds l"
  shows "\<exists>k\<in>set (lines_of clock a). line_applies holds k"
  by (rule nft_kernel.covered_line [OF assms])

theorem covers_sound_witness:
  "let a = rule0\<lparr>from_zone := Some ''lan''\<rparr>;
       b = rule0\<lparr>from_zone := Some ''lan'', proto := TCP, dst_port := Some (Port 443)\<rparr>
   in \<exists>k\<in>set (lines_of None a). line_applies (packet_holds sets0 clock0 packet0) k"
proof -
  let ?a = "rule0\<lparr>from_zone := Some ''lan''\<rparr>"
  let ?b = "rule0\<lparr>from_zone := Some ''lan'', proto := TCP, dst_port := Some (Port 443)\<rparr>"
  let ?l = "rule_line ?b [IifnameSet ''lan_ifaces'', Dport ''tcp'' [Port 443]]"
  have "?l \<in> set (lines_of None ?b)"
    by (simp add: lines_of_def rule_variants_def addressed_def address_list_def rule0_def time_matches_def rule_matches_def
      iface_set_name_def)
  moreover have "line_applies (packet_holds sets0 clock0 packet0) ?l"
    by (simp add: line_applies_def rule_line_def sample_simps port_in_def)
  moreover have "covers ?a ?b" "rule_ok ?a" "rule_ok ?b"
    by (simp_all add: covers_def net_covers_def rule_ok_def rule0_def)
  ultimately show ?thesis
    unfolding Let_def by (intro covers_sound [OF packet_kernel.nft_kernel_axioms])
qed

subsection \<open>Shadowed and redundant rules\<close>

lemma applying_line_ends:
  assumes "k \<in> set ls" and "line_applies holds k" and "line_verdict k \<in> {Some Accept, Some Drop, Some Reject}"
  shows "run_lines holds sub ls \<noteq> Undecided"
  using assms(1)
proof (induction ls)
  case (Cons l ls)
  show ?case
  proof (cases "l = k")
    case True
    with assms(2,3) show ?thesis by auto
  next
    case False
    with Cons have "run_lines holds sub ls \<noteq> Undecided" by simp
    then show ?thesis by (auto split: option.split verdict.split run.split)
  qed
qed simp

lemma rule_lines_end:
  assumes "set (lines_of clock e) \<subseteq> set ls" and "l \<in> set (lines_of clock e)" and "line_applies holds l"
  shows "run_lines holds sub ls \<noteq> Undecided"
proof (rule applying_line_ends [of l])
  show "line_verdict l \<in> {Some Accept, Some Drop, Some Reject}"
    using lines_of_verdict [OF assms(2)] by (cases "action e") (auto simp: action_verdict_def)
qed (use assms in auto)

lemma covered_lines_invisible:
  assumes "nft_kernel holds" and "covers e r" and "rule_ok e" and "rule_ok r" and "set (lines_of clock e) \<subseteq> set pre"
  shows "run_lines holds sub (pre @ lines_of clock r @ post) = run_lines holds sub (pre @ post)"
proof (cases "\<exists>l\<in>set (lines_of clock r). line_applies holds l")
  case True
  then obtain k where "k \<in> set (lines_of clock e)" "line_applies holds k"
    using nft_kernel.covered_line [OF assms(1-4)] by blast
  then have "run_lines holds sub pre \<noteq> Undecided" using rule_lines_end [OF assms(5)] by blast
  then show ?thesis by (auto simp: run_lines_append split: run.split)
next
  case False
  then have "skips holds (lines_of clock r)" by (auto simp: skips_def)
  then show ?thesis by (simp add: run_lines_append [of holds sub pre] run_lines_skips split: run.split)
qed

text \<open>The chain of the ruleset a rule is rendered into.\<close>

definition chain_of :: "ruleset \<Rightarrow> rule \<Rightarrow> nft_line list" where
  "chain_of s r = (if in_input r then rs_input s else rs_forward s)"

lemma chain_groups:
  "chains live = [input_cut live @ input_rules live, forward_cut live @ forward_rules live]"
  by (simp add: chains_def input_cut_def input_rules_def forward_cut_def forward_rules_def conj_commute)

lemma group_sides:
  "r \<in> set (input_cut live @ input_rules live) \<Longrightarrow> in_input r"
  "r \<in> set (forward_cut live @ forward_rules live) \<Longrightarrow> \<not> in_input r"
  by (auto simp: input_cut_def input_rules_def forward_cut_def forward_rules_def)

lemma split_groups:
  assumes "i < length (cs @ rs)" and "e \<in> set (take i (cs @ rs))"
    and "ls = H @ concat (map L cs) @ M @ with_blank rs (concat (map L rs)) @ T"
  obtains pre post where "ls = pre @ L ((cs @ rs) ! i) @ post" and "set (L e) \<subseteq> set pre"
proof (cases "i < length cs")
  case True
  have "concat (map L cs) = concat (map L (take i cs)) @ L (cs ! i) @ concat (map L (drop (Suc i) cs))"
    using id_take_nth_drop [OF True] by (metis concat.simps(2) concat_append list.map(2) map_append)
  with assms True show ?thesis
    by (intro that [of "H @ concat (map L (take i cs))"]) (auto simp: nth_append)
next
  case False
  define j where "j = i - length cs"
  have j: "j < length rs" "(cs @ rs) ! i = rs ! j" "e \<in> set cs \<union> set (take j rs)" "rs \<noteq> []"
    using assms(1,2) False by (auto simp: j_def nth_append)
  have "concat (map L rs) = concat (map L (take j rs)) @ L (rs ! j) @ concat (map L (drop (Suc j) rs))"
    using id_take_nth_drop [OF j(1)] by (metis concat.simps(2) concat_append list.map(2) map_append)
  with assms(3) j show ?thesis
    by (intro that [of "H @ concat (map L cs) @ M @ nft_blank # concat (map L (take j rs))"]) (auto simp: with_blank_def)
qed

lemma split_chain:
  assumes "build_ruleset cur cfg clock now rt = Inr s" and "chain \<in> set (chains (active_rules cfg now))"
    and "i < length chain" and "e \<in> set (take i chain)"
  obtains pre post where "chain_of s (chain ! i) = pre @ lines_of (effective_clock cur cfg clock) (chain ! i) @ post"
    and "set (lines_of (effective_clock cur cfg clock) e) \<subseteq> set pre"
proof -
  let ?live = "active_rules cfg now" and ?L = "lines_of (effective_clock cur cfg clock)"
  obtain zd where inp: "rs_input s = input_chain cfg zd ?live (concat (map ?L (input_cut ?live))) (concat (map ?L (input_rules ?live)))"
    and fwd: "rs_forward s = forward_chain cfg ?live (concat (map ?L (forward_cut ?live))) (concat (map ?L (forward_rules ?live)))"
    by (rule build_ruleset_pieces [OF assms(1)])
  have mem: "chain ! i \<in> set chain" using assms(3) by simp
  from assms(2) consider (input) "chain = input_cut ?live @ input_rules ?live"
    | (forward) "chain = forward_cut ?live @ forward_rules ?live"
    by (auto simp: chain_groups)
  then show ?thesis
  proof cases
    case input
    have ch: "chain_of s (chain ! i) = rs_input s" using input group_sides(1) mem by (simp add: chain_of_def del: set_append)
    have "rs_input s = input_head cfg @ concat (map ?L (input_cut ?live)) @ (ct_lines @ render_ipv6_input_jump cfg
        @ dns_accept_lines cfg @ management_drop_lines cfg zd @ wireguard_line cfg)
        @ with_blank (input_rules ?live) (concat (map ?L (input_rules ?live))) @ render_drop_log cfg ''input''"
      by (simp add: inp input_chain_def)
    from split_groups [OF assms(3,4) [unfolded input] this] show ?thesis using that ch input by metis
  next
    case forward
    have ch: "chain_of s (chain ! i) = rs_forward s" using forward group_sides(2) mem by (simp add: chain_of_def del: set_append)
    have "rs_forward s = forward_head cfg @ concat (map ?L (forward_cut ?live)) @ (ct_lines @ render_ipv6_pinholes cfg
        @ render_ipv6_no_inbound cfg @ block_dot_lines cfg)
        @ with_blank (forward_rules ?live) (concat (map ?L (forward_rules ?live))) @ render_drop_log cfg ''forward''"
      by (simp add: fwd forward_chain_def)
    from split_groups [OF assms(3,4) [unfolded forward] this] show ?thesis using that ch forward by metis
  qed
qed

lemma lint_shadow_covered:
  assumes "f \<in> set (lint_shadow before r)"
  shows "fnd_rule f = rule_name r \<and> (\<exists>e\<in>set before. covers e r)"
proof (cases "find (\<lambda>e. covers e r) before")
  case (Some e)
  then have "e \<in> set before" "covers e r" using find_first_split by fastforce+
  with Some assms show ?thesis by (auto simp: lint_shadow_def split: if_splits)
qed (use assms in \<open>simp add: lint_shadow_def\<close>)

lemma lint_kinds:
  assumes "f \<in> set (lint cfg hits now)" and "fnd_kind f \<in> {''shadowed'', ''redundant''}"
  obtains chain i e where "chain \<in> set (chains (active_rules cfg now))" and "i < length chain" and "e \<in> set (take i chain)"
    and "fnd_rule f = rule_name (chain ! i)" and "covers e (chain ! i)"
proof -
  have "f \<notin> set (lint_rule internet now r)" "f \<notin> set (lint_unused hits now r)" for internet r
    using assms(2) by (auto simp: lint_rule_def lint_unused_def Let_def split: if_splits)
  with assms(1) obtain chain i where "chain \<in> set (chains (active_rules cfg now))" "i < length chain"
    "f \<in> set (lint_shadow (take i chain) (chain ! i))"
    by (auto simp: lint_def lint_chain_def Let_def active_rules_def)
  with lint_shadow_covered that show ?thesis by blast
qed

text \<open>
  C13: a rule the rule check reports as shadowed or redundant decides nothing: the chain it is
  rendered into takes the same decision on every packet with the lines of the rule left out.
\<close>

theorem reported_rule_decides_nothing:
  assumes "build_ruleset current_clock cfg clock now runtime = Inr s"
    and "f \<in> set (lint cfg hits now)" and "fnd_kind f \<in> {''shadowed'', ''redundant''}" and "list_all rule_ok (rules cfg)"
  shows "\<exists>r pre post. r \<in> set (rules cfg) \<and> rule_name r = fnd_rule f \<and>
    chain_of s r = pre @ lines_of (effective_clock current_clock cfg clock) r @ post \<and>
    (\<forall>holds sub. nft_kernel holds \<longrightarrow> run_lines holds sub (chain_of s r) = run_lines holds sub (pre @ post))"
proof -
  obtain chain i e where c: "chain \<in> set (chains (active_rules cfg now))" "i < length chain" "e \<in> set (take i chain)"
    and r: "fnd_rule f = rule_name (chain ! i)" "covers e (chain ! i)"
    using lint_kinds [OF assms(2,3)] by blast
  obtain pre post where split: "chain_of s (chain ! i) = pre @ lines_of (effective_clock current_clock cfg clock) (chain ! i) @ post"
    and e: "set (lines_of (effective_clock current_clock cfg clock) e) \<subseteq> set pre"
    by (rule split_chain [OF assms(1) c])
  have sub: "set chain \<subseteq> set (rules cfg)"
    using c(1) group_subsets active_rules_subset by (auto simp: chain_groups) blast+
  then have mem: "e \<in> set (rules cfg)" "chain ! i \<in> set (rules cfg)" using c(2,3) by (auto dest: in_set_takeD)
  then have ok: "rule_ok e" "rule_ok (chain ! i)" using assms(4) by (auto simp: list_all_iff)
  show ?thesis
    using covered_lines_invisible [OF _ r(2) ok e] split mem(2) r(1) by (metis (no_types, lifting))
qed

theorem reported_rule_decides_nothing_witness:
  "let a = rule0\<lparr>rule_name := ''all''\<rparr>; b = rule0\<lparr>rule_name := ''no-lan'', action := DROP, from_zone := Some ''lan''\<rparr>;
       cfg = config0\<lparr>rules := [a, b]\<rparr>
   in \<exists>s r. build_ruleset clock0 cfg None 0 runtime0 = Inr s \<and> r \<in> set (rules cfg) \<and> rule_name r = ''no-lan''"
proof -
  let ?a = "rule0\<lparr>rule_name := ''all''\<rparr>"
  let ?b = "rule0\<lparr>rule_name := ''no-lan'', action := DROP, from_zone := Some ''lan''\<rparr>"
  let ?cfg = "config0\<lparr>rules := [?a, ?b]\<rparr>"
  let ?f = "\<lparr>fnd_rule = ''no-lan'', fnd_kind = ''shadowed'', fnd_severity = ''warning'',
     fnd_message = ''never matches: '' @ py_repr ''all'' @ '' above matches all of it first and accepts it''\<rparr>"
  have f: "?f \<in> set (lint ?cfg [] 0)"
    by (simp add: config0_simps lint_def lint_chain_def lint_shadow_def chains_def live_at_def in_input_def cuts_def covers_def
        net_covers_def Let_def)
  have "zones_declared ?cfg" by (simp add: zones_declared_def config0_simps)
  then obtain s where s: "build_ruleset clock0 ?cfg None 0 runtime0 = Inr s" using build_ruleset_declared by blast
  have "list_all rule_ok (rules ?cfg)" by (simp add: config0_simps rule_ok_def)
  with reported_rule_decides_nothing [OF s f] s show ?thesis unfolding Let_def by auto
qed

subsection \<open>Scheduled rules\<close>

text \<open>
  On a kernel whose clock is the one the ruleset was built for, a scheduled rule has an
  applying line exactly when the schedule is active at the local time and the rest of the rule's
  matches hold for one of its variants.
\<close>

theorem scheduled_rule_applies:
  assumes "timed_kernel holds minute clock" and "schedule r = Some sched"
    and "schedule_ok (sched_days sched) (sched_start sched) (sched_end sched)"
  shows "(\<exists>l\<in>set (lines_of (Some clock) r). line_applies holds l) \<longleftrightarrow>
    is_active (sched_days sched) (sched_start sched) (sched_end sched) (minute + utc_offset_minutes clock) \<and>
    (\<exists>(f, m)\<in>set (rule_variants r). list_all holds (rule_matches r f m))"
proof -
  have "(\<exists>l\<in>set (lines_of (Some clock) r). line_applies holds l) \<longleftrightarrow>
      (\<exists>seg\<in>set (segments (sched_days sched) (sched_start sched) (sched_end sched) clock). holds (TimeSegment seg)) \<and>
      (\<exists>(f, m)\<in>set (rule_variants r). list_all holds (rule_matches r f m))"
    by (fastforce simp: lines_of_def time_matches_def assms(2) line_applies_def rule_line_def)
  then show ?thesis
    using timed_kernel.some_segment_holds [OF assms(1,3)] by simp
qed

theorem scheduled_rule_applies_witness:
  "\<exists>l\<in>set (lines_of (Some clock0) (rule0\<lparr>schedule := Some \<lparr>sched_days = [0], sched_start = 0, sched_end = 60, cut_established = False\<rparr>\<rparr>)).
     line_applies (packet_holds sets0 clock0 packet0) l"
proof -
  let ?s = "\<lparr>sched_days = [0], sched_start = 0, sched_end = 60, cut_established = False\<rparr>"
  let ?r = "rule0\<lparr>schedule := Some ?s\<rparr>"
  have act: "is_active [0] 0 60 (pk_minute packet0 + utc_offset_minutes clock0)"
    by (simp add: is_active_def local_intervals_def minutes_num packet0_def clock0_def window_length_def)
  have "schedule_ok [0] 0 60" by (simp add: schedule_ok_def minutes_num)
  moreover have "(None, None) \<in> set (rule_variants ?r)"
    by (simp add: rule_variants_def addressed_def address_list_def rule0_def)
  moreover have "list_all (packet_holds sets0 clock0 packet0) (rule_matches ?r None None)"
    by (simp add: rule_matches_def rule0_def)
  ultimately show ?thesis
    using scheduled_rule_applies [OF packet_kernel.timed_kernel_axioms [of sets0 clock0 packet0], of ?r ?s] act by fastforce
qed

end
