(* ===== verification/Login_Guard.thy ===== *)
theory Login_Guard
  imports Builder
begin

text \<open>
  Failed sign-ins: what a source counts as (\<open>src/src/frfw/bruteforce.py\<close>) and the two counters
  (\<open>src/src/frfw/webui/auth_rate_limiter.py\<close>, class \<open>BruteforceGuard\<close>).

  Python's \<open>ipaddress.ip_address\<close> is the parameter \<open>ip_address\<close> (\<open>None\<close> where it raises); the
  lookup of a LAN host's MAC through the helper is the parameter \<open>device_of\<close>.  Times are the values
  \<open>time.time()\<close> returned, in the order it returned them.  Every method takes the lock for its whole
  body except the lookup, so a method is one step.
\<close>

subsection \<open>Source addresses (bruteforce.py)\<close>

datatype py_address = IPv4Address int | IPv6Address int "string option"

datatype jail_error = ValueError | BruteforceError string

text \<open>\<open>IPv6Address.ipv4_mapped\<close>: the last 32 bits of \<open>::ffff:0:0/96\<close>.\<close>

definition ipv4_mapped :: "int \<Rightarrow> int option" where
  "ipv4_mapped x = (if x div 2 ^ 32 = 0xffff then Some (x mod 2 ^ 32) else None)"

definition jail_key :: "(string \<Rightarrow> py_address option) \<Rightarrow> string \<Rightarrow> (jail_error, string) result" where
  "jail_key ip_address ip =
     (case ip_address ip of None \<Rightarrow> Inl ValueError
      | Some (IPv4Address x) \<Rightarrow> Inr (show_ipv4 x)
      | Some (IPv6Address x scope) \<Rightarrow>
          if scope \<noteq> None then Inl ValueError
          else case ipv4_mapped x of Some y \<Rightarrow> Inr (show_ipv4 y) | None \<Rightarrow> Inr (show_ipv6 x))"

definition device_key :: "(string \<Rightarrow> py_address option) \<Rightarrow> (string \<Rightarrow> string list \<Rightarrow> string option) \<Rightarrow>
    string \<Rightarrow> string list \<Rightarrow> (jail_error, string option) result" where
  "device_key ip_address neighbour ip lan =
     bind_result (jail_key ip_address ip) (\<lambda>key.
       if CHR '':'' \<notin> set key then Inr None else Inr (neighbour key lan))"

text \<open>
  \<open>ban_ip\<close> up to the call of \<open>nft\<close>: the set and the element it adds, and the MAC it returns.
\<close>

definition ban_ip :: "(string \<Rightarrow> py_address option) \<Rightarrow> (string \<Rightarrow> string list \<Rightarrow> string option) \<Rightarrow>
    string \<Rightarrow> int \<Rightarrow> string list \<Rightarrow> (jail_error, (string \<times> string) \<times> string option) result" where
  "ban_ip ip_address neighbour ip duration lan =
     (case jail_key ip_address ip of Inl _ \<Rightarrow> Inl (BruteforceError ''invalid IP address'')
      | Inr key \<Rightarrow>
         if duration \<le> 0 then Inl (BruteforceError ''duration_seconds must be positive'')
         else bind_result (device_key ip_address neighbour key lan) (\<lambda>mac.
           case mac of Some m \<Rightarrow> Inr ((BRUTEFORCE_JAIL_MAC_SET_NAME, timeout_item m duration), Some m)
           | None \<Rightarrow> Inr ((if CHR '':'' \<in> set key then BRUTEFORCE_JAIL6_SET_NAME else BRUTEFORCE_JAIL_SET_NAME,
                          timeout_item key duration), None)))"

subsection \<open>The counters (auth_rate_limiter.py)\<close>

definition KNOWN_SOURCE_SECONDS :: seconds where "KNOWN_SOURCE_SECONDS = 90 * 24 * 3600"
definition SWEEP_INTERVAL :: nat where "SWEEP_INTERVAL = 100"
definition MAX_TRACKED :: nat where "MAX_TRACKED = 5000"
definition DEVICE_CACHE_SECONDS :: seconds where "DEVICE_CACHE_SECONDS = 60"
definition DEVICE_CACHE_SIZE :: nat where "DEVICE_CACHE_SIZE = 1024"

type_synonym counters = "(string, seconds list) dict"
type_synonym sources = "(string, (string, seconds) dict) dict"

record guard =
  max_attempts :: nat
  window_seconds :: seconds
  account_max_attempts :: nat
  account_window_seconds :: seconds
  state_path :: bool
  attempts :: counters
  account_attempts :: counters
  known :: sources
  calls_since_sweep :: nat
  devices :: "(string, string option \<times> seconds) dict"
  state_file :: "(counters \<times> counters \<times> sources) option"
  disk_writable :: bool

text \<open>A new guard, on a disk its state file can be written to (\<open>path\<close>: whether it keeps one).\<close>

definition guard_init :: "bool \<Rightarrow> guard" where
  "guard_init path = \<lparr>max_attempts = 5, window_seconds = 5 * 60, account_max_attempts = 10,
     account_window_seconds = 15 * 60, state_path = path, attempts = [], account_attempts = [], known = [],
     calls_since_sweep = 0, devices = [], state_file = None, disk_writable = True\<rparr>"

definition source :: "(string \<Rightarrow> py_address option) \<Rightarrow> string \<Rightarrow> string" where
  "source ip_address ip = (case jail_key ip_address ip of Inl _ \<Rightarrow> ip | Inr key \<Rightarrow> key)"

text \<open>
  \<open>_key\<close>: the key a source counts under and the updated cache.  \<open>device_of\<close> is \<open>None\<close> for a guard
  without a lookup.  An empty MAC counts as none.
\<close>

definition guard_key :: "(string \<Rightarrow> py_address option) \<Rightarrow> (string \<Rightarrow> string option) option \<Rightarrow> seconds \<Rightarrow> string \<Rightarrow>
    guard \<Rightarrow> string \<times> guard" where
  "guard_key ip_address device_of now ip g =
     (let key = source ip_address ip in
      case device_of of None \<Rightarrow> (key, g)
      | Some lookup \<Rightarrow>
         if CHR '':'' \<notin> set key then (key, g)
         else
           let (device, g') =
             (case map_of (devices g) key of
                Some (d, t) \<Rightarrow>
                  if now - t < DEVICE_CACHE_SECONDS then (d, g)
                  else (lookup key, g\<lparr>devices := AList.update key (lookup key, now)
                          (if length (devices g) \<ge> DEVICE_CACHE_SIZE then [] else devices g)\<rparr>)
              | None \<Rightarrow> (lookup key, g\<lparr>devices := AList.update key (lookup key, now)
                          (if length (devices g) \<ge> DEVICE_CACHE_SIZE then [] else devices g)\<rparr>))
           in (case device of None \<Rightarrow> key | Some d \<Rightarrow> if d = [] then key else ''mac:'' @ d, g'))"

definition prune :: "seconds list \<Rightarrow> seconds \<Rightarrow> seconds \<Rightarrow> seconds list" where
  "prune ts now window = dropWhile (\<lambda>t. t < now - window) ts"

definition expired :: "seconds \<Rightarrow> seconds list \<Rightarrow> bool" where
  "expired cutoff ts \<longleftrightarrow> ts = [] \<or> last ts < cutoff"

definition drop_expired :: "seconds \<Rightarrow> counters \<Rightarrow> counters" where
  "drop_expired cutoff d = filter (\<lambda>(_, ts). \<not> expired cutoff ts) d"

definition drop_oldest :: "counters \<Rightarrow> counters" where
  "drop_oldest d =
     (if length d > MAX_TRACKED
      then fold AList.delete (take (length d - MAX_TRACKED) (sort_key (\<lambda>k. last (dict_get_or d k [0])) (map fst d))) d
      else d)"

definition sweep_expired :: "seconds \<Rightarrow> guard \<Rightarrow> guard" where
  "sweep_expired now g =
     g\<lparr>attempts := drop_oldest (drop_expired (now - window_seconds g) (attempts g)),
       account_attempts := drop_expired (now - account_window_seconds g) (account_attempts g)\<rparr>"

definition save :: "guard \<Rightarrow> guard" where
  "save g = (if state_path g \<and> disk_writable g
     then g\<lparr>state_file := Some (attempts g, account_attempts g, known g)\<rparr> else g)"

text \<open>\<open>_load\<close>, for a state file that \<open>_save\<close> wrote: the keys and values have the expected types.\<close>

definition load :: "seconds \<Rightarrow> guard \<Rightarrow> guard" where
  "load now g =
     (if \<not> state_path g then g
      else case state_file g of None \<Rightarrow> g
        | Some (ips, accounts, sources) \<Rightarrow>
            sweep_expired now (g\<lparr>attempts := map (\<lambda>(k, ts). (k, sort ts)) ips,
              account_attempts := map (\<lambda>(k, ts). (k, sort ts)) accounts,
              known := map (\<lambda>(a, v). (a, filter (\<lambda>(_, t). now - t \<le> KNOWN_SOURCE_SECONDS) v)) sources\<rparr>))"

text \<open>The body of \<open>record_failure\<close> under the lock, for the key of the source.\<close>

definition maybe_sweep :: "seconds \<Rightarrow> guard \<Rightarrow> guard" where
  "maybe_sweep now g =
     (let g1 = g\<lparr>calls_since_sweep := Suc (calls_since_sweep g)\<rparr>
      in if calls_since_sweep g1 \<ge> SWEEP_INTERVAL then sweep_expired now (g1\<lparr>calls_since_sweep := 0\<rparr>) else g1)"

definition count_failure :: "seconds \<Rightarrow> string \<Rightarrow> guard \<Rightarrow> bool \<times> guard" where
  "count_failure now key g0 =
     (let g = maybe_sweep now g0;
          ts = prune (dict_get_or (attempts g) key [] @ [now]) now (window_seconds g);
          banned = (length ts \<ge> max_attempts g);
          g' = g\<lparr>attempts := (if banned then AList.delete key (attempts g) else AList.update key ts (attempts g))\<rparr>
      in (banned, save g'))"

definition record_failure :: "(string \<Rightarrow> py_address option) \<Rightarrow> (string \<Rightarrow> string option) option \<Rightarrow> seconds \<Rightarrow> seconds \<Rightarrow>
    string \<Rightarrow> guard \<Rightarrow> bool \<times> guard" where
  "record_failure ip_address device_of now0 now ip g =
     (let (key, g') = guard_key ip_address device_of now0 ip g in count_failure now key g')"

definition count_success :: "seconds \<Rightarrow> string \<Rightarrow> string option \<Rightarrow> guard \<Rightarrow> bool \<times> guard" where
  "count_success now key account g0 =
     (let g = g0\<lparr>attempts := AList.delete key (attempts g0)\<rparr> in
      case account of None \<Rightarrow> (False, save g)
      | Some a \<Rightarrow>
          (let sources = dict_get_or (known g) a [];
               seen = map_of sources key;
               new_source = (sources \<noteq> [] \<and> (case seen of None \<Rightarrow> True | Some t \<Rightarrow> now - t > KNOWN_SOURCE_SECONDS))
           in (new_source,
               save (g\<lparr>account_attempts := AList.delete a (account_attempts g),
                       known := AList.update a (AList.update key now sources) (known g)\<rparr>))))"

definition record_success :: "(string \<Rightarrow> py_address option) \<Rightarrow> (string \<Rightarrow> string option) option \<Rightarrow> seconds \<Rightarrow> seconds \<Rightarrow>
    string \<Rightarrow> string option \<Rightarrow> guard \<Rightarrow> bool \<times> guard" where
  "record_success ip_address device_of now0 now ip account g =
     (let (key, g') = guard_key ip_address device_of now0 ip g in count_success now key account g')"

definition record_account_failure :: "seconds \<Rightarrow> string \<Rightarrow> guard \<Rightarrow> guard" where
  "record_account_failure now account g =
     (if map_of (account_attempts g) account = None \<and> length (account_attempts g) \<ge> MAX_TRACKED then g
      else save (g\<lparr>account_attempts := AList.update account
             (prune (dict_get_or (account_attempts g) account [] @ [now]) now (account_window_seconds g)) (account_attempts g)\<rparr>))"

text \<open>
  The body of \<open>account_locked\<close>: the seconds to wait.  Pruning works on the list in the table, when the
  account is there.
\<close>

definition locked_wait :: "seconds \<Rightarrow> string \<Rightarrow> guard \<Rightarrow> int \<times> guard" where
  "locked_wait now account g =
     (let ts = prune (dict_get_or (account_attempts g) account []) now (account_window_seconds g);
          g' = (if map_of (account_attempts g) account = None then g
                else g\<lparr>account_attempts := AList.update account ts (account_attempts g)\<rparr>)
      in (if length ts < account_max_attempts g then 0 else max 1 \<lfloor>hd ts + account_window_seconds g - now\<rfloor>, g'))"

definition locked_for :: "seconds \<Rightarrow> string \<Rightarrow> string \<Rightarrow> guard \<Rightarrow> int \<times> guard" where
  "locked_for now account key g =
     (case map_of (dict_get_or (known g) account []) key of
        Some seen \<Rightarrow> if now - seen \<le> KNOWN_SOURCE_SECONDS then (0, g) else locked_wait now account g
      | None \<Rightarrow> locked_wait now account g)"

definition account_locked :: "(string \<Rightarrow> py_address option) \<Rightarrow> (string \<Rightarrow> string option) option \<Rightarrow> seconds \<Rightarrow> seconds \<Rightarrow>
    string \<Rightarrow> string \<Rightarrow> guard \<Rightarrow> int \<times> guard" where
  "account_locked ip_address device_of now0 now account ip g =
     (let (key, g') = guard_key ip_address device_of now0 ip g in locked_for now account key g')"

definition BAN_DURATION_SECONDS :: int where "BAN_DURATION_SECONDS = 60 * 60"

text \<open>
  \<open>reject_failed_login\<close>: the failure recorded for the account and the address; the result is the
  request for a ban, if the address crossed the threshold.
\<close>

definition reject_failed_login :: "(string \<Rightarrow> py_address option) \<Rightarrow> (string \<Rightarrow> string option) option \<Rightarrow> seconds \<Rightarrow> seconds \<Rightarrow>
    seconds \<Rightarrow> string \<Rightarrow> string option \<Rightarrow> guard \<Rightarrow> (string \<times> int) option \<times> string \<times> guard" where
  "reject_failed_login ip_address device_of now_account now0 now ip account g0 =
     (let g = (case account of None \<Rightarrow> g0 | Some a \<Rightarrow> record_account_failure now_account a g0);
          (banned, g') = record_failure ip_address device_of now0 now ip g
      in if banned then (Some (ip, BAN_DURATION_SECONDS),
              ''Too many failed login attempts -- this address is temporarily blocked'', g')
         else (None, ''Invalid credentials'', g'))"

definition locked_minutes :: "int \<Rightarrow> int" where
  "locked_minutes seconds = max 1 ((seconds + 59) div 60)"

subsection \<open>Which set a source is jailed in\<close>

lemma show_nat_no_colon: "CHR '':'' \<notin> set (show_nat n)"
proof -
  have "digit_char ` {0..<10} \<subseteq> set ''0123456789''"
    using nth_mem [of _ "''0123456789''"] by (auto simp: digit_char_def simp del: nth_Cons_numeral list.set)
  moreover have "CHR '':'' \<notin> set ''0123456789''" by simp
  ultimately show ?thesis using show_nat_digits [of n] by blast
qed

lemma show_ipv4_no_colon: "CHR '':'' \<notin> set (show_ipv4 x)"
  by (simp add: show_ipv4_def show_nat_no_colon)

lemma py_join_sep: "length xs \<ge> 2 \<Longrightarrow> set sep \<subseteq> set (py_join sep xs)"
  by (induction sep xs rule: py_join.induct) auto

lemma show_ipv6_colon: "CHR '':'' \<in> set (show_ipv6 x)"
proof -
  have "CHR '':'' \<in> set (py_join '':'' (map show_hex (hextets x)))"
    using py_join_sep [of "map show_hex (hextets x)" "'':''"] by (simp add: hextets_def)
  then show ?thesis by (cases "best_run 0 (hextets x)") (simp add: show_ipv6_def Let_def)
qed

text \<open>
  A ban reaches the set the input chain drops by.  An IPv4 source (or an IPv4-mapped IPv6 one)
  is added as its IPv4 address to the IPv4 jail; an IPv6 source by the MAC the neighbour table has
  for it, else by its address in the IPv6 jail; anything that is not an address without a scope, and
  a duration that is not positive, is refused.
\<close>

theorem ban_ip_target:
  assumes "\<And>key. jail_key ip_address ip = Inr key \<Longrightarrow> jail_key ip_address key = Inr key"
  shows "ban_ip ip_address neighbour ip duration lan =
    (case ip_address ip of
       None \<Rightarrow> Inl (BruteforceError ''invalid IP address'')
     | Some a \<Rightarrow>
        (case (case a of IPv4Address x \<Rightarrow> Some (V4, x)
               | IPv6Address x scope \<Rightarrow> if scope \<noteq> None then None
                   else case ipv4_mapped x of Some y \<Rightarrow> Some (V4, y) | None \<Rightarrow> Some (V6, x)) of
           None \<Rightarrow> Inl (BruteforceError ''invalid IP address'')
         | Some (f, x) \<Rightarrow>
             if duration \<le> 0 then Inl (BruteforceError ''duration_seconds must be positive'')
             else (case f of V4 \<Rightarrow> Inr ((BRUTEFORCE_JAIL_SET_NAME, timeout_item (show_ipv4 x) duration), None)
                   | V6 \<Rightarrow> (case neighbour (show_ipv6 x) lan of
                       Some m \<Rightarrow> Inr ((BRUTEFORCE_JAIL_MAC_SET_NAME, timeout_item m duration), Some m)
                     | None \<Rightarrow> Inr ((BRUTEFORCE_JAIL6_SET_NAME, timeout_item (show_ipv6 x) duration), None)))))"
proof -
  have "ban_ip ip_address neighbour ip duration lan =
    (case jail_key ip_address ip of Inl _ \<Rightarrow> Inl (BruteforceError ''invalid IP address'')
     | Inr key \<Rightarrow>
        if duration \<le> 0 then Inl (BruteforceError ''duration_seconds must be positive'')
        else if CHR '':'' \<notin> set key then Inr ((BRUTEFORCE_JAIL_SET_NAME, timeout_item key duration), None)
        else case neighbour key lan of
            Some m \<Rightarrow> Inr ((BRUTEFORCE_JAIL_MAC_SET_NAME, timeout_item m duration), Some m)
          | None \<Rightarrow> Inr ((BRUTEFORCE_JAIL6_SET_NAME, timeout_item key duration), None))"
    using assms by (simp add: ban_ip_def device_key_def split: sum.split)
  moreover have "jail_key ip_address ip =
    (case ip_address ip of None \<Rightarrow> Inl ValueError
     | Some a \<Rightarrow>
        (case (case a of IPv4Address x \<Rightarrow> Some (V4, x)
               | IPv6Address x scope \<Rightarrow> if scope \<noteq> None then None
                   else case ipv4_mapped x of Some y \<Rightarrow> Some (V4, y) | None \<Rightarrow> Some (V6, x)) of
           None \<Rightarrow> Inl ValueError | Some (f, x) \<Rightarrow> Inr (show_address f x)))"
    by (auto simp: jail_key_def show_address_def split: option.split py_address.split)
  ultimately show ?thesis
    by (auto simp: show_ipv4_no_colon show_ipv6_colon show_address_def split: option.split family.split)
qed

theorem ban_ip_target_witness:
  "ban_ip (\<lambda>s. if s = ''::ffff:192.0.2.1'' then Some (IPv6Address 281473902969345 None)
          else if s = ''192.0.2.1'' then Some (IPv4Address 3221225985) else None) (\<lambda>_ _. None) ''::ffff:192.0.2.1'' 3600 [] =
     Inr ((BRUTEFORCE_JAIL_SET_NAME, ''192.0.2.1 timeout 3600s''), None)"
proof -
  let ?p = "\<lambda>s. if s = ''::ffff:192.0.2.1'' then Some (IPv6Address 281473902969345 None)
          else if s = ''192.0.2.1'' then Some (IPv4Address 3221225985) else None"
  have t: "show_ipv4 3221225985 = ''192.0.2.1''"
    by (simp add: show_ipv4_def octet_def show_ip_simps)
  have m: "ipv4_mapped 281473902969345 = Some 3221225985" by (simp add: ipv4_mapped_def)
  have "jail_key ?p key = Inr key" if "jail_key ?p ''::ffff:192.0.2.1'' = Inr key" for key
    using that by (auto simp: jail_key_def t m)
  from ban_ip_target [where ip = "''::ffff:192.0.2.1''", OF this] show ?thesis
    by (simp add: m t timeout_item_def show_int_def show_ip_simps)
qed

subsection \<open>What the counters mean\<close>

text \<open>
  The specification keeps every failure since the last reset and counts the recent ones.
\<close>

definition recent :: "seconds \<Rightarrow> seconds \<Rightarrow> seconds list \<Rightarrow> seconds list" where
  "recent now w ts = filter (\<lambda>t. now - w \<le> t) ts"

record guard_spec =
  sp_failures :: "string \<Rightarrow> seconds list"
  sp_account :: "string \<Rightarrow> seconds list"
  sp_known :: "string \<Rightarrow> (string \<rightharpoonup> seconds)"

datatype guard_event =
    Failure seconds string
  | Success seconds string "string option"
  | AccountFailure seconds string
  | Query seconds string string

datatype guard_answer = Banned bool | NewSource bool | Recorded | Wait int

primrec event_time :: "guard_event \<Rightarrow> seconds" where
  "event_time (Failure t k) = t"
| "event_time (Success t k a) = t"
| "event_time (AccountFailure t a) = t"
| "event_time (Query t a k) = t"

primrec guard_step :: "guard_event \<Rightarrow> guard \<Rightarrow> guard_answer \<times> guard" where
  "guard_step (Failure t k) g = apfst Banned (count_failure t k g)"
| "guard_step (Success t k a) g = apfst NewSource (count_success t k a g)"
| "guard_step (AccountFailure t a) g = (Recorded, record_account_failure t a g)"
| "guard_step (Query t a k) g = apfst Wait (locked_for t a k g)"

definition spec_failure :: "guard \<Rightarrow> seconds \<Rightarrow> string \<Rightarrow> guard_spec \<Rightarrow> guard_answer \<times> guard_spec" where
  "spec_failure P t k s =
     (let h = sp_failures s k @ [t]; banned = (length (recent t (window_seconds P) h) \<ge> max_attempts P)
      in (Banned banned, s\<lparr>sp_failures := (sp_failures s)(k := if banned then [] else h)\<rparr>))"

definition spec_success :: "seconds \<Rightarrow> string \<Rightarrow> string option \<Rightarrow> guard_spec \<Rightarrow> guard_answer \<times> guard_spec" where
  "spec_success t k acc s =
     (let s1 = s\<lparr>sp_failures := (sp_failures s)(k := [])\<rparr> in
      case acc of None \<Rightarrow> (NewSource False, s1)
      | Some a \<Rightarrow> (NewSource (sp_known s a \<noteq> Map.empty \<and>
              (case sp_known s a k of None \<Rightarrow> True | Some seen \<Rightarrow> t - seen > KNOWN_SOURCE_SECONDS)),
            s1\<lparr>sp_account := (sp_account s)(a := []), sp_known := (sp_known s)(a := (sp_known s a)(k \<mapsto> t))\<rparr>))"

definition spec_wait :: "guard \<Rightarrow> seconds \<Rightarrow> string \<Rightarrow> string \<Rightarrow> guard_spec \<Rightarrow> int" where
  "spec_wait P t a k s =
     (let ts = recent t (account_window_seconds P) (sp_account s a) in
      if (case sp_known s a k of None \<Rightarrow> False | Some seen \<Rightarrow> t - seen \<le> KNOWN_SOURCE_SECONDS) then 0
      else if length ts < account_max_attempts P then 0 else max 1 \<lfloor>hd ts + account_window_seconds P - t\<rfloor>)"

primrec spec_step :: "guard \<Rightarrow> guard_event \<Rightarrow> guard_spec \<Rightarrow> guard_answer \<times> guard_spec" where
  "spec_step P (Failure t k) s = spec_failure P t k s"
| "spec_step P (Success t k a) s = spec_success t k a s"
| "spec_step P (AccountFailure t a) s = (Recorded, s\<lparr>sp_account := (sp_account s)(a := sp_account s a @ [t])\<rparr>)"
| "spec_step P (Query t a k) s = (Wait (spec_wait P t a k s), s)"

fun answers :: "('e \<Rightarrow> 's \<Rightarrow> 'a \<times> 's) \<Rightarrow> 'e list \<Rightarrow> 's \<Rightarrow> 'a list" where
  "answers step [] s = []"
| "answers step (e # es) s = (let (a, s') = step e s in a # answers step es s')"

definition spec_init :: guard_spec where
  "spec_init = \<lparr>sp_failures = (\<lambda>_. []), sp_account = (\<lambda>_. []), sp_known = (\<lambda>_. Map.empty)\<rparr>"

subsection \<open>Windows\<close>

abbreviation hits :: "counters \<Rightarrow> string \<Rightarrow> seconds list" where
  "hits d k \<equiv> dict_get_or d k []"

lemma dict_get_or_update: "dict_get_or (AList.update k v d) j z = (if j = k then v else dict_get_or d j z)"
  by (simp add: dict_get_or_def dict_simps)

lemmas hits_update = dict_get_or_update [where z = "[] :: seconds list"]

lemma hits_delete: "hits (AList.delete k d) j = (if j = k then [] else hits d j)"
  by (simp add: dict_get_or_def dict_simps)

lemma prune_sorted: "sorted ts \<Longrightarrow> prune ts now w = recent now w ts"
proof (induction ts)
  case (Cons t ts)
  show ?case
  proof (cases "t < now - w")
    case True
    with Cons show ?thesis by (simp add: prune_def recent_def)
  next
    case False
    with Cons.prems have "filter (\<lambda>t. now - w \<le> t) ts = ts" by (intro filter_True) auto
    with False show ?thesis by (simp add: prune_def recent_def)
  qed
qed (simp add: prune_def recent_def)

lemma recent_recent: "now \<le> now' \<Longrightarrow> recent now' w (recent now w ts) = recent now' w ts"
  by (auto simp: recent_def intro: filter_cong)

lemma recent_append: "recent now w (xs @ ys) = recent now w xs @ recent now w ys"
  by (simp add: recent_def)

lemma sorted_le_last: "sorted ts \<Longrightarrow> x \<in> set ts \<Longrightarrow> x \<le> last ts"
  by (induction ts) auto

lemma recent_expired:
  assumes "sorted ts" and "expired (now - w) ts" and "now \<le> t"
  shows "recent t w ts = []"
proof -
  have "x < t - w" if x: "x \<in> set ts" for x
  proof -
    have "last ts < now - w" using assms(2) x by (auto simp: expired_def)
    with sorted_le_last [OF assms(1) x] assms(3) show ?thesis by linarith
  qed
  then show ?thesis by (auto simp: recent_def filter_empty_conv not_le)
qed

definition counter_rel :: "seconds \<Rightarrow> seconds \<Rightarrow> counters \<Rightarrow> (string \<Rightarrow> seconds list) \<Rightarrow> bool" where
  "counter_rel w now d h \<longleftrightarrow> dict_ok d \<and> (\<forall>k. sorted (hits d k) \<and> (\<forall>t\<in>set (hits d k). t \<le> now) \<and>
     (\<forall>t\<ge>now. recent t w (hits d k) = recent t w (h k)))"

lemma counter_relD:
  assumes "counter_rel w now d h"
  shows "dict_ok d" and "sorted (hits d k)" and "t \<in> set (hits d k) \<Longrightarrow> t \<le> now"
    and "now \<le> t' \<Longrightarrow> recent t' w (hits d k) = recent t' w (h k)"
  using assms by (auto simp: counter_rel_def)

lemma counter_rel_later: "counter_rel w now d h \<Longrightarrow> now \<le> now' \<Longrightarrow> counter_rel w now' d h"
  unfolding counter_rel_def by (meson order_trans)

lemma map_of_filter_value:
  "dict_ok d \<Longrightarrow> map_of (filter (\<lambda>(_, v). P v) d) k = (case map_of d k of None \<Rightarrow> None | Some v \<Rightarrow> if P v then Some v else None)"
proof (induction d)
  case (Cons p d)
  obtain j v where p: "p = (j, v)" by (cases p)
  with Cons.prems have "map_of d j = None" "dict_ok d" by (auto simp: dict_ok_def map_of_eq_None_iff)
  with Cons.IH p show ?case by (auto split: option.splits)
qed simp

lemma hits_drop_expired:
  "dict_ok d \<Longrightarrow> hits (drop_expired c d) k = (if expired c (hits d k) then [] else hits d k)"
  unfolding drop_expired_def dict_get_or_def map_of_filter_value
  by (simp add: expired_def split: option.split)

lemma counter_rel_drop_expired:
  assumes "counter_rel w now d h"
  shows "counter_rel w now (drop_expired (now - w) d) h"
  unfolding counter_rel_def hits_drop_expired [OF counter_relD(1) [OF assms]]
proof (intro conjI allI impI ballI)
  show "dict_ok (drop_expired (now - w) d)"
    unfolding drop_expired_def by (rule dict_ok_filter [OF counter_relD(1) [OF assms]])
  fix k
  show "sorted (if expired (now - w) (hits d k) then [] else hits d k)" using counter_relD(2) [OF assms] by simp
  show "t \<le> now" if "t \<in> set (if expired (now - w) (hits d k) then [] else hits d k)" for t
    using that counter_relD(3) [OF assms] by (auto split: if_splits)
  show "recent t w (if expired (now - w) (hits d k) then [] else hits d k) = recent t w (h k)" if "now \<le> t" for t
    using counter_relD(4) [OF assms that, of k] recent_expired [OF counter_relD(2) [OF assms, of k] _ that]
    by (auto simp: recent_def)
qed

lemma counter_rel_update:
  assumes "counter_rel w now d h" and "sorted ts" and "\<And>t. t \<in> set ts \<Longrightarrow> t \<le> now"
    and "\<And>t. now \<le> t \<Longrightarrow> recent t w ts = recent t w (h' k)" and "\<And>j. j \<noteq> k \<Longrightarrow> h' j = h j"
  shows "counter_rel w now (AList.update k ts d) h'"
  using assms counter_relD [OF assms(1)] by (auto simp: counter_rel_def hits_update dict_simps)

lemma counter_rel_append:
  assumes "counter_rel w now d h"
  shows "counter_rel w now (AList.update k (prune (hits d k @ [now]) now w) d) (h(k := h k @ [now]))"
    and "prune (hits d k @ [now]) now w = recent now w (h k @ [now])"
proof -
  have s: "sorted (hits d k @ [now])" using counter_relD(2,3) [OF assms, where k = k] by (auto simp: sorted_append)
  then have p: "prune (hits d k @ [now]) now w = recent now w (hits d k @ [now])" by (rule prune_sorted)
  then show "prune (hits d k @ [now]) now w = recent now w (h k @ [now])"
    using counter_relD(4) [OF assms order_refl, of k] by (simp add: recent_append)
  show "counter_rel w now (AList.update k (prune (hits d k @ [now]) now w) d) (h(k := h k @ [now]))"
    unfolding p
  proof (rule counter_rel_update [OF assms])
    show "sorted (recent now w (hits d k @ [now]))" using s unfolding recent_def by (rule sorted_wrt_filter)
    show "t \<le> now" if "t \<in> set (recent now w (hits d k @ [now]))" for t
      using that counter_relD(3) [OF assms, of t k] by (auto simp: recent_def split: if_splits)
    show "recent t w (recent now w (hits d k @ [now])) = recent t w ((h(k := h k @ [now])) k)" if "now \<le> t" for t
      using counter_relD(4) [OF assms that, of k] that by (simp add: recent_recent recent_append)
  qed simp
qed

lemma counter_rel_delete: "counter_rel w now d h \<Longrightarrow> counter_rel w now (AList.delete k d) (h(k := []))"
  by (auto simp: counter_rel_def hits_delete dict_simps)

lemma counter_rel_prune:
  assumes "counter_rel w now d h"
  shows "counter_rel w now (AList.update k (prune (hits d k) now w) d) h" and "prune (hits d k) now w = recent now w (h k)"
proof -
  have p: "prune (hits d k) now w = recent now w (hits d k)" by (rule prune_sorted [OF counter_relD(2) [OF assms]])
  then show "prune (hits d k) now w = recent now w (h k)" using counter_relD(4) [OF assms order_refl] by simp
  show "counter_rel w now (AList.update k (prune (hits d k) now w) d) h"
    unfolding p
  proof (rule counter_rel_update [OF assms])
    show "sorted (recent now w (hits d k))" using counter_relD(2) [OF assms] unfolding recent_def by (rule sorted_wrt_filter)
    show "t \<le> now" if "t \<in> set (recent now w (hits d k))" for t
      using that counter_relD(3) [OF assms, of t k] by (auto simp: recent_def)
    show "recent t w (recent now w (hits d k)) = recent t w (h k)" if "now \<le> t" for t
      using counter_relD(4) [OF assms that, of k] that by (simp add: recent_recent)
  qed simp
qed

subsection \<open>The guard refines its specification\<close>

definition guard_rel :: "guard \<Rightarrow> guard \<Rightarrow> guard_spec \<Rightarrow> seconds \<Rightarrow> nat \<Rightarrow> bool" where
  "guard_rel P g s now n \<longleftrightarrow>
     max_attempts g = max_attempts P \<and> window_seconds g = window_seconds P \<and>
     account_max_attempts g = account_max_attempts P \<and> account_window_seconds g = account_window_seconds P \<and>
     counter_rel (window_seconds P) now (attempts g) (sp_failures s) \<and>
     counter_rel (account_window_seconds P) now (account_attempts g) (sp_account s) \<and>
     (\<forall>a. map_of (dict_get_or (known g) a []) = sp_known s a \<and> dict_ok (dict_get_or (known g) a [])) \<and>
     length (attempts g) \<le> n \<and> length (account_attempts g) \<le> n"

lemma save_simps [simp]:
  "attempts (save g) = attempts g" "account_attempts (save g) = account_attempts g" "known (save g) = known g"
  "max_attempts (save g) = max_attempts g" "window_seconds (save g) = window_seconds g"
  "account_max_attempts (save g) = account_max_attempts g" "account_window_seconds (save g) = account_window_seconds g"
  by (simp_all add: save_def)

lemma guard_rel_later: "guard_rel P g s now n \<Longrightarrow> now \<le> now' \<Longrightarrow> n \<le> m \<Longrightarrow> guard_rel P g s now' m"
  unfolding guard_rel_def by (meson counter_rel_later order_trans)

lemma length_drop_expired: "length (drop_expired c d) \<le> length d"
  by (simp add: drop_expired_def)

lemma guard_rel_sweep:
  assumes "guard_rel P g s now n" and "n \<le> MAX_TRACKED"
  shows "guard_rel P (maybe_sweep now g) s now n"
proof -
  have "drop_oldest (drop_expired c (attempts g)) = drop_expired c (attempts g)" for c
    using assms length_drop_expired [of c "attempts g"] by (simp add: drop_oldest_def guard_rel_def)
  moreover have "length (drop_expired c (attempts g)) \<le> n" "length (drop_expired c (account_attempts g)) \<le> n" for c
    using assms(1) length_drop_expired order_trans by (fastforce simp: guard_rel_def)+
  ultimately show ?thesis
    using assms(1) by (simp add: guard_rel_def maybe_sweep_def sweep_expired_def Let_def counter_rel_drop_expired)
qed

lemma length_AList_delete_le: "length (AList.delete k d) \<le> length d"
  by (simp add: AList.delete_eq)

lemma length_AList_update_le: "length (AList.update k v d) \<le> Suc (length d)"
  by (simp add: length_AList_update)

lemma failure_refines:
  assumes "guard_rel P g s t n" and "n \<le> MAX_TRACKED"
  shows "Banned (fst (count_failure t k g)) = fst (spec_failure P t k s)"
    and "guard_rel P (snd (count_failure t k g)) (snd (spec_failure P t k s)) t (Suc n)"
proof -
  let ?g = "maybe_sweep t g"
  have r: "guard_rel P ?g s t n" by (rule guard_rel_sweep [OF assms])
  then have c: "counter_rel (window_seconds P) t (attempts ?g) (sp_failures s)" by (simp add: guard_rel_def)
  note app = counter_rel_append [OF c, of k]
  show "Banned (fst (count_failure t k g)) = fst (spec_failure P t k s)"
    using r app(2) by (simp add: count_failure_def spec_failure_def Let_def guard_rel_def)
  show "guard_rel P (snd (count_failure t k g)) (snd (spec_failure P t k s)) t (Suc n)"
    using r app counter_rel_delete [OF c, of k] length_AList_delete_le [of k "attempts ?g"]
      length_AList_update_le [of k "recent t (window_seconds P) (sp_failures s k @ [t])" "attempts ?g"]
    by (auto simp: count_failure_def spec_failure_def Let_def guard_rel_def)
qed

lemma success_refines:
  assumes "guard_rel P g s t n"
  shows "NewSource (fst (count_success t k a g)) = fst (spec_success t k a s)"
    and "guard_rel P (snd (count_success t k a g)) (snd (spec_success t k a s)) t (Suc n)"
proof -
  have c: "counter_rel (window_seconds P) t (AList.delete k (attempts g)) ((sp_failures s)(k := []))"
    "counter_rel (account_window_seconds P) t (AList.delete b (account_attempts g)) ((sp_account s)(b := []))" for b
    using assms by (auto simp: guard_rel_def intro: counter_rel_delete)
  have kn: "map_of (dict_get_or (known g) b []) = sp_known s b" for b using assms by (simp add: guard_rel_def)
  have ne: "dict_get_or (known g) b [] = [] \<longleftrightarrow> sp_known s b = Map.empty" for b
    unfolding kn [symmetric] by simp
  have kn': "map_of (dict_get_or (AList.update b (AList.update k t (dict_get_or (known g) b [])) (known g)) j []) =
      ((sp_known s)(b := (sp_known s b)(k \<mapsto> t))) j" for b j
    by (simp add: dict_get_or_update update_conv' kn)
  have ok: "dict_ok (dict_get_or (AList.update b (AList.update k t (dict_get_or (known g) b [])) (known g)) j [])" for b j
    using assms by (simp add: dict_get_or_update dict_simps guard_rel_def)
  have len: "length (AList.delete j (attempts g)) \<le> Suc n" "length (AList.delete j (account_attempts g)) \<le> Suc n"
    "length (account_attempts g) \<le> Suc n" for j
    using assms length_AList_delete_le [of j "attempts g"] length_AList_delete_le [of j "account_attempts g"]
    by (auto simp: guard_rel_def)
  show "NewSource (fst (count_success t k a g)) = fst (spec_success t k a s)"
    by (cases a) (simp_all add: count_success_def spec_success_def Let_def kn ne)
  show "guard_rel P (snd (count_success t k a g)) (snd (spec_success t k a s)) t (Suc n)"
    using assms c len kn' kn ok
    by (cases a) (simp_all add: count_success_def spec_success_def Let_def guard_rel_def)
qed

lemma account_failure_refines:
  assumes "guard_rel P g s t n" and "n < MAX_TRACKED"
  shows "guard_rel P (record_account_failure t a g) (s\<lparr>sp_account := (sp_account s)(a := sp_account s a @ [t])\<rparr>) t (Suc n)"
proof -
  have c: "counter_rel (account_window_seconds P) t (account_attempts g) (sp_account s)" using assms(1) by (simp add: guard_rel_def)
  note app = counter_rel_append [OF c, of a]
  have "length (AList.update a ts (account_attempts g)) \<le> Suc n" for ts
    using assms(1) length_AList_update_le [of a ts "account_attempts g"] by (simp add: guard_rel_def)
  then show ?thesis
    using assms app(1) by (auto simp: record_account_failure_def guard_rel_def)
qed

lemma query_refines:
  assumes "guard_rel P g s t n"
  shows "fst (locked_for t a k g) = spec_wait P t a k s" and "guard_rel P (snd (locked_for t a k g)) s t (Suc n)"
proof -
  have c: "counter_rel (account_window_seconds P) t (account_attempts g) (sp_account s)" using assms by (simp add: guard_rel_def)
  note pr = counter_rel_prune [OF c, of a]
  have kn: "map_of (dict_get_or (known g) b []) = sp_known s b" for b using assms by (simp add: guard_rel_def)
  have wait: "fst (locked_wait t a g) = (let ts = recent t (account_window_seconds P) (sp_account s a)
      in if length ts < account_max_attempts P then 0 else max 1 \<lfloor>hd ts + account_window_seconds P - t\<rfloor>)"
    using assms pr(2) by (simp add: locked_wait_def Let_def guard_rel_def)
  have rel: "guard_rel P (snd (locked_wait t a g)) s t (Suc n)"
    using assms pr length_AList_update_le [of a "recent t (account_window_seconds P) (sp_account s a)" "account_attempts g"]
    by (auto simp: locked_wait_def Let_def guard_rel_def)
  show "fst (locked_for t a k g) = spec_wait P t a k s"
    using wait by (auto simp: locked_for_def spec_wait_def kn Let_def split: option.split)
  show "guard_rel P (snd (locked_for t a k g)) s t (Suc n)"
    using rel guard_rel_later [OF assms order_refl, of "Suc n"] by (auto simp: locked_for_def split: option.split)
qed

lemma guard_step_refines:
  assumes "guard_rel P g s now n" and "now \<le> event_time e" and "n < MAX_TRACKED"
  shows "fst (guard_step e g) = fst (spec_step P e s)"
    and "guard_rel P (snd (guard_step e g)) (snd (spec_step P e s)) (event_time e) (Suc n)"
proof -
  have r: "guard_rel P g s (event_time e) n" by (rule guard_rel_later [OF assms(1,2) order_refl])
  show "fst (guard_step e g) = fst (spec_step P e s)"
    using r failure_refines(1) success_refines(1) query_refines(1) assms(3)
    by (cases e) (simp_all add: less_imp_le)
  show "guard_rel P (snd (guard_step e g)) (snd (spec_step P e s)) (event_time e) (Suc n)"
    using r failure_refines(2) success_refines(2) query_refines(2) account_failure_refines assms(3)
    by (cases e) (simp_all add: less_imp_le)
qed

lemma guard_answers_refine:
  assumes "guard_rel P g s now n" and "sorted_wrt (\<le>) (now # map event_time es)" and "n + length es \<le> MAX_TRACKED"
  shows "answers guard_step es g = answers (spec_step P) es s"
  using assms
proof (induction es arbitrary: g s now n)
  case (Cons e es)
  have n: "n < MAX_TRACKED" "now \<le> event_time e" using Cons.prems(2,3) by auto
  note step = guard_step_refines [OF Cons.prems(1) n(2) n(1)]
  have "answers guard_step es (snd (guard_step e g)) = answers (spec_step P) es (snd (spec_step P e s))"
    by (rule Cons.IH [OF step(2)]) (use Cons.prems in auto)
  with step(1) show ?case by (simp add: case_prod_beta Let_def)
qed simp

lemma guard_rel_init: "guard_rel (guard_init p) (guard_init p) spec_init now 0"
  by (simp add: guard_rel_def guard_init_def spec_init_def counter_rel_def dict_ok_def dict_get_or_def recent_def)

text \<open>
  C16: for every sequence of sign-in events in time order (failures and successes of any sources,
  failures of any accounts, queries), up to the size of the tables, the guard answers exactly as the
  specification that keeps the whole history: a ban is requested on the failure that makes five
  within five minutes since the last reset of that source, an account is closed to unknown sources
  while it has ten failures within fifteen minutes, and a source is new exactly when the account
  has signed in before but not from there in 90 days.  The sweep of old entries, which happens every
  hundredth failure, is invisible.
\<close>

theorem guard_refines_spec:
  assumes "sorted (map event_time es)" and "length es \<le> MAX_TRACKED"
  shows "answers guard_step es (guard_init p) = answers (spec_step (guard_init p)) es spec_init"
proof (cases es)
  case (Cons e es')
  have "sorted_wrt (\<le>) (event_time e # map event_time es)" using assms(1) Cons by auto
  from guard_answers_refine [OF guard_rel_init this] assms(2) show ?thesis by simp
qed simp

theorem guard_refines_spec_witness:
  "let es = [Failure 0 ''a'', Failure 1 ''a'', Failure 2 ''a'', Failure 3 ''b'', Failure 4 ''a'', Failure 5 ''a'']
   in answers guard_step es (guard_init True) =
      [Banned False, Banned False, Banned False, Banned False, Banned False, Banned True]"
proof -
  let ?es = "[Failure 0 ''a'', Failure 1 ''a'', Failure 2 ''a'', Failure 3 ''b'', Failure 4 ''a'', Failure 5 ''a'']"
  have "answers guard_step ?es (guard_init True) = answers (spec_step (guard_init True)) ?es spec_init"
    by (rule guard_refines_spec) (simp_all add: MAX_TRACKED_def)
  also have "\<dots> = [Banned False, Banned False, Banned False, Banned False, Banned False, Banned True]"
    by (simp add: spec_failure_def spec_init_def guard_init_def recent_def Let_def)
  finally show ?thesis by (simp add: Let_def)
qed

subsection \<open>Restarting the web interface\<close>

primrec final :: "('e \<Rightarrow> 's \<Rightarrow> 'a \<times> 's) \<Rightarrow> 'e list \<Rightarrow> 's \<Rightarrow> 's" where
  "final step [] s = s"
| "final step (e # es) s = final step es (snd (step e s))"

text \<open>What is on disk, as a guard; and a new process that reads it.\<close>

definition disk_guard :: "guard \<Rightarrow> guard" where
  "disk_guard g = (case state_file g of None \<Rightarrow> g\<lparr>attempts := [], account_attempts := [], known := []\<rparr>
     | Some (ips, accounts, sources) \<Rightarrow> g\<lparr>attempts := ips, account_attempts := accounts, known := sources\<rparr>)"

definition restart :: "seconds \<Rightarrow> guard \<Rightarrow> guard" where
  "restart now g = load now ((guard_init True)\<lparr>state_file := state_file g\<rparr>)"

definition fresh_sources :: "seconds \<Rightarrow> guard_spec \<Rightarrow> guard_spec" where
  "fresh_sources now s = s\<lparr>sp_known := (\<lambda>a k. case sp_known s a k of None \<Rightarrow> None
     | Some t \<Rightarrow> if now - t \<le> KNOWN_SOURCE_SECONDS then Some t else None)\<rparr>"

definition persists :: "guard \<Rightarrow> bool" where
  "persists g \<longleftrightarrow> state_path g \<and> disk_writable g"

lemma disk_guard_save:
  "persists g \<Longrightarrow> guard_rel P (disk_guard (save g)) s now n \<longleftrightarrow> guard_rel P (save g) s now n"
  by (simp add: persists_def save_def disk_guard_def guard_rel_def)

lemma persists_step: "persists g \<Longrightarrow> persists (snd (guard_step e g))"
  by (cases e) (auto simp: persists_def count_failure_def count_success_def record_account_failure_def locked_for_def
    locked_wait_def maybe_sweep_def sweep_expired_def save_def Let_def split: option.split)

lemma query_state_file: "disk_guard (snd (locked_for t a k g)) = disk_guard g"
  by (auto simp: locked_for_def locked_wait_def disk_guard_def Let_def split: option.split)

lemma saved_step:
  assumes "persists g" and "guard_rel P g s now n" and "n < MAX_TRACKED" and "\<And>t a k. e \<noteq> Query t a k"
  shows "\<exists>g'. persists g' \<and> snd (guard_step e g) = save g'"
proof (cases e)
  case (Failure t k)
  have "persists ((maybe_sweep t g)\<lparr>attempts := x\<rparr>)" for x
    using assms(1) by (simp add: persists_def maybe_sweep_def sweep_expired_def Let_def)
  then show ?thesis by (auto simp: Failure count_failure_def Let_def)
next
  case (Success t k a)
  have "persists (g\<lparr>attempts := x\<rparr>)" "persists (g\<lparr>attempts := x, account_attempts := y, known := z\<rparr>)" for x y z
    using assms(1) by (simp_all add: persists_def)
  then show ?thesis by (cases a; simp add: Success count_success_def Let_def; blast)
next
  case (AccountFailure t a)
  have "persists (g\<lparr>account_attempts := x\<rparr>)" for x using assms(1) by (simp add: persists_def)
  then show ?thesis using assms(2,3) by (auto simp: AccountFailure record_account_failure_def guard_rel_def)
qed (use assms(4) in simp)

lemma disk_step:
  assumes "persists g" and "guard_rel P g s now n" and "guard_rel P (disk_guard g) s now n"
    and "now \<le> event_time e" and "n < MAX_TRACKED"
  shows "guard_rel P (disk_guard (snd (guard_step e g))) (snd (spec_step P e s)) (event_time e) (Suc n)"
proof (cases "\<exists>t a k. e = Query t a k")
  case True
  with guard_rel_later [OF assms(3,4), of "Suc n"] show ?thesis by (auto simp: query_state_file)
next
  case False
  then obtain g' where "persists g'" "snd (guard_step e g) = save g'" using saved_step [OF assms(1,2,5)] by blast
  with guard_step_refines(2) [OF assms(2,4,5)] disk_guard_save show ?thesis by metis
qed

lemma final_rel:
  assumes "persists g" and "guard_rel P g s now n" and "guard_rel P (disk_guard g) s now n"
    and "sorted_wrt (\<le>) (now # map event_time es)" and "n + length es \<le> MAX_TRACKED"
    and "\<forall>e\<in>set es. event_time e \<le> t" and "now \<le> t"
  shows "guard_rel P (final guard_step es g) (final (spec_step P) es s) t (n + length es) \<and>
    guard_rel P (disk_guard (final guard_step es g)) (final (spec_step P) es s) t (n + length es)"
  using assms
proof (induction es arbitrary: g s now n)
  case Nil
  then show ?case using guard_rel_later by fastforce
next
  case (Cons e es)
  have n: "now \<le> event_time e" "n < MAX_TRACKED" using Cons.prems(4,5) by auto
  have "guard_rel P (final guard_step es (snd (guard_step e g))) (final (spec_step P) es (snd (spec_step P e s))) t (Suc n + length es) \<and>
    guard_rel P (disk_guard (final guard_step es (snd (guard_step e g)))) (final (spec_step P) es (snd (spec_step P e s))) t (Suc n + length es)"
    by (rule Cons.IH [OF persists_step [OF Cons.prems(1)] guard_step_refines(2) [OF Cons.prems(2) n]
      disk_step [OF Cons.prems(1-3) n]]) (use Cons.prems in auto)
  then show ?case by simp
qed

lemma map_of_map_value: "map_of (map (\<lambda>(k, v). (k, f v)) d) k = map_option f (map_of d k)"
  by (induction d) auto

lemma dict_ok_map_value: "dict_ok (map (\<lambda>(k, v). (k, f v)) d) = dict_ok d"
  by (simp add: dict_ok_def case_prod_beta' comp_def)

lemma counter_rel_sort: "counter_rel w now d h \<Longrightarrow> counter_rel w now (map (\<lambda>(k, ts). (k, sort ts)) d) h"
proof -
  assume r: "counter_rel w now d h"
  have "hits (map (\<lambda>(k, ts). (k, sort ts)) d) k = hits d k" for k
    using counter_relD(2) [OF r, of k]
    by (auto simp: dict_get_or_def map_of_map_value sorted_sort_id split: option.split)
  with r show ?thesis by (simp add: counter_rel_def dict_ok_map_value)
qed

lemma sources_load:
  fixes now :: seconds
  assumes "\<forall>a. map_of (dict_get_or d a []) = kn a \<and> dict_ok (dict_get_or d a [])"
  defines "d' \<equiv> map (\<lambda>(a, v). (a, filter (\<lambda>(_, t). now - t \<le> KNOWN_SOURCE_SECONDS) v)) d"
  shows "map_of (dict_get_or d' a []) =
    (\<lambda>k. case kn a k of None \<Rightarrow> None | Some t \<Rightarrow> if now - t \<le> KNOWN_SOURCE_SECONDS then Some t else None) \<and>
    dict_ok (dict_get_or d' a [])"
proof -
  have "dict_get_or d' a [] = filter (\<lambda>(_, t). now - t \<le> KNOWN_SOURCE_SECONDS) (dict_get_or d a [])"
    by (simp add: d'_def dict_get_or_def map_of_map_value split: option.split)
  moreover have "map_of (dict_get_or d a []) = kn a" "dict_ok (dict_get_or d a [])" using assms(1) by auto
  ultimately show ?thesis
    using map_of_filter_value [of "dict_get_or d a []" "\<lambda>t. now - t \<le> KNOWN_SOURCE_SECONDS"]
    by (auto simp: fun_eq_iff dict_ok_filter)
qed

lemma restart_rel:
  assumes "guard_rel (guard_init p) (disk_guard g) s now n" and "n \<le> MAX_TRACKED" and "state_path g"
  shows "guard_rel (guard_init p) (restart now g) (fresh_sources now s) now n"
proof (cases "state_file g")
  case None
  with assms(1) show ?thesis
    by (simp add: restart_def load_def disk_guard_def guard_rel_def guard_init_def fresh_sources_def dict_get_or_def)
next
  case (Some f)
  obtain ips accounts sources where f: "f = (ips, accounts, sources)" by (cases f) auto
  let ?s = "\<lambda>d :: counters. map (\<lambda>(k, ts). (k, sort ts)) d"
  have r: "counter_rel 300 now ips (sp_failures s)" "counter_rel 900 now accounts (sp_account s)"
    "\<forall>a. map_of (dict_get_or sources a []) = sp_known s a \<and> dict_ok (dict_get_or sources a [])"
    "length ips \<le> n" "length accounts \<le> n"
    using assms(1) Some f by (auto simp: disk_guard_def guard_rel_def guard_init_def)
  have "drop_oldest (drop_expired c (?s ips)) = drop_expired c (?s ips)" for c
    using r(4) assms(2) length_drop_expired [of c "?s ips"] by (simp add: drop_oldest_def)
  moreover have "length (drop_expired c (?s ips)) \<le> n" "length (drop_expired c (?s accounts)) \<le> n" for c
    using r(4,5) length_drop_expired [of c "?s ips"] length_drop_expired [of c "?s accounts"] by simp_all
  ultimately show ?thesis
    using counter_rel_drop_expired [OF counter_rel_sort [OF r(1)]] counter_rel_drop_expired [OF counter_rel_sort [OF r(2)]]
      sources_load [OF r(3)]
    by (simp add: restart_def load_def Some f sweep_expired_def guard_rel_def guard_init_def fresh_sources_def)
qed

lemma fresh_sources_answers:
  assumes "\<forall>e\<in>set es. now \<le> event_time e \<and> (\<forall>t k a. e \<noteq> Success t k (Some a))"
    and "sp_failures s' = sp_failures s" "sp_account s' = sp_account s" "sp_known s' = sp_known (fresh_sources now s)"
  shows "answers (spec_step P) es s' = answers (spec_step P) es s"
  using assms
proof (induction es arbitrary: s s')
  case (Cons e es)
  have now: "now \<le> event_time e" "\<And>t k a. e \<noteq> Success t k (Some a)" using Cons.prems(1) by auto
  have wait: "spec_wait P t a k s' = spec_wait P t a k s" if "now \<le> t" for t a k
    using that Cons.prems(3,4) by (auto simp: spec_wait_def fresh_sources_def Let_def split: option.split)
  have "fst (spec_step P e s') = fst (spec_step P e s)"
    using now Cons.prems(2-4) wait by (cases e) (auto simp: spec_failure_def spec_success_def Let_def split: option.split)
  moreover have "answers (spec_step P) es (snd (spec_step P e s')) = answers (spec_step P) es (snd (spec_step P e s))"
    by (rule Cons.IH; use now Cons.prems in \<open>cases e\<close>)
       (auto simp: spec_failure_def spec_success_def fresh_sources_def Let_def split: option.split)
  ultimately show ?case by (simp add: case_prod_beta Let_def)
qed simp

text \<open>
  C17: restarting (or crashing) the web interface resets no counter: a new process that reads the
  state file answers every later failure, account failure and query exactly as the old one would have
  -- also when queries pruned lists in memory after the last write.  This is for a state file that can
  be written, events in the order of their times, at most MAX_TRACKED (5000) of them in all (with
  more, the sweep at the load may drop a source the old process still keeps), and no sign-in that
  succeeds with a user name after the restart (the load drops sources not seen for 90 days, so its
  answer may differ).
\<close>

theorem restart_keeps_counters:
  assumes "sorted (map event_time (before @ after))" and "length (before @ after) \<le> MAX_TRACKED"
    and "\<forall>e\<in>set before. event_time e \<le> now" and "\<forall>e\<in>set after. now \<le> event_time e \<and> (\<forall>t k a. e \<noteq> Success t k (Some a))"
  shows "answers guard_step after (restart now (final guard_step before (guard_init True))) =
    answers guard_step after (final guard_step before (guard_init True))"
proof -
  define g where "g = final guard_step before (guard_init True)"
  let ?P = "guard_init True" and ?s = "final (spec_step (guard_init True)) before spec_init"
  define t0 where "t0 = Min (set (now # map event_time before))"
  have t0: "t0 \<le> now" "\<forall>e\<in>set before. t0 \<le> event_time e" by (auto simp: t0_def)
  have disk: "guard_rel ?P (disk_guard ?P) spec_init t0 0"
    using guard_rel_init [of True t0] by (simp add: disk_guard_def guard_init_def guard_rel_def)
  have "guard_rel ?P g ?s now (length before) \<and> guard_rel ?P (disk_guard g) ?s now (length before)"
    unfolding g_def using final_rel [OF _ guard_rel_init disk, of before now] t0 assms(1-3)
    by (auto simp: persists_def guard_init_def sorted_append)
  then have g: "guard_rel ?P g ?s now (length before)" and d: "guard_rel ?P (disk_guard g) ?s now (length before)" by auto
  have "persists (final guard_step es h)" if "persists h" for es h
    using that by (induction es arbitrary: h) (auto simp: persists_step)
  then have "state_path g" by (simp add: g_def persists_def guard_init_def)
  then have r: "guard_rel ?P (restart now g) (fresh_sources now ?s) now (length before)"
    using restart_rel [OF d] assms(2) by simp
  have times: "sorted_wrt (\<le>) (now # map event_time after)" using assms(1,4) by (auto simp: sorted_append)
  have "answers guard_step after (restart now g) = answers (spec_step ?P) after (fresh_sources now ?s)"
    by (rule guard_answers_refine [OF r times]) (use assms(2) in simp)
  also have "\<dots> = answers (spec_step ?P) after ?s"
    by (rule fresh_sources_answers [of after now]) (use assms(4) in \<open>auto simp: fresh_sources_def\<close>)
  also have "\<dots> = answers guard_step after g"
    by (rule guard_answers_refine [OF g times, symmetric]) (use assms(2) in simp)
  finally show ?thesis by (simp only: g_def)
qed

theorem restart_keeps_counters_witness:
  "answers guard_step [Failure 4 ''a''] (restart 3 (final guard_step [Failure 0 ''a'', AccountFailure 1 ''u''] (guard_init True))) =
   answers guard_step [Failure 4 ''a''] (final guard_step [Failure 0 ''a'', AccountFailure 1 ''u''] (guard_init True))"
  by (rule restart_keeps_counters) (auto simp: MAX_TRACKED_def)

subsection \<open>Known sources\<close>

definition known_since :: "guard \<Rightarrow> string \<Rightarrow> string \<Rightarrow> seconds \<Rightarrow> bool" where
  "known_since g a k t \<longleftrightarrow> (case map_of (dict_get_or (known g) a []) k of None \<Rightarrow> False | Some seen \<Rightarrow> t \<le> seen)"

lemma known_unchanged:
  "known (snd (count_failure t k g)) = known g" "known (record_account_failure t a g) = known g"
  "known (snd (locked_for t a k g)) = known g"
  by (auto simp: count_failure_def maybe_sweep_def sweep_expired_def record_account_failure_def locked_for_def locked_wait_def
    Let_def split: option.split)

lemma known_since_step:
  assumes "known_since g a k t" and "t \<le> event_time e"
  shows "known_since (snd (guard_step e g)) a k t"
proof (cases e)
  case (Success t' k' acc)
  with assms show ?thesis
    by (cases acc) (auto simp: known_since_def count_success_def Let_def dict_get_or_update dict_simps split: option.splits)
qed (use assms known_unchanged in \<open>simp_all add: known_since_def\<close>)

lemma known_since_final:
  "known_since g a k t \<Longrightarrow> \<forall>e\<in>set es. t \<le> event_time e \<Longrightarrow> known_since (final guard_step es g) a k t"
  by (induction es arbitrary: g) (auto simp: known_since_step)

text \<open>
  C18: nobody can lock the owner out of an account: from a source that signed in to it, the account
  is open for 90 days, whatever failures for it are recorded in the meantime, from wherever and
  however many.
\<close>

theorem known_source_not_locked:
  assumes "\<forall>e\<in>set es. t \<le> event_time e" and "now - t \<le> KNOWN_SOURCE_SECONDS"
  shows "fst (locked_for now a k (final guard_step es (snd (count_success t k (Some a) g)))) = 0"
proof -
  have "known_since (snd (count_success t k (Some a) g)) a k t"
    by (simp add: known_since_def count_success_def Let_def dict_get_or_update dict_simps)
  from known_since_final [OF this assms(1)] assms(2) show ?thesis
    by (auto simp: known_since_def locked_for_def split: option.splits)
qed

theorem known_source_not_locked_witness:
  "fst (locked_for 100 ''admin'' ''192.0.2.1'' (final guard_step (replicate 50 (AccountFailure 1 ''admin''))
     (snd (count_success 0 ''192.0.2.1'' (Some ''admin'') (guard_init True))))) = 0"
  by (rule known_source_not_locked) (auto simp: KNOWN_SOURCE_SECONDS_def)

text \<open>
  A restart does forget sources older than 90 days, and with them that the account signed in
  before: the first sign-in from another address then is not reported as new.
\<close>

lemma restart_forgets_old_sources:
  "let g = snd (count_success 0 ''192.0.2.1'' (Some ''admin'') (guard_init True)); now = KNOWN_SOURCE_SECONDS + 1
   in fst (count_success now ''198.51.100.7'' (Some ''admin'') g) = True \<and>
      fst (count_success now ''198.51.100.7'' (Some ''admin'') (restart now g)) = False"
  by (simp add: Let_def count_success_def guard_init_def dict_get_or_def save_def restart_def load_def sweep_expired_def
    drop_expired_def drop_oldest_def)

end
