(* ===== verification/Transaction.thy ===== *)
theory Transaction
  imports Config_Schema "HOL-Library.Sublist"
begin

text \<open>
  One apply, one transaction: the undo journal and the saved states of
  \<open>src/src/frfw/transaction.py\<close>, and the run of the steps of \<open>src/src/frfw/provision.py\<close>
  (\<open>_Run.begin\<close>, \<open>_Run.run\<close>, the order of \<open>_steps\<close>).

  A step of an apply is code of another module that changes the system and may fail half-way; here it
  is any function on the state of the system that returns an error or messages, together with the
  undo it records from the state it finds.  The system the saved states describe has files, units and
  network devices; \<open>ip\<close> and \<open>systemctl\<close> are the commands on it.
\<close>

subsection \<open>The journal (transaction.py)\<close>

type_synonym 's undo = "'s \<Rightarrow> string option \<times> 's"

record 's entry =
  entry_name :: string
  entry_undo :: "'s undo option"
  entry_why_not :: string

type_synonym 's journal = "'s entry list"

definition journal_begin :: "string \<Rightarrow> 's undo option \<Rightarrow> string \<Rightarrow> 's journal \<Rightarrow> 's journal" where
  "journal_begin name undo why_not j = j @ [\<lparr>entry_name = name, entry_undo = undo, entry_why_not = why_not\<rparr>]"

text \<open>
  The loop of \<open>roll_back\<close>, on the entries from last to first: (rolled back, not rolled back with the
  reason, system).
\<close>

definition reason :: "string \<Rightarrow> string \<Rightarrow> string" where
  "reason name why = name @ '' ('' @ why @ '')''"

fun undo_entries :: "'s entry list \<Rightarrow> 's \<Rightarrow> string list \<times> string list \<times> 's" where
  "undo_entries [] s = ([], [], s)"
| "undo_entries (e # es) s =
     (case entry_undo e of
        None \<Rightarrow> (let (done, failed, s') = undo_entries es s in (done, reason (entry_name e) (entry_why_not e) # failed, s'))
      | Some undo \<Rightarrow>
         (case undo s of
            (Some err, s1) \<Rightarrow> (let (done, failed, s') = undo_entries es s1 in (done, reason (entry_name e) err # failed, s'))
          | (None, s1) \<Rightarrow> (let (done, failed, s') = undo_entries es s1 in (entry_name e # done, failed, s'))))"

definition roll_back :: "'s journal \<Rightarrow> 's \<Rightarrow> string list \<times> string list \<times> 's" where
  "roll_back j s = undo_entries (rev j) s"

record apply_error =
  err_step :: string
  err_cause :: string
  err_changed :: bool
  err_rolled_back :: "string list"
  err_not_rolled_back :: "string list"

definition describe_error :: "apply_error \<Rightarrow> string" where
  "describe_error e =
     (if \<not> err_changed e
      then ''Nothing was applied -- '' @ err_step e @ '': '' @ err_cause e @ ''. The running system is unchanged.''
      else ''Apply failed at '' @ err_step e @ '': '' @ err_cause e @ ''.''
        @ (if err_rolled_back e \<noteq> [] then '' Rolled back to the previous state: '' @ py_join '', '' (err_rolled_back e) @ ''.'' else [])
        @ (if err_not_rolled_back e \<noteq> [] then '' NOT rolled back: '' @ py_join ''; '' (err_not_rolled_back e) @ ''.''
           else '' Nothing else was changed.''))"

subsection \<open>The run of the steps (provision.py)\<close>

text \<open>
  \<open>step_undo\<close> is what the step captures before it changes anything: an undo, or none and why.  A
  step that is not journalled (the last one) has \<open>journalled\<close> false.
\<close>

record 's step =
  step_name :: string
  journalled :: bool
  step_undo :: "'s \<Rightarrow> 's undo option \<times> string"
  step_do :: "'s \<Rightarrow> (string, string list) result \<times> 's"

fun run_steps :: "'s step list \<Rightarrow> bool \<Rightarrow> 's journal \<Rightarrow> string list \<Rightarrow> 's \<Rightarrow> (apply_error, string list) result \<times> 's" where
  "run_steps [] changed j msgs s = (Inr msgs, s)"
| "run_steps (st # sts) changed j msgs s =
     (let j' = (if journalled st then (case step_undo st s of (u, w) \<Rightarrow> journal_begin (step_name st) u w j) else j);
          changed' = (changed \<or> journalled st)
      in case step_do st s of
           (Inr ms, s1) \<Rightarrow> run_steps sts changed' j' (msgs @ ms) s1
         | (Inl cause, s1) \<Rightarrow>
             (case roll_back j' s1 of (done, failed, s2) \<Rightarrow>
               (Inl \<lparr>err_step = step_name st, err_cause = cause, err_changed = changed',
                     err_rolled_back = done, err_not_rolled_back = failed\<rparr>, s2)))"

text \<open>The checks before anything changes: the first that fails stops the apply.\<close>

fun preflight :: "(string \<times> ('s \<Rightarrow> string option)) list \<Rightarrow> 's \<Rightarrow> apply_error option" where
  "preflight [] s = None"
| "preflight ((step, check) # cs) s =
     (case check s of None \<Rightarrow> preflight cs s
      | Some exc \<Rightarrow> Some \<lparr>err_step = step, err_cause = exc, err_changed = False, err_rolled_back = [], err_not_rolled_back = []\<rparr>)"

text \<open>
  \<open>apply_all\<close>, transactional: preflight, the reading of the live sets (\<open>read_sets\<close>, an error of which
  also stops it before anything changed), the steps; on success the applied text is recorded.
\<close>

definition apply_all :: "(string \<times> ('s \<Rightarrow> string option)) list \<Rightarrow> ('s \<Rightarrow> string option) \<Rightarrow> 's step list \<Rightarrow>
    ('s \<Rightarrow> 's) \<Rightarrow> 's \<Rightarrow> (apply_error, string list) result \<times> 's" where
  "apply_all checks read_sets steps record_applied s =
     (case preflight checks s of Some e \<Rightarrow> (Inl e, s)
      | None \<Rightarrow>
         (case read_sets s of
            Some exc \<Rightarrow> (Inl \<lparr>err_step = ''reading the firewall's live sets'', err_cause = exc, err_changed = False,
                             err_rolled_back = [], err_not_rolled_back = []\<rparr>, s)
          | None \<Rightarrow> (case run_steps steps False [] [] s of
               (Inr msgs, s1) \<Rightarrow> (Inr msgs, record_applied s1)
             | (Inl e, s1) \<Rightarrow> (Inl e, s1))))"

subsection \<open>Saved states (transaction.py)\<close>

record file_info =
  f_content :: string
  f_mode :: nat
  f_uid :: nat
  f_gid :: nat

record link_info =
  l_up :: bool
  l_addresses :: "string set"

text \<open>A unit is active or not, or \<open>systemctl\<close> cannot tell (no entry).\<close>

record system =
  sys_files :: "string \<rightharpoonup> file_info"
  sys_units :: "string \<rightharpoonup> bool"
  sys_links :: "string \<rightharpoonup> link_info"

record file_state =
  fs_path :: string
  fs_file :: "file_info option"

definition file_capture :: "string \<Rightarrow> system \<Rightarrow> file_state" where
  "file_capture path s = \<lparr>fs_path = path, fs_file = sys_files s path\<rparr>"

definition file_differs :: "file_state \<Rightarrow> system \<Rightarrow> bool" where
  "file_differs fs s \<longleftrightarrow> file_capture (fs_path fs) s \<noteq> fs"

definition file_restore :: "file_state \<Rightarrow> system \<Rightarrow> system" where
  "file_restore fs s = s\<lparr>sys_files := (sys_files s)(fs_path fs := fs_file fs)\<rparr>"

record service_state =
  ss_unit :: string
  ss_active :: "bool option"

definition service_capture :: "string \<Rightarrow> system \<Rightarrow> service_state" where
  "service_capture unit s = \<lparr>ss_unit = unit, ss_active = sys_units s unit\<rparr>"

text \<open>
  \<open>systemctl\<close> start, restart and stop; \<open>fails\<close> is whether the command returns an error (the unit then
  stays as it is).
\<close>

definition systemctl :: "(string \<Rightarrow> string \<Rightarrow> bool) \<Rightarrow> string \<Rightarrow> string \<Rightarrow> system \<Rightarrow> string option \<times> system" where
  "systemctl fails act unit s =
     (if fails act unit then (Some (''systemctl '' @ act @ '' '' @ unit @ '' failed''), s)
      else (None, s\<lparr>sys_units := (sys_units s)(unit \<mapsto> act \<noteq> ''stop'')\<rparr>))"

definition service_restore :: "(string \<Rightarrow> string \<Rightarrow> bool) \<Rightarrow> service_state \<Rightarrow> bool \<Rightarrow> string \<Rightarrow> system \<Rightarrow> string option \<times> system" where
  "service_restore fails ss config_changed how s =
     (case ss_active ss of None \<Rightarrow> (None, s)
      | Some True \<Rightarrow> systemctl fails (if config_changed then how else ''start'') (ss_unit ss) s
      | Some False \<Rightarrow> if ss_active (service_capture (ss_unit ss) s) = Some False then (None, s)
                      else systemctl fails ''stop'' (ss_unit ss) s)"

definition restore_service :: "(string \<Rightarrow> string \<Rightarrow> bool) \<Rightarrow> file_state \<Rightarrow> service_state \<Rightarrow> system undo" where
  "restore_service fails fs ss s = service_restore fails ss (file_differs fs s) ''restart'' (file_restore fs s)"

record link_state =
  ls_device :: string
  ls_link :: "link_info option"

definition link_capture :: "string \<Rightarrow> system \<Rightarrow> link_state" where
  "link_capture d s = \<lparr>ls_device = d, ls_link = sys_links s d\<rparr>"

text \<open>The four \<open>ip\<close> commands a restore runs; each is an error on a device that is not there.\<close>

datatype ip_command = LinkDel | AddrDel string | AddrAdd string | LinkDown

primrec ip_effect :: "ip_command \<Rightarrow> link_info \<Rightarrow> link_info option" where
  "ip_effect LinkDel l = None"
| "ip_effect (AddrDel a) l = Some (l\<lparr>l_addresses := l_addresses l - {a}\<rparr>)"
| "ip_effect (AddrAdd a) l = Some (l\<lparr>l_addresses := insert a (l_addresses l)\<rparr>)"
| "ip_effect LinkDown l = Some (l\<lparr>l_up := False\<rparr>)"

fun ip_commands :: "string \<Rightarrow> ip_command list \<Rightarrow> system undo" where
  "ip_commands d [] s = (None, s)"
| "ip_commands d (c # cs) s =
     (case sys_links s d of None \<Rightarrow> (Some (''Cannot find device '' @ d), s)
      | Some l \<Rightarrow> ip_commands d cs (s\<lparr>sys_links := (sys_links s)(d := ip_effect c l)\<rparr>))"

definition link_plan :: "link_info option \<Rightarrow> link_info option \<Rightarrow> ip_command list" where
  "link_plan was now =
     (case now of None \<Rightarrow> []
      | Some n \<Rightarrow>
         (case was of None \<Rightarrow> [LinkDel]
          | Some w \<Rightarrow> map AddrDel (sorted_list_of_set (l_addresses n - l_addresses w))
                     @ map AddrAdd (sorted_list_of_set (l_addresses w - l_addresses n))
                     @ (if l_up n \<and> \<not> l_up w then [LinkDown] else [])))"

definition link_restore :: "link_state \<Rightarrow> system undo" where
  "link_restore ls s = ip_commands (ls_device ls) (link_plan (ls_link ls) (sys_links s (ls_device ls))) s"

text \<open>\<open>[link.restore() for link in reversed(links)]\<close>: the first error ends it.\<close>

fun restore_links :: "link_state list \<Rightarrow> system undo" where
  "restore_links [] s = (None, s)"
| "restore_links (l # ls) s = (case link_restore l s of (Some e, s1) \<Rightarrow> (Some e, s1) | (None, s1) \<Rightarrow> restore_links ls s1)"

subsection \<open>Which devices and which steps (provision.py)\<close>

definition add_new :: "string \<Rightarrow> string list \<Rightarrow> string list" where
  "add_new d ds = (if d \<in> set ds then ds else ds @ [d])"

definition has_address :: "interface \<Rightarrow> bool" where
  "has_address i \<longleftrightarrow> (case if_address i of None \<Rightarrow> False | Some a \<Rightarrow> a \<noteq> [])"

definition address_devices :: "config \<Rightarrow> config option \<Rightarrow> string list" where
  "address_devices cfg previous =
     (let stale = (case previous of None \<Rightarrow> []
            | Some p \<Rightarrow> fold (\<lambda>(_, i) ds. if has_address i then add_new (if_device i) ds else ds) (interfaces p) []);
          parents = fold (\<lambda>(_, i) ds. if vlan_id i \<noteq> None then (case vlan_parent i of None \<Rightarrow> ds | Some d \<Rightarrow> add_new d ds) else ds)
            (interfaces cfg) stale
      in fold (\<lambda>(_, i) ds. if has_address i \<or> vlan_id i \<noteq> None then add_new (if_device i) ds else ds) (interfaces cfg) parents)"

definition missing_devices :: "(string \<Rightarrow> bool) \<Rightarrow> config \<Rightarrow> string list" where
  "missing_devices device_exists cfg =
     (let named = List.map_filter (\<lambda>(_, i). if vlan_id i \<noteq> None then vlan_parent i
            else if has_address i then Some (if_device i) else None) (interfaces cfg);
          vlans = map (\<lambda>(_, i). if_device i) (filter (\<lambda>(_, i). vlan_id i \<noteq> None) (interfaces cfg));
          filtered = (if xdp_enabled (xdp_sni_filter cfg)
            then filter (\<lambda>d. d \<notin> set vlans)
              (List.map_filter (\<lambda>n. map_option if_device (map_of (interfaces cfg) n)) (xdp_interfaces (xdp_sni_filter cfg)))
            else [])
      in sort (remdups (filter (\<lambda>d. \<not> device_exists d) (named @ filtered))))"

text \<open>The names of the steps of an apply, in order; the last is not journalled.\<close>

definition step_names :: "config \<Rightarrow> bool \<Rightarrow> string list" where
  "step_names cfg ipv6_touched =
     [''the firewall'', ''IPv4 forwarding'', ''WireGuard'', ''interface addresses'']
     @ (if ipv6_touched then [''IPv6''] else [])
     @ (if dhcp_zones cfg \<noteq> [] then [''DHCP (Kea)''] else [])
     @ [''the ad-block DNS resolver'', ''the XDP SNI filter'', ''the webUI's TLS key exchange'', ''SSH key exchange'',
        ''SSH listen addresses'']"

subsection \<open>A failed apply goes back\<close>

text \<open>
  The contract of a step: it is journalled, and the undo it recorded in a state brings the state the
  step leaves behind, finished or not, back to that one.
\<close>

definition undoes :: "'s step \<Rightarrow> 's \<Rightarrow> bool" where
  "undoes st s \<longleftrightarrow> journalled st \<and>
     (case step_undo st s of (None, _) \<Rightarrow> False | (Some u, _) \<Rightarrow> u (snd (step_do st s)) = (None, s))"

locale undoable_steps =
  fixes inv :: "'s \<Rightarrow> bool" and steps :: "'s step set"
  assumes undo: "st \<in> steps \<Longrightarrow> inv s \<Longrightarrow> undoes st s"
    and keeps: "st \<in> steps \<Longrightarrow> inv s \<Longrightarrow> inv (snd (step_do st s))"
begin

lemma rolled_back_entry:
  assumes "st \<in> steps" and "inv s" and "roll_back j s = (ok, failed, s0)"
  shows "roll_back (case step_undo st s of (u, w) \<Rightarrow> journal_begin (step_name st) u w j) (snd (step_do st s)) =
    (step_name st # ok, failed, s0)"
proof -
  obtain u w where "step_undo st s = (Some u, w)" "u (snd (step_do st s)) = (None, s)"
    using undo [OF assms(1,2)] by (auto simp: undoes_def split: prod.splits option.splits)
  with assms(3) show ?thesis by (simp add: roll_back_def journal_begin_def)
qed

lemma failed_run:
  assumes "set sts \<subseteq> steps" and "inv s" and "run_steps sts ch j msgs s = (Inl e, s')" and "roll_back j s = (ok, failed, s0)"
  shows "s' = s0 \<and> err_not_rolled_back e = failed \<and>
    (\<exists>k<length sts. err_step e = step_name (sts ! k) \<and> err_rolled_back e = rev (map step_name (take (Suc k) sts)) @ ok)"
  using assms
proof (induction sts arbitrary: ch j msgs s ok)
  case (Cons st sts)
  let ?j = "case step_undo st s of (u, w) \<Rightarrow> journal_begin (step_name st) u w j"
  have st: "st \<in> steps" "journalled st" using Cons.prems(1,2) undo by (auto simp: undoes_def)
  obtain r s1 where r: "step_do st s = (r, s1)" by fastforce
  then have s1: "inv s1" "roll_back ?j s1 = (step_name st # ok, failed, s0)"
    using keeps [OF st(1) Cons.prems(2)] rolled_back_entry [OF st(1) Cons.prems(2,4)] by auto
  show ?case
  proof (cases r)
    case (Inl cause)
    with Cons.prems(3) st(2) r s1(2) show ?thesis by (auto simp: Let_def intro!: exI [of _ 0])
  next
    case (Inr ms)
    with Cons.prems(3) st(2) r have "run_steps sts True ?j (msgs @ ms) s1 = (Inl e, s')" by (simp add: Let_def)
    from Cons.IH [OF _ s1(1) this s1(2)] Cons.prems(1) obtain k where "s' = s0" "err_not_rolled_back e = failed"
      "k < length sts" "err_step e = step_name (sts ! k)" "err_rolled_back e = rev (map step_name (take (Suc k) sts)) @ step_name st # ok"
      by auto
    then show ?thesis by (auto intro!: exI [of _ "Suc k"])
  qed
qed simp

end

text \<open>
  The steps of provision that are undone from saved states: one that changes a file and its unit
  (DHCP, the resolver), and one that changes network devices (the addresses).  What the step does is
  any function that keeps to its file and unit, or its devices.
\<close>

definition service_step :: "string \<Rightarrow> string \<Rightarrow> string \<Rightarrow> (system \<Rightarrow> (string, string list) result \<times> system) \<Rightarrow> system step" where
  "service_step name path unit act = \<lparr>step_name = name, journalled = True,
     step_undo = (\<lambda>s. (Some (restore_service (\<lambda>_ _. False) (file_capture path s) (service_capture unit s)), [])),
     step_do = act\<rparr>"

definition address_step :: "string \<Rightarrow> string list \<Rightarrow> (system \<Rightarrow> (string, string list) result \<times> system) \<Rightarrow> system step" where
  "address_step name devices act = \<lparr>step_name = name, journalled = True,
     step_undo = (\<lambda>s. (Some (restore_links (rev (map (\<lambda>d. link_capture d s) devices))), [])), step_do = act\<rparr>"

definition finite_links :: "system \<Rightarrow> bool" where
  "finite_links s \<longleftrightarrow> (\<forall>d l. sys_links s d = Some l \<longrightarrow> finite (l_addresses l))"

definition keeps_to_service :: "string \<Rightarrow> string \<Rightarrow> system \<Rightarrow> system \<Rightarrow> bool" where
  "keeps_to_service path unit s s' \<longleftrightarrow> sys_links s' = sys_links s \<and>
     (\<forall>p. p \<noteq> path \<longrightarrow> sys_files s' p = sys_files s p) \<and> (\<forall>u. u \<noteq> unit \<longrightarrow> sys_units s' u = sys_units s u) \<and>
     (sys_units s unit = None \<longleftrightarrow> sys_units s' unit = None)"

definition keeps_to_links :: "string list \<Rightarrow> system \<Rightarrow> system \<Rightarrow> bool" where
  "keeps_to_links devices s s' \<longleftrightarrow> sys_files s' = sys_files s \<and> sys_units s' = sys_units s \<and>
     (\<forall>d. d \<notin> set devices \<longrightarrow> sys_links s' d = sys_links s d) \<and>
     (\<forall>d l. sys_links s d = Some l \<longrightarrow> (\<exists>l'. sys_links s' d = Some l' \<and> (l_up l \<longrightarrow> l_up l')))"

inductive_set system_steps :: "system step set" where
  service: "(\<And>s. keeps_to_service path unit s (snd (act s))) \<Longrightarrow> service_step name path unit act \<in> system_steps"
| addresses: "(\<And>s. finite_links s \<Longrightarrow> keeps_to_links devices s (snd (act s)) \<and> finite_links (snd (act s))) \<Longrightarrow>
    distinct devices \<Longrightarrow> address_step name devices act \<in> system_steps"

lemma restore_service_exact:
  assumes "keeps_to_service path unit s s'"
  shows "restore_service (\<lambda>_ _. False) (file_capture path s) (service_capture unit s) s' = (None, s)"
proof -
  have f: "(sys_files s')(path := sys_files s path) = sys_files s"
    using assms by (auto simp: keeps_to_service_def)
  have u: "(sys_units s')(unit := sys_units s unit) = sys_units s" "sys_links s' = sys_links s"
    "sys_units s unit = None \<longleftrightarrow> sys_units s' unit = None"
    using assms by (auto simp: keeps_to_service_def)
  have eq: "s'\<lparr>sys_files := sys_files s, sys_units := (sys_units s')(unit := v)\<rparr> = s" if "sys_units s unit = v" for v
    using u that by (cases s; cases s') simp
  have idle: "s'\<lparr>sys_files := sys_files s\<rparr> = s" if "sys_units s' unit = sys_units s unit"
  proof -
    have "sys_units s' = sys_units s" using u(1) that by (metis fun_upd_idem)
    with u(2) show ?thesis by (cases s; cases s') simp
  qed
  show ?thesis
  proof (cases "sys_units s unit")
    case None
    with u(3) idle show ?thesis
      by (simp add: restore_service_def file_restore_def file_capture_def service_capture_def service_restore_def f)
  next
    case (Some b)
    show ?thesis
    proof (cases "b = False \<and> sys_units s' unit = Some False")
      case True
      with Some idle show ?thesis
        by (simp add: restore_service_def file_restore_def file_capture_def service_capture_def service_restore_def f)
    next
      case False
      with Some eq [OF Some] show ?thesis
        by (cases b) (simp_all add: restore_service_def file_restore_def file_capture_def service_capture_def service_restore_def
          systemctl_def f)
    qed
  qed
qed

lemma ip_commands_link:
  assumes "sys_links s d = Some l"
  shows "ip_commands d (map AddrDel as @ map AddrAdd bs @ cs) s =
    ip_commands d cs (s\<lparr>sys_links := (sys_links s)(d \<mapsto> l\<lparr>l_addresses := (l_addresses l - set as) \<union> set bs\<rparr>)\<rparr>)"
proof -
  have add: "ip_commands d (map AddrAdd bs @ cs) t =
      ip_commands d cs (t\<lparr>sys_links := (sys_links t)(d \<mapsto> m\<lparr>l_addresses := l_addresses m \<union> set bs\<rparr>)\<rparr>)"
    if "sys_links t d = Some m" for t m
    using that by (induction bs arbitrary: t m) (auto simp: fun_upd_idem)
  show ?thesis
    using assms
  proof (induction as arbitrary: s l)
    case Nil
    with add show ?case by (simp add: fun_upd_def)
  next
    case (Cons a as)
    then show ?case by (simp add: Diff_insert2 [of _ a "set as"] cong: if_cong)
  qed
qed

lemma link_restore_exact:
  assumes "sys_links s' d = now" and "\<And>n. now = Some n \<Longrightarrow> finite (l_addresses n)" and "\<And>w. was = Some w \<Longrightarrow> finite (l_addresses w)"
    and "\<And>w. was = Some w \<Longrightarrow> \<exists>n. now = Some n \<and> (l_up w \<longrightarrow> l_up n)"
  shows "link_restore \<lparr>ls_device = d, ls_link = was\<rparr> s' = (None, s'\<lparr>sys_links := (sys_links s')(d := was)\<rparr>)"
proof (cases was)
  case None
  then show ?thesis using assms(1) by (cases now) (simp_all add: link_restore_def link_plan_def fun_upd_idem)
next
  case (Some w)
  with assms(4) obtain n where n: "now = Some n" "l_up w \<longrightarrow> l_up n" by blast
  have fin: "finite (l_addresses n - l_addresses w)" "finite (l_addresses w - l_addresses n)"
    using assms(2,3) n(1) Some by auto
  have set: "(l_addresses n - (l_addresses n - l_addresses w)) \<union> (l_addresses w - l_addresses n) = l_addresses w" by auto
  show ?thesis
    using n Some assms(1) ip_commands_link [of s' d n "sorted_list_of_set (l_addresses n - l_addresses w)"
        "sorted_list_of_set (l_addresses w - l_addresses n)"] fin set
    by (cases w; cases n) (auto simp: link_restore_def link_plan_def)
qed

lemma restore_links_exact:
  assumes "distinct devices" and "finite_links s" and "finite_links s'"
    and "\<And>d w. sys_links s d = Some w \<Longrightarrow> \<exists>n. sys_links s' d = Some n \<and> (l_up w \<longrightarrow> l_up n)"
  shows "restore_links (map (\<lambda>d. link_capture d s) devices) s' =
    (None, s'\<lparr>sys_links := (\<lambda>d. if d \<in> set devices then sys_links s d else sys_links s' d)\<rparr>)"
  using assms
proof (induction devices arbitrary: s')
  case (Cons d ds)
  let ?t = "s'\<lparr>sys_links := (sys_links s')(d := sys_links s d)\<rparr>"
  have "link_restore (link_capture d s) s' = (None, ?t)"
    unfolding link_capture_def
    by (rule link_restore_exact [OF refl]) (use Cons.prems in \<open>auto simp: finite_links_def\<close>)
  moreover have "restore_links (map (\<lambda>d. link_capture d s) ds) ?t =
      (None, ?t\<lparr>sys_links := (\<lambda>e. if e \<in> set ds then sys_links s e else sys_links ?t e)\<rparr>)"
    by (rule Cons.IH) (use Cons.prems in \<open>auto simp: finite_links_def split: if_splits\<close>)
  ultimately show ?case by (auto simp: fun_eq_iff intro!: arg_cong [where f = "\<lambda>l. s'\<lparr>sys_links := l\<rparr>"])
qed simp

interpretation provision_steps: undoable_steps finite_links system_steps
proof
  fix st s assume st: "st \<in> system_steps" and fin: "finite_links s"
  from st show "undoes st s"
  proof cases
    case (service path unit act name)
    then show ?thesis
      using restore_service_exact [OF service(2)] by (simp add: undoes_def service_step_def)
  next
    case (addresses devices act name)
    let ?s = "snd (act s)"
    have k: "keeps_to_links devices s ?s" "finite_links ?s" using addresses(2) fin by auto
    have "restore_links (map (\<lambda>d. link_capture d s) (rev devices)) ?s =
        (None, ?s\<lparr>sys_links := (\<lambda>d. if d \<in> set (rev devices) then sys_links s d else sys_links ?s d)\<rparr>)"
      by (rule restore_links_exact) (use addresses(3) fin k in \<open>auto simp: keeps_to_links_def\<close>)
    moreover have "?s\<lparr>sys_links := (\<lambda>d. if d \<in> set devices then sys_links s d else sys_links ?s d)\<rparr> = s"
      using k(1) by (cases s; cases ?s) (auto simp: keeps_to_links_def fun_eq_iff)
    ultimately show ?thesis using addresses(1) by (simp add: undoes_def address_step_def rev_map)
  qed
next
  fix st s assume st: "st \<in> system_steps" and fin: "finite_links s"
  from st show "finite_links (snd (step_do st s))"
    by cases (use fin in \<open>auto simp: service_step_def address_step_def keeps_to_service_def finite_links_def\<close>)
qed

text \<open>
  An apply all of whose steps are undone from saved states, with \<open>systemctl\<close> and \<open>ip\<close> that work while
  they are undone, leaves the system exactly as it was when it fails: files, units and network devices
  are what they were, every step begun is reported as rolled back, last first, and nothing as not
  rolled back.
\<close>

lemma failed_apply_restores:
  assumes "set steps \<subseteq> system_steps" and "finite_links s"
    and "apply_all checks read_sets steps record_applied s = (Inl e, s')"
  shows "s' = s \<and> err_not_rolled_back e = [] \<and>
    (err_rolled_back e = [] \<or> (\<exists>k<length steps. err_step e = step_name (steps ! k) \<and>
       err_rolled_back e = rev (map step_name (take (Suc k) steps))))"
proof -
  have "preflight cs s = Some e' \<Longrightarrow> err_not_rolled_back e' = [] \<and> err_rolled_back e' = []" for cs e'
    by (induction cs s rule: preflight.induct) (auto split: option.splits)
  moreover have "s'' = s \<and> err_not_rolled_back e = [] \<and> (\<exists>k<length steps. err_step e = step_name (steps ! k) \<and>
      err_rolled_back e = rev (map step_name (take (Suc k) steps)))" if "run_steps steps False [] [] s = (Inl e, s'')" for s''
    using provision_steps.failed_run [OF assms(1,2) that, of "[]" "[]" s] by (auto simp: roll_back_def)
  ultimately show ?thesis
    using assms(3) by (auto simp: apply_all_def split: option.splits prod.splits sum.splits)
qed

subsection \<open>A failed apply is undone step by step\<close>

text \<open>The outcome of one undo (\<open>None\<close> when it worked, else the reason) and the system after it.\<close>

definition undo_result :: "'s entry \<Rightarrow> 's \<Rightarrow> string option" where
  "undo_result e s = (case entry_undo e of None \<Rightarrow> Some (entry_why_not e) | Some u \<Rightarrow> fst (u s))"

definition undo_one :: "'s entry \<Rightarrow> 's \<Rightarrow> 's" where
  "undo_one e s = (case entry_undo e of None \<Rightarrow> s | Some u \<Rightarrow> snd (u s))"

text \<open>The outcomes of a list of undos, each in the state the ones before it have left.\<close>

definition undo_outcomes :: "'s entry list \<Rightarrow> 's \<Rightarrow> (string \<times> string option) list" where
  "undo_outcomes es s = map (\<lambda>i. (entry_name (es ! i), undo_result (es ! i) (fold undo_one (take i es) s))) [0..<length es]"

lemma undo_outcomes_simps [simp]:
  "undo_outcomes [] s = []"
  "undo_outcomes (e # es) s = (entry_name e, undo_result e s) # undo_outcomes es (undo_one e s)"
  by (simp_all add: undo_outcomes_def upt_conv_Cons map_Suc_upt [symmetric] del: upt_Suc)


text \<open>The state a step finds, and what the steps up to the one that failed have journalled.\<close>

definition state_before :: "'s step list \<Rightarrow> 's \<Rightarrow> nat \<Rightarrow> 's" where
  "state_before steps s i = fold (\<lambda>st. snd \<circ> step_do st) (take i steps) s"



lemma state_before_simps [simp]:
  "state_before steps s 0 = s" "state_before (st # steps) s (Suc i) = state_before steps (snd (step_do st s)) i"
  by (simp_all add: state_before_def)






end
