(* ===== verification/Validate.thy ===== *)
theory Validate
  imports Ip_Address
begin

text \<open>
  The allow-lists every value passes before it reaches a command line (\<open>src/src/frfw/validate.py\<close>),
  and the values of a configuration file.

  \<open>pyval\<close> is what \<open>yaml.safe_load\<close> and a request give: \<open>None\<close>, booleans, integers, text, lists and
  mappings in order; \<open>VOther\<close> is anything else (a float, a date).  Text is of 8-bit characters.  The
  regular expressions are predicates on text; all are anchored at both ends.  An \<open>ArgumentError\<close> keeps
  what it names, not its whole sentence.  \<open>ipv6\<close> is left out: it needs the parser of IPv6 text.
\<close>

subsection \<open>Values\<close>

datatype pyval = VNone | VBool bool | VInt int | VStr string | VList "pyval list" | VDict "(pyval \<times> pyval) list" | VOther string

text \<open>A field of an object, and the items of a list; a field of something that is not an object counts as missing.\<close>

definition json_get :: "pyval \<Rightarrow> string \<Rightarrow> pyval" where
  "json_get v k = (case v of VDict d \<Rightarrow> (case map_of d (VStr k) of Some x \<Rightarrow> x | None \<Rightarrow> VNone) | _ \<Rightarrow> VNone)"

definition json_items :: "pyval \<Rightarrow> pyval list" where
  "json_items v = (case v of VList xs \<Rightarrow> xs | _ \<Rightarrow> [])"

datatype argument_error = ArgumentError string

definition check_text :: "pyval \<Rightarrow> string \<Rightarrow> (argument_error, string) result" where
  "check_text v what = (case v of VStr s \<Rightarrow> Inr s | _ \<Rightarrow> Inl (ArgumentError what))"

definition refuse_unless :: "bool \<Rightarrow> string \<Rightarrow> string \<Rightarrow> (argument_error, string) result" where
  "refuse_unless ok what s = (if ok then Inr s else Inl (ArgumentError what))"

subsection \<open>Patterns\<close>

text \<open>A first character of one class and at most \<open>n\<close> more of another: \<open>[..][..]{0,n}\<close>.\<close>

definition head_tail :: "(char \<Rightarrow> bool) \<Rightarrow> (char \<Rightarrow> bool) \<Rightarrow> nat \<Rightarrow> string \<Rightarrow> bool" where
  "head_tail h t n s = (case s of [] \<Rightarrow> False | c # cs \<Rightarrow> h c \<and> list_all t cs \<and> length cs \<le> n)"

subsection \<open>The validators\<close>

definition ifname_re :: "string \<Rightarrow> bool" where
  "ifname_re = head_tail is_alnum_char (\<lambda>c. is_alnum_char c \<or> c \<in> set ''_.-'') 14"

definition unit_re :: "string \<Rightarrow> bool" where
  "unit_re = head_tail is_alnum_char (\<lambda>c. is_alnum_char c \<or> c \<in> set '':_.@-'') 254"

definition digits_1_6 :: "string \<Rightarrow> bool" where
  "digits_1_6 s \<longleftrightarrow> s \<noteq> [] \<and> length s \<le> 6 \<and> list_all is_digit s"

text \<open>The digits of a text of 8-bit characters; Python's \<open>\d\<close> also takes the decimal digits of other scripts, which no such text holds.\<close>

definition version_re :: "string \<Rightarrow> bool" where
  "version_re s =
     (let t = (case s of c # cs \<Rightarrow> if c = CHR ''v'' then cs else s | [] \<Rightarrow> s); ps = split_on CHR ''.'' t
      in length ps = 3 \<and> list_all digits_1_6 ps)"

definition repo_re :: "string \<Rightarrow> bool" where
  "repo_re s =
     (case split_on CHR ''/'' s of
        [owner, name] \<Rightarrow> head_tail is_alnum_char (\<lambda>c. is_alnum_char c \<or> c = CHR ''-'') 38 owner
          \<and> head_tail (\<lambda>c. is_alnum_char c \<or> c = CHR ''_'') (\<lambda>c. is_alnum_char c \<or> c \<in> set ''._-'') 99 name
      | _ \<Rightarrow> False)"

definition block_device_re :: "string \<Rightarrow> bool" where
  "block_device_re s \<longleftrightarrow> take 5 s = ''/dev/''
     \<and> head_tail is_alnum_char (\<lambda>c. is_alnum_char c \<or> c \<in> set ''_-'') 62 (drop 5 s)"

definition host_label_re :: "string \<Rightarrow> bool" where
  "host_label_re s \<longleftrightarrow> s \<noteq> [] \<and> length s \<le> 63 \<and> list_all (\<lambda>c. is_alnum_char c \<or> c = CHR ''-'') s
     \<and> hd s \<noteq> CHR ''-'' \<and> last s \<noteq> CHR ''-''"

definition mac_re :: "string \<Rightarrow> bool" where
  "mac_re s = (let ps = split_on CHR '':'' s in length ps = 6 \<and> list_all (\<lambda>p. length p = 2 \<and> list_all is_hex_lower p) ps)"

fun contains_dotdot :: "string \<Rightarrow> bool" where
  "contains_dotdot (a # b # s) \<longleftrightarrow> a = CHR ''.'' \<and> b = CHR ''.'' \<or> contains_dotdot (b # s)"
| "contains_dotdot _ \<longleftrightarrow> False"

definition SYSTEMCTL_ACTIONS :: "string list" where
  "SYSTEMCTL_ACTIONS = [''start'', ''stop'', ''restart'', ''reload'', ''try-restart'', ''try-reload-or-restart'',
     ''reload-or-restart'', ''enable'', ''disable'', ''is-active'', ''is-enabled'']"

definition ifname :: "pyval \<Rightarrow> (argument_error, string) result" where
  "ifname v = bind_result (check_text v ''interface name'') (\<lambda>s.
     refuse_unless (ifname_re s \<and> s \<noteq> ''.'' \<and> s \<noteq> ''..'') ''interface name'' s)"

text \<open>\<open>IPv4Address(text)\<close>: four decimal octets, without leading zeros.\<close>

fun read_digits :: "nat \<Rightarrow> string \<Rightarrow> nat" where
  "read_digits n [] = n"
| "read_digits n (c # s) = read_digits (10 * n + (of_char c - 48)) s"

definition octet_of :: "string \<Rightarrow> int option" where
  "octet_of s =
     (if s = [] \<or> \<not> list_all is_digit s \<or> length s > 3 \<or> (s \<noteq> ''0'' \<and> hd s = CHR ''0'') then None
      else let n = read_digits 0 s in if n > 255 then None else Some (int n))"

definition ipv4_address :: "string \<Rightarrow> int option" where
  "ipv4_address s =
     (case map octet_of (split_on CHR ''.'' s) of
        [Some a, Some b, Some c, Some d] \<Rightarrow> Some (a * 2 ^ 24 + b * 2 ^ 16 + c * 2 ^ 8 + d)
      | _ \<Rightarrow> None)"

definition validate_ipv4 :: "pyval \<Rightarrow> (argument_error, string) result" where
  "validate_ipv4 v = bind_result (check_text v ''IPv4 address'') (\<lambda>s.
     refuse_unless (case ipv4_address s of None \<Rightarrow> False | Some x \<Rightarrow> show_ipv4 x = s) ''IPv4 address'' s)"

definition validate_mac :: "pyval \<Rightarrow> (argument_error, string) result" where
  "validate_mac v = bind_result (check_text v ''MAC address'') (\<lambda>s. refuse_unless (mac_re (lower s)) ''MAC address'' (lower s))"

definition systemd_unit :: "pyval \<Rightarrow> (argument_error, string) result" where
  "systemd_unit v = bind_result (check_text v ''systemd unit'') (\<lambda>s. refuse_unless (unit_re s) ''systemd unit'' s)"

definition systemctl_action :: "pyval \<Rightarrow> (argument_error, string) result" where
  "systemctl_action v = bind_result (check_text v ''systemctl action'') (\<lambda>s.
     refuse_unless (s \<in> set SYSTEMCTL_ACTIONS) ''systemctl action'' s)"

definition validate_version :: "pyval \<Rightarrow> (argument_error, string) result" where
  "validate_version v = bind_result (check_text v ''version'') (\<lambda>s. refuse_unless (version_re s) ''version'' s)"

definition github_repo :: "pyval \<Rightarrow> (argument_error, string) result" where
  "github_repo v = bind_result (check_text v ''repository'') (\<lambda>s.
     refuse_unless (repo_re s \<and> \<not> contains_dotdot s) ''repository'' s)"

definition block_device :: "pyval \<Rightarrow> (argument_error, string) result" where
  "block_device v = bind_result (check_text v ''block device'') (\<lambda>s. refuse_unless (block_device_re s) ''block device'' s)"

definition hostname :: "pyval \<Rightarrow> (argument_error, string) result" where
  "hostname v = bind_result (check_text v ''hostname'') (\<lambda>s.
     refuse_unless (s \<noteq> [] \<and> length s \<le> 253 \<and> list_all host_label_re (split_on CHR ''.'' s)) ''hostname'' s)"

text \<open>The loop of \<open>nft_argv\<close>: the leading options and the rest.\<close>

fun leading_options :: "string list \<Rightarrow> string list \<times> string list" where
  "leading_options [] = ([], [])"
| "leading_options (a # rest) =
     (if a \<noteq> [] \<and> hd a = CHR ''-'' \<and> a \<noteq> ''-''
      then (if a = ''-f'' \<and> rest \<noteq> []
            then (let (os, r) = leading_options (tl rest) in (a # hd rest # os, r))
            else (let (os, r) = leading_options rest in (a # os, r)))
      else ([], a # rest))"

definition nft_argv :: "string list \<Rightarrow> string list" where
  "nft_argv args = (let (options, rest) = leading_options args in ''nft'' # options @ (if rest \<noteq> [] then ''--'' # rest else []))"

subsection \<open>What passes is an argument\<close>

definition plain_char :: "char \<Rightarrow> bool" where
  "plain_char c \<longleftrightarrow> is_alnum_char c \<or> c \<in> set ''_.-:@/''"

definition safe_argument :: "string \<Rightarrow> bool" where
  "safe_argument s \<longleftrightarrow> s \<noteq> [] \<and> hd s \<noteq> CHR ''-'' \<and> list_all plain_char s"

lemma alnum_not_dash [simp]: "\<not> is_alnum_char CHR ''-''"
  by (simp add: is_alnum_char_def is_digit_def is_lower_def is_upper_def in_range_def)

lemma alnum_classes [intro]: "is_digit c \<Longrightarrow> is_alnum_char c" "is_hex_lower c \<Longrightarrow> is_alnum_char c"
  by (auto simp: is_alnum_char_def is_digit_def is_lower_def is_hex_lower_def in_range_def)

lemma plain_seps [simp]: "plain_char CHR ''.''" "plain_char CHR '':''" "plain_char CHR ''/''"
  by (simp_all add: plain_char_def)

lemma plain_alnum: "is_alnum_char c \<Longrightarrow> plain_char c"
  by (simp add: plain_char_def)

lemma head_tail_safe:
  "head_tail h t n s \<Longrightarrow> (\<And>c. h c \<Longrightarrow> plain_char c \<and> c \<noteq> CHR ''-'') \<Longrightarrow> (\<And>c. t c \<Longrightarrow> plain_char c) \<Longrightarrow> safe_argument s"
  by (cases s) (auto simp: head_tail_def safe_argument_def list_all_iff)

text \<open>Text that splits into safe parts is safe.\<close>

lemma split_safe:
  assumes "plain_char sep" and "list_all safe_argument (split_on sep s)"
  shows "safe_argument s"
proof -
  obtain p ps where ps: "split_on sep s = p # ps" by (cases "split_on sep s") auto
  then have p: "safe_argument p" using assms(2) by simp
  then have "s \<noteq> []" "hd s = hd p" using split_on_hd [OF ps] by (auto simp: safe_argument_def)
  moreover have "plain_char c" if "c \<in> set s" for c
    using split_on_chars [OF that, of sep] assms by (auto simp: safe_argument_def list_all_iff)
  ultimately show ?thesis using p by (simp add: safe_argument_def list_all_iff)
qed

lemma alnums_safe: "s \<noteq> [] \<Longrightarrow> list_all is_alnum_char s \<Longrightarrow> safe_argument s"
  by (cases s) (auto simp: safe_argument_def plain_alnum list_all_iff)

lemma digits_safe: "s \<noteq> [] \<Longrightarrow> list_all is_digit s \<Longrightarrow> safe_argument s"
  by (rule alnums_safe) (auto simp: list_all_iff)

lemma ifname_safe: "ifname_re s \<Longrightarrow> safe_argument s"
  unfolding ifname_re_def by (erule head_tail_safe) (auto simp: plain_char_def)

lemma unit_safe: "unit_re s \<Longrightarrow> safe_argument s"
  unfolding unit_re_def by (erule head_tail_safe) (auto simp: plain_char_def)

lemma block_device_safe: "block_device_re s \<Longrightarrow> safe_argument s"
proof -
  assume s: "block_device_re s"
  then have "safe_argument (drop 5 s)"
    unfolding block_device_re_def by (elim conjE head_tail_safe) (auto simp: plain_char_def)
  moreover obtain t where "s = ''/dev/'' @ t" "drop 5 s = t" using s by (metis append_take_drop_id block_device_re_def)
  ultimately show ?thesis
    by (simp add: safe_argument_def plain_char_def is_alnum_char_def is_digit_def is_lower_def is_upper_def in_range_def)
qed

lemma version_safe: "version_re s \<Longrightarrow> safe_argument s"
proof -
  assume v: "version_re s"
  have dots: "safe_argument t" if "length (split_on CHR ''.'' t) = 3" "list_all digits_1_6 (split_on CHR ''.'' t)" for t
    by (rule split_safe [where sep = "CHR ''.''"]) (use that digits_safe in \<open>auto simp: digits_1_6_def list_all_iff\<close>)
  show ?thesis
  proof (cases s)
    case Nil
    with v show ?thesis by (simp add: version_re_def)
  next
    case (Cons c cs)
    show ?thesis
    proof (cases "c = CHR ''v''")
      case True
      then have "safe_argument cs" using v Cons dots by (simp add: version_re_def Let_def)
      then show ?thesis
        by (simp add: Cons True safe_argument_def plain_char_def is_alnum_char_def is_digit_def is_lower_def is_upper_def in_range_def)
    next
      case False
      then show ?thesis using v Cons dots by (simp add: version_re_def Let_def)
    qed
  qed
qed

lemma repo_safe: "repo_re s \<Longrightarrow> safe_argument s"
proof -
  assume r: "repo_re s"
  then obtain owner name where ps: "split_on CHR ''/'' s = [owner, name]"
    and o: "head_tail is_alnum_char (\<lambda>c. is_alnum_char c \<or> c = CHR ''-'') 38 owner"
    and n: "head_tail (\<lambda>c. is_alnum_char c \<or> c = CHR ''_'') (\<lambda>c. is_alnum_char c \<or> c \<in> set ''._-'') 99 name"
    by (auto simp: repo_re_def split: list.splits)
  have "safe_argument owner" using o by (rule head_tail_safe) (auto simp: plain_char_def)
  moreover have "safe_argument name" using n by (rule head_tail_safe) (auto simp: plain_char_def)
  ultimately show ?thesis by (intro split_safe [where sep = "CHR ''/''"]) (simp_all add: ps)
qed

lemma host_label_safe: "host_label_re s \<Longrightarrow> safe_argument s"
  by (auto simp: host_label_re_def safe_argument_def plain_char_def list_all_iff)

lemma hostname_safe: "list_all host_label_re (split_on CHR ''.'' s) \<Longrightarrow> safe_argument s"
  by (rule split_safe [where sep = "CHR ''.''"]) (auto simp: list_all_iff host_label_safe)

lemma mac_safe: "mac_re s \<Longrightarrow> safe_argument s"
proof -
  assume m: "mac_re s"
  have "safe_argument q" if "length q = 2" "list_all is_hex_lower q" for q
    by (rule alnums_safe) (use that in \<open>auto simp: list_all_iff\<close>)
  with m show ?thesis by (intro split_safe [where sep = "CHR '':''"]) (auto simp: mac_re_def Let_def list_all_iff)
qed

lemma ipv4_address_safe: "ipv4_address s \<noteq> None \<Longrightarrow> safe_argument s"
proof -
  assume a: "ipv4_address s \<noteq> None"
  have "octet_of q \<noteq> None" if "q \<in> set (split_on CHR ''.'' s)" for q
  proof -
    from a obtain w x y z where "map octet_of (split_on CHR ''.'' s) = [Some w, Some x, Some y, Some z]"
      by (auto simp: ipv4_address_def split: list.splits option.splits)
    then have "octet_of ` set (split_on CHR ''.'' s) = {Some w, Some x, Some y, Some z}" by (metis list.set_map list.simps(15) set_simps(1))
    then show ?thesis using that by auto
  qed
  moreover have "safe_argument q" if "octet_of q \<noteq> None" for q
    by (rule digits_safe) (use that in \<open>auto simp: octet_of_def split: if_splits\<close>)
  ultimately show ?thesis by (intro split_safe [where sep = "CHR ''.''"]) (auto simp: list_all_iff)
qed

lemma systemctl_safe: "s \<in> set SYSTEMCTL_ACTIONS \<Longrightarrow> safe_argument s"
  by (auto simp: SYSTEMCTL_ACTIONS_def safe_argument_def plain_char_def is_alnum_char_def is_digit_def is_lower_def is_upper_def in_range_def)

lemmas validator_defs = ifname_def validate_ipv4_def validate_mac_def systemd_unit_def systemctl_action_def validate_version_def
  github_repo_def block_device_def hostname_def refuse_unless_def

text \<open>Everything that is not a leading option of the caller's own stands behind \<open>--\<close>.\<close>

lemma nft_argv_guarded:
  "\<exists>options rest. args = options @ rest \<and> nft_argv args = ''nft'' # options @ (if rest \<noteq> [] then ''--'' # rest else [])
     \<and> (rest = [] \<or> hd rest = ''-'' \<or> hd rest = [] \<or> hd (hd rest) \<noteq> CHR ''-'')"
proof -
  have "args = fst (leading_options args) @ snd (leading_options args) \<and>
      (let rest = snd (leading_options args) in rest = [] \<or> hd rest = ''-'' \<or> hd rest = [] \<or> hd (hd rest) \<noteq> CHR ''-'')"
    by (induction args rule: leading_options.induct) (auto simp: Let_def case_prod_beta)
  then show ?thesis
    by (intro exI [of _ "fst (leading_options args)"] exI [of _ "snd (leading_options args)"]) (simp add: nft_argv_def case_prod_beta Let_def)
qed

end
