(* ===== verification/App_Id.thy ===== *)
theory App_Id
  imports Prelude
begin

text \<open>
  Applications by name (\<open>src/src/frfw/appid/__init__.py\<close>): the catalog of per-application domains, the
  matcher that attributes a host name to an application, and the names that block one.

  The catalog is a value; reading it from its file is left out, and with it \<open>parse_catalog\<close>.  The
  matcher is compared with what its tables mean (an exact name first, then the longest suffix of whole
  labels), and with blocking: the resolver, which blocks a name and everything below it, blocks every
  name the matcher attributes to a blocked application.
\<close>

record app_signature =
  app_id :: string
  app_name :: string
  app_category :: string
  app_domains :: "string list"
  app_exact :: "string list"

type_synonym catalog = "app_signature list"

definition all_names :: "app_signature \<Rightarrow> string list" where
  "all_names a = app_domains a @ app_exact a"

definition by_id :: "catalog \<Rightarrow> (string, app_signature) dict" where
  "by_id cat = fold (\<lambda>a. AList.update (app_id a) a) cat []"

definition known_app_ids :: "catalog \<Rightarrow> string list" where
  "known_app_ids cat = map fst (by_id cat)"

subsection \<open>The matcher\<close>

definition setdefault :: "'k \<Rightarrow> 'v \<Rightarrow> ('k, 'v) dict \<Rightarrow> ('k, 'v) dict" where
  "setdefault k v d = (if map_of d k = None then d @ [(k, v)] else d)"

record app_matcher =
  m_exact :: "(string, string) dict"
  m_suffix :: "(string, string) dict"

definition add_app :: "app_signature \<Rightarrow> app_matcher \<Rightarrow> app_matcher" where
  "add_app a m = \<lparr>m_exact = fold (\<lambda>n. setdefault n (app_id a)) (app_exact a) (m_exact m),
     m_suffix = fold (\<lambda>n. setdefault n (app_id a)) (app_domains a) (m_suffix m)\<rparr>"

definition app_matcher_of :: "catalog \<Rightarrow> app_matcher" where
  "app_matcher_of cat = fold add_app cat \<lparr>m_exact = [], m_suffix = []\<rparr>"

fun match_suffix :: "(string, string) dict \<Rightarrow> string list \<Rightarrow> string option" where
  "match_suffix d [] = None"
| "match_suffix d (l # ls) = (case map_of d (py_join ''.'' (l # ls)) of Some a \<Rightarrow> Some a | None \<Rightarrow> match_suffix d ls)"

definition match_app :: "app_matcher \<Rightarrow> string \<Rightarrow> string option" where
  "match_app m hostname =
     (let name = lower (rstrip_dots (strip hostname))
      in if name = [] then None
         else case map_of (m_exact m) name of Some a \<Rightarrow> Some a
           | None \<Rightarrow> match_suffix (m_suffix m) (split_on CHR ''.'' name))"

definition blocking_names :: "string list \<Rightarrow> catalog \<Rightarrow> string list" where
  "blocking_names ids cat =
     sort (remdups (concat (map (\<lambda>i. case map_of (by_id cat) i of None \<Rightarrow> [] | Some a \<Rightarrow> all_names a) ids)))"

subsection \<open>What the tables hold\<close>

lemma map_of_setdefault: "map_of (setdefault k v d) x = (if x = k \<and> map_of d k = None then Some v else map_of d x)"
  by (auto simp: setdefault_def map_add_def split: option.split)

lemma fold_setdefault:
  "map_of (fold (\<lambda>n. setdefault n v) ns d) x = (if map_of d x = None \<and> x \<in> set ns then Some v else map_of d x)"
  by (induction ns arbitrary: d) (auto simp: map_of_setdefault)

lemma matcher_tables:
  "map_of (m_exact (fold add_app cat m)) x = (case map_of (m_exact m) x of Some i \<Rightarrow> Some i
     | None \<Rightarrow> map_option app_id (find (\<lambda>a. x \<in> set (app_exact a)) cat))"
  "map_of (m_suffix (fold add_app cat m)) x = (case map_of (m_suffix m) x of Some i \<Rightarrow> Some i
     | None \<Rightarrow> map_option app_id (find (\<lambda>a. x \<in> set (app_domains a)) cat))"
  by (induction cat arbitrary: m) (auto simp: add_app_def fold_setdefault split: option.split)

lemmas exact_table = matcher_tables(1) [where m = "\<lparr>m_exact = [], m_suffix = []\<rparr>", folded app_matcher_of_def, simplified]
  and suffix_table = matcher_tables(2) [where m = "\<lparr>m_exact = [], m_suffix = []\<rparr>", folded app_matcher_of_def, simplified]

lemma by_id_lookup: "distinct (map app_id cat) \<Longrightarrow> a \<in> set cat \<Longrightarrow> map_of (by_id cat) (app_id a) = Some a"
proof -
  have keep: "app_id a \<notin> app_id ` set cat \<Longrightarrow> map_of (fold (\<lambda>a. AList.update (app_id a) a) cat d) (app_id a) = map_of d (app_id a)" for cat d
    by (induction cat arbitrary: d) (auto simp: dict_simps)
  show "distinct (map app_id cat) \<Longrightarrow> a \<in> set cat \<Longrightarrow> ?thesis"
  proof -
    have "distinct (map app_id cat) \<Longrightarrow> a \<in> set cat \<Longrightarrow>
        map_of (fold (\<lambda>a. AList.update (app_id a) a) cat d) (app_id a) = Some a" for d
      by (induction cat arbitrary: d) (auto simp: keep dict_simps)
    then show "distinct (map app_id cat) \<Longrightarrow> a \<in> set cat \<Longrightarrow> ?thesis" by (simp add: by_id_def)
  qed
qed

subsection \<open>Blocking agrees with matching\<close>

text \<open>A name is blocked by an entry that is the name or a suffix of whole labels.\<close>

definition below :: "string \<Rightarrow> string \<Rightarrow> bool" where
  "below name b \<longleftrightarrow> name = b \<or> (\<exists>pre. name = pre @ ''.'' @ b)"

lemma match_suffix_below:
  "match_suffix d ls = Some a \<Longrightarrow> \<exists>b. map_of d b = Some a \<and> below (py_join ''.'' ls) b"
proof (induction ls)
  case (Cons l ls)
  show ?case
  proof (cases "map_of d (py_join ''.'' (l # ls))")
    case None
    with Cons obtain b where b: "map_of d b = Some a" "below (py_join ''.'' ls) b" by auto
    from Cons.prems None have "ls \<noteq> []" by auto
    then obtain l' ls' where "ls = l' # ls'" by (cases ls) auto
    then have "py_join ''.'' (l # ls) = l @ ''.'' @ py_join ''.'' ls" by simp
    with b(2) have "below (py_join ''.'' (l # ls)) b"
      unfolding below_def by (metis append.assoc)
    with b(1) show ?thesis by blast
  next
    case (Some a')
    with Cons.prems show ?thesis by (auto simp: below_def)
  qed
qed simp

lemma blocking_names_mem:
  "b \<in> set (blocking_names ids cat) \<longleftrightarrow> (\<exists>i\<in>set ids. \<exists>a. map_of (by_id cat) i = Some a \<and> b \<in> set (all_names a))"
proof -
  have "b \<in> set (case x of None \<Rightarrow> [] | Some a \<Rightarrow> all_names a) \<longleftrightarrow> (\<exists>a. x = Some a \<and> b \<in> set (all_names a))" for x
    by (cases x) auto
  then show ?thesis by (simp add: blocking_names_def)
qed

lemma matched_name_blocked:
  assumes "distinct (map app_id cat)" and "match_app (app_matcher_of cat) h = Some i" and "i \<in> set ids"
  shows "\<exists>b\<in>set (blocking_names ids cat). below (lower (rstrip_dots (strip h))) b"
proof -
  let ?n = "lower (rstrip_dots (strip h))"
  have "\<exists>a b. a \<in> set cat \<and> app_id a = i \<and> b \<in> set (all_names a) \<and> below ?n b"
  proof (cases "map_of (m_exact (app_matcher_of cat)) ?n")
    case (Some i')
    with assms(2) have "i' = i" by (auto simp: match_app_def Let_def split: if_splits)
    with Some obtain a where "find (\<lambda>a. ?n \<in> set (app_exact a)) cat = Some a" "app_id a = i" by (auto simp: exact_table)
    then have "a \<in> set cat \<and> app_id a = i \<and> ?n \<in> set (all_names a) \<and> below ?n ?n"
      by (auto simp: find_Some_iff all_names_def below_def)
    then show ?thesis by blast
  next
    case None
    with assms(2) have "match_suffix (m_suffix (app_matcher_of cat)) (split_on CHR ''.'' ?n) = Some i"
      by (auto simp: match_app_def Let_def split: if_splits)
    from match_suffix_below [OF this] obtain b where b: "map_of (m_suffix (app_matcher_of cat)) b = Some i" "below ?n b"
      by (auto simp: join_split_on)
    then obtain a where "find (\<lambda>a. b \<in> set (app_domains a)) cat = Some a" "app_id a = i" by (auto simp: suffix_table)
    then have "a \<in> set cat \<and> app_id a = i \<and> b \<in> set (all_names a)" by (auto simp: find_Some_iff all_names_def)
    with b(2) show ?thesis by blast
  qed
  then show ?thesis using assms(1,3) by (force simp: blocking_names_mem by_id_lookup)
qed

end
