(* ===== verification/Loader.thy ===== *)
theory Loader
  imports Validate Schedule Rule_Lint App_Id
begin

text \<open>
  The configuration loader (\<open>src/src/frfw/config/loader.py\<close>): zones, interfaces, rules with their
  ports, addresses and schedules, NAT, the management access, the tunnel and the logging section.

  Input is what \<open>yaml.safe_load\<close> gives (\<open>pyval\<close>).  A \<open>ConfigError\<close> keeps the field it names, not its whole
  sentence; a list or mapping where the code looks a name up in a table is a \<open>TypeError\<close> (it cannot be
  hashed).  The readers of networks of either family and of IPv6 text (each with whether it has a scope;
  \<open>strict\<close> is an argument), of date and time text and of base64, the time zone database and the
  application catalog are parameters (\<open>load_env\<close>).  A description, which nothing reads, is its text, or empty when it is not text.

  One difference from the code: Python takes \<open>true\<close> for the integer 1, so \<open>dst_port: true\<close> passes the
  range check and is written as the port \<open>True\<close>, a ruleset nft refuses; the schema here has no such port,
  and the model stops there with \<open>BoolInt\<close> (\<open>port_of\<close>, \<open>small_port\<close>).
\<close>

subsection \<open>Values\<close>

datatype config_error = ConfigError string | TypeError string | ValueErr string | BoolInt string

type_synonym 'a loaded = "(config_error, 'a) result"

record load_env =
  network_of :: "string \<Rightarrow> (ip_network \<times> bool) option"
  moment_of :: "pyval \<Rightarrow> string option \<Rightarrow> int option"
  base64_length :: "string \<Rightarrow> nat option"
  timezone_ok :: "string \<Rightarrow> bool"
  ipv6_network_of :: "bool \<Rightarrow> string \<Rightarrow> (ip_network \<times> bool) option"
  ipv6_address_of :: "string \<Rightarrow> (int \<times> bool) option"
  app_catalog :: catalog

definition require :: "bool \<Rightarrow> string \<Rightarrow> unit loaded" where
  "require ok what = (if ok then Inr () else Inl (ConfigError what))"

definition truthy :: "pyval \<Rightarrow> bool" where
  "truthy v = (case v of VNone \<Rightarrow> False | VBool b \<Rightarrow> b | VInt i \<Rightarrow> i \<noteq> 0 | VStr s \<Rightarrow> s \<noteq> [] | VList xs \<Rightarrow> xs \<noteq> []
     | VDict d \<Rightarrow> d \<noteq> [] | VOther _ \<Rightarrow> True)"

definition value_or :: "pyval \<Rightarrow> pyval \<Rightarrow> pyval" where
  "value_or v w = (if truthy v then v else w)"

definition as_dict :: "pyval \<Rightarrow> string \<Rightarrow> (pyval, pyval) dict loaded" where
  "as_dict v what = (case v of VDict d \<Rightarrow> Inr d | _ \<Rightarrow> Inl (ConfigError what))"

definition as_list :: "pyval \<Rightarrow> string \<Rightarrow> pyval list loaded" where
  "as_list v what = (case v of VList xs \<Rightarrow> Inr xs | _ \<Rightarrow> Inl (ConfigError what))"

definition as_bool :: "pyval \<Rightarrow> string \<Rightarrow> bool loaded" where
  "as_bool v what = (case v of VBool b \<Rightarrow> Inr b | _ \<Rightarrow> Inl (ConfigError what))"

definition as_str :: "pyval \<Rightarrow> string \<Rightarrow> string loaded" where
  "as_str v what = (case v of VStr s \<Rightarrow> Inr s | _ \<Rightarrow> Inl (ConfigError what))"

text \<open>An integer that is not a boolean, within bounds.\<close>

definition as_int :: "(int \<Rightarrow> bool) \<Rightarrow> pyval \<Rightarrow> string \<Rightarrow> int loaded" where
  "as_int ok v what = (case v of VInt i \<Rightarrow> if ok i then Inr i else Inl (ConfigError what) | _ \<Rightarrow> Inl (ConfigError what))"

definition get_key :: "(pyval, pyval) dict \<Rightarrow> string \<Rightarrow> pyval \<Rightarrow> pyval" where
  "get_key d k absent = (case map_of d (VStr k) of None \<Rightarrow> absent | Some v \<Rightarrow> v)"

definition text_of :: "pyval \<Rightarrow> string" where
  "text_of v = (case v of VStr s \<Rightarrow> s | _ \<Rightarrow> [])"

definition checked :: "(argument_error, 'a) result \<Rightarrow> string \<Rightarrow> 'a loaded" where
  "checked r what = (case r of Inl _ \<Rightarrow> Inl (ConfigError what) | Inr x \<Rightarrow> Inr x)"

definition name_re :: "string \<Rightarrow> bool" where
  "name_re s = (case s of [] \<Rightarrow> False | c # cs \<Rightarrow> is_lower c \<and> list_all (\<lambda>c. is_lower c \<or> is_digit c \<or> c \<in> set ''_-'') cs)"

definition mac_any_re :: "string \<Rightarrow> bool" where
  "mac_any_re s = (let ps = split_on CHR '':'' s in length ps = 6 \<and>
     list_all (\<lambda>p. length p = 2 \<and> list_all (\<lambda>c. is_hex_lower c \<or> in_range 65 70 c) p) ps)"

definition require_name :: "pyval \<Rightarrow> string \<Rightarrow> string loaded" where
  "require_name v what = (case v of VStr s \<Rightarrow> if name_re s then Inr s else Inl (ConfigError what) | _ \<Rightarrow> Inl (ConfigError what))"

subsection \<open>Zones and interfaces\<close>

definition parse_zone :: "pyval \<times> pyval \<Rightarrow> (string, zone) dict \<Rightarrow> (string, zone) dict loaded" where
  "parse_zone item acc =
     bind_result (require_name (fst item) ''zone'') (\<lambda>name.
     bind_result (require (name \<noteq> SELF_ZONE) ''Zone name'') (\<lambda>_.
     bind_result (as_dict (value_or (snd item) (VDict [])) ''Zone settings'') (\<lambda>body.
     Inr (AList.update name \<lparr>zone_name = name, zone_description = text_of (get_key body ''description'' (VStr []))\<rparr> acc))))"

definition parse_zones :: "pyval \<Rightarrow> (string, zone) dict loaded" where
  "parse_zones raw = bind_result (as_dict raw ''zones'') (\<lambda>items. fold_result parse_zone items [])"

text \<open>
  \<open>IPv4Interface(text)\<close>: an address, and a prefix length, a netmask or a hostmask behind a slash.  The
  address and the prefix length.
\<close>

definition mask_prefix :: "int \<Rightarrow> nat option" where
  "mask_prefix m = List.find (\<lambda>p. m = 2 ^ 32 - 2 ^ (32 - p)) [0..<33]"

definition prefix_of :: "string \<Rightarrow> nat option" where
  "prefix_of s =
     (if s \<noteq> [] \<and> list_all is_digit s \<and> read_digits 0 s \<le> 32 then Some (read_digits 0 s)
      else case ipv4_address s of None \<Rightarrow> None
        | Some m \<Rightarrow> (case mask_prefix m of Some p \<Rightarrow> Some p | None \<Rightarrow> mask_prefix (2 ^ 32 - 1 - m)))"

definition ipv4_interface :: "string \<Rightarrow> (int \<times> nat) option" where
  "ipv4_interface s =
     (case split_on CHR ''/'' s of
        [a] \<Rightarrow> (case ipv4_address a of None \<Rightarrow> None | Some x \<Rightarrow> Some (x, 32))
      | [a, p] \<Rightarrow> (case (ipv4_address a, prefix_of p) of (Some x, Some n) \<Rightarrow> Some (x, n) | _ \<Rightarrow> None)
      | _ \<Rightarrow> None)"

definition show_interface :: "int \<times> nat \<Rightarrow> string" where
  "show_interface i = show_ipv4 (fst i) @ ''/'' @ show_nat (snd i)"

definition interface_network :: "int \<times> nat \<Rightarrow> ip_network" where
  "interface_network i = \<lparr>net_family = V4, net_address = fst i div 2 ^ (32 - snd i) * 2 ^ (32 - snd i), net_prefixlen = snd i\<rparr>"

definition validate_interface_address :: "pyval \<Rightarrow> string \<Rightarrow> string loaded" where
  "validate_interface_address v what =
     bind_result (as_str v what) (\<lambda>s. case ipv4_interface s of None \<Rightarrow> Inl (ConfigError what) | Some i \<Rightarrow> Inr (show_interface i))"

definition parse_vlan :: "pyval \<Rightarrow> string \<Rightarrow> (string option \<times> int option) loaded" where
  "parse_vlan vlan device =
     (if vlan = VNone then Inr (None, None)
      else bind_result (as_dict vlan ''vlan'') (\<lambda>d.
        bind_result (checked (ifname (get_key d ''parent'' VNone)) ''vlan.parent'') (\<lambda>parent.
        bind_result (as_int (\<lambda>i. 1 \<le> i \<and> i \<le> 4094) (get_key d ''id'' VNone) ''vlan.id'') (\<lambda>vid.
        bind_result (require (parent \<noteq> device) ''a VLAN can't be its own parent'') (\<lambda>_.
        Inr (Some parent, Some vid))))))"

definition optional :: "pyval \<Rightarrow> (pyval \<Rightarrow> 'a loaded) \<Rightarrow> 'a option loaded" where
  "optional v f = (if v = VNone then Inr None else bind_result (f v) (\<lambda>x. Inr (Some x)))"

text \<open>The table of interfaces so far, in which \<open>seen_devices\<close> can be read off.\<close>

definition parse_interface :: "(string, zone) dict \<Rightarrow> pyval \<times> pyval \<Rightarrow> (string, interface) dict \<Rightarrow> (string, interface) dict loaded" where
  "parse_interface zs item acc =
     bind_result (require_name (fst item) ''interface'') (\<lambda>name.
     bind_result (as_dict (snd item) ''Interface settings'') (\<lambda>body.
     bind_result (as_str (get_key body ''device'' VNone) ''device'') (\<lambda>_.
     bind_result (checked (ifname (get_key body ''device'' VNone)) ''device'') (\<lambda>device.
     bind_result (require (device \<notin> (if_device \<circ> snd) ` set acc) ''Device is assigned to both'') (\<lambda>_.
     bind_result (as_str (get_key body ''zone'' VNone) ''undefined zone'') (\<lambda>z.
     bind_result (require (map_of zs z \<noteq> None) ''undefined zone'') (\<lambda>_.
     bind_result (optional (get_key body ''address'' VNone) (\<lambda>v. validate_interface_address v ''address'')) (\<lambda>address.
     bind_result (parse_vlan (get_key body ''vlan'' VNone) device) (\<lambda>(parent, vid).
     Inr (AList.update name \<lparr>if_name = name, if_device = device, if_zone = z, if_address = address,
            if_description = text_of (get_key body ''description'' (VStr [])), vlan_parent = parent, vlan_id = vid\<rparr> acc))))))))))"

definition parse_interfaces :: "pyval \<Rightarrow> (string, zone) dict \<Rightarrow> string list \<Rightarrow> (string, interface) dict loaded" where
  "parse_interfaces raw zs tunnel_zones =
     bind_result (as_dict raw ''interfaces'') (\<lambda>items.
     bind_result (require (items \<noteq> []) ''interfaces'') (\<lambda>_.
     bind_result (fold_result (parse_interface zs) items []) (\<lambda>ifs.
     bind_result (require (list_all (\<lambda>z. z \<in> (if_zone \<circ> snd) ` set ifs \<union> set tunnel_zones) (map fst zs)) ''Zone is declared but not used'') (\<lambda>_.
     Inr ifs))))"

subsection \<open>Rules\<close>

definition action_of :: "pyval \<Rightarrow> rule_action loaded" where
  "action_of v = (if v = VStr ''accept'' then Inr ACCEPT else if v = VStr ''drop'' then Inr DROP
     else if v = VStr ''reject'' then Inr REJECT else Inl (ConfigError ''action''))"

definition proto_of :: "pyval \<Rightarrow> protocol loaded" where
  "proto_of v = (if v = VStr ''any'' then Inr ANY else if v = VStr ''tcp'' then Inr TCP else if v = VStr ''udp'' then Inr UDP
     else if v = VStr ''icmp'' then Inr ICMP else Inl (ConfigError ''proto''))"

definition zone_ref :: "(string, zone) dict \<Rightarrow> pyval \<Rightarrow> string \<Rightarrow> string option loaded" where
  "zone_ref zs v what =
     (case v of VNone \<Rightarrow> Inr None
      | VStr z \<Rightarrow> if z = SELF_ZONE \<or> map_of zs z \<noteq> None then Inr (Some z) else Inl (ConfigError what)
      | VList _ \<Rightarrow> Inl (TypeError what) | VDict _ \<Rightarrow> Inl (TypeError what)
      | _ \<Rightarrow> Inl (ConfigError what))"

text \<open>\<open>_validate_port_spec\<close>; the text it returns is \<open>show_port_spec\<close> of the ports.\<close>

definition port_of :: "pyval \<Rightarrow> string \<Rightarrow> port_spec loaded" where
  "port_of v what =
     (case v of
        VInt i \<Rightarrow> if 1 \<le> i \<and> i \<le> 65535 then Inr (Port (nat i)) else Inl (ConfigError what)
      | VStr s \<Rightarrow>
          (case split_on CHR ''-'' s of
             [a, b] \<Rightarrow>
               if a \<noteq> [] \<and> length a \<le> 5 \<and> list_all is_digit a \<and> b \<noteq> [] \<and> length b \<le> 5 \<and> list_all is_digit b
               then (let lo = read_digits 0 a; hi = read_digits 0 b in
                     if 1 \<le> lo \<and> lo \<le> 65535 \<and> 1 \<le> hi \<and> hi \<le> 65535 \<and> lo \<le> hi then Inr (PortRange lo hi) else Inl (ConfigError what))
               else Inl (ConfigError what)
           | _ \<Rightarrow> Inl (ConfigError what))
      | VBool True \<Rightarrow> Inl (BoolInt what)
      | _ \<Rightarrow> Inl (ConfigError what))"

definition parse_network :: "load_env \<Rightarrow> string \<Rightarrow> pyval \<Rightarrow> ip_network list \<Rightarrow> ip_network list loaded" where
  "parse_network env what item out =
     bind_result (as_str item what) (\<lambda>s.
       case network_of env (strip s) of None \<Rightarrow> Inl (ConfigError what)
       | Some (n, scoped) \<Rightarrow> if scoped then Inl (ConfigError what) else Inr (if n \<in> set out then out else out @ [n]))"

definition parse_networks :: "load_env \<Rightarrow> pyval \<Rightarrow> string \<Rightarrow> ip_network list option loaded" where
  "parse_networks env v what =
     (if v = VNone then Inr None
      else let items = (case v of VList xs \<Rightarrow> xs | _ \<Rightarrow> [v]) in
        bind_result (require (items \<noteq> []) what) (\<lambda>_.
        bind_result (fold_result (parse_network env what) items []) (\<lambda>ns. Inr (Some ns))))"

definition hhmm_re :: "string \<Rightarrow> bool" where
  "hhmm_re s = (case s of
     [a, b, c, d, e] \<Rightarrow> s = ''24:00'' \<or>
       (((a = CHR ''0'' \<or> a = CHR ''1'') \<and> is_digit b \<or> a = CHR ''2'' \<and> in_range 48 51 b) \<and> c = CHR '':'' \<and> in_range 48 53 d \<and> is_digit e)
   | _ \<Rightarrow> False)"

definition parse_hhmm :: "pyval \<Rightarrow> string \<Rightarrow> int loaded" where
  "parse_hhmm v what =
     bind_result (as_str v what) (\<lambda>s.
       if hhmm_re s then Inr (int (read_digits 0 (take 2 s)) * 60 + int (read_digits 0 (drop 3 s))) else Inl (ConfigError what))"

definition DAY_GROUPS :: "(string, int list) dict" where
  "DAY_GROUPS = [(''daily'', [0, 1, 2, 3, 4, 5, 6]), (''weekdays'', [0, 1, 2, 3, 4]), (''weekend'', [5, 6])]"

definition DAY_KEYS :: "(string, int) dict" where
  "DAY_KEYS = [(''mon'', 0), (''tue'', 1), (''wed'', 2), (''thu'', 3), (''fri'', 4), (''sat'', 5), (''sun'', 6)]"

definition parse_day :: "string \<Rightarrow> pyval \<Rightarrow> int_set \<Rightarrow> int_set loaded" where
  "parse_day what day days =
     (case day of
        VStr s \<Rightarrow>
          (case map_of DAY_GROUPS (lower s) of Some ds \<Rightarrow> Inr (fold int_set_add ds days)
           | None \<Rightarrow> (case map_of DAY_KEYS (lower s) of Some d \<Rightarrow> Inr (int_set_add d days) | None \<Rightarrow> Inl (ConfigError what)))
      | VList _ \<Rightarrow> Inl (TypeError what) | VDict _ \<Rightarrow> Inl (TypeError what)
      | _ \<Rightarrow> Inl (ConfigError what))"

definition parse_schedule :: "pyval \<Rightarrow> string \<Rightarrow> rule_action \<Rightarrow> rule_schedule loaded" where
  "parse_schedule raw what act =
     bind_result (as_dict raw what) (\<lambda>d.
     bind_result (let v = get_key d ''days'' (VList [VStr ''daily'']) in as_list (case v of VStr _ \<Rightarrow> VList [v] | _ \<Rightarrow> v) what) (\<lambda>days_raw.
     bind_result (require (days_raw \<noteq> []) what) (\<lambda>_.
     bind_result (fold_result (parse_day what) days_raw []) (\<lambda>days.
     bind_result (parse_hhmm (get_key d ''start'' VNone) what) (\<lambda>start.
     bind_result (parse_hhmm (get_key d ''end'' VNone) what) (\<lambda>end'.
     bind_result (require (start \<noteq> 24 * 60) what) (\<lambda>_.
     bind_result (require (start \<noteq> end') what) (\<lambda>_.
     bind_result (as_bool (get_key d ''cut_established'' (VBool False)) what) (\<lambda>cut.
     bind_result (require (\<not> (cut \<and> act = ACCEPT)) what) (\<lambda>_.
     Inr \<lparr>sched_days = days, sched_start = start, sched_end = end', cut_established = cut\<rparr>))))))))))"

definition families_of :: "ip_network list option \<Rightarrow> family set" where
  "families_of ns = (case ns of None \<Rightarrow> {} | Some xs \<Rightarrow> set (map net_family xs))"

definition parse_mac :: "pyval \<Rightarrow> string option loaded" where
  "parse_mac v = optional v (\<lambda>v. case v of VStr s \<Rightarrow> if mac_any_re s then Inr (lower s) else Inl (ConfigError ''src_mac'')
     | _ \<Rightarrow> Inl (ConfigError ''src_mac''))"

definition parse_expiry :: "load_env \<Rightarrow> pyval \<Rightarrow> string option \<Rightarrow> int loaded" where
  "parse_expiry env v tz = (case moment_of env v tz of None \<Rightarrow> Inl (ConfigError ''expires'') | Some t \<Rightarrow> Inr t)"

definition parse_dst_port :: "pyval \<Rightarrow> protocol \<Rightarrow> port_spec option loaded" where
  "parse_dst_port v p = optional v (\<lambda>v. bind_result (require (p = TCP \<or> p = UDP) ''dst_port'') (\<lambda>_. port_of v ''dst_port''))"

text \<open>One turn of the loop of \<open>_parse_rules\<close>: the rules so far, whose names are \<open>seen_names\<close>.\<close>

definition parse_rule :: "load_env \<Rightarrow> (string, zone) dict \<Rightarrow> string option \<Rightarrow> pyval \<Rightarrow> rule list \<Rightarrow> rule list loaded" where
  "parse_rule env zs tz v acc =
     bind_result (as_dict v ''rules'') (\<lambda>body.
     bind_result (require_name (get_key body ''name'' VNone) ''rule'') (\<lambda>name.
     bind_result (require (name \<notin> rule_name ` set acc) ''Duplicate rule name'') (\<lambda>_.
     bind_result (action_of (get_key body ''action'' VNone)) (\<lambda>act.
     bind_result (zone_ref zs (get_key body ''from_zone'' VNone) ''from_zone'') (\<lambda>from.
     bind_result (require (from \<noteq> Some SELF_ZONE) ''from_zone'') (\<lambda>_.
     bind_result (zone_ref zs (get_key body ''to_zone'' VNone) ''to_zone'') (\<lambda>to.
     bind_result (proto_of (get_key body ''proto'' (VStr ''any''))) (\<lambda>p.
     bind_result (parse_dst_port (get_key body ''dst_port'' VNone) p) (\<lambda>port.
     bind_result (parse_networks env (get_key body ''src_address'' VNone) ''src_address'') (\<lambda>src.
     bind_result (parse_networks env (get_key body ''dst_address'' VNone) ''dst_address'') (\<lambda>dst.
     bind_result (require (src = None \<or> dst = None \<or> families_of src \<inter> families_of dst \<noteq> {}) ''no address family in common'') (\<lambda>_.
     bind_result (parse_mac (get_key body ''src_mac'' VNone)) (\<lambda>mac.
     bind_result (optional (get_key body ''schedule'' VNone) (\<lambda>v. parse_schedule v ''schedule'' act)) (\<lambda>sched.
     bind_result (optional (get_key body ''expires'' VNone) (\<lambda>v. parse_expiry env v tz)) (\<lambda>exp.
     Inr (acc @ [\<lparr>rule_name = name, action = act, from_zone = from, to_zone = to, proto = p, dst_port = port,
       src_address = src, dst_address = dst, rule_log = truthy (get_key body ''log'' (VBool False)),
       require_ztna = truthy (get_key body ''require_ztna'' (VBool False)), src_mac = mac, schedule = sched, expires = exp\<rparr>]))))))))))))))))"

definition parse_rules :: "load_env \<Rightarrow> pyval \<Rightarrow> (string, zone) dict \<Rightarrow> string option \<Rightarrow> rule list loaded" where
  "parse_rules env raw zs tz = bind_result (as_list raw ''rules'') (\<lambda>bodies. fold_result (parse_rule env zs tz) bodies [])"

subsection \<open>NAT, logging and management\<close>

text \<open>\<open>for x in v or []\<close>: a mapping gives its keys, text its characters, a number raises.\<close>

definition iterate :: "pyval \<Rightarrow> string \<Rightarrow> pyval list loaded" where
  "iterate v what =
     (if \<not> truthy v then Inr []
      else case v of VList xs \<Rightarrow> Inr xs | VDict d \<Rightarrow> Inr (map fst d) | VStr s \<Rightarrow> Inr (map (\<lambda>c. VStr [c]) s) | _ \<Rightarrow> Inl (TypeError what))"

definition as_items :: "pyval \<Rightarrow> string \<Rightarrow> pyval list loaded" where
  "as_items v what = as_list (value_or v (VList [])) what"

definition named_zone :: "(string, zone) dict \<Rightarrow> pyval \<Rightarrow> string \<Rightarrow> string loaded" where
  "named_zone zs v what =
     bind_result (zone_ref zs v what) (\<lambda>z. case z of None \<Rightarrow> Inl (ConfigError what)
       | Some z \<Rightarrow> if z = SELF_ZONE then Inl (ConfigError what) else Inr z)"

definition parse_masquerade :: "(string, zone) dict \<Rightarrow> pyval \<Rightarrow> masquerade list \<Rightarrow> masquerade list loaded" where
  "parse_masquerade zs v acc =
     bind_result (as_dict v ''nat.masquerade'') (\<lambda>body.
     bind_result (named_zone zs (get_key body ''out_zone'' VNone) ''out_zone'') (\<lambda>z. Inr (acc @ [\<lparr>out_zone = z\<rparr>])))"

definition small_port :: "pyval \<Rightarrow> string \<Rightarrow> nat loaded" where
  "small_port v what = (if v = VBool True then Inl (BoolInt what) else bind_result (as_int (\<lambda>i. 1 \<le> i \<and> i \<le> 65535) v what) (\<lambda>i. Inr (nat i)))"

definition validate_address :: "pyval \<Rightarrow> string \<Rightarrow> string loaded" where
  "validate_address v what = bind_result (as_str v what) (\<lambda>s. if ipv4_address s = None then Inl (ConfigError what) else Inr s)"

definition parse_forward :: "(string, zone) dict \<Rightarrow> pyval \<Rightarrow> port_forward list \<Rightarrow> port_forward list loaded" where
  "parse_forward zs v acc =
     bind_result (as_dict v ''nat.port_forwards'') (\<lambda>body.
     bind_result (require_name (get_key body ''name'' VNone) ''port_forward'') (\<lambda>name.
     bind_result (require (name \<notin> pf_name ` set acc) ''Duplicate port_forward name'') (\<lambda>_.
     bind_result (named_zone zs (get_key body ''in_zone'' VNone) ''in_zone'') (\<lambda>z.
     bind_result (proto_of (get_key body ''proto'' VNone)) (\<lambda>p.
     bind_result (require (p = TCP \<or> p = UDP) ''proto'') (\<lambda>_.
     bind_result (small_port (get_key body ''dst_port'' VNone) ''dst_port'') (\<lambda>port.
     bind_result (validate_address (get_key body ''to_address'' VNone) ''to_address'') (\<lambda>to.
     bind_result (small_port (get_key body ''to_port'' (VInt (int port))) ''to_port'') (\<lambda>to_port.
     Inr (acc @ [\<lparr>pf_name = name, pf_in_zone = z, pf_proto = p, pf_dst_port = port, pf_to_address = to, pf_to_port = to_port\<rparr>]))))))))))"

definition parse_nat :: "pyval \<Rightarrow> (string, zone) dict \<Rightarrow> nat_config loaded" where
  "parse_nat raw zs =
     bind_result (as_dict raw ''nat'') (\<lambda>d.
     bind_result (iterate (get_key d ''masquerade'' (VList [])) ''nat.masquerade'') (\<lambda>ms.
     bind_result (fold_result (parse_masquerade zs) ms []) (\<lambda>masq.
     bind_result (iterate (get_key d ''port_forwards'' (VList [])) ''nat.port_forwards'') (\<lambda>ps.
     bind_result (fold_result (parse_forward zs) ps []) (\<lambda>fwd.
     Inr \<lparr>nat_masquerade = masq, nat_port_forwards = fwd\<rparr>)))))"

definition parse_logging :: "pyval \<Rightarrow> logging_config loaded" where
  "parse_logging raw =
     bind_result (as_dict raw ''logging'') (\<lambda>d.
     bind_result (as_bool (get_key d ''drops'' (VBool True)) ''logging.drops'') (\<lambda>drops.
     bind_result (as_int (\<lambda>i. 1 \<le> i \<and> i \<le> 10000) (get_key d ''drops_per_minute'' (VInt 10)) ''logging.drops_per_minute'') (\<lambda>rate.
     Inr \<lparr>log_drops = drops, drops_per_minute = nat rate\<rparr>)))"

definition CONFIRM_APPLY_DEFAULT :: int where "CONFIRM_APPLY_DEFAULT = 300"
definition CONFIRM_APPLY_MIN :: int where "CONFIRM_APPLY_MIN = 60"
definition CONFIRM_APPLY_MAX :: int where "CONFIRM_APPLY_MAX = 3600"

definition parse_mgmt_zone :: "(string, zone) dict \<Rightarrow> string list \<Rightarrow> bool \<Rightarrow> pyval \<Rightarrow> string list \<Rightarrow> string list loaded" where
  "parse_mgmt_zone zs internet wan_ok v chosen =
     bind_result (as_str v ''management.zones'') (\<lambda>z.
     bind_result (require (map_of zs z \<noteq> None) ''management.zones'') (\<lambda>_.
     bind_result (require (\<not> (z \<in> set internet \<and> \<not> wan_ok)) ''faces the internet'') (\<lambda>_.
     Inr (if z \<in> set chosen then chosen else chosen @ [z]))))"

text \<open>
  \<open>IPv4Address\<close> also takes an integer, whose text then differs from it: only text that is its own
  canonical form passes.
\<close>

definition parse_mgmt_address :: "pyval \<Rightarrow> string list \<Rightarrow> string list loaded" where
  "parse_mgmt_address v acc =
     bind_result (as_str v ''management.addresses'') (\<lambda>s.
       case ipv4_address s of None \<Rightarrow> Inl (ConfigError ''management.addresses'')
       | Some x \<Rightarrow> if show_ipv4 x \<noteq> s then Inl (ConfigError ''management.addresses'') else Inr (if s \<in> set acc then acc else acc @ [s]))"

definition parse_management :: "pyval \<Rightarrow> (string, zone) dict \<Rightarrow> nat_config \<Rightarrow> management_config loaded" where
  "parse_management raw zs n =
     bind_result (as_dict raw ''management'') (\<lambda>d.
     bind_result (as_bool (get_key d ''allow_wan'' (VBool False)) ''management.allow_wan'') (\<lambda>wan_ok.
     bind_result (as_items (get_key d ''zones'' (VList [])) ''management.zones'') (\<lambda>zones_raw.
     bind_result (fold_result (parse_mgmt_zone zs (internet_facing_zones zs n) wan_ok) zones_raw []) (\<lambda>chosen.
     bind_result (as_int (\<lambda>i. i = 0 \<or> CONFIRM_APPLY_MIN \<le> i \<and> i \<le> CONFIRM_APPLY_MAX)
       (get_key d ''confirm_apply_seconds'' (VInt CONFIRM_APPLY_DEFAULT)) ''management.confirm_apply_seconds'') (\<lambda>secs.
     bind_result (as_items (get_key d ''addresses'' (VList [])) ''management.addresses'') (\<lambda>addresses_raw.
     bind_result (fold_result parse_mgmt_address addresses_raw []) (\<lambda>addresses.
     bind_result (as_bool (get_key d ''ipv6'' (VBool False)) ''management.ipv6'') (\<lambda>v6.
     Inr \<lparr>mgmt_zones = chosen, allow_wan = wan_ok, confirm_apply_seconds = secs, mgmt_addresses = addresses, mgmt_ipv6 = v6\<rparr>))))))))"

subsection \<open>The tunnel\<close>

definition tunnel_zones :: "pyval \<Rightarrow> string list" where
  "tunnel_zones raw =
     (case raw of
        VDict d \<Rightarrow> if truthy (get_key d ''enabled'' VNone) \<or> truthy (get_key d ''address'' VNone)
                  then (case get_key d ''zone'' (VStr ''vpn'') of VStr z \<Rightarrow> [z] | _ \<Rightarrow> []) else []
      | _ \<Rightarrow> [])"

text \<open>\<open>IPv4Interface(v)\<close> of any value: an integer is an address.\<close>

definition interface_of :: "pyval \<Rightarrow> (int \<times> nat) option" where
  "interface_of v = (case v of VStr s \<Rightarrow> ipv4_interface s
     | VInt i \<Rightarrow> if 0 \<le> i \<and> i < 2 ^ 32 then Some (i, 32) else None
     | VBool b \<Rightarrow> Some (if b then 1 else 0, 32) | _ \<Rightarrow> None)"

definition net_overlaps :: "ip_network \<Rightarrow> ip_network \<Rightarrow> bool" where
  "net_overlaps a b \<longleftrightarrow> net_address a \<le> net_broadcast b \<and> net_address b \<le> net_broadcast a"

definition overlaps_interface :: "ip_network \<Rightarrow> interface \<Rightarrow> bool" where
  "overlaps_interface n i =
     (case if_address i of None \<Rightarrow> False
      | Some a \<Rightarrow> (case ipv4_interface a of None \<Rightarrow> False | Some x \<Rightarrow> a \<noteq> [] \<and> net_overlaps (interface_network x) n))"

definition parse_tunnel_address :: "pyval \<Rightarrow> (string, interface) dict \<Rightarrow> (int \<times> nat) option loaded" where
  "parse_tunnel_address v ifs =
     (if \<not> truthy v then Inr None
      else case interface_of v of None \<Rightarrow> Inl (ConfigError ''wireguard.address'')
        | Some i \<Rightarrow>
            bind_result (require (CHR ''/'' \<in> set (text_of v) \<and> snd i \<le> 30) ''wireguard.address'') (\<lambda>_.
            bind_result (require (fst i \<notin> {net_address (interface_network i), net_broadcast (interface_network i)}) ''wireguard.address'') (\<lambda>_.
            bind_result (require (\<not> list_ex (\<lambda>(_, o'). overlaps_interface (interface_network i) o') ifs) ''wireguard.address'') (\<lambda>_.
            Inr (Some i)))))"

definition peer_name_re :: "string \<Rightarrow> bool" where
  "peer_name_re = head_tail is_alnum_char (\<lambda>c. is_alnum_char c \<or> c \<in> set ''_.-'') 31"

definition valid_wireguard_key :: "load_env \<Rightarrow> pyval \<Rightarrow> bool" where
  "valid_wireguard_key env v = (case v of VStr s \<Rightarrow> length s = 44 \<and> base64_length env s = Some 32 | _ \<Rightarrow> False)"

text \<open>The peers so far with their addresses, in which names, keys and addresses are looked up.\<close>

definition parse_peer :: "load_env \<Rightarrow> (int \<times> nat) option \<Rightarrow> pyval \<Rightarrow> (wireguard_peer \<times> int) list \<Rightarrow> (wireguard_peer \<times> int) list loaded" where
  "parse_peer env tunnel v acc =
     bind_result (as_dict v ''wireguard.peers'') (\<lambda>body.
     bind_result (as_str (get_key body ''name'' VNone) ''invalid name'') (\<lambda>name.
     bind_result (require (peer_name_re name) ''invalid name'') (\<lambda>_.
     bind_result (require (name \<notin> (peer_name \<circ> fst) ` set acc) ''duplicate name'') (\<lambda>_.
     bind_result (require (valid_wireguard_key env (get_key body ''public_key'' VNone)) ''public_key'') (\<lambda>_.
     let key = text_of (get_key body ''public_key'' VNone) in
     bind_result (require (key \<notin> (peer_public_key \<circ> fst) ` set acc) ''public_key is used twice'') (\<lambda>_.
     case tunnel of None \<Rightarrow> Inl (ConfigError ''wireguard.peers need wireguard.address'')
     | Some t \<Rightarrow>
        (case interface_of (get_key body ''address'' VNone) of None \<Rightarrow> Inl (ConfigError ''invalid address'')
         | Some i \<Rightarrow>
            (let net = interface_network t; ip = fst i in
             bind_result (require (snd i = 32) ''single host'') (\<lambda>_.
             bind_result (require (net_address net \<le> ip \<and> ip \<le> net_broadcast net \<and> ip \<notin> {net_address net, net_broadcast net, fst t})
               ''not a free host address'') (\<lambda>_.
             bind_result (require (ip \<notin> snd ` set acc) ''used twice'') (\<lambda>_.
             bind_result (as_bool (get_key body ''dual_stack'' (VBool False)) ''dual_stack'') (\<lambda>dual.
             Inr (acc @ [(\<lparr>peer_name = name, peer_public_key = key, peer_address = show_ipv4 ip @ ''/32'', dual_stack = dual\<rparr>, ip)])))))))))))))"

definition parse_wireguard :: "load_env \<Rightarrow> pyval \<Rightarrow> (string, zone) dict \<Rightarrow> nat_config \<Rightarrow> (string, interface) dict \<Rightarrow> wireguard_config loaded" where
  "parse_wireguard env raw zs n ifs =
     bind_result (as_dict raw ''wireguard'') (\<lambda>d.
     bind_result (require (map_of d (VStr ''private_key'') = None) ''wireguard.private_key'') (\<lambda>_.
     bind_result (as_bool (get_key d ''enabled'' (VBool False)) ''wireguard.enabled'') (\<lambda>enabled.
     bind_result (as_int (\<lambda>i. 1 \<le> i \<and> i \<le> 65535) (get_key d ''listen_port'' (VInt 51820)) ''wireguard.listen_port'') (\<lambda>port.
     bind_result (parse_tunnel_address (get_key d ''address'' (VStr [])) ifs) (\<lambda>tunnel.
     let zone_raw = get_key d ''zone'' (VStr ''vpn'') in
     bind_result (if enabled \<or> zone_raw \<noteq> VStr ''vpn''
       then bind_result (as_str zone_raw ''wireguard.zone'') (\<lambda>z.
            bind_result (require (map_of zs z \<noteq> None) ''wireguard.zone'') (\<lambda>_.
            bind_result (require (z \<notin> set (internet_facing_zones zs n)) ''faces the internet'') (\<lambda>_. Inr z)))
       else Inr ''vpn'') (\<lambda>z.
     let endpoint = value_or (get_key d ''endpoint'' (VStr [])) (VStr []) in
     bind_result (if truthy endpoint then checked (hostname endpoint) ''wireguard.endpoint'' else Inr []) (\<lambda>host.
     bind_result (as_items (get_key d ''peers'' (VList [])) ''wireguard.peers'') (\<lambda>peers_raw.
     bind_result (fold_result (parse_peer env tunnel) peers_raw []) (\<lambda>peers.
     bind_result (require (\<not> (enabled \<and> tunnel = None)) ''wireguard.address'') (\<lambda>_.
     Inr \<lparr>wg_enabled = enabled, wg_listen_port = nat port, wg_address = (case tunnel of None \<Rightarrow> [] | Some i \<Rightarrow> show_interface i),
       wg_zone = z, wg_endpoint = host, wg_peers = map fst peers\<rparr>))))))))))"

definition check_management_addresses :: "management_config \<Rightarrow> (string, zone) dict \<Rightarrow> nat_config \<Rightarrow> (string, interface) dict \<Rightarrow>
    wireguard_config \<Rightarrow> unit loaded" where
  "check_management_addresses m zs n ifs wg =
     (let allowed = (if mgmt_zones m \<noteq> [] then mgmt_zones m else if allow_wan m then map fst zs
            else filter (\<lambda>z. z \<notin> set (internet_facing_zones zs n)) (map fst zs));
          ip_of = (\<lambda>a. map_option (\<lambda>i. show_ipv4 (fst i)) (ipv4_interface a));
          own = List.map_filter (\<lambda>(_, i). case if_address i of None \<Rightarrow> None
                  | Some a \<Rightarrow> if a \<noteq> [] \<and> if_zone i \<in> set allowed then ip_of a else None) ifs;
          tunnel = (if wg_enabled wg \<and> wg_address wg \<noteq> [] \<and> wg_zone wg \<in> set allowed
                    then (case ip_of (wg_address wg) of None \<Rightarrow> [] | Some a \<Rightarrow> [a]) else [])
      in require (mgmt_addresses m = [] \<or> set (mgmt_addresses m) \<subseteq> set (own @ tunnel)) ''management.addresses'')"

subsection \<open>Accepted schedules\<close>

lemma require_iff [simp]: "require ok what = Inr u \<longleftrightarrow> ok"
  by (simp add: require_def)

lemma two_digits: "list_all is_digit [a, b] \<Longrightarrow> read_digits 0 [a, b] = 10 * (of_char a - 48) + (of_char b - 48)"
  by simp

lemma parse_hhmm_ok:
  assumes "parse_hhmm v what = Inr t"
  shows "0 \<le> t \<and> t \<le> MINUTES_PER_DAY"
proof -
  obtain s where s: "hhmm_re s" "t = int (read_digits 0 (take 2 s)) * 60 + int (read_digits 0 (drop 3 s))"
    using assms by (auto simp: parse_hhmm_def split: if_splits)
  then obtain a b c d e where abc: "s = [a, b, c, d, e]" by (auto simp: hhmm_re_def split: list.splits)
  show ?thesis
  proof (cases "s = ''24:00''")
    case True
    then show ?thesis using s(2) by (simp add: MINUTES_PER_DAY_def)
  next
    case False
    then have r: "(a = CHR ''0'' \<or> a = CHR ''1'') \<and> is_digit b \<or> a = CHR ''2'' \<and> in_range 48 51 b" "in_range 48 53 d" "is_digit e"
      using s(1) abc by (auto simp: hhmm_re_def)
    then have "10 * (of_char a - 48) + (of_char b - 48) \<le> (29::nat)" "10 * (of_char d - 48) + (of_char e - 48) \<le> (59::nat)"
      "a = CHR ''2'' \<longrightarrow> of_char b - 48 \<le> (3::nat)" "a \<noteq> CHR ''2'' \<longrightarrow> 10 * (of_char a - 48) + (of_char b - 48) \<le> (19::nat)"
      by (auto simp: is_digit_def in_range_def)
    then have "read_digits 0 [a, b] \<le> 23" "read_digits 0 [d, e] \<le> 59" by (cases "a = CHR ''2''"; simp)+
    then show ?thesis using s(2) abc by (simp add: MINUTES_PER_DAY_def)
  qed
qed

lemma parse_day_ok: "parse_day what v days = Inr days' \<Longrightarrow> \<forall>d\<in>set days. 0 \<le> d \<and> d < 7 \<Longrightarrow> \<forall>d\<in>set days'. 0 \<le> d \<and> d < 7"
proof -
  assume p: "parse_day what v days = Inr days'" and d: "\<forall>d\<in>set days. 0 \<le> d \<and> d < 7"
  have adds: "set (fold int_set_add ds s) = set ds \<union> set s" for ds s by (induction ds arbitrary: s) auto
  have "\<forall>d\<in>set ds. 0 \<le> d \<and> d < 7" if "map_of DAY_GROUPS k = Some ds" for k ds
    using map_of_SomeD [OF that] by (auto simp: DAY_GROUPS_def)
  moreover have "0 \<le> x \<and> x < 7" if "map_of DAY_KEYS k = Some x" for k x
    using map_of_SomeD [OF that] by (auto simp: DAY_KEYS_def)
  ultimately show ?thesis using p d by (auto simp: parse_day_def adds split: pyval.splits option.splits)
qed

lemma parse_schedule_ok:
  assumes "parse_schedule raw what act = Inr s"
  shows "schedule_ok (sched_days s) (sched_start s) (sched_end s) \<and> sched_start s \<noteq> sched_end s \<and> (cut_established s \<longrightarrow> act \<noteq> ACCEPT)"
proof -
  obtain d days_raw days start end' cut where
    days: "fold_result (parse_day what) days_raw [] = Inr days" and
    times: "parse_hhmm (get_key d ''start'' VNone) what = Inr start" "parse_hhmm (get_key d ''end'' VNone) what = Inr end'"
      "start \<noteq> 24 * 60" "start \<noteq> end'" "\<not> (cut \<and> act = ACCEPT)" and
    s: "s = \<lparr>sched_days = days, sched_start = start, sched_end = end', cut_established = cut\<rparr>"
    using assms by (auto simp: parse_schedule_def)
  have "\<forall>d\<in>set days. 0 \<le> d \<and> d < 7"
    by (rule fold_result_invariant [where P = "\<lambda>ds. \<forall>d\<in>set ds. 0 \<le> d \<and> d < 7", OF days]) (auto dest: parse_day_ok)
  moreover have "start < MINUTES_PER_DAY" using parse_hhmm_ok [OF times(1)] times(3) by (simp add: MINUTES_PER_DAY_def)
  ultimately show ?thesis using s times parse_hhmm_ok [OF times(1)] parse_hhmm_ok [OF times(2)] by (auto simp: schedule_ok_def)
qed

subsection \<open>Accepted rules\<close>

definition port_range_ok :: "port_spec \<Rightarrow> bool" where
  "port_range_ok p = (case p of Port n \<Rightarrow> 1 \<le> n \<and> n \<le> 65535 | PortRange lo hi \<Rightarrow> 1 \<le> lo \<and> lo \<le> hi \<and> hi \<le> 65535)"

definition declared :: "(string, zone) dict \<Rightarrow> string option \<Rightarrow> bool" where
  "declared zs z = (case z of None \<Rightarrow> True | Some n \<Rightarrow> map_of zs n \<noteq> None)"

text \<open>What the other components rely on in a rule.\<close>

definition loaded_rule :: "(string, zone) dict \<Rightarrow> rule \<Rightarrow> bool" where
  "loaded_rule zs r \<longleftrightarrow> name_re (rule_name r)
     \<and> declared zs (from_zone r) \<and> (to_zone r = Some SELF_ZONE \<or> declared zs (to_zone r))
     \<and> (case dst_port r of None \<Rightarrow> True | Some p \<Rightarrow> port_range_ok p \<and> (proto r = TCP \<or> proto r = UDP))
     \<and> src_address r \<noteq> Some [] \<and> dst_address r \<noteq> Some [] \<and> families r \<noteq> []
     \<and> (case schedule r of None \<Rightarrow> True
        | Some s \<Rightarrow> schedule_ok (sched_days s) (sched_start s) (sched_end s) \<and> (cut_established s \<longrightarrow> action r \<noteq> ACCEPT))"

lemma zone_ref_ok: "zone_ref zs v what = Inr z \<Longrightarrow> z = Some SELF_ZONE \<or> declared zs z"
  by (auto simp: zone_ref_def declared_def split: pyval.splits if_splits)

lemma require_name_ok: "require_name v what = Inr s \<Longrightarrow> name_re s"
  by (auto simp: require_name_def split: pyval.splits if_splits)

lemma port_of_ok: "port_of v what = Inr p \<Longrightarrow> port_range_ok p"
  by (auto simp: port_of_def port_range_ok_def Let_def split: pyval.splits if_splits list.splits bool.splits)

lemma parse_networks_ok: "parse_networks env v what = Inr ns \<Longrightarrow> ns \<noteq> Some []"
proof
  assume p: "parse_networks env v what = Inr ns" and "ns = Some []"
  then obtain items where "fold_result (parse_network env what) items [] = Inr []" "items \<noteq> []"
    by (auto simp: parse_networks_def Let_def split: if_splits)
  moreover obtain x xs where "items = x # xs" using \<open>items \<noteq> []\<close> by (cases items) auto
  ultimately obtain s1 where s1: "parse_network env what x [] = Inr s1" "fold_result (parse_network env what) xs s1 = Inr []" by auto
  have grow: "s \<noteq> [] \<or> y \<in> set xs \<Longrightarrow> parse_network env what y s = Inr s' \<Longrightarrow> s' \<noteq> []" for y s s'
    by (auto simp: parse_network_def split: option.splits if_splits)
  have "s1 \<noteq> []" using s1(1) by (auto simp: parse_network_def split: option.splits if_splits)
  have "([]::ip_network list) \<noteq> []"
    by (rule fold_result_invariant [where P = "\<lambda>s. s \<noteq> []", OF s1(2) \<open>s1 \<noteq> []\<close>]) (use grow in blast)
  then show False by simp
qed

lemma common_family:
  assumes "src_address r = None \<or> dst_address r = None \<or> families_of (src_address r) \<inter> families_of (dst_address r) \<noteq> {}"
    and "src_address r \<noteq> Some []" and "dst_address r \<noteq> Some []"
  shows "families r \<noteq> []"
proof -
  have net: "networks r f v \<noteq> [] \<longleftrightarrow> v \<in> net_family ` set (address_list r f)" for f v
    by (auto simp: networks_def filter_empty_conv)
  obtain v where "\<forall>f. address_list r f \<noteq> [] \<longrightarrow> v \<in> net_family ` set (address_list r f)"
  proof (cases "src_address r = None \<or> dst_address r = None")
    case True
    then have "address_list r Src_address = [] \<or> address_list r Dst_address = []" by (auto simp: address_list_def)
    then obtain g where g: "address_list r f \<noteq> [] \<Longrightarrow> f = g" for f by (metis address_field.exhaust)
    show ?thesis
    proof (rule that [of "net_family (hd (address_list r g))"], intro allI impI)
      fix f
      assume "address_list r f \<noteq> []"
      with g [of f] show "net_family (hd (address_list r g)) \<in> net_family ` set (address_list r f)" by simp
    qed
  next
    case False
    with assms obtain v where v: "v \<in> families_of (src_address r)" "v \<in> families_of (dst_address r)" by auto
    have "v \<in> net_family ` set (address_list r f)" for f
      using v by (cases f) (auto simp: families_of_def address_list_def split: option.splits)
    then show ?thesis using that by blast
  qed
  then have "v \<in> set (families r)" unfolding families_mem net by blast
  then show ?thesis by auto
qed

lemma parse_rule_ok:
  assumes "parse_rule env zs tz v acc = Inr acc'"
  obtains r where "acc' = acc @ [r]" and "loaded_rule zs r" and "rule_name r \<notin> rule_name ` set acc"
proof -
  obtain body name act fz toz p port src dst mac sched exp where
    1: "require_name (get_key body ''name'' VNone) ''rule'' = Inr name" "name \<notin> rule_name ` set acc" and
    2: "zone_ref zs (get_key body ''from_zone'' VNone) ''from_zone'' = Inr fz" "fz \<noteq> Some SELF_ZONE"
      "zone_ref zs (get_key body ''to_zone'' VNone) ''to_zone'' = Inr toz" and
    3: "parse_dst_port (get_key body ''dst_port'' VNone) p = Inr port" and
    4: "parse_networks env (get_key body ''src_address'' VNone) ''src_address'' = Inr src"
      "parse_networks env (get_key body ''dst_address'' VNone) ''dst_address'' = Inr dst"
      "src = None \<or> dst = None \<or> families_of src \<inter> families_of dst \<noteq> {}" and
    5: "optional (get_key body ''schedule'' VNone) (\<lambda>v. parse_schedule v ''schedule'' act) = Inr sched" and
    acc': "acc @ [\<lparr>rule_name = name, action = act, from_zone = fz, to_zone = toz, proto = p, dst_port = port,
       src_address = src, dst_address = dst, rule_log = truthy (get_key body ''log'' (VBool False)),
       require_ztna = truthy (get_key body ''require_ztna'' (VBool False)), src_mac = mac, schedule = sched, expires = exp\<rparr>] = acc'"
    using assms unfolding parse_rule_def bind_result_Inr_iff require_iff sum.inject by (elim exE conjE) (rule that; assumption)
  let ?r = "\<lparr>rule_name = name, action = act, from_zone = fz, to_zone = toz, proto = p, dst_port = port,
       src_address = src, dst_address = dst, rule_log = truthy (get_key body ''log'' (VBool False)),
       require_ztna = truthy (get_key body ''require_ztna'' (VBool False)), src_mac = mac, schedule = sched, expires = exp\<rparr>"
  have "src \<noteq> Some []" "dst \<noteq> Some []" using parse_networks_ok 4(1,2) by auto
  then have fam: "families ?r \<noteq> []" by (intro common_family) (use 4(3) in auto)
  have port: "case port of None \<Rightarrow> True | Some q \<Rightarrow> port_range_ok q \<and> (p = TCP \<or> p = UDP)"
    using 3 by (auto simp: parse_dst_port_def optional_def port_of_ok split: if_splits option.splits)
  have sch: "case sched of None \<Rightarrow> True | Some s \<Rightarrow> schedule_ok (sched_days s) (sched_start s) (sched_end s) \<and> (cut_established s \<longrightarrow> act \<noteq> ACCEPT)"
    using 5 parse_schedule_ok by (fastforce simp: optional_def split: if_splits option.splits)
  have "loaded_rule zs ?r"
    using require_name_ok [OF 1(1)] zone_ref_ok [OF 2(1)] 2(2) zone_ref_ok [OF 2(3)] port sch fam \<open>src \<noteq> Some []\<close> \<open>dst \<noteq> Some []\<close>
    by (simp add: loaded_rule_def cong: option.case_cong)
  with acc' 1(2) show ?thesis by (intro that [of ?r]) auto
qed

lemma parse_rules_ok:
  assumes "parse_rules env raw zs tz = Inr rs"
  shows "distinct (map rule_name rs) \<and> list_all (loaded_rule zs) rs"
proof -
  obtain bodies where "fold_result (parse_rule env zs tz) bodies [] = Inr rs" using assms by (auto simp: parse_rules_def)
  then show ?thesis
    by (rule fold_result_invariant) (auto elim!: parse_rule_ok)
qed

subsection \<open>Accepted zones, interfaces and tunnels\<close>

lemma parse_zone_ok:
  assumes "parse_zone x acc = Inr acc'"
  obtains n z where "name_re n" and "n \<noteq> SELF_ZONE" and "zone_name z = n" and "acc' = AList.update n z acc"
proof -
  obtain n d where "require_name (fst x) ''zone'' = Inr n" "n \<noteq> SELF_ZONE"
    "AList.update n \<lparr>zone_name = n, zone_description = d\<rparr> acc = acc'"
    using assms unfolding parse_zone_def bind_result_Inr_iff require_iff sum.inject by (elim exE conjE) (rule that; assumption)
  then show thesis by (intro that [of n "\<lparr>zone_name = n, zone_description = d\<rparr>"]) (auto dest: require_name_ok)
qed

lemma parse_zones_ok:
  assumes "parse_zones raw = Inr zs"
  shows "dict_ok zs \<and> list_all (\<lambda>(n, z). name_re n \<and> n \<noteq> SELF_ZONE \<and> zone_name z = n) zs"
proof -
  obtain items where items: "fold_result parse_zone items [] = Inr zs" using assms by (auto simp: parse_zones_def)
  show ?thesis
  proof (rule fold_result_invariant [OF items])
    fix x acc acc'
    assume ok: "dict_ok acc \<and> list_all (\<lambda>(n, z). name_re n \<and> n \<noteq> SELF_ZONE \<and> zone_name z = n) acc" and "parse_zone x acc = Inr acc'"
    then obtain n z where n: "name_re n" "n \<noteq> SELF_ZONE" "zone_name z = n" and acc': "acc' = AList.update n z acc"
      by (elim conjE parse_zone_ok) blast
    from set_AList_update [of n z acc] ok n show "dict_ok acc' \<and> list_all (\<lambda>(n, z). name_re n \<and> n \<noteq> SELF_ZONE \<and> zone_name z = n) acc'"
      unfolding acc' list_all_iff by (auto simp: dict_simps)
  qed (simp add: dict_ok_def)
qed

definition loaded_interface :: "(string, zone) dict \<Rightarrow> interface \<Rightarrow> bool" where
  "loaded_interface zs i \<longleftrightarrow> map_of zs (if_zone i) \<noteq> None \<and> safe_argument (if_device i)
     \<and> (case vlan_id i of None \<Rightarrow> True | Some v \<Rightarrow> 1 \<le> v \<and> v \<le> 4094 \<and> vlan_parent i \<noteq> None \<and> vlan_parent i \<noteq> Some (if_device i))"

lemma ifname_ok: "ifname v = Inr s \<Longrightarrow> safe_argument s"
  by (auto simp: ifname_def refuse_unless_def ifname_safe split: if_splits)

lemma as_int_iff: "as_int ok v what = Inr i \<longleftrightarrow> v = VInt i \<and> ok i"
  by (auto simp: as_int_def split: pyval.splits if_splits)

lemma parse_vlan_ok:
  "parse_vlan v d = Inr (parent, vid) \<Longrightarrow>
     (case vid of None \<Rightarrow> True | Some i \<Rightarrow> 1 \<le> i \<and> i \<le> 4094 \<and> parent \<noteq> None \<and> parent \<noteq> Some d)"
  by (auto simp: parse_vlan_def as_int_iff split: if_splits)

lemma parse_interface_ok:
  assumes "parse_interface zs x acc = Inr acc'"
  obtains n i where "loaded_interface zs i" and "acc' = AList.update n i acc"
proof -
  obtain n d z a desc v parent vid where 1: "checked (ifname v) ''device'' = Inr d" and 2: "map_of zs z \<noteq> None" and
    3: "parse_vlan desc d = Inr (parent, vid)" and
    4: "AList.update n \<lparr>if_name = n, if_device = d, if_zone = z, if_address = fst a, if_description = snd a, vlan_parent = parent, vlan_id = vid\<rparr> acc = acc'"
    using assms unfolding parse_interface_def bind_result_Inr_iff require_iff sum.inject split_paired_Ex prod.case
    by (elim exE conjE) (rule that [where a = "(_, _)", unfolded fst_conv snd_conv]; assumption)
  from 1 have "safe_argument d" by (auto simp: checked_def split: sum.splits dest: ifname_ok)
  with 2 parse_vlan_ok [OF 3] 4 show thesis
    by (intro that [OF _ 4 [symmetric]]) (simp add: loaded_interface_def cong: option.case_cong)
qed

lemma parse_interfaces_ok:
  assumes "parse_interfaces raw zs tz = Inr ifs"
  shows "list_all (\<lambda>(_, i). loaded_interface zs i) ifs"
proof -
  obtain items where items: "fold_result (parse_interface zs) items [] = Inr ifs" using assms by (auto simp: parse_interfaces_def)
  show ?thesis
  proof (rule fold_result_invariant [OF items])
    fix x acc acc'
    assume ok: "list_all (\<lambda>(_, i). loaded_interface zs i) acc" and "parse_interface zs x acc = Inr acc'"
    then obtain n i where i: "loaded_interface zs i" and acc': "acc' = AList.update n i acc"
      by (elim parse_interface_ok) blast
    from set_AList_update [of n i acc] ok i show "list_all (\<lambda>(_, i). loaded_interface zs i) acc'"
      unfolding acc' list_all_iff by auto
  qed simp
qed

lemma parse_wireguard_zone:
  assumes "parse_wireguard env raw zs n ifs = Inr wg" and "wg_enabled wg"
  shows "map_of zs (wg_zone wg) \<noteq> None \<and> wg_zone wg \<notin> set (internet_facing_zones zs n)"
proof -
  obtain enabled zone_raw z port addr host peers where
    z: "(if enabled \<or> zone_raw \<noteq> VStr ''vpn''
       then bind_result (as_str zone_raw ''wireguard.zone'') (\<lambda>z.
            bind_result (require (map_of zs z \<noteq> None) ''wireguard.zone'') (\<lambda>_.
            bind_result (require (z \<notin> set (internet_facing_zones zs n)) ''faces the internet'') (\<lambda>_. Inr z)))
       else Inr ''vpn'') = Inr z" and
    wg: "\<lparr>wg_enabled = enabled, wg_listen_port = port, wg_address = addr, wg_zone = z, wg_endpoint = host, wg_peers = peers\<rparr> = wg"
    using assms(1) unfolding parse_wireguard_def Let_def bind_result_Inr_iff [of _ _ wg] sum.inject by (elim exE conjE) (rule that; assumption)
  have "enabled" using wg assms(2) by auto
  with z have "map_of zs z \<noteq> None \<and> z \<notin> set (internet_facing_zones zs n)" by auto
  with wg show ?thesis by auto
qed

lemma parse_management_zones:
  assumes "parse_management raw zs n = Inr m" and "\<not> allow_wan m"
  shows "set (mgmt_zones m) \<inter> set (internet_facing_zones zs n) = {}"
proof -
  obtain wan_ok zones_raw chosen secs addrs v6 where
    ch: "fold_result (parse_mgmt_zone zs (internet_facing_zones zs n) wan_ok) zones_raw [] = Inr chosen" and
    m: "\<lparr>mgmt_zones = chosen, allow_wan = wan_ok, confirm_apply_seconds = secs, mgmt_addresses = addrs, mgmt_ipv6 = v6\<rparr> = m"
    using assms(1) unfolding parse_management_def bind_result_Inr_iff sum.inject by (elim exE conjE) (rule that; assumption)
  have "\<not> wan_ok" using m assms(2) by auto
  have "set chosen \<inter> set (internet_facing_zones zs n) = {}"
    by (rule fold_result_invariant [OF ch]) (use \<open>\<not> wan_ok\<close> in \<open>auto simp: parse_mgmt_zone_def split: if_splits\<close>)
  with m show ?thesis by auto
qed

end
