(* ===== verification/Apply_Confirm.thy ===== *)
theory Apply_Confirm
  imports Builder Loader
begin

text \<open>
  Confirm an apply, or go back: \<open>src/src/frfw/apply_confirm.py\<close>, the apply of the privileged helper
  (\<open>src/src/frfw/helper/server.py\<close>, \<open>_handle_apply\<close>, \<open>_apply_locked\<close>) and of the boot
  (\<open>src/src/frfw/cli.py\<close>), and where the management plane listens (\<open>src/src/frfw/management.py\<close>).

  The state is the files these share (config.yaml, the record of the applied config, the pending
  record, the rejected config), the ruleset in the kernel with its saved copies, and the record of the
  schedule check.  Parameters stand for what they call: \<open>parse\<close> (YAML and the loader), \<open>outcome\<close> (how the
  transaction of \<open>Transaction\<close> ends for a config; it records the text as applied only if it
  succeeds), \<open>rendered\<close> (what nft lists once it has loaded a config's ruleset) and the clocks.  They may
  differ from step to step.  An operation that holds the lock is one step; one that reads config.yaml
  outside the lock, or more than once, takes what it read as arguments, and every writable file is
  assumed to be writable.
\<close>

subsection \<open>Where the management plane listens (management.py)\<close>

definition ANY_ADDRESS :: string where "ANY_ADDRESS = ''0.0.0.0''"
definition LOOPBACK :: string where "LOOPBACK = ''127.0.0.1''"

text \<open>\<open>str(IPv4Interface(address).ip)\<close>, of an address the loader normalised.\<close>

definition interface_ip :: "string \<Rightarrow> string" where
  "interface_ip a = takeWhile (\<lambda>c. c \<noteq> CHR ''/'') a"

definition interface_addresses :: "config \<Rightarrow> (string \<times> string) list" where
  "interface_addresses cfg =
     fold (\<lambda>i found. case if_address i of
         Some a \<Rightarrow> if if_zone i \<in> set (management_zones cfg) \<and> a \<noteq> [] \<and> interface_ip a \<notin> fst ` set found
                   then found @ [(interface_ip a, if_name i)] else found
       | None \<Rightarrow> found) (sort_key if_name (map snd (interfaces cfg))) []"

text \<open>\<open>stable\<close>: the router's own IPv6 addresses (\<open>ipv6_addresses\<close>), which depend on a prefix kept on disk.\<close>

definition listen_addresses :: "(config \<Rightarrow> string list) \<Rightarrow> config \<Rightarrow> string list" where
  "listen_addresses ipv6_addresses cfg =
     (let stable = ipv6_addresses cfg in
      if allow_wan (management cfg) then ANY_ADDRESS # stable
      else if mgmt_addresses (management cfg) \<noteq> [] then LOOPBACK # mgmt_addresses (management cfg) @ stable
      else LOOPBACK # map fst (interface_addresses cfg) @ stable)"

definition ipv4_only :: "string list \<Rightarrow> string list" where
  "ipv4_only as = filter (\<lambda>a. CHR '':'' \<notin> set a) as"

definition moves_management :: "(config \<Rightarrow> string list) \<Rightarrow> config \<Rightarrow> config option \<Rightarrow> bool" where
  "moves_management ipv6_addresses cfg previous =
     (case previous of None \<Rightarrow> False
      | Some p \<Rightarrow> management cfg = management p \<and>
          set (ipv4_only (listen_addresses ipv6_addresses p)) \<noteq> set (ipv4_only (listen_addresses ipv6_addresses cfg)))"

subsection \<open>The pending apply (apply_confirm.py)\<close>

record pending =
  pd_id :: string
  pd_deadline :: seconds
  pd_seconds :: int
  pd_by :: string
  pd_addresses :: "string list"
  pd_previous :: string

definition remaining :: "pending \<Rightarrow> seconds \<Rightarrow> int" where
  "remaining p now = max 0 \<lfloor>pd_deadline p - now + 999 / 1000\<rfloor>"

record public_pending =
  pub_id :: string
  pub_remaining :: int
  pub_seconds :: int
  pub_by :: string
  pub_addresses :: "string list"

definition public :: "pending \<Rightarrow> seconds \<Rightarrow> public_pending" where
  "public p now = \<lparr>pub_id = pd_id p, pub_remaining = remaining p now, pub_seconds = pd_seconds p, pub_by = pd_by p,
     pub_addresses = pd_addresses p\<rparr>"

text \<open>
  The router: the files an apply and its confirmation share, and what the apply has put into the
  kernel.  \<open>loaded\<close> is what \<open>nft list ruleset\<close> prints (nothing when nothing is loaded), \<open>backups\<close> the
  saved rulesets by the second they were saved in (their file names are that time, so they sort by
  it), and \<open>schedule_record\<close> the clock and fingerprint of \<open>schedule_refresh.record_applied\<close>.
\<close>

record router =
  config_yaml :: "string option"
  applied :: "string option"
  waiting :: "pending option"
  rejected :: "string option"
  alerts :: "string list"
  loaded :: string
  backups :: "(int \<times> string) list"
  schedule_record :: "(schedule_clock \<times> string) option"

datatype pending_error = PendingError string | ApplyFailed string | ConfigError

text \<open>
  How the transaction of an apply ends: it succeeds, it is refused before anything changes (the
  preflight), or a step fails; then \<open>reached\<close> says how far the firewall step came, and the flag
  whether that step was undone (it is not when it had not begun, or when its undo fails).
\<close>

datatype reached = NothingLoaded | BackedUp | NewLoaded
datatype attempt = Done | Refused | FailedAt reached bool

record apply_env =
  parse :: "string \<Rightarrow> config option"
  own_ipv6 :: "config \<Rightarrow> string list"
  outcome :: "config \<Rightarrow> attempt"
  rendered :: "config \<Rightarrow> string"
  backup_at :: int
  undo_at :: int
  clock_now :: "string option \<Rightarrow> schedule_clock"
  fingerprint :: "config \<Rightarrow> string"
  far :: "config \<Rightarrow> bool \<times> bool"
  with_addresses :: "string \<Rightarrow> string list \<Rightarrow> string option"
  nft_ok :: bool
  fr_os_table :: "string \<Rightarrow> bool"
  baseline :: string

subsection \<open>The ruleset an apply loads (apply.py, provision.py, schedule_refresh.py)\<close>

definition BACKUP_RETENTION :: nat where "BACKUP_RETENTION = 10"

definition prune_backups :: "nat \<Rightarrow> (int \<times> string) list \<Rightarrow> (int \<times> string) list" where
  "prune_backups retention bs = drop (length bs - retention) bs"

definition backup_current_ruleset :: "int \<Rightarrow> router \<Rightarrow> router" where
  "backup_current_ruleset sec r =
     (if loaded r = [] then r
      else r\<lparr>backups := prune_backups BACKUP_RETENTION (sort_key fst ((sec, loaded r) # filter (\<lambda>b. fst b \<noteq> sec) (backups r)))\<rparr>)"

definition has_schedules :: "config \<Rightarrow> bool" where
  "has_schedules cfg = list_ex (\<lambda>ru. schedule ru \<noteq> None) (rules cfg)"

definition firewall :: "apply_env \<Rightarrow> int \<Rightarrow> config \<Rightarrow> router \<Rightarrow> router" where
  "firewall env sec cfg r = (backup_current_ruleset sec r)\<lparr>loaded := rendered env cfg,
     schedule_record := (if has_schedules cfg then Some (clock_now env (timezone cfg), fingerprint env cfg) else None)\<rparr>"

definition load_applied_config :: "apply_env \<Rightarrow> router \<Rightarrow> config option" where
  "load_applied_config env r = (case applied r of None \<Rightarrow> None | Some t \<Rightarrow> parse env t)"

text \<open>The undo is chosen before the step runs (in \<open>before\<close>) and run after it (in \<open>r\<close>).\<close>

definition firewall_undo :: "apply_env \<Rightarrow> router \<Rightarrow> router \<Rightarrow> router" where
  "firewall_undo env before r =
     (case load_applied_config env before of
        Some previous \<Rightarrow> firewall env (undo_at env) previous r
      | None \<Rightarrow> if loaded before \<noteq> [] then r\<lparr>loaded := loaded before, schedule_record := schedule_record before\<rparr> else r)"

text \<open>\<open>apply_all\<close>: \<open>source\<close> is the text recorded as applied once the apply has succeeded.\<close>

definition apply_config :: "apply_env \<Rightarrow> config \<Rightarrow> string option \<Rightarrow> router \<Rightarrow> string option \<times> router" where
  "apply_config env cfg source r =
     (case outcome env cfg of
        Refused \<Rightarrow> (Some ''the apply failed'', r)
      | FailedAt got undone \<Rightarrow>
          (let r1 = (case got of NothingLoaded \<Rightarrow> r | BackedUp \<Rightarrow> backup_current_ruleset (backup_at env) r
                     | NewLoaded \<Rightarrow> firewall env (backup_at env) cfg r)
           in (Some ''the apply failed'', if undone then firewall_undo env r r1 else r1))
      | Done \<Rightarrow>
          (let r1 = firewall env (backup_at env) cfg r
           in (None, case source of None \<Rightarrow> r1 | Some t \<Rightarrow> r1\<lparr>applied := Some t\<rparr>)))"

text \<open>
  \<open>transactional=False\<close>: no preflight, no roll-back and no record; \<open>far\<close> says whether the ruleset was
  loaded and whether everything after it worked.
\<close>

datatype apply_result = Applied | NotApplied string | Raised

definition apply_as_far :: "apply_env \<Rightarrow> config \<Rightarrow> router \<Rightarrow> apply_result \<times> router" where
  "apply_as_far env cfg r =
     (case far env cfg of (got, rest) \<Rightarrow>
        (if got \<and> rest then Applied else Raised, if got then firewall env (undo_at env) cfg r else r))"

definition rollback_last :: "apply_env \<Rightarrow> router \<Rightarrow> router" where
  "rollback_last env r = (if backups r = [] \<or> \<not> nft_ok env then r else r\<lparr>loaded := snd (last (backups r))\<rparr>)"

definition load_baseline :: "apply_env \<Rightarrow> router \<Rightarrow> router" where
  "load_baseline env r = (if nft_ok env then r\<lparr>loaded := baseline env\<rparr> else r)"

datatype check_status = NoSchedules | NotRecorded | UpToDate | ConfigChanged | Refresh

definition schedule_refresh_check :: "apply_env \<Rightarrow> config \<Rightarrow> router \<Rightarrow> check_status" where
  "schedule_refresh_check env cfg r =
     (if \<not> has_schedules cfg then NoSchedules
      else case schedule_record r of None \<Rightarrow> NotRecorded
        | Some (clock, mark) \<Rightarrow> if clock = clock_now env (timezone cfg) then UpToDate
            else if mark \<noteq> fingerprint env cfg then ConfigChanged else Refresh)"

subsection \<open>Holding, confirming and reverting (apply_confirm.py)\<close>

text \<open>\<open>begin\<close>: \<open>id\<close> is the random token, \<open>start_ok\<close> whether the waiting unit could be started.\<close>

definition hold :: "string \<Rightarrow> int \<Rightarrow> string \<Rightarrow> string list \<Rightarrow> string \<Rightarrow> seconds \<Rightarrow> bool \<Rightarrow> router \<Rightarrow>
    (pending_error, pending) result \<times> router" where
  "hold previous seconds by addresses token now start_ok r =
     (let p = \<lparr>pd_id = token, pd_deadline = now + of_int seconds, pd_seconds = seconds, pd_by = by,
               pd_addresses = addresses, pd_previous = previous\<rparr>;
          r1 = r\<lparr>waiting := Some p\<rparr>
      in if start_ok then (Inr p, r1)
         else (Inl (PendingError ''could not start fr-apply-revert.service''), r1\<lparr>waiting := None\<rparr>))"

definition confirm :: "string \<Rightarrow> router \<Rightarrow> (pending_error, pending) result \<times> router" where
  "confirm pending_id r =
     (case waiting r of
        None \<Rightarrow> (Inl (PendingError ''No apply is waiting for confirmation (it may have been reverted already)''), r)
      | Some p \<Rightarrow> if pending_id \<noteq> pd_id p
          then (Inl (PendingError ''That is not the apply waiting for confirmation -- reload the page''), r)
          else (Inr p, r\<lparr>waiting := None\<rparr>))"

definition who :: "pending \<Rightarrow> string" where
  "who p = (if pd_by p = [] then [] else '' by '' @ pd_by p)"

definition keep_unconfirmed :: "string \<Rightarrow> router \<Rightarrow> router" where
  "keep_unconfirmed previous r =
     (case config_yaml r of None \<Rightarrow> r | Some text \<Rightarrow> if text \<noteq> previous then r\<lparr>rejected := Some text\<rparr> else r)"

text \<open>
  \<open>revert\<close> takes the function that applies as an argument: \<open>apply_all\<close>, or at boot one that goes as far
  as it can.  An exception that is no \<open>ApplyError\<close> leaves the record where it is.
\<close>

definition revert_with :: "(config \<Rightarrow> string \<Rightarrow> router \<Rightarrow> apply_result \<times> router) \<Rightarrow> apply_env \<Rightarrow> string \<Rightarrow> router \<Rightarrow>
    (pending_error, string list) result \<times> router" where
  "revert_with apply_fn env why r =
     (case waiting r of None \<Rightarrow> (Inl (PendingError ''No apply is waiting for confirmation''), r)
      | Some p \<Rightarrow>
         (case parse env (pd_previous p) of
            None \<Rightarrow>
              (let warning = ''The apply was not confirmed ('' @ why @ ''), but the config applied before it is no longer valid''
                     @ '': the router keeps the one applied''
               in (Inr [warning], r\<lparr>waiting := None, alerts := alerts r @ [warning]\<rparr>))
          | Some cfg \<Rightarrow>
              (case apply_fn cfg (pd_previous p) r of
                 (Raised, r1) \<Rightarrow> (Inl (ApplyFailed ''raised''), r1)
               | (ended, r1) \<Rightarrow>
                  (let r2 = (keep_unconfirmed (pd_previous p) r1)\<lparr>config_yaml := Some (pd_previous p), waiting := None\<rparr>;
                       warning = (case ended of
                           NotApplied f \<Rightarrow> ''The apply'' @ who p @ '' was not confirmed ('' @ why
                             @ ''), and going back to the config applied before it failed: '' @ f
                             @ ''. config.yaml is that config again, so a reboot applies it.''
                         | _ \<Rightarrow> ''The apply'' @ who p @ '' was not confirmed ('' @ why
                             @ ''): the router went back to the config applied before it. The unconfirmed config is kept -- load it from the dashboard to fix it.'')
                   in (Inr [warning], r2\<lparr>alerts := alerts r2 @ [warning]\<rparr>)))))"

definition apply_previous :: "apply_env \<Rightarrow> config \<Rightarrow> string \<Rightarrow> router \<Rightarrow> apply_result \<times> router" where
  "apply_previous env cfg text r =
     (case apply_config env cfg (Some text) r of (None, r1) \<Rightarrow> (Applied, r1) | (Some f, r1) \<Rightarrow> (NotApplied f, r1))"

definition revert :: "apply_env \<Rightarrow> string \<Rightarrow> router \<Rightarrow> (pending_error, string list) result \<times> router" where
  "revert env = revert_with (apply_previous env) env"

text \<open>One turn of the loop of \<open>wait\<close>: the result, or how long to sleep.\<close>

datatype 'a poll = Finished 'a | Sleep seconds

definition wait_turn :: "apply_env \<Rightarrow> seconds \<Rightarrow> router \<Rightarrow> (pending_error, string list) result poll \<times> router" where
  "wait_turn env now r =
     (case waiting r of None \<Rightarrow> (Finished (Inr [''Nothing waiting for confirmation'']), r)
      | Some p \<Rightarrow>
         (let left = pd_deadline p - now in
          if left \<le> 0
          then (case revert env (''no confirmation within '' @ show_int (pd_seconds p) @ '' s'') r of (res, r1) \<Rightarrow> (Finished res, r1))
          else (Sleep (min 1 left), r)))"

text \<open>
  The loop: \<open>clock i\<close> is the time at turn \<open>i\<close>, \<open>others i\<close> what the other processes did to the files
  while it slept after turn \<open>i\<close>.
\<close>

fun wait :: "apply_env \<Rightarrow> (nat \<Rightarrow> seconds) \<Rightarrow> (nat \<Rightarrow> router \<Rightarrow> router) \<Rightarrow> nat \<Rightarrow> nat \<Rightarrow> router \<Rightarrow>
    ((pending_error, string list) result \<times> router) option" where
  "wait env clock others 0 i r = None"
| "wait env clock others (Suc fuel) i r =
     (case wait_turn env (clock i) r of
        (Finished res, r1) \<Rightarrow> Some (res, r1)
      | (Sleep _, r1) \<Rightarrow> wait env clock others fuel (Suc i) (others i r1))"

definition restore_rejected :: "apply_env \<Rightarrow> router \<Rightarrow> (pending_error, string) result \<times> router" where
  "restore_rejected env r =
     (if waiting r \<noteq> None then (Inl (PendingError ''Confirm or revert the pending apply first''), r)
      else case rejected r of None \<Rightarrow> (Inl (PendingError ''There is no unconfirmed config to load''), r)
        | Some text \<Rightarrow> (case parse env text of None \<Rightarrow> (Inl ConfigError, r)
            | Some _ \<Rightarrow> (Inr ''The unconfirmed config is in config.yaml again: fix it, then Apply'',
                         r\<lparr>config_yaml := Some text, rejected := None\<rparr>)))"

definition needs_confirmation :: "config \<Rightarrow> string \<Rightarrow> string option \<Rightarrow> bool" where
  "needs_confirmation cfg text previous \<longleftrightarrow>
     confirm_apply_seconds (management cfg) > 0 \<and> previous \<noteq> None \<and> previous \<noteq> Some text"

subsection \<open>The apply of the helper (helper/server.py)\<close>

record apply_request =
  rq_confirm :: bool
  rq_user :: string
  rq_token :: string
  rq_now :: seconds
  rq_start_ok :: bool

definition reachable_addresses :: "apply_env \<Rightarrow> config \<Rightarrow> string list" where
  "reachable_addresses env cfg = filter (\<lambda>a. a \<noteq> LOOPBACK) (listen_addresses (own_ipv6 env) cfg)"

definition apply_locked :: "apply_env \<Rightarrow> apply_request \<Rightarrow> config \<Rightarrow> string \<Rightarrow> router \<Rightarrow>
    (pending_error, pending option) result \<times> router" where
  "apply_locked env rq cfg text r =
     (if waiting r \<noteq> None then (Inl (PendingError ''The last apply is waiting for confirmation''), r)
      else if moves_management (own_ipv6 env) cfg (load_applied_config env r) then (Inl (ApplyFailed ''the webUI address''), r)
      else case apply_config env cfg (Some text) r of
          (Some e, r1) \<Rightarrow> (Inl (ApplyFailed e), r1)
        | (None, r1) \<Rightarrow>
            (if rq_confirm rq \<and> needs_confirmation cfg text (applied r)
             then (case hold (the (applied r)) (confirm_apply_seconds (management cfg)) (rq_user rq)
                     (reachable_addresses env cfg) (rq_token rq) (rq_now rq) (rq_start_ok rq) r1 of
                     (Inr p, r2) \<Rightarrow> (Inr (Some p), r2)
                   | (Inl _, r2) \<Rightarrow> (Inr None, r2))
             else (Inr None, r1)))"

text \<open>
  \<open>_handle_apply\<close> reads config.yaml first and takes the lock then: \<open>text\<close> is what config.yaml held when
  the request came in.
\<close>

definition handle_apply :: "apply_env \<Rightarrow> apply_request \<Rightarrow> string \<Rightarrow> router \<Rightarrow> (pending_error, pending option) result \<times> router" where
  "handle_apply env rq text r =
     (case parse env text of None \<Rightarrow> (Inl ConfigError, r) | Some cfg \<Rightarrow> apply_locked env rq cfg text r)"

text \<open>\<open>with_addresses\<close> is the YAML text with \<open>management.addresses\<close> set (None where it is no YAML mapping).\<close>

definition handle_set_management_addresses :: "apply_env \<Rightarrow> apply_request \<Rightarrow> string list \<Rightarrow> router \<Rightarrow>
    (pending_error, pending option) result \<times> router" where
  "handle_set_management_addresses env rq addresses r =
     (case config_yaml r of None \<Rightarrow> (Inl ConfigError, r)
      | Some text \<Rightarrow>
         if addresses = [] then (Inl ConfigError, r)
         else if waiting r \<noteq> None then (Inl (PendingError ''The last apply is waiting for confirmation: confirm it or go back first''), r)
         else if applied r \<noteq> None \<and> applied r \<noteq> Some text then (Inl (PendingError ''The config has changes that aren't applied yet''), r)
         else case with_addresses env text addresses of None \<Rightarrow> (Inl ConfigError, r)
           | Some new_text \<Rightarrow> (case parse env new_text of None \<Rightarrow> (Inl ConfigError, r)
              | Some cfg \<Rightarrow>
                 (case apply_locked env (rq\<lparr>rq_confirm := True\<rparr>) cfg new_text (r\<lparr>config_yaml := Some new_text\<rparr>) of
                    (Inl e, r1) \<Rightarrow> (Inl e, r1\<lparr>config_yaml := Some text\<rparr>)
                  | (Inr p, r1) \<Rightarrow> (Inr p, r1))))"

definition handle_save_config :: "apply_env \<Rightarrow> string \<Rightarrow> router \<Rightarrow> router" where
  "handle_save_config env text r = (if parse env text = None then r else r\<lparr>config_yaml := Some text\<rparr>)"

subsection \<open>The console (cli.py)\<close>

text \<open>
  \<open>firewall-cli apply\<close>: it reads config.yaml for the check of the management address, to apply it and
  to hold it; \<open>t1\<close>, \<open>t2\<close>, \<open>t3\<close> are what the file held each time, as a save does not wait for the lock.
\<close>

definition cmd_apply :: "apply_env \<Rightarrow> int option \<Rightarrow> apply_request \<Rightarrow> string \<Rightarrow> string \<Rightarrow> string \<Rightarrow> router \<Rightarrow> bool \<times> router" where
  "cmd_apply env confirm_within rq t1 t2 t3 r =
     (if (case confirm_within of None \<Rightarrow> False | Some n \<Rightarrow> n < CONFIRM_APPLY_MIN \<or> CONFIRM_APPLY_MAX < n) then (False, r)
      else if waiting r \<noteq> None then (False, r)
      else case parse env t1 of None \<Rightarrow> (False, r)
      | Some c1 \<Rightarrow>
         if moves_management (own_ipv6 env) c1 (load_applied_config env r) then (False, r)
         else case parse env t2 of None \<Rightarrow> (False, r)
         | Some cfg \<Rightarrow>
            (case apply_config env cfg (Some t2) r of
               (Some _, r1) \<Rightarrow> (False, r1)
             | (None, r1) \<Rightarrow>
                (case confirm_within of None \<Rightarrow> (True, r1)
                 | Some seconds \<Rightarrow>
                    (case parse env t3 of None \<Rightarrow> (False, r1)
                     | Some c3 \<Rightarrow>
                        if applied r \<noteq> None \<and> applied r \<noteq> Some t3
                        then (case hold (the (applied r)) seconds ''console'' (reachable_addresses env c3) (rq_token rq)
                                (rq_now rq) (rq_start_ok rq) r1 of (res, r2) \<Rightarrow> (\<not> isl res, r2))
                        else (True, r1)))))"

definition cmd_management_addresses :: "apply_env \<Rightarrow> int option \<Rightarrow> apply_request \<Rightarrow> string list \<Rightarrow> router \<Rightarrow> bool \<times> router" where
  "cmd_management_addresses env confirm_within rq addresses r =
     (case config_yaml r of None \<Rightarrow> (False, r)
      | Some text \<Rightarrow>
         if applied r \<noteq> None \<and> applied r \<noteq> Some text then (False, r)
         else case with_addresses env text addresses of None \<Rightarrow> (False, r)
           | Some new_text \<Rightarrow> if parse env new_text = None then (False, r)
              else (case cmd_apply env confirm_within rq new_text new_text new_text (r\<lparr>config_yaml := Some new_text\<rparr>) of
                      (True, r1) \<Rightarrow> (True, r1)
                    | (False, r1) \<Rightarrow> (False, r1\<lparr>config_yaml := Some text\<rparr>)))"

text \<open>
  The hourly schedule check: \<open>t1\<close> is config.yaml as the check read it, and the file is read again once
  the lock is taken.
\<close>

definition cmd_schedule_check :: "apply_env \<Rightarrow> string \<Rightarrow> router \<Rightarrow> router" where
  "cmd_schedule_check env t1 r =
     (case parse env t1 of None \<Rightarrow> r
      | Some c1 \<Rightarrow>
         if schedule_refresh_check env c1 r \<noteq> Refresh then r
         else case config_yaml r of None \<Rightarrow> r
           | Some text \<Rightarrow> (case parse env text of None \<Rightarrow> r | Some cfg \<Rightarrow> snd (apply_config env cfg (Some text) r)))"

text \<open>The boot (\<open>apply --fail-closed\<close>): a pending apply is reverted first, as a reboot is no confirmation.\<close>

definition boot_apply :: "apply_env \<Rightarrow> config \<Rightarrow> string \<Rightarrow> router \<Rightarrow> apply_result \<times> router" where
  "boot_apply env cfg text r =
     (case apply_config env cfg (Some text) r of (None, r1) \<Rightarrow> (Applied, r1) | (Some _, r1) \<Rightarrow> apply_as_far env cfg r1)"

definition baseline_if_unfiltered :: "apply_env \<Rightarrow> router \<Rightarrow> router" where
  "baseline_if_unfiltered env r = (if fr_os_table env (loaded r) then r else load_baseline env r)"

definition boot_revert :: "apply_env \<Rightarrow> router \<Rightarrow> (pending_error, string list) result \<times> router" where
  "boot_revert env r =
     (case revert_with (boot_apply env) env ''the router restarted before it was confirmed'' r of
        (Inl e, r1) \<Rightarrow> (Inl e, baseline_if_unfiltered env r1)
      | (Inr ms, r1) \<Rightarrow> (Inr ms, r1))"

definition boot_without :: "apply_env \<Rightarrow> config \<Rightarrow> router \<Rightarrow> apply_result \<times> router" where
  "boot_without env cfg r =
     (let last_resort = (\<lambda>r1. apply_as_far env cfg
            (r1\<lparr>alerts := alerts r1 @ [''config.yaml could not be applied at boot; applied as far as it goes'']\<rparr>))
      in case load_applied_config env r of None \<Rightarrow> last_resort r
         | Some last_cfg \<Rightarrow> if last_cfg = cfg then last_resort r
             else (case apply_config env last_cfg None r of
                     (None, r1) \<Rightarrow> (Applied, r1\<lparr>alerts := alerts r1
                       @ [''config.yaml could not be applied at boot, so the router runs the last config that was applied in full'']\<rparr>)
                   | (Some _, r1) \<Rightarrow> last_resort r1))"

definition apply_fail_closed :: "apply_env \<Rightarrow> router \<Rightarrow> router" where
  "apply_fail_closed env r =
     (case config_yaml r of None \<Rightarrow> load_baseline env r
      | Some text \<Rightarrow>
         (case parse env text of None \<Rightarrow> baseline_if_unfiltered env r
          | Some cfg \<Rightarrow>
             (case apply_config env cfg (Some text) r of
                (None, r1) \<Rightarrow> r1
              | (Some _, r1) \<Rightarrow> (case boot_without env cfg r1 of
                    (Applied, r2) \<Rightarrow> r2 | (_, r2) \<Rightarrow> baseline_if_unfiltered env r2))))"

subsection \<open>Everything that can happen to a router\<close>

text \<open>
  \<open>Edit\<close> is an editor on the console, \<open>PowerCycle\<close> loses the kernel's ruleset.  \<open>BootApply\<close> is the part of the
  boot after its look at the pending record, which holds no lock: it may also run after an apply has
  begun to wait.
\<close>

datatype router_event =
    Save string
  | Edit "string option"
  | HelperApply apply_request string
  | HelperMove apply_request "string list"
  | CliApply "int option" apply_request string string string
  | CliMove "int option" apply_request "string list"
  | Restore
  | Confirm string
  | Revert string
  | Tick seconds
  | BootRevert
  | BootApply
  | PowerCycle
  | Rollback
  | ScheduleCheck string

fun router_step :: "apply_env \<Rightarrow> router_event \<Rightarrow> router \<Rightarrow> router" where
  "router_step env (Save text) r = handle_save_config env text r"
| "router_step env (Edit text) r = r\<lparr>config_yaml := text\<rparr>"
| "router_step env (HelperApply rq text) r = snd (handle_apply env rq text r)"
| "router_step env (HelperMove rq addresses) r = snd (handle_set_management_addresses env rq addresses r)"
| "router_step env (CliApply limit rq t1 t2 t3) r = snd (cmd_apply env limit rq t1 t2 t3 r)"
| "router_step env (CliMove limit rq addresses) r = snd (cmd_management_addresses env limit rq addresses r)"
| "router_step env Restore r = snd (restore_rejected env r)"
| "router_step env (Confirm i) r = snd (confirm i r)"
| "router_step env (Revert why) r = snd (revert env why r)"
| "router_step env (Tick now) r = snd (wait_turn env now r)"
| "router_step env BootRevert r = snd (boot_revert env r)"
| "router_step env BootApply r = apply_fail_closed env r"
| "router_step env PowerCycle r = r\<lparr>loaded := []\<rparr>"
| "router_step env Rollback r = rollback_last env r"
| "router_step env (ScheduleCheck t1) r = cmd_schedule_check env t1 r"

lemma keep_unconfirmed_sel [simp]:
  "applied (keep_unconfirmed t r) = applied r" "waiting (keep_unconfirmed t r) = waiting r"
  "alerts (keep_unconfirmed t r) = alerts r" "config_yaml (keep_unconfirmed t r) = config_yaml r"
  "loaded (keep_unconfirmed t r) = loaded r"
  by (simp_all add: keep_unconfirmed_def split: option.split)

lemma backup_sel [simp]:
  "applied (backup_current_ruleset sec r) = applied r" "waiting (backup_current_ruleset sec r) = waiting r"
  "config_yaml (backup_current_ruleset sec r) = config_yaml r" "rejected (backup_current_ruleset sec r) = rejected r"
  "loaded (backup_current_ruleset sec r) = loaded r" "alerts (backup_current_ruleset sec r) = alerts r"
  by (simp_all add: backup_current_ruleset_def)

lemma firewall_sel [simp]:
  "applied (firewall env sec cfg r) = applied r" "waiting (firewall env sec cfg r) = waiting r"
  "config_yaml (firewall env sec cfg r) = config_yaml r" "rejected (firewall env sec cfg r) = rejected r"
  "loaded (firewall env sec cfg r) = rendered env cfg" "alerts (firewall env sec cfg r) = alerts r"
  by (simp_all add: firewall_def)

lemma firewall_undo_sel [simp]:
  "applied (firewall_undo env b r) = applied r" "waiting (firewall_undo env b r) = waiting r"
  "config_yaml (firewall_undo env b r) = config_yaml r" "rejected (firewall_undo env b r) = rejected r"
  "alerts (firewall_undo env b r) = alerts r"
  by (simp_all add: firewall_undo_def split: option.split)

lemma apply_config_done:
  "outcome env cfg = Done \<Longrightarrow> apply_config env cfg (Some t) r = (None, (firewall env (backup_at env) cfg r)\<lparr>applied := Some t\<rparr>)"
  by (simp add: apply_config_def Let_def)

text \<open>An apply never touches the pending record, config.yaml or the rejected config, and records what it applied only when it is done.\<close>

lemma apply_config_sel:
  "waiting (snd (apply_config env cfg src r)) = waiting r" "config_yaml (snd (apply_config env cfg src r)) = config_yaml r"
  "rejected (snd (apply_config env cfg src r)) = rejected r" "alerts (snd (apply_config env cfg src r)) = alerts r"
  "applied (snd (apply_config env cfg src r)) = (if outcome env cfg = Done \<and> src \<noteq> None then src else applied r)"
  "fst (apply_config env cfg src r) = None \<longleftrightarrow> outcome env cfg = Done"
  by (auto simp: apply_config_def Let_def split: attempt.split reached.split option.split)

lemma apply_as_far_sel:
  "waiting (snd (apply_as_far env cfg r)) = waiting r" "config_yaml (snd (apply_as_far env cfg r)) = config_yaml r"
  "applied (snd (apply_as_far env cfg r)) = applied r"
  "fst (apply_as_far env cfg r) = (if far env cfg = (True, True) then Applied else Raised)"
  by (auto simp: apply_as_far_def split: prod.split)

lemma baseline_sel [simp]:
  "waiting (load_baseline env r) = waiting r" "applied (load_baseline env r) = applied r"
  "waiting (baseline_if_unfiltered env r) = waiting r" "applied (baseline_if_unfiltered env r) = applied r"
  "config_yaml (baseline_if_unfiltered env r) = config_yaml r"
  by (simp_all add: load_baseline_def baseline_if_unfiltered_def)

text \<open>What a revert leaves behind.\<close>

definition reverted :: "apply_env \<Rightarrow> pending \<Rightarrow> router \<Rightarrow> router \<Rightarrow> bool" where
  "reverted env p r r' \<longleftrightarrow> waiting r' = None \<and>
     (case parse env (pd_previous p) of
        None \<Rightarrow> applied r' = applied r \<and> loaded r' = loaded r \<and> config_yaml r' = config_yaml r
      | Some cfg \<Rightarrow> config_yaml r' = Some (pd_previous p) \<and>
          (if outcome env cfg = Done then applied r' = Some (pd_previous p) \<and> loaded r' = rendered env cfg
           else applied r' = applied r))"

lemma apply_previous_sel:
  "fst (apply_previous env cfg t r) = (if outcome env cfg = Done then Applied else NotApplied ''the apply failed'')"
  "snd (apply_previous env cfg t r) = snd (apply_config env cfg (Some t) r)"
  by (auto simp: apply_previous_def apply_config_def Let_def split: attempt.split)

lemma revert_reverted: "waiting r = Some p \<Longrightarrow> reverted env p r (snd (revert env why r))"
proof (cases "parse env (pd_previous p)")
  case (Some cfg)
  assume w: "waiting r = Some p"
  obtain e r1 where e: "apply_previous env cfg (pd_previous p) r = (e, r1)" by fastforce
  then have "e = (if outcome env cfg = Done then Applied else NotApplied ''the apply failed'')"
    "r1 = snd (apply_config env cfg (Some (pd_previous p)) r)"
    using apply_previous_sel [of env cfg "pd_previous p" r] by auto
  then show ?thesis using w Some e
    by (auto simp: reverted_def revert_def revert_with_def Let_def apply_config_sel apply_config_done)
qed (simp add: reverted_def revert_def revert_with_def Let_def)

lemma revert_none: "waiting r = None \<Longrightarrow> snd (revert env why r) = r"
  by (simp add: revert_def revert_with_def)

definition revert_reason :: "pending \<Rightarrow> string" where
  "revert_reason p = ''no confirmation within '' @ show_int (pd_seconds p) @ '' s''"

lemma wait_turn_pending:
  "waiting r = Some p \<Longrightarrow> wait_turn env now r =
     (if pd_deadline p \<le> now then (Finished (fst (revert env (revert_reason p) r)), snd (revert env (revert_reason p) r))
      else (Sleep (min 1 (pd_deadline p - now)), r))"
  by (simp add: wait_turn_def Let_def case_prod_beta revert_reason_def)

definition boot_stuck :: "apply_env \<Rightarrow> pending \<Rightarrow> bool" where
  "boot_stuck env p \<longleftrightarrow> (case parse env (pd_previous p) of None \<Rightarrow> False
     | Some cfg \<Rightarrow> outcome env cfg \<noteq> Done \<and> far env cfg \<noteq> (True, True))"

lemma boot_revert_pending:
  assumes w: "waiting r = Some p"
  shows "if boot_stuck env p then waiting (snd (boot_revert env r)) = Some p \<and> applied (snd (boot_revert env r)) = applied r
    else reverted env p r (snd (boot_revert env r))"
proof (cases "parse env (pd_previous p)")
  case (Some cfg)
  show ?thesis
  proof (cases "outcome env cfg = Done")
    case True
    with w Some show ?thesis
      by (auto simp: boot_stuck_def boot_revert_def revert_with_def boot_apply_def apply_config_done reverted_def Let_def)
  next
    case False
    obtain f r1 where a: "apply_config env cfg (Some (pd_previous p)) r = (Some f, r1)"
      using False apply_config_sel(6) [of env cfg "Some (pd_previous p)" r] by (metis option.exhaust prod.collapse)
    have r1: "waiting r1 = Some p" "applied r1 = applied r"
      using False w apply_config_sel [of env cfg "Some (pd_previous p)" r] by (simp_all add: a)
    obtain e r2 where f: "apply_as_far env cfg r1 = (e, r2)" by fastforce
    have r2: "waiting r2 = Some p" "applied r2 = applied r" "e = (if far env cfg = (True, True) then Applied else Raised)"
      using apply_as_far_sel [of env cfg r1] r1 by (simp_all add: f)
    have ba: "boot_apply env cfg (pd_previous p) r = (e, r2)" by (simp add: boot_apply_def a f)
    show ?thesis
      using w Some False r2 by (auto simp: boot_stuck_def boot_revert_def revert_with_def ba reverted_def Let_def)
  qed
qed (use w in \<open>simp add: boot_stuck_def boot_revert_def revert_with_def reverted_def Let_def\<close>)

lemma boot_without_sel:
  "waiting (snd (boot_without env cfg r)) = waiting r" "applied (snd (boot_without env cfg r)) = applied r"
proof -
  have "waiting (snd (boot_without env cfg r)) = waiting r \<and> applied (snd (boot_without env cfg r)) = applied r"
  proof (cases "load_applied_config env r")
    case (Some l)
    obtain f r1 where a: "apply_config env l None r = (f, r1)" by fastforce
    then have "waiting r1 = waiting r" "applied r1 = applied r" using apply_config_sel [of env l None r] by simp_all
    with Some a show ?thesis by (cases f) (simp_all add: boot_without_def Let_def apply_as_far_sel)
  qed (simp add: boot_without_def Let_def apply_as_far_sel)
  then show "waiting (snd (boot_without env cfg r)) = waiting r" "applied (snd (boot_without env cfg r)) = applied r" by simp_all
qed

lemma apply_fail_closed_sel:
  "waiting (apply_fail_closed env r) = waiting r" "applied (apply_fail_closed env r) \<in> {applied r, config_yaml r}"
proof -
  have "waiting (apply_fail_closed env r) = waiting r \<and> applied (apply_fail_closed env r) \<in> {applied r, config_yaml r}"
  proof (cases "config_yaml r")
    case (Some tx)
    show ?thesis
    proof (cases "parse env tx")
      case (Some cfg)
      obtain f r1 where a: "apply_config env cfg (Some tx) r = (f, r1)" by fastforce
      then have r1: "waiting r1 = waiting r" "applied r1 \<in> {applied r, config_yaml r}"
        using apply_config_sel [of env cfg "Some tx" r] \<open>config_yaml r = Some tx\<close> by (auto split: if_splits)
      obtain e r2 where b: "boot_without env cfg r1 = (e, r2)" by fastforce
      then have "waiting r2 = waiting r1" "applied r2 = applied r1" using boot_without_sel [of env cfg r1] by simp_all
      with r1 a b Some \<open>config_yaml r = Some tx\<close> show ?thesis
        by (cases f; cases e) (simp_all add: apply_fail_closed_def)
    qed (simp add: apply_fail_closed_def Some)
  qed (simp add: apply_fail_closed_def)
  then show "waiting (apply_fail_closed env r) = waiting r" "applied (apply_fail_closed env r) \<in> {applied r, config_yaml r}" by simp_all
qed

lemma schedule_check_sel:
  "waiting (cmd_schedule_check env t r) = waiting r" "applied (cmd_schedule_check env t r) \<in> {applied r, config_yaml r}"
  by (auto simp: cmd_schedule_check_def apply_config_sel split: option.split)

text \<open>An apply asked for while another waits is refused.\<close>

lemma refused_while_waiting:
  assumes "waiting r \<noteq> None"
  shows "snd (handle_apply env rq text r) = r" "snd (handle_set_management_addresses env rq addresses r) = r"
    "cmd_apply env limit rq t1 t2 t3 r = (False, r)" "snd (cmd_management_addresses env limit rq addresses r) = r"
    "snd (restore_rejected env r) = r"
proof -
  show "snd (handle_apply env rq text r) = r" "snd (handle_set_management_addresses env rq addresses r) = r"
    "snd (restore_rejected env r) = r" "cmd_apply env limit rq t1 t2 t3 r = (False, r)" 
    using assms by (auto simp: handle_apply_def handle_set_management_addresses_def restore_rejected_def apply_locked_def cmd_apply_def
      split: option.split)
  show "snd (cmd_management_addresses env limit rq addresses r) = r"
    using assms by (auto simp: cmd_management_addresses_def cmd_apply_def split: option.split)
qed

text \<open>
  C22: what can happen while an apply waits to be confirmed.  Saving or editing config.yaml, and every
  apply, move of the web interface or reload of the rejected config, from the web interface or the
  console, leaves the pending record, the applied config and the ruleset in the kernel as they are.
  The wait ends by confirming it under its own id, which changes nothing else, or by a revert (asked
  for, at the deadline and no earlier, or at boot), which puts config.yaml, the record and the kernel
  back to the config applied before; where that config no longer parses the router keeps what it runs,
  and where applying it fails the record stays (at boot, when even going as far as possible fails, the
  apply keeps waiting).  Two operations do not look at the pending record and change what the router
  runs all the same, which the theorem states as it is: a rollback loads the newest saved ruleset into
  the kernel under the applied config, and the hourly schedule check (like a boot apply that began
  before) may apply config.yaml again; neither ends the wait.
\<close>

theorem pending_only_resolved:
  assumes "waiting r = Some p" and "r' = router_step env event r"
  shows "case event of
      Confirm i \<Rightarrow> r' = (if i = pd_id p then r\<lparr>waiting := None\<rparr> else r)
    | Revert why \<Rightarrow> reverted env p r r'
    | Tick now \<Rightarrow> if pd_deadline p \<le> now then reverted env p r r' else r' = r
    | BootRevert \<Rightarrow> if boot_stuck env p then waiting r' = Some p \<and> applied r' = applied r else reverted env p r r'
    | Rollback \<Rightarrow> r' = r \<or> (backups r \<noteq> [] \<and> r' = r\<lparr>loaded := snd (last (backups r))\<rparr>)
    | PowerCycle \<Rightarrow> r' = r\<lparr>loaded := []\<rparr>
    | ScheduleCheck t \<Rightarrow> waiting r' = Some p \<and> applied r' \<in> {applied r, config_yaml r}
    | BootApply \<Rightarrow> waiting r' = Some p \<and> applied r' \<in> {applied r, config_yaml r}
    | _ \<Rightarrow> \<exists>text. r' = r\<lparr>config_yaml := text\<rparr>"
proof (cases event)
  case (Confirm i)
  with assms show ?thesis by (simp add: confirm_def)
next
  case (Revert why)
  with assms revert_reverted show ?thesis by simp
next
  case (Tick now)
  with assms revert_reverted [OF assms(1)] show ?thesis by (simp add: wait_turn_pending)
next
  case BootRevert
  with assms boot_revert_pending [OF assms(1)] show ?thesis by simp
next
  case (Save tx)
  with assms(2) show ?thesis
    by (cases "parse env tx") (auto simp: handle_save_config_def intro: exI [of _ "config_yaml r"] exI [of _ "Some tx"])
next
  case (Edit tx)
  with assms(2) show ?thesis by (auto intro: exI [of _ tx])
next
  case BootApply
  with assms apply_fail_closed_sel show ?thesis by simp
next
  case (ScheduleCheck t)
  with assms schedule_check_sel show ?thesis by simp
qed (use assms in \<open>auto simp: refused_while_waiting rollback_last_def intro: exI [of _ "config_yaml r"]\<close>)


subsection \<open>The wait ends\<close>

text \<open>What the other processes made of the files by turn \<open>n\<close>.\<close>

fun turns :: "(nat \<Rightarrow> router \<Rightarrow> router) \<Rightarrow> nat \<Rightarrow> nat \<Rightarrow> router \<Rightarrow> router" where
  "turns others i 0 r = r"
| "turns others i (Suc n) r = turns others (Suc i) n (others i r)"

lemma wait_first:
  assumes "\<And>i r. waiting (others i r) = waiting r" and "waiting r = Some p"
    and "pd_deadline p \<le> clock (i + k)" and "\<forall>m<k. clock (i + m) < pd_deadline p" and "k < fuel"
  shows "wait env clock others fuel i r = Some (revert env (revert_reason p) (turns others i k r))"
  using assms(2-5)
proof (induction k arbitrary: i r fuel)
  case 0
  then obtain n where "fuel = Suc n" by (cases fuel) auto
  with 0 show ?case by (simp add: wait_turn_pending)
next
  case (Suc k)
  then obtain n where n: "fuel = Suc n" by (cases fuel) auto
  have early: "clock i < pd_deadline p" using Suc.prems(3) by (metis add_0_right zero_less_Suc)
  have "wait env clock others n (Suc i) (others i r) = Some (revert env (revert_reason p) (turns others (Suc i) k (others i r)))"
    using Suc.prems n assms(1) by (intro Suc.IH) (auto simp: less_Suc_eq_0_disj)
  then show ?case using early n Suc.prems(1) by (simp add: wait_turn_pending)
qed

text \<open>With a clock that moves on by the time slept, the deadline comes within as many turns as seconds are left.\<close>

lemma deadline_comes:
  fixes clock :: "nat \<Rightarrow> seconds"
  assumes "\<And>j. clock j + min 1 (d - clock j) \<le> clock (Suc j)" and "d - clock i \<le> of_nat n"
  shows "\<exists>k\<le>n. d \<le> clock (i + k)"
  using assms(2)
proof (induction n arbitrary: i)
  case (Suc n)
  show ?case
  proof (cases "d - clock i \<le> 1")
    case True
    with assms(1) [of i] show ?thesis by (intro exI [of _ 1]) (auto simp: min_def split: if_splits)
  next
    case False
    then have "d - clock (Suc i) \<le> of_nat n" using assms(1) [of i] Suc.prems by (auto simp: min_def split: if_splits)
    from Suc.IH [OF this] obtain k where "k \<le> n" "d \<le> clock (Suc i + k)" by blast
    then show ?thesis by (intro exI [of _ "Suc k"]) auto
  qed
qed (auto intro: exI [of _ 0])

text \<open>
  C25: an apply nobody confirms is reverted.  Whatever else happens to the files meanwhile, if the
  pending record stays, the waiting unit ends by reverting at the first turn whose reading of the clock
  has reached the deadline, and no earlier.  The clock is the wall clock, which can be set back, and
  the wait is then that much longer: all that is assumed is that one of its turns finds the deadline
  passed.  When the clock moves on in each turn by at least the time slept, that is so after at most
  as many turns as there were seconds left (rounded up).
\<close>

theorem wait_reverts:
  assumes "\<And>i r. waiting (others i r) = waiting r" and "waiting r = Some p"
    and "(\<exists>k<fuel. pd_deadline p \<le> clock k) \<or>
      ((\<forall>j. clock j + min 1 (pd_deadline p - clock j) \<le> clock (Suc j)) \<and> nat \<lceil>pd_deadline p - clock 0\<rceil> < fuel)"
  shows "\<exists>k<fuel. pd_deadline p \<le> clock k \<and> (\<forall>m<k. clock m < pd_deadline p) \<and>
    wait env clock others fuel 0 r = Some (revert env (revert_reason p) (turns others 0 k r))"
proof -
  let ?n = "nat \<lceil>pd_deadline p - clock 0\<rceil>"
  have "\<exists>k<fuel. pd_deadline p \<le> clock k"
    using assms(3)
  proof
    assume c: "(\<forall>j. clock j + min 1 (pd_deadline p - clock j) \<le> clock (Suc j)) \<and> ?n < fuel"
    have "pd_deadline p - clock 0 \<le> of_nat ?n" by (rule of_nat_ceiling)
    with deadline_comes [of clock "pd_deadline p" 0 ?n] c obtain k where "k \<le> ?n" "pd_deadline p \<le> clock k" by auto
    with c show ?thesis by (meson order.strict_trans1)
  qed
  then obtain k0 where k0: "k0 < fuel" "pd_deadline p \<le> clock k0" by blast
  define k where "k = (LEAST k. pd_deadline p \<le> clock k)"
  have k: "pd_deadline p \<le> clock k" "k \<le> k0" using k0 by (auto simp: k_def intro: LeastI Least_le)
  moreover have "\<forall>m<k. clock m < pd_deadline p" using not_less_Least k_def not_le by metis
  ultimately show ?thesis
    using wait_first [of others r p clock 0 k fuel env] assms(1,2) k0(1) by (intro exI [of _ k]) auto
qed

subsection \<open>Examples\<close>

definition env0 :: apply_env where
  "env0 = \<lparr>parse = (\<lambda>_. Some config0), own_ipv6 = (\<lambda>_. []), outcome = (\<lambda>_. Done), rendered = (\<lambda>_. ''table''), backup_at = 7, undo_at = 8,
     clock_now = (\<lambda>_. \<lparr>utc_offset_minutes = 60, kernel_minuteswest = 0\<rparr>), fingerprint = (\<lambda>_. ''f''), far = (\<lambda>_. (True, True)),
     with_addresses = (\<lambda>t _. Some t), nft_ok = True, fr_os_table = (\<lambda>s. s \<noteq> []), baseline = ''baseline''\<rparr>"

definition pending0 :: pending where
  "pending0 = \<lparr>pd_id = ''id'', pd_deadline = 2, pd_seconds = 2, pd_by = [], pd_addresses = [], pd_previous = ''old''\<rparr>"

definition router0 :: router where
  "router0 = \<lparr>config_yaml = Some ''new'', applied = Some ''new'', waiting = Some pending0, rejected = None, alerts = [],
     loaded = ''table of new'', backups = [(1, ''table of old'')], schedule_record = None\<rparr>"

theorem pending_only_resolved_witness:
  "let rq = \<lparr>rq_confirm = True, rq_user = [], rq_token = ''x'', rq_now = 0, rq_start_ok = True\<rparr>
   in waiting router0 = Some pending0 \<and> waiting (router_step env0 (HelperApply rq ''third'') router0) = Some pending0 \<and>
      reverted env0 pending0 router0 (router_step env0 (Tick 2) router0)"
proof -
  let ?rq = "\<lparr>rq_confirm = True, rq_user = [], rq_token = ''x'', rq_now = 0, rq_start_ok = True\<rparr>"
  have w: "waiting router0 = Some pending0" by (simp add: router0_def)
  have "\<exists>text. router_step env0 (HelperApply ?rq ''third'') router0 = router0\<lparr>config_yaml := text\<rparr>"
    using pending_only_resolved [OF w refl, where event = "HelperApply ?rq ''third''" and env = env0] by simp
  then have "waiting (router_step env0 (HelperApply ?rq ''third'') router0) = Some pending0"
    using w by (metis router.select_convs(3) router.surjective router.update_convs(1))
  moreover have "reverted env0 pending0 router0 (router_step env0 (Tick 2) router0)"
    using pending_only_resolved [OF w refl, where event = "Tick 2" and env = env0] by (simp add: pending0_def)
  ultimately show ?thesis using w by (simp add: Let_def)
qed


theorem wait_reverts_witness:
  "\<exists>k<3. 2 \<le> (of_nat k :: seconds) \<and> (\<forall>m<k. (of_nat m :: seconds) < 2) \<and>
     wait env0 of_nat (\<lambda>_ r. r) 3 0 router0 = Some (revert env0 (revert_reason pending0) (turns (\<lambda>_ r. r) 0 k router0))"
proof -
  have "nat \<lceil>pd_deadline pending0 - of_nat 0\<rceil> = 2" by (simp add: pending0_def)
  then show ?thesis
    using wait_reverts [of "\<lambda>_ r. r" router0 pending0 3 of_nat env0] by (simp add: pending0_def router0_def)
qed

text \<open>
  The helper reads config.yaml before it takes the lock.  A request that came in while a revert held
  the lock carries the unconfirmed text, and applies it right after the revert: the router runs the
  unconfirmed config again although config.yaml is back to the one before.
\<close>

lemma stale_text_applied:
  "let rq = \<lparr>rq_confirm = False, rq_user = [], rq_token = ''x'', rq_now = 3, rq_start_ok = True\<rparr>;
       text = the (config_yaml router0);
       r1 = snd (revert env0 ''no confirmation'' router0);
       r2 = snd (handle_apply env0 rq text r1)
   in applied r1 = Some ''old'' \<and> config_yaml r1 = Some ''old'' \<and> applied r2 = Some ''new'' \<and> config_yaml r2 = Some ''old''"
  by (simp add: Let_def revert_def revert_with_def apply_previous_def router0_def pending0_def env0_def apply_config_done
    keep_unconfirmed_def handle_apply_def apply_locked_def load_applied_config_def moves_management_def)

text \<open>
  A rollback while an apply waits loads the ruleset saved before it, whatever was applied last: the
  record then says one config is applied and the kernel filters by another, and confirming keeps it so.
\<close>

lemma rollback_under_pending:
  "let r1 = router_step env0 Rollback router0; r2 = router_step env0 (Confirm ''id'') r1
   in waiting r1 = Some pending0 \<and> applied r2 = Some ''new'' \<and> loaded r2 = ''table of old'' \<and> waiting r2 = None"
  by (simp add: Let_def rollback_last_def router0_def pending0_def env0_def confirm_def)

text \<open>
  The schedule check compares the config it has read with the one recorded, and reads config.yaml
  again before it applies: a config saved in between goes live, although an apply is waiting and
  nobody has applied the new one.
\<close>

lemma schedule_check_applies_saved:
  "let cfg = config0\<lparr>rules := [rule0\<lparr>schedule := Some \<lparr>sched_days = [], sched_start = 0, sched_end = 0, cut_established = False\<rparr>\<rparr>]\<rparr>;
       env = env0\<lparr>parse := (\<lambda>_. Some cfg)\<rparr>;
       r = router0\<lparr>schedule_record := Some (\<lparr>utc_offset_minutes = 0, kernel_minuteswest = 0\<rparr>, ''f'')\<rparr>;
       r1 = router_step env (ScheduleCheck ''new'') (router_step env (Save ''edited'') r)
   in waiting r1 = Some pending0 \<and> applied r1 = Some ''edited''"
  by (simp add: Let_def cmd_schedule_check_def schedule_refresh_check_def has_schedules_def router0_def env0_def handle_save_config_def
    apply_config_done)

end
