(* ===== verification/Bytes.thy ===== *)
theory Bytes
  imports Ip_Address "HOL-Library.Word"
begin

text \<open>
  Packet data, shared by the packet parsers: lists of bytes (8-bit words), numbers in network byte
  order, and the text \<open>bytes.decode("ascii", errors="replace")\<close> gives, a string in which \<open>REPLACEMENT\<close>
  (which no ASCII text contains) stands for a byte that is not ASCII; and their hexadecimal text.
\<close>

type_synonym byte = "8 word"
type_synonym bytes = "byte list"

definition REPLACEMENT :: char where "REPLACEMENT = char_of (255::nat)"

definition decode_ascii :: "bytes \<Rightarrow> string" where
  "decode_ascii bs = map (\<lambda>b. if unat b < 128 then char_of (unat b) else REPLACEMENT) bs"

text \<open>\<open>int.from_bytes(..., "big")\<close> and \<open>struct.unpack("!H", ...)\<close>, and the bytes of a number.\<close>

definition be16 :: "byte \<Rightarrow> byte \<Rightarrow> nat" where
  "be16 a b = unat a * 256 + unat b"

definition byte_of :: "nat \<Rightarrow> byte" where
  "byte_of n = of_nat n"

definition be16_bytes :: "nat \<Rightarrow> bytes" where
  "be16_bytes n = [byte_of (n div 256), byte_of (n mod 256)]"

lemma unat_byte_of: "n < 256 \<Longrightarrow> unat (byte_of n) = n"
  by (simp add: byte_of_def unat_of_nat)

lemma be16_round: "n < 65536 \<Longrightarrow> be16 (byte_of (n div 256)) (byte_of (n mod 256)) = n"
  by (simp add: be16_def unat_byte_of)

lemma be16_bytes_length: "length (be16_bytes n) = 2"
  by (simp add: be16_bytes_def)

subsection \<open>Hexadecimal text\<close>

definition bytes_hex :: "bytes \<Rightarrow> string" where
  "bytes_hex bs = concat (map (\<lambda>b. [hex_char (int (unat b) div 16), hex_char (int (unat b) mod 16)]) bs)"

text \<open>\<open>bytes.fromhex\<close>: pairs of digits, with white space between the pairs.\<close>

definition hex_digit :: "char \<Rightarrow> nat option" where
  "hex_digit c = (let v = of_char c in if is_digit c then Some (v - 48) else if in_range 97 102 c then Some (v - 87)
     else if in_range 65 70 c then Some (v - 55) else None)"

fun fromhex :: "string \<Rightarrow> bytes option" where
  "fromhex [] = Some []"
| "fromhex (c # cs) =
     (if in_range 9 13 c \<or> c = CHR '' '' then fromhex cs
      else case cs of [] \<Rightarrow> None
        | d # ds \<Rightarrow> (case (hex_digit c, hex_digit d) of
            (Some h, Some l) \<Rightarrow> map_option ((#) (of_nat (16 * h + l))) (fromhex ds)
          | _ \<Rightarrow> None))"

lemma hex_char_digit:
  assumes "0 \<le> x" and "x < 16"
  shows "hex_digit (hex_char x) = Some (nat x) \<and> \<not> in_range 9 13 (hex_char x) \<and> hex_char x \<noteq> CHR '' '' \<and> hex_char x \<noteq> CHR ''$''"
proof -
  have "x = 0 \<or> x = 1 \<or> x = 2 \<or> x = 3 \<or> x = 4 \<or> x = 5 \<or> x = 6 \<or> x = 7 \<or> x = 8 \<or> x = 9 \<or> x = 10 \<or> x = 11 \<or> x = 12 \<or> x = 13 \<or> x = 14 \<or> x = 15"
    using assms by presburger
  then show ?thesis by (elim disjE) (simp_all add: hex_char_def hex_digit_def Let_def in_range_def is_digit_def)
qed

lemma nibbles: "int (unat (b :: byte)) div 16 < 16" "int (unat b) mod 16 < 16" "0 \<le> int (unat b) div 16" "0 \<le> int (unat b) mod 16"
proof -
  have "uint b < 256" using uint_lt2p [of b] by simp
  then have "uint b div 16 < 16" by presburger
  then show "int (unat b) div 16 < 16" by simp
qed (simp_all add: div_int_pos_iff)

lemma bytes_hex_Cons: "bytes_hex (b # bs) = hex_char (int (unat b) div 16) # hex_char (int (unat b) mod 16) # bytes_hex bs"
  by (simp add: bytes_hex_def)

lemma fromhex_hex: "fromhex (bytes_hex bs) = Some bs"
proof (induction bs)
  case (Cons b bs)
  have "16 * nat (int (unat b) div 16) + nat (int (unat b) mod 16) = unat b"
    by (simp add: nat_div_distrib nat_mod_distrib)
  then have "of_nat (16 * nat (int (unat b) div 16) + nat (int (unat b) mod 16)) = b" by (simp only: of_nat_unat ucast_id)
  with Cons hex_char_digit [OF nibbles(3,1), of b] hex_char_digit [OF nibbles(4,2), of b] show ?case by (simp add: bytes_hex_Cons)
qed (simp add: bytes_hex_def)

lemma hex_no_dollar: "CHR ''$'' \<notin> set (bytes_hex bs)"
proof (induction bs)
  case (Cons b bs)
  with hex_char_digit [OF nibbles(3,1), of b] hex_char_digit [OF nibbles(4,2), of b] show ?case by (metis bytes_hex_Cons set_ConsD)
qed (simp add: bytes_hex_def)

end
