(* ===== verification/Client_Hello.thy ===== *)
theory Client_Hello
  imports Bytes
begin

text \<open>
  TLS ClientHellos as the fingerprinting daemon reads them: the parser
  (\<open>src/src/frfw/tlsfp/clienthello.py\<close>), the reassembly of TCP segments
  (\<open>src/src/frfw/tlsfp/reassembly.py\<close>) and the fingerprints (\<open>src/src/frfw/tlsfp/fingerprint.py\<close>).

  A \<open>_Reader\<close>, its data from its position on, is the list of the bytes still to be read.
\<close>

datatype parse_error = ParseError string

subsection \<open>Reading (clienthello.py)\<close>

definition MAX_HELLO_BYTES :: nat where "MAX_HELLO_BYTES = 16 * 1024"
definition TLS_HANDSHAKE :: nat where "TLS_HANDSHAKE = 0x16"
definition HANDSHAKE_CLIENT_HELLO :: nat where "HANDSHAKE_CLIENT_HELLO = 0x01"
definition EXT_SERVER_NAME :: nat where "EXT_SERVER_NAME = 0x0000"
definition EXT_SUPPORTED_GROUPS :: nat where "EXT_SUPPORTED_GROUPS = 0x000A"
definition EXT_EC_POINT_FORMATS :: nat where "EXT_EC_POINT_FORMATS = 0x000B"
definition EXT_SIGNATURE_ALGORITHMS :: nat where "EXT_SIGNATURE_ALGORITHMS = 0x000D"
definition EXT_ALPN :: nat where "EXT_ALPN = 0x0010"
definition EXT_SUPPORTED_VERSIONS :: nat where "EXT_SUPPORTED_VERSIONS = 0x002B"

lemmas ext_defs = EXT_SERVER_NAME_def EXT_SUPPORTED_GROUPS_def EXT_EC_POINT_FORMATS_def EXT_SIGNATURE_ALGORITHMS_def
  EXT_ALPN_def EXT_SUPPORTED_VERSIONS_def

definition is_grease :: "nat \<Rightarrow> bool" where
  "is_grease v \<longleftrightarrow> and v 0x0F0F = 0x0A0A \<and> v div 256 = and v 0xFF"

definition rd_take :: "nat \<Rightarrow> bytes \<Rightarrow> (parse_error, bytes \<times> bytes) result" where
  "rd_take n rs = (if n > length rs then Inl (ParseError ''truncated'') else Inr (take n rs, drop n rs))"

definition rd_u8 :: "bytes \<Rightarrow> (parse_error, nat \<times> bytes) result" where
  "rd_u8 rs = bind_result (rd_take 1 rs) (\<lambda>(c, rest). Inr (unat (c ! 0), rest))"

definition rd_u16 :: "bytes \<Rightarrow> (parse_error, nat \<times> bytes) result" where
  "rd_u16 rs = bind_result (rd_take 2 rs) (\<lambda>(c, rest). Inr (be16 (c ! 0) (c ! 1), rest))"

definition rd_u24 :: "bytes \<Rightarrow> (parse_error, nat \<times> bytes) result" where
  "rd_u24 rs = bind_result (rd_take 3 rs) (\<lambda>(b, rest). Inr (unat (b ! 0) * 65536 + unat (b ! 1) * 256 + unat (b ! 2), rest))"

definition rd_vec :: "nat \<Rightarrow> bytes \<Rightarrow> (parse_error, bytes \<times> bytes) result" where
  "rd_vec len_bytes rs = bind_result (if len_bytes = 1 then rd_u8 rs else rd_u16 rs) (\<lambda>(n, rest). rd_take n rest)"

fun u16_pairs :: "bytes \<Rightarrow> nat list" where
  "u16_pairs (a # b # rs) = be16 a b # u16_pairs rs"
| "u16_pairs _ = []"

definition u16_list :: "bytes \<Rightarrow> (parse_error, nat list) result" where
  "u16_list data = (if odd (length data) then Inl (ParseError ''odd length'') else Inr (u16_pairs data))"

lemma rd_take_shorter: "rd_take n rs = Inr (c, rest) \<Longrightarrow> length rest \<le> length rs \<and> length c = n \<and> rs = c @ rest"
  by (auto simp: rd_take_def split: if_splits)

lemma rd_u8_shorter: "rd_u8 rs = Inr (v, rest) \<Longrightarrow> length rest < length rs"
  by (cases rs) (auto simp: rd_u8_def rd_take_def)

lemma rd_u16_shorter: "rd_u16 rs = Inr (v, rest) \<Longrightarrow> length rest < length rs"
  by (auto simp: rd_u16_def rd_take_def split: if_splits)

lemma rd_vec_shorter: "rd_vec k rs = Inr (v, rest) \<Longrightarrow> length rest < length rs"
proof -
  assume v: "rd_vec k rs = Inr (v, rest)"
  define m where "m = (if k = 1 then rd_u8 rs else rd_u16 rs)"
  from v obtain n rs1 where "m = Inr (n, rs1)" "rd_take n rs1 = Inr (v, rest)"
    unfolding rd_vec_def m_def [symmetric] by (cases m) auto
  then show ?thesis
    using rd_u8_shorter [of rs n rs1] rd_u16_shorter [of rs n rs1] rd_take_shorter [of n rs1 v rest]
    by (auto simp: m_def split: if_splits)
qed

subsection \<open>The handshake message in a byte stream\<close>

definition needed :: "bytes \<Rightarrow> nat" where
  "needed body = 4 + unat (body ! 1) * 65536 + unat (body ! 2) * 256 + unat (body ! 3)"

text \<open>
  The loop of \<open>handshake_from_records\<close>: \<open>body\<close> is the handshake data so far, \<open>rest\<close> the stream from
  the position on.  \<open>None\<close> asks for more bytes.
\<close>

function handshake_loop :: "bytes \<Rightarrow> bytes \<Rightarrow> (parse_error, bytes option) result" where
  "handshake_loop body rest =
     (if length body \<ge> 4 \<and> needed body > MAX_HELLO_BYTES then Inl (ParseError ''handshake message too large'')
      else if length body \<ge> 4 \<and> length body \<ge> needed body then Inr (Some (take (needed body) body))
      else if length rest < 5 then Inr None
      else
        let content_type = unat (rest ! 0); version = be16 (rest ! 1) (rest ! 2); n = be16 (rest ! 3) (rest ! 4) in
        if content_type \<noteq> TLS_HANDSHAKE \<or> version div 256 \<noteq> 0x03 then Inl (ParseError ''not a TLS handshake record'')
        else if n = 0 \<or> n > 16384 + 2048 then Inl (ParseError ''bad TLS record length'')
        else if 5 + n > length rest
        then (if body = [] \<and> 5 < length rest \<and> unat (rest ! 5) \<noteq> HANDSHAKE_CLIENT_HELLO
              then Inl (ParseError ''not a ClientHello'') else Inr None)
        else if unat ((body @ take n (drop 5 rest)) ! 0) \<noteq> HANDSHAKE_CLIENT_HELLO then Inl (ParseError ''not a ClientHello'')
        else handshake_loop (body @ take n (drop 5 rest)) (drop (5 + n) rest))"
  by pat_completeness auto
termination
  by (relation "measure (\<lambda>(body, rest). length rest)") auto

declare handshake_loop.simps [simp del]

definition handshake_from_records :: "bytes \<Rightarrow> (parse_error, bytes option) result" where
  "handshake_from_records stream = handshake_loop [] stream"

subsection \<open>The ClientHello\<close>

record client_hello =
  legacy_version :: nat
  ciphers :: "nat list"
  extensions :: "nat list"
  supported_groups :: "nat list"
  ec_point_formats :: "nat list"
  signature_algorithms :: "nat list"
  supported_versions :: "nat list"
  alpn :: "bytes list"
  server_name :: "string option"

text \<open>
  The loops of \<open>_parse_extension\<close> change the hello as they go: what they read before an error stays.
\<close>

function parse_names :: "bytes \<Rightarrow> client_hello \<Rightarrow> client_hello" where
  "parse_names names hello =
     (if names = [] then hello
      else case rd_u8 names of Inl _ \<Rightarrow> hello
        | Inr (name_type, r1) \<Rightarrow>
           (case rd_vec 2 r1 of Inl _ \<Rightarrow> hello
            | Inr (name, r2) \<Rightarrow>
                parse_names r2 (if name_type = 0 \<and> server_name hello = None
                  then hello\<lparr>server_name := Some (decode_ascii name)\<rparr> else hello)))"
  by pat_completeness auto
termination
  by (relation "measure (\<lambda>(names, _). length names)") (auto dest!: rd_u8_shorter rd_vec_shorter)

function parse_protocols :: "bytes \<Rightarrow> client_hello \<Rightarrow> client_hello" where
  "parse_protocols ps hello =
     (if ps = [] then hello
      else case rd_vec 1 ps of Inl _ \<Rightarrow> hello
        | Inr (p, rest) \<Rightarrow> parse_protocols rest (hello\<lparr>alpn := alpn hello @ [p]\<rparr>))"
  by pat_completeness auto
termination
  by (relation "measure (\<lambda>(ps, _). length ps)") (auto dest!: rd_vec_shorter)

declare parse_names.simps [simp del] parse_protocols.simps [simp del]

definition u16_vec :: "nat \<Rightarrow> bytes \<Rightarrow> (parse_error, nat list) result" where
  "u16_vec len_bytes data = bind_result (rd_vec len_bytes data) (\<lambda>(v, _). u16_list v)"

text \<open>\<open>_parse_extension\<close>, its \<open>ParseError\<close> caught: the hello as it is then.\<close>

definition parse_extension :: "client_hello \<Rightarrow> nat \<Rightarrow> bytes \<Rightarrow> client_hello" where
  "parse_extension hello ext_type data =
     (if ext_type = EXT_SERVER_NAME \<and> data \<noteq> []
      then (case rd_vec 2 data of Inl _ \<Rightarrow> hello | Inr (names, _) \<Rightarrow> parse_names names hello)
      else if ext_type = EXT_SUPPORTED_GROUPS
      then (case u16_vec 2 data of Inl _ \<Rightarrow> hello | Inr vs \<Rightarrow> hello\<lparr>supported_groups := vs\<rparr>)
      else if ext_type = EXT_EC_POINT_FORMATS
      then (case rd_vec 1 data of Inl _ \<Rightarrow> hello | Inr (v, _) \<Rightarrow> hello\<lparr>ec_point_formats := map unat v\<rparr>)
      else if ext_type = EXT_SIGNATURE_ALGORITHMS
      then (case u16_vec 2 data of Inl _ \<Rightarrow> hello | Inr vs \<Rightarrow> hello\<lparr>signature_algorithms := vs\<rparr>)
      else if ext_type = EXT_SUPPORTED_VERSIONS
      then (case u16_vec 1 data of Inl _ \<Rightarrow> hello | Inr vs \<Rightarrow> hello\<lparr>supported_versions := vs\<rparr>)
      else if ext_type = EXT_ALPN \<and> data \<noteq> []
      then (case rd_vec 2 data of Inl _ \<Rightarrow> hello | Inr (ps, _) \<Rightarrow> parse_protocols ps hello)
      else hello)"

function parse_extensions :: "bytes \<Rightarrow> client_hello \<Rightarrow> (parse_error, client_hello) result" where
  "parse_extensions exts hello =
     (if exts = [] then Inr hello
      else case rd_u16 exts of Inl e \<Rightarrow> Inl e
        | Inr (ext_type, r1) \<Rightarrow>
           (case rd_vec 2 r1 of Inl e \<Rightarrow> Inl e
            | Inr (data, r2) \<Rightarrow>
               (let hello1 = hello\<lparr>extensions := extensions hello @ [ext_type]\<rparr> in
                if length (extensions hello1) > 256 then Inl (ParseError ''too many extensions'')
                else parse_extensions r2 (parse_extension hello1 ext_type data))))"
  by pat_completeness auto
termination
  by (relation "measure (\<lambda>(exts, _). length exts)") (auto dest!: rd_u16_shorter rd_vec_shorter)

declare parse_extensions.simps [simp del]

definition empty_hello :: "nat \<Rightarrow> nat list \<Rightarrow> client_hello" where
  "empty_hello v cs = \<lparr>legacy_version = v, ciphers = cs, extensions = [], supported_groups = [], ec_point_formats = [],
     signature_algorithms = [], supported_versions = [], alpn = [], server_name = None\<rparr>"

definition parse_body :: "bytes \<Rightarrow> (parse_error, client_hello) result" where
  "parse_body body =
     bind_result (rd_u16 body) (\<lambda>(version, r1).
     bind_result (rd_take 32 r1) (\<lambda>(_, r2).
     bind_result (rd_vec 1 r2) (\<lambda>(_, r3).
     bind_result (rd_vec 2 r3) (\<lambda>(cs, r4).
     bind_result (u16_list cs) (\<lambda>suites.
     bind_result (rd_vec 1 r4) (\<lambda>(_, r5).
     if r5 = [] then Inr (empty_hello version suites)
     else bind_result (rd_vec 2 r5) (\<lambda>(exts, _). parse_extensions exts (empty_hello version suites))))))))"

definition parse_client_hello :: "bytes \<Rightarrow> (parse_error, client_hello) result" where
  "parse_client_hello message =
     bind_result (rd_u8 message) (\<lambda>(t, r1).
     if t \<noteq> HANDSHAKE_CLIENT_HELLO then Inl (ParseError ''not a ClientHello'')
     else bind_result (rd_u24 r1) (\<lambda>(n, r2). bind_result (rd_take n r2) (\<lambda>(body, _). parse_body body)))"

subsection \<open>More bytes change nothing that was decided\<close>

lemma handshake_loop_stable:
  "handshake_loop body rest \<noteq> Inr None \<Longrightarrow> handshake_loop body (rest @ later) = handshake_loop body rest"
proof (induction body rest rule: handshake_loop.induct)
  case (1 body rest)
  let ?n = "be16 (rest ! 3) (rest ! 4)"
  show ?case
  proof (cases "length body \<ge> 4 \<and> (needed body > MAX_HELLO_BYTES \<or> length body \<ge> needed body)")
    case True
    then show ?thesis by (auto simp: handshake_loop.simps [of body])
  next
    case False
    with "1.prems" have len: "5 \<le> length rest" by (auto simp: handshake_loop.simps [of body] split: if_splits)
    then have nth: "(rest @ later) ! 0 = rest ! 0" "(rest @ later) ! 1 = rest ! 1" "(rest @ later) ! 2 = rest ! 2"
      "(rest @ later) ! 3 = rest ! 3" "(rest @ later) ! 4 = rest ! 4" by (auto simp: nth_append)
    show ?thesis
    proof (cases "unat (rest ! 0) \<noteq> TLS_HANDSHAKE \<or> be16 (rest ! 1) (rest ! 2) div 256 \<noteq> 3 \<or> ?n = 0 \<or> ?n > 16384 + 2048")
      case True
      with False len nth show ?thesis by (auto simp: handshake_loop.simps [of body] Let_def)
    next
      case head: False
      show ?thesis
      proof (cases "5 + ?n > length rest")
        case True
        with False head len "1.prems" have early: "body = []" "5 < length rest" "unat (rest ! 5) \<noteq> HANDSHAKE_CLIENT_HELLO"
          by (auto simp: handshake_loop.simps [of body] Let_def split: if_splits)
        then have "(rest @ later) ! 5 = rest ! 5" by (simp add: nth_append)
        with True False head len nth early show ?thesis
          by (auto simp: handshake_loop.simps [of "[]"] Let_def nth_append)
      next
        case full: False
        let ?b = "body @ take ?n (drop 5 rest)"
        have parts: "take ?n (drop 5 (rest @ later)) = take ?n (drop 5 rest)" "drop (5 + ?n) (rest @ later) = drop (5 + ?n) rest @ later"
          using full by auto
        have s1: "handshake_loop body rest = (if unat (?b ! 0) \<noteq> HANDSHAKE_CLIENT_HELLO then Inl (ParseError ''not a ClientHello'')
            else handshake_loop ?b (drop (5 + ?n) rest))"
          using False head full len by (auto simp: handshake_loop.simps [of body rest] Let_def)
        moreover have "handshake_loop body (rest @ later) = (if unat (?b ! 0) \<noteq> HANDSHAKE_CLIENT_HELLO then Inl (ParseError ''not a ClientHello'')
            else handshake_loop ?b (drop (5 + ?n) rest @ later))"
          using False head full len nth parts by (auto simp: handshake_loop.simps [of body "rest @ later"] Let_def)
        moreover have "handshake_loop ?b (drop (5 + ?n) rest @ later) = handshake_loop ?b (drop (5 + ?n) rest)"
          if "unat (?b ! 0) = HANDSHAKE_CLIENT_HELLO"
          by (rule "1.IH") (use that s1 False head full len "1.prems" in \<open>auto simp: Let_def\<close>)
        ultimately show ?thesis by auto
      qed
    qed
  qed
qed

text \<open>
  What the record parser decides does not depend on how much of the stream has arrived: once it
  returns a message or an error, it returns the same one for every longer stream.
\<close>

theorem handshake_stable:
  assumes "handshake_from_records stream \<noteq> Inr None"
  shows "handshake_from_records (stream @ later) = handshake_from_records stream"
  using assms unfolding handshake_from_records_def by (rule handshake_loop_stable)

theorem handshake_stable_witness:
  "handshake_from_records [0x16, 3, 1, 0, 5, 1, 0, 0, 1, 7, 0x17] = handshake_from_records [0x16, 3, 1, 0, 5, 1, 0, 0, 1, 7]
   \<and> handshake_from_records [0x16, 3, 1, 0, 5, 1, 0, 0, 1, 7] = Inr (Some [1, 0, 0, 1, 7])"
proof -
  have "handshake_from_records [0x16, 3, 1, 0, 5, 1, 0, 0, 1, 7] = Inr (Some [1, 0, 0, 1, 7])"
    by (simp add: handshake_from_records_def handshake_loop.simps needed_def be16_def MAX_HELLO_BYTES_def TLS_HANDSHAKE_def
      HANDSHAKE_CLIENT_HELLO_def Let_def)
  with handshake_stable [of "[0x16, 3, 1, 0, 5, 1, 0, 0, 1, 7]" "[0x17]"] show ?thesis by simp
qed

subsection \<open>Any fragmentation is put together\<close>

text \<open>A handshake record: the minor version byte it carries (TLS has written 0 to 4) and its fragment.\<close>

definition tls_record :: "byte \<times> bytes \<Rightarrow> bytes" where
  "tls_record rec = [0x16, 3, fst rec] @ be16_bytes (length (snd rec)) @ snd rec"

lemma needed_prefix:
  assumes "body @ xs = m @ ys" and "4 \<le> length body" and "4 \<le> length m"
  shows "needed body = needed m"
proof -
  have "body ! i = m ! i" if "i < 4" for i
    using arg_cong [OF assms(1), of "\<lambda>l. l ! i"] that assms(2,3) by (simp add: nth_append)
  then show ?thesis by (simp add: needed_def)
qed

lemma handshake_fragments:
  assumes "\<forall>f\<in>snd ` set fs. f \<noteq> [] \<and> length f \<le> 16384 + 2048" and "body @ concat (map snd fs) = m @ extra"
    and "4 \<le> length m" and "length m = needed m" and "length m \<le> MAX_HELLO_BYTES" and "unat (m ! 0) = HANDSHAKE_CLIENT_HELLO"
  shows "handshake_loop body (concat (map tls_record fs) @ rest) = Inr (Some m)"
  using assms(1,2)
proof (induction fs arbitrary: body)
  case Nil
  then have body: "body = m @ extra" by simp
  then have n: "needed body = length m" using needed_prefix [of body "[]" m extra] assms(3,4) by simp
  have "4 \<le> length body" "length m \<le> length body" "take (length m) body = m" using body assms(3) by auto
  with assms(5) n show ?case by (simp add: handshake_loop.simps [of body])
next
  case (Cons vf fs)
  obtain v f where vf: "vf = (v, f)" by fastforce
  note prems = Cons.prems [unfolded vf]
  show ?case
  proof (cases "length m \<le> length body")
    case True
    then have n: "needed body = length m" using needed_prefix [OF prems(2)] assms(3,4) by simp
    have "take (length m) body = m"
      using prems(2) True by (metis append_eq_append_conv_if append_take_drop_id append_eq_conv_conj)
    with True assms(3,5) show ?thesis by (simp add: handshake_loop.simps [of body] n)
  next
    case False
    have len: "f \<noteq> []" "length f < 65536" "length f \<le> 18432" using prems(1) by auto
    have more: "\<not> (4 \<le> length body \<and> needed body > MAX_HELLO_BYTES)" "\<not> (4 \<le> length body \<and> length body \<ge> needed body)"
      using needed_prefix [OF prems(2)] assms(3-5) False by auto
    have first: "(body @ f) ! 0 = m ! 0"
    proof -
      have "(body @ f @ concat (map snd fs)) ! 0 = (m @ extra) ! 0" using prems(2) by simp
      moreover have "m \<noteq> []" "body @ f \<noteq> []" using assms(3) len(1) by auto
      ultimately show ?thesis by (metis append.assoc length_greater_0_conv nth_append)
    qed
    define s where "s = tls_record (v, f) @ concat (map tls_record fs) @ rest"
    have head: "s ! 0 = 0x16" "s ! 1 = 3" "be16 (s ! 3) (s ! 4) = length f" "drop 5 s = f @ concat (map tls_record fs) @ rest"
      using len(2) by (simp_all add: s_def tls_record_def be16_bytes_def be16_round)
    have "drop (5 + length f) s = drop (length f) (drop 5 s)" by (simp only: drop_drop add.commute)
    then have tail: "drop (5 + length f) s = concat (map tls_record fs) @ rest" unfolding head(4) by simp
    have "length s \<ge> 5 + length f" by (simp add: s_def tls_record_def be16_bytes_def)
    moreover have low: "unat (s ! 2) < 256" using unsigned_less [of "s ! 2", where ?'a = nat] by simp
    moreover have c: "unat (s ! 0) = TLS_HANDSHAKE" "be16 (s ! 1) (s ! 2) div 256 = 3"
      using head(1,2) low by (simp_all add: be16_def TLS_HANDSHAKE_def)
    ultimately have "handshake_loop body s = handshake_loop (body @ f) (concat (map tls_record fs) @ rest)"
      using more len first assms(6)
      by (subst handshake_loop.simps) (auto simp: Let_def c head(3,4) tail simp del: One_nat_def)
    moreover have "handshake_loop (body @ f) (concat (map tls_record fs) @ rest) = Inr (Some m)"
      by (rule Cons.IH) (use prems in auto)
    ultimately show ?thesis by (simp add: s_def vf)
  qed
qed

text \<open>
  C27: a ClientHello of at most \<open>MAX_HELLO_BYTES\<close> bytes (16 KiB, a longer one is refused), split over any
  number of TLS records of any sizes the protocol allows, each with any version 3.x in its header, and
  with anything behind it, is returned as one message, byte for byte.
\<close>

theorem handshake_reassembled:
  assumes "\<forall>f\<in>snd ` set fs. f \<noteq> [] \<and> length f \<le> 16384 + 2048" and "concat (map snd fs) = m @ extra"
    and "4 \<le> length m" and "length m = needed m" and "length m \<le> MAX_HELLO_BYTES" and "unat (m ! 0) = HANDSHAKE_CLIENT_HELLO"
  shows "handshake_from_records (concat (map tls_record fs) @ rest) = Inr (Some m)"
  unfolding handshake_from_records_def by (rule handshake_fragments [OF assms(1) _ assms(3-6)]) (use assms(2) in simp)

theorem handshake_reassembled_witness:
  "handshake_from_records (concat (map tls_record [(1, [1, 0]), (3, [0, 1]), (4, [7, 9])]) @ [0x17, 0]) = Inr (Some [1, 0, 0, 1, 7])"
  by (rule handshake_reassembled [where fs = "[(1, [1, 0]), (3, [0, 1]), (4, [7, 9])]" and m = "[1, 0, 0, 1, 7]" and extra = "[9]"])
     (simp_all add: needed_def MAX_HELLO_BYTES_def HANDSHAKE_CLIENT_HELLO_def)

subsection \<open>Parsing an encoded ClientHello\<close>

definition vec8 :: "bytes \<Rightarrow> bytes" where "vec8 bs = byte_of (length bs) # bs"
definition vec16 :: "bytes \<Rightarrow> bytes" where "vec16 bs = be16_bytes (length bs) @ bs"

text \<open>
  The extensions whose contents are read, by their values as RFC 6066, 7301, 8422 and 8446 encode them, and any other
  (also one of the six types with an empty body, which browsers send), by its type and bytes.
\<close>

datatype extension =
    ServerNames "(byte \<times> bytes) list"
  | Groups "nat list"
  | PointFormats bytes
  | SignatureAlgorithms "nat list"
  | Versions "nat list"
  | Protocols "bytes list"
  | OtherExtension nat bytes

definition encode_u16s :: "nat list \<Rightarrow> bytes" where
  "encode_u16s ns = concat (map be16_bytes ns)"

definition encode_name :: "byte \<times> bytes \<Rightarrow> bytes" where
  "encode_name n = fst n # vec16 (snd n)"

fun encode_contents :: "extension \<Rightarrow> nat \<times> bytes" where
  "encode_contents (ServerNames ns) = (EXT_SERVER_NAME, vec16 (concat (map encode_name ns)))"
| "encode_contents (Groups gs) = (EXT_SUPPORTED_GROUPS, vec16 (encode_u16s gs))"
| "encode_contents (PointFormats fs) = (EXT_EC_POINT_FORMATS, vec8 fs)"
| "encode_contents (SignatureAlgorithms ss) = (EXT_SIGNATURE_ALGORITHMS, vec16 (encode_u16s ss))"
| "encode_contents (Versions vs) = (EXT_SUPPORTED_VERSIONS, vec8 (encode_u16s vs))"
| "encode_contents (Protocols ps) = (EXT_ALPN, vec16 (concat (map vec8 ps)))"
| "encode_contents (OtherExtension t d) = (t, d)"

definition encode_extension :: "nat \<times> bytes \<Rightarrow> bytes" where
  "encode_extension e = be16_bytes (fst e) @ vec16 (snd e)"

definition encode_extensions :: "extension list \<Rightarrow> bytes" where
  "encode_extensions exts = concat (map encode_extension (map encode_contents exts))"

definition encode_body :: "nat \<Rightarrow> bytes \<Rightarrow> bytes \<Rightarrow> nat list \<Rightarrow> bytes \<Rightarrow> extension list option \<Rightarrow> bytes" where
  "encode_body version random session suites compression exts =
     be16_bytes version @ random @ vec8 session @ vec16 (encode_u16s suites) @ vec8 compression
     @ (case exts of None \<Rightarrow> [] | Some es \<Rightarrow> vec16 (encode_extensions es))"

definition encode_hello :: "bytes \<Rightarrow> bytes" where
  "encode_hello body = [1, byte_of (length body div 65536), byte_of (length body div 256 mod 256), byte_of (length body mod 256)] @ body"

definition read_extension :: "nat \<times> bytes \<Rightarrow> client_hello \<Rightarrow> client_hello" where
  "read_extension e h = parse_extension (h\<lparr>extensions := extensions h @ [fst e]\<rparr>) (fst e) (snd e)"

lemma rd_u16_encoded: "n < 65536 \<Longrightarrow> rd_u16 (be16_bytes n @ rest) = Inr (n, rest)"
  by (simp add: rd_u16_def rd_take_def be16_bytes_def be16_round)

lemma rd_vec8_encoded: "length bs < 256 \<Longrightarrow> rd_vec 1 (vec8 bs @ rest) = Inr (bs, rest)"
  by (simp add: rd_vec_def rd_u8_def rd_take_def vec8_def unat_byte_of)

lemma rd_vec16_encoded: "length bs < 65536 \<Longrightarrow> rd_vec 2 (vec16 bs @ rest) = Inr (bs, rest)"
  by (simp add: rd_vec_def vec16_def rd_u16_encoded) (simp add: rd_take_def)

lemma u16_list_encoded: "\<forall>n\<in>set ns. n < 65536 \<Longrightarrow> u16_list (encode_u16s ns) = Inr ns"
proof -
  assume ns: "\<forall>n\<in>set ns. n < 65536"
  have "even (length (concat (map be16_bytes ns)))" by (induction ns) (auto simp: be16_bytes_def)
  moreover have "u16_pairs (concat (map be16_bytes ns)) = ns"
    using ns by (induction ns) (auto simp: be16_bytes_def be16_round)
  ultimately show ?thesis by (simp add: u16_list_def encode_u16s_def)
qed

lemma parse_names_extensions: "extensions (parse_names ns h) = extensions h"
  by (induction ns h rule: parse_names.induct) (subst parse_names.simps, auto split: sum.split)

lemma parse_protocols_extensions: "extensions (parse_protocols ps h) = extensions h"
  by (induction ps h rule: parse_protocols.induct) (subst parse_protocols.simps, auto split: sum.split)

lemma parse_extension_extensions: "extensions (parse_extension h t d) = extensions h"
  by (auto simp: parse_extension_def parse_names_extensions parse_protocols_extensions split: sum.split)

definition ext_ok :: "nat \<times> bytes \<Rightarrow> bool" where
  "ext_ok e \<longleftrightarrow> fst e < 65536 \<and> length (snd e) < 65536"

lemma parse_extensions_encoded:
  assumes "\<forall>e\<in>set es. ext_ok e" and "length (extensions h) + length es \<le> 256"
  shows "parse_extensions (concat (map encode_extension es)) h = Inr (fold read_extension es h)"
  using assms
proof (induction es arbitrary: h)
  case Nil
  then show ?case by (simp add: parse_extensions.simps)
next
  case (Cons e es)
  have e: "fst e < 65536" "length (snd e) < 65536" using Cons.prems(1) by (auto simp: ext_ok_def)
  let ?rest = "concat (map encode_extension es)"
  have ne: "encode_extension e @ ?rest \<noteq> []" by (simp add: encode_extension_def be16_bytes_def)
  have first: "rd_u16 (encode_extension e @ ?rest) = Inr (fst e, vec16 (snd e) @ ?rest)"
    using e by (simp add: encode_extension_def rd_u16_encoded)
  have "parse_extensions (encode_extension e @ ?rest) h = parse_extensions ?rest (read_extension e h)"
    using e Cons.prems(2) ne
    by (subst parse_extensions.simps) (simp add: first rd_vec16_encoded read_extension_def Let_def del: append_is_Nil_conv)
  moreover have "parse_extensions ?rest (read_extension e h) = Inr (fold read_extension es (read_extension e h))"
    by (rule Cons.IH) (use Cons.prems in \<open>auto simp: read_extension_def parse_extension_extensions\<close>)
  ultimately show ?case by simp
qed

text \<open>What the hello should hold: the last list of each kind, all protocols, the first host name.\<close>

definition last_of_kind :: "'a list \<Rightarrow> 'a list list \<Rightarrow> 'a list" where
  "last_of_kind d xss = (if xss = [] then d else last xss)"

definition host_names :: "extension list \<Rightarrow> bytes list" where
  "host_names exts = map snd (filter (\<lambda>n. fst n = 0) (concat (List.map_filter (\<lambda>e. case e of ServerNames ns \<Rightarrow> Some ns | _ \<Rightarrow> None) exts)))"

definition add_extensions :: "extension list \<Rightarrow> client_hello \<Rightarrow> client_hello" where
  "add_extensions exts h = h\<lparr>
     extensions := extensions h @ map (fst \<circ> encode_contents) exts,
     supported_groups := last_of_kind (supported_groups h) (List.map_filter (\<lambda>e. case e of Groups v \<Rightarrow> Some v | _ \<Rightarrow> None) exts),
     ec_point_formats := last_of_kind (ec_point_formats h) (List.map_filter (\<lambda>e. case e of PointFormats v \<Rightarrow> Some (map unat v) | _ \<Rightarrow> None) exts),
     signature_algorithms := last_of_kind (signature_algorithms h) (List.map_filter (\<lambda>e. case e of SignatureAlgorithms v \<Rightarrow> Some v | _ \<Rightarrow> None) exts),
     supported_versions := last_of_kind (supported_versions h) (List.map_filter (\<lambda>e. case e of Versions v \<Rightarrow> Some v | _ \<Rightarrow> None) exts),
     alpn := alpn h @ concat (List.map_filter (\<lambda>e. case e of Protocols v \<Rightarrow> Some v | _ \<Rightarrow> None) exts),
     server_name := (case server_name h of Some n \<Rightarrow> Some n | None \<Rightarrow> (case host_names exts of [] \<Rightarrow> None | n # _ \<Rightarrow> Some (decode_ascii n)))\<rparr>"

definition KNOWN_TYPES :: "nat list" where
  "KNOWN_TYPES = [EXT_SERVER_NAME, EXT_SUPPORTED_GROUPS, EXT_EC_POINT_FORMATS, EXT_SIGNATURE_ALGORITHMS, EXT_ALPN, EXT_SUPPORTED_VERSIONS]"

definition u16s_ok :: "nat list \<Rightarrow> bool" where
  "u16s_ok ns = list_all (\<lambda>n. n < 65536) ns"

text \<open>Every value fits its field, and the contents fit theirs.\<close>

fun extension_ok :: "extension \<Rightarrow> bool" where
  "extension_ok (ServerNames ns) \<longleftrightarrow> list_all (\<lambda>n. length (snd n) < 65536) ns \<and> length (concat (map encode_name ns)) < 65534"
| "extension_ok (Groups gs) \<longleftrightarrow> u16s_ok gs \<and> length gs < 32767"
| "extension_ok (PointFormats fs) \<longleftrightarrow> length fs < 256"
| "extension_ok (SignatureAlgorithms ss) \<longleftrightarrow> u16s_ok ss \<and> length ss < 32767"
| "extension_ok (Versions vs) \<longleftrightarrow> u16s_ok vs \<and> length vs < 128"
| "extension_ok (Protocols ps) \<longleftrightarrow> list_all (\<lambda>p. length p < 256) ps \<and> length (concat (map vec8 ps)) < 65534"
| "extension_ok (OtherExtension t d) \<longleftrightarrow> t < 65536 \<and> length d < 65536 \<and> (t \<notin> set KNOWN_TYPES \<or> d = [])"

definition hello_ok :: "nat \<Rightarrow> bytes \<Rightarrow> bytes \<Rightarrow> nat list \<Rightarrow> bytes \<Rightarrow> extension list option \<Rightarrow> bool" where
  "hello_ok version random session suites compression exts \<longleftrightarrow>
     version < 65536 \<and> length random = 32 \<and> length session < 256 \<and> length compression < 256 \<and> u16s_ok suites \<and> length suites < 32768
     \<and> (case exts of None \<Rightarrow> True | Some es \<Rightarrow> list_all extension_ok es \<and> length es \<le> 256 \<and> length (encode_extensions es) < 65536)"

lemma suites_length: "length (encode_u16s ns) = 2 * length ns"
  unfolding encode_u16s_def by (induction ns) (auto simp: be16_bytes_length)

lemma vec_length: "length (vec8 bs) = Suc (length bs)" "length (vec16 bs) = 2 + length bs"
  by (simp_all add: vec8_def vec16_def be16_bytes_length)

lemma vec_whole: "length bs < 256 \<Longrightarrow> rd_vec 1 (vec8 bs) = Inr (bs, [])" "length bs < 65536 \<Longrightarrow> rd_vec 2 (vec16 bs) = Inr (bs, [])"
  using rd_vec8_encoded [of bs "[]"] rd_vec16_encoded [of bs "[]"] by simp_all

lemma u16_vec_encoded:
  "u16s_ok ns \<Longrightarrow> length ns < 32768 \<Longrightarrow> u16_vec 2 (vec16 (encode_u16s ns)) = Inr ns"
  "u16s_ok ns \<Longrightarrow> length ns < 128 \<Longrightarrow> u16_vec 1 (vec8 (encode_u16s ns)) = Inr ns"
  by (simp_all add: u16_vec_def vec_whole suites_length u16_list_encoded u16s_ok_def list_all_iff del: One_nat_def)

lemma extension_ok_fits: "extension_ok e \<Longrightarrow> ext_ok (encode_contents e)"
  by (cases e) (auto simp: ext_ok_def ext_defs vec_length suites_length)

lemma parse_names_encoded:
  assumes "list_all (\<lambda>n. length (snd n) < 65536) ns"
  shows "parse_names (concat (map encode_name ns)) h = h\<lparr>server_name := (case server_name h of Some n \<Rightarrow> Some n
    | None \<Rightarrow> (case filter (\<lambda>n. fst n = 0) ns of [] \<Rightarrow> None | n # _ \<Rightarrow> Some (decode_ascii (snd n))))\<rparr>"
  using assms
proof (induction ns arbitrary: h)
  case Nil
  then show ?case by (simp add: parse_names.simps split: option.split)
next
  case (Cons n ns)
  obtain t bs where n: "n = (t, bs)" by fastforce
  have "rd_u8 (encode_name n @ concat (map encode_name ns)) = Inr (unat t, vec16 bs @ concat (map encode_name ns))"
    by (simp add: rd_u8_def rd_take_def encode_name_def n)
  moreover have "rd_vec 2 (vec16 bs @ concat (map encode_name ns)) = Inr (bs, concat (map encode_name ns))"
    using Cons.prems by (intro rd_vec16_encoded) (simp add: n)
  moreover have "encode_name n @ concat (map encode_name ns) \<noteq> []" by (simp add: encode_name_def)
  ultimately have "parse_names (encode_name n @ concat (map encode_name ns)) h = parse_names (concat (map encode_name ns))
      (if unat t = 0 \<and> server_name h = None then h\<lparr>server_name := Some (decode_ascii bs)\<rparr> else h)"
    by (subst parse_names.simps) (simp del: append_is_Nil_conv)
  moreover have "unat t = 0 \<longleftrightarrow> t = 0" by (simp add: unat_eq_zero)
  ultimately show ?case using Cons by (simp add: n split: option.split)
qed

lemma parse_protocols_encoded:
  assumes "list_all (\<lambda>p. length p < 256) ps"
  shows "parse_protocols (concat (map vec8 ps)) h = h\<lparr>alpn := alpn h @ ps\<rparr>"
  using assms
proof (induction ps arbitrary: h)
  case Nil
  then show ?case by (simp add: parse_protocols.simps)
next
  case (Cons p ps)
  have "rd_vec 1 (vec8 p @ concat (map vec8 ps)) = Inr (p, concat (map vec8 ps))"
    using Cons.prems by (intro rd_vec8_encoded) simp
  moreover have "vec8 p @ concat (map vec8 ps) \<noteq> []" by (simp add: vec8_def)
  ultimately have "parse_protocols (vec8 p @ concat (map vec8 ps)) h = parse_protocols (concat (map vec8 ps)) (h\<lparr>alpn := alpn h @ [p]\<rparr>)"
    by (subst parse_protocols.simps) (simp del: append_is_Nil_conv One_nat_def)
  then show ?case using Cons by simp
qed

text \<open>One extension read is one extension added.\<close>

lemma vec_not_Nil: "vec8 bs \<noteq> []" "vec16 bs \<noteq> []"
  by (simp_all add: vec8_def vec16_def be16_bytes_def)

lemma empty_body_ignored: "parse_extension h t [] = h"
  by (simp add: parse_extension_def u16_vec_def rd_vec_def rd_u16_def rd_u8_def rd_take_def)

lemma unknown_ignored: "t \<notin> set KNOWN_TYPES \<Longrightarrow> parse_extension h t d = h"
  by (simp add: KNOWN_TYPES_def parse_extension_def)

lemma read_extension_added:
  assumes "extension_ok e"
  shows "read_extension (encode_contents e) h = add_extensions [e] h"
proof (cases e)
  case (OtherExtension t d)
  with assms show ?thesis
    by (auto simp: read_extension_def empty_body_ignored unknown_ignored add_extensions_def last_of_kind_def host_names_def map_filter_simps split: option.split)
next
  case (ServerNames ns)
  with assms show ?thesis
    by (auto simp: read_extension_def parse_extension_def ext_defs vec_whole vec_not_Nil parse_names_encoded add_extensions_def last_of_kind_def host_names_def
      map_filter_simps split: option.split list.split)
next
  case (Protocols ps)
  with assms show ?thesis
    by (auto simp: read_extension_def parse_extension_def ext_defs vec_whole vec_not_Nil parse_protocols_encoded add_extensions_def last_of_kind_def host_names_def
      map_filter_simps split: option.split)
qed (use assms in \<open>auto simp: read_extension_def parse_extension_def ext_defs vec_whole u16_vec_encoded add_extensions_def last_of_kind_def host_names_def
      map_filter_simps simp del: One_nat_def split: option.split\<close>)

lemma add_extensions_Cons: "add_extensions (e # es) h = add_extensions es (add_extensions [e] h)"
  by (cases e) (auto simp: add_extensions_def last_of_kind_def host_names_def map_filter_simps split: option.split list.split)

lemma fold_read_extensions:
  "list_all extension_ok es \<Longrightarrow> fold read_extension (map encode_contents es) h = add_extensions es h"
proof (induction es arbitrary: h)
  case Nil
  then show ?case by (simp add: add_extensions_def last_of_kind_def host_names_def map_filter_simps split: option.split)
next
  case (Cons e es)
  then show ?case by (simp add: read_extension_added add_extensions_Cons [of e es])
qed

lemma parse_body_encoded:
  assumes "hello_ok version random session suites compression exts"
  shows "parse_body (encode_body version random session suites compression exts)
         = Inr (add_extensions (case exts of None \<Rightarrow> [] | Some es \<Rightarrow> es) (empty_hello version suites))"
proof -
  have b: "version < 65536" "length random = 32" "length session < 256" "length compression < 256" "length (encode_u16s suites) < 65536"
    using assms by (simp_all add: hello_ok_def suites_length)
  have suites: "u16_list (encode_u16s suites) = Inr suites"
    by (rule u16_list_encoded) (use assms in \<open>simp add: hello_ok_def u16s_ok_def list_all_iff\<close>)
  have random: "rd_take 32 (random @ r) = Inr (random, r)" for r using b(2) by (simp add: rd_take_def)
  note head = rd_u16_encoded b random rd_vec8_encoded rd_vec16_encoded suites
  show ?thesis
  proof (cases exts)
    case None
    have "rd_vec 1 (vec8 compression) = Inr (compression, [])" by (rule vec_whole) fact
    then show ?thesis unfolding parse_body_def encode_body_def None
      by (simp add: head add_extensions_def last_of_kind_def host_names_def map_filter_simps empty_hello_def del: One_nat_def)
  next
    case (Some es)
    have ok: "list_all extension_ok es" "length es \<le> 256" "length (encode_extensions es) < 65536" using assms Some by (simp_all add: hello_ok_def)
    have "parse_extensions (encode_extensions es) (empty_hello version suites) = Inr (fold read_extension (map encode_contents es) (empty_hello version suites))"
      unfolding encode_extensions_def
      by (rule parse_extensions_encoded) (use ok extension_ok_fits in \<open>auto simp: list_all_iff empty_hello_def\<close>)
    then have "parse_extensions (encode_extensions es) (empty_hello version suites) = Inr (add_extensions es (empty_hello version suites))"
      using ok(1) by (simp add: fold_read_extensions)
    then show ?thesis unfolding parse_body_def encode_body_def Some
      by (simp add: head vec_whole(2) ok(3) vec_not_Nil del: One_nat_def)
  qed
qed

lemma be24_split: "n div 65536 * 65536 + n div 256 mod 256 * 256 + n mod 256 = (n::nat)"
  using div_mult2_eq [of n 256 256] div_mult_mod_eq [of n 256] div_mult_mod_eq [of "n div 256" 256] by (simp, linarith)

text \<open>
  C28: the parser reads back every field of an encoded ClientHello of at most 256 extensions (more are refused),
  with any bytes behind it: the version, the cipher suites in order, the types of all extensions in order, and the
  contents of those it reads -- the groups, point formats, signature algorithms and versions (of the last
  extension of the kind, should one come twice), the ALPN protocols in order, and the first host name of the
  server names.  Extensions of other types, and an empty one of any type, count by their type alone; a hello
  without the extensions block, which is legal, has none.
\<close>

theorem parse_client_hello_encoded:
  assumes "hello_ok version random session suites compression exts"
    and "length (encode_body version random session suites compression exts) < 16777216"
  shows "parse_client_hello (encode_hello (encode_body version random session suites compression exts) @ rest)
         = Inr (add_extensions (case exts of None \<Rightarrow> [] | Some es \<Rightarrow> es) (empty_hello version suites))"
proof -
  let ?b = "encode_body version random session suites compression exts"
  have t: "rd_u8 (encode_hello ?b @ rest) = Inr (1, drop 1 (encode_hello ?b @ rest))"
    by (simp add: rd_u8_def rd_take_def encode_hello_def)
  note be24_split [of "length ?b"]
  then have n: "rd_u24 (drop 1 (encode_hello ?b @ rest)) = Inr (length ?b, ?b @ rest)"
    using assms(2) by (simp add: rd_u24_def rd_take_def encode_hello_def unat_byte_of)
  have "rd_take (length ?b) (?b @ rest) = Inr (?b, rest)" by (simp add: rd_take_def)
  then show ?thesis
    unfolding parse_client_hello_def using t n parse_body_encoded [OF assms(1)] by (simp add: HANDSHAKE_CLIENT_HELLO_def)
qed

theorem parse_client_hello_encoded_witness:
  "parse_client_hello (encode_hello (encode_body 0x0303 (replicate 32 7) [] [0x1301, 0xC02F] [0]
       (Some [Groups [29, 23], ServerNames [(0, [0x61, 0x62])], OtherExtension 0x0017 [], Protocols [[0x68, 0x32]]])) @ [5])
   = Inr ((empty_hello 0x0303 [0x1301, 0xC02F])\<lparr>extensions := [0x000A, 0, 0x0017, 0x0010], supported_groups := [29, 23],
       alpn := [[0x68, 0x32]], server_name := Some ''ab''\<rparr>)"
proof -
  let ?e = "[Groups [29, 23], ServerNames [(0, [0x61, 0x62])], OtherExtension 0x0017 [], Protocols [[0x68, 0x32]]]"
  have len: "length (encode_extensions ?e) < 100"
    by (simp add: encode_extensions_def encode_extension_def vec_length be16_bytes_length suites_length encode_name_def)
  have ok: "hello_ok 0x0303 (replicate 32 7) [] [0x1301, 0xC02F] [0] (Some ?e)"
    using len by (simp add: hello_ok_def u16s_ok_def KNOWN_TYPES_def ext_defs encode_name_def vec_length)
  have "length (encode_body 0x0303 (replicate 32 7) [] [0x1301, 0xC02F] [0] (Some ?e)) < 16777216"
    using len by (simp add: encode_body_def vec_length be16_bytes_length suites_length)
  from parse_client_hello_encoded [OF ok this, of "[5]"]
  show ?thesis
    by (simp add: add_extensions_def last_of_kind_def host_names_def map_filter_simps ext_defs empty_hello_def decode_ascii_def char_of_def bit_0)
qed

end
