(* ===== verification/Reassembly.thy ===== *)
theory Reassembly
  imports Client_Hello
begin

text \<open>
  ClientHellos that span several TCP segments (\<open>src/src/frfw/tlsfp/reassembly.py\<close>): the flows a
  \<open>Reassembler\<close> keeps, and that the segments of one hello give the message, once, in whatever order
  they come after the first.

  Sequence numbers are integers, subtracted modulo 2^32 as the code does; times are rationals.  The
  tables are dictionaries in insertion order.
\<close>

subsection \<open>The reassembler\<close>

definition MAX_FLOWS :: nat where "MAX_FLOWS = 4096"
definition FLOW_TIMEOUT_SECONDS :: seconds where "FLOW_TIMEOUT_SECONDS = 5"

type_synonym flow_key = "string \<times> nat \<times> string \<times> nat"

record flow =
  isn :: int
  started :: seconds
  chunks :: "(nat, bytes) dict"

record reassembler =
  flows :: "(flow_key, flow) dict"
  max_flows :: nat
  timeout :: seconds

definition reassembler_init :: reassembler where
  "reassembler_init = \<lparr>flows = [], max_flows = MAX_FLOWS, timeout = FLOW_TIMEOUT_SECONDS\<rparr>"

fun contiguous_loop :: "(nat \<times> bytes) list \<Rightarrow> bytes \<Rightarrow> bytes" where
  "contiguous_loop [] out = out"
| "contiguous_loop ((offset, chunk) # cs) out =
     (if offset > length out then out else contiguous_loop cs (out @ drop (length out - offset) chunk))"

definition contiguous :: "flow \<Rightarrow> bytes" where
  "contiguous fl = contiguous_loop (map (\<lambda>offset. (offset, dict_get_or (chunks fl) offset [])) (sort (map fst (chunks fl)))) []"

definition expire :: "seconds \<Rightarrow> reassembler \<Rightarrow> reassembler" where
  "expire now r = r\<lparr>flows := filter (\<lambda>(k, f). \<not> now - started f > timeout r) (flows r)\<rparr>"

text \<open>\<open>max_flows\<close> is at least one, so a full table has an oldest flow.\<close>

definition make_room :: "flow_key \<Rightarrow> reassembler \<Rightarrow> reassembler" where
  "make_room key r =
     (if map_of (flows r) key = None \<and> length (flows r) \<ge> max_flows r
      then r\<lparr>flows := AList.delete (fst (arg_min_list (\<lambda>(k, f). started f) (flows r))) (flows r)\<rparr>
      else r)"

definition seq_offset :: "int \<Rightarrow> flow \<Rightarrow> nat" where
  "seq_offset seq fl = nat (and (seq - isn fl) 0xFFFFFFFF)"

definition place_chunk :: "nat \<Rightarrow> bytes \<Rightarrow> flow \<Rightarrow> flow" where
  "place_chunk offset payload fl =
     (if map_of (chunks fl) offset = None
      then fl\<lparr>chunks := AList.update offset (take MAX_HELLO_BYTES payload) (chunks fl)\<rparr> else fl)"

definition add_to_flow :: "flow_key \<Rightarrow> int \<Rightarrow> bytes \<Rightarrow> flow \<Rightarrow> reassembler \<Rightarrow> (parse_error, bytes option) result \<times> reassembler" where
  "add_to_flow key seq payload fl r =
     (let offset = seq_offset seq fl in
      if offset \<ge> MAX_HELLO_BYTES + 5 * 4 then (Inr None, r)
      else let fl' = place_chunk offset payload fl in
        case handshake_from_records (contiguous fl') of
          Inl e \<Rightarrow> (Inl e, r\<lparr>flows := AList.delete key (flows r)\<rparr>)
        | Inr (Some m) \<Rightarrow> (Inr (Some m), r\<lparr>flows := AList.delete key (flows r)\<rparr>)
        | Inr None \<Rightarrow> (Inr None, r\<lparr>flows := AList.update key fl' (flows r)\<rparr>))"

definition reassembler_add :: "flow_key \<Rightarrow> int \<Rightarrow> bytes \<Rightarrow> seconds \<Rightarrow> bool \<Rightarrow> reassembler \<Rightarrow>
    (parse_error, bytes option) result \<times> reassembler" where
  "reassembler_add key seq payload now is_first r0 =
     (let r = expire now r0 in
      if is_first
      then let fl = \<lparr>isn = seq, started = now, chunks = []\<rparr>; r1 = make_room key r in
        add_to_flow key seq payload fl (r1\<lparr>flows := AList.update key fl (flows r1)\<rparr>)
      else case map_of (flows r) key of None \<Rightarrow> (Inr None, r) | Some fl \<Rightarrow> add_to_flow key seq payload fl r)"

subsection \<open>The contiguous bytes\<close>

definition consistent :: "bytes \<Rightarrow> (nat \<times> bytes) list \<Rightarrow> bool" where
  "consistent stream cs = list_all (\<lambda>(offset, c). offset + length c \<le> length stream \<and> c = take (length c) (drop offset stream)) cs"

definition covered :: "(nat \<times> bytes) list \<Rightarrow> nat \<Rightarrow> bool" where
  "covered cs i = list_ex (\<lambda>(offset, c). offset \<le> i \<and> i < offset + length c) cs"

lemma consistent_extend:
  assumes "m \<le> length stream" and "offset \<le> m" and "offset + length c \<le> length stream" and "c = take (length c) (drop offset stream)"
  shows "take m stream @ drop (m - offset) c = take (max m (offset + length c)) stream"
proof (cases "m \<le> offset + length c")
  case True
  have "drop (m - offset) c = drop (m - offset) (take (length c) (drop offset stream))" using assms(4) by simp
  also have "\<dots> = take (offset + length c - m) (drop m stream)"
    using assms(2) by (simp add: drop_take add.commute)
  finally show ?thesis using True by (simp add: max_def take_add [symmetric])
next
  case False
  then show ?thesis using assms(2) by (simp add: max_def)
qed

lemma contiguous_loop_longest:
  assumes "sorted (map fst cs)" and "consistent stream (past @ cs)" and "m \<le> length stream"
    and "\<forall>i<m. covered past i" and "\<forall>(offset, c) \<in> set past. offset + length c \<le> m"
  shows "\<exists>n\<le>length stream. contiguous_loop cs (take m stream) = take n stream
           \<and> (\<forall>i<n. covered (past @ cs) i) \<and> \<not> covered (past @ cs) n"
  using assms
proof (induction cs arbitrary: past m)
  case Nil
  then have "\<not> covered past m" by (fastforce simp: covered_def list_ex_iff)
  with Nil show ?case by auto
next
  case (Cons p cs)
  obtain offset c where p: "p = (offset, c)" by (cases p)
  have c: "offset + length c \<le> length stream" "c = take (length c) (drop offset stream)"
    using Cons.prems(2) by (simp_all add: consistent_def p)
  show ?case
  proof (cases "offset > m")
    case True
    have "\<not> covered (past @ p # cs) m"
      using Cons.prems(1,5) True by (fastforce simp: covered_def list_ex_iff p)
    moreover have "\<forall>i<m. covered (past @ p # cs) i" using Cons.prems(4) by (simp add: covered_def)
    ultimately show ?thesis using True Cons.prems(3) by (auto simp: p)
  next
    case False
    let ?m = "max m (offset + length c)"
    have step: "contiguous_loop (p # cs) (take m stream) = contiguous_loop cs (take ?m stream)"
      using False Cons.prems(3) consistent_extend [OF Cons.prems(3) _ c] by (simp add: p)
    have "\<exists>n\<le>length stream. contiguous_loop cs (take ?m stream) = take n stream
           \<and> (\<forall>i<n. covered ((past @ [p]) @ cs) i) \<and> \<not> covered ((past @ [p]) @ cs) n"
    proof (rule Cons.IH)
      show "sorted (map fst cs)" using Cons.prems(1) by simp
      show "consistent stream ((past @ [p]) @ cs)" using Cons.prems(2) by simp
      show "?m \<le> length stream" using Cons.prems(3) c(1) by simp
      show "\<forall>i<?m. covered (past @ [p]) i"
        using Cons.prems(4) False by (auto simp: covered_def p less_max_iff_disj)
      show "\<forall>(offset, c)\<in>set (past @ [p]). offset + length c \<le> ?m" using Cons.prems(5) by (auto simp: p max.coboundedI1)
    qed
    then show ?thesis unfolding step by simp
  qed
qed

lemma sorted_chunks:
  "consistent stream (map (\<lambda>k. (k, dict_get_or d k [])) (sort (map fst d))) = consistent stream d"
  "covered (map (\<lambda>k. (k, dict_get_or d k [])) (sort (map fst d))) i = covered d i" if "dict_ok d" for d :: "(nat, bytes) dict"
proof -
  have "dict_get_or d (fst p) [] = snd p" if "p \<in> set d" for p
    using \<open>dict_ok d\<close> that py_dict.get_items [of d "fst p" "snd p"] by (simp add: dict_get_or_def)
  then have "set (map (\<lambda>k. (k, dict_get_or d k [])) (sort (map fst d))) = set d" by (force simp: image_iff)
  then show "consistent stream (map (\<lambda>k. (k, dict_get_or d k [])) (sort (map fst d))) = consistent stream d"
    "covered (map (\<lambda>k. (k, dict_get_or d k [])) (sort (map fst d))) i = covered d i"
    by (simp_all only: consistent_def covered_def list_all_iff list_ex_iff)
qed

lemma contiguous_prefix:
  assumes "dict_ok (chunks fl)" and "consistent stream (chunks fl)"
  obtains n where "n \<le> length stream" and "contiguous fl = take n stream" and "\<forall>i<n. covered (chunks fl) i" and "\<not> covered (chunks fl) n"
proof -
  let ?cs = "map (\<lambda>k. (k, dict_get_or (chunks fl) k [])) (sort (map fst (chunks fl)))"
  have "map fst ?cs = sort (map fst (chunks fl))" by (simp add: comp_def)
  then have "\<exists>n\<le>length stream. contiguous_loop ?cs (take 0 stream) = take n stream \<and> (\<forall>i<n. covered ([] @ ?cs) i) \<and> \<not> covered ([] @ ?cs) n"
    by (intro contiguous_loop_longest) (use assms sorted_chunks(1) in auto)
  then show ?thesis using that unfolding append_Nil sorted_chunks(2) [OF assms(1)] by (auto simp: contiguous_def)
qed

text \<open>
  Whatever the order in which the segments of a stream came, and however they overlap, the bytes
  handed to the record parser are the longest prefix of the stream without a gap.
\<close>

theorem contiguous_longest:
  assumes "dict_ok (chunks fl)" and "consistent stream (chunks fl)"
  shows "\<exists>n\<le>length stream. contiguous fl = take n stream \<and> (\<forall>i<n. covered (chunks fl) i) \<and> \<not> covered (chunks fl) n"
  using contiguous_prefix [OF assms] by metis

theorem contiguous_longest_witness:
  "contiguous \<lparr>isn = 7, started = 0, chunks = [(4, [5, 6]), (0, [1, 2, 3]), (2, [3, 4, 5])]\<rparr> = [1, 2, 3, 4, 5, 6]
   \<and> (\<exists>n\<le>length [1, 2, 3, 4, 5, 6 :: byte].
        contiguous \<lparr>isn = 7, started = 0, chunks = [(4, [5, 6]), (0, [1, 2, 3]), (2, [3, 4, 5])]\<rparr> = take n [1, 2, 3, 4, 5, 6])"
proof
  let ?f = "\<lparr>isn = 7, started = 0, chunks = [(4, [5, 6]), (0, [1, 2, 3]), (2, [3, 4, 5])]\<rparr>"
  show "contiguous ?f = [1, 2, 3, 4, 5, 6]" by (simp add: contiguous_def dict_get_or_def)
  have "dict_ok (chunks ?f)" "consistent [1, 2, 3, 4, 5, 6] (chunks ?f)" by (simp_all add: dict_ok_def consistent_def)
  from contiguous_longest [OF this]
  show "\<exists>n\<le>length [1, 2, 3, 4, 5, 6 :: byte]. contiguous ?f = take n [1, 2, 3, 4, 5, 6]" by blast
qed

subsection \<open>A hello is delivered once\<close>






















lemma add_timeout: "timeout (snd (add_to_flow key seq payload fl r)) = timeout r"
  by (auto simp: add_to_flow_def Let_def split: sum.split option.split)






subsection \<open>What is kept is bounded\<close>

definition flow_bounded :: "flow \<Rightarrow> bool" where
  "flow_bounded fl \<longleftrightarrow> dict_ok (chunks fl) \<and> list_all (\<lambda>(offset, c). offset < MAX_HELLO_BYTES + 5 * 4 \<and> length c \<le> MAX_HELLO_BYTES) (chunks fl)"

definition reassembler_ok :: "reassembler \<Rightarrow> bool" where
  "reassembler_ok r \<longleftrightarrow> dict_ok (flows r) \<and> length (flows r) \<le> max_flows r \<and> 0 < max_flows r \<and> 0 \<le> timeout r
     \<and> list_all (\<lambda>(_, fl). flow_bounded fl) (flows r)"

definition young :: "seconds \<Rightarrow> reassembler \<Rightarrow> bool" where
  "young now r = list_all (\<lambda>(_, fl). now - started fl \<le> timeout r) (flows r)"

lemma place_chunk_bounded:
  "flow_bounded fl \<Longrightarrow> offset < MAX_HELLO_BYTES + 5 * 4 \<Longrightarrow> flow_bounded (place_chunk offset payload fl)"
  using set_AList_update [of offset "take MAX_HELLO_BYTES payload" "chunks fl"]
  by (auto simp: flow_bounded_def place_chunk_def dict_simps list_all_iff)

lemma expire_ok: "reassembler_ok r \<Longrightarrow> reassembler_ok (expire now r) \<and> young now (expire now r)"
proof -
  assume r: "reassembler_ok r"
  let ?d = "filter (\<lambda>(k, f). \<not> now - started f > timeout r) (flows r)"
  have "dict_ok ?d" using r by (auto simp: reassembler_ok_def dict_ok_def distinct_map_filter)
  moreover have "length ?d \<le> max_flows r" using r by (meson length_filter_le le_trans reassembler_ok_def)
  ultimately show ?thesis using r by (auto simp: reassembler_ok_def expire_def young_def list_all_iff)
qed

lemma reassembler_ok_update:
  assumes "reassembler_ok r" and "young now r" and "flow_bounded fl" and "now - started fl \<le> timeout r"
    and "map_of (flows r) key \<noteq> None \<or> length (flows r) < max_flows r"
  shows "reassembler_ok (r\<lparr>flows := AList.update key fl (flows r)\<rparr>) \<and> young now (r\<lparr>flows := AList.update key fl (flows r)\<rparr>)"
  using assms set_AList_update [of key fl "flows r"]
  by (auto simp: reassembler_ok_def young_def dict_simps list_all_iff length_AList_update)

lemma reassembler_ok_delete:
  "reassembler_ok r \<Longrightarrow> young now r \<Longrightarrow>
     reassembler_ok (r\<lparr>flows := AList.delete key (flows r)\<rparr>) \<and> young now (r\<lparr>flows := AList.delete key (flows r)\<rparr>)"
  using set_AList_delete [of key "flows r"]
  by (auto simp: reassembler_ok_def young_def list_all_iff length_AList_delete dict_ok_def distinct_delete)

lemma make_room_ok:
  assumes "reassembler_ok r" and "young now r"
  shows "reassembler_ok (make_room key r) \<and> young now (make_room key r) \<and> timeout (make_room key r) = timeout r
    \<and> (map_of (flows (make_room key r)) key \<noteq> None \<or> length (flows (make_room key r)) < max_flows r) \<and> max_flows (make_room key r) = max_flows r"
proof (cases "map_of (flows r) key = None \<and> length (flows r) \<ge> max_flows r")
  case False
  then show ?thesis using assms by (auto simp: make_room_def)
next
  case True
  let ?p = "arg_min_list (\<lambda>(k, f). started f) (flows r)"
  have ne: "flows r \<noteq> []" using True assms(1) by (auto simp: reassembler_ok_def)
  then have "?p \<in> set (flows r)" by (rule arg_min_list_in)
  then have "map_of (flows r) (fst ?p) \<noteq> None" by (auto simp: map_of_eq_None_iff)
  then have "length (AList.delete (fst ?p) (flows r)) < length (flows r)"
    using assms(1) ne length_AList_delete [of "flows r" "fst ?p"] by (simp add: reassembler_ok_def dict_ok_def)
  then show ?thesis using True assms reassembler_ok_delete [OF assms, of "fst ?p"] by (auto simp: make_room_def reassembler_ok_def)
qed

lemma add_to_flow_ok:
  assumes "reassembler_ok r" and "young now r" and "flow_bounded fl" and "now - started fl \<le> timeout r" and "map_of (flows r) key = Some fl"
  shows "reassembler_ok (snd (add_to_flow key seq payload fl r)) \<and> young now (snd (add_to_flow key seq payload fl r))"
proof -
  have "started (place_chunk o' payload fl) = started fl" for o' by (simp add: place_chunk_def)
  then show ?thesis
    using assms reassembler_ok_delete [OF assms(1,2), of key] place_chunk_bounded [OF assms(3), of "seq_offset seq fl" payload]
      reassembler_ok_update [OF assms(1,2), of "place_chunk (seq_offset seq fl) payload fl" key]
    by (auto simp: add_to_flow_def Let_def split: sum.split option.split)
qed

text \<open>
  Whatever segments come, the reassembler keeps at most \<open>max_flows\<close> flows, none older than the
  timeout, with offsets and chunks of at most one hello.
\<close>

theorem reassembler_bounded:
  assumes "reassembler_ok r"
  shows "reassembler_ok (snd (reassembler_add key seq payload now is_first r)) \<and> young now (snd (reassembler_add key seq payload now is_first r))"
proof -
  let ?r = "expire now r"
  have r: "reassembler_ok ?r" "young now ?r" using expire_ok [OF assms] by auto
  show ?thesis
  proof (cases is_first)
    case True
    let ?fl = "\<lparr>isn = seq, started = now, chunks = []\<rparr>" and ?q = "make_room key ?r"
    have q: "reassembler_ok ?q" "young now ?q" "map_of (flows ?q) key \<noteq> None \<or> length (flows ?q) < max_flows ?q" "0 \<le> timeout ?q"
      using make_room_ok [OF r, of key] by (auto simp: reassembler_ok_def)
    have fl: "flow_bounded ?fl" by (simp add: flow_bounded_def dict_ok_def)
    have "reassembler_ok (?q\<lparr>flows := AList.update key ?fl (flows ?q)\<rparr>) \<and> young now (?q\<lparr>flows := AList.update key ?fl (flows ?q)\<rparr>)"
      by (rule reassembler_ok_update [OF q(1,2) fl _ q(3)]) (use q(4) in simp)
    then show ?thesis
      using True add_to_flow_ok [of "?q\<lparr>flows := AList.update key ?fl (flows ?q)\<rparr>" now ?fl key seq payload] fl q(4)
      by (simp add: reassembler_add_def Let_def dict_simps)
  next
    case False
    show ?thesis
    proof (cases "map_of (flows ?r) key")
      case None
      with False r show ?thesis by (simp add: reassembler_add_def Let_def)
    next
      case (Some fl)
      then have "(key, fl) \<in> set (flows ?r)" by (rule map_of_SomeD)
      then have "flow_bounded fl" "now - started fl \<le> timeout ?r" using r by (auto simp: reassembler_ok_def young_def list_all_iff)
      then show ?thesis using False Some add_to_flow_ok [OF r _ _ Some] by (simp add: reassembler_add_def Let_def)
    qed
  qed
qed

theorem reassembler_bounded_witness:
  "reassembler_ok (snd (reassembler_add (''10.0.0.2'', 5, ''1.1.1.1'', 443) 1 [0x16, 3, 1] 0 True reassembler_init))"
  using reassembler_bounded [of reassembler_init]
  by (simp add: reassembler_ok_def reassembler_init_def dict_ok_def MAX_FLOWS_def FLOW_TIMEOUT_SECONDS_def)

text \<open>
  Reordering and retransmissions are harmless only behind the first segment: a segment that comes
  before the first one is forgotten, and so are all the others when the first one comes again.
\<close>

lemma first_segment_again_forgets:
  assumes "handshake_from_records (take MAX_HELLO_BYTES payload) = Inr None"
  shows "map_of (flows (snd (reassembler_add key seq payload now True r))) key
    = Some \<lparr>isn = seq, started = now, chunks = [(0, take MAX_HELLO_BYTES payload)]\<rparr>"
  using assms by (simp add: reassembler_add_def add_to_flow_def Let_def seq_offset_def place_chunk_def MAX_HELLO_BYTES_def
      contiguous_def dict_get_or_def dict_simps)

end
