(* ===== verification/Tls_Fingerprint.thy ===== *)
theory Tls_Fingerprint
  imports Client_Hello Ip_Address "HOL-Library.Multiset"
begin

text \<open>
  The JA3 and JA4 fingerprints of a ClientHello (\<open>src/src/frfw/tlsfp/fingerprint.py\<close>).  The digests of
  \<open>hashlib\<close> are parameters, functions from text to hexadecimal text.
\<close>

definition tls_version_name :: "nat \<Rightarrow> string" where
  "tls_version_name v =
     dict_get_or [(0x0304, ''13''), (0x0303, ''12''), (0x0302, ''11''), (0x0301, ''10''), (0x0300, ''s3''), (0x0002, ''s2''),
       (0xFEFF, ''d1''), (0xFEFD, ''d2''), (0xFEFC, ''d3'')] v ''00''"

definition no_grease :: "nat list \<Rightarrow> nat list" where
  "no_grease values = filter (\<lambda>v. \<not> is_grease v) values"

definition ja3_string :: "client_hello \<Rightarrow> string" where
  "ja3_string hello =
     py_join '','' (map (\<lambda>values. py_join ''-'' (map show_nat values))
       [[legacy_version hello], no_grease (ciphers hello), no_grease (extensions hello), no_grease (supported_groups hello),
        ec_point_formats hello])"

definition ja3 :: "(string \<Rightarrow> string) \<Rightarrow> client_hello \<Rightarrow> string" where
  "ja3 md5 hello = md5 (ja3_string hello)"

definition is_alnum :: "nat \<Rightarrow> bool" where
  "is_alnum a \<longleftrightarrow> 48 \<le> a \<and> a \<le> 57 \<or> 65 \<le> a \<and> a \<le> 90 \<or> 97 \<le> a \<and> a \<le> 122"

definition alpn_chars :: "bytes list \<Rightarrow> string" where
  "alpn_chars ps =
     (if ps = [] \<or> hd ps = [] then ''00''
      else let first = hd ps; a = unat (hd first); b = unat (last first) in
        if is_alnum a \<and> is_alnum b then [char_of a, char_of b]
        else [hd (bytes_hex first), last (bytes_hex first)])"

definition sha12 :: "(string \<Rightarrow> string) \<Rightarrow> string \<Rightarrow> string" where
  "sha12 sha256 s = take 12 (sha256 s)"

definition show_04x :: "nat \<Rightarrow> string" where
  "show_04x n = (let s = show_hex (int n) in replicate (4 - length s) CHR ''0'' @ s)"

definition ja4_parts :: "client_hello \<Rightarrow> string \<Rightarrow> string \<times> string \<times> string" where
  "ja4_parts hello transport =
     (let versions = no_grease (supported_versions hello);
          version = (if versions \<noteq> [] then Max (set versions) else legacy_version hello);
          cs = no_grease (ciphers hello);
          es = no_grease (extensions hello);
          a = transport @ tls_version_name version @ (if EXT_SERVER_NAME \<in> set es then ''d'' else ''i'')
              @ show_02d (min (length cs) 99) @ show_02d (min (length es) 99) @ alpn_chars (alpn hello);
          cipher_list = py_join '','' (map show_04x (sort cs));
          ext_list = py_join '','' (map show_04x (filter (\<lambda>e. e \<notin> {EXT_SERVER_NAME, EXT_ALPN}) (sort es)));
          sigalgs = py_join '','' (map show_04x (no_grease (signature_algorithms hello)))
      in (a, cipher_list, if sigalgs \<noteq> [] then ext_list @ ''_'' @ sigalgs else ext_list))"

definition ja4 :: "(string \<Rightarrow> string) \<Rightarrow> client_hello \<Rightarrow> string \<Rightarrow> string" where
  "ja4 sha256 hello transport =
     (let (a, cipher_list, ext_list) = ja4_parts hello transport;
          b = (if cipher_list \<noteq> [] then sha12 sha256 cipher_list else ''000000000000'');
          c = (if takeWhile (\<lambda>x. x \<noteq> CHR ''_'') ext_list \<noteq> [] then sha12 sha256 ext_list else ''000000000000'')
      in a @ ''_'' @ b @ ''_'' @ c)"

subsection \<open>GREASE\<close>

lemma grease_same_bytes: "l < 256 \<Longrightarrow> and (257 * l) 0x0F0F = (0x0A0A::nat) \<longleftrightarrow> l mod 16 = 10"
proof -
  have "list_all (\<lambda>l. and (257 * l) 0x0F0F = (0x0A0A::nat) \<longleftrightarrow> l mod 16 = 10) (0 # 1 # [2..<256])"
    by (simp del: set_upt)
  moreover have "0 # 1 # [2..<256] = [0..<256]" by (simp add: upt_conv_Cons numeral_2_eq_2)
  ultimately have "\<forall>l\<in>{0..<256}. and (257 * l) 0x0F0F = (0x0A0A::nat) \<longleftrightarrow> l mod 16 = 10"
    by (simp only: list_all_iff set_upt)
  then show "l < 256 \<Longrightarrow> ?thesis" by simp
qed

text \<open>
  The values the fingerprints leave out are exactly the sixteen GREASE values reserved by RFC 8701.
\<close>

theorem is_grease_reserved:
  "is_grease v \<and> v < 65536 \<longleftrightarrow> v \<in> set (map (\<lambda>i. 0x1010 * i + 0x0A0A) [0..<16])"
proof
  assume g: "is_grease v \<and> v < 65536"
  define l where "l = v div 256"
  have "and v 0xFF = v mod 256" using take_bit_eq_mask [of 8 v] by (simp add: take_bit_eq_mod mask_eq_exp_minus_1)
  with g have v: "v = 257 * l" "l < 256" using div_mult_mod_eq [of v 256] by (auto simp: is_grease_def l_def)
  with grease_same_bytes [of l] g have "l mod 16 = 10" by (simp add: is_grease_def)
  then have "l = 16 * (l div 16) + 10" "l div 16 < 16" using v(2) div_mult_mod_eq [of l 16] by auto
  with v show "v \<in> set (map (\<lambda>i. 0x1010 * i + 0x0A0A) [0..<16])"
    by (auto intro!: image_eqI [of _ _ "l div 16"])
next
  assume "v \<in> set (map (\<lambda>i. 0x1010 * i + 0x0A0A) [0..<16])"
  then show "is_grease v \<and> v < 65536" by (auto simp: is_grease_def upt_rec)
qed

subsection \<open>JA4 and the order of the lists\<close>

lemma no_grease_append: "no_grease (xs @ ys) = no_grease xs @ no_grease ys"
  by (simp add: no_grease_def)

lemma sort_mset: "mset xs = mset ys \<Longrightarrow> sort xs = sort (ys :: nat list)"
  by (metis mset_sort properties_for_sort sorted_sort)

definition same_offer :: "client_hello \<Rightarrow> client_hello \<Rightarrow> bool" where
  "same_offer h h' \<longleftrightarrow>
     mset (no_grease (ciphers h)) = mset (no_grease (ciphers h'))
     \<and> mset (no_grease (extensions h)) = mset (no_grease (extensions h'))
     \<and> set (no_grease (supported_versions h)) = set (no_grease (supported_versions h'))
     \<and> no_grease (signature_algorithms h) = no_grease (signature_algorithms h')
     \<and> alpn h = alpn h' \<and> legacy_version h = legacy_version h'"

text \<open>
  JA4 does not depend on the order in which the client lists cipher suites, extensions and
  versions, nor on the GREASE values it mixes in.
\<close>

theorem ja4_order_free:
  assumes "same_offer h h'"
  shows "ja4_parts h transport = ja4_parts h' transport \<and> ja4 sha256 h transport = ja4 sha256 h' transport"
proof -
  have cs: "sort (no_grease (ciphers h)) = sort (no_grease (ciphers h'))"
    and es: "sort (no_grease (extensions h)) = sort (no_grease (extensions h'))"
    by (rule sort_mset; use assms in \<open>simp only: same_offer_def\<close>)+
  have len: "length (no_grease (ciphers h)) = length (no_grease (ciphers h'))"
    "length (no_grease (extensions h)) = length (no_grease (extensions h'))"
    "set (no_grease (extensions h)) = set (no_grease (extensions h'))"
    by (rule mset_eq_length mset_eq_setD; use assms in \<open>simp only: same_offer_def\<close>)+
  have vs: "no_grease (supported_versions h) = [] \<longleftrightarrow> no_grease (supported_versions h') = []"
    using assms by (metis same_offer_def set_empty)
  have "ja4_parts h transport = ja4_parts h' transport"
    using assms unfolding ja4_parts_def Let_def cs es len vs same_offer_def by simp
  then show ?thesis by (simp add: ja4_def)
qed

theorem ja4_order_free_witness:
  "ja4 (\<lambda>s. s) ((empty_hello 0x0303 [0x1301, 0x0A0A, 0x1302])\<lparr>extensions := [0, 0x1A1A, 0x10]\<rparr>) ''t''
   = ja4 (\<lambda>s. s) ((empty_hello 0x0303 [0x1302, 0x1301])\<lparr>extensions := [0x10, 0, 0xFAFA]\<rparr>) ''t''"
proof -
  have "same_offer ((empty_hello 0x0303 [0x1301, 0x0A0A, 0x1302])\<lparr>extensions := [0, 0x1A1A, 0x10]\<rparr>)
     ((empty_hello 0x0303 [0x1302, 0x1301])\<lparr>extensions := [0x10, 0, 0xFAFA]\<rparr>)"
    by (simp add: same_offer_def empty_hello_def no_grease_def is_grease_def)
  then show ?thesis using ja4_order_free by blast
qed

subsection \<open>What JA4 tells apart\<close>

lemma show_hex_step: "0 \<le> n \<Longrightarrow> n < 16 \<Longrightarrow> show_hex n = [hex_char n]"
  "16 \<le> n \<Longrightarrow> show_hex n = show_hex (n div 16) @ [hex_char (n mod 16)]"
  by (auto simp: show_hex.simps [of n])

lemma show_04x_digits:
  assumes "n < 65536"
  shows "show_04x n = [hex_char (int n div 4096), hex_char (int n div 256 mod 16), hex_char (int n div 16 mod 16), hex_char (int n mod 16)]"
proof -
  have d: "int n div 16 div 16 = int n div 256" "int n div 256 div 16 = int n div 4096"
    by (simp_all add: zdiv_zmult2_eq [symmetric])
  have z: "hex_char 0 = CHR ''0''" "replicate 3 x = [x, x, x]" "replicate 2 x = [x, x]" for x :: char
    by (simp_all add: hex_char_def numeral_3_eq_3 numeral_2_eq_2)
  consider "n < 16" | "16 \<le> n" "n < 256" | "256 \<le> n" "n < 4096" | "4096 \<le> n" by linarith
  then show ?thesis
  proof cases
    case 1
    then have "int n div 4096 = 0" "int n div 256 = 0" "int n div 16 = 0" "int n mod 16 = int n" by auto
    with 1 show ?thesis by (simp add: show_04x_def show_hex_step z)
  next
    case 2
    then have "int n div 4096 = 0" "int n div 256 = 0" "int n div 16 < 16" "int n div 16 mod 16 = int n div 16" by auto
    with 2 show ?thesis by (simp add: show_04x_def show_hex_step z)
  next
    case 3
    then have "int n div 4096 = 0" "int n div 256 < 16" "16 \<le> int n div 16" "int n div 256 mod 16 = int n div 256" by auto
    with 3 show ?thesis by (simp add: show_04x_def show_hex_step z d)
  next
    case 4
    with assms have "int n div 4096 < 16" "16 \<le> int n div 256" "16 \<le> int n div 16" by auto
    with 4 show ?thesis by (simp add: show_04x_def show_hex_step d)
  qed
qed

lemma hex_char_inj: "0 \<le> i \<Longrightarrow> i < 16 \<Longrightarrow> 0 \<le> j \<Longrightarrow> j < 16 \<Longrightarrow> hex_char i = hex_char j \<Longrightarrow> i = j"
  using nth_eq_iff_index_eq [of "''0123456789abcdef''" "nat i" "nat j"] by (simp add: hex_char_def)

definition hex_digits :: "char set" where
  "hex_digits = set ''0123456789abcdef''"

lemma hex_char_hex: "0 \<le> i \<Longrightarrow> i < 16 \<Longrightarrow> hex_char i \<in> hex_digits"
  using nth_mem [of "nat i" "''0123456789abcdef''"] by (simp add: hex_char_def hex_digits_def)

lemma hex_no_underscore: "CHR ''_'' \<notin> insert CHR '','' hex_digits"
  by (simp add: hex_digits_def)

lemma show_04x_hex:
  assumes "n < 65536"
  shows "set (show_04x n) \<subseteq> hex_digits" and "length (show_04x n) = 4"
proof -
  have "int n div 4096 < 16" using assms by auto
  then show "set (show_04x n) \<subseteq> hex_digits"
    using hex_char_hex [of "int n div 4096"] hex_char_hex [of "int n div 256 mod 16"] hex_char_hex [of "int n div 16 mod 16"]
      hex_char_hex [of "int n mod 16"]
    unfolding show_04x_digits [OF assms] by simp
  show "length (show_04x n) = 4" by (simp add: show_04x_digits [OF assms])
qed

lemma show_04x_inj:
  assumes "m < 65536" and "n < 65536" and "show_04x m = show_04x n"
  shows "m = n"
proof -
  have r: "0 \<le> int m div 4096" "int m div 4096 < 16" "0 \<le> int n div 4096" "int n div 4096 < 16" using assms by auto
  have c: "hex_char (int m div 4096) = hex_char (int n div 4096)" "hex_char (int m div 256 mod 16) = hex_char (int n div 256 mod 16)"
    "hex_char (int m div 16 mod 16) = hex_char (int n div 16 mod 16)" "hex_char (int m mod 16) = hex_char (int n mod 16)"
    using assms(3) unfolding show_04x_digits [OF assms(1)] show_04x_digits [OF assms(2)] list.inject by blast+
  have "int m div 4096 = int n div 4096" using hex_char_inj [OF r c(1)] .
  moreover have "int m div 256 mod 16 = int n div 256 mod 16" by (rule hex_char_inj [OF _ _ _ _ c(2)]) simp_all
  moreover have "int m div 16 mod 16 = int n div 16 mod 16" by (rule hex_char_inj [OF _ _ _ _ c(3)]) simp_all
  moreover have "int m mod 16 = int n mod 16" by (rule hex_char_inj [OF _ _ _ _ c(4)]) simp_all
  moreover have "int k div 256 div 16 = int k div 4096" "int k div 16 div 16 = int k div 256" for k
    by (simp_all add: zdiv_zmult2_eq [symmetric])
  moreover have digit: "x = y" if "x div 16 = y div 16" "x mod 16 = y mod 16" for x y :: int
    using that by (metis div_mult_mod_eq)
  ultimately have "int m = int n" by (metis digit)
  then show ?thesis by simp
qed

definition u16s :: "nat list \<Rightarrow> bool" where
  "u16s ns = list_all (\<lambda>n. n < 65536) ns"

lemma u16s_sub: "u16s ns \<Longrightarrow> u16s (no_grease ns)" "u16s ns \<Longrightarrow> u16s (sort ns)" "u16s ns \<Longrightarrow> u16s (filter P ns)"
  by (auto simp: u16s_def list_all_iff no_grease_def)

lemma hex_join_Cons:
  "py_join '','' (map show_04x (n # ns)) = show_04x n @ (if ns = [] then [] else CHR '','' # py_join '','' (map show_04x ns))"
  by (cases ns) auto

lemma hex_join_chars: "u16s ns \<Longrightarrow> set (py_join '','' (map show_04x ns)) \<subseteq> insert CHR '','' hex_digits"
proof (induction ns)
  case (Cons n ns)
  then have "set (show_04x n) \<subseteq> hex_digits"
    "set (py_join '','' (map show_04x ns)) \<subseteq> insert CHR '','' hex_digits"
    using show_04x_hex(1) [of n] by (simp_all add: u16s_def)
  then show ?case unfolding hex_join_Cons by auto
qed simp

lemma hex_join_Nil: "u16s ns \<Longrightarrow> py_join '','' (map show_04x ns) = [] \<longleftrightarrow> ns = []"
proof (cases ns)
  case (Cons n ms)
  assume "u16s ns"
  with Cons show ?thesis using show_04x_hex(2) [of n] unfolding Cons hex_join_Cons by (auto simp: u16s_def)
qed simp

lemma hex_join_inj:
  "u16s ms \<Longrightarrow> u16s ns \<Longrightarrow> py_join '','' (map show_04x ms) = py_join '','' (map show_04x ns) \<Longrightarrow> ms = ns"
proof (induction ms arbitrary: ns)
  case Nil
  then show ?case using hex_join_Nil [of ns] by simp
next
  case (Cons m ms)
  then obtain n ns' where ns: "ns = n # ns'" using hex_join_Nil [of ns] hex_join_Nil [of "m # ms"] by (cases ns) auto
  have b: "m < 65536" "n < 65536" "u16s ms" "u16s ns'" using Cons.prems(1,2) ns by (auto simp: u16s_def)
  have "show_04x m = show_04x n"
    and tl: "(if ms = [] then [] else CHR '','' # py_join '','' (map show_04x ms))
         = (if ns' = [] then [] else CHR '','' # py_join '','' (map show_04x ns'))"
    using Cons.prems(3) show_04x_hex(2) [OF b(1)] show_04x_hex(2) [OF b(2)]
    unfolding ns hex_join_Cons by (auto simp: append_eq_append_conv)
  then have "m = n" using show_04x_inj b by blast
  moreover have "ms = ns'" using Cons.IH [OF b(3,4)] tl by (auto split: if_splits)
  ultimately show ?case by (simp add: ns)
qed

lemma hex_sort_inj:
  assumes "u16s ms" and "u16s ns"
  shows "py_join '','' (map show_04x (sort ms)) = py_join '','' (map show_04x (sort ns)) \<longleftrightarrow> mset ms = mset ns"
  using hex_join_inj [of "sort ms" "sort ns"] assms sort_mset [of ms ns] by (metis mset_sort u16s_sub(2))

lemma underscore_split:
  assumes "x \<notin> set e" and "x \<notin> set e'" and "(if s \<noteq> [] then e @ x # s else e) = (if s' \<noteq> [] then e' @ x # s' else e')"
  shows "e = e' \<and> s = s'"
proof (cases "s = [] \<or> s' = []")
  case True
  with assms show ?thesis by (auto split: if_splits)
next
  case False
  with assms(3) have eq: "e @ x # s = e' @ x # s'" by simp
  have "takeWhile (\<lambda>y. y \<noteq> x) (l @ x # r) = l" if "x \<notin> set l" for l r
    using that by (induction l) auto
  then have "e = e'" using assms(1,2) eq by metis
  with eq show ?thesis by simp
qed

definition named_exts :: "client_hello \<Rightarrow> nat list" where
  "named_exts h = filter (\<lambda>e. e \<notin> {EXT_SERVER_NAME, EXT_ALPN}) (no_grease (extensions h))"

text \<open>
  The two lists that JA4 digests tell apart all that they summarise: they agree exactly when the
  clients offer the same cipher suites and the same extensions (SNI and ALPN apart, GREASE left out),
  as multisets, and the same signature algorithms in the same order.
\<close>

theorem ja4_lists_exact:
  assumes "u16s (ciphers h @ extensions h @ signature_algorithms h)" and "u16s (ciphers h' @ extensions h' @ signature_algorithms h')"
  shows "snd (ja4_parts h transport) = snd (ja4_parts h' transport) \<longleftrightarrow>
    mset (no_grease (ciphers h)) = mset (no_grease (ciphers h')) \<and> mset (named_exts h) = mset (named_exts h')
    \<and> no_grease (signature_algorithms h) = no_grease (signature_algorithms h')"
proof -
  let ?j = "\<lambda>ns. py_join '','' (map show_04x ns)"
  have parts: "u16s (ciphers h)" "u16s (extensions h)" "u16s (signature_algorithms h)"
    "u16s (ciphers h')" "u16s (extensions h')" "u16s (signature_algorithms h')"
    using assms by (auto simp: u16s_def)
  let ?E = "?j (sort (named_exts h))" and ?E' = "?j (sort (named_exts h'))"
  let ?S = "?j (no_grease (signature_algorithms h))" and ?S' = "?j (no_grease (signature_algorithms h'))"
  have u: "u16s (named_exts h)" "u16s (named_exts h')" using parts by (auto simp: named_exts_def u16s_sub)
  have no: "CHR ''_'' \<notin> set ?E" "CHR ''_'' \<notin> set ?E'"
    using hex_join_chars [OF u16s_sub(2) [OF u(1)]] hex_join_chars [OF u16s_sub(2) [OF u(2)]] hex_no_underscore by blast+
  have third: "snd (snd (ja4_parts k transport)) =
      (if ?j (no_grease (signature_algorithms k)) \<noteq> [] then ?j (sort (named_exts k)) @ CHR ''_'' # ?j (no_grease (signature_algorithms k))
       else ?j (sort (named_exts k)))" for k
    by (simp add: ja4_parts_def Let_def named_exts_def filter_sort)
  have "snd (snd (ja4_parts h transport)) = snd (snd (ja4_parts h' transport)) \<longleftrightarrow> ?E = ?E' \<and> ?S = ?S'"
    unfolding third using underscore_split [OF no, of ?S ?S'] by (intro iffI) simp_all
  also have "\<dots> \<longleftrightarrow> mset (named_exts h) = mset (named_exts h') \<and> no_grease (signature_algorithms h) = no_grease (signature_algorithms h')"
    using hex_sort_inj [OF u] hex_join_inj [OF u16s_sub(1) [OF parts(3)] u16s_sub(1) [OF parts(6)]] by metis
  finally have exts: "snd (snd (ja4_parts h transport)) = snd (snd (ja4_parts h' transport)) \<longleftrightarrow>
    mset (named_exts h) = mset (named_exts h') \<and> no_grease (signature_algorithms h) = no_grease (signature_algorithms h')" .
  have "fst (snd (ja4_parts k transport)) = ?j (sort (no_grease (ciphers k)))" for k by (simp add: ja4_parts_def Let_def)
  then have "fst (snd (ja4_parts h transport)) = fst (snd (ja4_parts h' transport)) \<longleftrightarrow>
      mset (no_grease (ciphers h)) = mset (no_grease (ciphers h'))"
    using hex_sort_inj [OF u16s_sub(1) [OF parts(1)] u16s_sub(1) [OF parts(4)]] by simp
  with exts show ?thesis by (simp add: prod_eq_iff)
qed

theorem ja4_lists_exact_witness:
  "snd (ja4_parts (empty_hello 0x0303 [0x1301]) ''t'') \<noteq> snd (ja4_parts (empty_hello 0x0303 [0x1302]) ''t'')"
proof -
  let ?h = "empty_hello 0x0303 [0x1301]" and ?h' = "empty_hello 0x0303 [0x1302]"
  have "u16s (ciphers ?h @ extensions ?h @ signature_algorithms ?h)" "u16s (ciphers ?h' @ extensions ?h' @ signature_algorithms ?h')"
    by (simp_all add: u16s_def empty_hello_def)
  from ja4_lists_exact [OF this] show ?thesis by (simp add: empty_hello_def no_grease_def is_grease_def)
qed

end
