(* ===== verification/Tls_Inventory.thy ===== *)
theory Tls_Inventory
  imports Reassembly Tls_Fingerprint Config_Schema
begin

text \<open>
  What the fingerprinting daemon keeps and does: the inventory of fingerprints per client
  (\<open>src/src/frfw/tlsfp/inventory.py\<close>) and the daemon that fills it, reports and quarantines
  (\<open>src/src/frfw/tlsfp/daemon.py\<close>).

  The helper that quarantines an address is a parameter: the text of its error, or whether it said
  "ok" and its message.  Writing the state file and the daemon's own loop are left out.
\<close>

subsection \<open>The inventory (inventory.py)\<close>

definition LEARNING_SECONDS :: seconds where "LEARNING_SECONDS = 24 * 3600"
definition MAX_CLIENTS :: nat where "MAX_CLIENTS = 1024"
definition MAX_FINGERPRINTS_PER_CLIENT :: nat where "MAX_FINGERPRINTS_PER_CLIENT = 32"
definition MAX_NETWORK_FINGERPRINTS :: nat where "MAX_NETWORK_FINGERPRINTS = 10000"
definition MAX_JA3_PER_FINGERPRINT :: nat where "MAX_JA3_PER_FINGERPRINT = 8"
definition MAX_SNI_PER_FINGERPRINT :: nat where "MAX_SNI_PER_FINGERPRINT = 5"
definition MAX_EVENTS :: nat where "MAX_EVENTS = 200"

record seen =
  first_seen :: seconds
  last_seen :: seconds
  seen_count :: nat
  seen_ja3 :: "string list"
  seen_sni :: "string list"

text \<open>\<open>del values[:-limit]\<close> keeps the last \<open>limit\<close> values.\<close>

definition keep_last :: "nat \<Rightarrow> 'a list \<Rightarrow> 'a list" where
  "keep_last limit xs = drop (length xs - limit) xs"

definition remember :: "string list \<Rightarrow> string option \<Rightarrow> nat \<Rightarrow> string list" where
  "remember values value limit =
     (case value of None \<Rightarrow> values
      | Some v \<Rightarrow> if v = [] then values else keep_last limit (remove1 v values @ [v]))"

record tls_event =
  ev_ts :: seconds
  ev_client :: string
  ev_ja4 :: string
  ev_ja3 :: string
  ev_sni :: "string option"
  ev_type :: string
  ev_label :: "string option"
  ev_action :: "string option"

record inventory =
  inv_started :: seconds
  inv_clients :: "(string, (string, seen) dict) dict"
  network_first_seen :: "(string, seconds) dict"
  inv_events :: "tls_event list"

definition inventory_init :: "seconds \<Rightarrow> inventory" where
  "inventory_init t = \<lparr>inv_started = t, inv_clients = [], network_first_seen = [], inv_events = []\<rparr>"

definition note_network :: "string \<Rightarrow> seconds \<Rightarrow> inventory \<Rightarrow> inventory" where
  "note_network fp now iv =
     (if map_of (network_first_seen iv) fp \<noteq> None then iv
      else iv\<lparr>network_first_seen := AList.update fp now
                 (evict_least MAX_NETWORK_FINGERPRINTS (\<lambda>t. t) (network_first_seen iv))\<rparr>)"

text \<open>No client has an empty table, so the latest sighting of a client always exists.\<close>

definition latest :: "(string, seen) dict \<Rightarrow> seconds" where
  "latest fps = Max (last_seen ` snd ` set fps)"

definition see :: "string \<Rightarrow> string option \<Rightarrow> seconds \<Rightarrow> seen \<Rightarrow> seen" where
  "see fp3 sni now s = s\<lparr>last_seen := now, seen_count := Suc (seen_count s),
     seen_ja3 := remember (seen_ja3 s) (Some fp3) MAX_JA3_PER_FINGERPRINT,
     seen_sni := remember (seen_sni s) sni MAX_SNI_PER_FINGERPRINT\<rparr>"

definition note_fingerprint :: "string \<Rightarrow> string \<Rightarrow> string option \<Rightarrow> seconds \<Rightarrow> (string, seen) dict \<Rightarrow> (string, seen) dict" where
  "note_fingerprint fp fp3 sni now fps =
     (case map_of fps fp of
        Some s \<Rightarrow> AList.update fp (see fp3 sni now s) fps
      | None \<Rightarrow> AList.update fp (see fp3 sni now \<lparr>first_seen = now, last_seen = now, seen_count = 0, seen_ja3 = [], seen_sni = []\<rparr>)
                  (evict_least MAX_FINGERPRINTS_PER_CLIENT last_seen fps))"

definition observe :: "string \<Rightarrow> string \<Rightarrow> string \<Rightarrow> string option \<Rightarrow> seconds \<Rightarrow> inventory \<Rightarrow> bool \<times> inventory" where
  "observe client fp fp3 sni now iv0 =
     (let is_new = (map_of (network_first_seen iv0) fp = None);
          iv = note_network fp now iv0;
          clients = (if map_of (inv_clients iv) client = None then evict_least MAX_CLIENTS latest (inv_clients iv) else inv_clients iv);
          fps = note_fingerprint fp fp3 sni now (dict_get_or clients client [])
      in (is_new \<and> now - inv_started iv \<ge> LEARNING_SECONDS, iv\<lparr>inv_clients := AList.update client fps clients\<rparr>))"

definition add_event :: "tls_event \<Rightarrow> inventory \<Rightarrow> inventory" where
  "add_event e iv = iv\<lparr>inv_events := keep_last MAX_EVENTS (inv_events iv @ [e])\<rparr>"

definition learning :: "inventory \<Rightarrow> seconds \<Rightarrow> bool" where
  "learning iv now \<longleftrightarrow> now - inv_started iv < LEARNING_SECONDS"

subsection \<open>The daemon (daemon.py)\<close>

definition QUARANTINE_REPEAT_SECONDS :: seconds where "QUARANTINE_REPEAT_SECONDS = 600"

type_synonym quarantine_fn = "string \<Rightarrow> int \<Rightarrow> (string, bool \<times> string) result"

text \<open>
  \<open>asked\<close> is what this run of the daemon asked of the helper so far, last first: the clients and when; \<open>past_runs\<close>
  the same of the runs before it.
\<close>

record tls_daemon =
  blocklist :: "(string, string) dict"
  match_quarantines :: bool
  quarantine_duration :: int
  hello_flows :: reassembler
  inventory :: inventory
  quarantined_at :: "(string, seconds) dict"
  stat_hellos :: nat
  stat_parse_errors :: nat
  asked :: "(string \<times> seconds) list"
  past_runs :: "(string \<times> seconds) list list"

definition daemon_init :: "seconds \<Rightarrow> tls_daemon" where
  "daemon_init now = \<lparr>blocklist = [], match_quarantines = False, quarantine_duration = 0, hello_flows = reassembler_init,
     inventory = inventory_init now, quarantined_at = [], stat_hellos = 0, stat_parse_errors = 0, asked = [], past_runs = []\<rparr>"

definition update_daemon_config :: "tls_fingerprint_config \<Rightarrow> int \<Rightarrow> tls_daemon \<Rightarrow> tls_daemon" where
  "update_daemon_config cfg duration d =
     d\<lparr>blocklist := fold (\<lambda>e. AList.update (fingerprint e) (fp_label e)) (tls_fp_blocklist cfg) [],
       match_quarantines := quarantine_on_match cfg, quarantine_duration := duration\<rparr>"

definition ask_helper :: "quarantine_fn \<Rightarrow> string \<Rightarrow> seconds \<Rightarrow> tls_daemon \<Rightarrow> string \<times> tls_daemon" where
  "ask_helper quarantine_ip client now d =
     (case quarantine_ip client (quarantine_duration d) of
        Inl exc \<Rightarrow> ''quarantine failed: '' @ exc
      | Inr (ok, message) \<Rightarrow> if ok then ''quarantined'' else ''quarantine failed: '' @ message,
      d\<lparr>quarantined_at := AList.update client now (quarantined_at d), asked := (client, now) # asked d\<rparr>)"

definition quarantine :: "quarantine_fn \<Rightarrow> string \<Rightarrow> seconds \<Rightarrow> tls_daemon \<Rightarrow> string \<times> tls_daemon" where
  "quarantine quarantine_ip client now d =
     (case map_of (quarantined_at d) client of
        Some last_time \<Rightarrow>
          if now - last_time < QUARANTINE_REPEAT_SECONDS then (''already quarantined'', d)
          else ask_helper quarantine_ip client now d
      | None \<Rightarrow> ask_helper quarantine_ip client now d)"

definition report :: "tls_event \<Rightarrow> tls_daemon \<Rightarrow> tls_daemon" where
  "report e d = d\<lparr>inventory := add_event e (inventory d)\<rparr>"

definition block_label :: "string \<Rightarrow> string \<Rightarrow> tls_daemon \<Rightarrow> string option" where
  "block_label fp fp3 d = (case map_of (blocklist d) fp of Some l \<Rightarrow> Some l | None \<Rightarrow> map_of (blocklist d) fp3)"

definition handle_hello :: "quarantine_fn \<Rightarrow> string \<Rightarrow> string \<Rightarrow> string \<Rightarrow> string option \<Rightarrow> seconds \<Rightarrow> tls_daemon \<Rightarrow> tls_daemon" where
  "handle_hello quarantine_ip client fp fp3 sni now d0 =
     (let (is_new, iv) = observe client fp fp3 sni now (inventory d0);
          d1 = d0\<lparr>inventory := iv\<rparr>;
          base = \<lparr>ev_ts = now, ev_client = client, ev_ja4 = fp, ev_ja3 = fp3, ev_sni = sni, ev_type = ''new_fingerprint'',
                  ev_label = None, ev_action = None\<rparr>;
          d2 = (if is_new then report base d1 else d1)
      in case block_label fp fp3 d2 of
           None \<Rightarrow> d2
         | Some label \<Rightarrow>
             (let (act, d3) = (if match_quarantines d2 then quarantine quarantine_ip client now d2 else (''reported'', d2))
              in report (base\<lparr>ev_type := ''blocklist'', ev_label := Some label, ev_action := Some act\<rparr>) d3))"

record hello_segment =
  saddr :: string
  daddr :: string
  sport :: nat
  dport :: nat
  seg_seq :: int
  seg_first :: bool
  seg_payload :: bytes

definition handle_segment :: "(string \<Rightarrow> string) \<Rightarrow> (string \<Rightarrow> string) \<Rightarrow> quarantine_fn \<Rightarrow> hello_segment \<Rightarrow> seconds \<Rightarrow> tls_daemon \<Rightarrow> tls_daemon" where
  "handle_segment sha256 md5 quarantine_ip seg now d0 =
     (let key = (saddr seg, sport seg, daddr seg, dport seg);
          (res, flows') = reassembler_add key (seg_seq seg) (seg_payload seg) now (seg_first seg) (hello_flows d0);
          d = d0\<lparr>hello_flows := flows'\<rparr>
      in case bind_result res (\<lambda>m. case m of None \<Rightarrow> Inr None | Some msg \<Rightarrow> bind_result (parse_client_hello msg) (\<lambda>h. Inr (Some h))) of
           Inl _ \<Rightarrow> d\<lparr>stat_parse_errors := Suc (stat_parse_errors d)\<rparr>
         | Inr None \<Rightarrow> d
         | Inr (Some hello) \<Rightarrow>
             handle_hello quarantine_ip (saddr seg) (ja4 sha256 hello ''t'') (ja3 md5 hello) (server_name hello) now
               (d\<lparr>stat_hellos := Suc (stat_hellos d)\<rparr>))"

text \<open>
  The configuration is read again every 30 seconds while the daemon runs (\<open>Reconfigure\<close>).  An apply, a replaced ring buffer or
  \<open>enabled\<close> turned off and on ends the process and starts another (\<open>Restart\<close>), which keeps of the old one only what
  \<open>FingerprintInventory.restore\<close> makes of the state file: an inventory, which may be any.
\<close>

datatype daemon_event = Segment hello_segment seconds | Reconfigure tls_fingerprint_config int | Restart inventory tls_fingerprint_config int

primrec daemon_step :: "(string \<Rightarrow> string) \<Rightarrow> (string \<Rightarrow> string) \<Rightarrow> quarantine_fn \<Rightarrow> daemon_event \<Rightarrow> tls_daemon \<Rightarrow> tls_daemon" where
  "daemon_step sha256 md5 q (Segment seg now) d = handle_segment sha256 md5 q seg now d"
| "daemon_step sha256 md5 q (Reconfigure cfg duration) d = update_daemon_config cfg duration d"
| "daemon_step sha256 md5 q (Restart iv cfg duration) d =
     update_daemon_config cfg duration ((daemon_init 0)\<lparr>inventory := iv, past_runs := asked d # past_runs d\<rparr>)"

definition daemon_run :: "(string \<Rightarrow> string) \<Rightarrow> (string \<Rightarrow> string) \<Rightarrow> quarantine_fn \<Rightarrow> daemon_event list \<Rightarrow> tls_daemon \<Rightarrow> tls_daemon" where
  "daemon_run sha256 md5 q es d = fold (daemon_step sha256 md5 q) es d"

subsection \<open>Quarantines are spaced\<close>

definition spaced :: "(string \<times> seconds) list \<Rightarrow> bool" where
  "spaced xs = sorted_wrt (\<lambda>(c, t) (c', t'). c = c' \<longrightarrow> t - t' \<ge> QUARANTINE_REPEAT_SECONDS) xs"

definition asked_ok :: "tls_daemon \<Rightarrow> bool" where
  "asked_ok d \<longleftrightarrow> spaced (asked d) \<and> list_all spaced (past_runs d)
     \<and> list_all (\<lambda>(c, t). \<exists>u. map_of (quarantined_at d) c = Some u \<and> t \<le> u) (asked d)"

lemma ask_helper_ok:
  assumes "asked_ok d" and "\<forall>u. map_of (quarantined_at d) client = Some u \<longrightarrow> now - u \<ge> QUARANTINE_REPEAT_SECONDS"
  shows "asked_ok (snd (ask_helper q client now d))"
proof -
  have old: "now - t \<ge> QUARANTINE_REPEAT_SECONDS" if "(client, t) \<in> set (asked d)" for t
    using assms that by (fastforce simp: asked_ok_def list_all_iff)
  moreover have "0 \<le> QUARANTINE_REPEAT_SECONDS" by (simp add: QUARANTINE_REPEAT_SECONDS_def)
  ultimately show ?thesis
    using assms(1) by (fastforce simp: asked_ok_def ask_helper_def spaced_def list_all_iff dict_simps)
qed

lemma quarantine_ok: "asked_ok d \<Longrightarrow> asked_ok (snd (quarantine q client now d))"
  by (auto simp: quarantine_def ask_helper_ok split: option.split)

lemma asked_ok_cong:
  "asked d' = asked d \<Longrightarrow> quarantined_at d' = quarantined_at d \<Longrightarrow> past_runs d' = past_runs d \<Longrightarrow> asked_ok d' = asked_ok d"
  by (simp add: asked_ok_def)

text \<open>What \<open>handle_hello\<close> asks of the helper: nothing, or one quarantine of a blocklisted client.\<close>

lemma quarantine_same:
  "asked d2 = asked d \<Longrightarrow> quarantined_at d2 = quarantined_at d \<Longrightarrow>
     asked (snd (quarantine q client now d2)) = asked (snd (quarantine q client now d))
     \<and> quarantined_at (snd (quarantine q client now d2)) = quarantined_at (snd (quarantine q client now d))"
  by (simp add: quarantine_def ask_helper_def split: option.split)

lemma quarantine_past: "past_runs (snd (quarantine q client now d)) = past_runs d"
  by (simp add: quarantine_def ask_helper_def split: option.split)

lemma handle_hello_past: "past_runs (handle_hello q client fp fp3 sni now d) = past_runs d"
  by (simp add: handle_hello_def Let_def case_prod_beta report_def quarantine_past split: option.split)

lemma handle_hello_asks:
  fixes q client fp fp3 sni now d
  defines "d' \<equiv> handle_hello q client fp fp3 sni now d"
    and "d1 \<equiv> (if match_quarantines d \<and> block_label fp fp3 d \<noteq> None then snd (quarantine q client now d) else d)"
  shows "asked d' = asked d1 \<and> quarantined_at d' = quarantined_at d1"
proof -
  obtain is_new iv where o: "observe client fp fp3 sni now (inventory d) = (is_new, iv)" by fastforce
  define base where "base = \<lparr>ev_ts = now, ev_client = client, ev_ja4 = fp, ev_ja3 = fp3, ev_sni = sni, ev_type = ''new_fingerprint'',
                  ev_label = None, ev_action = None\<rparr>"
  define d2 where "d2 = (if is_new then report base (d\<lparr>inventory := iv\<rparr>) else d\<lparr>inventory := iv\<rparr>)"
  have d2: "asked d2 = asked d" "quarantined_at d2 = quarantined_at d" "match_quarantines d2 = match_quarantines d"
    "block_label fp fp3 d2 = block_label fp fp3 d"
    by (auto simp: d2_def report_def block_label_def split: option.split)
  have d': "d' = (case block_label fp fp3 d2 of None \<Rightarrow> d2
         | Some label \<Rightarrow>
             (let (act, d3) = (if match_quarantines d2 then quarantine q client now d2 else (''reported'', d2))
              in report (base\<lparr>ev_type := ''blocklist'', ev_label := Some label, ev_action := Some act\<rparr>) d3))"
    unfolding d'_def handle_hello_def d2_def base_def by (simp add: o Let_def)
  show ?thesis
    using d2 quarantine_same [OF d2(1,2), of q client now] unfolding d' d1_def
    by (simp add: Let_def case_prod_beta report_def split: option.split)
qed

lemma handle_hello_ok: "asked_ok d \<Longrightarrow> asked_ok (handle_hello q client fp fp3 sni now d)"
  using handle_hello_asks [of q client fp fp3 sni now d] quarantine_ok [of d q client now]
  by (simp add: asked_ok_def handle_hello_past quarantine_past split: if_splits)

definition segment_hello :: "hello_segment \<Rightarrow> seconds \<Rightarrow> reassembler \<Rightarrow> (parse_error, client_hello option) result" where
  "segment_hello seg now r =
     bind_result (fst (reassembler_add (saddr seg, sport seg, daddr seg, dport seg) (seg_seq seg) (seg_payload seg) now (seg_first seg) r))
       (\<lambda>m. case m of None \<Rightarrow> Inr None | Some msg \<Rightarrow> bind_result (parse_client_hello msg) (\<lambda>h. Inr (Some h)))"

lemma handle_segment_cases:
  "\<exists>d. asked d = asked d0 \<and> past_runs d = past_runs d0 \<and> quarantined_at d = quarantined_at d0 \<and> blocklist d = blocklist d0 \<and> match_quarantines d = match_quarantines d0
     \<and> handle_segment sha256 md5 q seg now d0 =
       (case segment_hello seg now (hello_flows d0) of Inr (Some hello) \<Rightarrow>
          handle_hello q (saddr seg) (ja4 sha256 hello ''t'') (ja3 md5 hello) (server_name hello) now d | _ \<Rightarrow> d)"
proof -
  obtain res r where add: "reassembler_add (saddr seg, sport seg, daddr seg, dport seg) (seg_seq seg) (seg_payload seg) now (seg_first seg) (hello_flows d0) = (res, r)"
    by fastforce
  let ?d = "d0\<lparr>hello_flows := r\<rparr>"
  have "handle_segment sha256 md5 q seg now d0 = (case segment_hello seg now (hello_flows d0) of
      Inl _ \<Rightarrow> ?d\<lparr>stat_parse_errors := Suc (stat_parse_errors ?d)\<rparr> | Inr None \<Rightarrow> ?d
    | Inr (Some hello) \<Rightarrow> handle_hello q (saddr seg) (ja4 sha256 hello ''t'') (ja3 md5 hello) (server_name hello) now
         (?d\<lparr>stat_hellos := Suc (stat_hellos ?d)\<rparr>))"
    by (simp add: handle_segment_def segment_hello_def add Let_def)
  moreover define d where "d = (case segment_hello seg now (hello_flows d0) of Inl _ \<Rightarrow> ?d\<lparr>stat_parse_errors := Suc (stat_parse_errors ?d)\<rparr>
           | Inr None \<Rightarrow> ?d | Inr (Some _) \<Rightarrow> ?d\<lparr>stat_hellos := Suc (stat_hellos ?d)\<rparr>)"
  ultimately have "handle_segment sha256 md5 q seg now d0 =
       (case segment_hello seg now (hello_flows d0) of Inr (Some hello) \<Rightarrow>
          handle_hello q (saddr seg) (ja4 sha256 hello ''t'') (ja3 md5 hello) (server_name hello) now d | _ \<Rightarrow> d)"
    by (simp split: sum.split option.split)
  moreover have "asked d = asked d0 \<and> past_runs d = past_runs d0 \<and> quarantined_at d = quarantined_at d0 \<and> blocklist d = blocklist d0 \<and> match_quarantines d = match_quarantines d0"
    unfolding d_def by (simp split: sum.split option.split)
  ultimately show ?thesis by blast
qed

lemma daemon_step_ok: "asked_ok d \<Longrightarrow> asked_ok (daemon_step sha256 md5 q e d)"
proof (cases e)
  case (Segment seg now)
  assume ok: "asked_ok d"
  obtain d1 where d1: "asked d1 = asked d" "quarantined_at d1 = quarantined_at d" "past_runs d1 = past_runs d" and
    step: "handle_segment sha256 md5 q seg now d = (case segment_hello seg now (hello_flows d) of Inr (Some hello) \<Rightarrow>
          handle_hello q (saddr seg) (ja4 sha256 hello ''t'') (ja3 md5 hello) (server_name hello) now d1 | _ \<Rightarrow> d1)"
    using handle_segment_cases [of d sha256 md5 q seg now] by blast
  from ok d1 have "asked_ok d1" by (simp add: asked_ok_def)
  with Segment show ?thesis by (auto simp: step handle_hello_ok split: sum.split option.split)
next
  case (Reconfigure cfg duration)
  assume "asked_ok d"
  with Reconfigure show ?thesis by (simp add: update_daemon_config_def asked_ok_def)
next
  case (Restart iv cfg duration)
  assume "asked_ok d"
  with Restart show ?thesis by (simp add: update_daemon_config_def asked_ok_def daemon_init_def spaced_def)
qed

text \<open>
  C37: whatever the daemon receives, whatever the helper answers and however often its configuration is read
  again, one run of the daemon asks the helper to quarantine the same client at most once every
  \<open>QUARANTINE_REPEAT_SECONDS\<close>; so does each run before it, however often the daemon is restarted.  (A restart,
  which every apply makes, forgets when a client was quarantined, so the promise is per run.)
\<close>

theorem quarantines_spaced:
  "let d = daemon_run sha256 md5 q es (daemon_init t0) in list_all spaced (asked d # past_runs d)"
proof -
  have "asked_ok (fold (daemon_step sha256 md5 q) es d)" if "asked_ok d" for d
    using that by (induction es arbitrary: d) (auto simp: daemon_step_ok)
  then have "asked_ok (daemon_run sha256 md5 q es (daemon_init t0))"
    by (simp add: daemon_run_def asked_ok_def daemon_init_def spaced_def)
  then show ?thesis by (simp add: asked_ok_def Let_def)
qed

text \<open>After a restart a client quarantined a moment ago is asked for again.\<close>

lemma restart_asks_again:
  "let d1 = snd (quarantine q client now (daemon_init t0));
       d2 = snd (quarantine q client now (daemon_step sha256 md5 q (Restart iv cfg duration) d1))
   in asked d2 = [(client, now)] \<and> past_runs d2 = [[(client, now)]]"
  by (simp add: Let_def quarantine_def ask_helper_def daemon_init_def update_daemon_config_def)

text \<open>
  A client is quarantined only for a ClientHello of its own, put together from its segments, whose
  JA4 or JA3 is on the blocklist, and only while quarantining is configured.
\<close>

theorem quarantine_only_blocklisted:
  assumes "asked (handle_segment sha256 md5 q seg now d) \<noteq> asked d"
  shows "\<exists>hello. segment_hello seg now (hello_flows d) = Inr (Some hello)
    \<and> (map_of (blocklist d) (ja4 sha256 hello ''t'') \<noteq> None \<or> map_of (blocklist d) (ja3 md5 hello) \<noteq> None)
    \<and> match_quarantines d \<and> asked (handle_segment sha256 md5 q seg now d) = (saddr seg, now) # asked d"
proof -
  obtain d1 where d1: "asked d1 = asked d" "blocklist d1 = blocklist d" "match_quarantines d1 = match_quarantines d" and
    step: "handle_segment sha256 md5 q seg now d = (case segment_hello seg now (hello_flows d) of Inr (Some hello) \<Rightarrow>
          handle_hello q (saddr seg) (ja4 sha256 hello ''t'') (ja3 md5 hello) (server_name hello) now d1 | _ \<Rightarrow> d1)"
    using handle_segment_cases [of d sha256 md5 q seg now] by blast
  from assms d1 obtain hello where h: "segment_hello seg now (hello_flows d) = Inr (Some hello)"
    by (auto simp: step split: sum.splits option.splits)
  let ?fp = "ja4 sha256 hello ''t''" and ?fp3 = "ja3 md5 hello"
  have eq: "handle_segment sha256 md5 q seg now d = handle_hello q (saddr seg) ?fp ?fp3 (server_name hello) now d1"
    by (simp add: step h)
  with assms d1(1) have ne: "asked (handle_hello q (saddr seg) ?fp ?fp3 (server_name hello) now d1) \<noteq> asked d1" by simp
  then have "match_quarantines d1" "block_label ?fp ?fp3 d1 \<noteq> None"
    and a: "asked (handle_hello q (saddr seg) ?fp ?fp3 (server_name hello) now d1) = asked (snd (quarantine q (saddr seg) now d1))"
    using handle_hello_asks [of q "saddr seg" ?fp ?fp3 "server_name hello" now d1] by (auto split: if_splits)
  moreover from a ne have "asked (snd (quarantine q (saddr seg) now d1)) = (saddr seg, now) # asked d1"
    by (auto simp: quarantine_def ask_helper_def split: option.splits if_splits)
  ultimately show ?thesis using h eq d1 by (auto simp: block_label_def split: option.splits)
qed

definition hello1 :: bytes where
  "hello1 = [1, 0, 0, 41, 3, 3] @ replicate 32 7 @ [0, 0, 2, 0x13, 1, 1, 0]"

definition segment1 :: hello_segment where
  "segment1 = \<lparr>saddr = ''10.0.0.2'', daddr = ''1.1.1.1'', sport = 5, dport = 443, seg_seq = 9, seg_first = True,
     seg_payload = [0x16, 3, 1, 0, 45] @ hello1\<rparr>"

definition daemon1 :: tls_daemon where
  "daemon1 = (daemon_init 0)\<lparr>blocklist := [(''x'', ''scanner'')], match_quarantines := True\<rparr>"

lemma segment1_hello: "segment_hello segment1 0 reassembler_init = Inr (Some (empty_hello 0x0303 [0x1301]))"
proof -
  have "tls_record (1, hello1) = [0x16, 3, 1, 0, 45] @ hello1" by (simp add: tls_record_def hello1_def be16_bytes_def byte_of_def)
  moreover have "handshake_loop [] (concat (map tls_record [(1, hello1)]) @ []) = Inr (Some hello1)"
    by (rule handshake_fragments [where extra = "[]"])
       (simp_all add: hello1_def needed_def MAX_HELLO_BYTES_def HANDSHAKE_CLIENT_HELLO_def)
  ultimately have h: "handshake_from_records ([0x16, 3, 1, 0, 45] @ hello1) = Inr (Some hello1)"
    by (simp add: handshake_from_records_def)
  have "take MAX_HELLO_BYTES ([0x16, 3, 1, 0, 45] @ hello1) = [0x16, 3, 1, 0, 45] @ hello1"
    by (intro take_all) (simp add: hello1_def MAX_HELLO_BYTES_def)
  with h have h1: "handshake_from_records (take MAX_HELLO_BYTES ([0x16, 3, 1, 0, 45] @ hello1)) = Inr (Some hello1)" by simp
  have "parse_client_hello hello1 = Inr (empty_hello 0x0303 [0x1301])"
    by (simp add: hello1_def parse_client_hello_def parse_body_def rd_u8_def rd_u16_def rd_u24_def rd_take_def rd_vec_def be16_def u16_list_def
      HANDSHAKE_CLIENT_HELLO_def)
  with h1 show ?thesis
    by (simp add: segment_hello_def segment1_def reassembler_add_def reassembler_init_def expire_def make_room_def MAX_FLOWS_def
      add_to_flow_def Let_def seq_offset_def place_chunk_def contiguous_def dict_get_or_def del: append_Cons)
qed

theorem quarantine_only_blocklisted_witness:
  "asked (handle_segment (\<lambda>s. s) (\<lambda>_. ''x'') (\<lambda>_ _. Inr (True, [])) segment1 0 daemon1) = [(''10.0.0.2'', 0)]"
proof -
  let ?d = "handle_segment (\<lambda>s. s) (\<lambda>_. ''x'') (\<lambda>_ _. Inr (True, [])) segment1 0 daemon1"
  obtain d1 where d1: "asked d1 = []" "quarantined_at d1 = []" "blocklist d1 = [(''x'', ''scanner'')]" "match_quarantines d1"
    and d: "?d = handle_hello (\<lambda>_ _. Inr (True, [])) (saddr segment1) (ja4 (\<lambda>s. s) (empty_hello 0x0303 [0x1301]) ''t'') ''x''
       (server_name (empty_hello 0x0303 [0x1301])) 0 d1"
    using handle_segment_cases [of daemon1 "\<lambda>s. s" "\<lambda>_. ''x''" "\<lambda>_ _. Inr (True, [])" segment1 0] segment1_hello
    by (auto simp: daemon1_def daemon_init_def ja3_def)
  have "block_label fp ''x'' d1 \<noteq> None" for fp using d1(3) by (simp add: block_label_def)
  then have "asked ?d = [(saddr segment1, 0)]"
    unfolding d using handle_hello_asks [of _ _ _ "''x''" _ _ d1] d1 by (simp add: quarantine_def ask_helper_def)
  then have "asked ?d \<noteq> asked daemon1" by (simp add: daemon1_def daemon_init_def)
  from quarantine_only_blocklisted [OF this] show ?thesis by (auto simp: segment1_def daemon1_def daemon_init_def)
qed

subsection \<open>What the inventory keeps\<close>

definition seen_ok :: "seen \<Rightarrow> bool" where
  "seen_ok s \<longleftrightarrow> length (seen_ja3 s) \<le> MAX_JA3_PER_FINGERPRINT \<and> length (seen_sni s) \<le> MAX_SNI_PER_FINGERPRINT"

definition fingerprints_ok :: "(string, seen) dict \<Rightarrow> bool" where
  "fingerprints_ok fps \<longleftrightarrow> dict_ok fps \<and> length fps \<le> MAX_FINGERPRINTS_PER_CLIENT \<and> list_all (\<lambda>(_, s). seen_ok s) fps"

definition inventory_ok :: "inventory \<Rightarrow> bool" where
  "inventory_ok iv \<longleftrightarrow> dict_ok (inv_clients iv) \<and> length (inv_clients iv) \<le> MAX_CLIENTS
     \<and> list_all (\<lambda>(_, fps). fps \<noteq> [] \<and> fingerprints_ok fps) (inv_clients iv)
     \<and> dict_ok (network_first_seen iv) \<and> length (network_first_seen iv) \<le> MAX_NETWORK_FINGERPRINTS \<and> length (inv_events iv) \<le> MAX_EVENTS"

lemma keep_last_length: "length (keep_last n xs) \<le> n"
  by (simp add: keep_last_def)

lemma remember_length: "length values \<le> limit \<Longrightarrow> length (remember values v limit) \<le> limit"
  by (auto simp: remember_def keep_last_length split: option.split)

text \<open>A bounded table stays so when an entry is added to it after making room.\<close>

lemma add_evicting_ok:
  assumes "dict_ok d" and "length d \<le> limit" and "0 < limit" and "list_all (\<lambda>(_, v). P v) d" and "P v"
    and "d' = (if map_of d k = None then evict_least limit f d else d)"
  shows "dict_ok (AList.update k v d') \<and> length (AList.update k v d') \<le> limit \<and> list_all (\<lambda>(_, v). P v) (AList.update k v d')"
proof -
  have sub: "set (AList.update k v d') \<subseteq> insert (k, v) (set d)"
    using set_AList_update [of k v d'] evict_least_ok(3) [OF assms(1-3), of f] assms(6) by (auto split: if_splits)
  have "dict_ok d'" using assms(1,6) evict_least_ok(1) [OF assms(1-3)] by simp
  moreover have "length (AList.update k v d') \<le> limit"
    using assms(1-3,6) evict_least_ok(2) [OF assms(1-3), of f] by (auto simp: length_AList_update)
  moreover have "list_all (\<lambda>(_, v). P v) (AList.update k v d')"
    using sub assms(4,5) unfolding list_all_iff by blast
  ultimately show ?thesis by (simp add: dict_simps)
qed

lemma see_ok: "seen_ok s \<Longrightarrow> seen_ok (see fp3 sni now s)"
  by (simp add: seen_ok_def see_def remember_length)

lemma note_fingerprint_ok:
  assumes "fingerprints_ok fps"
  shows "fingerprints_ok (note_fingerprint fp fp3 sni now fps) \<and> note_fingerprint fp fp3 sni now fps \<noteq> []"
proof -
  have new: "seen_ok \<lparr>first_seen = now, last_seen = now, seen_count = 0, seen_ja3 = [], seen_sni = []\<rparr>" by (simp add: seen_ok_def)
  have old: "seen_ok s" if "map_of fps fp = Some s" for s
    using assms map_of_SomeD [OF that] by (auto simp: fingerprints_ok_def list_all_iff)
  have lim: "0 < MAX_FINGERPRINTS_PER_CLIENT" by (simp add: MAX_FINGERPRINTS_PER_CLIENT_def)
  have ne: "AList.update k v d \<noteq> []" for k :: string and v :: seen and d by (cases d) auto
  show ?thesis
    using assms add_evicting_ok [of fps MAX_FINGERPRINTS_PER_CLIENT seen_ok _ _ fp last_seen, OF _ _ lim] new old see_ok ne
    by (auto simp: note_fingerprint_def fingerprints_ok_def split: option.split)
qed

lemma observe_ok:
  assumes "inventory_ok iv"
  shows "inventory_ok (snd (observe client fp fp3 sni now iv))"
proof -
  have lim: "0 < MAX_NETWORK_FINGERPRINTS" "0 < MAX_CLIENTS" by (simp_all add: MAX_NETWORK_FINGERPRINTS_def MAX_CLIENTS_def)
  let ?iv = "note_network fp now iv"
  have net: "inventory_ok ?iv"
    using assms add_evicting_ok [of "network_first_seen iv" MAX_NETWORK_FINGERPRINTS "\<lambda>_. True" now _ fp "\<lambda>t. t", OF _ _ lim(1)]
    by (auto simp: inventory_ok_def note_network_def list_all_iff)
  let ?cs = "if map_of (inv_clients ?iv) client = None then evict_least MAX_CLIENTS latest (inv_clients ?iv) else inv_clients ?iv"
  let ?P = "\<lambda>fps. fps \<noteq> [] \<and> fingerprints_ok fps"
  have cl: "dict_ok (inv_clients ?iv)" "length (inv_clients ?iv) \<le> MAX_CLIENTS" "list_all (\<lambda>(_, fps). ?P fps) (inv_clients ?iv)"
    using net by (auto simp: inventory_ok_def)
  have sub: "set ?cs \<subseteq> set (inv_clients ?iv)" using evict_least_ok(3) [OF cl(1,2) lim(2), of latest] by simp
  have "fingerprints_ok fps" if "map_of ?cs client = Some fps" for fps
    using map_of_SomeD [OF that] sub cl(3) unfolding list_all_iff by blast
  moreover have "fingerprints_ok []" by (simp add: fingerprints_ok_def dict_ok_def)
  ultimately have "fingerprints_ok (dict_get_or ?cs client [])" unfolding dict_get_or_def by (simp split: option.split)
  then have "?P (note_fingerprint fp fp3 sni now (dict_get_or ?cs client []))" using note_fingerprint_ok by blast
  from add_evicting_ok [OF cl(1,2) lim(2) cl(3) this refl, of client latest] net
  show ?thesis unfolding observe_def Let_def snd_conv by (simp add: inventory_ok_def)
qed

lemma report_ok: "inventory_ok (inventory d) \<Longrightarrow> inventory_ok (inventory (report e d))"
  by (simp add: report_def add_event_def inventory_ok_def keep_last_length)

lemma quarantine_inventory: "inventory (snd (quarantine q client now d)) = inventory d"
  by (simp add: quarantine_def ask_helper_def split: option.split)

lemma handle_hello_inventory:
  "inventory_ok (inventory d) \<Longrightarrow> inventory_ok (inventory (handle_hello q client fp fp3 sni now d))"
  using observe_ok [of "inventory d" client fp fp3 sni now]
  by (auto simp: handle_hello_def Let_def case_prod_beta quarantine_inventory intro!: report_ok split: option.split)

lemma daemon_step_inventory:
  "inventory_ok (inventory d) \<Longrightarrow> (\<And>iv cfg n. e = Restart iv cfg n \<Longrightarrow> inventory_ok iv) \<Longrightarrow> inventory_ok (inventory (daemon_step sha256 md5 q e d))"
proof (cases e)
  case (Segment seg now)
  assume "inventory_ok (inventory d)"
  with Segment show ?thesis
    by (auto simp: handle_segment_def Let_def case_prod_beta intro!: handle_hello_inventory split: sum.split option.split)
next
  case (Reconfigure cfg duration)
  assume "inventory_ok (inventory d)"
  with Reconfigure show ?thesis by (simp add: update_daemon_config_def)
next
  case (Restart iv cfg duration)
  assume "\<And>iv cfg n. e = Restart iv cfg n \<Longrightarrow> inventory_ok iv"
  with Restart show ?thesis by (simp add: update_daemon_config_def)
qed

text \<open>
  Whatever the network sends, the inventory stays within its limits (clients, fingerprints per
  client, JA3 values and names per fingerprint, fingerprints of the network, events) if those a restarted
  daemon began with are, and no client in it is without a fingerprint, on which the search for the stalest client depends.
\<close>

theorem inventory_bounded:
  assumes "\<forall>iv cfg n. Restart iv cfg n \<in> set es \<longrightarrow> inventory_ok iv"
  shows "inventory_ok (inventory (daemon_run sha256 md5 q es (daemon_init t0)))"
proof -
  have "inventory_ok (inventory (fold (daemon_step sha256 md5 q) xs d))"
    if "inventory_ok (inventory d)" "\<forall>iv cfg n. Restart iv cfg n \<in> set xs \<longrightarrow> inventory_ok iv" for xs d
    using that
  proof (induction xs arbitrary: d)
    case (Cons x xs)
    have "inventory_ok (inventory (daemon_step sha256 md5 q x d))" by (rule daemon_step_inventory) (use Cons.prems in auto)
    with Cons show ?case by auto
  qed simp
  moreover have "inventory_ok (inventory (daemon_init t0))"
    by (simp add: daemon_init_def inventory_init_def inventory_ok_def dict_ok_def)
  ultimately show ?thesis using assms by (simp add: daemon_run_def)
qed

end
