(* ===== verification/Mdns.thy ===== *)
theory Mdns
  imports Bytes
begin

text \<open>
  One-shot mDNS service discovery (\<open>src/src/frfw/iot/mdns.py\<close>): DNS names with compression pointers,
  the query, the service types in a response, and what a scan keeps of the responses.

  A \<open>_ParseError\<close> and a \<open>ValueError\<close> are values of \<open>mdns_error\<close>.  A set of service types is a set of strings.
  The socket is left out: a scan takes the packets it received, in order.
\<close>

definition MDNS_PORT :: nat where "MDNS_PORT = 5353"
definition SERVICES_META_QUERY :: string where "SERVICES_META_QUERY = ''_services._dns-sd._udp.local''"
definition TYPE_PTR :: nat where "TYPE_PTR = 12"
definition CLASS_IN :: nat where "CLASS_IN = 1"
definition MAX_LABEL :: nat where "MAX_LABEL = 63"
definition MAX_NAME :: nat where "MAX_NAME = 255"
definition MAX_POINTER_JUMPS :: nat where "MAX_POINTER_JUMPS = 32"
definition MAX_RECORDS :: nat where "MAX_RECORDS = 256"
definition MAX_SERVICES_PER_HOST :: nat where "MAX_SERVICES_PER_HOST = 64"

datatype mdns_error = NameError string | InvalidLabel string

subsection \<open>Names\<close>

definition ascii_bytes :: "string \<Rightarrow> bytes" where
  "ascii_bytes s = map (\<lambda>c. byte_of (of_char c)) s"

definition is_ascii :: "string \<Rightarrow> bool" where
  "is_ascii s = list_all (\<lambda>c. of_char c < (128::nat)) s"

fun encode_labels :: "string list \<Rightarrow> (mdns_error, bytes) result" where
  "encode_labels [] = Inr [0]"
| "encode_labels (l # ls) =
     (if \<not> is_ascii l \<or> l = [] \<or> length l > MAX_LABEL then Inl (InvalidLabel l)
      else bind_result (encode_labels ls) (\<lambda>bs. Inr (byte_of (length l) # ascii_bytes l @ bs)))"

definition encode_name :: "string \<Rightarrow> (mdns_error, bytes) result" where
  "encode_name name = encode_labels (split_on CHR ''.'' (rstrip_dots name))"

text \<open>
  The loop of \<open>_decode_name\<close>.  Each turn ends it, follows a pointer (at most \<open>MAX_POINTER_JUMPS\<close> of them)
  or adds a label (at most \<open>MAX_NAME\<close> bytes of them).
\<close>

function decode_loop :: "bytes \<Rightarrow> string list \<Rightarrow> nat \<Rightarrow> nat \<Rightarrow> nat option \<Rightarrow> nat \<Rightarrow> (mdns_error, string \<times> nat) result" where
  "decode_loop packet labels total_len jumps end_offset pos =
     (if pos \<ge> length packet then Inl (NameError ''name runs past end of packet'')
      else let len = unat (packet ! pos) in
        if and len 0xC0 = 0xC0
        then (if pos + 1 \<ge> length packet then Inl (NameError ''truncated compression pointer'')
              else if jumps + 1 > MAX_POINTER_JUMPS then Inl (NameError ''too many compression pointers'')
              else decode_loop packet labels total_len (jumps + 1)
                     (case end_offset of None \<Rightarrow> Some (pos + 2) | Some e \<Rightarrow> Some e)
                     (or (push_bit 8 (and len 0x3F)) (unat (packet ! (pos + 1)))))
        else if and len 0xC0 \<noteq> 0 then Inl (NameError ''unsupported label type'')
        else if len = 0
        then Inr (py_join ''.'' labels, case end_offset of Some e \<Rightarrow> e | None \<Rightarrow> pos + 1)
        else if pos + 1 + len > length packet then Inl (NameError ''label runs past end of packet'')
        else if total_len + (len + 1) > MAX_NAME then Inl (NameError ''name too long'')
        else decode_loop packet (labels @ [decode_ascii (take len (drop (pos + 1) packet))]) (total_len + (len + 1)) jumps
               end_offset (pos + 1 + len))"
  by pat_completeness auto
termination
  by (relation "measure (\<lambda>(_, _, total_len, jumps, _, _). (MAX_POINTER_JUMPS + 1 - jumps) + (MAX_NAME + 1 - total_len))") auto

declare decode_loop.simps [simp del]

definition decode_name :: "bytes \<Rightarrow> nat \<Rightarrow> (mdns_error, string \<times> nat) result" where
  "decode_name packet offset = decode_loop packet [] 0 0 None offset"

subsection \<open>The query and the responses\<close>

definition build_query :: "string \<Rightarrow> nat \<Rightarrow> (mdns_error, bytes) result" where
  "build_query name query_id =
     bind_result (encode_name name) (\<lambda>n.
       Inr (concat (map be16_bytes [query_id, 0, 1, 0, 0, 0]) @ n @ be16_bytes TYPE_PTR @ be16_bytes CLASS_IN))"

definition strip_local :: "string \<Rightarrow> string" where
  "strip_local name0 =
     (let name = lower name0 in if ends_with name ''.local'' then take (length name - length ''.local'') name else name)"

definition label_char :: "char \<Rightarrow> bool" where
  "label_char c = (let n = of_char c :: nat in 97 \<le> n \<and> n \<le> 122 \<or> 48 \<le> n \<and> n \<le> 57 \<or> c = CHR ''-'')"

text \<open>\<open>_SERVICE_TYPE_RE\<close>: the name cannot contain the dot behind it, so the match is the longest.\<close>

definition service_type :: "string \<Rightarrow> bool" where
  "service_type s =
     (case s of [] \<Rightarrow> False
      | c # t \<Rightarrow> let name = takeWhile label_char t; rest = dropWhile label_char t in
          c = CHR ''_'' \<and> name \<noteq> [] \<and> hd name \<noteq> CHR ''-'' \<and> length name \<le> 63 \<and> (rest = ''._tcp'' \<or> rest = ''._udp''))"

fun skip_questions :: "bytes \<Rightarrow> nat \<Rightarrow> nat \<Rightarrow> (mdns_error, nat) result" where
  "skip_questions packet 0 offset = Inr offset"
| "skip_questions packet (Suc n) offset =
     bind_result (decode_name packet offset) (\<lambda>(_, next_offset). skip_questions packet n (next_offset + 4))"

definition candidate :: "bytes \<Rightarrow> string \<Rightarrow> nat \<Rightarrow> (mdns_error, string) result" where
  "candidate packet owner rdata_offset =
     (if lower owner = SERVICES_META_QUERY
      then bind_result (decode_name packet rdata_offset) (\<lambda>(target, _). Inr (strip_local target))
      else Inr (strip_local (lower owner)))"

fun read_records :: "bytes \<Rightarrow> nat \<Rightarrow> nat \<Rightarrow> string set \<Rightarrow> (mdns_error, string set) result" where
  "read_records packet 0 offset services = Inr services"
| "read_records packet (Suc n) offset0 services =
     bind_result (decode_name packet offset0) (\<lambda>(owner, offset).
       if offset + 10 > length packet then Inl (NameError ''truncated resource record'')
       else let rtype = be16 (packet ! offset) (packet ! (offset + 1));
                rdlength = be16 (packet ! (offset + 8)) (packet ! (offset + 9));
                rdata_offset = offset + 10; next_offset = offset + 10 + rdlength
            in if next_offset > length packet then Inl (NameError ''rdata runs past end of packet'')
               else if rtype \<noteq> TYPE_PTR then read_records packet n next_offset services
               else bind_result (candidate packet owner rdata_offset) (\<lambda>c.
                      read_records packet n next_offset (if service_type c then insert c services else services)))"

definition header_field :: "bytes \<Rightarrow> nat \<Rightarrow> nat" where
  "header_field packet i = be16 (packet ! (2 * i)) (packet ! (2 * i + 1))"

definition parse_services_raw :: "bytes \<Rightarrow> (mdns_error, string set) result" where
  "parse_services_raw packet =
     (if length packet < 12 then Inl (NameError ''short header'')
      else let flags = header_field packet 1; qdcount = header_field packet 2; ancount = header_field packet 3;
               nscount = header_field packet 4; arcount = header_field packet 5
           in if and flags 0x8000 = 0 then Inr {}
              else if qdcount + ancount + nscount + arcount > MAX_RECORDS then Inl (NameError ''too many records'')
              else bind_result (skip_questions packet qdcount 12) (\<lambda>offset.
                     read_records packet (ancount + nscount + arcount) offset {}))"

definition parse_services :: "bytes \<Rightarrow> string set" where
  "parse_services packet = (case parse_services_raw packet of Inl _ \<Rightarrow> {} | Inr services \<Rightarrow> services)"

subsection \<open>A scan\<close>

type_synonym scan_results = "(string, string set) dict"

fun fill_bucket :: "string list \<Rightarrow> string set \<Rightarrow> string set" where
  "fill_bucket [] bucket = bucket"
| "fill_bucket (s # ss) bucket = (if card bucket \<ge> MAX_SERVICES_PER_HOST then bucket else fill_bucket ss (insert s bucket))"

definition receive :: "string set \<Rightarrow> nat \<Rightarrow> string \<times> nat \<times> bytes \<Rightarrow> scan_results \<Rightarrow> scan_results" where
  "receive own target_port p results =
     (case p of (src_ip, src_port, data) \<Rightarrow>
        if src_port \<noteq> target_port \<or> src_ip \<in> own then results
        else let found = parse_services data in
          if found = {} then results
          else AList.update src_ip (fill_bucket (sorted_list_of_set found) (dict_get_or results src_ip {})) results)"

definition discover :: "string list \<Rightarrow> nat \<Rightarrow> nat \<Rightarrow> (string \<times> nat \<times> bytes) list \<Rightarrow> scan_results" where
  "discover interface_addresses target_port max_packets packets =
     (if interface_addresses = [] then []
      else fold (receive (set interface_addresses) target_port) (take max_packets packets) [])"

subsection \<open>Names are read back\<close>

lemma label_length_bits: "n < 64 \<Longrightarrow> and n 0xC0 = (0::nat)"
proof -
  assume "n < 64"
  then have "n = take_bit 6 n" by (simp add: take_bit_nat_eq_self)
  then have "and n 0xC0 = and (take_bit 6 n) 0xC0" by simp
  also have "\<dots> = and n (and (mask 6) 0xC0)" by (simp add: take_bit_eq_mask and.assoc)
  also have "and (mask 6) 0xC0 = (0::nat)" by (simp add: mask_eq_exp_minus_1)
  finally show ?thesis by simp
qed

lemma ascii_round: "is_ascii l \<Longrightarrow> decode_ascii (ascii_bytes l) = l"
  by (induction l) (auto simp: is_ascii_def decode_ascii_def ascii_bytes_def unat_byte_of)

lemma decode_labels:
  assumes "encode_labels ls = Inr bs" and "total_len + length bs \<le> MAX_NAME + 1"
  shows "decode_loop (pre @ bs @ post) labels total_len jumps e (length pre)
    = Inr (py_join ''.'' (labels @ ls), case e of Some x \<Rightarrow> x | None \<Rightarrow> length pre + length bs)"
  using assms
proof (induction ls arbitrary: bs pre labels total_len)
  case Nil
  then have "bs = [0]" by simp
  then show ?case by (subst decode_loop.simps) (simp add: Let_def split: option.split)
next
  case (Cons l ls)
  then obtain bs' where l: "is_ascii l" "l \<noteq> []" "length l \<le> 63" and bs': "encode_labels ls = Inr bs'"
    and bs: "bs = byte_of (length l) # ascii_bytes l @ bs'"
    by (auto simp: MAX_LABEL_def bind_result_Inr_iff split: if_splits)
  have len: "unat (byte_of (length l)) = length l" "and (length l) 0xC0 = 0" "length (ascii_bytes l) = length l"
    using l by (simp_all add: unat_byte_of label_length_bits ascii_bytes_def)
  let ?pre = "pre @ byte_of (length l) # ascii_bytes l"
  have sum: "total_len + (length l + 1) + length bs' \<le> MAX_NAME + 1" using Cons.prems(2) len(3) by (simp add: bs)
  have "0 < length bs'" using bs' by (cases ls) (auto split: if_splits)
  with sum have fits: "total_len + (length l + 1) \<le> MAX_NAME" by linarith
  have packet: "pre @ bs @ post = ?pre @ bs' @ post" by (simp add: bs)
  have "decode_loop (pre @ bs @ post) labels total_len jumps e (length pre)
      = decode_loop (pre @ bs @ post) (labels @ [decode_ascii (ascii_bytes l)]) (total_len + (length l + 1)) jumps e (length pre + 1 + length l)"
    using l len fits by (subst decode_loop.simps) (simp add: bs Let_def nth_append)
  also have "\<dots> = decode_loop (?pre @ bs' @ post) (labels @ [l]) (total_len + (length l + 1)) jumps e (length ?pre)"
    using l len(3) by (simp add: packet ascii_round)
  also have "\<dots> = Inr (py_join ''.'' ((labels @ [l]) @ ls), case e of Some x \<Rightarrow> x | None \<Rightarrow> length ?pre + length bs')"
    by (rule Cons.IH [OF bs' sum])
  finally show ?case using len(3) by (simp add: bs split: option.split)
qed

text \<open>
  Every name the query encoder accepts and that fits in a DNS name is read back from any place in
  a packet, with the position just behind it.
\<close>

theorem decode_encoded_name:
  assumes "encode_name name = Inr bs" and "length bs \<le> MAX_NAME + 1"
  shows "decode_name (pre @ bs @ post) (length pre) = Inr (rstrip_dots name, length pre + length bs)"
  using decode_labels [of "split_on CHR ''.'' (rstrip_dots name)" bs 0 pre post "[]" 0 None] assms
  by (simp add: decode_name_def encode_name_def join_split_on)

theorem decode_encoded_name_witness:
  "decode_name ([1, 2] @ [4, 0x5F, 0x68, 0x61, 0x70, 5, 0x6C, 0x6F, 0x63, 0x61, 0x6C, 0] @ [9]) 2 = Inr (''_hap.local'', 14)"
proof -
  have "encode_name ''_hap.local.'' = Inr [4, 0x5F, 0x68, 0x61, 0x70, 5, 0x6C, 0x6F, 0x63, 0x61, 0x6C, 0]"
    by (simp add: encode_name_def rstrip_dots_def is_ascii_def MAX_LABEL_def ascii_bytes_def byte_of_def)
  from decode_encoded_name [OF this, of "[1, 2]" "[9]"] show ?thesis by (simp add: MAX_NAME_def rstrip_dots_def eval_nat_numeral)
qed

subsection \<open>What a scan keeps\<close>

lemma read_records_services:
  "read_records packet n offset services = Inr found \<Longrightarrow> finite services \<Longrightarrow> services \<subseteq> {s. service_type s} \<Longrightarrow>
     finite found \<and> found \<subseteq> {s. service_type s}"
proof (induction n arbitrary: offset services)
  case (Suc n)
  from Suc.prems(1) obtain owner off where d: "decode_name packet offset = Inr (owner, off)" by auto
  let ?next = "off + 10 + be16 (packet ! (off + 8)) (packet ! (off + 9))"
  from Suc.prems(1) consider "read_records packet n ?next services = Inr found"
    | c where "service_type c" "read_records packet n ?next (insert c services) = Inr found"
    by (auto simp: d Let_def split: if_splits)
  then show ?case
  proof cases
    case 1
    then show ?thesis using Suc.IH Suc.prems(2,3) by blast
  next
    case 2
    then show ?thesis using Suc.IH [of ?next "insert c services"] Suc.prems(2,3) by simp
  qed
qed simp

lemma parse_services_types: "finite (parse_services packet)" "parse_services packet \<subseteq> {s. service_type s}"
proof -
  have "finite found \<and> found \<subseteq> {s. service_type s}" if "parse_services_raw packet = Inr found" for found
    using that read_records_services [of packet _ _ "{}" found]
    by (auto simp: parse_services_raw_def Let_def split: if_splits)
  then show "finite (parse_services packet)" "parse_services packet \<subseteq> {s. service_type s}"
    by (auto simp: parse_services_def split: sum.split)
qed

definition bucket_ok :: "string set \<Rightarrow> bool" where
  "bucket_ok bucket \<longleftrightarrow> finite bucket \<and> card bucket \<le> MAX_SERVICES_PER_HOST \<and> bucket \<subseteq> {s. service_type s}"

lemma fill_bucket_ok: "set ss \<subseteq> {s. service_type s} \<Longrightarrow> bucket_ok bucket \<Longrightarrow> bucket_ok (fill_bucket ss bucket)"
  by (induction ss bucket rule: fill_bucket.induct) (auto simp: bucket_ok_def card_insert_if)

definition scan_ok :: "string set \<Rightarrow> string set \<Rightarrow> nat \<Rightarrow> scan_results \<Rightarrow> bool" where
  "scan_ok own sources n results \<longleftrightarrow> dict_ok results \<and> length results \<le> n
     \<and> list_all (\<lambda>(ip, bucket). ip \<notin> own \<and> ip \<in> sources \<and> bucket_ok bucket) results"

lemma receive_ok:
  assumes "scan_ok own sources n results" and "fst p \<in> sources"
  shows "scan_ok own sources (Suc n) (receive own target_port p results)"
proof -
  obtain ip port data where p: "p = (ip, port, data)" by (cases p)
  let ?b = "fill_bucket (sorted_list_of_set (parse_services data)) (dict_get_or results ip {})"
  have "bucket_ok (dict_get_or results ip {})"
    using assms(1) by (auto simp: dict_get_or_def scan_ok_def list_all_iff bucket_ok_def split: option.split dest!: map_of_SomeD)
  then have b: "bucket_ok ?b" by (intro fill_bucket_ok) (use parse_services_types [of data] in auto)
  have "list_all (\<lambda>(ip, bucket). ip \<notin> own \<and> ip \<in> sources \<and> bucket_ok bucket) (AList.update ip ?b results)" if "ip \<notin> own"
    using that assms b set_AList_update [of ip ?b results] unfolding scan_ok_def list_all_iff by (auto simp: p)
  then show ?thesis
    using assms(1) by (auto simp: receive_def p Let_def scan_ok_def dict_simps length_AList_update)
qed

lemma receive_all_ok:
  "scan_ok own sources n results \<Longrightarrow> fst ` set ps \<subseteq> sources \<Longrightarrow> scan_ok own sources (n + length ps) (fold (receive own port) ps results)"
proof (induction ps arbitrary: n results)
  case (Cons p ps)
  then have "scan_ok own sources (Suc n) (receive own port p results)" using receive_ok by auto
  from Cons.IH [OF this] Cons.prems show ?case by simp
qed simp

text \<open>
  Whatever arrives during a scan, malformed or hostile, the result has at most as many hosts as
  packets were read, all of them senders other than the router itself, and for each at most
  \<open>MAX_SERVICES_PER_HOST\<close> names, every one a DNS-SD service type.
\<close>

theorem discover_bounded:
  "scan_ok (set interface_addresses) (fst ` set packets) max_packets (discover interface_addresses target_port max_packets packets)"
proof -
  have "scan_ok (set interface_addresses) (fst ` set packets) (0 + length (take max_packets packets))
      (fold (receive (set interface_addresses) target_port) (take max_packets packets) [])"
    by (rule receive_all_ok) (auto simp: scan_ok_def dict_ok_def dest: in_set_takeD)
  then have "scan_ok (set interface_addresses) (fst ` set packets) max_packets
      (fold (receive (set interface_addresses) target_port) (take max_packets packets) [])"
    by (auto simp: scan_ok_def)
  then show ?thesis by (auto simp: discover_def) (simp add: scan_ok_def dict_ok_def)
qed

end
