(* ===== verification/Load_Sections.thy ===== *)
theory Load_Sections
  imports Loader Builder
begin

text \<open>
  The other sections of the configuration and the loader as a whole
  (\<open>src/src/frfw/config/loader.py\<close>): DHCP pools, intrusion detection, updates, the SNI filter, access
  control, ad blocking, device isolation, application control, local names, fingerprints, metrics and
  IPv6 with its pinholes, then \<open>parse_config\<close>.  Conventions are those of \<open>Loader\<close>.

  A key that is not known is refused with the unknown keys in order; keys that Python cannot order
  (text beside a number) are a \<open>TypeError\<close>, and so are two keys that are neither text nor integers.
\<close>

subsection \<open>Lists of values\<close>

definition bool_field :: "(pyval, pyval) dict \<Rightarrow> string \<Rightarrow> bool loaded" where
  "bool_field d key = as_bool (get_key d key (VBool False)) key"

definition list_field :: "(pyval, pyval) dict \<Rightarrow> string \<Rightarrow> pyval list loaded" where
  "list_field d key = as_list (get_key d key (VList [])) key"

text \<open>A loop that appends what it reads, and one that leaves out repeats.\<close>

definition read_all :: "(pyval \<Rightarrow> 'a loaded) \<Rightarrow> pyval list \<Rightarrow> 'a list loaded" where
  "read_all f vs = fold_result (\<lambda>v acc. bind_result (f v) (\<lambda>x. Inr (acc @ [x]))) vs []"

definition read_new :: "(pyval \<Rightarrow> 'a loaded) \<Rightarrow> pyval list \<Rightarrow> 'a list loaded" where
  "read_new f vs = fold_result (\<lambda>v acc. bind_result (f v) (\<lambda>x. Inr (if x \<in> set acc then acc else acc @ [x]))) vs []"

definition mac_of :: "string \<Rightarrow> pyval \<Rightarrow> string loaded" where
  "mac_of what v = bind_result (as_str v what) (\<lambda>s. if mac_any_re s then Inr (lower s) else Inl (ConfigError what))"

definition sortable :: "pyval list \<Rightarrow> bool" where
  "sortable ks \<longleftrightarrow> length ks \<le> 1 \<or> list_all (\<lambda>k. case k of VStr _ \<Rightarrow> True | _ \<Rightarrow> False) ks
     \<or> list_all (\<lambda>k. case k of VInt _ \<Rightarrow> True | VBool _ \<Rightarrow> True | _ \<Rightarrow> False) ks"

definition known_keys :: "(pyval, pyval) dict \<Rightarrow> string list \<Rightarrow> string \<Rightarrow> unit loaded" where
  "known_keys d allowed what =
     (let unknown = filter (\<lambda>k. k \<notin> VStr ` set allowed) (map fst d)
      in if unknown = [] then Inr () else if sortable unknown then Inl (ConfigError what) else Inl (TypeError what))"

subsection \<open>DHCP\<close>

definition pool_address :: "ip_network \<Rightarrow> int \<Rightarrow> string \<Rightarrow> pyval \<Rightarrow> int loaded" where
  "pool_address net gateway what v =
     bind_result (as_str v what) (\<lambda>s.
       case ipv4_address s of None \<Rightarrow> Inl (ConfigError what)
       | Some a \<Rightarrow>
           bind_result (require (in_network V4 a net) what) (\<lambda>_.
           bind_result (require (a \<noteq> gateway) what) (\<lambda>_. Inr a)))"

definition parse_reservation :: "ip_network \<Rightarrow> int \<Rightarrow> pyval \<Rightarrow> dhcp_reservation list \<Rightarrow> dhcp_reservation list loaded" where
  "parse_reservation net gateway v acc =
     bind_result (as_dict v ''reservations'') (\<lambda>body.
     bind_result (mac_of ''reservations'' (get_key body ''mac'' VNone)) (\<lambda>mac.
     bind_result (require (mac \<notin> res_mac_address ` set acc) ''duplicate MAC address'') (\<lambda>_.
     bind_result (pool_address net gateway ''reservations'' (get_key body ''address'' VNone)) (\<lambda>a.
     bind_result (require (show_ipv4 a \<notin> res_address ` set acc) ''duplicate address'') (\<lambda>_.
     bind_result (as_str (get_key body ''hostname'' (VStr [])) ''hostname'') (\<lambda>host.
     Inr (acc @ [\<lparr>res_mac_address = mac, res_address = show_ipv4 a, res_hostname = host\<rparr>])))))))"

definition dns_address :: "pyval \<Rightarrow> string loaded" where
  "dns_address v = bind_result (as_str v ''dns_servers'') (\<lambda>s.
     case ipv4_address s of None \<Rightarrow> Inl (ConfigError ''dns_servers'') | Some a \<Rightarrow> Inr (show_ipv4 a))"

definition parse_lease_time :: "pyval \<Rightarrow> int loaded" where
  "parse_lease_time v = (if v = VBool True then Inl (BoolInt ''lease_time'') else as_int (\<lambda>i. 0 < i) v ''lease_time'')"

definition zone_interfaces :: "(string, interface) dict \<Rightarrow> string \<Rightarrow> interface list" where
  "zone_interfaces ifs z = filter (\<lambda>i. if_zone i = z) (map snd ifs)"

definition pool_interface :: "(string, interface) dict \<Rightarrow> string \<Rightarrow> (int \<times> nat) loaded" where
  "pool_interface ifs z =
     (case zone_interfaces ifs z of
        [i] \<Rightarrow> (case if_address i of None \<Rightarrow> Inl (ConfigError ''needs a static address'')
                | Some a \<Rightarrow> (case ipv4_interface a of None \<Rightarrow> Inl (ValueErr a) | Some x \<Rightarrow> Inr x))
      | _ \<Rightarrow> Inl (ConfigError ''exactly one interface''))"

definition parse_pool :: "(string, zone) dict \<Rightarrow> (string, interface) dict \<Rightarrow> pyval \<times> pyval \<Rightarrow> (string, dhcp_pool) dict \<Rightarrow> (string, dhcp_pool) dict loaded" where
  "parse_pool zs ifs item acc =
     bind_result (as_str (fst item) ''dhcp: undefined zone'') (\<lambda>z.
     bind_result (require (map_of zs z \<noteq> None) ''dhcp: undefined zone'') (\<lambda>_.
     bind_result (as_dict (snd item) ''dhcp'') (\<lambda>body.
     bind_result (pool_interface ifs z) (\<lambda>own.
     let net = interface_network own; gateway = fst own in
     bind_result (pool_address net gateway ''range_start'' (get_key body ''range_start'' VNone)) (\<lambda>lo.
     bind_result (pool_address net gateway ''range_end'' (get_key body ''range_end'' VNone)) (\<lambda>hi.
     bind_result (require (lo \<le> hi) ''range_start must not be after range_end'') (\<lambda>_.
     bind_result (as_list (get_key body ''dns_servers'' VNone) ''dns_servers'') (\<lambda>dns_raw.
     bind_result (require (dns_raw \<noteq> []) ''dns_servers'') (\<lambda>_.
     bind_result (read_all dns_address dns_raw) (\<lambda>dns.
     bind_result (parse_lease_time (get_key body ''lease_time'' (VInt 3600))) (\<lambda>lease.
     bind_result (list_field body ''reservations'') (\<lambda>res_raw.
     bind_result (fold_result (parse_reservation net gateway) res_raw []) (\<lambda>res.
     Inr (AList.update z \<lparr>pool_zone = z, range_start = show_ipv4 lo, range_end = show_ipv4 hi, dns_servers = dns,
            lease_time = lease, reservations = res\<rparr> acc))))))))))))))"

definition parse_dhcp :: "pyval \<Rightarrow> (string, zone) dict \<Rightarrow> (string, interface) dict \<Rightarrow> (string, dhcp_pool) dict loaded" where
  "parse_dhcp raw zs ifs = bind_result (as_dict raw ''dhcp'') (\<lambda>items. fold_result (parse_pool zs ifs) items [])"

subsection \<open>Intrusion detection, updates, the SNI filter, access control\<close>

definition MAX_QUARANTINE_SECONDS :: int where "MAX_QUARANTINE_SECONDS = 7 * 24 * 3600"

definition parse_ai_ids :: "pyval \<Rightarrow> ai_ids_config loaded" where
  "parse_ai_ids raw =
     bind_result (as_dict raw ''ai_ids'') (\<lambda>d.
     bind_result (bool_field d ''enabled'') (\<lambda>enabled.
     bind_result (list_field d ''excluded_macs'') (\<lambda>macs_raw.
     bind_result (read_all (mac_of ''excluded_macs'') macs_raw) (\<lambda>macs.
     bind_result (as_int (\<lambda>i. 0 < i \<and> i \<le> MAX_QUARANTINE_SECONDS) (get_key d ''quarantine_duration_seconds'' (VInt (2 * 3600)))
       ''quarantine_duration_seconds'') (\<lambda>secs.
     Inr \<lparr>ai_ids_enabled = enabled, excluded_macs = macs, quarantine_duration_seconds = secs\<rparr>)))))"

definition parse_update :: "pyval \<Rightarrow> update_config loaded" where
  "parse_update raw =
     bind_result (as_dict raw ''update'') (\<lambda>d.
     bind_result (as_str (get_key d ''repo'' (VStr [])) ''update.repo'') (\<lambda>repo.
     bind_result (if repo = [] then Inr [] else checked (github_repo (VStr repo)) ''update.repo'') (\<lambda>_.
     bind_result (bool_field d ''auto_install_security'') (\<lambda>auto_sec.
     bind_result (as_bool (get_key d ''kernel_updates'' (VBool True)) ''kernel_updates'') (\<lambda>kernel.
     Inr \<lparr>update_repo = repo, auto_install_security = auto_sec, kernel_updates = kernel\<rparr>)))))"

text \<open>
  \<open>_HOSTNAME_RE\<close> is a host name of the labels of \<open>Validate\<close>; it ends in \<open>$\<close>, so one newline may
  follow.
\<close>

definition hostname_re :: "string \<Rightarrow> bool" where
  "hostname_re s = (let t = (if s \<noteq> [] \<and> last s = CHR 0x0A then butlast s else s) in list_all host_label_re (split_on CHR ''.'' t))"

definition MAX_SNI_LEN :: nat where "MAX_SNI_LEN = 32"

definition blocked_host :: "pyval \<Rightarrow> string loaded" where
  "blocked_host v =
     bind_result (as_str v ''blocklist'') (\<lambda>s.
     bind_result (require (hostname_re (rstrip_dots s)) ''blocklist'') (\<lambda>_.
     bind_result (require (length s < MAX_SNI_LEN) ''blocklist'') (\<lambda>_.
     Inr (rstrip_dots (lower s)))))"

definition known_interface :: "(string, interface) dict \<Rightarrow> pyval \<Rightarrow> string loaded" where
  "known_interface ifs v = bind_result (as_str v ''interfaces'') (\<lambda>n. if map_of ifs n \<noteq> None then Inr n else Inl (ConfigError ''interfaces''))"

definition parse_xdp_sni_filter :: "pyval \<Rightarrow> (string, interface) dict \<Rightarrow> xdp_sni_filter_config loaded" where
  "parse_xdp_sni_filter raw ifs =
     bind_result (as_dict raw ''xdp_sni_filter'') (\<lambda>d.
     bind_result (bool_field d ''enabled'') (\<lambda>enabled.
     bind_result (list_field d ''interfaces'') (\<lambda>ifs_raw.
     bind_result (read_all (known_interface ifs) ifs_raw) (\<lambda>names.
     bind_result (require (\<not> (enabled \<and> names = [])) ''interfaces is empty'') (\<lambda>_.
     bind_result (list_field d ''blocklist'') (\<lambda>block_raw.
     bind_result (read_all blocked_host block_raw) (\<lambda>block.
     Inr \<lparr>xdp_enabled = enabled, xdp_interfaces = names, xdp_blocklist = block\<rparr>)))))))"

definition ZTNA_MIN_TTL_SECONDS :: int where "ZTNA_MIN_TTL_SECONDS = 60"
definition ZTNA_MAX_TTL_SECONDS :: int where "ZTNA_MAX_TTL_SECONDS = 30 * 24 * 3600"

definition ztna_username_re :: "string \<Rightarrow> bool" where
  "ztna_username_re = head_tail is_alnum_char (\<lambda>c. is_alnum_char c \<or> c \<in> set ''_.-'') 63"

definition parse_ztna_user :: "pyval \<Rightarrow> ztna_user list \<Rightarrow> ztna_user list loaded" where
  "parse_ztna_user v acc =
     bind_result (as_dict v ''ztna.users'') (\<lambda>body.
     bind_result (as_str (get_key body ''username'' VNone) ''username'') (\<lambda>name.
     bind_result (require (ztna_username_re name) ''username'') (\<lambda>_.
     bind_result (require (name \<notin> ztna_username ` set acc) ''duplicate username'') (\<lambda>_.
     bind_result (as_str (get_key body ''password_hash'' VNone) ''password_hash'') (\<lambda>hash.
     bind_result (require (hash \<noteq> []) ''password_hash'') (\<lambda>_.
     Inr (acc @ [\<lparr>ztna_username = name, ztna_password_hash = hash\<rparr>])))))))"

definition parse_ztna :: "pyval \<Rightarrow> ztna_config loaded" where
  "parse_ztna raw =
     bind_result (as_dict raw ''ztna'') (\<lambda>d.
     bind_result (bool_field d ''enabled'') (\<lambda>enabled.
     bind_result (as_int (\<lambda>i. ZTNA_MIN_TTL_SECONDS \<le> i \<and> i \<le> ZTNA_MAX_TTL_SECONDS) (get_key d ''session_ttl_seconds'' (VInt (8 * 3600)))
       ''session_ttl_seconds'') (\<lambda>ttl.
     bind_result (list_field d ''users'') (\<lambda>users_raw.
     bind_result (fold_result parse_ztna_user users_raw []) (\<lambda>users.
     bind_result (require (\<not> (enabled \<and> users = [])) ''no users are configured'') (\<lambda>_.
     Inr \<lparr>ztna_enabled = enabled, session_ttl_seconds = ttl, ztna_users = users\<rparr>))))))"

definition parse_pqc :: "pyval \<Rightarrow> bool loaded" where
  "parse_pqc raw = bind_result (as_dict raw ''pqc'') (\<lambda>d. bool_field d ''enabled'')"

subsection \<open>Ad blocking, device isolation, application control, local names\<close>

definition http_url_re :: "string \<Rightarrow> bool" where
  "http_url_re s =
     (let rest = (\<lambda>p. drop (length p) s);
          ok = (\<lambda>p. take (length p) s = p \<and> rest p \<noteq> [] \<and> list_all (\<lambda>c. \<not> is_space c) (rest p))
      in ok ''http://'' \<or> ok ''https://'')"

definition parse_url :: "pyval \<Rightarrow> string loaded" where
  "parse_url v = bind_result (as_str v ''invalid URL'') (\<lambda>s. if http_url_re s then Inr s else Inl (ConfigError ''invalid URL''))"

definition parse_url_list :: "pyval \<Rightarrow> string \<Rightarrow> string list loaded" where
  "parse_url_list raw what = bind_result (as_list raw what) (read_all parse_url)"

definition parse_category :: "pyval \<times> pyval \<Rightarrow> (string, string list) dict \<Rightarrow> (string, string list) dict loaded" where
  "parse_category item acc =
     bind_result (require_name (fst item) ''adblocker category'') (\<lambda>name.
     bind_result (require (name \<noteq> ''ads'') ''adblocker.categories'') (\<lambda>_.
     bind_result (parse_url_list (snd item) ''adblocker.categories'') (\<lambda>urls.
     bind_result (require (urls \<noteq> []) ''has no URLs'') (\<lambda>_.
     Inr (AList.update name urls acc)))))"

definition allowed_domain :: "pyval \<Rightarrow> string loaded" where
  "allowed_domain v =
     bind_result (as_str v ''adblocker.allowlist'') (\<lambda>s.
     bind_result (require (CHR ''.'' \<in> set s \<and> hostname_re (rstrip_dots s)) ''adblocker.allowlist'') (\<lambda>_.
     Inr (rstrip_dots (lower s))))"

definition parse_adblocker :: "pyval \<Rightarrow> (string, dhcp_pool) dict \<Rightarrow> adblocker_config loaded" where
  "parse_adblocker raw pools =
     bind_result (as_dict raw ''adblocker'') (\<lambda>d.
     bind_result (bool_field d ''enabled'') (\<lambda>enabled.
     bind_result (parse_url_list (get_key d ''source_urls'' (VList [])) ''adblocker.source_urls'') (\<lambda>urls.
     bind_result (as_dict (value_or (get_key d ''categories'' (VDict [])) (VDict [])) ''adblocker.categories'') (\<lambda>cats_raw.
     bind_result (fold_result parse_category cats_raw []) (\<lambda>cats.
     bind_result (require (\<not> (enabled \<and> urls = [] \<and> cats = [])) ''source_urls and categories are both empty'') (\<lambda>_.
     bind_result (as_int (\<lambda>i. 0 \<le> i) (get_key d ''xdp_critical_limit'' (VInt 0)) ''xdp_critical_limit'') (\<lambda>limit.
     bind_result (as_items (get_key d ''allowlist'' (VList [])) ''adblocker.allowlist'') (\<lambda>allow_raw.
     bind_result (read_new allowed_domain allow_raw) (\<lambda>allow.
     bind_result (bool_field d ''serve_lan'') (\<lambda>lan.
     bind_result (bool_field d ''force_dns'') (\<lambda>force.
     bind_result (bool_field d ''query_logging'') (\<lambda>qlog.
     bind_result (require (\<not> (force \<and> \<not> lan)) ''force_dns requires serve_lan'') (\<lambda>_.
     bind_result (require (\<not> (lan \<and> pools = [])) ''serve_lan needs a DHCP pool'') (\<lambda>_.
     Inr \<lparr>adblock_enabled = enabled, source_urls = urls, xdp_critical_limit = limit, adblock_categories = cats, adblock_allowlist = allow,
       serve_lan = lan, force_dns = force, query_logging = qlog\<rparr>))))))))))))))"

definition parse_mac_list :: "pyval \<Rightarrow> string \<Rightarrow> string list loaded" where
  "parse_mac_list raw what = bind_result (as_list raw what) (read_new (mac_of what))"

definition iot_zone :: "(string, zone) dict \<Rightarrow> string set \<Rightarrow> pyval \<Rightarrow> string loaded" where
  "iot_zone zs internet v =
     bind_result (as_str v ''iot.zones'') (\<lambda>z.
     bind_result (require (map_of zs z \<noteq> None) ''iot.zones'') (\<lambda>_.
     bind_result (require (z \<notin> internet) ''iot.zones'') (\<lambda>_. Inr z)))"

definition isolation_mode_of :: "pyval \<Rightarrow> iot_isolation_mode loaded" where
  "isolation_mode_of v = (if v = VStr ''internet_only'' then Inr INTERNET_ONLY else if v = VStr ''block'' then Inr BLOCK
     else Inl (ConfigError ''iot.isolation_mode''))"

definition parse_iot :: "pyval \<Rightarrow> (string, zone) dict \<Rightarrow> nat_config \<Rightarrow> iot_config loaded" where
  "parse_iot raw zs n =
     (let internet = out_zone ` set (nat_masquerade n) in
     bind_result (as_dict raw ''iot'') (\<lambda>d.
     bind_result (bool_field d ''enabled'') (\<lambda>enabled.
     bind_result (list_field d ''zones'') (\<lambda>zones_raw.
     bind_result (read_new (iot_zone zs internet) zones_raw) (\<lambda>zones'.
     bind_result (require (\<not> (enabled \<and> zones' = [])) ''iot.zones is empty'') (\<lambda>_.
     bind_result (bool_field d ''auto_isolate'') (\<lambda>auto_iso.
     bind_result (isolation_mode_of (get_key d ''isolation_mode'' (VStr ''internet_only''))) (\<lambda>mode.
     bind_result (require (\<not> (enabled \<and> mode = INTERNET_ONLY \<and> internet = {})) ''internet_only needs a masquerade'') (\<lambda>_.
     bind_result (parse_mac_list (get_key d ''trusted_macs'' (VList [])) ''iot.trusted_macs'') (\<lambda>trusted.
     bind_result (parse_mac_list (get_key d ''isolated_macs'' (VList [])) ''iot.isolated_macs'') (\<lambda>isolated.
     bind_result (require (set trusted \<inter> set isolated = {}) ''both trusted and isolated'') (\<lambda>_.
     Inr \<lparr>iot_enabled = enabled, iot_zones = zones', auto_isolate = auto_iso, isolation_mode = mode,
       trusted_macs = trusted, isolated_macs = isolated\<rparr>))))))))))))"

definition blocked_app :: "string list \<Rightarrow> pyval \<Rightarrow> string list \<Rightarrow> string list loaded" where
  "blocked_app known v acc =
     bind_result (as_str v ''blocked_apps'') (\<lambda>a.
     bind_result (require (a \<in> set known) ''unknown app'') (\<lambda>_.
     bind_result (require (a \<notin> set acc) ''listed twice'') (\<lambda>_. Inr (acc @ [a]))))"

definition parse_app_control :: "load_env \<Rightarrow> pyval \<Rightarrow> adblocker_config \<Rightarrow> xdp_sni_filter_config \<Rightarrow> app_control_config loaded" where
  "parse_app_control env raw ad xdp =
     bind_result (as_dict raw ''app_control'') (\<lambda>d.
     bind_result (bool_field d ''enabled'') (\<lambda>enabled.
     bind_result (bool_field d ''block_via_xdp'') (\<lambda>via_xdp.
     bind_result (bool_field d ''observe_sni'') (\<lambda>sni.
     bind_result (list_field d ''blocked_apps'') (\<lambda>apps_raw.
     bind_result (fold_result (blocked_app (known_app_ids (app_catalog env))) apps_raw []) (\<lambda>apps.
     bind_result (require (\<not> (enabled \<and> apps \<noteq> [] \<and> \<not> (adblock_enabled ad \<and> serve_lan ad))) ''needs the resolver'') (\<lambda>_.
     bind_result (require (\<not> (enabled \<and> (via_xdp \<or> sni) \<and> \<not> xdp_enabled xdp)) ''requires xdp_sni_filter.enabled'') (\<lambda>_.
     Inr \<lparr>app_enabled = enabled, blocked_apps = apps, block_via_xdp = via_xdp, observe_sni = sni\<rparr>))))))))"

definition PRIVATE_TOP_LEVEL :: "string list" where
  "PRIVATE_TOP_LEVEL = [''lan'', ''home'', ''internal'', ''intranet'', ''corp'', ''private'', ''localdomain'']"

definition LOCAL_DNS_MAX_ENTRIES :: nat where "LOCAL_DNS_MAX_ENTRIES = 1024"

definition local_dns_name :: "bool \<Rightarrow> pyval \<Rightarrow> string loaded" where
  "local_dns_name dotted v =
     bind_result (as_str v ''local_dns'') (\<lambda>s.
     let name = rstrip_dots (lower (strip s)) in
     bind_result (checked (hostname (VStr name)) ''local_dns'') (\<lambda>_.
     bind_result (require (\<not> (dotted \<and> CHR ''.'' \<notin> set name)) ''needs at least two labels'') (\<lambda>_. Inr name)))"

definition parse_dns_entry :: "pyval \<times> pyval \<Rightarrow> (string, string) dict \<Rightarrow> (string, string) dict loaded" where
  "parse_dns_entry item acc =
     bind_result (local_dns_name True (fst item)) (\<lambda>name.
     bind_result (as_str (snd item) ''local_dns'') (\<lambda>s.
       case ipv4_address s of None \<Rightarrow> Inl (ConfigError ''local_dns'')
       | Some a \<Rightarrow> if map_of acc name \<noteq> None then Inl (ConfigError ''listed twice'') else Inr (AList.update name (show_ipv4 a) acc)))"

definition parse_dns_table :: "(pyval, pyval) dict \<Rightarrow> string \<Rightarrow> (string, string) dict loaded" where
  "parse_dns_table d key =
     bind_result (as_dict (value_or (get_key d key VNone) (VDict [])) key) (\<lambda>items. fold_result parse_dns_entry items [])"

definition parse_dns_domain :: "pyval \<Rightarrow> string loaded" where
  "parse_dns_domain v =
     (if \<not> truthy v then Inr []
      else bind_result (local_dns_name False v) (\<lambda>name.
           bind_result (require (CHR ''.'' \<in> set name \<or> name \<in> set PRIVATE_TOP_LEVEL) ''local_dns.domain'') (\<lambda>_. Inr name)))"

definition names_overlap :: "string \<Rightarrow> string \<Rightarrow> bool" where
  "names_overlap a b \<longleftrightarrow> a = b \<or> ends_with a (''.'' @ b) \<or> ends_with b (''.'' @ a)"

definition parse_local_dns :: "load_env \<Rightarrow> pyval \<Rightarrow> adblocker_config \<Rightarrow> app_control_config \<Rightarrow> local_dns_config loaded" where
  "parse_local_dns env raw ad app =
     bind_result (as_dict raw ''local_dns'') (\<lambda>d.
     bind_result (known_keys d [''domain'', ''hosts'', ''overrides''] ''local_dns'') (\<lambda>_.
     bind_result (parse_dns_domain (get_key d ''domain'' VNone)) (\<lambda>domain.
     bind_result (parse_dns_table d ''hosts'') (\<lambda>hosts.
     bind_result (parse_dns_table d ''overrides'') (\<lambda>over.
     bind_result (require (fst ` set hosts \<inter> fst ` set over = {}) ''both a host and an override'') (\<lambda>_.
     bind_result (require (length hosts + length over \<le> LOCAL_DNS_MAX_ENTRIES) ''at most'') (\<lambda>_.
     bind_result (require (\<not> ((hosts \<noteq> [] \<or> over \<noteq> [] \<or> domain \<noteq> []) \<and> \<not> (adblock_enabled ad \<and> serve_lan ad))) ''needs the resolver'') (\<lambda>_.
     bind_result (require (\<not> (app_enabled app \<and> blocked_apps app \<noteq> []
         \<and> list_ex (\<lambda>name. list_ex (names_overlap name) (blocking_names (blocked_apps app) (app_catalog env)))
             (map fst hosts @ map fst over @ (if domain = [] then [] else [domain])))) ''overlaps the blocked app name'') (\<lambda>_.
     Inr \<lparr>dns_domain = domain, dns_hosts = hosts, dns_overrides = over\<rparr>)))))))))"

subsection \<open>Fingerprints and metrics\<close>

definition JA4_RE :: "string \<Rightarrow> bool" where
  "JA4_RE s =
     (case split_on CHR ''_'' s of
        [a, b, c] \<Rightarrow> length a = 10 \<and> list_all2 (\<lambda>p c. p c)
            [\<lambda>c. c \<in> set ''tqd'', \<lambda>c. is_digit c \<or> c \<in> set ''ds'', \<lambda>c. is_digit c \<or> c = CHR ''d'', \<lambda>c. c \<in> set ''di'',
             is_digit, is_digit, is_digit, is_digit, \<lambda>c. is_digit c \<or> is_lower c, \<lambda>c. is_digit c \<or> is_lower c] a
          \<and> length b = 12 \<and> list_all is_hex_lower b \<and> length c = 12 \<and> list_all is_hex_lower c
      | _ \<Rightarrow> False)"

definition JA3_RE :: "string \<Rightarrow> bool" where
  "JA3_RE s \<longleftrightarrow> length s = 32 \<and> list_all is_hex_lower s"

definition parse_fingerprint :: "pyval \<Rightarrow> tls_fingerprint_entry list \<Rightarrow> tls_fingerprint_entry list loaded" where
  "parse_fingerprint v acc =
     bind_result (as_dict (case v of VStr s \<Rightarrow> VDict [(VStr ''fingerprint'', v)] | _ \<Rightarrow> v) ''blocklist'') (\<lambda>body.
     bind_result (as_str (get_key body ''fingerprint'' VNone) ''fingerprint'') (\<lambda>s.
     let fp = lower (strip s) in
     bind_result (require (JA4_RE fp \<or> JA3_RE fp) ''fingerprint'') (\<lambda>_.
     bind_result (require (fp \<notin> fingerprint ` set acc) ''listed twice'') (\<lambda>_.
     bind_result (as_str (get_key body ''label'' (VStr [])) ''label'') (\<lambda>label.
     bind_result (require (length label \<le> 80) ''label'') (\<lambda>_.
     Inr (acc @ [\<lparr>fingerprint = fp, fp_label = label\<rparr>])))))))"

definition parse_tls_fingerprint :: "pyval \<Rightarrow> xdp_sni_filter_config \<Rightarrow> tls_fingerprint_config loaded" where
  "parse_tls_fingerprint raw xdp =
     bind_result (as_dict raw ''tls_fingerprint'') (\<lambda>d.
     bind_result (bool_field d ''enabled'') (\<lambda>enabled.
     bind_result (bool_field d ''quarantine_on_match'') (\<lambda>quarantine.
     bind_result (list_field d ''blocklist'') (\<lambda>block_raw.
     bind_result (fold_result parse_fingerprint block_raw []) (\<lambda>block.
     bind_result (require (\<not> (enabled \<and> \<not> xdp_enabled xdp)) ''requires xdp_sni_filter.enabled'') (\<lambda>_.
     Inr \<lparr>tls_fp_enabled = enabled, tls_fp_blocklist = block, quarantine_on_match = quarantine\<rparr>))))))"

definition site_re :: "string \<Rightarrow> bool" where
  "site_re = head_tail (\<lambda>c. is_lower c \<or> is_digit c) (\<lambda>c. is_lower c \<or> is_digit c \<or> c \<in> set ''_.-'') 62"

definition TOKEN_SHA256_RE :: "string \<Rightarrow> bool" where
  "TOKEN_SHA256_RE s \<longleftrightarrow> length s = 64 \<and> list_all is_hex_lower s"

definition text_matching :: "(string \<Rightarrow> bool) \<Rightarrow> string \<Rightarrow> pyval \<Rightarrow> string loaded" where
  "text_matching re what v = bind_result (as_str v what) (\<lambda>s. if re s then Inr s else Inl (ConfigError what))"

definition parse_metrics :: "pyval \<Rightarrow> metrics_config loaded" where
  "parse_metrics raw =
     bind_result (as_dict raw ''metrics'') (\<lambda>d.
     bind_result (optional (get_key d ''site'' VNone) (text_matching site_re ''metrics.site'')) (\<lambda>site.
     bind_result (optional (get_key d ''token_sha256'' VNone) (text_matching TOKEN_SHA256_RE ''metrics.token_sha256'')) (\<lambda>token.
     Inr \<lparr>metrics_site = site, token_sha256 = token\<rparr>)))"

subsection \<open>IPv6\<close>

definition v6_prefix :: "int \<Rightarrow> nat \<Rightarrow> ip_network" where
  "v6_prefix hi16 len = \<lparr>net_family = V6, net_address = hi16 * 2 ^ 112, net_prefixlen = len\<rparr>"

definition ULA_LOCAL :: ip_network where "ULA_LOCAL = v6_prefix 0xfd00 8"
definition GLOBAL_UNICAST :: ip_network where "GLOBAL_UNICAST = v6_prefix 0x2000 3"
definition ULA :: ip_network where "ULA = v6_prefix 0xfc00 7"
definition LINK_LOCAL :: ip_network where "LINK_LOCAL = v6_prefix 0xfe80 10"
definition MULTICAST :: ip_network where "MULTICAST = v6_prefix 0xff00 8"

text \<open>\<open>IPv6Network(text)\<close> that has no scope.\<close>

definition unscoped :: "('a \<times> bool) option \<Rightarrow> 'a option" where
  "unscoped r = (case r of Some (x, scoped) \<Rightarrow> if scoped then None else Some x | None \<Rightarrow> None)"

definition parse_ula_prefix :: "load_env \<Rightarrow> pyval \<Rightarrow> ip_network loaded" where
  "parse_ula_prefix env v =
     bind_result (as_str v ''ipv6.ula_prefix'') (\<lambda>s.
       case unscoped (ipv6_network_of env True s) of None \<Rightarrow> Inl (ConfigError ''ipv6.ula_prefix'')
       | Some net \<Rightarrow>
           bind_result (require (net_prefixlen net = 48 \<and> subnet_of net ULA_LOCAL) ''ipv6.ula_prefix'') (\<lambda>_.
           bind_result (require (net \<noteq> v6_prefix 0xfd00 48) ''ipv6.ula_prefix'') (\<lambda>_. Inr net)))"

definition PINHOLE_MAX_PORTS :: nat where "PINHOLE_MAX_PORTS = 1000"
definition RESERVED_IID_FROM :: int where "RESERVED_IID_FROM = 0xfdffffffffffff80"

definition pinhole_host :: "load_env \<Rightarrow> pyval \<Rightarrow> int loaded" where
  "pinhole_host env v =
     bind_result (as_str v ''host'') (\<lambda>s.
       case unscoped (ipv6_address_of env s) of None \<Rightarrow> Inl (ConfigError ''host'')
       | Some a \<Rightarrow>
           (let iid = a mod 2 ^ 64 in
            bind_result (require (iid \<noteq> 0) ''anycast'') (\<lambda>_.
            bind_result (require (iid \<noteq> 1) ''the router itself'') (\<lambda>_.
            bind_result (require (iid < RESERVED_IID_FROM) ''reserved'') (\<lambda>_.
            bind_result (require (\<not> (a div 2 ^ 64 \<noteq> 0 \<and> \<not> (in_network V6 a GLOBAL_UNICAST \<and> \<not> in_network V6 a ULA))) ''global unicast'') (\<lambda>_.
            Inr a))))))"

definition pinhole_source :: "load_env \<Rightarrow> pyval \<Rightarrow> ip_network loaded" where
  "pinhole_source env v =
     bind_result (as_str v ''from'') (\<lambda>s.
       case unscoped (ipv6_network_of env False s) of None \<Rightarrow> Inl (ConfigError ''from'')
       | Some net \<Rightarrow>
           bind_result (require (\<not> (net_overlaps net ULA \<or> subnet_of net LINK_LOCAL \<or> subnet_of net MULTICAST)) ''from'') (\<lambda>_. Inr net))"

definition drops_pinhole :: "ipv6_pinhole \<Rightarrow> string list \<Rightarrow> rule \<Rightarrow> bool" where
  "drops_pinhole p facing r \<longleftrightarrow>
     \<not> (action r = ACCEPT \<or> to_zone r = Some SELF_ZONE) \<and> V6 \<in> set (families r)
     \<and> (case from_zone r of None \<Rightarrow> True | Some z \<Rightarrow> z \<in> set facing)
     \<and> to_zone r \<in> {None, Some (pin_zone p)} \<and> proto r \<in> {ANY, pin_proto p}
     \<and> (case dst_port r of None \<Rightarrow> True | Some s \<Rightarrow> \<not> (snd (ports s) < port_from p \<or> fst (ports s) > port_to p))"

definition rule_dropping_pinhole :: "ipv6_pinhole \<Rightarrow> string list \<Rightarrow> rule list \<Rightarrow> string option" where
  "rule_dropping_pinhole p facing rs = map_option rule_name (find (drops_pinhole p facing) rs)"

definition parse_pinhole :: "load_env \<Rightarrow> bool \<Rightarrow> (string, zone) dict \<Rightarrow> string list \<Rightarrow> rule list \<Rightarrow> pyval \<Rightarrow> ipv6_pinhole list \<Rightarrow> ipv6_pinhole list loaded" where
  "parse_pinhole env enabled zs facing rs v acc =
     bind_result (as_dict v ''ipv6.pinholes'') (\<lambda>body.
     bind_result (require_name (get_key body ''name'' VNone) ''ipv6.pinholes'') (\<lambda>name.
     bind_result (known_keys body [''name'', ''zone'', ''host'', ''proto'', ''port'', ''from''] ''ipv6.pinholes'') (\<lambda>_.
     bind_result (require (name \<notin> pin_name ` set acc) ''named twice'') (\<lambda>_.
     bind_result (as_str (get_key body ''zone'' VNone) ''zone'') (\<lambda>z.
     bind_result (require (\<not> (enabled \<and> (map_of zs z = None \<or> z \<in> set facing))) ''zone'') (\<lambda>_.
     bind_result (pinhole_host env (get_key body ''host'' VNone)) (\<lambda>host.
     bind_result (proto_of (get_key body ''proto'' VNone)) (\<lambda>p.
     bind_result (require (p = TCP \<or> p = UDP) ''proto'') (\<lambda>_.
     bind_result (require (get_key body ''port'' VNone \<noteq> VNone) ''port'') (\<lambda>_.
     bind_result (port_of (get_key body ''port'' VNone) ''port'') (\<lambda>spec.
     bind_result (require (snd (ports spec) - fst (ports spec) + 1 \<le> PINHOLE_MAX_PORTS) ''port'') (\<lambda>_.
     bind_result (optional (get_key body ''from'' VNone) (pinhole_source env)) (\<lambda>src.
     let pin = \<lparr>pin_name = name, pin_zone = z, pin_host = host, pin_proto = p, port_from = fst (ports spec), port_to = snd (ports spec),
                pin_source = src\<rparr> in
     bind_result (require (rule_dropping_pinhole pin facing rs = None) ''a rule drops this traffic'') (\<lambda>_.
     Inr (acc @ [pin])))))))))))))))"

definition parse_pinholes :: "load_env \<Rightarrow> pyval \<Rightarrow> bool \<Rightarrow> (string, zone) dict \<Rightarrow> string list \<Rightarrow> rule list \<Rightarrow> ipv6_pinhole list loaded" where
  "parse_pinholes env raw enabled zs facing rs =
     (if raw = VNone then Inr []
      else bind_result (as_list raw ''ipv6.pinholes'') (\<lambda>bodies. fold_result (parse_pinhole env enabled zs facing rs) bodies []))"

definition check_lan_zone :: "(string, zone) dict \<Rightarrow> string list \<Rightarrow> (string, interface) dict \<Rightarrow> (string, string) dict \<Rightarrow> string \<Rightarrow> unit \<Rightarrow> unit loaded" where
  "check_lan_zone zs facing ifs excluded z u =
     bind_result (require (map_of zs z \<noteq> None) ''unknown zone'') (\<lambda>_.
     bind_result (require (z \<notin> set facing) ''faces the internet'') (\<lambda>_.
     bind_result (require (z \<in> if_zone ` snd ` set ifs) ''has no interface'') (\<lambda>_.
     require (map_of excluded z = None) ''can't have IPv6'')))"

definition parse_lan_zones :: "pyval \<Rightarrow> bool \<Rightarrow> (string, interface) dict \<Rightarrow> (string, zone) dict \<Rightarrow> nat_config \<Rightarrow> rule list \<Rightarrow> string list loaded" where
  "parse_lan_zones v enabled ifs zs n rs =
     bind_result (as_list v ''ipv6.lan_zones'') (\<lambda>vs.
     bind_result (read_all (\<lambda>v. as_str v ''ipv6.lan_zones'') vs) (\<lambda>names.
     bind_result (require (distinct names) ''names a zone more than once'') (\<lambda>_.
     bind_result (fold_result (check_lan_zone zs (internet_facing_zones zs n) ifs (if enabled then ipv6_lan_exclusions zs n rs else [])) names ()) (\<lambda>_.
     Inr names))))"

definition parse_ipv6 :: "load_env \<Rightarrow> pyval \<Rightarrow> (string, interface) dict \<Rightarrow> (string, zone) dict \<Rightarrow> nat_config \<Rightarrow> rule list \<Rightarrow> ipv6_config loaded" where
  "parse_ipv6 env raw ifs zs n rs =
     bind_result (as_dict raw ''ipv6'') (\<lambda>d.
     bind_result (known_keys d [''enabled'', ''lan_zones'', ''ula_prefix'', ''pinholes''] ''ipv6'') (\<lambda>_.
     bind_result (bool_field d ''enabled'') (\<lambda>enabled.
     bind_result (optional (get_key d ''lan_zones'' VNone) (\<lambda>v. parse_lan_zones v enabled ifs zs n rs)) (\<lambda>lan.
     bind_result (require (\<not> (enabled \<and> \<not> list_ex (\<lambda>(_, i). if_zone i \<in> set (internet_facing_zones zs n)) ifs)) ''an internet-facing interface'') (\<lambda>_.
     bind_result (optional (get_key d ''ula_prefix'' VNone) (parse_ula_prefix env)) (\<lambda>ula.
     bind_result (parse_pinholes env (get_key d ''pinholes'' (VList [])) enabled zs (internet_facing_zones zs n) rs) (\<lambda>pins.
     Inr \<lparr>ipv6_enabled = enabled, lan_zones = lan, ula_prefix = ula, pinholes = pins\<rparr>)))))))"

text \<open>The zones the delegated prefix goes to, before there is a configuration to read them from.\<close>

definition loaded_lan_zones :: "ipv6_config \<Rightarrow> (string, interface) dict \<Rightarrow> (string, zone) dict \<Rightarrow> nat_config \<Rightarrow> rule list \<Rightarrow> string list" where
  "loaded_lan_zones v6 ifs zs n rs =
     (if \<not> ipv6_enabled v6 then []
      else case lan_zones v6 of Some z \<Rightarrow> z
        | None \<Rightarrow> filter (\<lambda>z. z \<notin> set (internet_facing_zones zs n) \<and> z \<in> if_zone ` snd ` set ifs
            \<and> z \<notin> fst ` set (ipv6_lan_exclusions zs n rs)) (map fst zs))"

definition MANAGEMENT_PORT_LIST :: "nat list" where "MANAGEMENT_PORT_LIST = [22, 443]"

definition managed_zones :: "management_config \<Rightarrow> (string, zone) dict \<Rightarrow> nat_config \<Rightarrow> string list" where
  "managed_zones m zs n =
     (if mgmt_zones m \<noteq> [] then mgmt_zones m else if allow_wan m then map fst zs
      else filter (\<lambda>z. z \<notin> set (internet_facing_zones zs n)) (map fst zs))"

definition ipv4_only_management_rule :: "string set \<Rightarrow> rule \<Rightarrow> bool" where
  "ipv4_only_management_rule over_ipv6 r \<longleftrightarrow>
     action r \<noteq> ACCEPT \<and> to_zone r = Some SELF_ZONE \<and> ipv4_addresses_only r
     \<and> (case from_zone r of None \<Rightarrow> True | Some z \<Rightarrow> z \<in> over_ipv6) \<and> proto r \<in> {ANY, TCP}
     \<and> (case dst_port r of None \<Rightarrow> True | Some s \<Rightarrow> list_ex (\<lambda>p. fst (ports s) \<le> p \<and> p \<le> snd (ports s)) MANAGEMENT_PORT_LIST)"

definition check_management_ipv6 :: "management_config \<Rightarrow> ipv6_config \<Rightarrow> (string, interface) dict \<Rightarrow> (string, zone) dict \<Rightarrow>
    nat_config \<Rightarrow> rule list \<Rightarrow> unit loaded" where
  "check_management_ipv6 m v6 ifs zs n rs =
     (if \<not> (mgmt_ipv6 m \<and> ipv6_enabled v6) then Inr ()
      else require (\<not> list_ex (ipv4_only_management_rule (set (managed_zones m zs n) \<inter> set (loaded_lan_zones v6 ifs zs n rs))) rs) ''management.ipv6'')"

subsection \<open>The whole configuration\<close>

text \<open>Python's \<open>==\<close> lets \<open>true\<close> pass for 1 (and 1.0, a float, which these values do not carry).\<close>

definition parse_version :: "pyval \<Rightarrow> int loaded" where
  "parse_version v = (if v = VInt 1 \<or> v = VBool True then Inr 1 else Inl (ConfigError ''version''))"

definition parse_timezone :: "load_env \<Rightarrow> pyval \<Rightarrow> string option loaded" where
  "parse_timezone env v = optional v (text_matching (timezone_ok env) ''timezone'')"

definition config_section :: "(pyval, pyval) dict \<Rightarrow> string \<Rightarrow> pyval" where
  "config_section d key = value_or (get_key d key (VDict [])) (VDict [])"

definition parse_config :: "load_env \<Rightarrow> pyval \<Rightarrow> config loaded" where
  "parse_config env raw =
     bind_result (as_dict raw ''Top-level config'') (\<lambda>d.
     bind_result (parse_version (get_key d ''version'' VNone)) (\<lambda>version.
     bind_result (checked (hostname (get_key d ''hostname'' VNone)) ''hostname'') (\<lambda>host.
     bind_result (parse_timezone env (get_key d ''timezone'' VNone)) (\<lambda>tz.
     bind_result (parse_zones (get_key d ''zones'' (VDict []))) (\<lambda>zs.
     bind_result (parse_interfaces (get_key d ''interfaces'' (VDict [])) zs (tunnel_zones (get_key d ''wireguard'' VNone))) (\<lambda>ifs.
     bind_result (parse_rules env (get_key d ''rules'' (VList [])) zs tz) (\<lambda>rs.
     bind_result (parse_nat (config_section d ''nat'') zs) (\<lambda>n.
     bind_result (parse_dhcp (config_section d ''dhcp'') zs ifs) (\<lambda>pools.
     bind_result (parse_ai_ids (config_section d ''ai_ids'')) (\<lambda>ids.
     bind_result (parse_update (config_section d ''update'')) (\<lambda>upd.
     bind_result (parse_xdp_sni_filter (config_section d ''xdp_sni_filter'') ifs) (\<lambda>xdp.
     bind_result (parse_ztna (config_section d ''ztna'')) (\<lambda>zt.
     bind_result (parse_pqc (config_section d ''pqc'')) (\<lambda>pqc.
     bind_result (parse_adblocker (config_section d ''adblocker'') pools) (\<lambda>ad.
     bind_result (parse_iot (config_section d ''iot'') zs n) (\<lambda>io.
     bind_result (parse_app_control env (config_section d ''app_control'') ad xdp) (\<lambda>app.
     bind_result (parse_local_dns env (config_section d ''local_dns'') ad app) (\<lambda>dns.
     bind_result (parse_tls_fingerprint (config_section d ''tls_fingerprint'') xdp) (\<lambda>fp.
     bind_result (parse_metrics (config_section d ''metrics'')) (\<lambda>met.
     bind_result (parse_management (config_section d ''management'') zs n) (\<lambda>mg.
     bind_result (parse_wireguard env (config_section d ''wireguard'') zs n ifs) (\<lambda>wg.
     bind_result (check_management_addresses mg zs n ifs wg) (\<lambda>_.
     bind_result (parse_logging (config_section d ''logging'')) (\<lambda>lg.
     bind_result (parse_ipv6 env (config_section d ''ipv6'') ifs zs n rs) (\<lambda>v6.
     bind_result (check_management_ipv6 mg v6 ifs zs n rs) (\<lambda>_.
     Inr \<lparr>cfg_version = version, cfg_hostname = host, interfaces = ifs, zones = zs, rules = rs, nat_cfg = n, dhcp_zones = pools,
       ai_ids = ids, update_cfg = upd, xdp_sni_filter = xdp, ztna = zt, pqc_enabled = pqc, adblocker = ad, local_dns = dns, ipv6 = v6,
       iot = io, app_control = app, tls_fingerprint = fp, metrics = met, management = mg, wireguard = wg, logging = lg,
       timezone = tz\<rparr>))))))))))))))))))))))))))"

subsection \<open>Accepted sections\<close>

lemma as_str_iff: "as_str v what = Inr s \<longleftrightarrow> v = VStr s"
  by (auto simp: as_str_def split: pyval.splits)

lemma optional_iff: "optional v f = Inr r \<longleftrightarrow> (if v = VNone then r = None else \<exists>x. f v = Inr x \<and> r = Some x)"
  by (auto simp: optional_def)

lemma read_all_iff: "read_all f vs = Inr xs \<longleftrightarrow> list_all2 (\<lambda>v x. f v = Inr x) vs xs"
proof -
  have "fold_result (\<lambda>v acc. bind_result (f v) (\<lambda>x. Inr (acc @ [x]))) vs acc = Inr ys
      \<longleftrightarrow> (\<exists>xs. ys = acc @ xs \<and> list_all2 (\<lambda>v x. f v = Inr x) vs xs)" for acc ys
    by (induction vs arbitrary: acc) (auto simp: list_all2_Cons1)
  from this [of "[]" xs] show ?thesis by (simp add: read_all_def)
qed

lemma read_new_mem:
  assumes "read_new f vs = Inr xs"
  shows "distinct xs \<and> (\<forall>x\<in>set xs. \<exists>v\<in>set vs. f v = Inr x)"
  by (rule fold_result_invariant [OF assms [unfolded read_new_def]]) (auto split: if_splits)

lemma distinct_update:
  "distinct (map (g \<circ> snd) d) \<Longrightarrow> g x \<notin> (g \<circ> snd) ` set d \<Longrightarrow> distinct (map (g \<circ> snd) (AList.update k x d))
     \<and> (g \<circ> snd) ` set (AList.update k x d) \<subseteq> insert (g x) ((g \<circ> snd) ` set d)"
  by (induction d) auto

lemma parse_interfaces_devices:
  assumes "parse_interfaces raw zs tz = Inr ifs"
  shows "distinct (map (if_device \<circ> snd) ifs)"
proof -
  obtain items where items: "fold_result (parse_interface zs) items [] = Inr ifs" using assms by (auto simp: parse_interfaces_def)
  show ?thesis
  proof (rule fold_result_invariant [OF items])
    fix x acc acc'
    assume ok: "distinct (map (if_device \<circ> snd) acc)" and "parse_interface zs x acc = Inr acc'"
    then obtain n d z a desc par vid where 1: "d \<notin> (if_device \<circ> snd) ` set acc" and
      2: "AList.update n \<lparr>if_name = n, if_device = d, if_zone = z, if_address = a, if_description = desc, vlan_parent = par, vlan_id = vid\<rparr> acc = acc'"
      unfolding parse_interface_def bind_result_Inr_iff require_iff sum.inject split_paired_Ex prod.case
      by (elim exE conjE) (rule that; assumption)
    from distinct_update [OF ok, of "\<lparr>if_name = n, if_device = d, if_zone = z, if_address = a, if_description = desc, vlan_parent = par, vlan_id = vid\<rparr>" n] 1 2
    show "distinct (map (if_device \<circ> snd) acc')" by simp
  qed simp
qed

definition reservations_ok :: "ip_network \<Rightarrow> int \<Rightarrow> dhcp_reservation list \<Rightarrow> bool" where
  "reservations_ok net gateway rs \<longleftrightarrow> distinct (map res_mac_address rs) \<and> distinct (map res_address rs)
     \<and> (\<forall>r\<in>set rs. \<exists>a. res_address r = show_ipv4 a \<and> in_network V4 a net \<and> a \<noteq> gateway)"

definition pool_ok :: "(string, interface) dict \<Rightarrow> string \<Rightarrow> dhcp_pool \<Rightarrow> bool" where
  "pool_ok ifs z p \<longleftrightarrow> (\<exists>own lo hi. pool_interface ifs z = Inr own \<and> range_start p = show_ipv4 lo \<and> range_end p = show_ipv4 hi
     \<and> lo \<le> hi \<and> in_network V4 lo (interface_network own) \<and> in_network V4 hi (interface_network own)
     \<and> fst own \<notin> {lo, hi} \<and> dns_servers p \<noteq> [] \<and> 0 < lease_time p
     \<and> reservations_ok (interface_network own) (fst own) (reservations p))"

lemma pool_address_ok: "pool_address net gw what v = Inr a \<Longrightarrow> in_network V4 a net \<and> a \<noteq> gw"
  by (auto simp: pool_address_def split: option.splits)

lemma parse_reservations_ok:
  assumes "fold_result (parse_reservation net gw) vs [] = Inr rs"
  shows "reservations_ok net gw rs"
proof (rule fold_result_invariant [OF assms])
  fix v acc acc'
  assume ok: "reservations_ok net gw acc" and "parse_reservation net gw v acc = Inr acc'"
  then obtain mac a w host where new: "mac \<notin> res_mac_address ` set acc" "pool_address net gw ''reservations'' w = Inr a" "show_ipv4 a \<notin> res_address ` set acc"
    "acc @ [\<lparr>res_mac_address = mac, res_address = show_ipv4 a, res_hostname = host\<rparr>] = acc'"
    unfolding parse_reservation_def bind_result_Inr_iff require_iff sum.inject by (elim exE conjE) (rule that; assumption)
  with ok pool_address_ok [OF new(2)] show "reservations_ok net gw acc'" by (auto simp: reservations_ok_def) blast
qed (simp add: reservations_ok_def)

lemma parse_lease_time_ok: "parse_lease_time v = Inr t \<Longrightarrow> 0 < t"
  by (auto simp: parse_lease_time_def as_int_iff split: if_splits)

lemma parse_pool_ok:
  assumes "parse_pool zs ifs item acc = Inr acc'"
  obtains z p where "pool_ok ifs z p" and "map_of zs z \<noteq> None" and "acc' = AList.update z p acc"
proof -
  obtain z own lo hi dns lease res v1 v2 v3 dr rr where
    1: "map_of zs z \<noteq> None" "pool_interface ifs z = Inr own" and
    2: "pool_address (interface_network own) (fst own) ''range_start'' v1 = Inr lo"
      "pool_address (interface_network own) (fst own) ''range_end'' v2 = Inr hi" "lo \<le> hi" and
    3: "dr \<noteq> []" "read_all dns_address dr = Inr dns" "parse_lease_time v3 = Inr lease"
      "fold_result (parse_reservation (interface_network own) (fst own)) rr [] = Inr res" and
    4: "AList.update z \<lparr>pool_zone = z, range_start = show_ipv4 lo, range_end = show_ipv4 hi, dns_servers = dns,
            lease_time = lease, reservations = res\<rparr> acc = acc'"
    using assms unfolding parse_pool_def Let_def bind_result_Inr_iff require_iff sum.inject by (elim exE conjE) (rule that; assumption)
  have "dns \<noteq> []" using 3(1,2) by (auto simp: read_all_iff)
  then have "pool_ok ifs z \<lparr>pool_zone = z, range_start = show_ipv4 lo, range_end = show_ipv4 hi, dns_servers = dns,
            lease_time = lease, reservations = res\<rparr>"
    unfolding pool_ok_def using 1(2) pool_address_ok [OF 2(1)] pool_address_ok [OF 2(2)] 2(3) parse_lease_time_ok [OF 3(3)]
      parse_reservations_ok [OF 3(4)] by auto
  then show thesis by (rule that [OF _ 1(1) 4 [symmetric]])
qed

lemma parse_dhcp_ok:
  assumes "parse_dhcp raw zs ifs = Inr pools"
  shows "\<forall>(z, p)\<in>set pools. pool_ok ifs z p \<and> map_of zs z \<noteq> None"
proof -
  obtain items where items: "fold_result (parse_pool zs ifs) items [] = Inr pools" using assms by (auto simp: parse_dhcp_def)
  show ?thesis
  proof (rule fold_result_invariant [OF items])
    fix x acc acc'
    assume ok: "\<forall>(z, p)\<in>set acc. pool_ok ifs z p \<and> map_of zs z \<noteq> None" and "parse_pool zs ifs x acc = Inr acc'"
    then obtain z p where "pool_ok ifs z p" "map_of zs z \<noteq> None" "acc' = AList.update z p acc" by (elim parse_pool_ok)
    with ok set_AList_update [of z p acc] show "\<forall>(z, p)\<in>set acc'. pool_ok ifs z p \<and> map_of zs z \<noteq> None" by auto
  qed simp
qed

subsection \<open>Accepted IPv6 settings\<close>

lemma parse_lan_zones_ok:
  assumes "parse_lan_zones v enabled ifs zs n rs = Inr names" and "z \<in> set names"
  shows "map_of zs z \<noteq> None \<and> z \<notin> set (internet_facing_zones zs n) \<and> z \<in> if_zone ` snd ` set ifs"
proof -
  have all: "fold_result f xs u = Inr u' \<Longrightarrow> x \<in> set xs \<Longrightarrow> \<exists>u u'. f x u = Inr u'" for f :: "string \<Rightarrow> unit \<Rightarrow> unit loaded" and xs u u' x
    by (induction xs arbitrary: u) auto
  obtain ex where "fold_result (check_lan_zone zs (internet_facing_zones zs n) ifs ex) names () = Inr ()"
    using assms(1) by (auto simp: parse_lan_zones_def)
  from all [OF this assms(2)] show ?thesis by (auto simp: check_lan_zone_def)
qed

definition lan_zone_ok :: "config \<Rightarrow> string \<Rightarrow> bool" where
  "lan_zone_ok cfg z \<longleftrightarrow> z \<in> fst ` set (zones cfg) \<and> z \<notin> set (internet_zones cfg) \<and> z \<in> if_zone ` snd ` set (interfaces cfg)"

lemma lan_zones_ok:
  assumes "parse_ipv6 env raw (interfaces cfg) (zones cfg) (nat_cfg cfg) (rules cfg) = Inr (ipv6 cfg)" and "z \<in> set (ipv6_lan_zones cfg)"
  shows "lan_zone_ok cfg z"
proof (cases "lan_zones (ipv6 cfg)")
  case None
  with assms(2) show ?thesis by (force simp: ipv6_lan_zones_def lan_zone_ok_def split: if_splits)
next
  case (Some names)
  obtain enabled lan v ula pins where 1: "optional v (\<lambda>v. parse_lan_zones v enabled (interfaces cfg) (zones cfg) (nat_cfg cfg) (rules cfg)) = Inr lan"
    and 2: "\<lparr>ipv6_enabled = enabled, lan_zones = lan, ula_prefix = ula, pinholes = pins\<rparr> = ipv6 cfg"
    using assms(1) unfolding parse_ipv6_def bind_result_Inr_iff sum.inject by (elim exE conjE) (rule that; assumption)
  from 2 Some have "lan = Some names" by (metis ipv6_config.select_convs(2))
  with 1 obtain w where "parse_lan_zones w enabled (interfaces cfg) (zones cfg) (nat_cfg cfg) (rules cfg) = Inr names"
    by (auto simp: optional_iff split: if_splits)
  moreover from Some assms(2) have "z \<in> set names" by (auto simp: ipv6_lan_zones_def split: if_splits)
  ultimately show ?thesis using parse_lan_zones_ok by (fastforce simp: lan_zone_ok_def internet_zones_def map_of_eq_None_iff)
qed

definition pinhole_ok :: "config \<Rightarrow> ipv6_pinhole \<Rightarrow> bool" where
  "pinhole_ok cfg p \<longleftrightarrow>
     (ipv6_enabled (ipv6 cfg) \<longrightarrow> pin_zone p \<in> fst ` set (zones cfg) \<and> pin_zone p \<notin> set (internet_zones cfg))
     \<and> 1 \<le> port_from p \<and> port_from p \<le> port_to p \<and> port_to p \<le> 65535 \<and> port_to p - port_from p < PINHOLE_MAX_PORTS
     \<and> (pin_proto p = TCP \<or> pin_proto p = UDP) \<and> pin_host p mod 2 ^ 64 \<notin> {0, 1} \<and> (is_suffix p \<or> in_network V6 (pin_host p) GLOBAL_UNICAST)
     \<and> (\<forall>r\<in>set (rules cfg). \<not> drops_pinhole p (internet_zones cfg) r)"

lemma pinhole_host_ok:
  "pinhole_host env v = Inr a \<Longrightarrow> a mod 2 ^ 64 \<notin> {0, 1} \<and> (a div 2 ^ 64 = 0 \<or> in_network V6 a GLOBAL_UNICAST)"
  by (auto simp: pinhole_host_def Let_def split: option.splits)

lemma port_bounds_ok: "port_range_ok s \<Longrightarrow> 1 \<le> fst (ports s) \<and> fst (ports s) \<le> snd (ports s) \<and> snd (ports s) \<le> 65535"
  by (cases s) (auto simp: port_range_ok_def)

lemma parse_pinhole_ok:
  assumes "parse_pinhole env (ipv6_enabled (ipv6 cfg)) (zones cfg) (internet_zones cfg) (rules cfg) v acc = Inr acc'"
  obtains p where "acc' = acc @ [p]" and "pinhole_ok cfg p" and "pin_name p \<notin> pin_name ` set acc"
proof -
  obtain name z host p spec src w1 w2 where
    1: "name \<notin> pin_name ` set acc" "\<not> (ipv6_enabled (ipv6 cfg) \<and> (map_of (zones cfg) z = None \<or> z \<in> set (internet_zones cfg)))" and
    2: "pinhole_host env w1 = Inr host" "p = TCP \<or> p = UDP" "port_of w2 ''port'' = Inr spec"
      "snd (ports spec) - fst (ports spec) + 1 \<le> PINHOLE_MAX_PORTS" and
    3: "rule_dropping_pinhole \<lparr>pin_name = name, pin_zone = z, pin_host = host, pin_proto = p, port_from = fst (ports spec),
          port_to = snd (ports spec), pin_source = src\<rparr> (internet_zones cfg) (rules cfg) = None" and
    4: "acc @ [\<lparr>pin_name = name, pin_zone = z, pin_host = host, pin_proto = p, port_from = fst (ports spec), port_to = snd (ports spec),
          pin_source = src\<rparr>] = acc'"
    using assms unfolding parse_pinhole_def Let_def bind_result_Inr_iff require_iff sum.inject by (elim exE conjE) (rule that; assumption)
  let ?p = "\<lparr>pin_name = name, pin_zone = z, pin_host = host, pin_proto = p, port_from = fst (ports spec), port_to = snd (ports spec), pin_source = src\<rparr>"
  have "\<forall>r\<in>set (rules cfg). \<not> drops_pinhole ?p (internet_zones cfg) r"
    using 3 by (auto simp: rule_dropping_pinhole_def find_None_iff)
  then have "pinhole_ok cfg ?p"
    using 1(2) 2(2,4) pinhole_host_ok [OF 2(1)] port_bounds_ok [OF port_of_ok [OF 2(3)]]
    by (auto simp: pinhole_ok_def is_suffix_def map_of_eq_None_iff)
  then show thesis using that [of ?p] 4 1(1) by simp
qed

lemma pinholes_ok:
  assumes "parse_ipv6 env raw (interfaces cfg) (zones cfg) (nat_cfg cfg) (rules cfg) = Inr (ipv6 cfg)"
  shows "list_all (pinhole_ok cfg) (pinholes (ipv6 cfg)) \<and> distinct (map pin_name (pinholes (ipv6 cfg)))"
proof -
  obtain enabled lan v ula pins where
    1: "parse_pinholes env v enabled (zones cfg) (internet_facing_zones (zones cfg) (nat_cfg cfg)) (rules cfg) = Inr pins"
    and 2: "\<lparr>ipv6_enabled = enabled, lan_zones = lan, ula_prefix = ula, pinholes = pins\<rparr> = ipv6 cfg"
    using assms(1) unfolding parse_ipv6_def bind_result_Inr_iff sum.inject by (elim exE conjE) (rule that; assumption)
  have en: "enabled = ipv6_enabled (ipv6 cfg)" and pins: "pins = pinholes (ipv6 cfg)" by (simp_all add: 2 [symmetric])
  show ?thesis
  proof (cases "v = VNone")
    case True
    with 1 pins show ?thesis by (simp add: parse_pinholes_def)
  next
    case False
    with 1 obtain bodies where
      "fold_result (parse_pinhole env (ipv6_enabled (ipv6 cfg)) (zones cfg) (internet_zones cfg) (rules cfg)) bodies [] = Inr (pinholes (ipv6 cfg))"
      by (auto simp: parse_pinholes_def en pins internet_zones_def)
    then show ?thesis by (rule fold_result_invariant) (auto elim!: parse_pinhole_ok)
  qed
qed

subsection \<open>Accepted isolation settings\<close>

definition iot_ok :: "config \<Rightarrow> bool" where
  "iot_ok cfg \<longleftrightarrow> set (iot_zones (iot cfg)) \<subseteq> fst ` set (zones cfg) - out_zone ` set (nat_masquerade (nat_cfg cfg))
     \<and> set (trusted_macs (iot cfg)) \<inter> set (isolated_macs (iot cfg)) = {}
     \<and> (iot_enabled (iot cfg) \<longrightarrow> iot_zones (iot cfg) \<noteq> [])
     \<and> (iot_enabled (iot cfg) \<and> isolation_mode (iot cfg) = INTERNET_ONLY \<longrightarrow> nat_masquerade (nat_cfg cfg) \<noteq> [])"

lemma parse_iot_ok:
  assumes "parse_iot raw (zones cfg) (nat_cfg cfg) = Inr (iot cfg)"
  shows "iot_ok cfg"
proof -
  let ?internet = "out_zone ` set (nat_masquerade (nat_cfg cfg))"
  obtain enabled zs vs ai mode tr isol where
    1: "read_new (iot_zone (zones cfg) ?internet) vs = Inr zs" "\<not> (enabled \<and> zs = [])" "\<not> (enabled \<and> mode = INTERNET_ONLY \<and> ?internet = {})"
      "set tr \<inter> set isol = {}" and
    2: "\<lparr>iot_enabled = enabled, iot_zones = zs, auto_isolate = ai, isolation_mode = mode, trusted_macs = tr, isolated_macs = isol\<rparr> = iot cfg"
    using assms unfolding parse_iot_def Let_def bind_result_Inr_iff require_iff sum.inject by (elim exE conjE) (rule that; assumption)
  have "set zs \<subseteq> fst ` set (zones cfg) - ?internet"
    using read_new_mem [OF 1(1)] by (force simp: iot_zone_def as_str_iff map_of_eq_None_iff)
  with 1 show ?thesis unfolding iot_ok_def 2 [symmetric] by auto
qed

subsection \<open>Accepted configurations\<close>

definition config_ok :: "config \<Rightarrow> bool" where
  "config_ok cfg \<longleftrightarrow>
     dict_ok (zones cfg) \<and> SELF_ZONE \<notin> fst ` set (zones cfg)
     \<and> list_all (\<lambda>(_, i). loaded_interface (zones cfg) i) (interfaces cfg) \<and> distinct (map (if_device \<circ> snd) (interfaces cfg))
     \<and> distinct (map rule_name (rules cfg)) \<and> list_all (loaded_rule (zones cfg)) (rules cfg)
     \<and> (\<forall>(z, p)\<in>set (dhcp_zones cfg). pool_ok (interfaces cfg) z p \<and> z \<in> fst ` set (zones cfg))
     \<and> list_all (lan_zone_ok cfg) (ipv6_lan_zones cfg)
     \<and> list_all (pinhole_ok cfg) (pinholes (ipv6 cfg)) \<and> distinct (map pin_name (pinholes (ipv6 cfg)))
     \<and> iot_ok cfg
     \<and> (wg_enabled (wireguard cfg) \<longrightarrow> wg_zone (wireguard cfg) \<in> fst ` set (zones cfg) - set (internet_zones cfg))
     \<and> (\<not> allow_wan (management cfg) \<longrightarrow> set (mgmt_zones (management cfg)) \<inter> set (internet_zones cfg) = {})"

lemma parse_config_sections:
  assumes "parse_config env raw = Inr cfg"
  obtains v1 v2 v3 v4 v5 v6 v7 v8 tun tz where
    "parse_zones v1 = Inr (zones cfg)" and "parse_interfaces v2 (zones cfg) tun = Inr (interfaces cfg)"
    and "parse_rules env v3 (zones cfg) tz = Inr (rules cfg)" and "parse_dhcp v4 (zones cfg) (interfaces cfg) = Inr (dhcp_zones cfg)"
    and "parse_iot v5 (zones cfg) (nat_cfg cfg) = Inr (iot cfg)" and "parse_management v6 (zones cfg) (nat_cfg cfg) = Inr (management cfg)"
    and "parse_wireguard env v7 (zones cfg) (nat_cfg cfg) (interfaces cfg) = Inr (wireguard cfg)"
    and "parse_ipv6 env v8 (interfaces cfg) (zones cfg) (nat_cfg cfg) (rules cfg) = Inr (ipv6 cfg)"
proof -
  obtain w1 w2 w3 w4 w5 w6 w7 w8 tun tz zs ifs rs pools io n mg wg v6c ver host ids upd xdp zt pqc ad dns app fp met lg where
    f: "parse_zones w1 = Inr zs" "parse_interfaces w2 zs tun = Inr ifs" "parse_rules env w3 zs tz = Inr rs" "parse_dhcp w4 zs ifs = Inr pools"
      "parse_iot w5 zs n = Inr io" "parse_management w6 zs n = Inr mg" "parse_wireguard env w7 zs n ifs = Inr wg"
      "parse_ipv6 env w8 ifs zs n rs = Inr v6c" and
    cfg: "\<lparr>cfg_version = ver, cfg_hostname = host, interfaces = ifs, zones = zs, rules = rs, nat_cfg = n, dhcp_zones = pools,
       ai_ids = ids, update_cfg = upd, xdp_sni_filter = xdp, ztna = zt, pqc_enabled = pqc, adblocker = ad, local_dns = dns, ipv6 = v6c,
       iot = io, app_control = app, tls_fingerprint = fp, metrics = met, management = mg, wireguard = wg, logging = lg,
       timezone = tz\<rparr> = cfg"
    using assms unfolding parse_config_def bind_result_Inr_iff sum.inject by (elim exE conjE) (rule that; assumption)
  have "zones cfg = zs" "interfaces cfg = ifs" "rules cfg = rs" "nat_cfg cfg = n" "dhcp_zones cfg = pools" "iot cfg = io" "management cfg = mg"
    "wireguard cfg = wg" "ipv6 cfg = v6c"
    by (simp_all add: cfg [symmetric])
  note eqs = this [symmetric]
  show thesis by (rule that) (rule f [unfolded eqs])+
qed

lemma parse_config_ok:
  assumes "parse_config env raw = Inr cfg"
  shows "config_ok cfg"
  using assms
proof (rule parse_config_sections)
  fix v1 v2 v3 v4 v5 v6 v7 v8 tun tz
  assume z: "parse_zones v1 = Inr (zones cfg)" and i: "parse_interfaces v2 (zones cfg) tun = Inr (interfaces cfg)"
    and r: "parse_rules env v3 (zones cfg) tz = Inr (rules cfg)" and d: "parse_dhcp v4 (zones cfg) (interfaces cfg) = Inr (dhcp_zones cfg)"
    and io: "parse_iot v5 (zones cfg) (nat_cfg cfg) = Inr (iot cfg)" and m: "parse_management v6 (zones cfg) (nat_cfg cfg) = Inr (management cfg)"
    and w: "parse_wireguard env v7 (zones cfg) (nat_cfg cfg) (interfaces cfg) = Inr (wireguard cfg)"
    and v6: "parse_ipv6 env v8 (interfaces cfg) (zones cfg) (nat_cfg cfg) (rules cfg) = Inr (ipv6 cfg)"
  have "SELF_ZONE \<notin> fst ` set (zones cfg)" using parse_zones_ok [OF z] by (auto simp: list_all_iff)
  moreover have "\<forall>(z, p)\<in>set (dhcp_zones cfg). pool_ok (interfaces cfg) z p \<and> z \<in> fst ` set (zones cfg)"
    using parse_dhcp_ok [OF d] by (auto simp: map_of_eq_None_iff)
  moreover have "list_all (lan_zone_ok cfg) (ipv6_lan_zones cfg)" using lan_zones_ok [OF v6] by (simp add: list_all_iff)
  moreover have "wg_enabled (wireguard cfg) \<longrightarrow> wg_zone (wireguard cfg) \<in> fst ` set (zones cfg) - set (internet_zones cfg)"
    using parse_wireguard_zone [OF w] by (simp add: map_of_eq_None_iff internet_zones_def)
  ultimately show ?thesis
    using parse_zones_ok [OF z] parse_interfaces_ok [OF i] parse_interfaces_devices [OF i] parse_rules_ok [OF r] pinholes_ok [OF v6]
      parse_iot_ok [OF io] parse_management_zones [OF m]
    by (simp add: config_ok_def internet_zones_def)
qed

text \<open>
  C29: every configuration the loader accepts (a port or lease time written \<open>true\<close> aside, which the model
  stops at) is well formed in what the other components rely on: zones with distinct names, none of them
  the reserved one; interfaces in declared zones, with safe device names, no device twice; rules with
  distinct plain names, declared zones, ports in range and only with tcp or udp, addresses of a common
  family, schedules within a week; DHCP pools on the one interface of their zone, inside its network,
  neither end of which is the gateway (which may lie in between); IPv6 only for LAN zones; pinholes of at
  most \<open>PINHOLE_MAX_PORTS\<close> ports, to a single host, that no drop rule was meant to stop; isolation zones off
  the internet; a tunnel zone that does not face it, and unless \<open>allow_wan\<close> is set no management zone that
  does.
\<close>

theorem loaded_config_ok:
  assumes "parse_config env raw = Inr cfg"
  shows "config_ok cfg"
  by (rule parse_config_ok [OF assms])

subsection \<open>A small configuration file\<close>

definition env1 :: load_env where
  "env1 = \<lparr>network_of = (\<lambda>_. None), moment_of = (\<lambda>_ _. None), base64_length = (\<lambda>_. None),
     timezone_ok = (\<lambda>_. False), ipv6_network_of = (\<lambda>_ _. None), ipv6_address_of = (\<lambda>_. None), app_catalog = []\<rparr>"

definition d1 :: "(pyval, pyval) dict" where
  "d1 = [(VStr ''version'', VInt 1), (VStr ''hostname'', VStr ''fr''),
     (VStr ''zones'', VDict [(VStr ''wan'', VNone), (VStr ''lan'', VNone)]),
     (VStr ''interfaces'', VDict [(VStr ''up'', VDict [(VStr ''device'', VStr ''eth0''), (VStr ''zone'', VStr ''wan'')]),
        (VStr ''in'', VDict [(VStr ''device'', VStr ''eth1''), (VStr ''zone'', VStr ''lan'')])]),
     (VStr ''rules'', VList [VDict [(VStr ''name'', VStr ''web''), (VStr ''action'', VStr ''accept''), (VStr ''from_zone'', VStr ''lan''),
        (VStr ''proto'', VStr ''tcp''), (VStr ''dst_port'', VStr ''80-443'')]]),
     (VStr ''nat'', VDict [(VStr ''masquerade'', VList [VDict [(VStr ''out_zone'', VStr ''wan'')]])])]"

lemmas value_simps = get_key_def as_dict_def as_list_def as_str_def as_bool_def as_int_def value_or_def truthy_def require_def optional_def
  as_items_def iterate_def bool_field_def list_field_def config_section_def text_of_def known_keys_def read_all_def read_new_def

lemma empty_sections:
  "parse_dhcp (VDict []) zs ifs = Inr []"
  "parse_ai_ids (VDict []) = Inr \<lparr>ai_ids_enabled = False, excluded_macs = [], quarantine_duration_seconds = 7200\<rparr>"
  "parse_update (VDict []) = Inr \<lparr>update_repo = [], auto_install_security = False, kernel_updates = True\<rparr>"
  "parse_xdp_sni_filter (VDict []) ifs = Inr \<lparr>xdp_enabled = False, xdp_interfaces = [], xdp_blocklist = []\<rparr>"
  "parse_ztna (VDict []) = Inr \<lparr>ztna_enabled = False, session_ttl_seconds = 28800, ztna_users = []\<rparr>"
  "parse_pqc (VDict []) = Inr False"
  "parse_adblocker (VDict []) pools = Inr \<lparr>adblock_enabled = False, source_urls = [], xdp_critical_limit = 0, adblock_categories = [],
     adblock_allowlist = [], serve_lan = False, force_dns = False, query_logging = False\<rparr>"
  "parse_iot (VDict []) zs n = Inr \<lparr>iot_enabled = False, iot_zones = [], auto_isolate = False, isolation_mode = INTERNET_ONLY,
     trusted_macs = [], isolated_macs = []\<rparr>"
  "parse_app_control env (VDict []) ad xdp = Inr \<lparr>app_enabled = False, blocked_apps = [], block_via_xdp = False, observe_sni = False\<rparr>"
  "parse_local_dns env (VDict []) ad \<lparr>app_enabled = False, blocked_apps = [], block_via_xdp = False, observe_sni = False\<rparr> =
     Inr \<lparr>dns_domain = [], dns_hosts = [], dns_overrides = []\<rparr>"
  "parse_tls_fingerprint (VDict []) xdp = Inr \<lparr>tls_fp_enabled = False, tls_fp_blocklist = [], quarantine_on_match = False\<rparr>"
  "parse_metrics (VDict []) = Inr \<lparr>metrics_site = None, token_sha256 = None\<rparr>"
  "parse_management (VDict []) zs n = Inr \<lparr>mgmt_zones = [], allow_wan = False, confirm_apply_seconds = 300, mgmt_addresses = [], mgmt_ipv6 = False\<rparr>"
  "parse_logging (VDict []) = Inr \<lparr>log_drops = True, drops_per_minute = 10\<rparr>"
  "parse_ipv6 env (VDict []) ifs zs n rs = Inr \<lparr>ipv6_enabled = False, lan_zones = None, ula_prefix = None, pinholes = []\<rparr>"
  "parse_wireguard env (VDict []) zs n ifs = Inr \<lparr>wg_enabled = False, wg_listen_port = 51820, wg_address = [], wg_zone = ''vpn'', wg_endpoint = [], wg_peers = []\<rparr>"
  by (simp_all add: value_simps parse_dhcp_def parse_ai_ids_def MAX_QUARANTINE_SECONDS_def parse_update_def parse_xdp_sni_filter_def parse_ztna_def
    ZTNA_MIN_TTL_SECONDS_def ZTNA_MAX_TTL_SECONDS_def parse_pqc_def parse_adblocker_def parse_url_list_def parse_iot_def isolation_mode_of_def
    parse_mac_list_def parse_app_control_def parse_local_dns_def parse_dns_domain_def parse_dns_table_def LOCAL_DNS_MAX_ENTRIES_def
    parse_tls_fingerprint_def parse_metrics_def parse_management_def CONFIRM_APPLY_DEFAULT_def CONFIRM_APPLY_MIN_def CONFIRM_APPLY_MAX_def
    parse_logging_def parse_ipv6_def parse_pinholes_def parse_wireguard_def parse_tunnel_address_def Let_def)


lemmas name_simps = require_name_def name_re_def is_lower_def is_digit_def is_upper_def is_alnum_char_def in_range_def

definition wan_lan :: "(string, zone) dict" where
  "wan_lan = [(''wan'', \<lparr>zone_name = ''wan'', zone_description = []\<rparr>), (''lan'', \<lparr>zone_name = ''lan'', zone_description = []\<rparr>)]"

lemma raw1_zones: "parse_zones (VDict [(VStr ''wan'', VNone), (VStr ''lan'', VNone)]) = Inr wan_lan"
  by (simp add: parse_zones_def parse_zone_def value_simps name_simps SELF_ZONE_def wan_lan_def)

definition up_in :: "(string, interface) dict" where
  "up_in = [(''up'', \<lparr>if_name = ''up'', if_device = ''eth0'', if_zone = ''wan'', if_address = None, if_description = [], vlan_parent = None, vlan_id = None\<rparr>),
     (''in'', \<lparr>if_name = ''in'', if_device = ''eth1'', if_zone = ''lan'', if_address = None, if_description = [], vlan_parent = None, vlan_id = None\<rparr>)]"

lemma raw1_interfaces:
  "parse_interfaces (VDict [(VStr ''up'', VDict [(VStr ''device'', VStr ''eth0''), (VStr ''zone'', VStr ''wan'')]),
        (VStr ''in'', VDict [(VStr ''device'', VStr ''eth1''), (VStr ''zone'', VStr ''lan'')])]) wan_lan [] = Inr up_in"
  by (simp add: up_in_def parse_interfaces_def parse_interface_def value_simps name_simps checked_def ifname_def check_text_def refuse_unless_def ifname_re_def
     head_tail_def parse_vlan_def wan_lan_def)

lemma raw1_rules:
  "\<exists>rs. parse_rules env1 (VList [VDict [(VStr ''name'', VStr ''web''), (VStr ''action'', VStr ''accept''), (VStr ''from_zone'', VStr ''lan''),
        (VStr ''proto'', VStr ''tcp''), (VStr ''dst_port'', VStr ''80-443'')]]) wan_lan None = Inr rs"
  by (simp add: parse_rules_def parse_rule_def value_simps name_simps action_of_def zone_ref_def proto_of_def parse_dst_port_def port_of_def
    parse_networks_def parse_mac_def SELF_ZONE_def wan_lan_def Let_def)

lemma raw1_nat:
  "parse_nat (VDict [(VStr ''masquerade'', VList [VDict [(VStr ''out_zone'', VStr ''wan'')]])]) wan_lan =
     Inr \<lparr>nat_masquerade = [\<lparr>out_zone = ''wan''\<rparr>], nat_port_forwards = []\<rparr>"
  by (simp add: parse_nat_def parse_masquerade_def named_zone_def value_simps zone_ref_def SELF_ZONE_def wan_lan_def)


lemma d1_keys:
  "get_key d1 ''version'' v = VInt 1" "get_key d1 ''hostname'' v = VStr ''fr''" "get_key d1 ''timezone'' v = v"
  "get_key d1 ''zones'' v = VDict [(VStr ''wan'', VNone), (VStr ''lan'', VNone)]"
  "get_key d1 ''interfaces'' v = VDict [(VStr ''up'', VDict [(VStr ''device'', VStr ''eth0''), (VStr ''zone'', VStr ''wan'')]),
        (VStr ''in'', VDict [(VStr ''device'', VStr ''eth1''), (VStr ''zone'', VStr ''lan'')])]"
  "get_key d1 ''rules'' v = VList [VDict [(VStr ''name'', VStr ''web''), (VStr ''action'', VStr ''accept''), (VStr ''from_zone'', VStr ''lan''),
        (VStr ''proto'', VStr ''tcp''), (VStr ''dst_port'', VStr ''80-443'')]]"
  "get_key d1 ''wireguard'' v = v"
  "config_section d1 ''nat'' = VDict [(VStr ''masquerade'', VList [VDict [(VStr ''out_zone'', VStr ''wan'')]])]"
  by (simp_all add: d1_def get_key_def config_section_def value_or_def truthy_def)

lemma d1_absent:
  "config_section d1 ''dhcp'' = VDict []" "config_section d1 ''ai_ids'' = VDict []" "config_section d1 ''update'' = VDict []" "config_section d1 ''xdp_sni_filter'' = VDict []"
  "config_section d1 ''ztna'' = VDict []" "config_section d1 ''pqc'' = VDict []" "config_section d1 ''adblocker'' = VDict []" "config_section d1 ''iot'' = VDict []"
  "config_section d1 ''app_control'' = VDict []" "config_section d1 ''local_dns'' = VDict []" "config_section d1 ''tls_fingerprint'' = VDict []" "config_section d1 ''metrics'' = VDict []"
  "config_section d1 ''management'' = VDict []" "config_section d1 ''wireguard'' = VDict []" "config_section d1 ''logging'' = VDict []" "config_section d1 ''ipv6'' = VDict []"
  by (simp_all add: d1_def config_section_def get_key_def value_or_def truthy_def)

lemma raw1_loaded:
  "\<exists>cfg. parse_config env1 (VDict d1) = Inr cfg \<and> zones cfg = wan_lan \<and> interfaces cfg = up_in
     \<and> nat_masquerade (nat_cfg cfg) = [\<lparr>out_zone = ''wan''\<rparr>] \<and> \<not> allow_wan (management cfg)"
proof -
  obtain rs where r: "parse_rules env1 (VList [VDict [(VStr ''name'', VStr ''web''), (VStr ''action'', VStr ''accept''), (VStr ''from_zone'', VStr ''lan''),
        (VStr ''proto'', VStr ''tcp''), (VStr ''dst_port'', VStr ''80-443'')]]) wan_lan None = Inr rs"
    using raw1_rules by (elim exE)
  have h: "checked (hostname (VStr ''fr'')) ''hostname'' = Inr ''fr''"
    by (simp add: checked_def hostname_def check_text_def refuse_unless_def host_label_re_def name_simps)
  have m: "check_management_addresses \<lparr>mgmt_zones = [], allow_wan = False, confirm_apply_seconds = 300, mgmt_addresses = [], mgmt_ipv6 = False\<rparr> zs n ifs wg = Inr ()"
    "check_management_ipv6 \<lparr>mgmt_zones = [], allow_wan = False, confirm_apply_seconds = 300, mgmt_addresses = [], mgmt_ipv6 = False\<rparr> v6 ifs zs n rs = Inr ()" for zs n ifs wg v6 rs
    by (simp_all add: check_management_addresses_def require_def check_management_ipv6_def Let_def)
  have b: "as_dict (VDict d1) w = Inr d1" "parse_version (VInt 1) = Inr 1" "parse_timezone env1 VNone = Inr None" "tunnel_zones VNone = []" for w
    by (simp_all add: as_dict_def parse_version_def parse_timezone_def optional_def tunnel_zones_def)
  show ?thesis
    unfolding parse_config_def b bind_result.simps d1_keys d1_absent h raw1_zones raw1_interfaces r raw1_nat empty_sections m
    by (intro exI conjI, rule refl) simp_all
qed

theorem loaded_config_ok_witness: "\<exists>cfg. parse_config env1 (VDict d1) = Inr cfg \<and> config_ok cfg"
proof -
  obtain cfg where "parse_config env1 (VDict d1) = Inr cfg" using raw1_loaded by (elim exE conjE)
  from this loaded_config_ok [OF this] show ?thesis by (intro exI conjI)
qed
end
