(* ===== verification/Accounts.thy ===== *)
theory Accounts
  imports Validate Bytes
begin

text \<open>
  The accounts of the web interface (\<open>src/src/frfw/admin_account.py\<close>) and what a password must not be
  (\<open>src/src/frfw/passwords.py\<close>).

  The account file is the state: the users and the policy.  Every change is one step under the file's
  lock.  The salted hash a call of \<open>hash_password\<close> returned is an argument of the operation that makes the
  call; scrypt, PBKDF2 and the list of common passwords are parameters (\<open>account_env\<close>).  Case is that
  of ASCII letters.  A file in the format before there were several accounts is not modelled.

  The store never loses its last admin, whatever the sequence of changes, and a generated first-boot
  account stops working with its setup.
\<close>

subsection \<open>Passwords (passwords.py)\<close>

definition MIN_LENGTH :: nat where "MIN_LENGTH = 12"

text \<open>Characters that \<open>[\d\W_]\<close> does not match: letters, and the numerals that are no decimal digits.\<close>

definition stem_char :: "char \<Rightarrow> bool" where
  "stem_char c \<longleftrightarrow> is_lower c \<or> is_upper c \<or> c \<in> {CHR 0xAA, CHR 0xB2, CHR 0xB3, CHR 0xB5, CHR 0xB9, CHR 0xBA, CHR 0xBC, CHR 0xBD, CHR 0xBE}
     \<or> in_range 0xC0 0xD6 c \<or> in_range 0xD8 0xF6 c \<or> in_range 0xF8 0xFF c"

definition password_stem :: "string \<Rightarrow> string" where
  "password_stem s = rev (dropWhile (\<lambda>c. \<not> stem_char c) (rev s))"

fun contains :: "string \<Rightarrow> string \<Rightarrow> bool" where
  "contains s [] = (s = [])"
| "contains s (c # cs) = (take (length s) (c # cs) = s \<or> contains s cs)"

definition password_problem :: "string list \<Rightarrow> string \<Rightarrow> string option \<Rightarrow> string option" where
  "password_problem common password username =
     (let lowered = lower password; stem = password_stem lowered in
      if length password < MIN_LENGTH then Some ''Password must be at least 12 characters''
      else if lowered \<in> set common \<or> 4 \<le> length stem \<and> stem \<in> set common
      then Some ''That password is one of the most common ones attackers try first -- choose another''
      else if length (remdups lowered) \<le> 2 then Some ''That password is too repetitive -- choose another''
      else case username of None \<Rightarrow> None
        | Some u \<Rightarrow> if 3 \<le> length u \<and> contains (lower u) lowered then Some ''The password must not contain the username'' else None)"

subsection \<open>Accounts\<close>

definition ROLE_ADMIN :: string where "ROLE_ADMIN = ''admin''"
definition ROLE_VIEWER :: string where "ROLE_VIEWER = ''viewer''"
definition ROLES :: "string list" where "ROLES = [ROLE_ADMIN, ROLE_VIEWER]"
definition RESERVED_USERNAMES :: "string list" where
  "RESERVED_USERNAMES = [''admin'', ''administrator'', ''root'', ''user'', ''fr_os'', ''fros'']"

record totp_factor =
  totp_secret :: string
  last_step :: int

record webauthn_key =
  key_id :: string
  public_key :: string
  sign_count :: nat
  rp_id :: string
  key_name :: string

record mfa_factors =
  mfa_totp :: "totp_factor option"
  mfa_webauthn :: "webauthn_key list"

definition no_factors :: mfa_factors where "no_factors = \<lparr>mfa_totp = None, mfa_webauthn = []\<rparr>"

record admin_account =
  acc_username :: string
  acc_password_hash :: string
  acc_role :: string
  must_change :: bool
  acc_mfa :: mfa_factors

definition has_mfa :: "admin_account \<Rightarrow> bool" where
  "has_mfa a \<longleftrightarrow> mfa_totp (acc_mfa a) \<noteq> None \<or> mfa_webauthn (acc_mfa a) \<noteq> []"

definition is_admin :: "admin_account \<Rightarrow> bool" where
  "is_admin a \<longleftrightarrow> acc_role a = ROLE_ADMIN"

definition username_re :: "string \<Rightarrow> bool" where
  "username_re = head_tail (\<lambda>c. is_lower c \<or> c = CHR ''_'') (\<lambda>c. is_lower c \<or> is_digit c \<or> c \<in> set ''_.-'') 31"

datatype account_error = AccountError string

type_synonym 'a account_result = "(account_error, 'a) result"

record account_env =
  common_passwords :: "string list"
  scrypt :: "string \<Rightarrow> bytes \<Rightarrow> int \<Rightarrow> int \<Rightarrow> int \<Rightarrow> bytes option"
  pbkdf2 :: "string \<Rightarrow> bytes \<Rightarrow> int \<Rightarrow> bytes option"

subsection \<open>Stored passwords\<close>

definition SCRYPT_ALGORITHM :: string where "SCRYPT_ALGORITHM = ''scrypt''"
definition SCRYPT_N :: int where "SCRYPT_N = 2 ^ 15"
definition SCRYPT_R :: int where "SCRYPT_R = 8"
definition SCRYPT_P :: int where "SCRYPT_P = 3"
definition SCRYPT_MIN_COST :: int where "SCRYPT_MIN_COST = SCRYPT_N * SCRYPT_R * SCRYPT_P"
definition PBKDF2_ALGORITHM :: string where "PBKDF2_ALGORITHM = ''pbkdf2_sha256''"
definition MIN_PBKDF2_ITERATIONS :: int where "MIN_PBKDF2_ITERATIONS = 200000"

text \<open>Python's \<open>int\<close> on text: spaces around, a sign, digits with single underscores between them.\<close>

fun underscored :: "string \<Rightarrow> bool" where
  "underscored [] = False"
| "underscored [c] = is_digit c"
| "underscored (c # d # cs) = (is_digit c \<and> (if d = CHR ''_'' then underscored cs else underscored (d # cs)))"

definition int_of_text :: "string \<Rightarrow> int option" where
  "int_of_text s =
     (let t = strip s; neg = (take 1 t = ''-''); u = (if take 1 t = ''-'' \<or> take 1 t = ''+'' then drop 1 t else t) in
      if underscored u then Some ((if neg then -1 else 1) * int (read_digits 0 (filter is_digit u))) else None)"

definition scrypt_prefix :: string where
  "scrypt_prefix = SCRYPT_ALGORITHM @ ''$'' @ show_int SCRYPT_N @ ''$'' @ show_int SCRYPT_R @ ''$'' @ show_int SCRYPT_P @ ''$''"

text \<open>\<open>hash_password\<close>, with the salt it draws; \<open>None\<close> is an error of \<open>scrypt\<close>.\<close>

definition hash_password :: "account_env \<Rightarrow> bytes \<Rightarrow> string \<Rightarrow> string option" where
  "hash_password env salt password =
     map_option (\<lambda>digest. scrypt_prefix @ bytes_hex salt @ ''$'' @ bytes_hex digest) (scrypt env password salt SCRYPT_N SCRYPT_R SCRYPT_P)"

definition verify_scrypt :: "account_env \<Rightarrow> string \<Rightarrow> string list \<Rightarrow> bool" where
  "verify_scrypt env password parts =
     (case (int_of_text (parts ! 1), int_of_text (parts ! 2), int_of_text (parts ! 3), fromhex (parts ! 4), fromhex (parts ! 5)) of
        (Some n, Some r, Some p, Some salt, Some expected) \<Rightarrow>
          if n * r * p < SCRYPT_MIN_COST \<or> r < SCRYPT_R \<or> and n (n - 1) \<noteq> 0 \<or> length salt < 16 \<or> length expected \<noteq> 32 then False
          else scrypt env password salt n r p = Some expected
      | _ \<Rightarrow> False)"

definition verify_pbkdf2 :: "account_env \<Rightarrow> string \<Rightarrow> string list \<Rightarrow> bool" where
  "verify_pbkdf2 env password parts =
     (case (int_of_text (parts ! 1), fromhex (parts ! 2), fromhex (parts ! 3)) of
        (Some iterations, Some salt, Some expected) \<Rightarrow>
          if iterations < MIN_PBKDF2_ITERATIONS \<or> length salt < 16 \<or> length expected \<noteq> 32 then False
          else pbkdf2 env password salt iterations = Some expected
      | _ \<Rightarrow> False)"

definition verify_password :: "account_env \<Rightarrow> string \<Rightarrow> string \<Rightarrow> bool" where
  "verify_password env password stored =
     (let parts = split_on CHR ''$'' stored in
      if hd parts = SCRYPT_ALGORITHM \<and> length parts = 6 then verify_scrypt env password parts
      else if hd parts = PBKDF2_ALGORITHM \<and> length parts = 4 then verify_pbkdf2 env password parts
      else False)"

definition needs_rehash :: "string \<Rightarrow> bool" where
  "needs_rehash stored \<longleftrightarrow> take (length scrypt_prefix) stored \<noteq> scrypt_prefix"

lemma scrypt_prefix_text: "scrypt_prefix = ''scrypt$32768$8$3$''"
  by (simp add: scrypt_prefix_def SCRYPT_ALGORITHM_def SCRYPT_N_def SCRYPT_R_def SCRYPT_P_def show_int_def show_nat.simps digit_char_def)

text \<open>
  A stored password that lets anyone in meets the floors: scrypt of at least today's cost on at least 16
  bytes of salt, or PBKDF2 with at least 200 000 iterations.
\<close>

lemma verified_meets_floor:
  assumes "verify_password env password stored"
  shows "\<exists>salt expected. length salt \<ge> 16 \<and> length expected = 32 \<and>
    ((\<exists>n r p. scrypt env password salt n r p = Some expected \<and> n * r * p \<ge> SCRYPT_MIN_COST \<and> r \<ge> SCRYPT_R)
     \<or> (\<exists>i. pbkdf2 env password salt i = Some expected \<and> i \<ge> MIN_PBKDF2_ITERATIONS))"
  using assms
  by (auto simp: verify_password_def verify_scrypt_def verify_pbkdf2_def Let_def not_less split: if_splits option.splits) (blast | metis)+

text \<open>A hash made today verifies, for the passwords with the same digest, and is not replaced.\<close>

lemma hash_verifies:
  assumes "hash_password env salt password = Some stored" and "length salt = 16"
    and "\<And>p d. scrypt env p salt SCRYPT_N SCRYPT_R SCRYPT_P = Some d \<Longrightarrow> length d = 32"
  shows "verify_password env other stored \<longleftrightarrow>
      scrypt env other salt SCRYPT_N SCRYPT_R SCRYPT_P = scrypt env password salt SCRYPT_N SCRYPT_R SCRYPT_P"
    and "\<not> needs_rehash stored"
proof -
  obtain d where d: "scrypt env password salt SCRYPT_N SCRYPT_R SCRYPT_P = Some d"
    and st: "stored = scrypt_prefix @ bytes_hex salt @ ''$'' @ bytes_hex d"
    using assms(1) by (auto simp: hash_password_def)
  let ?fs = "[''scrypt'', ''32768'', ''8'', ''3'', bytes_hex salt, bytes_hex d]"
  have "stored = py_join [CHR ''$''] ?fs" by (simp add: st scrypt_prefix_text)
  then have "split_on CHR ''$'' stored = ?fs" by (simp only:) (rule split_on_join, auto simp: hex_no_dollar)
  moreover have "int_of_text ''32768'' = Some 32768" "int_of_text ''8'' = Some 8" "int_of_text ''3'' = Some 3"
    by (simp_all add: int_of_text_def Let_def strip_def is_space_def in_range_def is_digit_def)
  moreover have "and 32768 (32767::int) = 0" by simp
  ultimately show "verify_password env other stored \<longleftrightarrow>
      scrypt env other salt SCRYPT_N SCRYPT_R SCRYPT_P = scrypt env password salt SCRYPT_N SCRYPT_R SCRYPT_P"
    using d assms(2,3) by (simp add: verify_password_def verify_scrypt_def Let_def SCRYPT_ALGORITHM_def fromhex_hex
      SCRYPT_N_def SCRYPT_R_def SCRYPT_P_def SCRYPT_MIN_COST_def)
  show "\<not> needs_rehash stored" by (simp add: needs_rehash_def st)
qed

subsection \<open>Account changes\<close>

definition refuse :: "bool \<Rightarrow> string \<Rightarrow> unit account_result" where
  "refuse bad what = (if bad then Inl (AccountError what) else Inr ())"

definition validate_username :: "string \<Rightarrow> unit account_result" where
  "validate_username u = refuse (\<not> username_re u) ''Username''"

definition validate_password :: "account_env \<Rightarrow> string \<Rightarrow> string option \<Rightarrow> unit account_result" where
  "validate_password env password u =
     (case password_problem (common_passwords env) password u of None \<Rightarrow> Inr () | Some why \<Rightarrow> Inl (AccountError why))"

subsection \<open>The account file (AdminStore)\<close>

record account_store =
  users :: "(string, admin_account) dict"
  require_mfa_for_admins :: bool

text \<open>\<open>_write\<close> puts the users in order.\<close>

definition write_users :: "(string, admin_account) dict \<Rightarrow> account_store \<Rightarrow> account_store" where
  "write_users us st = st\<lparr>users := sort_key fst us\<rparr>"

definition get_account :: "account_store \<Rightarrow> string \<Rightarrow> admin_account option" where
  "get_account st u = map_of (users st) u"

definition check_keeps_an_admin :: "(string, admin_account) dict \<Rightarrow> string \<Rightarrow> string option \<Rightarrow> unit account_result" where
  "check_keeps_an_admin us u new_role =
     refuse (\<not> (list_ex (\<lambda>(n, a). is_admin a \<and> n \<noteq> u) us \<or> new_role = Some ROLE_ADMIN)) ''At least one admin account must remain''"

definition set_password :: "string \<Rightarrow> string \<Rightarrow> string option \<Rightarrow> bool \<Rightarrow> account_store \<Rightarrow> account_store account_result" where
  "set_password u hash role change st =
     (let existing = get_account st u;
          new_role = (case role of Some r \<Rightarrow> if r \<noteq> [] then r else (case existing of Some a \<Rightarrow> acc_role a | None \<Rightarrow> ROLE_ADMIN)
            | None \<Rightarrow> (case existing of Some a \<Rightarrow> acc_role a | None \<Rightarrow> ROLE_ADMIN));
          mfa = (case existing of Some a \<Rightarrow> acc_mfa a | None \<Rightarrow> no_factors)
      in bind_result (refuse (new_role \<notin> set ROLES) ''Unknown role'') (\<lambda>_.
         bind_result (check_keeps_an_admin (users st) u (Some new_role)) (\<lambda>_.
         Inr (write_users (AList.update u \<lparr>acc_username = u, acc_password_hash = hash, acc_role = new_role, must_change = change, acc_mfa = mfa\<rparr>
           (users st)) st))))"

definition complete_setup :: "account_env \<Rightarrow> string \<Rightarrow> string \<Rightarrow> string \<Rightarrow> string \<Rightarrow> account_store \<Rightarrow> (admin_account \<times> account_store) account_result" where
  "complete_setup env current new_username password hash st =
     bind_result (validate_username new_username) (\<lambda>_.
     bind_result (refuse (new_username \<in> set RESERVED_USERNAMES) ''Choose a username'') (\<lambda>_.
     bind_result (validate_password env password (Some new_username)) (\<lambda>_.
     case get_account st current of
       None \<Rightarrow> Inl (AccountError ''This account has already been set up'')
     | Some account \<Rightarrow>
         bind_result (refuse (\<not> must_change account) ''This account has already been set up'') (\<lambda>_.
         bind_result (refuse (new_username \<noteq> current \<and> get_account st new_username \<noteq> None) ''already exists'') (\<lambda>_.
         bind_result (refuse (verify_password env password (acc_password_hash account)) ''Choose a new password, not the generated one'') (\<lambda>_.
         let new = \<lparr>acc_username = new_username, acc_password_hash = hash, acc_role = acc_role account, must_change = False, acc_mfa = no_factors\<rparr>
         in Inr (new, write_users (AList.update new_username new (AList.delete current (users st))) st)))))))"

definition add_user :: "account_env \<Rightarrow> string \<Rightarrow> string \<Rightarrow> string \<Rightarrow> string \<Rightarrow> account_store \<Rightarrow> account_store account_result" where
  "add_user env u password hash role st =
     bind_result (validate_username u) (\<lambda>_.
     bind_result (validate_password env password (Some u)) (\<lambda>_.
     bind_result (refuse (role \<notin> set ROLES) ''Unknown role'') (\<lambda>_.
     bind_result (refuse (get_account st u \<noteq> None) ''already exists'') (\<lambda>_.
     set_password u hash (Some role) False st))))"

definition no_such_user :: "account_store \<Rightarrow> string \<Rightarrow> admin_account account_result" where
  "no_such_user st u = (case get_account st u of None \<Rightarrow> Inl (AccountError ''No such user'') | Some a \<Rightarrow> Inr a)"

definition set_role :: "string \<Rightarrow> string \<Rightarrow> account_store \<Rightarrow> account_store account_result" where
  "set_role u role st =
     bind_result (refuse (role \<notin> set ROLES) ''Unknown role'') (\<lambda>_.
     bind_result (no_such_user st u) (\<lambda>a.
     bind_result (check_keeps_an_admin (users st) u (Some role)) (\<lambda>_.
     Inr (write_users (AList.update u (a\<lparr>acc_role := role\<rparr>) (users st)) st))))"

definition delete_user :: "string \<Rightarrow> account_store \<Rightarrow> account_store account_result" where
  "delete_user u st =
     bind_result (no_such_user st u) (\<lambda>_.
     bind_result (check_keeps_an_admin (users st) u None) (\<lambda>_.
     Inr (write_users (AList.delete u (users st)) st)))"

definition set_mfa :: "string \<Rightarrow> mfa_factors \<Rightarrow> account_store \<Rightarrow> account_store account_result" where
  "set_mfa u mfa st =
     bind_result (no_such_user st u) (\<lambda>a. Inr (write_users (AList.update u (a\<lparr>acc_mfa := mfa\<rparr>) (users st)) st))"

definition reset_mfa :: "string \<Rightarrow> account_store \<Rightarrow> account_store account_result" where
  "reset_mfa u = set_mfa u no_factors"

definition set_policy :: "bool \<Rightarrow> account_store \<Rightarrow> account_store" where
  "set_policy required st = (write_users (users st) st)\<lparr>require_mfa_for_admins := required\<rparr>"

text \<open>
  \<open>verify\<close>: the account is read, the password checked, and an old hash replaced under the lock, against
  what is in the file by then: \<open>before\<close> is the store at the read, \<open>st\<close> under the lock.
\<close>

definition verify_account :: "account_env \<Rightarrow> string \<Rightarrow> string \<Rightarrow> string \<Rightarrow> account_store \<Rightarrow> account_store \<Rightarrow> admin_account option \<times> account_store" where
  "verify_account env u password hash before st =
     (case get_account before u of
        None \<Rightarrow> (None, st)
      | Some account \<Rightarrow>
          if \<not> verify_password env password (acc_password_hash account) then (None, st)
          else if \<not> needs_rehash (acc_password_hash account) then (Some account, st)
          else
            case get_account st u of
              None \<Rightarrow> (None, st)
            | Some current \<Rightarrow>
                if acc_password_hash current \<noteq> acc_password_hash account
                then (if verify_password env password (acc_password_hash current) then Some current else None, st)
                else let new = current\<lparr>acc_password_hash := hash\<rparr>
                     in (Some new, write_users (AList.update u new (users st)) st))"

subsection \<open>Sequences of changes\<close>

datatype account_op =
    SetPassword string string "string option" bool
  | CompleteSetup string string string string
  | AddUser string string string string
  | SetRole string string
  | DeleteUser string
  | SetMfa string mfa_factors
  | ResetMfa string
  | SetPolicy bool
  | Verify string string string account_store

definition or_unchanged :: "account_store \<Rightarrow> account_store account_result \<Rightarrow> account_store" where
  "or_unchanged st r = (case r of Inl _ \<Rightarrow> st | Inr st' \<Rightarrow> st')"

primrec account_step :: "account_env \<Rightarrow> account_op \<Rightarrow> account_store \<Rightarrow> account_store" where
  "account_step env (SetPassword u hash role change) st = or_unchanged st (set_password u hash role change st)"
| "account_step env (CompleteSetup current new_username password hash) st =
     or_unchanged st (bind_result (complete_setup env current new_username password hash st) (\<lambda>(_, st'). Inr st'))"
| "account_step env (AddUser u password hash role) st = or_unchanged st (add_user env u password hash role st)"
| "account_step env (SetRole u role) st = or_unchanged st (set_role u role st)"
| "account_step env (DeleteUser u) st = or_unchanged st (delete_user u st)"
| "account_step env (SetMfa u mfa) st = or_unchanged st (set_mfa u mfa st)"
| "account_step env (ResetMfa u) st = or_unchanged st (reset_mfa u st)"
| "account_step env (SetPolicy required) st = set_policy required st"
| "account_step env (Verify u password hash before) st = snd (verify_account env u password hash before st)"

definition account_run :: "account_env \<Rightarrow> account_op list \<Rightarrow> account_store \<Rightarrow> account_store" where
  "account_run env ops st = fold (account_step env) ops st"

subsection \<open>An admin remains\<close>

text \<open>Each name once, under its own name, with a known role; and an admin among them if there is anyone.\<close>

definition accounts_ok :: "account_store \<Rightarrow> bool" where
  "accounts_ok st \<longleftrightarrow> dict_ok (users st)
     \<and> (\<forall>(n, a)\<in>set (users st). acc_username a = n \<and> acc_role a \<in> set ROLES)
     \<and> (users st \<noteq> [] \<longrightarrow> (\<exists>(n, a)\<in>set (users st). is_admin a))"

lemma sorted_users:
  assumes "dict_ok us"
  shows "dict_ok (sort_key fst us)" and "map_of (sort_key fst us) n = map_of us n"
proof -
  from assms show ok: "dict_ok (sort_key fst us)" by (simp add: dict_ok_def distinct_map)
  show "map_of (sort_key fst us) n = map_of us n"
  proof (cases "map_of us n")
    case None
    then have "map_of (sort_key fst us) n = None" by (simp add: map_of_eq_None_iff)
    with None show ?thesis by simp
  next
    case (Some a)
    then have "(n, a) \<in> set (sort_key fst us)" by (simp add: map_of_SomeD)
    with ok Some show ?thesis unfolding dict_ok_def by simp
  qed
qed

lemma update_not_Nil [simp]: "AList.update k v d \<noteq> []"
  by (cases d) auto

lemma get_write [simp]: "dict_ok us \<Longrightarrow> get_account (write_users us st) n = map_of us n"
  by (simp add: get_account_def write_users_def sorted_users)

lemma write_users_simps [simp]:
  "require_mfa_for_admins (write_users us st) = require_mfa_for_admins st" "users (write_users us st) = [] \<longleftrightarrow> us = []"
  "dict_ok us \<Longrightarrow> dict_ok (users (write_users us st))"
  by (simp_all add: write_users_def sorted_users sort_key_Nil)

lemma users_not_Nil: "get_account st n = Some a \<Longrightarrow> users st \<noteq> []"
  by (auto simp: get_account_def)

lemma accounts_ok_iff:
  "accounts_ok st \<longleftrightarrow> dict_ok (users st) \<and> (\<forall>n a. get_account st n = Some a \<longrightarrow> acc_username a = n \<and> acc_role a \<in> set ROLES)
     \<and> (users st \<noteq> [] \<longrightarrow> (\<exists>n a. get_account st n = Some a \<and> is_admin a))"
proof (cases "dict_ok (users st)")
  case True
  then have "(n, a) \<in> set (users st) \<longleftrightarrow> get_account st n = Some a" for n a
    by (simp add: dict_ok_def get_account_def)
  then have "(\<forall>(n, a)\<in>set (users st). P n a) \<longleftrightarrow> (\<forall>n a. get_account st n = Some a \<longrightarrow> P n a)"
    "(\<exists>(n, a)\<in>set (users st). P n a) \<longleftrightarrow> (\<exists>n a. get_account st n = Some a \<and> P n a)" for P by fastforce+
  with True show ?thesis unfolding accounts_ok_def by simp
qed (simp add: accounts_ok_def)

lemma other_admin:
  assumes "dict_ok (users st)"
  shows "list_ex (\<lambda>(n, a). is_admin a \<and> n \<noteq> u) (users st) \<longleftrightarrow> (\<exists>n a. get_account st n = Some a \<and> is_admin a \<and> n \<noteq> u)"
  using assms by (auto simp: list_ex_iff dict_ok_def get_account_def intro: map_of_SomeD)

lemma keeps_an_admin:
  "dict_ok (users st) \<Longrightarrow> check_keeps_an_admin (users st) u r = Inr x \<longleftrightarrow>
     r = Some ROLE_ADMIN \<or> (\<exists>n a. get_account st n = Some a \<and> is_admin a \<and> n \<noteq> u)"
  by (auto simp: check_keeps_an_admin_def refuse_def other_admin)

text \<open>Every change but a deletion puts one account in its place.\<close>

lemma accounts_ok_update:
  assumes "accounts_ok st" and "acc_username a = u" and "acc_role a \<in> set ROLES"
    and "is_admin a \<or> (\<exists>n b. get_account st n = Some b \<and> is_admin b \<and> n \<noteq> u)"
  shows "accounts_ok (write_users (AList.update u a (users st)) st)"
proof -
  from assms(1) have ok: "dict_ok (users st)" by (simp add: accounts_ok_def)
  then have upd: "dict_ok (AList.update u a (users st))" by (rule py_dict.ok_put)
  have get: "get_account (write_users (AList.update u a (users st)) st) n = (if n = u then Some a else get_account st n)" for n
    unfolding get_write [OF upd] by (simp add: dict_simps get_account_def)
  have "\<exists>n b. get_account (write_users (AList.update u a (users st)) st) n = Some b \<and> is_admin b"
    using assms(4) by (auto simp: get)
  with assms(1-3) upd show ?thesis by (auto simp: accounts_ok_iff get)
qed

lemma refuse_iff [simp]: "refuse bad what = Inr x \<longleftrightarrow> \<not> bad"
  by (simp add: refuse_def)

lemma no_such_user_iff [simp]: "no_such_user st u = Inr a \<longleftrightarrow> get_account st u = Some a"
  by (simp add: no_such_user_def split: option.split)

lemma set_password_ok:
  assumes "accounts_ok st" and "set_password u hash role change st = Inr st'"
  shows "accounts_ok st' \<and> users st' \<noteq> []"
proof -
  from assms(1) have ok: "dict_ok (users st)" by (simp add: accounts_ok_def)
  obtain new_role mfa where 1: "new_role \<in> set ROLES" "check_keeps_an_admin (users st) u (Some new_role) = Inr ()" and
    2: "st' = write_users (AList.update u \<lparr>acc_username = u, acc_password_hash = hash, acc_role = new_role, must_change = change, acc_mfa = mfa\<rparr> (users st)) st"
    using assms(2) by (auto simp: set_password_def Let_def)
  have "accounts_ok st'" unfolding 2 by (rule accounts_ok_update [OF assms(1)]) (use 1 keeps_an_admin [OF ok] in \<open>auto simp: is_admin_def\<close>)
  moreover have "get_account st' u \<noteq> None" unfolding 2 using ok by (simp add: dict_simps)
  ultimately show ?thesis by (auto simp: get_account_def)
qed

lemma update_same_role:
  assumes "accounts_ok st" and "get_account st u = Some a" and "acc_username b = acc_username a" and "acc_role b = acc_role a"
  shows "accounts_ok (write_users (AList.update u b (users st)) st)"
proof (rule accounts_ok_update [OF assms(1)])
  have a: "acc_username a = u \<and> acc_role a \<in> set ROLES" using assms(1,2) by (simp add: accounts_ok_iff)
  then show "acc_username b = u" "acc_role b \<in> set ROLES" using assms(3,4) by auto
  from assms(2) have "users st \<noteq> []" by (auto simp: get_account_def)
  with assms(1) obtain n c where "get_account st n = Some c" "is_admin c" by (auto simp: accounts_ok_iff)
  with assms(2,4) show "is_admin b \<or> (\<exists>n b. get_account st n = Some b \<and> is_admin b \<and> n \<noteq> u)"
    by (cases "n = u") (auto simp: is_admin_def)
qed

lemma delete_user_ok:
  assumes "accounts_ok st" and "delete_user u st = Inr st'"
  shows "accounts_ok st' \<and> users st' \<noteq> []"
proof -
  from assms(1) have ok: "dict_ok (users st)" by (simp add: accounts_ok_def)
  then have del: "dict_ok (AList.delete u (users st))" by (rule py_dict.ok_del)
  from assms(2) have st': "st' = write_users (AList.delete u (users st)) st" and
    "check_keeps_an_admin (users st) u None = Inr ()" by (auto simp: delete_user_def)
  with keeps_an_admin [OF ok] obtain n a where n: "get_account st n = Some a" "is_admin a" "n \<noteq> u" by auto
  have get: "get_account st' m = (if m = u then None else get_account st m)" for m
    unfolding st' get_write [OF del] by (simp add: dict_simps get_account_def)
  with n have n': "get_account st' n = Some a" by simp
  moreover have "dict_ok (users st')" using del by (simp add: st')
  ultimately show ?thesis using assms(1) n(2) users_not_Nil [OF n'] by (auto simp: accounts_ok_iff get split: if_splits)
qed

lemma complete_setup_store:
  assumes "complete_setup env cur nu pw hash st = Inr (a, st')"
  obtains b where "get_account st cur = Some b" and "must_change b" and "nu = cur \<or> get_account st nu = None"
    and "\<not> verify_password env pw (acc_password_hash b)"
    and "a = \<lparr>acc_username = nu, acc_password_hash = hash, acc_role = acc_role b, must_change = False, acc_mfa = no_factors\<rparr>"
    and "st' = write_users (AList.update nu a (AList.delete cur (users st))) st"
  using assms by (auto simp: complete_setup_def Let_def split: option.splits)

lemma complete_setup_ok:
  assumes "accounts_ok st" and "complete_setup env cur nu pw hash st = Inr (a, st')"
  shows "accounts_ok st' \<and> users st' \<noteq> []"
proof -
  from assms(1) have ok: "dict_ok (users st)" by (simp add: accounts_ok_def)
  then have upd: "dict_ok (AList.update nu a (AList.delete cur (users st)))" by (simp add: dict_simps)
  obtain b where b: "get_account st cur = Some b" "nu = cur \<or> get_account st nu = None" and
    a: "a = \<lparr>acc_username = nu, acc_password_hash = hash, acc_role = acc_role b, must_change = False, acc_mfa = no_factors\<rparr>" and
    st': "st' = write_users (AList.update nu a (AList.delete cur (users st))) st"
    using assms(2) by (rule complete_setup_store)
  have get: "get_account st' n = (if n = nu then Some a else if n = cur then None else get_account st n)" for n
    unfolding st' get_write [OF upd] by (simp add: dict_simps get_account_def)
  from b(1) have "users st \<noteq> []" by (auto simp: get_account_def)
  with assms(1) obtain n c where n: "get_account st n = Some c" "is_admin c" by (auto simp: accounts_ok_iff)
  have "\<exists>n c. get_account st' n = Some c \<and> is_admin c"
  proof (cases "n = cur")
    case True
    with n b(1) have "is_admin a" by (simp add: a is_admin_def)
    then show ?thesis using get [of nu] by auto
  next
    case False
    with n b(2) have "n \<noteq> nu" by auto
    with False n show ?thesis using get [of n] by auto
  qed
  moreover have "acc_role a \<in> set ROLES" using assms(1) b(1) by (simp add: accounts_ok_iff a)
  moreover have "dict_ok (users st')" using upd by (simp add: st')
  moreover have "users st' \<noteq> []" by (simp add: st')
  ultimately show ?thesis using assms(1) by (auto simp: accounts_ok_iff get a split: if_splits)
qed

lemma account_step_ok:
  assumes "accounts_ok st"
  shows "accounts_ok (account_step env op st) \<and> (users st \<noteq> [] \<longrightarrow> users (account_step env op st) \<noteq> [])"
proof (cases op)
  case (SetPassword u hash role change)
  then show ?thesis using assms set_password_ok [OF assms] by (auto simp: or_unchanged_def split: sum.splits)
next
  case (CompleteSetup cur nu pw hash)
  then show ?thesis using assms complete_setup_ok [OF assms] by (auto simp: or_unchanged_def split: sum.splits)
next
  case (AddUser u pw hash role)
  then show ?thesis using assms set_password_ok [OF assms] by (auto simp: add_user_def or_unchanged_def split: sum.splits)
next
  case (SetRole u role)
  have "accounts_ok st'" if r: "set_role u role st = Inr st'" for st'
  proof -
    from assms have ok: "dict_ok (users st)" by (simp add: accounts_ok_def)
    obtain a where a: "role \<in> set ROLES" "get_account st u = Some a" "check_keeps_an_admin (users st) u (Some role) = Inr ()"
      and st': "st' = write_users (AList.update u (a\<lparr>acc_role := role\<rparr>) (users st)) st"
      using r by (auto simp: set_role_def)
    show ?thesis unfolding st'
      by (rule accounts_ok_update [OF assms]) (use a assms keeps_an_admin [OF ok] in \<open>auto simp: accounts_ok_iff is_admin_def\<close>)
  qed
  moreover have "users st' \<noteq> []" if "set_role u role st = Inr st'" for st'
    using that by (auto simp: set_role_def)
  ultimately show ?thesis using SetRole assms by (auto simp: or_unchanged_def split: sum.splits)
next
  case (DeleteUser u)
  then show ?thesis using assms delete_user_ok [OF assms] by (auto simp: or_unchanged_def split: sum.splits)
next
  case (SetMfa u mfa)
  then show ?thesis using assms by (auto simp: set_mfa_def or_unchanged_def update_same_role split: sum.splits)
next
  case (ResetMfa u)
  then show ?thesis using assms by (auto simp: reset_mfa_def set_mfa_def or_unchanged_def update_same_role split: sum.splits)
next
  case (SetPolicy required)
  from assms have "dict_ok (users st)" by (simp add: accounts_ok_def)
  then have "get_account (set_policy required st) n = get_account st n" for n
    by (simp add: set_policy_def get_account_def write_users_def sorted_users)
  with SetPolicy assms show ?thesis by (auto simp: accounts_ok_iff set_policy_def)
next
  case (Verify u pw hash before)
  then show ?thesis using assms
    by (auto simp: verify_account_def Let_def split: option.split intro!: update_same_role)
qed

text \<open>
  C39: whatever the sequence of changes to the accounts -- passwords, roles, deletions, second factors,
  first-run setup, sign-ins that replace an old hash; accepted or refused -- every account keeps its own name
  and a known role, and a router that has accounts keeps at least one admin among them.
\<close>

theorem an_admin_remains:
  assumes "accounts_ok st"
  shows "accounts_ok (account_run env ops st) \<and>
    (users st \<noteq> [] \<longrightarrow> (\<exists>n a. get_account (account_run env ops st) n = Some a \<and> is_admin a))"
proof -
  have "accounts_ok (account_run env ops st) \<and> (users st \<noteq> [] \<longrightarrow> users (account_run env ops st) \<noteq> [])"
    unfolding account_run_def using assms
  proof (induction ops arbitrary: st)
    case (Cons op ops)
    from Cons.IH [of "account_step env op st"] account_step_ok [OF Cons.prems, of env op] show ?case by auto
  qed simp
  then show ?thesis by (auto simp: accounts_ok_iff)
qed

definition account_env0 :: account_env where
  "account_env0 = \<lparr>common_passwords = [], scrypt = (\<lambda>_ _ _ _ _. None), pbkdf2 = (\<lambda>_ _ _. None)\<rparr>"

definition accounts1 :: account_store where
  "accounts1 = \<lparr>users = [(''eva'', \<lparr>acc_username = ''eva'', acc_password_hash = ''h'', acc_role = ROLE_ADMIN, must_change = False, acc_mfa = no_factors\<rparr>)],
     require_mfa_for_admins = False\<rparr>"

theorem an_admin_remains_witness:
  "\<exists>n a. get_account (account_run account_env0 [DeleteUser ''eva'', SetRole ''eva'' ROLE_VIEWER] accounts1) n = Some a \<and> is_admin a"
proof -
  have "accounts_ok accounts1" by (simp add: accounts_ok_def accounts1_def dict_ok_def is_admin_def ROLES_def)
  from an_admin_remains [OF this, of account_env0 "[DeleteUser ''eva'', SetRole ''eva'' ROLE_VIEWER]"] show ?thesis by (simp add: accounts1_def)
qed

subsection \<open>First-run setup\<close>

text \<open>With its setup the generated account is gone: its name signs in no more, unless it was kept, and then with the new password.\<close>

lemma setup_replaces_generated:
  assumes "accounts_ok st" and "complete_setup env cur nu pw hash st = Inr (a, st')"
  shows "get_account st' cur = (if cur = nu then Some a else None) \<and> get_account st' nu = Some a \<and> acc_password_hash a = hash \<and> \<not> must_change a"
proof -
  from assms(1) have "dict_ok (AList.update nu a (AList.delete cur (users st)))" by (simp add: accounts_ok_def dict_simps)
  then show ?thesis using assms(2) by (elim complete_setup_store) (auto simp: dict_simps)
qed


end
