(* ===== verification/Sign_In.thy ===== *)
theory Sign_In
  imports Accounts Login_Guard
begin

text \<open>
  Signing in to the web interface: sessions (\<open>src/src/frfw/webui/auth.py\<close>), second factors and login
  tickets (\<open>src/src/frfw/webui/mfa.py\<close>), the handlers that use them (\<open>src/src/frfw/webui/routes/auth.py\<close>,
  \<open>src/src/frfw/webui/routes/mfa.py\<close>) and the check in front of every protected route
  (\<open>src/src/frfw/webui/deps.py\<close>, \<open>require_login\<close>).

  Parameters: \<open>sha256\<close> and \<open>hmac\<close> give hexadecimal digests, \<open>unsign\<close> is the cookie serializer with its maximal
  age, \<open>totp_at\<close> is pyotp.  The random identifiers a call draws and the readings of the clock it makes are
  arguments (\<open>now i\<close> is the reading made \<open>i\<close>-th).  Security keys are verified by a library the model does not
  have: their handlers are left out.

  Each method of a store is one step, under its lock or on a file that is replaced atomically; the TOTP
  check is one step under \<open>_TOTP_LOCK\<close>.  The properties of sessions and codes are about any sequence of such
  steps, so about any interleaving of requests.
\<close>

record web_env =
  sha256 :: "string \<Rightarrow> string"
  hmac :: "string \<Rightarrow> string"
  unsign :: "seconds \<Rightarrow> string \<Rightarrow> (string \<times> string \<times> string) option"
  totp_at :: "string \<Rightarrow> int \<Rightarrow> string"

text \<open>\<open>secrets.compare_digest\<close> on text raises a \<open>TypeError\<close> (\<open>None\<close>) unless both are ASCII.\<close>

definition compare_digest :: "string \<Rightarrow> string \<Rightarrow> bool option" where
  "compare_digest a b = (if list_all (\<lambda>c. of_char c < (128::nat)) (a @ b) then Some (a = b) else None)"

subsection \<open>Sessions (auth.py)\<close>

definition SESSION_MAX_AGE_SECONDS :: seconds where "SESSION_MAX_AGE_SECONDS = 12 * 3600"

record session_entry =
  ses_user :: string
  ses_expires :: seconds

type_synonym session_table = "(string, session_entry) dict"

definition session_add :: "web_env \<Rightarrow> string \<Rightarrow> string \<Rightarrow> seconds \<Rightarrow> session_table \<Rightarrow> session_table" where
  "session_add env sid u now d =
     AList.update (sha256 env sid) \<lparr>ses_user = u, ses_expires = now + SESSION_MAX_AGE_SECONDS\<rparr> (filter (\<lambda>(_, e). ses_expires e > now) d)"

definition session_valid :: "web_env \<Rightarrow> string \<Rightarrow> string \<Rightarrow> seconds \<Rightarrow> session_table \<Rightarrow> bool" where
  "session_valid env sid u now d =
     (case map_of d (sha256 env sid) of None \<Rightarrow> False | Some e \<Rightarrow> ses_user e = u \<and> ses_expires e > now)"

definition session_revoke :: "web_env \<Rightarrow> string \<Rightarrow> session_table \<Rightarrow> session_table" where
  "session_revoke env sid d = AList.delete (sha256 env sid) d"

definition session_revoke_user :: "string \<Rightarrow> session_table \<Rightarrow> nat \<times> session_table" where
  "session_revoke_user u d = (let kept = filter (\<lambda>(_, e). ses_user e \<noteq> u) d in (length d - length kept, kept))"

definition generate_csrf_token :: "web_env \<Rightarrow> string \<Rightarrow> string" where
  "generate_csrf_token env sid = hmac env (''csrf:'' @ sid)"

definition verify_csrf_token :: "web_env \<Rightarrow> string \<Rightarrow> string \<Rightarrow> bool option" where
  "verify_csrf_token env token sid = (if token = [] \<or> sid = [] then Some False else compare_digest token (generate_csrf_token env sid))"

definition session_version :: "web_env \<Rightarrow> admin_account \<Rightarrow> string" where
  "session_version env a = take 16 (sha256 env (acc_password_hash a))"

text \<open>A cookie's user name, version and session id, of a cookie that is signed and not too old.\<close>

definition load_cookie :: "web_env \<Rightarrow> string option \<Rightarrow> seconds \<Rightarrow> (string \<times> string \<times> string) option" where
  "load_cookie env cookie now = (case cookie of None \<Rightarrow> None | Some c \<Rightarrow> if c = [] then None else unsign env now c)"

definition session_from_cookie :: "web_env \<Rightarrow> string option \<Rightarrow> (nat \<Rightarrow> seconds) \<Rightarrow> session_table \<Rightarrow> (string \<times> string) option" where
  "session_from_cookie env cookie now d =
     (case load_cookie env cookie (now 0) of None \<Rightarrow> None
      | Some (u, v, sid) \<Rightarrow> if session_valid env sid u (now 1) d then Some (u, v) else None)"

definition csrf_token_for :: "web_env \<Rightarrow> string option \<Rightarrow> (nat \<Rightarrow> seconds) \<Rightarrow> session_table \<Rightarrow> string" where
  "csrf_token_for env cookie now d =
     (case load_cookie env cookie (now 0) of None \<Rightarrow> []
      | Some (u, v, sid) \<Rightarrow> if session_valid env sid u (now 1) d then generate_csrf_token env sid else [])"

definition verify_csrf :: "web_env \<Rightarrow> string option \<Rightarrow> string \<Rightarrow> (nat \<Rightarrow> seconds) \<Rightarrow> session_table \<Rightarrow> bool option" where
  "verify_csrf env cookie token now d =
     (if cookie = None \<or> cookie = Some [] \<or> token = [] then Some False
      else case load_cookie env cookie (now 0) of None \<Rightarrow> Some False
        | Some (u, v, sid) \<Rightarrow> if session_valid env sid u (now 1) d then verify_csrf_token env token sid else Some False)"

definition revoke_cookie :: "web_env \<Rightarrow> string option \<Rightarrow> seconds \<Rightarrow> session_table \<Rightarrow> session_table" where
  "revoke_cookie env cookie now d =
     (case load_cookie env cookie now of None \<Rightarrow> d | Some (u, v, sid) \<Rightarrow> session_revoke env sid d)"

subsection \<open>The check in front of every route (deps.py)\<close>

definition SAFE_METHODS :: "string list" where "SAFE_METHODS = [''GET'', ''HEAD'', ''OPTIONS'']"

definition VIEWER_ALLOWED_PATHS :: "string list" where
  "VIEWER_ALLOWED_PATHS = [''/logout'', ''/account/password'', ''/account/logout-everywhere'', ''/account/mfa/totp'',
     ''/account/mfa/webauthn/options'', ''/account/mfa/webauthn/register'', ''/account/mfa/remove'']"

definition SETUP_PATHS :: "string list" where "SETUP_PATHS = [''/setup'', ''/logout'']"

definition MFA_ENROL_PREFIX :: string where "MFA_ENROL_PREFIX = ''/account/mfa''"

record web_request =
  rq_cookie :: "string option"
  rq_method :: string
  rq_path :: string
  rq_csrf :: string

datatype refusal = SeeOther string | Forbidden string | Raised string

definition require_login :: "web_env \<Rightarrow> web_request \<Rightarrow> (nat \<Rightarrow> seconds) \<Rightarrow> account_store \<Rightarrow> session_table \<Rightarrow>
    (refusal, admin_account \<times> string) result" where
  "require_login env rq now st d =
     (case session_from_cookie env (rq_cookie rq) now d of
        None \<Rightarrow> Inl (SeeOther ''/login'')
      | Some (u, v) \<Rightarrow>
         (case get_account st u of
            None \<Rightarrow> Inl (SeeOther ''/login'')
          | Some account \<Rightarrow>
              if v \<noteq> session_version env account then Inl (SeeOther ''/login'')
              else
                let token = csrf_token_for env (rq_cookie rq) (\<lambda>i. now (2 + i)) d in
                if must_change account \<and> rq_path rq \<notin> set SETUP_PATHS then Inl (SeeOther ''/setup'')
                else if is_admin account \<and> \<not> has_mfa account \<and> take (length MFA_ENROL_PREFIX) (rq_path rq) \<noteq> MFA_ENROL_PREFIX
                  \<and> rq_path rq \<notin> set SETUP_PATHS \<and> require_mfa_for_admins st then Inl (SeeOther MFA_ENROL_PREFIX)
                else if rq_method rq \<in> set SAFE_METHODS then Inr (account, token)
                else
                  case verify_csrf env (rq_cookie rq) (rq_csrf rq) (\<lambda>i. now (4 + i)) d of
                    None \<Rightarrow> Inl (Raised ''TypeError'')
                  | Some False \<Rightarrow> Inl (Forbidden ''CSRF token missing or invalid'')
                  | Some True \<Rightarrow>
                      if \<not> is_admin account \<and> rq_path rq \<notin> set VIEWER_ALLOWED_PATHS
                      then Inl (Forbidden ''This account is read-only (viewer role)'')
                      else Inr (account, token)))"

definition require_admin :: "(refusal, admin_account \<times> string) result \<Rightarrow> (refusal, admin_account \<times> string) result" where
  "require_admin r = bind_result r (\<lambda>(a, t). if is_admin a then Inr (a, t) else Inl (Forbidden ''Admins only''))"

subsection \<open>A request passes only on a live session\<close>

text \<open>
  The calls of \<open>SessionStore\<close> by the web interface, one after the other under its lock.  \<open>firewall-cli mfa-reset\<close> edits the same file from a process of
  its own, which that lock does not cover, and is not one of them.
\<close>

datatype session_event = AddSession string string seconds | RevokeSession string | RevokeUser string

primrec session_step :: "web_env \<Rightarrow> session_event \<Rightarrow> session_table \<Rightarrow> session_table" where
  "session_step env (AddSession sid u now) d = session_add env sid u now d"
| "session_step env (RevokeSession sid) d = session_revoke env sid d"
| "session_step env (RevokeUser u) d = snd (session_revoke_user u d)"

definition session_run :: "web_env \<Rightarrow> session_event list \<Rightarrow> session_table" where
  "session_run env es = fold (session_step env) es []"

text \<open>
  A session that was opened for the user, less than \<open>SESSION_MAX_AGE_SECONDS\<close> ago, and that nothing has ended
  since.
\<close>

definition live_session :: "session_event list \<Rightarrow> string \<Rightarrow> string \<Rightarrow> seconds \<Rightarrow> bool" where
  "live_session es sid u now \<longleftrightarrow> (\<exists>pre t post. es = pre @ AddSession sid u t # post \<and> RevokeSession sid \<notin> set post \<and> RevokeUser u \<notin> set post
     \<and> now < t + SESSION_MAX_AGE_SECONDS)"

fun event_sids :: "session_event \<Rightarrow> string set" where
  "event_sids (AddSession sid u t) = {sid}"
| "event_sids (RevokeSession sid) = {sid}"
| "event_sids (RevokeUser u) = {}"

definition used_sids :: "session_event list \<Rightarrow> string set" where
  "used_sids es = (\<Union>e\<in>set es. event_sids e)"

lemma session_run_dict: "dict_ok (session_run env es)"
proof -
  have "dict_ok d \<Longrightarrow> dict_ok (session_step env e d)" for e d
    by (cases e) (auto simp: session_add_def session_revoke_def session_revoke_user_def Let_def dict_simps dict_ok_filter)
  then have "dict_ok d \<Longrightarrow> dict_ok (fold (session_step env) es d)" for d
    by (induction es arbitrary: d) auto
  then show ?thesis unfolding session_run_def by (simp add: dict_ok_def)
qed

lemma session_run_snoc: "session_run env (es @ [e]) = session_step env e (session_run env es)"
  by (simp add: session_run_def)

text \<open>An entry of the table was put there by the opening of its session, and nothing has removed it since.\<close>

lemma session_entry_opened:
  assumes "map_of (session_run env es) (sha256 env sid) = Some e" and "inj_on (sha256 env) (insert sid (used_sids es))"
  shows "\<exists>pre t post. es = pre @ AddSession sid (ses_user e) t # post \<and> RevokeSession sid \<notin> set post \<and> RevokeUser (ses_user e) \<notin> set post
    \<and> ses_expires e = t + SESSION_MAX_AGE_SECONDS"
  using assms
proof (induction es rule: rev_induct)
  case Nil
  then show ?case by (simp add: session_run_def)
next
  case (snoc x es)
  let ?d = "session_run env es"
  have inj: "inj_on (sha256 env) (insert sid (used_sids es))"
    using snoc.prems(2) by (rule inj_on_subset) (auto simp: used_sids_def)
  have same: "sid' \<in> event_sids x \<Longrightarrow> sha256 env sid' = sha256 env sid \<Longrightarrow> sid' = sid" for sid'
    using snoc.prems(2) by (rule inj_onD) (auto simp: used_sids_def)
  note ok = session_run_dict [of env es]
  show ?case
  proof (cases "\<exists>t. x = AddSession sid (ses_user e) t \<and> ses_expires e = t + SESSION_MAX_AGE_SECONDS")
    case True
    then obtain t where "x = AddSession sid (ses_user e) t" "ses_expires e = t + SESSION_MAX_AGE_SECONDS" by blast
    then show ?thesis by (intro exI [of _ es] exI [of _ t] exI [of _ "[]"]) simp
  next
    case False
    have "map_of ?d (sha256 env sid) = Some e \<and> x \<noteq> RevokeSession sid \<and> x \<noteq> RevokeUser (ses_user e)"
    proof (cases x)
      case (AddSession sid' u t)
      with False same [of sid'] snoc.prems(1) show ?thesis
        by (auto simp: session_run_snoc session_add_def dict_simps map_of_filter_value [OF ok] split: if_splits option.splits)
    next
      case (RevokeSession sid')
      with snoc.prems(1) show ?thesis by (auto simp: session_run_snoc session_revoke_def dict_simps split: if_splits)
    next
      case (RevokeUser u)
      with snoc.prems(1) show ?thesis
        by (auto simp: session_run_snoc session_revoke_user_def Let_def map_of_filter_value [OF ok] split: if_splits option.splits)
    qed
    with snoc.IH inj obtain pre t post where
      "es = pre @ AddSession sid (ses_user e) t # post" "RevokeSession sid \<notin> set post" "RevokeUser (ses_user e) \<notin> set post"
      "ses_expires e = t + SESSION_MAX_AGE_SECONDS" "x \<noteq> RevokeSession sid" "x \<noteq> RevokeUser (ses_user e)" by blast
    then show ?thesis by (intro exI [of _ pre] exI [of _ t] exI [of _ "post @ [x]"]) auto
  qed
qed

lemma valid_session_live:
  assumes "session_valid env sid u now (session_run env es)" and "inj_on (sha256 env) (insert sid (used_sids es))"
  shows "live_session es sid u now"
proof -
  obtain e where e: "map_of (session_run env es) (sha256 env sid) = Some e" "ses_user e = u" "ses_expires e > now"
    using assms(1) by (auto simp: session_valid_def split: option.splits)
  from session_entry_opened [OF e(1) assms(2)] e(2,3) show ?thesis unfolding live_session_def by metis
qed

text \<open>
  C31: a request gets past \<open>require_login\<close> only with a signed cookie whose session was opened for that user
  within the last twelve hours and ended by nothing since -- no logout, no end of all sessions of the
  user -- and whose password version is that of the account as it is now, so no cookie outlives a password
  change, a deletion or a logout.  A request that changes something also carries the session's own CSRF
  token, and is an admin's unless it is one of the viewers' few; a generated account reaches its setup
  only, and where the policy demands it an admin without a second factor only the enrolment.
\<close>

theorem request_needs_live_session:
  assumes "require_login env rq now st (session_run env es) = Inr (account, token)"
    and "\<And>u v sid. load_cookie env (rq_cookie rq) (now 0) = Some (u, v, sid) \<Longrightarrow> inj_on (sha256 env) (insert sid (used_sids es))"
  shows "\<exists>u sid. load_cookie env (rq_cookie rq) (now 0) = Some (u, session_version env account, sid) \<and> live_session es sid u (now 1)
    \<and> get_account st u = Some account
    \<and> (rq_method rq \<notin> set SAFE_METHODS \<longrightarrow> (is_admin account \<or> rq_path rq \<in> set VIEWER_ALLOWED_PATHS)
        \<and> (\<exists>u' v' sid'. load_cookie env (rq_cookie rq) (now 4) = Some (u', v', sid') \<and> rq_csrf rq = generate_csrf_token env sid'))
    \<and> (must_change account \<longrightarrow> rq_path rq \<in> set SETUP_PATHS)
    \<and> (is_admin account \<and> require_mfa_for_admins st \<longrightarrow> has_mfa account \<or> rq_path rq \<in> set SETUP_PATHS
        \<or> take (length MFA_ENROL_PREFIX) (rq_path rq) = MFA_ENROL_PREFIX)"
proof -
  obtain u v where s: "session_from_cookie env (rq_cookie rq) now (session_run env es) = Some (u, v)" and
    a: "get_account st u = Some account" "v = session_version env account"
    using assms(1) by (auto simp: require_login_def Let_def split: option.splits if_splits bool.splits)
  then obtain sid where c: "load_cookie env (rq_cookie rq) (now 0) = Some (u, v, sid)" "session_valid env sid u (now 1) (session_run env es)"
    by (auto simp: session_from_cookie_def split: option.splits if_splits)
  have live: "live_session es sid u (now 1)" by (rule valid_session_live [OF c(2) assms(2) [OF c(1)]])
  have csrf: "\<exists>u' v' sid'. load_cookie env (rq_cookie rq) (now 4) = Some (u', v', sid') \<and> rq_csrf rq = generate_csrf_token env sid'"
    if "verify_csrf env (rq_cookie rq) (rq_csrf rq) (\<lambda>i. now (4 + i)) (session_run env es) = Some True"
    using that by (auto simp: verify_csrf_def verify_csrf_token_def compare_digest_def split: option.splits if_splits)
  have rest: "(rq_method rq \<notin> set SAFE_METHODS \<longrightarrow> (is_admin account \<or> rq_path rq \<in> set VIEWER_ALLOWED_PATHS)
        \<and> verify_csrf env (rq_cookie rq) (rq_csrf rq) (\<lambda>i. now (4 + i)) (session_run env es) = Some True)
    \<and> (must_change account \<longrightarrow> rq_path rq \<in> set SETUP_PATHS)
    \<and> (is_admin account \<and> require_mfa_for_admins st \<longrightarrow> has_mfa account \<or> rq_path rq \<in> set SETUP_PATHS
        \<or> take (length MFA_ENROL_PREFIX) (rq_path rq) = MFA_ENROL_PREFIX)"
    using assms(1) s a by (auto simp: require_login_def Let_def split: option.splits if_splits bool.splits)
  show ?thesis
    by (rule exI [of _ u], rule exI [of _ sid]) (use c(1) a live csrf rest in blast)
qed

definition web_env1 :: web_env where
  "web_env1 = \<lparr>sha256 = (\<lambda>s. s), hmac = (\<lambda>s. s), unsign = (\<lambda>_ c. if c = ''c'' then Some (''eva'', ''h'', ''s1'') else None), totp_at = (\<lambda>_ _. ''123456'')\<rparr>"

definition request1 :: web_request where
  "request1 = \<lparr>rq_cookie = Some ''c'', rq_method = ''POST'', rq_path = ''/apply'', rq_csrf = ''csrf:s1''\<rparr>"

theorem request_needs_live_session_witness:
  "live_session [AddSession ''s1'' ''eva'' 0, AddSession ''s2'' ''eva'' 5, RevokeSession ''s2''] ''s1'' ''eva'' 10"
proof -
  let ?es = "[AddSession ''s1'' ''eva'' 0, AddSession ''s2'' ''eva'' 5, RevokeSession ''s2'']"
  let ?a = "\<lparr>acc_username = ''eva'', acc_password_hash = ''h'', acc_role = ROLE_ADMIN, must_change = False, acc_mfa = no_factors\<rparr>"
  have table: "session_run web_env1 ?es = [(''s1'', \<lparr>ses_user = ''eva'', ses_expires = SESSION_MAX_AGE_SECONDS\<rparr>)]"
    by (simp add: session_run_def session_add_def session_revoke_def web_env1_def SESSION_MAX_AGE_SECONDS_def)
  have "require_login web_env1 request1 (\<lambda>_. 10) accounts1 (session_run web_env1 ?es) = Inr (?a, ''csrf:s1'')"
    unfolding table
    by (simp add: require_login_def session_from_cookie_def load_cookie_def request1_def web_env1_def session_valid_def SESSION_MAX_AGE_SECONDS_def
      get_account_def accounts1_def session_version_def csrf_token_for_def generate_csrf_token_def SAFE_METHODS_def verify_csrf_def verify_csrf_token_def
      compare_digest_def is_admin_def)
  from request_needs_live_session [OF this] show ?thesis
    by (auto simp: load_cookie_def request1_def web_env1_def)
qed

subsection \<open>Authenticator codes (mfa.py)\<close>

definition TOTP_INTERVAL :: int where "TOTP_INTERVAL = 30"

text \<open>\<open>str.isdigit\<close> also takes the superscripts among the 8-bit characters.\<close>

definition py_isdigit :: "string \<Rightarrow> bool" where
  "py_isdigit s \<longleftrightarrow> s \<noteq> [] \<and> list_all (\<lambda>c. is_digit c \<or> c \<in> {CHR 0xB2, CHR 0xB3, CHR 0xB9}) s"

fun try_steps :: "(int \<Rightarrow> string) \<Rightarrow> string \<Rightarrow> int \<Rightarrow> int list \<Rightarrow> (refusal, int option) result" where
  "try_steps code_at code last_one [] = Inr None"
| "try_steps code_at code last_one (c # cs) =
     (if c \<le> last_one then try_steps code_at code last_one cs
      else case compare_digest (code_at c) code of None \<Rightarrow> Inl (Raised ''TypeError'')
        | Some True \<Rightarrow> Inr (Some c) | Some False \<Rightarrow> try_steps code_at code last_one cs)"

definition normalize_code :: "string \<Rightarrow> string" where
  "normalize_code code = filter (\<lambda>c. c \<noteq> CHR '' '') (strip code)"

definition totp_step :: "web_env \<Rightarrow> string \<Rightarrow> string \<Rightarrow> int \<Rightarrow> seconds \<Rightarrow> (refusal, int option) result" where
  "totp_step env secret code last_one now =
     (let c = normalize_code code; step = \<lfloor>now / of_int TOTP_INTERVAL\<rfloor> in
      if \<not> (py_isdigit c \<and> length c = 6) then Inr None
      else try_steps (totp_at env secret) c last_one [step - 1, step, step + 1])"

text \<open>What \<open>mfa_totp\<close> does under \<open>_TOTP_LOCK\<close>: the account read again, the code checked, its step recorded.\<close>

definition totp_check :: "web_env \<Rightarrow> string \<Rightarrow> string \<Rightarrow> seconds \<Rightarrow> account_store \<Rightarrow> (refusal, int option) result \<times> account_store" where
  "totp_check env u code now st =
     (case get_account st u of
        None \<Rightarrow> (Inl (Raised ''AttributeError''), st)
      | Some account \<Rightarrow>
         (case mfa_totp (acc_mfa account) of
            None \<Rightarrow> (Inr None, st)
          | Some t \<Rightarrow>
             (case totp_step env (totp_secret t) code (last_step t) now of
                Inl e \<Rightarrow> (Inl e, st)
              | Inr None \<Rightarrow> (Inr None, st)
              | Inr (Some step) \<Rightarrow>
                  (Inr (Some step), or_unchanged st (set_mfa u ((acc_mfa account)\<lparr>mfa_totp := Some (t\<lparr>last_step := step\<rparr>)\<rparr>) st)))))"

subsection \<open>A code works once\<close>

lemma try_steps_result:
  "try_steps code_at code l cs = Inr (Some c) \<Longrightarrow> c \<in> set cs \<and> l < c \<and> code_at c = code"
  by (induction cs) (auto simp: compare_digest_def split: if_splits bool.splits)

lemma totp_step_result:
  assumes "totp_step env secret code l now = Inr (Some step)"
  shows "l < step \<and> totp_at env secret step = normalize_code code \<and> \<bar>step - \<lfloor>now / of_int TOTP_INTERVAL\<rfloor>\<bar> \<le> 1"
  using assms by (auto simp: totp_step_def Let_def simp del: try_steps.simps split: if_splits dest!: try_steps_result)

datatype totp_event = CodeTried string string seconds | AccountChanged account_op

fun totp_run :: "web_env \<Rightarrow> account_env \<Rightarrow> totp_event list \<Rightarrow> account_store \<Rightarrow> (string \<times> int \<times> string) list" where
  "totp_run env aenv [] st = []"
| "totp_run env aenv (CodeTried u code now # es) st =
     (let (r, st') = totp_check env u code now st
      in (case r of Inr (Some step) \<Rightarrow> [(u, step, code)] | _ \<Rightarrow> []) @ totp_run env aenv es st')"
| "totp_run env aenv (AccountChanged op # es) st = totp_run env aenv es (account_step aenv op st)"

definition totp_of :: "account_store \<Rightarrow> string \<Rightarrow> totp_factor option" where
  "totp_of st u = (case get_account st u of None \<Rightarrow> None | Some a \<Rightarrow> mfa_totp (acc_mfa a))"

text \<open>
  The changes that leave a user's authenticator app alone.  The handlers that add, use or remove a security key
  write all factors of the user back as they read them: the app among them is the one in the store unless the
  write is stale.
\<close>

fun keeps_app :: "string \<Rightarrow> account_store \<Rightarrow> account_op \<Rightarrow> bool" where
  "keeps_app u st (CompleteSetup current new_username _ _) = (u \<noteq> current \<and> u \<noteq> new_username)"
| "keeps_app u st (DeleteUser v) = (u \<noteq> v)"
| "keeps_app u st (SetMfa v mfa) = (u = v \<longrightarrow> mfa_totp mfa = totp_of st u)"
| "keeps_app u st (ResetMfa v) = (u \<noteq> v)"
| "keeps_app u st _ = True"

fun app_kept :: "web_env \<Rightarrow> account_env \<Rightarrow> string \<Rightarrow> totp_event list \<Rightarrow> account_store \<Rightarrow> bool" where
  "app_kept env aenv u [] st = True"
| "app_kept env aenv u (CodeTried v code now # es) st = app_kept env aenv u es (snd (totp_check env v code now st))"
| "app_kept env aenv u (AccountChanged op # es) st = (keeps_app u st op \<and> app_kept env aenv u es (account_step aenv op st))"

lemma totp_of_write:
  "dict_ok us \<Longrightarrow> totp_of (write_users us st) u = (case map_of us u of None \<Rightarrow> None | Some a \<Rightarrow> mfa_totp (acc_mfa a))"
  by (simp add: totp_of_def)

lemma account_step_totp:
  assumes "accounts_ok st" and "keeps_app u st op" and "totp_of st u = Some t"
  shows "totp_of (account_step aenv op st) u = Some t"
proof -
  have ok: "dict_ok (users st)" using assms(1) by (simp add: accounts_ok_def)
  obtain a where a: "get_account st u = Some a" "mfa_totp (acc_mfa a) = Some t"
    using assms(3) by (auto simp: totp_of_def split: option.splits)
  have upd: "totp_of (write_users (AList.update v b (users st)) st) u = Some t"
    if "v = u \<Longrightarrow> mfa_totp (acc_mfa b) = mfa_totp (acc_mfa a)" for v b
    using a that py_dict.ok_put [OF ok] by (auto simp: totp_of_write dict_simps get_account_def)
  have pw: "totp_of st' u = Some t" if p: "set_password v hash role change st = Inr st'" for v hash role change st'
  proof -
    obtain new_role mfa where "mfa = (case get_account st v of Some a \<Rightarrow> acc_mfa a | None \<Rightarrow> no_factors)"
      "st' = write_users (AList.update v \<lparr>acc_username = v, acc_password_hash = hash, acc_role = new_role, must_change = change, acc_mfa = mfa\<rparr> (users st)) st"
      using p by (auto simp: set_password_def Let_def)
    with a(1) show ?thesis by (simp add: upd)
  qed
  show ?thesis
  proof (cases op)
    case (SetPassword v hash role change)
    then show ?thesis using assms(3) by (auto simp: or_unchanged_def pw split: sum.splits)
  next
    case (CompleteSetup cur nu pw hash)
    have "totp_of st' u = Some t" if c: "complete_setup aenv cur nu pw hash st = Inr (x, st')" for x st'
    proof -
      have "dict_ok (AList.update nu x (AList.delete cur (users st)))" using ok by (simp add: dict_simps)
      with CompleteSetup assms(2) a c show ?thesis
        by (elim complete_setup_store) (auto simp: totp_of_write dict_simps get_account_def)
    qed
    with CompleteSetup assms(3) show ?thesis by (auto simp: or_unchanged_def split: sum.splits)
  next
    case (AddUser v pw hash role)
    then show ?thesis using assms(3) by (auto simp: or_unchanged_def add_user_def pw split: sum.splits)
  next
    case (SetRole v role)
    then show ?thesis using assms(3) a by (cases "v = u") (auto simp: or_unchanged_def set_role_def upd split: sum.splits)
  next
    case (DeleteUser v)
    then show ?thesis using assms(2,3) a py_dict.ok_del [OF ok]
      by (auto simp: or_unchanged_def delete_user_def totp_of_write dict_simps get_account_def split: sum.splits)
  next
    case (SetMfa v mfa)
    then show ?thesis using assms(2,3) a by (cases "v = u") (auto simp: or_unchanged_def set_mfa_def upd split: sum.splits)
  next
    case (ResetMfa v)
    then show ?thesis using assms(2,3) a by (auto simp: or_unchanged_def reset_mfa_def set_mfa_def upd split: sum.splits)
  next
    case (SetPolicy required)
    have "get_account (set_policy required st) u = get_account st u"
      using ok by (simp add: set_policy_def get_account_def write_users_def sorted_users)
    with SetPolicy assms(3) show ?thesis by (simp add: totp_of_def)
  next
    case (Verify v pw hash before)
    then show ?thesis using assms(3) a
      by (cases "v = u") (auto simp: verify_account_def Let_def upd split: option.split)
  qed
qed

lemma totp_check_store:
  assumes "accounts_ok st"
  shows "accounts_ok (snd (totp_check env u code now st))"
    and "v \<noteq> u \<Longrightarrow> totp_of (snd (totp_check env u code now st)) v = totp_of st v"
proof -
  have ok: "dict_ok (users st)" using assms by (simp add: accounts_ok_def)
  show "accounts_ok (snd (totp_check env u code now st))"
    using assms by (auto simp: totp_check_def or_unchanged_def set_mfa_def update_same_role split: option.splits sum.splits)
  show "v \<noteq> u \<Longrightarrow> totp_of (snd (totp_check env u code now st)) v = totp_of st v"
    using py_dict.ok_put [OF ok]
    by (auto simp: totp_check_def or_unchanged_def set_mfa_def totp_of_write dict_simps split: option.splits sum.splits)
       (simp_all add: totp_of_def get_account_def)
qed

lemma totp_check_steps:
  assumes "accounts_ok st" and "totp_of st u = Some t" and "totp_check env u code now st = (r, st')"
  shows "case r of Inr (Some step) \<Rightarrow> last_step t < step \<and> totp_at env (totp_secret t) step = normalize_code code
             \<and> \<bar>step - \<lfloor>now / of_int TOTP_INTERVAL\<rfloor>\<bar> \<le> 1 \<and> totp_of st' u = Some (t\<lparr>last_step := step\<rparr>)
           | _ \<Rightarrow> totp_of st' u = Some t"
proof -
  have ok: "dict_ok (users st)" using assms(1) by (simp add: accounts_ok_def)
  obtain a where a: "get_account st u = Some a" "mfa_totp (acc_mfa a) = Some t"
    using assms(2) by (auto simp: totp_of_def split: option.splits)
  show ?thesis
  proof (cases "totp_step env (totp_secret t) code (last_step t) now")
    case (Inl e)
    with assms(3) a have "r = Inl e \<and> st' = st" by (simp add: totp_check_def)
    with assms(2) show ?thesis by simp
  next
    case (Inr s)
    show ?thesis
    proof (cases s)
      case None
      with Inr assms(3) a have "r = Inr None \<and> st' = st" by (simp add: totp_check_def)
      with assms(2) show ?thesis by simp
    next
      case (Some step)
      with Inr assms(3) a have r: "r = Inr (Some step)"
        and st': "st' = write_users (AList.update u (a\<lparr>acc_mfa := (acc_mfa a)\<lparr>mfa_totp := Some (t\<lparr>last_step := step\<rparr>)\<rparr>\<rparr>) (users st)) st"
        by (auto simp: totp_check_def or_unchanged_def set_mfa_def no_such_user_def)
      show ?thesis using totp_step_result [OF Inr [unfolded Some]] py_dict.ok_put [OF ok]
        by (simp add: r st' totp_of_write dict_simps)
    qed
  qed
qed

text \<open>
  C36: a code from an authenticator app works once.  Whatever is tried -- right and wrong codes, for any
  account, in any order, from parallel requests, between other changes of the accounts -- the time steps
  whose codes were accepted for a user increase strictly, from the last one recorded when they enrolled:
  no code is accepted twice (for the same step), and each was the code of its step.  This is as long as
  the app stays enrolled and no change of the user's security keys is written back from a reading older
  than the last accepted code: those handlers read and write the factors outside the lock that the codes
  take, so such a write brings an old step back.
\<close>

theorem codes_work_once:
  assumes "accounts_ok st" and "totp_of st u = Some t" and "app_kept env aenv u es st"
  shows "let accepted = filter (\<lambda>(v, _). v = u) (totp_run env aenv es st) in
    sorted_wrt (<) (last_step t # map (\<lambda>(_, step, _). step) accepted)
    \<and> (\<forall>(_, step, code)\<in>set accepted. totp_at env (totp_secret t) step = normalize_code code)"
  using assms
proof (induction es arbitrary: st t)
  case Nil
  then show ?case by simp
next
  case (Cons e es)
  show ?case
  proof (cases e)
    case (AccountChanged op)
    have "accounts_ok (account_step aenv op st)" "totp_of (account_step aenv op st) u = Some t"
      using Cons.prems AccountChanged account_step_ok account_step_totp by auto
    with Cons.IH [OF this] Cons.prems(3) AccountChanged show ?thesis by simp
  next
    case (CodeTried v code now)
    obtain r st' where c: "totp_check env v code now st = (r, st')" by fastforce
    have ok: "accounts_ok st'" using totp_check_store(1) [OF Cons.prems(1), of env v code now] by (simp add: c)
    show ?thesis
    proof (cases "v = u")
      case False
      then have "totp_of st' u = Some t" using totp_check_store(2) [OF Cons.prems(1), of u v env code now] Cons.prems(2) by (simp add: c)
      from Cons.IH [OF ok this] Cons.prems(3) CodeTried False c show ?thesis
        by (auto simp: Let_def split: sum.split option.split)
    next
      case True
      note step = totp_check_steps [OF Cons.prems(1,2) c [unfolded True]]
      show ?thesis
      proof (cases "\<exists>s. r = Inr (Some s)")
        case True': True
        then obtain s where r: "r = Inr (Some s)" by blast
        with step have s: "last_step t < s" "totp_at env (totp_secret t) s = normalize_code code" "totp_of st' u = Some (t\<lparr>last_step := s\<rparr>)" by auto
        from Cons.IH [OF ok s(3)] Cons.prems(3) CodeTried True c r s(1,2) show ?thesis
          by (auto simp: Let_def dest: less_trans)
      next
        case False
        with step have "totp_of st' u = Some t" by (auto split: sum.splits option.splits)
        from Cons.IH [OF ok this] Cons.prems(3) CodeTried True c False show ?thesis
          by (auto simp: Let_def split: sum.split option.split)
      qed
    qed
  qed
qed

definition accounts2 :: account_store where
  "accounts2 = \<lparr>users = [(''eva'', \<lparr>acc_username = ''eva'', acc_password_hash = ''h'', acc_role = ROLE_ADMIN, must_change = False,
     acc_mfa = \<lparr>mfa_totp = Some \<lparr>totp_secret = ''x'', last_step = -1\<rparr>, mfa_webauthn = []\<rparr>\<rparr>)], require_mfa_for_admins = False\<rparr>"

definition web_env2 :: web_env where
  "web_env2 = web_env1\<lparr>totp_at := (\<lambda>_ step. if step = 0 then ''123456'' else ''654321'')\<rparr>"

lemmas totp_simps = totp_check_def get_account_def accounts2_def totp_step_def normalize_code_def strip_def is_space_def in_range_def
  py_isdigit_def is_digit_def web_env1_def web_env2_def compare_digest_def or_unchanged_def set_mfa_def no_such_user_def write_users_def Let_def
  TOTP_INTERVAL_def

theorem codes_work_once_witness:
  "totp_run web_env2 account_env0 [CodeTried ''eva'' ''123 456'' 0, CodeTried ''eva'' ''123456'' 0, CodeTried ''eva'' ''654321'' 30] accounts2
     = [(''eva'', 0, ''123 456''), (''eva'', 1, ''654321'')] \<and> sorted_wrt (<) [-1, 0, 1::int]"
proof -
  let ?es = "[CodeTried ''eva'' ''123 456'' 0, CodeTried ''eva'' ''123456'' 0, CodeTried ''eva'' ''654321'' 30]"
  have run: "totp_run web_env2 account_env0 ?es accounts2 = [(''eva'', 0, ''123 456''), (''eva'', 1, ''654321'')]"
    by (simp add: totp_simps)
  have "accounts_ok accounts2" by (simp add: accounts_ok_def accounts2_def dict_ok_def is_admin_def ROLES_def)
  from codes_work_once [OF this, of "''eva''" "\<lparr>totp_secret = ''x'', last_step = -1\<rparr>" web_env2 account_env0 ?es] run show ?thesis
    by (simp add: totp_of_def get_account_def accounts2_def)
qed

text \<open>
  A security key used in parallel brings the code back: the handler has read the account before the code was
  accepted and writes the factors it read afterwards, with the old step among them.
\<close>

lemma stale_factors_bring_code_back:
  "let stale = acc_mfa (the (get_account accounts2 ''eva''));
       es = [CodeTried ''eva'' ''123456'' 0, AccountChanged (SetMfa ''eva'' stale), CodeTried ''eva'' ''123456'' 0]
   in totp_run web_env2 account_env0 es accounts2 = [(''eva'', 0, ''123456''), (''eva'', 0, ''123456'')]"
  by (simp add: totp_simps)

subsection \<open>Login tickets (mfa.py)\<close>

definition TICKET_SECONDS :: seconds where "TICKET_SECONDS = 300"
definition MAX_CODE_ATTEMPTS :: nat where "MAX_CODE_ATTEMPTS = 5"
definition MAX_ACCOUNT_FAILURES :: nat where "MAX_ACCOUNT_FAILURES = 10"
definition ACCOUNT_LOCK_SECONDS :: seconds where "ACCOUNT_LOCK_SECONDS = 15 * 60"

record ticket =
  tk_user :: string
  tk_version :: string
  tk_expires :: seconds
  tk_attempts :: nat
  tk_secret :: "string option"

record ticket_store =
  tk_entries :: "(string, ticket) dict"
  tk_failures :: "(string, seconds list) dict"

definition ticket_create :: "web_env \<Rightarrow> string \<Rightarrow> admin_account \<Rightarrow> seconds \<Rightarrow> ticket_store \<Rightarrow> ticket_store" where
  "ticket_create env tid account now ts =
     ts\<lparr>tk_entries := AList.update (sha256 env tid)
         \<lparr>tk_user = acc_username account, tk_version = session_version env account, tk_expires = now + TICKET_SECONDS, tk_attempts = 0, tk_secret = None\<rparr>
         (filter (\<lambda>(_, e). tk_expires e > now) (tk_entries ts))\<rparr>"

definition ticket_get :: "web_env \<Rightarrow> string option \<Rightarrow> seconds \<Rightarrow> account_store \<Rightarrow> ticket_store \<Rightarrow> (ticket \<times> admin_account) option" where
  "ticket_get env tid now st ts =
     (case tid of None \<Rightarrow> None
      | Some i \<Rightarrow>
          if i = [] then None
          else case map_of (tk_entries ts) (sha256 env i) of None \<Rightarrow> None
            | Some e \<Rightarrow>
                if tk_expires e \<le> now then None
                else case get_account st (tk_user e) of None \<Rightarrow> None
                  | Some a \<Rightarrow> if session_version env a \<noteq> tk_version e then None else Some (e, a))"

definition tickets_locked :: "string \<Rightarrow> seconds \<Rightarrow> ticket_store \<Rightarrow> bool \<times> ticket_store" where
  "tickets_locked u now ts =
     (let recent' = filter (\<lambda>t. t > now - ACCOUNT_LOCK_SECONDS) (dict_get_or (tk_failures ts) u [])
      in (length recent' \<ge> MAX_ACCOUNT_FAILURES, ts\<lparr>tk_failures := AList.update u recent' (tk_failures ts)\<rparr>))"

definition ticket_fail :: "web_env \<Rightarrow> string \<Rightarrow> seconds \<Rightarrow> ticket_store \<Rightarrow> bool \<times> ticket_store" where
  "ticket_fail env tid now ts =
     (case map_of (tk_entries ts) (sha256 env tid) of None \<Rightarrow> (False, ts)
      | Some e \<Rightarrow>
          (let failures = AList.update (tk_user e) (dict_get_or (tk_failures ts) (tk_user e) [] @ [now]) (tk_failures ts);
               e' = e\<lparr>tk_attempts := Suc (tk_attempts e)\<rparr>
           in if tk_attempts e' \<ge> MAX_CODE_ATTEMPTS
              then (False, ts\<lparr>tk_failures := failures, tk_entries := AList.delete (sha256 env tid) (tk_entries ts)\<rparr>)
              else (True, ts\<lparr>tk_failures := failures, tk_entries := AList.update (sha256 env tid) e' (tk_entries ts)\<rparr>)))"

definition ticket_consume :: "web_env \<Rightarrow> string \<Rightarrow> ticket_store \<Rightarrow> bool \<times> ticket_store" where
  "ticket_consume env tid ts =
     (map_of (tk_entries ts) (sha256 env tid) \<noteq> None, ts\<lparr>tk_entries := AList.delete (sha256 env tid) (tk_entries ts)\<rparr>)"

subsection \<open>The handlers (routes/auth.py, routes/mfa.py)\<close>

record audit_entry =
  au_user :: string
  au_client :: string
  au_event :: string

record web_state =
  accounts :: account_store
  tickets :: ticket_store
  enrolments :: ticket_store
  sessions :: session_table
  signin_guard :: guard
  audit_log :: "audit_entry list"
  bans :: "(string \<times> int) list"

record guard_env =
  ip_address_of :: "string \<Rightarrow> py_address option"
  device_of :: "(string \<Rightarrow> string option) option"

datatype login_answer = RedirectTo string | SessionFor string string | TicketFor string | ServerError string

definition audit :: "string \<Rightarrow> string \<Rightarrow> string \<Rightarrow> web_state \<Rightarrow> web_state" where
  "audit u ip event w = w\<lparr>audit_log := audit_log w @ [\<lparr>au_user = u, au_client = ip, au_event = event\<rparr>]\<rparr>"

text \<open>\<open>reject_failed_login\<close> of \<open>Login_Guard\<close>, with the ban handed to the helper.\<close>

definition reject :: "guard_env \<Rightarrow> (nat \<Rightarrow> seconds) \<Rightarrow> string \<Rightarrow> string option \<Rightarrow> web_state \<Rightarrow> web_state" where
  "reject genv now ip account w =
     (case reject_failed_login (ip_address_of genv) (device_of genv) (now 0) (now 1) (now 2) ip account (signin_guard w) of
        (ban, _, g) \<Rightarrow> w\<lparr>signin_guard := g, bans := bans w @ (case ban of None \<Rightarrow> [] | Some b \<Rightarrow> [b])\<rparr>)"

definition success :: "guard_env \<Rightarrow> (nat \<Rightarrow> seconds) \<Rightarrow> string \<Rightarrow> admin_account \<Rightarrow> string \<Rightarrow> web_state \<Rightarrow> web_state" where
  "success genv now ip account event w =
     (let u = acc_username account;
          (new_source, g) = record_success (ip_address_of genv) (device_of genv) (now 0) (now 1) ip (Some u) (signin_guard w);
          w1 = audit u ip event (w\<lparr>signin_guard := g\<rparr>)
      in if new_source then audit u ip ''signed in from a new address'' w1 else w1)"

text \<open>\<open>create_cookie_value\<close>: the session \<open>sid\<close> is opened; the cookie is its signature.\<close>

definition issue_session :: "web_env \<Rightarrow> string \<Rightarrow> seconds \<Rightarrow> admin_account \<Rightarrow> web_state \<Rightarrow> login_answer \<times> web_state" where
  "issue_session env sid now account w =
     (SessionFor (acc_username account) sid, w\<lparr>sessions := session_add env sid (acc_username account) now (sessions w)\<rparr>)"

definition login_submit :: "web_env \<Rightarrow> account_env \<Rightarrow> guard_env \<Rightarrow> (nat \<Rightarrow> seconds) \<Rightarrow> string \<Rightarrow> string \<Rightarrow> string \<Rightarrow> string \<Rightarrow> string \<Rightarrow> web_state \<Rightarrow>
    login_answer \<times> web_state" where
  "login_submit env aenv genv now rnd hash ip u password w0 =
     (let (locked, g) = account_locked (ip_address_of genv) (device_of genv) (now 0) (now 1) u ip (signin_guard w0);
          w = w0\<lparr>signin_guard := g\<rparr>
      in if locked \<noteq> 0 then (RedirectTo ''/login'', audit u ip ''login refused: account locked'' w)
         else
           let (found, st) = verify_account aenv u password hash (accounts w) (accounts w); w1 = w\<lparr>accounts := st\<rparr> in
           case found of
             None \<Rightarrow> (RedirectTo ''/login'', reject genv (\<lambda>i. now (2 + i)) ip (Some u) (audit u ip ''login failed'' w1))
           | Some account \<Rightarrow>
               if has_mfa account
               then let (mfa_locked, ts) = tickets_locked (acc_username account) (now 2) (tickets w1); w2 = w1\<lparr>tickets := ts\<rparr> in
                    if mfa_locked then (RedirectTo ''/login'', audit u ip ''second factor locked'' w2)
                    else (TicketFor rnd, (audit u ip ''password ok, second factor pending'' w2)\<lparr>tickets := ticket_create env rnd account (now 3) ts\<rparr>)
               else issue_session env rnd (now 4) account (success genv (\<lambda>i. now (2 + i)) ip account ''login'' w1))"

definition finish_login :: "web_env \<Rightarrow> guard_env \<Rightarrow> (nat \<Rightarrow> seconds) \<Rightarrow> string \<Rightarrow> string \<Rightarrow> string \<Rightarrow> admin_account \<Rightarrow> string \<Rightarrow> web_state \<Rightarrow>
    login_answer \<times> web_state" where
  "finish_login env genv now sid ip tid account how w0 =
     (let (mine, ts) = ticket_consume env tid (tickets w0); w = w0\<lparr>tickets := ts\<rparr> in
      if \<not> mine then (RedirectTo ''/login'', w)
      else
        let w1 = success genv now ip account (''login ('' @ how @ '')'') w in
        case get_account (accounts w1) (acc_username account) of
          None \<Rightarrow> (ServerError ''AttributeError'', w1)
        | Some a \<Rightarrow> issue_session env sid (now 2) a w1)"

definition mfa_totp_submit :: "web_env \<Rightarrow> guard_env \<Rightarrow> (nat \<Rightarrow> seconds) \<Rightarrow> string \<Rightarrow> string \<Rightarrow> string option \<Rightarrow> string \<Rightarrow> web_state \<Rightarrow>
    login_answer \<times> web_state" where
  "mfa_totp_submit env genv now sid ip tid code w0 =
     (case ticket_get env tid (now 0) (accounts w0) (tickets w0) of
        None \<Rightarrow> (RedirectTo ''/login'', w0)
      | Some (_, account) \<Rightarrow>
         (let u = acc_username account;
              (locked, ts) = tickets_locked u (now 1) (tickets w0); w = w0\<lparr>tickets := ts\<rparr>
          in if locked then (RedirectTo ''/login'', w)
             else
               case totp_check env u code (now 2) (accounts w) of
                 (Inl (Raised e), st) \<Rightarrow> (ServerError e, w\<lparr>accounts := st\<rparr>)
               | (Inl _, st) \<Rightarrow> (RedirectTo ''/login'', w\<lparr>accounts := st\<rparr>)
               | (Inr None, st) \<Rightarrow>
                   (let w1 = audit u ip ''second factor failed'' (w\<lparr>accounts := st\<rparr>);
                        (usable, ts1) = ticket_fail env (the tid) (now 3) (tickets w1)
                    in (RedirectTo (if usable then ''/login/mfa'' else ''/login''), reject genv (\<lambda>i. now (4 + i)) ip None (w1\<lparr>tickets := ts1\<rparr>)))
               | (Inr (Some step), st) \<Rightarrow>
                   finish_login env genv (\<lambda>i. now (3 + i)) sid ip (the tid) account ''TOTP'' (w\<lparr>accounts := st\<rparr>)))"

definition logout :: "web_env \<Rightarrow> string option \<Rightarrow> seconds \<Rightarrow> web_state \<Rightarrow> login_answer \<times> web_state" where
  "logout env cookie now w = (RedirectTo ''/login'', w\<lparr>sessions := revoke_cookie env cookie now (sessions w)\<rparr>)"

subsection \<open>What opens a session\<close>

lemma reject_keeps [simp]:
  "accounts (reject genv now ip a w) = accounts w" "sessions (reject genv now ip a w) = sessions w" "tickets (reject genv now ip a w) = tickets w"
  by (simp_all add: reject_def split: prod.split)

lemma success_keeps [simp]:
  "accounts (success genv now ip a e w) = accounts w" "sessions (success genv now ip a e w) = sessions w" "tickets (success genv now ip a e w) = tickets w"
  by (simp_all add: success_def audit_def Let_def split: prod.split)

text \<open>The password alone opens a session only for an account without a second factor.\<close>

lemma password_session:
  assumes "login_submit env aenv genv now rnd hash ip u password w = (SessionFor u' sid, w')"
  shows "\<exists>account. fst (verify_account aenv u password hash (accounts w) (accounts w)) = Some account
    \<and> \<not> has_mfa account \<and> u' = acc_username account \<and> sid = rnd"
  using assms by (auto simp: login_submit_def issue_session_def Let_def split: prod.splits option.splits if_splits)

text \<open>
  A code opens a session only for the holder of a live ticket, made after the password was checked and
  while the account has the same password, when the account is not locked and the code is right; the
  ticket is gone afterwards.
\<close>

lemma ticket_getD:
  assumes "ticket_get env tid now st ts = Some (e, a)"
  shows "\<exists>i. tid = Some i \<and> map_of (tk_entries ts) (sha256 env i) = Some e \<and> now < tk_expires e
    \<and> get_account st (tk_user e) = Some a \<and> session_version env a = tk_version e"
  using assms by (auto simp: ticket_get_def split: option.splits if_splits)

lemma finish_login_session:
  assumes "finish_login env genv now sid ip i account how w = (SessionFor u sid', w')"
  shows "sid' = sid \<and> map_of (tk_entries (tickets w')) (sha256 env i) = None
    \<and> (\<exists>a. get_account (accounts w) (acc_username account) = Some a \<and> u = acc_username a)"
  using assms by (auto simp: finish_login_def ticket_consume_def issue_session_def Let_def dict_simps split: prod.splits option.splits if_splits)

lemma second_factor_session:
  assumes "mfa_totp_submit env genv now sid ip tid code w = (SessionFor u sid', w')"
  shows "\<exists>i e a step st. tid = Some i \<and> map_of (tk_entries (tickets w)) (sha256 env i) = Some e \<and> now 0 < tk_expires e
    \<and> get_account (accounts w) (tk_user e) = Some a \<and> session_version env a = tk_version e
    \<and> \<not> fst (tickets_locked (acc_username a) (now 1) (tickets w))
    \<and> totp_check env (acc_username a) code (now 2) (accounts w) = (Inr (Some step), st)
    \<and> map_of (tk_entries (tickets w')) (sha256 env i) = None"
proof -
  obtain e a where g: "ticket_get env tid (now 0) (accounts w) (tickets w) = Some (e, a)"
    using assms by (auto simp: mfa_totp_submit_def split: option.splits)
  from ticket_getD [OF g] obtain i where i: "tid = Some i" "map_of (tk_entries (tickets w)) (sha256 env i) = Some e" "now 0 < tk_expires e"
    "get_account (accounts w) (tk_user e) = Some a" "session_version env a = tk_version e" by blast
  obtain locked ts where l: "tickets_locked (acc_username a) (now 1) (tickets w) = (locked, ts)" by fastforce
  obtain r st where r: "totp_check env (acc_username a) code (now 2) (accounts w) = (r, st)" by fastforce
  have open_now: "\<not> locked" using assms g l by (auto simp: mfa_totp_submit_def Let_def)
  have "\<exists>step. r = Inr (Some step)"
  proof (rule ccontr)
    assume none: "\<nexists>step. r = Inr (Some step)"
    show False
    proof (cases r)
      case (Inl f)
      then show False using assms g l r open_now by (cases f) (simp_all add: mfa_totp_submit_def Let_def)
    next
      case (Inr x)
      with none have "x = None" by (cases x) auto
      with Inr show False using assms g l r open_now by (simp add: mfa_totp_submit_def Let_def split: prod.splits)
    qed
  qed
  then obtain step where step: "r = Inr (Some step)" by blast
  have "finish_login env genv (\<lambda>n. now (3 + n)) sid ip i a ''TOTP'' (w\<lparr>tickets := ts, accounts := st\<rparr>) = (SessionFor u sid', w')"
    using assms g l r open_now step i(1) by (simp add: mfa_totp_submit_def Let_def)
  from finish_login_session [OF this] have "map_of (tk_entries (tickets w')) (sha256 env i) = None" by blast
  with i l open_now r step show ?thesis by simp
qed

text \<open>A ticket allows \<open>MAX_CODE_ATTEMPTS\<close> wrong codes and is gone after them.\<close>

primrec fail_often :: "web_env \<Rightarrow> string \<Rightarrow> seconds list \<Rightarrow> ticket_store \<Rightarrow> ticket_store" where
  "fail_often env tid [] ts = ts"
| "fail_often env tid (t # us) ts = fail_often env tid us (snd (ticket_fail env tid t ts))"

lemma ticket_gone:
  assumes "map_of (tk_entries ts) (sha256 env tid) = None"
  shows "map_of (tk_entries (fail_often env tid us ts)) (sha256 env tid) = None"
  using assms by (induction us arbitrary: ts) (simp_all add: ticket_fail_def)

lemma ticket_attempts:
  assumes "map_of (tk_entries ts) (sha256 env tid) = Some e" and "tk_attempts e + length us \<ge> MAX_CODE_ATTEMPTS" and "tk_attempts e < MAX_CODE_ATTEMPTS"
  shows "map_of (tk_entries (fail_often env tid us ts)) (sha256 env tid) = None"
  using assms
proof (induction us arbitrary: ts e)
  case (Cons t us)
  show ?case
  proof (cases "Suc (tk_attempts e) \<ge> MAX_CODE_ATTEMPTS")
    case True
    with Cons.prems show ?thesis by (simp add: ticket_fail_def Let_def ticket_gone dict_simps)
  next
    case False
    with Cons.prems show ?thesis
      by (simp add: ticket_fail_def Let_def dict_simps Cons.IH [of _ "e\<lparr>tk_attempts := Suc (tk_attempts e)\<rparr>"])
  qed
qed simp

end
