(* ===== verification/Account_Routes.thy ===== *)
theory Account_Routes
  imports Sign_In
begin

text \<open>
  The handlers that change accounts: \<open>src/src/frfw/webui/routes/accounts.py\<close>, first-run setup
  (\<open>src/src/frfw/webui/routes/auth.py\<close>) and the enrolment and removal of authenticator apps
  (\<open>src/src/frfw/webui/routes/mfa.py\<close>).  Each runs after \<open>require_login\<close> or \<open>require_admin\<close>: \<open>me\<close> is the account
  they returned.  \<open>Inl\<close> is a redirect to the form with an error.  An audit entry keeps the user, the client
  and the event or alert; names in it are quoted plainly.

  Whatever the handlers do to the accounts and the sessions is a sequence of the steps of \<open>Accounts\<close> and
  \<open>Sign_In\<close>, so their properties hold of the handlers; and a changed password, a reset and a deletion end
  every session of the account.
\<close>

type_synonym route_answer = "(account_error, login_answer) result \<times> web_state"

definition end_sessions :: "string \<Rightarrow> web_state \<Rightarrow> web_state" where
  "end_sessions u w = w\<lparr>sessions := snd (session_revoke_user u (sessions w))\<rparr>"

definition account_action :: "web_state account_result \<Rightarrow> web_state \<Rightarrow> route_answer" where
  "account_action r w = (case r of Inl e \<Rightarrow> (Inl e, w) | Inr w' \<Rightarrow> (Inr (RedirectTo ''/users''), w'))"

definition add_user_route :: "account_env \<Rightarrow> string \<Rightarrow> admin_account \<Rightarrow> string \<Rightarrow> string \<Rightarrow> string \<Rightarrow> string \<Rightarrow> web_state \<Rightarrow> route_answer" where
  "add_user_route aenv ip me new_username new_password hash role w =
     account_action (bind_result (add_user aenv (strip new_username) new_password hash role (accounts w)) (\<lambda>st.
       let w1 = w\<lparr>accounts := st\<rparr> in
       Inr (if role = ROLE_ADMIN then audit (acc_username me) ip (''new admin account '' @ strip new_username @ '' added'') w1 else w1))) w"

definition change_role :: "string \<Rightarrow> admin_account \<Rightarrow> string \<Rightarrow> string \<Rightarrow> web_state \<Rightarrow> route_answer" where
  "change_role ip me target role w =
     account_action (bind_result (set_role target role (accounts w)) (\<lambda>st.
       let w1 = w\<lparr>accounts := st\<rparr> in
       Inr (case get_account (accounts w) target of
              Some before \<Rightarrow> if role = ROLE_ADMIN \<and> \<not> is_admin before then audit (acc_username me) ip (target @ '' made an admin'') w1 else w1
            | None \<Rightarrow> w1))) w"

definition reset_password :: "account_env \<Rightarrow> string \<Rightarrow> admin_account \<Rightarrow> string \<Rightarrow> string \<Rightarrow> string \<Rightarrow> web_state \<Rightarrow> route_answer" where
  "reset_password aenv ip me target new_password hash w =
     account_action (bind_result (no_such_user (accounts w) target) (\<lambda>account.
       bind_result (validate_password aenv new_password (Some target)) (\<lambda>_.
       bind_result (set_password target hash None False (accounts w)) (\<lambda>st.
       let w1 = end_sessions target (w\<lparr>accounts := st\<rparr>) in
       Inr (if is_admin account \<and> target \<noteq> acc_username me then audit (acc_username me) ip (''password of admin '' @ target @ '' reset'') w1 else w1))))) w"

definition delete_user_route :: "string \<Rightarrow> web_state \<Rightarrow> route_answer" where
  "delete_user_route target w =
     account_action (bind_result (delete_user target (accounts w)) (\<lambda>st. Inr (end_sessions target (w\<lparr>accounts := st\<rparr>)))) w"

text \<open>
  \<open>change_own_password\<close> reads the accounts once to check the password and again, without a lock in between, to
  set the new one: \<open>own_password_check\<close> and \<open>own_password_set\<close> are the two parts.
\<close>

definition own_password_check :: "account_env \<Rightarrow> string \<Rightarrow> string \<Rightarrow> string \<Rightarrow> string \<Rightarrow> string \<Rightarrow> account_store \<Rightarrow> unit account_result \<times> account_store" where
  "own_password_check aenv u current_password hash new_password confirm st =
     (let (found, st') = verify_account aenv u current_password hash st st in
      (case found of
         None \<Rightarrow> Inl (AccountError ''Current password is wrong'')
       | Some _ \<Rightarrow> bind_result (refuse (new_password \<noteq> confirm) ''New passwords do not match'') (\<lambda>_. validate_password aenv new_password (Some u)), st'))"

definition own_password_set :: "web_env \<Rightarrow> seconds \<Rightarrow> string \<Rightarrow> string \<Rightarrow> string \<Rightarrow> web_state \<Rightarrow> login_answer \<times> web_state" where
  "own_password_set env now sid u hash w =
     (case set_password u hash None False (accounts w) of
        Inl _ \<Rightarrow> (ServerError ''AccountError'', w)
      | Inr st \<Rightarrow>
          (let w1 = end_sessions u (w\<lparr>accounts := st\<rparr>) in
           case get_account (accounts w1) u of None \<Rightarrow> (ServerError ''AttributeError'', w1) | Some a \<Rightarrow> issue_session env sid now a w1))"

definition change_own_password :: "web_env \<Rightarrow> account_env \<Rightarrow> seconds \<Rightarrow> string \<Rightarrow> admin_account \<Rightarrow> string \<Rightarrow> string \<Rightarrow> string \<Rightarrow> string \<Rightarrow> string \<Rightarrow> web_state \<Rightarrow> route_answer" where
  "change_own_password env aenv now sid me current_password rehash new_password hash confirm w =
     (let (checked, st) = own_password_check aenv (acc_username me) current_password rehash new_password confirm (accounts w); w1 = w\<lparr>accounts := st\<rparr> in
      case checked of Inl e \<Rightarrow> (Inl e, w1)
      | Inr _ \<Rightarrow> (case own_password_set env now sid (acc_username me) hash w1 of (answer, w2) \<Rightarrow> (Inr answer, w2)))"

definition logout_everywhere :: "admin_account \<Rightarrow> web_state \<Rightarrow> route_answer" where
  "logout_everywhere me w =
     (let (ended, d) = session_revoke_user (acc_username me) (sessions w) in
      (Inr (RedirectTo ''/login''), audit (acc_username me) [] (''logged out everywhere ('' @ show_nat ended @ '' session(s))'') (w\<lparr>sessions := d\<rparr>)))"

definition setup_submit :: "web_env \<Rightarrow> account_env \<Rightarrow> seconds \<Rightarrow> string \<Rightarrow> string \<Rightarrow> admin_account \<Rightarrow> string \<Rightarrow> string \<Rightarrow> string \<Rightarrow> string \<Rightarrow> web_state \<Rightarrow> route_answer" where
  "setup_submit env aenv now sid ip me new_username password hash confirm w =
     (if \<not> must_change me then (Inr (RedirectTo ''/''), w)
      else if password \<noteq> confirm then (Inl (AccountError ''Passwords do not match''), w)
      else
        case complete_setup aenv (acc_username me) new_username password hash (accounts w) of
          Inl e \<Rightarrow> (Inl e, w)
        | Inr (account, st) \<Rightarrow>
            (case issue_session env sid now account (audit (acc_username account) ip (''first-run setup: renamed '' @ acc_username me)
                (end_sessions (acc_username me) (w\<lparr>accounts := st\<rparr>))) of (answer, w2) \<Rightarrow> (Inr answer, w2)))"

subsection \<open>Authenticator apps\<close>

text \<open>The secret shown is kept in a ticket of its own store until its first code confirms it.\<close>

definition mfa_totp_start :: "web_env \<Rightarrow> seconds \<Rightarrow> string \<Rightarrow> string \<Rightarrow> admin_account \<Rightarrow> web_state \<Rightarrow> route_answer" where
  "mfa_totp_start env now tid secret me w =
     (case get_account (accounts w) (acc_username me) of
        None \<Rightarrow> (Inr (ServerError ''AttributeError''), w)
      | Some account \<Rightarrow>
          (let ts = ticket_create env tid account now (enrolments w);
               es = map (\<lambda>(k, e). if k = sha256 env tid then (k, e\<lparr>tk_secret := Some secret\<rparr>) else (k, e)) (tk_entries ts)
           in (Inr (TicketFor tid), w\<lparr>enrolments := ts\<lparr>tk_entries := es\<rparr>\<rparr>)))"

definition mfa_totp_confirm :: "web_env \<Rightarrow> account_env \<Rightarrow> (nat \<Rightarrow> seconds) \<Rightarrow> string \<Rightarrow> admin_account \<Rightarrow> string \<Rightarrow> string \<Rightarrow> string \<Rightarrow> string \<Rightarrow> web_state \<Rightarrow> route_answer" where
  "mfa_totp_confirm env aenv now ip me tid code password hash w0 =
     (let u = acc_username me; (found, st) = verify_account aenv u password hash (accounts w0) (accounts w0); w = w0\<lparr>accounts := st\<rparr> in
      if found = None then (Inl (AccountError ''Current password is wrong''), w)
      else
        case ticket_get env (Some tid) (now 0) (accounts w) (enrolments w) of
          None \<Rightarrow> (Inl (AccountError ''That setup expired -- start again''), w)
        | Some (e, a) \<Rightarrow>
           (case tk_secret e of
              None \<Rightarrow> (Inl (AccountError ''That setup expired -- start again''), w)
            | Some secret \<Rightarrow>
                if acc_username a \<noteq> u then (Inl (AccountError ''That setup expired -- start again''), w)
                else
                  case totp_step env secret code (-1) (now 1) of
                    Inl _ \<Rightarrow> (Inr (ServerError ''TypeError''), w)
                  | Inr None \<Rightarrow> (Inl (AccountError ''The code did not match''), w)
                  | Inr (Some step) \<Rightarrow>
                      (let w1 = w\<lparr>enrolments := snd (ticket_consume env tid (enrolments w))\<rparr> in
                       case get_account (accounts w1) u of
                         None \<Rightarrow> (Inr (ServerError ''AttributeError''), w1)
                       | Some account \<Rightarrow>
                           (Inr (RedirectTo ''/account/mfa''), audit u ip ''added authenticator app''
                              (w1\<lparr>accounts := or_unchanged (accounts w1)
                                 (set_mfa u ((acc_mfa account)\<lparr>mfa_totp := Some \<lparr>totp_secret = secret, last_step = step\<rparr>\<rparr>) (accounts w1))\<rparr>)))))"

definition mfa_remove :: "account_env \<Rightarrow> string \<Rightarrow> admin_account \<Rightarrow> string \<Rightarrow> string \<Rightarrow> string \<Rightarrow> string \<Rightarrow> web_state \<Rightarrow> route_answer" where
  "mfa_remove aenv ip me kind password hash kid w0 =
     (let u = acc_username me; (found, st) = verify_account aenv u password hash (accounts w0) (accounts w0); w = w0\<lparr>accounts := st\<rparr> in
      if found = None then (Inl (AccountError ''Current password is wrong''), w)
      else
        case get_account (accounts w) u of
          None \<Rightarrow> (Inr (ServerError ''AttributeError''), w)
        | Some account \<Rightarrow>
            let current = acc_mfa account in
            if kind \<notin> {''totp'', ''webauthn''} then (Inl (AccountError ''Unknown factor''), w)
            else
              let left = (if kind = ''totp'' then current\<lparr>mfa_totp := None\<rparr>
                else current\<lparr>mfa_webauthn := filter (\<lambda>c. key_id c \<noteq> kid) (mfa_webauthn current)\<rparr>)
              in (Inr (RedirectTo ''/account/mfa''), audit u ip (u @ '' removed a second factor ('' @ kind @ '')'')
                    (w\<lparr>accounts := or_unchanged (accounts w) (set_mfa u left (accounts w))\<rparr>)))"

definition mfa_policy :: "string \<Rightarrow> admin_account \<Rightarrow> bool \<Rightarrow> web_state \<Rightarrow> route_answer" where
  "mfa_policy ip me required w =
     (let was_required = require_mfa_for_admins (accounts w); w1 = w\<lparr>accounts := set_policy required (accounts w)\<rparr> in
      (Inr (RedirectTo ''/users''), audit (acc_username me) ip
        (if required \<or> \<not> was_required then ''require MFA for admins: '' @ (if required then ''True'' else ''False'')
         else acc_username me @ '' turned the second-factor requirement for admins off'') w1))"

definition mfa_reset :: "string \<Rightarrow> admin_account \<Rightarrow> string \<Rightarrow> web_state \<Rightarrow> route_answer" where
  "mfa_reset ip me target w =
     (case reset_mfa target (accounts w) of
        Inl e \<Rightarrow> (Inl e, w)
      | Inr st \<Rightarrow> (Inr (RedirectTo ''/users''), audit (acc_username me) ip (''second factors of '' @ target @ '' removed'')
          (end_sessions target (w\<lparr>accounts := st\<rparr>))))"

subsection \<open>The handlers take the steps of the stores\<close>

definition account_effect :: "account_env \<Rightarrow> account_store \<Rightarrow> account_store \<Rightarrow> bool" where
  "account_effect aenv st st' \<longleftrightarrow> (\<exists>ops. st' = account_run aenv ops st)"

definition session_effect :: "web_env \<Rightarrow> session_table \<Rightarrow> session_table \<Rightarrow> bool" where
  "session_effect env d d' \<longleftrightarrow> (\<exists>es. d' = fold (session_step env) es d)"

named_theorems effects
named_theorems if_effects

lemma account_effect_op: "account_effect aenv st (account_step aenv op st)"
  unfolding account_effect_def account_run_def by (intro exI [of _ "[op]"]) simp

lemma account_effect_refl [effects]: "account_effect aenv st st"
  unfolding account_effect_def account_run_def by (intro exI [of _ "[]"]) simp

lemma account_effect_trans: "account_effect aenv st st1 \<Longrightarrow> account_effect aenv st1 st2 \<Longrightarrow> account_effect aenv st st2"
  unfolding account_effect_def account_run_def by (metis fold_append comp_apply)

lemma session_effect_op: "session_effect env d (session_step env e d)"
  unfolding session_effect_def by (intro exI [of _ "[e]"]) simp

lemma session_effect_refl [effects]: "session_effect env d d"
  unfolding session_effect_def by (intro exI [of _ "[]"]) simp

lemma session_effect_trans: "session_effect env d d1 \<Longrightarrow> session_effect env d1 d2 \<Longrightarrow> session_effect env d d2"
  unfolding session_effect_def by (metis fold_append comp_apply)

lemma account_effects [effects]:
  "account_effect aenv st (snd (verify_account aenv u pw hash st' st))"
  "account_effect aenv st (or_unchanged st (set_mfa u mfa st))"
  "account_effect aenv st (set_policy required st)"
  using account_effect_op [of aenv st "Verify u pw hash st'"] account_effect_op [of aenv st "SetMfa u mfa"] account_effect_op [of aenv st "SetPolicy required"]
  by simp_all

lemma account_if_effects [if_effects]:
  "set_password u hash r change st = Inr st1 \<Longrightarrow> account_effect aenv st st1"
  "add_user aenv u pw hash role st = Inr st1 \<Longrightarrow> account_effect aenv st st1"
  "set_role u role st = Inr st1 \<Longrightarrow> account_effect aenv st st1"
  "delete_user u st = Inr st1 \<Longrightarrow> account_effect aenv st st1"
  "complete_setup aenv cur nu pw hash st = Inr (a, st1) \<Longrightarrow> account_effect aenv st st1"
  "reset_mfa u st = Inr st1 \<Longrightarrow> account_effect aenv st st1"
  using account_effect_op [of aenv st "SetPassword u hash r change"] account_effect_op [of aenv st "AddUser u pw hash role"]
    account_effect_op [of aenv st "SetRole u role"] account_effect_op [of aenv st "DeleteUser u"]
    account_effect_op [of aenv st "CompleteSetup cur nu pw hash"] account_effect_op [of aenv st "ResetMfa u"]
  by (simp_all add: or_unchanged_def)

lemma session_effects [effects]:
  "session_effect env d (session_add env sid u now d)"
  "session_effect env d (session_revoke env sid d)"
  "session_effect env d (snd (session_revoke_user u d))"
  "session_effect env d (session_add env sid u' now (snd (session_revoke_user u d)))"
  "session_effect env d (revoke_cookie env cookie now d)"
  using session_effect_op [of env d "AddSession sid u now"] session_effect_op [of env d "RevokeSession sid"] session_effect_op [of env d "RevokeUser u"]
    session_effect_trans [OF session_effect_op [of env d "RevokeUser u"] session_effect_op [of env _ "AddSession sid u' now"]]
    session_effect_op [of env d "RevokeSession (snd (snd (the (load_cookie env cookie now))))"] session_effect_refl [of env d]
  by (auto simp: revoke_cookie_def split: option.split)

lemma audit_keeps [simp]:
  "accounts (audit u ip e w) = accounts w" "sessions (audit u ip e w) = sessions w" "tickets (audit u ip e w) = tickets w"
  by (simp_all add: audit_def)

lemma end_sessions_keeps [simp]:
  "accounts (end_sessions u w) = accounts w" "sessions (end_sessions u w) = snd (session_revoke_user u (sessions w))"
  by (simp_all add: end_sessions_def)

text \<open>
  One request at a time: what the handlers of sign-in, setup, accounts and authenticator apps do to the
  state of the web interface.
\<close>

inductive route_step :: "web_env \<Rightarrow> account_env \<Rightarrow> web_state \<Rightarrow> web_state \<Rightarrow> bool" for env aenv where
  login: "login_submit env aenv genv now rnd hash ip u password w = (r, w') \<Longrightarrow> route_step env aenv w w'"
| second_factor: "mfa_totp_submit env genv now sid ip tid code w = (r, w') \<Longrightarrow> route_step env aenv w w'"
| logout: "logout env cookie t w = (r, w') \<Longrightarrow> route_step env aenv w w'"
| first_setup: "setup_submit env aenv t sid ip me new_username password hash confirm w = (r, w') \<Longrightarrow> route_step env aenv w w'"
| add: "add_user_route aenv ip me new_username password hash role w = (r, w') \<Longrightarrow> route_step env aenv w w'"
| role: "change_role ip me target role w = (r, w') \<Longrightarrow> route_step env aenv w w'"
| reset: "reset_password aenv ip me target password hash w = (r, w') \<Longrightarrow> route_step env aenv w w'"
| delete: "delete_user_route target w = (r, w') \<Longrightarrow> route_step env aenv w w'"
| own_password: "change_own_password env aenv t sid me password rehash new_password hash confirm w = (r, w') \<Longrightarrow> route_step env aenv w w'"
| everywhere: "logout_everywhere me w = (r, w') \<Longrightarrow> route_step env aenv w w'"
| totp_start: "mfa_totp_start env t tid secret me w = (r, w') \<Longrightarrow> route_step env aenv w w'"
| totp_confirm: "mfa_totp_confirm env aenv now ip me tid code password hash w = (r, w') \<Longrightarrow> route_step env aenv w w'"
| remove: "mfa_remove aenv ip me kind password hash kid w = (r, w') \<Longrightarrow> route_step env aenv w w'"
| policy: "mfa_policy ip me required w = (r, w') \<Longrightarrow> route_step env aenv w w'"
| reset_factors: "mfa_reset ip me target w = (r, w') \<Longrightarrow> route_step env aenv w w'"

lemma verify_account_effect:
  "verify_account aenv u pw hash st st = (found, st1) \<Longrightarrow> account_effect aenv st st1"
  using account_effects(1) [of aenv st u pw hash st] by simp

lemma revoke_user_effect: "session_revoke_user u d = (n, d') \<Longrightarrow> session_effect env d d'"
  using session_effects(3) [of env d u] by simp

lemma totp_check_effect: "totp_check env u code now st = (r, st1) \<Longrightarrow> account_effect aenv st st1"
  by (auto simp: totp_check_def intro!: effects intro: if_effects split: option.splits sum.splits)

lemma issue_session_keeps:
  "issue_session env sid now a w = (r, w') \<Longrightarrow> accounts w' = accounts w \<and> sessions w' = session_add env sid (acc_username a) now (sessions w)"
  by (auto simp: issue_session_def)

lemma finish_login_effect:
  "finish_login env genv now sid ip tid a how w = (r, w') \<Longrightarrow> accounts w' = accounts w \<and> session_effect env (sessions w) (sessions w')"
  by (auto simp: finish_login_def ticket_consume_def issue_session_def Let_def split: if_splits option.splits intro!: effects intro: if_effects)

lemma login_effect:
  assumes "login_submit env aenv genv now rnd hash ip u password w = (r, w')"
  shows "account_effect aenv (accounts w) (accounts w') \<and> session_effect env (sessions w) (sessions w')"
  using assms
  by (auto simp: login_submit_def issue_session_def Let_def split: prod.splits option.splits if_splits intro!: effects intro: if_effects dest: verify_account_effect)

lemma second_factor_effect:
  assumes "mfa_totp_submit env genv now sid ip tid code w = (r, w')"
  shows "account_effect aenv (accounts w) (accounts w') \<and> session_effect env (sessions w) (sessions w')"
proof (cases "ticket_get env tid (now 0) (accounts w) (tickets w)")
  case None
  with assms show ?thesis by (auto simp: mfa_totp_submit_def intro!: effects intro: if_effects)
next
  case (Some ea)
  obtain e a where ea: "ea = (e, a)" by fastforce
  obtain locked ts where l: "tickets_locked (acc_username a) (now 1) (tickets w) = (locked, ts)" by fastforce
  obtain x st where x: "totp_check env (acc_username a) code (now 2) (accounts w) = (x, st)" by fastforce
  note st = totp_check_effect [OF x]
  show ?thesis
  proof (cases "locked \<or> (\<nexists>step. x = Inr (Some step))")
    case True
    have "(accounts w' = accounts w \<or> accounts w' = st) \<and> sessions w' = sessions w"
    proof (cases x)
      case (Inl f)
      with True assms Some ea l x show ?thesis by (cases f; cases locked) (auto simp: mfa_totp_submit_def Let_def)
    next
      case (Inr o')
      with True assms Some ea l x show ?thesis by (cases o'; cases locked) (auto simp: mfa_totp_submit_def Let_def split: prod.splits)
    qed
    with st show ?thesis by (auto intro!: effects intro: if_effects)
  next
    case False
    then obtain step where "x = Inr (Some step)" "\<not> locked" by blast
    with assms Some ea l x have "finish_login env genv (\<lambda>n. now (3 + n)) sid ip (the tid) a ''TOTP'' (w\<lparr>tickets := ts, accounts := st\<rparr>) = (r, w')"
      by (simp add: mfa_totp_submit_def Let_def)
    from finish_login_effect [OF this] st show ?thesis by simp
  qed
qed

lemma totp_confirm_effect:
  assumes "mfa_totp_confirm env aenv now ip me tid code password hash w = (r, w')"
  shows "account_effect aenv (accounts w) (accounts w') \<and> sessions w' = sessions w"
proof -
  obtain found st where v: "verify_account aenv (acc_username me) password hash (accounts w) (accounts w) = (found, st)" by fastforce
  have "account_effect aenv st (accounts w') \<and> sessions w' = sessions w"
    using assms v by (auto simp: mfa_totp_confirm_def Let_def split: if_splits option.splits sum.splits intro!: effects intro: if_effects)
  with account_effect_trans [OF verify_account_effect [OF v]] show ?thesis by blast
qed

lemma remove_effect:
  assumes "mfa_remove aenv ip me kind password hash kid w = (r, w')"
  shows "account_effect aenv (accounts w) (accounts w') \<and> sessions w' = sessions w"
proof -
  obtain found st where v: "verify_account aenv (acc_username me) password hash (accounts w) (accounts w) = (found, st)" by fastforce
  have "account_effect aenv st (accounts w') \<and> sessions w' = sessions w"
    using assms v by (auto simp: mfa_remove_def Let_def split: if_splits option.splits intro!: effects intro: if_effects)
  with account_effect_trans [OF verify_account_effect [OF v]] show ?thesis by blast
qed

lemma own_password_effect:
  assumes "change_own_password env aenv t sid me password rehash new_password hash confirm w = (r, w')"
  shows "account_effect aenv (accounts w) (accounts w') \<and> session_effect env (sessions w) (sessions w')"
proof -
  obtain checked st where c: "own_password_check aenv (acc_username me) password rehash new_password confirm (accounts w) = (checked, st)" by fastforce
  have st: "account_effect aenv (accounts w) st"
    using c account_effects(1) by (auto simp: own_password_check_def Let_def split: prod.splits dest: verify_account_effect)
  have "(accounts w' = st \<or> set_password (acc_username me) hash None False st = Inr (accounts w')) \<and> session_effect env (sessions w) (sessions w')"
    using assms c
    by (auto simp: change_own_password_def own_password_set_def issue_session_def Let_def split: sum.splits prod.splits option.splits intro!: effects intro: if_effects)
  with st account_effect_trans [OF st account_if_effects(1)] show ?thesis by auto
qed

lemma change_role_effect:
  assumes "change_role ip me target role w = (r, w')"
  shows "account_effect aenv (accounts w) (accounts w') \<and> sessions w' = sessions w"
proof (cases "set_role target role (accounts w)")
  case (Inl e)
  with assms show ?thesis by (auto simp: change_role_def account_action_def intro!: effects)
next
  case (Inr st)
  with assms have "accounts w' = st \<and> sessions w' = sessions w"
    by (cases "get_account (accounts w) target") (auto simp: change_role_def account_action_def Let_def split: if_splits)
  with Inr show ?thesis by (auto intro: if_effects)
qed

lemma route_step_effect:
  assumes "route_step env aenv w w'"
  shows "account_effect aenv (accounts w) (accounts w') \<and> session_effect env (sessions w) (sessions w')"
  using assms
proof cases
  case (first_setup t sid ip me nu pw hash confirm r)
  then show ?thesis by (auto simp: setup_submit_def issue_session_def split: if_splits sum.splits prod.splits intro!: effects intro: if_effects)
qed (auto simp: logout_def add_user_route_def reset_password_def delete_user_route_def account_action_def logout_everywhere_def
  mfa_totp_start_def mfa_policy_def mfa_reset_def Let_def split: sum.splits option.splits prod.splits if_splits
  dest: login_effect second_factor_effect change_role_effect totp_confirm_effect remove_effect own_password_effect intro!: effects intro: if_effects revoke_user_effect)

text \<open>So in every state requests can reach, the accounts have an admin, and the sessions are those that events opened.\<close>

lemma reachable_web_state:
  assumes "(route_step env aenv)\<^sup>*\<^sup>* w0 w" and "accounts_ok (accounts w0)" and "sessions w0 = []"
  shows "accounts_ok (accounts w) \<and> (\<exists>es. sessions w = session_run env es)"
proof -
  have "account_effect aenv (accounts w0) (accounts w) \<and> session_effect env (sessions w0) (sessions w)"
    using assms(1)
  proof induction
    case (step w1 w2)
    then show ?case using route_step_effect account_effect_trans session_effect_trans by blast
  qed (auto intro!: effects)
  then obtain ops es where "accounts w = account_run aenv ops (accounts w0)" "sessions w = fold (session_step env) es []"
    unfolding account_effect_def session_effect_def using assms(3) by auto
  moreover have "accounts_ok (account_run aenv ops (accounts w0))"
    unfolding account_run_def using assms(2)
  proof (induction ops arbitrary: w0)
    case (Cons op ops)
    from Cons.prems have "accounts_ok (account_step aenv op (accounts w0))" using account_step_ok by blast
    then show ?case using Cons.IH [of "w0\<lparr>accounts := account_step aenv op (accounts w0)\<rparr>"] by simp
  qed simp
  ultimately show ?thesis unfolding session_run_def by auto
qed

subsection \<open>A changed account is signed out\<close>

text \<open>
  The requests that end a user's sessions, with the one session, if any, the same request opens: a new
  password, a password reset, a deletion, the removal of the second factors by an admin, setup, and
  logging out everywhere.
\<close>

inductive signs_out :: "web_env \<Rightarrow> account_env \<Rightarrow> string \<Rightarrow> string set \<Rightarrow> web_state \<Rightarrow> web_state \<Rightarrow> bool" for env aenv where
  own_password: "change_own_password env aenv t sid me password rehash new_password hash confirm w = (Inr (SessionFor v sid'), w') \<Longrightarrow>
     signs_out env aenv (acc_username me) {sid} w w'"
| reset: "reset_password aenv ip me u password hash w = (Inr r, w') \<Longrightarrow> signs_out env aenv u {} w w'"
| delete: "delete_user_route u w = (Inr r, w') \<Longrightarrow> signs_out env aenv u {} w w'"
| reset_factors: "mfa_reset ip me u w = (Inr r, w') \<Longrightarrow> signs_out env aenv u {} w w'"
| first_setup: "setup_submit env aenv t sid ip me new_username password hash confirm w = (Inr r, w') \<Longrightarrow> must_change me \<Longrightarrow>
     signs_out env aenv (acc_username me) {sid} w w'"
| everywhere: "logout_everywhere me w = (Inr r, w') \<Longrightarrow> signs_out env aenv (acc_username me) {} w w'"

definition ended_but :: "string set \<Rightarrow> string \<Rightarrow> session_table \<Rightarrow> bool" where
  "ended_but ks u d \<longleftrightarrow> (\<forall>(k, e)\<in>set d. ses_user e = u \<longrightarrow> k \<in> ks)"

lemma ended_but_revoked: "ended_but ks u (snd (session_revoke_user u d))"
  by (auto simp: ended_but_def session_revoke_user_def Let_def)

lemma ended_but_add: "ended_but ks u d \<Longrightarrow> ended_but (insert (sha256 env sid) ks) u (session_add env sid v now d)"
  unfolding ended_but_def session_add_def by (auto dest!: set_AList_update [THEN subsetD])

lemma ended_but_add_other: "ended_but ks u d \<Longrightarrow> v \<noteq> u \<Longrightarrow> ended_but ks u (session_add env sid v now d)"
  unfolding ended_but_def session_add_def by (auto dest!: set_AList_update [THEN subsetD])

lemma ended_but_steps:
  assumes "ended_but ks u d" and "\<forall>sid t. AddSession sid u t \<notin> set es"
  shows "ended_but ks u (fold (session_step env) es d)"
  using assms
proof (induction es arbitrary: d)
  case (Cons e es)
  have "ended_but ks u (session_step env e d)"
  proof (cases e)
    case (AddSession sid v t)
    with Cons.prems show ?thesis by (cases "v = u") (auto simp: ended_but_add_other)
  next
    case (RevokeSession sid)
    with Cons.prems(1) show ?thesis
      by (auto simp: ended_but_def session_revoke_def AList.delete_eq)
  next
    case (RevokeUser v)
    with Cons.prems(1) show ?thesis by (auto simp: ended_but_def session_revoke_user_def Let_def)
  qed
  with Cons show ?case by simp
qed simp

lemma ended_but_refused:
  assumes "ended_but ks u d" and "load_cookie env (rq_cookie rq) (now 0) = Some (u, v, sid)" and "sha256 env sid \<notin> ks"
  shows "require_login env rq now st d = Inl (SeeOther ''/login'')"
proof -
  have "\<not> session_valid env sid u (now 1) d"
    using assms(1,3) by (auto simp: session_valid_def ended_but_def split: option.splits dest!: map_of_SomeD)
  with assms(2) show ?thesis by (simp add: require_login_def session_from_cookie_def)
qed

lemma signs_out_ended:
  assumes "signs_out env aenv u fresh w w'"
  shows "ended_but (sha256 env ` fresh) u (sessions w')"
  using assms
proof cases
  case (own_password t sid me password rehash new_password hash confirm v sid')
  then show ?thesis
    by (auto simp: change_own_password_def own_password_set_def issue_session_def Let_def split: sum.splits prod.splits option.splits
      intro!: ended_but_revoked ended_but_add [where ks = "{}"])
next
  case (first_setup t sid ip me nu pw hash confirm r)
  then show ?thesis
    by (auto simp: setup_submit_def issue_session_def split: if_splits sum.splits prod.splits intro!: ended_but_revoked ended_but_add [where ks = "{}"])
next
  case (everywhere me r)
  then show ?thesis using ended_but_revoked [of "{}" u "sessions w"] by (auto simp: logout_everywhere_def split: prod.splits)
qed (auto simp: reset_password_def delete_user_route_def mfa_reset_def account_action_def Let_def split: sum.splits if_splits intro: ended_but_revoked)

text \<open>
  C4: once a password is changed or reset, an account deleted or set up, its second factors taken away by an
  admin, or the user logged out everywhere, no cookie of that user opens anything: whatever happens to
  the sessions afterwards short of a new sign-in of that user, and whatever account has the name by
  then, \<open>require_login\<close> sends every request with an earlier cookie to the sign-in page.  Only the
  session the request itself opened is left.
\<close>

theorem changed_account_signed_out:
  assumes "signs_out env aenv u fresh w w'" and "\<forall>sid t. AddSession sid u t \<notin> set es"
    and "load_cookie env (rq_cookie rq) (now 0) = Some (u, v, sid)" and "sha256 env sid \<notin> sha256 env ` fresh"
  shows "require_login env rq now st (fold (session_step env) es (sessions w')) = Inl (SeeOther ''/login'')"
  by (rule ended_but_refused [where now = now, OF ended_but_steps [OF signs_out_ended [OF assms(1)] assms(2)] assms(3,4)])

definition web_state1 :: web_state where
  "web_state1 = \<lparr>accounts = accounts1, tickets = \<lparr>tk_entries = [], tk_failures = []\<rparr>, enrolments = \<lparr>tk_entries = [], tk_failures = []\<rparr>,
     sessions = [(''s1'', \<lparr>ses_user = ''eva'', ses_expires = 100\<rparr>)], signin_guard = guard_init False, audit_log = [], bans = []\<rparr>"

theorem changed_account_signed_out_witness:
  "(\<exists>account token. require_login web_env1 request1 (\<lambda>_. 10) accounts1 (sessions web_state1) = Inr (account, token))
   \<and> require_login web_env1 request1 (\<lambda>_. 10) accounts1 (sessions (snd (logout_everywhere (snd (hd (users accounts1))) web_state1))) = Inl (SeeOther ''/login'')"
proof
  show "\<exists>account token. require_login web_env1 request1 (\<lambda>_. 10) accounts1 (sessions web_state1) = Inr (account, token)"
    by (simp add: web_state1_def require_login_def session_from_cookie_def load_cookie_def request1_def web_env1_def session_valid_def
      get_account_def accounts1_def session_version_def csrf_token_for_def generate_csrf_token_def SAFE_METHODS_def verify_csrf_def verify_csrf_token_def
      compare_digest_def is_admin_def)
  let ?me = "snd (hd (users accounts1))" and ?w = "web_state1"
  obtain w' where w': "logout_everywhere ?me ?w = (Inr (RedirectTo ''/login''), w')"
    by (cases "session_revoke_user (acc_username ?me) (sessions ?w)") (simp add: logout_everywhere_def)
  have "require_login web_env1 request1 (\<lambda>_. 10) accounts1 (fold (session_step web_env1) [] (sessions w')) = Inl (SeeOther ''/login'')"
    by (rule changed_account_signed_out [OF signs_out.everywhere [OF w'], where es = "[]" and now = "\<lambda>_. 10" and v = "''h''" and sid = "''s1''"])
      (simp_all add: request1_def web_env1_def load_cookie_def accounts1_def)
  with w' show "require_login web_env1 request1 (\<lambda>_. 10) accounts1 (sessions (snd (logout_everywhere ?me ?w))) = Inl (SeeOther ''/login'')" by simp
qed

subsection \<open>Between the check and the change\<close>

text \<open>
  Nothing holds the lock between the two parts of \<open>change_own_password\<close>.  When the account is deleted in
  between, \<open>set_password\<close> finds no account and makes a new one, with its default role: the deleted user,
  a viewer even, is an admin and signed in.
\<close>

lemma deleted_user_returns_as_admin:
  assumes "accounts_ok st" and "delete_user u st = Inr st'"
  shows "\<exists>w' a. own_password_set env now sid u hash (w\<lparr>accounts := st'\<rparr>) = (SessionFor u sid, w')
    \<and> get_account (accounts w') u = Some a \<and> is_admin a \<and> \<not> has_mfa a"
proof -
  from assms have ok: "dict_ok (AList.delete u (users st))" by (simp add: accounts_ok_def dict_simps)
  from assms(2) have st': "st' = write_users (AList.delete u (users st)) st" by (auto simp: delete_user_def)
  then have gone: "get_account st' u = None" using ok by (simp add: dict_simps)
  have ok': "dict_ok (users st')" using ok by (simp add: st' write_users_def sorted_users)
  obtain st2 where st2: "set_password u hash None False st' = Inr st2" and
    again: "get_account st2 u = Some \<lparr>acc_username = u, acc_password_hash = hash, acc_role = ROLE_ADMIN, must_change = False, acc_mfa = no_factors\<rparr>"
    using gone py_dict.ok_put [OF ok'] by (simp add: set_password_def Let_def check_keeps_an_admin_def refuse_def ROLES_def dict_simps)
  then show ?thesis
    by (auto simp: own_password_set_def issue_session_def Let_def is_admin_def has_mfa_def no_factors_def)
qed

end
