(* ===== verification/Py_Text.thy ===== *)
theory Py_Text
  imports Ip_Address
begin

text \<open>
  Python's text methods the parsers of system files use: \<open>startswith\<close>, \<open>splitlines\<close>, \<open>split()\<close>,
  \<open>split(None, 1)\<close>, \<open>partition\<close> and \<open>repr\<close>, on text of 8-bit characters.
\<close>

definition LF :: char where "LF = CHR 0x0A"
definition CR :: char where "CR = CHR 0x0D"

definition starts_with :: "string \<Rightarrow> string \<Rightarrow> bool" where
  "starts_with s p \<longleftrightarrow> take (length p) s = p"

lemma starts_with_append [simp]: "starts_with (p @ s) p"
  by (simp add: starts_with_def)

text \<open>\<open>str.splitlines\<close>: a line ends at any of these characters, \<open>CR LF\<close> counting as one.\<close>

definition is_line_break :: "char \<Rightarrow> bool" where
  "is_line_break c \<longleftrightarrow> in_range 10 13 c \<or> in_range 28 30 c \<or> in_range 133 133 c"

fun splitlines :: "string \<Rightarrow> string list" where
  "splitlines [] = []"
| "splitlines (c # s) =
     (if c = CR \<and> s \<noteq> [] \<and> hd s = LF then splitlines s
      else if is_line_break c then [] # splitlines s
      else (case splitlines s of [] \<Rightarrow> [[c]] | l # ls \<Rightarrow> (c # l) # ls))"

text \<open>\<open>str.split()\<close> and \<open>str.split(None, 1)\<close>.\<close>

fun split_ws_from :: "string \<Rightarrow> string \<Rightarrow> string list" where
  "split_ws_from w [] = (if w = [] then [] else [rev w])"
| "split_ws_from w (c # s) =
     (if is_space c then (if w = [] then split_ws_from [] s else rev w # split_ws_from [] s) else split_ws_from (c # w) s)"

definition split_ws :: "string \<Rightarrow> string list" where
  "split_ws s = split_ws_from [] s"

definition split_ws_once :: "string \<Rightarrow> string list" where
  "split_ws_once s =
     (let t = dropWhile is_space s; w = takeWhile (\<lambda>c. \<not> is_space c) t; rest = dropWhile is_space (dropWhile (\<lambda>c. \<not> is_space c) t)
      in if t = [] then [] else if rest = [] then [w] else [w, rest])"

text \<open>\<open>s.partition(c)\<close> for one character, without the separator; \<open>s.split(c, 1)\<close> where \<open>c\<close> occurs.\<close>

definition partition_at :: "char \<Rightarrow> string \<Rightarrow> string \<times> string" where
  "partition_at c s = (takeWhile (\<lambda>x. x \<noteq> c) s, drop 1 (dropWhile (\<lambda>x. x \<noteq> c) s))"

text \<open>\<open>str.upper()\<close> of ASCII text.\<close>

definition upper :: "string \<Rightarrow> string" where
  "upper s = map (\<lambda>c. if is_lower c then char_of (of_char c - 32 :: nat) else c) s"

text \<open>\<open>repr\<close> of text.\<close>

definition repr_char :: "char \<Rightarrow> char \<Rightarrow> string" where
  "repr_char q c =
     (if c = q \<or> c = CHR 0x5C then [CHR 0x5C, c]
      else if c = LF then [CHR 0x5C, CHR ''n''] else if c = CR then [CHR 0x5C, CHR ''r''] else if c = CHR 0x09 then [CHR 0x5C, CHR ''t'']
      else if in_range 32 126 c \<or> in_range 161 255 c \<and> c \<noteq> CHR 0xAD then [c]
      else [CHR 0x5C, CHR ''x'', hex_char (of_char c div 16), hex_char (of_char c mod 16)])"

definition py_repr :: "string \<Rightarrow> string" where
  "py_repr s = (let q = (if CHR 0x27 \<in> set s \<and> dquote \<notin> set s then dquote else CHR 0x27) in q # concat (map (repr_char q) s) @ [q])"

definition py_repr_option :: "string option \<Rightarrow> string" where
  "py_repr_option x = (case x of None \<Rightarrow> ''None'' | Some s \<Rightarrow> py_repr s)"

subsection \<open>Lines\<close>

lemma is_line_break_LF [simp]: "is_line_break LF"
  by (simp add: is_line_break_def LF_def in_range_def)

lemma LF_CR [simp]: "LF \<noteq> CR" "CR \<noteq> LF"
  by (simp_all add: LF_def CR_def)

lemma splitlines_line:
  assumes "list_all (\<lambda>c. \<not> is_line_break c) l"
  shows "splitlines (l @ LF # s) = l # splitlines s"
  using assms
proof (induction l)
  case (Cons c l)
  then have "c \<noteq> CR" by (auto simp: is_line_break_def CR_def in_range_def)
  with Cons show ?case by simp
qed simp

lemma splitlines_last:
  assumes "list_all (\<lambda>c. \<not> is_line_break c) l" and "l \<noteq> []"
  shows "splitlines l = [l]"
  using assms
proof (induction l)
  case (Cons c l)
  then have "c \<noteq> CR" by (auto simp: is_line_break_def CR_def in_range_def)
  with Cons show ?case by (cases l) auto
qed simp

lemma splitlines_unlines:
  assumes "\<And>l. l \<in> set ls \<Longrightarrow> list_all (\<lambda>c. \<not> is_line_break c) l"
  shows "splitlines (concat (map (\<lambda>l. l @ [LF]) ls)) = ls"
  using assms by (induction ls) (simp_all add: splitlines_line)

lemma partition_at_first:
  assumes "c \<notin> set a"
  shows "partition_at c (a @ c # b) = (a, b)"
proof -
  have "takeWhile (\<lambda>x. x \<noteq> c) (a @ c # b) = a" "dropWhile (\<lambda>x. x \<noteq> c) (a @ c # b) = c # b"
    using assms by (induction a) auto
  then show ?thesis by (simp add: partition_at_def)
qed

end
