(* ===== verification/Kernel_Boot.thy ===== *)
theory Kernel_Boot
  imports Py_Text Validate
begin

text \<open>
  Kernels staged on the persistence partition (\<open>src/src/frfw/kernel_boot.py\<close>) and the boot menu that tries
  them (\<open>src/installer/live-build/config/includes.binary/boot/grub/grub.cfg\<close>).

  The disk holds GRUB's environment block and two directories, as contents by file name.  A file of bytes
  is the text of the characters with their codes; \<open>dec\<close> is the decoding of such a text as UTF-8, which
  leaves ASCII text alone, \<open>sha\<close> the hexadecimal SHA-256, \<open>check\<close> GRUB's \<open>hashsum --check\<close>.  GRUB's \<open>load_env\<close>
  and \<open>save_env\<close> read and change the block the module formats and parses.

  A staging is a list of changes to the disk, so that a crash is a prefix of them and the last one torn;
  a boot is GRUB's choice followed by \<open>confirm_boot\<close>, if the kernel gets that far.
\<close>

definition KERNEL :: string where "KERNEL = ''vmlinuz''"
definition INITRD :: string where "INITRD = ''initrd.img''"
definition SUMS :: string where "SUMS = ''SHA256SUMS''"
definition EXPECT :: string where "EXPECT = ''expect.json''"
definition STATE :: string where "STATE = ''fr_os_state''"
definition STAGED :: string where "STAGED = ''fr_os_staged''"
definition TRIAL :: string where "TRIAL = ''trial''"
definition TRYING :: string where "TRYING = ''trying''"
definition GOOD :: string where "GOOD = ''good''"
definition BOOTING :: string where "BOOTING = ''booting''"
definition FAILED :: string where "FAILED = ''failed''"
definition STATES :: "string list" where "STATES = [TRIAL, TRYING, GOOD, BOOTING, FAILED]"
definition BOOT_TRIAL :: string where "BOOT_TRIAL = ''trial''"
definition BOOT_STAGED :: string where "BOOT_STAGED = ''staged''"
definition BOOT_FALLBACK :: string where "BOOT_FALLBACK = ''fallback''"
definition BOOT_IMAGE :: string where "BOOT_IMAGE = ''image''"
definition ENV_SIZE :: nat where "ENV_SIZE = 1024"
definition ENV_HEADER :: string where "ENV_HEADER = ''# GRUB Environment Block'' @ [LF]"
definition SPARE_BYTES :: int where "SPARE_BYTES = 64 * 2 ^ 20"

lemmas boot_names = KERNEL_def INITRD_def SUMS_def EXPECT_def STATE_def STAGED_def
lemmas boot_states = TRIAL_def TRYING_def GOOD_def BOOTING_def FAILED_def
lemmas boot_modes = BOOT_TRIAL_def BOOT_STAGED_def BOOT_FALLBACK_def BOOT_IMAGE_def

datatype kernel_boot_error = KernelBootError string

type_synonym 'a boot_result = "(kernel_boot_error, 'a) result"
type_synonym env_values = "(string, string) dict"

definition boot_refuse :: "bool \<Rightarrow> string \<Rightarrow> unit boot_result" where
  "boot_refuse bad what = (if bad then Inl (KernelBootError what) else Inr ())"

lemma boot_refuse_iff [simp]: "boot_refuse bad what = Inr x \<longleftrightarrow> \<not> bad"
  by (simp add: boot_refuse_def)

subsection \<open>The environment block\<close>

definition env_name_re :: "string \<Rightarrow> bool" where
  "env_name_re s = (case s of [] \<Rightarrow> False | c # cs \<Rightarrow> (is_lower c \<or> is_upper c \<or> c = CHR ''_'') \<and> list_all (\<lambda>c. is_alnum_char c \<or> c = CHR ''_'') cs)"

definition env_value_char :: "char \<Rightarrow> bool" where
  "env_value_char c \<longleftrightarrow> is_alnum_char c \<or> c \<in> set ''.+~_-''"

definition env_line :: "string \<times> string \<Rightarrow> string" where
  "env_line nv = fst nv @ ''='' @ snd nv @ [LF]"

fun env_body :: "env_values \<Rightarrow> string boot_result" where
  "env_body [] = Inr []"
| "env_body ((name, v) # vs) =
     bind_result (boot_refuse (\<not> env_name_re name \<or> \<not> list_all env_value_char v) (''not a value for the boot environment: '' @ name)) (\<lambda>_.
     bind_result (env_body vs) (\<lambda>rest. Inr (env_line (name, v) @ rest)))"

definition format_env :: "env_values \<Rightarrow> string boot_result" where
  "format_env values =
     bind_result (env_body values) (\<lambda>lines.
       let body = ENV_HEADER @ lines in
       bind_result (boot_refuse (length body > ENV_SIZE) ''the boot environment is full'') (\<lambda>_.
       Inr (body @ replicate (ENV_SIZE - length body) CHR ''#'')))"

fun parse_env_lines :: "string list \<Rightarrow> env_values \<Rightarrow> env_values" where
  "parse_env_lines [] values = values"
| "parse_env_lines (line # ls) values =
     (if line = [] \<or> hd line = CHR ''#'' \<or> CHR ''='' \<notin> set line then parse_env_lines ls values
      else let (name, v) = partition_at CHR ''='' line in parse_env_lines ls (AList.update name v values))"

definition parse_env :: "(string \<Rightarrow> string) \<Rightarrow> string \<Rightarrow> env_values" where
  "parse_env dec data =
     (if length data \<noteq> ENV_SIZE \<or> \<not> starts_with data ENV_HEADER then []
      else parse_env_lines (split_on LF (dec (drop (length ENV_HEADER) data))) [])"

definition ascii :: "string \<Rightarrow> bool" where
  "ascii s = list_all (\<lambda>c. of_char c < (128::nat)) s"

lemma ascii_append [simp]: "ascii (s @ t) \<longleftrightarrow> ascii s \<and> ascii t"
  by (simp add: ascii_def)

lemma ascii_concat: "ascii (concat ss) \<longleftrightarrow> (\<forall>s\<in>set ss. ascii s)"
  by (induction ss) (simp_all add: ascii_def)

lemma ascii_chars [simp]: "ascii [LF]" "ascii (replicate n CHR ''#'')"
  by (simp_all add: ascii_def LF_def list_all_iff)

lemma env_char_plain:
  assumes "is_alnum_char c \<or> c \<in> set ''.+~_-''"
  shows "c \<noteq> LF \<and> c \<noteq> CHR ''='' \<and> c \<noteq> CHR ''#'' \<and> of_char c < (128::nat)"
  using assms by (auto simp: is_alnum_char_def is_digit_def is_lower_def is_upper_def in_range_def LF_def)

lemma env_name_plain:
  assumes "env_name_re name"
  shows "name \<noteq> [] \<and> hd name \<noteq> CHR ''#'' \<and> LF \<notin> set name \<and> CHR ''='' \<notin> set name \<and> ascii name"
proof -
  obtain c cs where name: "name = c # cs" using assms by (auto simp: env_name_re_def split: list.splits)
  have "x \<in> set name \<Longrightarrow> is_alnum_char x \<or> x \<in> set ''.+~_-''" for x
    using assms name by (auto simp: env_name_re_def list_all_iff is_alnum_char_def)
  with env_char_plain name show ?thesis unfolding ascii_def list_all_iff by (metis list.sel(1) list.set_intros(1) list.distinct(1))
qed

lemma env_value_plain:
  assumes "list_all env_value_char v"
  shows "LF \<notin> set v \<and> ascii v"
  using assms env_char_plain unfolding ascii_def list_all_iff env_value_char_def by blast

definition env_plain :: "string \<times> string \<Rightarrow> bool" where
  "env_plain nv \<longleftrightarrow> env_name_re (fst nv) \<and> list_all env_value_char (snd nv)"

lemma env_body_lines:
  assumes "env_body vs = Inr body"
  shows "body = concat (map env_line vs)"
    and "list_all env_plain vs"
  using assms by (induction vs arbitrary: body) (auto simp: env_plain_def)

lemma split_on_lines:
  assumes "\<And>l. l \<in> set ls \<Longrightarrow> sep \<notin> set l" and "sep \<notin> set s"
  shows "split_on sep (concat (map (\<lambda>l. l @ [sep]) ls) @ s) = ls @ [s]"
proof -
  have "concat (map (\<lambda>l. l @ [sep]) ls) @ s = py_join [sep] (ls @ [s])"
    by (induction ls rule: induct_list012) (simp_all add: )
  with split_on_join [of "ls @ [s]" sep] assms show ?thesis by auto
qed

lemma parse_env_lines_values:
  assumes "list_all env_plain vs" and "distinct (map fst (old @ vs))"
  shows "parse_env_lines (map (\<lambda>(n, v). n @ ''='' @ v) vs @ ls) old = parse_env_lines ls (old @ vs)"
  using assms
proof (induction vs arbitrary: old)
  case (Cons nv vs)
  obtain n v where nv: "nv = (n, v)" by fastforce
  have n: "n \<noteq> []" "hd n \<noteq> CHR ''#''" "CHR ''='' \<notin> set n" using Cons.prems(1) env_name_plain nv by (auto simp: env_plain_def)
  have "n \<notin> fst ` set old" using Cons.prems(2) nv by auto
  then have "AList.update n v old = old @ [(n, v)]" by (induction old) auto
  with Cons n nv partition_at_first [OF n(3), of v] show ?case by (cases n) (simp_all add: Let_def)
qed simp

lemma format_env_ok:
  assumes "format_env vs = Inr b"
  shows "b = ENV_HEADER @ concat (map env_line vs) @ replicate (ENV_SIZE - length (ENV_HEADER @ concat (map env_line vs))) CHR ''#''"
    and "length b = ENV_SIZE" and "list_all env_plain vs"
  using assms env_body_lines by (auto simp: format_env_def Let_def)

lemma env_line_eq: "env_line = (\<lambda>nv. (fst nv @ ''='' @ snd nv) @ [LF])"
  by (simp add: env_line_def fun_eq_iff)

theorem parse_format_env:
  assumes "format_env vs = Inr b" and "dict_ok vs" and "\<And>s. ascii s \<Longrightarrow> dec s = s"
  shows "parse_env dec b = vs"
proof -
  note b = format_env_ok [OF assms(1)]
  let ?ls = "map (\<lambda>(n, v). n @ ''='' @ v) vs" and ?pad = "replicate (ENV_SIZE - length (ENV_HEADER @ concat (map env_line vs))) CHR ''#''"
  have lines: "concat (map env_line vs) = concat (map (\<lambda>l. l @ [LF]) ?ls)"
    by (simp add: env_line_eq comp_def split_def)
  have plain: "LF \<notin> set l \<and> ascii l" if l: "l \<in> set ?ls" for l
  proof -
    from l obtain n v where "(n, v) \<in> set vs" "l = n @ ''='' @ v" by auto
    with b(3) have "env_name_re n" "list_all env_value_char v" by (auto simp: list_all_iff env_plain_def)
    with env_name_plain [of n] env_value_plain [of v] \<open>l = n @ ''='' @ v\<close> show ?thesis by (simp add: ascii_def LF_def)
  qed
  have "ascii (concat (map env_line vs) @ ?pad)"
    using plain unfolding lines ascii_append ascii_concat by auto
  then have dec: "dec (drop (length ENV_HEADER) b) = concat (map (\<lambda>l. l @ [LF]) ?ls) @ ?pad"
    using assms(3) b(1) lines by simp
  have "split_on LF (concat (map (\<lambda>l. l @ [LF]) ?ls) @ ?pad) = ?ls @ [?pad]"
    by (rule split_on_lines) (use plain in \<open>auto simp: LF_def\<close>)
  moreover have "parse_env_lines (?ls @ [?pad]) [] = parse_env_lines [?pad] ([] @ vs)"
    by (rule parse_env_lines_values) (use b(3) assms(2) in \<open>auto simp: dict_ok_def\<close>)
  moreover have "parse_env_lines [?pad] vs = vs" by (cases "ENV_SIZE - length (ENV_HEADER @ concat (map env_line vs))") auto
  moreover have "starts_with b ENV_HEADER" using b(1) by simp
  ultimately show ?thesis using dec b(2) by (simp add: parse_env_def)
qed

subsection \<open>The disk\<close>

record boot_disk =
  grubenv :: "string option"
  slot :: "(string, string) dict option"
  new_slot :: "(string, string) dict option"

definition read_env :: "(string \<Rightarrow> string) \<Rightarrow> boot_disk \<Rightarrow> env_values" where
  "read_env dec d = (case grubenv d of None \<Rightarrow> [] | Some b \<Rightarrow> parse_env dec b)"

definition write_env :: "env_values \<Rightarrow> boot_disk \<Rightarrow> boot_disk boot_result" where
  "write_env values d = bind_result (format_env values) (\<lambda>b. Inr (d\<lparr>grubenv := Some b\<rparr>))"

subsection \<open>Staging\<close>

definition kernel_version_re :: "string \<Rightarrow> bool" where
  "kernel_version_re = head_tail is_digit env_value_char 63"

definition check_version :: "string \<Rightarrow> string boot_result" where
  "check_version version = bind_result (boot_refuse (\<not> kernel_version_re version) (''not a kernel version: '' @ py_repr version)) (\<lambda>_. Inr version)"

definition is_linux_kernel :: "string option \<Rightarrow> bool" where
  "is_linux_kernel f = (case f of None \<Rightarrow> False | Some c \<Rightarrow> take 4 (drop 0x202 c) = ''HdrS'')"

text \<open>The changes to the disk a staging makes, each synced before the next.\<close>

datatype disk_op = WriteEnv env_values | RemoveNew | MakeNew | CopyNew string string | RemoveSlot | NewToSlot

fun run_op :: "disk_op \<Rightarrow> boot_disk \<Rightarrow> boot_disk boot_result" where
  "run_op (WriteEnv values) d = write_env values d"
| "run_op RemoveNew d = Inr (d\<lparr>new_slot := None\<rparr>)"
| "run_op MakeNew d = Inr (d\<lparr>new_slot := Some []\<rparr>)"
| "run_op (CopyNew name c) d = Inr (d\<lparr>new_slot := map_option (AList.update name c) (new_slot d)\<rparr>)"
| "run_op RemoveSlot d = Inr (d\<lparr>slot := None\<rparr>)"
| "run_op NewToSlot d = Inr (d\<lparr>slot := new_slot d, new_slot := None\<rparr>)"

definition sums_text :: "(string \<Rightarrow> string) \<Rightarrow> string \<Rightarrow> string \<Rightarrow> string" where
  "sums_text sha kimg initrd = sha kimg @ ''  '' @ KERNEL @ [LF] @ sha initrd @ ''  '' @ INITRD @ [LF]"

definition stage_ops :: "(string \<Rightarrow> string) \<Rightarrow> string \<Rightarrow> string \<Rightarrow> string \<Rightarrow> string option \<Rightarrow> disk_op list" where
  "stage_ops sha kimg initrd version expect =
     [WriteEnv [], RemoveNew, MakeNew, CopyNew KERNEL kimg, CopyNew INITRD initrd, CopyNew SUMS (sums_text sha kimg initrd)]
     @ (case expect of None \<Rightarrow> [] | Some e \<Rightarrow> [CopyNew EXPECT e])
     @ [RemoveSlot, NewToSlot, WriteEnv [(STATE, TRIAL), (STAGED, version)]]"

definition stage_checks :: "string option \<Rightarrow> string option \<Rightarrow> string \<Rightarrow> bool \<Rightarrow> int \<Rightarrow> (string \<times> string) boot_result" where
  "stage_checks kimg initrd version mounted free =
     bind_result (check_version version) (\<lambda>_.
     bind_result (boot_refuse (\<not> is_linux_kernel kimg) ''not a Linux kernel image'') (\<lambda>_.
     bind_result (boot_refuse (initrd = None \<or> initrd = Some []) ''not an initrd'') (\<lambda>_.
     bind_result (boot_refuse (\<not> mounted) ''no persistence partition in use'') (\<lambda>_.
     bind_result (boot_refuse (free < int (length (the kimg)) + int (length (the initrd)) + SPARE_BYTES) ''not enough room on the persistence partition'') (\<lambda>_.
     Inr (the kimg, the initrd))))))"

definition stage :: "(string \<Rightarrow> string) \<Rightarrow> string option \<Rightarrow> string option \<Rightarrow> string \<Rightarrow> string option \<Rightarrow> bool \<Rightarrow> int \<Rightarrow> boot_disk \<Rightarrow> boot_disk boot_result" where
  "stage sha kimg initrd version expect mounted free d =
     bind_result (stage_checks kimg initrd version mounted free) (\<lambda>(k, i). fold_result run_op (stage_ops sha k i version expect) d)"

definition unstage :: "boot_disk \<Rightarrow> (bool \<times> boot_disk) boot_result" where
  "unstage d =
     (if grubenv d = None \<and> slot d = None then Inr (False, d)
      else bind_result (write_env [] d) (\<lambda>d1. Inr (True, d1\<lparr>slot := None\<rparr>)))"

definition staged_files :: "(string \<Rightarrow> string) \<Rightarrow> boot_disk \<Rightarrow> (string, string) dict" where
  "staged_files sha d =
     (let files = (case slot d of None \<Rightarrow> [] | Some fs \<Rightarrow> fs) in
      concat (map (\<lambda>n. case map_of files n of None \<Rightarrow> [] | Some c \<Rightarrow> [(n, sha c)]) [KERNEL, INITRD]))"

text \<open>\<open>dict(reversed(line.split(None, 1)) for ...)\<close>: a line of one word is a \<open>ValueError\<close> (\<open>None\<close>).\<close>

fun listed_sums :: "string list \<Rightarrow> (string, string) dict option" where
  "listed_sums [] = Some []"
| "listed_sums (line # ls) =
     (if strip line = [] then listed_sums ls
      else case split_ws_once line of
        [digest, name] \<Rightarrow> map_option ((#) (name, digest)) (listed_sums ls)
      | _ \<Rightarrow> None)"

definition files_intact :: "(string \<Rightarrow> string) \<Rightarrow> boot_disk \<Rightarrow> bool" where
  "files_intact sha d =
     (case slot d of None \<Rightarrow> False
      | Some files \<Rightarrow>
         (case map_of files SUMS of None \<Rightarrow> False
          | Some t \<Rightarrow>
             (case listed_sums (splitlines t) of None \<Rightarrow> False
              | Some pairs \<Rightarrow>
                  (let listed = fold (\<lambda>(n, g) m. AList.update (strip n) g m) (fold (\<lambda>(n, g) m. AList.update n g m) pairs []) []
                   in set (map fst listed) = {KERNEL, INITRD} \<and> map_of (staged_files sha d) = map_of listed))))"

subsection \<open>The boot menu (grub.cfg)\<close>

datatype booted_kernel = StagedKernel | ImageKernel

definition save_state :: "(string \<Rightarrow> string) \<Rightarrow> string \<Rightarrow> boot_disk \<Rightarrow> boot_disk" where
  "save_state dec st d = (case write_env (AList.update STATE st (read_env dec d)) d of Inl _ \<Rightarrow> d | Inr d' \<Rightarrow> d')"

text \<open>The values of \<open>fr_os_kernel\<close> and \<open>fr_os_image\<close> the menu entries use; \<open>save_ok\<close> is whether \<open>save_env\<close> works.\<close>

definition grub_menu :: "((string, string) dict option \<Rightarrow> bool) \<Rightarrow> (string \<Rightarrow> string) \<Rightarrow> bool \<Rightarrow> boot_disk \<Rightarrow> string \<times> string \<times> boot_disk" where
  "grub_menu check dec save_ok d =
     (let st = dict_get_or (read_env dec d) STATE [] in
      if st = TRIAL \<or> st = GOOD then
        let (st', chosen, img) =
          (if check (slot d) then (if st = TRIAL then (TRYING, BOOT_TRIAL, BOOT_IMAGE) else (BOOTING, BOOT_STAGED, BOOT_IMAGE))
           else (FAILED, BOOT_IMAGE, BOOT_FALLBACK))
        in if save_ok then (chosen, img, save_state dec st' d) else (BOOT_IMAGE, BOOT_IMAGE, d)
      else if st = TRYING \<or> st = BOOTING then
        (if save_ok then (BOOT_IMAGE, BOOT_FALLBACK, save_state dec FAILED d) else (BOOT_IMAGE, BOOT_IMAGE, d))
      else (BOOT_IMAGE, BOOT_IMAGE, d))"

text \<open>The first entry boots unless one of the image's entries is picked; the kernel is told which case it is.\<close>

definition grub_boot :: "((string, string) dict option \<Rightarrow> bool) \<Rightarrow> (string \<Rightarrow> string) \<Rightarrow> bool \<Rightarrow> bool \<Rightarrow> boot_disk \<Rightarrow> booted_kernel \<times> string \<times> boot_disk" where
  "grub_boot check dec save_ok picked d =
     (case grub_menu check dec save_ok d of (chosen, img, d') \<Rightarrow>
        if chosen \<noteq> BOOT_IMAGE \<and> \<not> picked then (StagedKernel, chosen, d') else (ImageKernel, img, d'))"

subsection \<open>The end of a boot\<close>

definition boot_mode :: "string \<Rightarrow> string option" where
  "boot_mode cmdline =
     map_option (\<lambda>arg. snd (partition_at CHR ''='' arg)) (find (\<lambda>arg. starts_with arg ''fr_os.kernel='') (split_ws cmdline))"

record boot_outcome =
  out_message :: string
  out_alert :: "string option"
  out_reboot :: bool

definition outcome :: "string \<Rightarrow> boot_outcome" where
  "outcome m = \<lparr>out_message = m, out_alert = None, out_reboot = False\<rparr>"

text \<open>
  \<open>summary\<close> is what \<open>expectation_summary\<close> says of the record of the moment the kernel was staged, if there is one;
  \<open>problems\<close> is what \<open>wait_healthy\<close> returns, where it is called.
\<close>

definition confirm_boot :: "(string \<Rightarrow> string) \<Rightarrow> string option \<Rightarrow> string option \<Rightarrow> string list \<Rightarrow> boot_disk \<Rightarrow> (boot_outcome \<times> boot_disk) boot_result" where
  "confirm_boot dec summary mode problems d =
     (let env = read_env dec d; st = map_of env STATE;
          version = (let v = dict_get_or env STAGED [] in if v = [] then ''?'' else v) in
      if mode = Some BOOT_TRIAL \<or> mode = Some BOOT_STAGED then
        let expected = (if mode = Some BOOT_TRIAL then TRYING else BOOTING) in
        if st \<noteq> Some expected
        then Inr (outcome (''booted the staged kernel '' @ version @ '', but its state is '' @ py_repr_option st @ '', not '' @ py_repr expected @ '': left as it is''), d)
        else if problems = [] then
          bind_result (write_env (AList.update STATE GOOD env) d) (\<lambda>d'.
          Inr (outcome (''kernel '' @ version @ '' confirmed: the router came up on it'' @ (if mode = Some BOOT_TRIAL then '' (its trial boot)'' else [])
            @ (case summary of Some s \<Rightarrow> ''; what worked before it works: '' @ s
               | None \<Rightarrow> ''; checked against the applied config (no record of the moment it was staged)'')), d'))
        else
          let why = py_join ''; '' problems in
          if mode = Some BOOT_TRIAL
          then Inr (\<lparr>out_message = ''kernel '' @ version @ '' failed its trial boot ('' @ why @ ''): rebooting into the image's own kernel'',
            out_alert = Some (''kernel '' @ version @ '' failed its trial boot ('' @ why @ ''); the router reboots into the image's own kernel''), out_reboot = True\<rparr>, d)
          else Inr (\<lparr>out_message = ''kernel '' @ version @ '' booted but the router is not up ('' @ why @ ''): the next boot uses the image's own kernel'',
            out_alert = Some (''the router came up badly on kernel '' @ version @ '' ('' @ why @ ''); the next boot uses the image's own kernel''), out_reboot = False\<rparr>, d)
      else if mode = Some BOOT_FALLBACK
      then Inr (\<lparr>out_message = ''kernel '' @ version @ '' did not come up; the image's own kernel booted instead'',
        out_alert = Some (''kernel '' @ version @ '' did not come up (a panic, a hang or a failed check, or its files were damaged); the router booted the image's own kernel instead''),
        out_reboot = False\<rparr>, d)
      else if mode = Some BOOT_IMAGE \<and> (st = Some TRYING \<or> st = Some BOOTING) then
        let restored = (if st = Some TRYING then TRIAL else GOOD) in
        bind_result (write_env (AList.update STATE restored env) d) (\<lambda>d'.
        Inr (outcome (''the image's kernel was chosen from the boot menu; kernel '' @ version @ '' stays '' @ py_repr restored), d'))
      else Inr (outcome (''the image's own kernel'' @ (case st of None \<Rightarrow> [] | Some s \<Rightarrow> if s = [] then [] else ''; kernel '' @ version @ '' is '' @ py_repr s)), d))"

end
