(* ===== verification/Boot_Trial.thy ===== *)
theory Boot_Trial
  imports Kernel_Boot
begin

text \<open>
  What the staging and the trial of a kernel promise.  A staging that crashes anywhere leaves the old kernel,
  or none, never half a kernel marked for a trial; the block of the router and the boot menu follow the
  table of states the module documents; a kernel that does not come up is booted once.
\<close>

definition decodes_ascii :: "(string \<Rightarrow> string) \<Rightarrow> bool" where
  "decodes_ascii dec \<longleftrightarrow> (\<forall>s. ascii s \<longrightarrow> dec s = s)"

subsection \<open>The block as the router writes it\<close>

definition staged_values :: "env_values \<Rightarrow> bool" where
  "staged_values vs \<longleftrightarrow> vs = [] \<or> (\<exists>st v. vs = [(STATE, st), (STAGED, v)] \<and> st \<in> set STATES \<and> kernel_version_re v)"

definition boot_env_ok :: "boot_disk \<Rightarrow> bool" where
  "boot_env_ok d \<longleftrightarrow> (case grubenv d of None \<Rightarrow> True | Some b \<Rightarrow> \<exists>vs. format_env vs = Inr b \<and> staged_values vs)"

lemma version_plain: "kernel_version_re v \<Longrightarrow> list_all env_value_char v \<and> length v \<le> 64 \<and> v \<noteq> []"
  by (auto simp: kernel_version_re_def head_tail_def env_value_char_def is_alnum_char_def split: list.splits)

lemma state_plain: "st \<in> set STATES \<Longrightarrow> list_all env_value_char st \<and> length st \<le> 7"
  by (auto simp: STATES_def boot_states env_value_char_def is_alnum_char_def is_lower_def in_range_def)

lemma names_plain: "env_name_re STATE" "env_name_re STAGED" "STATE \<noteq> STAGED"
  by (simp_all add: boot_names env_name_re_def is_alnum_char_def is_lower_def in_range_def)

lemma format_staged:
  assumes "staged_values vs"
  obtains b where "format_env vs = Inr b"
proof (cases "vs = []")
  case True
  then show thesis using that by (simp add: format_env_def Let_def ENV_HEADER_def ENV_SIZE_def boot_refuse_def)
next
  case False
  with assms obtain st v where vs: "vs = [(STATE, st), (STAGED, v)]" "st \<in> set STATES" "kernel_version_re v" by (auto simp: staged_values_def)
  note plain = version_plain [OF vs(3)] state_plain [OF vs(2)] names_plain
  have "length (ENV_HEADER @ env_line (STATE, st) @ env_line (STAGED, v)) \<le> ENV_SIZE"
    using plain by (simp add: env_line_def ENV_HEADER_def ENV_SIZE_def boot_names)
  with plain show thesis using that vs(1) by (simp add: format_env_def Let_def boot_refuse_def)
qed

lemma staged_values_dict: "staged_values vs \<Longrightarrow> dict_ok vs"
  by (auto simp: staged_values_def dict_ok_def names_plain)

lemma write_staged:
  assumes "staged_values vs" and "decodes_ascii dec"
  obtains b where "write_env vs d = Inr (d\<lparr>grubenv := Some b\<rparr>)" and "boot_env_ok (d\<lparr>grubenv := Some b\<rparr>)" and "read_env dec (d\<lparr>grubenv := Some b\<rparr>) = vs"
proof -
  obtain b where b: "format_env vs = Inr b" using format_staged [OF assms(1)] .
  from parse_format_env [OF this staged_values_dict [OF assms(1)]] assms(2) have "parse_env dec b = vs" by (auto simp: decodes_ascii_def)
  with b assms(1) show thesis by (intro that [of b]) (auto simp: write_env_def boot_env_ok_def read_env_def)
qed

lemma read_staged:
  assumes "boot_env_ok d" and "decodes_ascii dec"
  shows "staged_values (read_env dec d)"
proof (cases "grubenv d")
  case None
  then show ?thesis by (simp add: read_env_def staged_values_def)
next
  case (Some b)
  then obtain vs where "format_env vs = Inr b" "staged_values vs" using assms(1) by (auto simp: boot_env_ok_def)
  with parse_format_env [OF _ staged_values_dict] assms(2) Some show ?thesis by (auto simp: read_env_def decodes_ascii_def)
qed

definition state_of :: "(string \<Rightarrow> string) \<Rightarrow> boot_disk \<Rightarrow> string" where
  "state_of dec d = dict_get_or (read_env dec d) STATE []"

lemma update_state:
  assumes "boot_env_ok d" and "decodes_ascii dec" and "st \<in> set STATES" and "state_of dec d \<noteq> []"
  obtains b where "write_env (AList.update STATE st (read_env dec d)) d = Inr (d\<lparr>grubenv := Some b\<rparr>)"
    and "boot_env_ok (d\<lparr>grubenv := Some b\<rparr>)" and "state_of dec (d\<lparr>grubenv := Some b\<rparr>) = st"
proof -
  have "read_env dec d \<noteq> []" using assms(4) by (auto simp: state_of_def dict_get_or_def)
  with read_staged [OF assms(1,2)] obtain st0 v where r: "read_env dec d = [(STATE, st0), (STAGED, v)]" "kernel_version_re v"
    by (auto simp: staged_values_def)
  let ?vs = "[(STATE, st), (STAGED, v)]"
  have "staged_values ?vs" using r(2) assms(3) by (simp add: staged_values_def)
  from write_staged [OF this assms(2), of d] obtain b where b: "write_env ?vs d = Inr (d\<lparr>grubenv := Some b\<rparr>)"
    "boot_env_ok (d\<lparr>grubenv := Some b\<rparr>)" "read_env dec (d\<lparr>grubenv := Some b\<rparr>) = ?vs" .
  show thesis by (rule that [of b]) (use b r(1) names_plain in \<open>auto simp: state_of_def dict_get_or_def\<close>)
qed

lemma save_state_state:
  assumes "boot_env_ok d" and "decodes_ascii dec" and "st \<in> set STATES" and "state_of dec d \<noteq> []"
  shows "boot_env_ok (save_state dec st d)" and "state_of dec (save_state dec st d) = st" and "slot (save_state dec st d) = slot d"
proof -
  from update_state [OF assms] obtain b where "write_env (AList.update STATE st (read_env dec d)) d = Inr (d\<lparr>grubenv := Some b\<rparr>)"
    "boot_env_ok (d\<lparr>grubenv := Some b\<rparr>)" "state_of dec (d\<lparr>grubenv := Some b\<rparr>) = st" .
  then show "boot_env_ok (save_state dec st d)" "state_of dec (save_state dec st d) = st" "slot (save_state dec st d) = slot d"
    by (simp_all add: save_state_def)
qed

subsection \<open>The table of states\<close>

record boot_event =
  save_ok :: bool
  picked :: bool
  verdict :: "string list option"

text \<open>
  One boot: the menu chooses, with \<open>picked\<close> when somebody picks an entry of the image, and the kernel then
  reaches \<open>confirm_boot\<close>, whose check ends with the verdict, or does not (a panic, a hang, a power cut).
\<close>

definition boot_once :: "((string, string) dict option \<Rightarrow> bool) \<Rightarrow> (string \<Rightarrow> string) \<Rightarrow> boot_event \<Rightarrow> boot_disk \<Rightarrow> booted_kernel \<times> string \<times> boot_disk" where
  "boot_once check dec e d =
     (case grub_boot check dec (save_ok e) (picked e) d of (k, mode, d') \<Rightarrow>
        (k, mode, case verdict e of None \<Rightarrow> d'
          | Some ps \<Rightarrow> (case confirm_boot dec None (Some mode) ps d' of Inl _ \<Rightarrow> d' | Inr (_, d'') \<Rightarrow> d'')))"

text \<open>The same on the state alone, as the module's table has it.\<close>

definition table_boot :: "bool \<Rightarrow> boot_event \<Rightarrow> string \<Rightarrow> booted_kernel \<times> string \<times> string" where
  "table_boot intact e st =
     (let good = (verdict e = Some []); reached = (verdict e \<noteq> None) in
      if st = TRIAL \<or> st = GOOD then
        (if \<not> save_ok e then (ImageKernel, BOOT_IMAGE, st)
         else if \<not> intact then (ImageKernel, BOOT_FALLBACK, FAILED)
         else if picked e then (ImageKernel, BOOT_IMAGE, if reached then st else if st = TRIAL then TRYING else BOOTING)
         else (StagedKernel, if st = TRIAL then BOOT_TRIAL else BOOT_STAGED, if good then GOOD else if st = TRIAL then TRYING else BOOTING))
      else if st = TRYING \<or> st = BOOTING then
        (if save_ok e then (ImageKernel, BOOT_FALLBACK, FAILED)
         else (ImageKernel, BOOT_IMAGE, if reached then (if st = TRYING then TRIAL else GOOD) else st))
      else (ImageKernel, BOOT_IMAGE, st))"

lemma distinct_states [simp]:
  "TRIAL \<noteq> TRYING" "TRIAL \<noteq> GOOD" "TRIAL \<noteq> BOOTING" "TRIAL \<noteq> FAILED" "TRYING \<noteq> GOOD" "TRYING \<noteq> BOOTING" "TRYING \<noteq> FAILED"
  "GOOD \<noteq> BOOTING" "GOOD \<noteq> FAILED" "BOOTING \<noteq> FAILED" "TRYING \<noteq> TRIAL" "GOOD \<noteq> TRIAL" "BOOTING \<noteq> TRIAL" "FAILED \<noteq> TRIAL" "GOOD \<noteq> TRYING"
  "BOOTING \<noteq> TRYING" "FAILED \<noteq> TRYING" "BOOTING \<noteq> GOOD" "FAILED \<noteq> GOOD" "FAILED \<noteq> BOOTING"
  by (simp_all add: boot_states)

lemma distinct_modes [simp]:
  "BOOT_TRIAL \<noteq> BOOT_STAGED" "BOOT_TRIAL \<noteq> BOOT_IMAGE" "BOOT_TRIAL \<noteq> BOOT_FALLBACK" "BOOT_STAGED \<noteq> BOOT_IMAGE" "BOOT_STAGED \<noteq> BOOT_FALLBACK"
  "BOOT_IMAGE \<noteq> BOOT_FALLBACK" "BOOT_STAGED \<noteq> BOOT_TRIAL" "BOOT_IMAGE \<noteq> BOOT_TRIAL" "BOOT_FALLBACK \<noteq> BOOT_TRIAL" "BOOT_IMAGE \<noteq> BOOT_STAGED"
  "BOOT_FALLBACK \<noteq> BOOT_STAGED" "BOOT_FALLBACK \<noteq> BOOT_IMAGE"
  by (simp_all add: boot_modes)

lemma states_not_Nil [simp]: "TRIAL \<noteq> []" "TRYING \<noteq> []" "GOOD \<noteq> []" "BOOTING \<noteq> []" "FAILED \<noteq> []"
  "[] \<noteq> TRIAL" "[] \<noteq> TRYING" "[] \<noteq> GOOD" "[] \<noteq> BOOTING" "[] \<noteq> FAILED"
  by (simp_all add: boot_states)

lemma map_of_state:
  assumes "boot_env_ok d" and "decodes_ascii dec"
  shows "map_of (read_env dec d) STATE = (if state_of dec d = [] then None else Some (state_of dec d))"
    and "state_of dec d = [] \<or> state_of dec d \<in> set STATES"
  using read_staged [OF assms] by (auto simp: staged_values_def state_of_def dict_get_or_def STATES_def boot_states)

definition confirmed_state :: "string \<Rightarrow> string list \<Rightarrow> string \<Rightarrow> string" where
  "confirmed_state mode ps st =
     (if (mode = BOOT_TRIAL \<and> st = TRYING \<or> mode = BOOT_STAGED \<and> st = BOOTING) \<and> ps = [] then GOOD
      else if mode = BOOT_IMAGE \<and> st = TRYING then TRIAL else if mode = BOOT_IMAGE \<and> st = BOOTING then GOOD else st)"

lemma confirm_boot_state:
  assumes ok: "boot_env_ok d" "decodes_ascii dec"
  shows "\<exists>out d'. confirm_boot dec summary (Some mode) ps d = Inr (out, d') \<and> boot_env_ok d' \<and> slot d' = slot d
    \<and> state_of dec d' = confirmed_state mode ps (state_of dec d)"
proof -
  let ?st = "state_of dec d" and ?new = "confirmed_state mode ps (state_of dec d)"
  note m = map_of_state(1) [OF ok]
  show ?thesis
  proof (cases "?new = ?st")
    case True
    then have "\<not> ((mode = BOOT_TRIAL \<and> ?st = TRYING \<or> mode = BOOT_STAGED \<and> ?st = BOOTING) \<and> ps = [])"
      "\<not> (mode = BOOT_IMAGE \<and> (?st = TRYING \<or> ?st = BOOTING))"
      by (auto simp: confirmed_state_def split: if_splits)
    then have "\<exists>out. confirm_boot dec summary (Some mode) ps d = Inr (out, d)"
      using m by (cases "ps = []") (auto simp: confirm_boot_def Let_def)
    with True ok show ?thesis by auto
  next
    case False
    then have new: "?new = GOOD \<or> ?new = TRIAL" "?st \<noteq> []" by (auto simp: confirmed_state_def split: if_splits)
    then have "?new \<in> set STATES" by (auto simp: STATES_def)
    from update_state [OF ok this new(2)] obtain b where
      b: "write_env (AList.update STATE ?new (read_env dec d)) d = Inr (d\<lparr>grubenv := Some b\<rparr>)"
      "boot_env_ok (d\<lparr>grubenv := Some b\<rparr>)" "state_of dec (d\<lparr>grubenv := Some b\<rparr>) = ?new" .
    have "\<exists>out. confirm_boot dec summary (Some mode) ps d = Inr (out, d\<lparr>grubenv := Some b\<rparr>)"
      using m b(1) False by (auto simp: confirm_boot_def Let_def confirmed_state_def split: if_splits)
    with b show ?thesis by auto
  qed
qed

definition menu_table :: "bool \<Rightarrow> bool \<Rightarrow> bool \<Rightarrow> string \<Rightarrow> booted_kernel \<times> string \<times> string" where
  "menu_table intact s p st =
     (if st = TRIAL \<or> st = GOOD then
        (if \<not> s then (ImageKernel, BOOT_IMAGE, st) else if \<not> intact then (ImageKernel, BOOT_FALLBACK, FAILED)
         else if p then (ImageKernel, BOOT_IMAGE, if st = TRIAL then TRYING else BOOTING)
         else (StagedKernel, if st = TRIAL then BOOT_TRIAL else BOOT_STAGED, if st = TRIAL then TRYING else BOOTING))
      else if st = TRYING \<or> st = BOOTING then (if s then (ImageKernel, BOOT_FALLBACK, FAILED) else (ImageKernel, BOOT_IMAGE, st))
      else (ImageKernel, BOOT_IMAGE, st))"

lemma table_boot_parts:
  "table_boot intact e st = (case menu_table intact (save_ok e) (picked e) st of (k, m, st') \<Rightarrow>
     (k, m, case verdict e of None \<Rightarrow> st' | Some ps \<Rightarrow> confirmed_state m ps st'))"
proof -
  consider "st = TRIAL" | "st = GOOD" | "st = TRYING" | "st = BOOTING" | "st \<notin> {TRIAL, GOOD, TRYING, BOOTING}" by auto
  then show ?thesis
    by cases (cases "verdict e"; simp add: table_boot_def menu_table_def confirmed_state_def)+
qed

lemma grub_boot_state:
  assumes ok: "boot_env_ok d" "decodes_ascii dec" and g: "grub_boot check dec s p d = (k, mode, d')"
  shows "boot_env_ok d' \<and> slot d' = slot d \<and> (k, mode, state_of dec d') = menu_table (check (slot d)) s p (state_of dec d)"
proof -
  have saved: "boot_env_ok (save_state dec x d) \<and> state_of dec (save_state dec x d) = x \<and> slot (save_state dec x d) = slot d"
    if "state_of dec d = TRIAL \<or> state_of dec d = GOOD \<or> state_of dec d = TRYING \<or> state_of dec d = BOOTING" "x \<in> set STATES" for x
    using save_state_state [OF ok that(2)] that(1) by (auto simp: boot_states)
  show ?thesis using g ok(1) saved [of TRYING] saved [of BOOTING] saved [of FAILED]
    unfolding grub_boot_def grub_menu_def state_of_def [symmetric] Let_def
    by (auto simp: STATES_def menu_table_def split: if_splits)
qed

lemma boot_once_refines_table:
  assumes "boot_env_ok d" and "decodes_ascii dec" and "boot_once check dec e d = (k, mode, d')"
  shows "boot_env_ok d' \<and> slot d' = slot d \<and> (k, mode, state_of dec d') = table_boot (check (slot d)) e (state_of dec d)"
proof -
  obtain k1 mode1 d1 where g: "grub_boot check dec (save_ok e) (picked e) d = (k1, mode1, d1)" by (cases "grub_boot check dec (save_ok e) (picked e) d") auto
  note s = grub_boot_state [OF assms(1,2) g]
  then have ok1: "boot_env_ok d1" by blast
  show ?thesis
  proof (cases "verdict e")
    case None
    with assms(3) g s show ?thesis by (auto simp: boot_once_def table_boot_parts split: prod.split)
  next
    case (Some ps)
    from confirm_boot_state [OF ok1 assms(2), of None mode1 ps] obtain out d2 where
      c: "confirm_boot dec None (Some mode1) ps d1 = Inr (out, d2)" "boot_env_ok d2" "slot d2 = slot d1"
        "state_of dec d2 = confirmed_state mode1 ps (state_of dec d1)" by blast
    with assms(3) g Some have d: "k = k1" "mode = mode1" "d' = d2" by (simp_all add: boot_once_def)
    show ?thesis unfolding d using s c Some by (auto simp: table_boot_parts split: prod.split)
  qed
qed

fun boots :: "((string, string) dict option \<Rightarrow> bool) \<Rightarrow> (string \<Rightarrow> string) \<Rightarrow> boot_event list \<Rightarrow> boot_disk \<Rightarrow> booted_kernel list" where
  "boots check dec [] d = []"
| "boots check dec (e # es) d = (case boot_once check dec e d of (k, mode, d') \<Rightarrow> k # boots check dec es d')"

subsection \<open>A kernel that does not come up is booted once\<close>

text \<open>Once a boot of the staged kernel is over without a confirmation, or the state says so, it is not booted again.\<close>

lemma no_more_staged:
  assumes "boot_env_ok d" and "decodes_ascii dec" and "list_all (\<lambda>e. save_ok e \<and> verdict e \<noteq> Some []) es"
    and "state_of dec d \<noteq> TRIAL" and "state_of dec d \<noteq> GOOD"
  shows "StagedKernel \<notin> set (boots check dec es d)"
  using assms
proof (induction es arbitrary: d)
  case (Cons e es)
  obtain k mode d' where b: "boot_once check dec e d = (k, mode, d')" by (cases "boot_once check dec e d") auto
  note r = boot_once_refines_table [OF Cons.prems(1,2) b]
  from r Cons.prems(3-5) have "k = ImageKernel" "state_of dec d' \<noteq> TRIAL" "state_of dec d' \<noteq> GOOD"
    by (auto simp: table_boot_def Let_def split: if_splits)
  with Cons.IH [of d'] Cons.prems(2,3) r b show ?case by simp
qed simp

text \<open>
  C5: a staged kernel that never passes its check -- it panics, hangs, is cut off, or comes up badly -- is booted
  at most once, however often the router is rebooted and whatever entry is picked from the menu, as long as
  GRUB can save its state; every other boot is the image's own kernel.
\<close>

theorem failing_kernel_boots_once:
  assumes "boot_env_ok d" and "decodes_ascii dec" and "list_all (\<lambda>e. save_ok e \<and> verdict e \<noteq> Some []) es"
  shows "count_list (boots check dec es d) StagedKernel \<le> 1"
  using assms
proof (induction es arbitrary: d)
  case (Cons e es)
  obtain k mode d' where b: "boot_once check dec e d = (k, mode, d')" by (cases "boot_once check dec e d") auto
  note r = boot_once_refines_table [OF Cons.prems(1,2) b]
  show ?case
  proof (cases k)
    case StagedKernel
    with r Cons.prems(3) have "state_of dec d' = TRYING \<or> state_of dec d' = BOOTING"
      by (auto simp: table_boot_def Let_def split: if_splits)
    then have "StagedKernel \<notin> set (boots check dec es d')" using no_more_staged [of d' dec es check] r Cons.prems(2,3) by auto
    with b StagedKernel show ?thesis by (simp add: count_list_0_iff)
  next
    case ImageKernel
    with Cons.IH [of d'] Cons.prems(2,3) r b show ?thesis by simp
  qed
qed simp

definition disk1 :: boot_disk where
  "disk1 = \<lparr>grubenv = (case format_env [(STATE, TRIAL), (STAGED, ''6.1.0-28-amd64'')] of Inr b \<Rightarrow> Some b | Inl _ \<Rightarrow> None), slot = Some [], new_slot = None\<rparr>"

lemma disk1_ok: "boot_env_ok disk1" "decodes_ascii dec \<Longrightarrow> state_of dec disk1 = TRIAL"
proof -
  have v: "staged_values [(STATE, TRIAL), (STAGED, ''6.1.0-28-amd64'')]"
    by (auto simp: staged_values_def STATES_def kernel_version_re_def head_tail_def env_value_char_def is_alnum_char_def is_digit_def is_lower_def in_range_def)
  obtain b where b: "format_env [(STATE, TRIAL), (STAGED, ''6.1.0-28-amd64'')] = Inr b" using format_staged [OF v] .
  then show "boot_env_ok disk1" using v by (auto simp: disk1_def boot_env_ok_def)
  assume "decodes_ascii dec"
  with parse_format_env [OF b staged_values_dict [OF v]] b show "state_of dec disk1 = TRIAL"
    by (auto simp: disk1_def state_of_def read_env_def decodes_ascii_def dict_get_or_def)
qed

theorem failing_kernel_boots_once_witness:
  "count_list (boots (\<lambda>_. True) (\<lambda>s. s) [\<lparr>save_ok = True, picked = False, verdict = None\<rparr>, \<lparr>save_ok = True, picked = False, verdict = Some [''no link'']\<rparr>] disk1) StagedKernel \<le> 1"
  by (rule failing_kernel_boots_once) (simp_all add: disk1_ok decodes_ascii_def)

text \<open>
  When GRUB's \<open>save_env\<close> fails on the boot after the trial, the image's kernel boots as usual, and
  \<open>confirm_boot\<close> takes that for a choice from the menu: the kernel that did not come up is tried again.
\<close>

lemma failing_kernel_boots_again:
  "boots (\<lambda>_. True) (\<lambda>s. s) [\<lparr>save_ok = True, picked = False, verdict = None\<rparr>, \<lparr>save_ok = False, picked = False, verdict = Some []\<rparr>,
      \<lparr>save_ok = True, picked = False, verdict = None\<rparr>] disk1 = [StagedKernel, ImageKernel, StagedKernel]"
proof -
  let ?e1 = "\<lparr>save_ok = True, picked = False, verdict = None\<rparr>" and ?e2 = "\<lparr>save_ok = False, picked = False, verdict = Some []\<rparr>"
  have dec: "decodes_ascii (\<lambda>s. s)" by (simp add: decodes_ascii_def)
  obtain k1 m1 d1 where b1: "boot_once (\<lambda>_. True) (\<lambda>s. s) ?e1 disk1 = (k1, m1, d1)" by (cases "boot_once (\<lambda>_. True) (\<lambda>s. s) ?e1 disk1") auto
  note r1 = boot_once_refines_table [OF disk1_ok(1) dec b1]
  then have s1: "k1 = StagedKernel" "state_of (\<lambda>s. s) d1 = TRYING" "boot_env_ok d1" by (auto simp: disk1_ok(2) [OF dec] table_boot_def)
  obtain k2 m2 d2 where b2: "boot_once (\<lambda>_. True) (\<lambda>s. s) ?e2 d1 = (k2, m2, d2)" by (cases "boot_once (\<lambda>_. True) (\<lambda>s. s) ?e2 d1") auto
  note r2 = boot_once_refines_table [OF s1(3) dec b2]
  then have s2: "k2 = ImageKernel" "state_of (\<lambda>s. s) d2 = TRIAL" "boot_env_ok d2" by (auto simp: s1(2) table_boot_def)
  obtain k3 m3 d3 where b3: "boot_once (\<lambda>_. True) (\<lambda>s. s) ?e1 d2 = (k3, m3, d3)" by (cases "boot_once (\<lambda>_. True) (\<lambda>s. s) ?e1 d2") auto
  note r3 = boot_once_refines_table [OF s2(3) dec b3]
  then have "k3 = StagedKernel" by (auto simp: s2(2) table_boot_def)
  with s1 s2 b1 b2 b3 show ?thesis by simp
qed

subsection \<open>A staging that crashes\<close>

text \<open>
  What a crash in the middle of a change leaves: a file or a directory is renamed or it is not, a copy or a
  removal may have got anywhere.
\<close>

fun torn_op :: "disk_op \<Rightarrow> boot_disk \<Rightarrow> boot_disk \<Rightarrow> bool" where
  "torn_op (WriteEnv vs) d d' = (d' = d)"
| "torn_op RemoveNew d d' = (\<exists>fs. d' = d\<lparr>new_slot := fs\<rparr>)"
| "torn_op MakeNew d d' = (d' = d)"
| "torn_op (CopyNew n c) d d' = (\<exists>fs. d' = d\<lparr>new_slot := fs\<rparr>)"
| "torn_op RemoveSlot d d' = (\<exists>fs. d' = d\<lparr>slot := fs\<rparr>)"
| "torn_op NewToSlot d d' = (d' = d)"

definition crashed :: "disk_op list \<Rightarrow> boot_disk \<Rightarrow> boot_disk \<Rightarrow> bool" where
  "crashed ops d d' \<longleftrightarrow> (\<exists>xs op ys d1. ops = xs @ op # ys \<and> fold_result run_op xs d = Inr d1 \<and> torn_op op d1 d')"

lemma crashed_Nil [simp]: "\<not> crashed [] d d'"
  by (simp add: crashed_def)

lemma crashed_Cons: "crashed (op # ops) d d' \<longleftrightarrow> torn_op op d d' \<or> (\<exists>d1. run_op op d = Inr d1 \<and> crashed ops d1 d')"
proof
  assume "crashed (op # ops) d d'"
  then obtain xs o' ys d1 where c: "op # ops = xs @ o' # ys" "fold_result run_op xs d = Inr d1" "torn_op o' d1 d'" by (auto simp: crashed_def)
  show "torn_op op d d' \<or> (\<exists>d1. run_op op d = Inr d1 \<and> crashed ops d1 d')"
  proof (cases xs)
    case (Cons x xs')
    with c show ?thesis unfolding crashed_def by auto
  qed (use c in auto)
next
  assume "torn_op op d d' \<or> (\<exists>d1. run_op op d = Inr d1 \<and> crashed ops d1 d')"
  then show "crashed (op # ops) d d'"
  proof
    assume "torn_op op d d'"
    then show ?thesis unfolding crashed_def by (intro exI [of _ "[]"]) auto
  next
    assume "\<exists>d1. run_op op d = Inr d1 \<and> crashed ops d1 d'"
    then obtain d1 xs o' ys d2 where "run_op op d = Inr d1" "ops = xs @ o' # ys" "fold_result run_op xs d1 = Inr d2" "torn_op o' d2 d'"
      by (auto simp: crashed_def)
    then show ?thesis unfolding crashed_def by (intro exI [of _ "op # xs"]) auto
  qed
qed

text \<open>Nothing but the last change touches the block after the first.\<close>

definition keeps_env :: "disk_op \<Rightarrow> bool" where
  "keeps_env op \<longleftrightarrow> (\<forall>vs. op \<noteq> WriteEnv vs)"

lemma crashed_keeps_env:
  assumes "list_all keeps_env ops" and "crashed (ops @ [WriteEnv vs]) d d'"
  shows "grubenv d' = grubenv d"
  using assms
proof (induction ops arbitrary: d)
  case Nil
  then show ?case by (simp add: crashed_Cons)
next
  case (Cons op ops)
  have run: "run_op op d = Inr d1 \<Longrightarrow> grubenv d1 = grubenv d" for d1 using Cons.prems(1) by (cases op) (auto simp: keeps_env_def)
  have torn: "torn_op op d d1 \<Longrightarrow> grubenv d1 = grubenv d" for d1 using Cons.prems(1) by (cases op) (auto simp: keeps_env_def)
  from Cons.prems(2) have "torn_op op d d' \<or> (\<exists>d1. run_op op d = Inr d1 \<and> crashed (ops @ [WriteEnv vs]) d1 d')" by (simp add: crashed_Cons)
  then show ?case
  proof
    assume "\<exists>d1. run_op op d = Inr d1 \<and> crashed (ops @ [WriteEnv vs]) d1 d'"
    then obtain d1 where d1: "run_op op d = Inr d1" "crashed (ops @ [WriteEnv vs]) d1 d'" by blast
    from Cons.prems(1) have "list_all keeps_env ops" by simp
    from Cons.IH [OF this d1(2)] run [OF d1(1)] show ?thesis by (rule trans)
  qed (rule torn)
qed

lemma empty_env:
  assumes "decodes_ascii dec"
  obtains b where "write_env [] d = Inr (d\<lparr>grubenv := Some b\<rparr>)" and "\<And>d'. grubenv d' = Some b \<Longrightarrow> read_env dec d' = []"
proof -
  have "staged_values []" by (simp add: staged_values_def)
  from write_staged [OF this assms, of d] obtain b where "write_env [] d = Inr (d\<lparr>grubenv := Some b\<rparr>)" "read_env dec (d\<lparr>grubenv := Some b\<rparr>) = []" .
  then show thesis by (intro that [of b]) (auto simp: read_env_def)
qed

lemma empty_env_boots_image:
  assumes "read_env dec d = []"
  shows "grub_boot check dec s p d = (ImageKernel, BOOT_IMAGE, d)"
  using assms by (simp add: grub_boot_def grub_menu_def dict_get_or_def boot_states)

lemma split_ws_once_two:
  assumes "list_all (\<lambda>c. \<not> is_space c) g" and "g \<noteq> []" and "n \<noteq> []" and "\<not> is_space (hd n)"
  shows "split_ws_once (g @ ''  '' @ n) = [g, n]"
proof -
  have sp: "is_space CHR '' ''" by (simp add: is_space_def in_range_def)
  have "dropWhile is_space (g @ ''  '' @ n) = g @ ''  '' @ n" using assms(1,2) by (cases g) auto
  moreover have "takeWhile (\<lambda>c. \<not> is_space c) (g @ ''  '' @ n) = g" "dropWhile (\<lambda>c. \<not> is_space c) (g @ ''  '' @ n) = ''  '' @ n"
    using assms(1) sp by (induction g) auto
  moreover have "dropWhile is_space (''  '' @ n) = n" using assms(3,4) sp by (cases n) auto
  ultimately show ?thesis using assms(2,3) by (simp add: split_ws_once_def Let_def)
qed

definition digests :: "(string \<Rightarrow> string) \<Rightarrow> bool" where
  "digests sha \<longleftrightarrow> (\<forall>c. sha c \<noteq> [] \<and> list_all is_hex_lower (sha c))"

lemma hex_plain: "is_hex_lower c \<Longrightarrow> \<not> is_space c \<and> \<not> is_line_break c"
  by (auto simp: is_hex_lower_def is_digit_def is_space_def is_line_break_def in_range_def)

lemma listed_sums_text:
  assumes "digests sha"
  shows "listed_sums (splitlines (sums_text sha k i)) = Some [(KERNEL, sha k), (INITRD, sha i)]"
proof -
  let ?ls = "[sha k @ ''  '' @ KERNEL, sha i @ ''  '' @ INITRD]"
  have h: "list_all (\<lambda>c. \<not> is_space c) (sha c)" "list_all (\<lambda>c. \<not> is_line_break c) (sha c)" "sha c \<noteq> []" for c
    using assms hex_plain by (auto simp: digests_def list_all_iff)
  have "splitlines (concat (map (\<lambda>l. l @ [LF]) ?ls)) = ?ls"
    by (rule splitlines_unlines) (use h in \<open>auto simp: boot_names is_line_break_def in_range_def\<close>)
  then have "splitlines (sums_text sha k i) = ?ls" by (simp add: sums_text_def)
  moreover have "strip (sha c @ x) \<noteq> []" for c x
  proof -
    obtain y ys where "sha c = y # ys" "\<not> is_space y" using h(1,3) [of c] by (cases "sha c") auto
    then show ?thesis by (simp add: strip_def dropWhile_append)
  qed
  moreover have "split_ws_once (sha c @ ''  '' @ KERNEL) = [sha c, KERNEL]" "split_ws_once (sha c @ ''  '' @ INITRD) = [sha c, INITRD]" for c
    using h [of c] by (intro split_ws_once_two; simp add: boot_names is_space_def in_range_def)+
  ultimately show ?thesis by simp
qed

text \<open>
  C12: staging a kernel is all or nothing.  Wherever it is cut off, either nothing at all has changed, or the
  block marks nothing and the next boot is the image's own kernel, whatever is on the disk; and when it
  succeeds, the staged files are the two that were given, they match their checksums, and the next boot is their trial.
\<close>

theorem staging_all_or_nothing:
  assumes "decodes_ascii dec" and "digests sha" and "kernel_version_re version"
  shows "(\<forall>d'. crashed (stage_ops sha k i version expect) d d' \<longrightarrow> d' = d \<or> (\<forall>check s p. grub_boot check dec s p d' = (ImageKernel, BOOT_IMAGE, d')))
    \<and> (\<exists>d'. fold_result run_op (stage_ops sha k i version expect) d = Inr d' \<and> files_intact sha d'
         \<and> (\<exists>files. slot d' = Some files \<and> map_of files KERNEL = Some k \<and> map_of files INITRD = Some i)
         \<and> state_of dec d' = TRIAL \<and> (\<forall>check. check (slot d') \<longrightarrow> fst (grub_boot check dec True False d') = StagedKernel))"
proof (intro conjI allI impI)
  fix d' assume c: "crashed (stage_ops sha k i version expect) d d'"
  obtain b where b: "write_env [] d = Inr (d\<lparr>grubenv := Some b\<rparr>)" "\<And>d'. grubenv d' = Some b \<Longrightarrow> read_env dec d' = []"
    using empty_env [OF assms(1)] by blast
  obtain mid where ops: "stage_ops sha k i version expect = WriteEnv [] # mid @ [WriteEnv [(STATE, TRIAL), (STAGED, version)]]" "list_all keeps_env mid"
    by (auto simp: stage_ops_def keeps_env_def split: option.split)
  from c show "d' = d \<or> (\<forall>check s p. grub_boot check dec s p d' = (ImageKernel, BOOT_IMAGE, d'))"
    unfolding ops(1) crashed_Cons
  proof
    assume "\<exists>d1. run_op (WriteEnv []) d = Inr d1 \<and> crashed (mid @ [WriteEnv [(STATE, TRIAL), (STAGED, version)]]) d1 d'"
    then have "crashed (mid @ [WriteEnv [(STATE, TRIAL), (STAGED, version)]]) (d\<lparr>grubenv := Some b\<rparr>) d'" using b(1) by simp
    from crashed_keeps_env [OF ops(2) this] b(2) show ?thesis by (simp add: empty_env_boots_image)
  qed simp
next
  obtain b where b: "write_env [] d = Inr (d\<lparr>grubenv := Some b\<rparr>)" using empty_env [OF assms(1)] by blast
  have "staged_values [(STATE, TRIAL), (STAGED, version)]" using assms(3) by (simp add: staged_values_def STATES_def)
  then obtain c where f: "format_env [(STATE, TRIAL), (STAGED, version)] = Inr c" and
    r: "parse_env dec c = [(STATE, TRIAL), (STAGED, version)]"
    using format_staged parse_format_env staged_values_dict assms(1) by (metis decodes_ascii_def)
  then have c: "write_env [(STATE, TRIAL), (STAGED, version)] e = Inr (e\<lparr>grubenv := Some c\<rparr>)" "read_env dec (e\<lparr>grubenv := Some c\<rparr>) = [(STATE, TRIAL), (STAGED, version)]" for e
    by (simp_all add: write_env_def read_env_def)
  let ?files = "[(KERNEL, k), (INITRD, i), (SUMS, sums_text sha k i)] @ (case expect of None \<Rightarrow> [] | Some e \<Rightarrow> [(EXPECT, e)])"
  let ?d = "d\<lparr>slot := Some ?files, new_slot := None, grubenv := Some c\<rparr>"
  have run: "fold_result run_op (stage_ops sha k i version expect) d = Inr ?d"
    by (cases expect) (simp_all add: stage_ops_def b c KERNEL_def INITRD_def SUMS_def EXPECT_def)
  have "staged_files sha ?d = [(KERNEL, sha k), (INITRD, sha i)]" by (simp add: staged_files_def boot_names)
  then have "files_intact sha ?d"
    by (simp add: files_intact_def listed_sums_text [OF assms(2)] boot_names strip_def is_space_def in_range_def)
  moreover have "state_of dec ?d = TRIAL" using c(2) by (simp add: state_of_def dict_get_or_def)
  moreover have "check (slot ?d) \<Longrightarrow> fst (grub_boot check dec True False ?d) = StagedKernel" for check
    using calculation(2) by (simp add: grub_boot_def grub_menu_def state_of_def)
  ultimately show "\<exists>d'. fold_result run_op (stage_ops sha k i version expect) d = Inr d' \<and> files_intact sha d'
      \<and> (\<exists>files. slot d' = Some files \<and> map_of files KERNEL = Some k \<and> map_of files INITRD = Some i)
      \<and> state_of dec d' = TRIAL \<and> (\<forall>check. check (slot d') \<longrightarrow> fst (grub_boot check dec True False d') = StagedKernel)"
    using run by (intro exI [of _ ?d]) (simp add: boot_names)
qed

theorem staging_all_or_nothing_witness:
  "\<exists>d'. fold_result run_op (stage_ops (\<lambda>_. ''ab'') ''k'' ''i'' ''6.1'' None) disk1 = Inr d' \<and> files_intact (\<lambda>_. ''ab'') d'"
  using staging_all_or_nothing [of "\<lambda>s. s" "\<lambda>_. ''ab''" "''6.1''" "''k''" "''i''" None disk1]
  by (auto simp: decodes_ascii_def digests_def is_hex_lower_def is_digit_def in_range_def kernel_version_re_def head_tail_def env_value_char_def is_alnum_char_def)

end
