(* ===== verification/Boot_Health.thy ===== *)
theory Boot_Health
  imports Kernel_Boot Builder
begin

text \<open>
  What a staged kernel's boot is checked for (\<open>src/src/frfw/kernel_boot.py\<close>): the state of the network as
  \<open>ip -j\<close> gives it, what worked when the kernel was staged, what of it does not work now, and the loop that
  waits for the router to come up.  \<open>active\<close> is \<open>service_active\<close>, \<open>as_interface\<close> the text of an \<open>IPv4Interface\<close>.

  The loop returns within its timeout and reports no problem exactly when a check in time found none; what
  is recorded at the moment of staging is no problem at that moment, provided its devices are up.
\<close>

subsection \<open>The network now\<close>

record dev_state =
  dv_up :: bool
  dv_carrier :: bool
  dv_xdp :: bool
  dv_addresses :: "string list"

type_synonym network = "(string, dev_state) dict"

record ip_link =
  link_ifname :: string
  link_flags :: "string list"
  link_xdp :: bool

record ip_addr =
  addr_ifname :: string
  addr_info :: "(string \<times> string \<times> nat) list"

definition no_device :: dev_state where
  "no_device = \<lparr>dv_up = False, dv_carrier = False, dv_xdp = False, dv_addresses = []\<rparr>"

definition note_link :: "ip_link \<Rightarrow> network \<Rightarrow> network" where
  "note_link l ds = AList.update (link_ifname l)
     \<lparr>dv_up = (''UP'' \<in> set (link_flags l)), dv_carrier = (''LOWER_UP'' \<in> set (link_flags l)), dv_xdp = link_xdp l, dv_addresses = []\<rparr> ds"

definition note_addr :: "ip_addr \<Rightarrow> network \<Rightarrow> network" where
  "note_addr a ds = AList.update (addr_ifname a)
     ((dict_get_or ds (addr_ifname a) no_device)
       \<lparr>dv_addresses := sort (map (\<lambda>(_, local, len). local @ ''/'' @ show_nat len) (filter (\<lambda>(fam, _). fam = ''inet'') (addr_info a)))\<rparr>) ds"

definition network_now :: "ip_link list \<Rightarrow> ip_addr list \<Rightarrow> network" where
  "network_now links addrs = fold note_addr addrs (fold note_link links [])"

subsection \<open>What is expected\<close>

definition EXPECTED_SERVICES :: "string list" where
  "EXPECTED_SERVICES = [''fr-webui.service'', ''fr-apply-helper.socket'', ''kea-dhcp4-server.service'', ''fr-adblock-dns.service'',
     ''fr-xdp-sni-logger.service'', ''fr-ai-ids.service'', ''fr-appid.service'', ''fr-tls-fp.service'', ''ssh.service'']"

record expectation =
  ex_carrier :: "string list"
  ex_addresses :: "(string, string) dict"
  ex_xdp :: "string list"
  ex_wireguard :: bool
  ex_services :: "string list"

text \<open>The loader has checked that the filter's interfaces are those of the configuration.\<close>

definition config_devices :: "(string \<Rightarrow> string) \<Rightarrow> config \<Rightarrow> string list \<times> (string, string) dict \<times> string list" where
  "config_devices as_interface cfg =
     (let ifs = map snd (interfaces cfg);
          vlans = map if_device (filter (\<lambda>i. vlan_id i \<noteq> None) ifs);
          devices = map (\<lambda>i. if vlan_id i \<noteq> None then (case vlan_parent i of None \<Rightarrow> ''None'' | Some p \<Rightarrow> p) else if_device i) ifs;
          addresses = fold (\<lambda>i m. case if_address i of None \<Rightarrow> m | Some a \<Rightarrow> if a = [] then m else AList.update (if_device i) (as_interface a) m) ifs [];
          xdp = (if xdp_enabled (xdp_sni_filter cfg)
            then sort (remdups (filter (\<lambda>d. d \<notin> set vlans) (map if_device (List.map_filter (map_of (interfaces cfg)) (xdp_interfaces (xdp_sni_filter cfg))))))
            else [])
      in (devices, addresses, xdp))"

definition config_expectations :: "(string \<Rightarrow> string) \<Rightarrow> config \<Rightarrow> expectation" where
  "config_expectations as_interface cfg =
     (case config_devices as_interface cfg of (_, addresses, xdp) \<Rightarrow>
        \<lparr>ex_carrier = [], ex_addresses = addresses, ex_xdp = xdp, ex_wireguard = wg_enabled (wireguard cfg), ex_services = []\<rparr>)"

definition expectations :: "(string \<Rightarrow> string) \<Rightarrow> config \<Rightarrow> network \<Rightarrow> (string \<Rightarrow> bool) \<Rightarrow> expectation" where
  "expectations as_interface cfg now active =
     (case config_devices as_interface cfg of (devices, addresses, xdp) \<Rightarrow>
        \<lparr>ex_carrier = sort (remdups (filter (\<lambda>d. dv_carrier (dict_get_or now d no_device)) devices)),
         ex_addresses = filter (\<lambda>(d, a). a \<in> set (dv_addresses (dict_get_or now d no_device))) addresses,
         ex_xdp = filter (\<lambda>d. dv_xdp (dict_get_or now d no_device)) xdp,
         ex_wireguard = (wg_enabled (wireguard cfg) \<and> dv_up (dict_get_or now WIREGUARD_IFACE no_device)),
         ex_services = filter active EXPECTED_SERVICES\<rparr>)"

definition expectation_problems :: "expectation \<Rightarrow> network \<Rightarrow> (string \<Rightarrow> bool) \<Rightarrow> string list" where
  "expectation_problems expect now active =
     map (\<lambda>d. d @ '' had a link before the trial and has none now'') (filter (\<lambda>d. \<not> dv_carrier (dict_get_or now d no_device)) (ex_carrier expect))
     @ map (\<lambda>(d, a). d @ '' is not up with its address '' @ a)
         (filter (\<lambda>(d, a). a \<notin> set (dv_addresses (dict_get_or now d no_device)) \<or> \<not> dv_up (dict_get_or now d no_device)) (sort (ex_addresses expect)))
     @ map (\<lambda>d. ''the XDP SNI filter is not attached to '' @ d) (filter (\<lambda>d. \<not> dv_xdp (dict_get_or now d no_device)) (ex_xdp expect))
     @ (if ex_wireguard expect \<and> \<not> dv_up (dict_get_or now WIREGUARD_IFACE no_device) then [''the WireGuard tunnel '' @ WIREGUARD_IFACE @ '' is not up''] else [])
     @ map (\<lambda>u. u @ '' ran before the trial and is not running'') (filter (\<lambda>u. \<not> active u) (ex_services expect))"

definition expectation_summary :: "expectation \<Rightarrow> string" where
  "expectation_summary expect =
     (let parts = (if ex_carrier expect \<noteq> [] then [''links '' @ py_join '', '' (ex_carrier expect)] else [])
        @ (if ex_addresses expect \<noteq> [] then [''addresses '' @ py_join '', '' (map (\<lambda>(d, a). d @ '' '' @ a) (sort (ex_addresses expect)))] else [])
        @ (if ex_xdp expect \<noteq> [] then [''XDP on '' @ py_join '', '' (ex_xdp expect)] else [])
        @ (if ex_wireguard expect then [WIREGUARD_IFACE] else [])
        @ (if ex_services expect \<noteq> [] then [''services '' @ py_join '', '' (ex_services expect)] else [])
      in if py_join ''; '' parts = [] then ''nothing recorded'' else py_join ''; '' parts)"

subsection \<open>The check\<close>

record router_now =
  firewall_loaded :: bool
  applied_now :: "config option"
  missing_now :: "string list"
  network_read :: network
  services_read :: "string \<Rightarrow> bool"
  webui_answers :: bool
  persistence_active :: bool

definition health_problems :: "(string \<Rightarrow> string) \<Rightarrow> expectation option \<Rightarrow> router_now \<Rightarrow> string list" where
  "health_problems as_interface recorded r =
     (let expect = (case recorded of Some e \<Rightarrow> Some e | None \<Rightarrow> map_option (config_expectations as_interface) (applied_now r)) in
      (if firewall_loaded r then [] else [''the firewall's ruleset is not loaded''])
      @ (if applied_now r \<noteq> None \<and> missing_now r \<noteq> []
         then [''network devices of the applied config are missing: '' @ py_join '', '' (missing_now r)] else [])
      @ (case expect of None \<Rightarrow> [] | Some e \<Rightarrow> expectation_problems e (network_read r) (services_read r))
      @ (if webui_answers r then [] else [''the webUI does not answer''])
      @ (if persistence_active r then [] else [''persistence is not active'']))"

text \<open>\<open>wait_healthy\<close>: \<open>check n\<close> is what the \<open>n\<close>-th check finds, \<open>clock n\<close> the reading after it, \<open>start\<close> the first reading.\<close>

definition HEALTH_TIMEOUT :: seconds where "HEALTH_TIMEOUT = 180"

partial_function (option) wait_from :: "(nat \<Rightarrow> string list) \<Rightarrow> (nat \<Rightarrow> seconds) \<Rightarrow> seconds \<Rightarrow> nat \<Rightarrow> string list option" where
  "wait_from check clock deadline n =
     (if check n = [] \<or> clock n \<ge> deadline then Some (check n) else wait_from check clock deadline (Suc n))"

definition wait_healthy :: "(nat \<Rightarrow> string list) \<Rightarrow> (nat \<Rightarrow> seconds) \<Rightarrow> seconds \<Rightarrow> seconds \<Rightarrow> string list option" where
  "wait_healthy check clock start timeout = wait_from check clock (start + timeout) 0"

subsection \<open>The wait ends\<close>

lemma wait_from_least:
  assumes "check n = [] \<or> clock n \<ge> deadline" and "m \<le> n" and "\<And>i. m \<le> i \<Longrightarrow> i < n \<Longrightarrow> check i \<noteq> [] \<and> clock i < deadline"
  shows "wait_from check clock deadline m = Some (check n)"
  using assms(2,3)
proof (induction rule: inc_induct)
  case base
  then show ?case using assms(1) by (simp add: wait_from.simps)
next
  case (step k)
  then have "check k \<noteq> [] \<and> clock k < deadline" "wait_from check clock deadline (Suc k) = Some (check n)" by auto
  then show ?case by (subst wait_from.simps) simp
qed

text \<open>
  C15: the wait for a healthy boot always ends: the pauses between the checks put the clock past the deadline
  after at most \<open>timeout / interval\<close> rounds.  It answers with no problem exactly when a check found none
  before a reading past the deadline; otherwise with the problems of the check at the deadline.
\<close>

theorem wait_healthy_ends:
  assumes "0 < interval" and "0 \<le> timeout" and "start \<le> clock 0" and "\<And>n. clock n + interval \<le> clock (Suc n)"
  shows "\<exists>n. wait_healthy check clock start timeout = Some (check n) \<and> n \<le> nat \<lceil>timeout / interval\<rceil>
    \<and> (check n = [] \<or> clock n \<ge> start + timeout) \<and> (\<forall>i<n. check i \<noteq> [] \<and> clock i < start + timeout)"
proof -
  let ?stop = "\<lambda>n. check n = [] \<or> clock n \<ge> start + timeout" and ?last = "nat \<lceil>timeout / interval\<rceil>"
  have "start + of_nat n * interval \<le> clock n" for n
  proof (induction n)
    case (Suc n)
    with assms(4) [of n] show ?case by (simp add: algebra_simps)
  qed (use assms(3) in simp)
  from this [of ?last] have "start + timeout \<le> clock ?last"
  proof -
    have "timeout / interval \<le> of_nat ?last" using assms(1,2) by (simp add: le_of_int_ceiling zero_le_divide_iff)
    then have "timeout \<le> of_nat ?last * interval" using assms(1) by (simp add: pos_divide_le_eq)
    with \<open>start + of_nat ?last * interval \<le> clock ?last\<close> show ?thesis by simp
  qed
  then have stop: "?stop ?last" by simp
  define n where "n = (LEAST n. ?stop n)"
  have n: "?stop n" "n \<le> ?last" using LeastI [of ?stop ?last] Least_le [of ?stop ?last] stop by (auto simp: n_def)
  have before: "i < n \<Longrightarrow> check i \<noteq> [] \<and> clock i < start + timeout" for i using not_less_Least [of i ?stop] by (auto simp: n_def not_le)
  from wait_from_least [where m = 0 and n = n and check = check and clock = clock and deadline = "start + timeout"] n(1) before have "wait_healthy check clock start timeout = Some (check n)" by (simp add: wait_healthy_def)
  with n before show ?thesis by blast
qed

theorem wait_healthy_ends_witness:
  "\<exists>n. wait_healthy (\<lambda>n. if n < 5 then [''x''] else []) (\<lambda>n. of_nat n * 2) 0 HEALTH_TIMEOUT = Some (if n < 5 then [''x''] else []) \<and> n \<le> (90::nat)"
proof -
  have "nat \<lceil>180 / 2 :: rat\<rceil> = 90" by simp
  moreover obtain n where "wait_healthy (\<lambda>n. if n < 5 then [''x''] else []) (\<lambda>n. of_nat n * 2) 0 HEALTH_TIMEOUT = Some (if n < 5 then [''x''] else [])"
      "n \<le> nat \<lceil>HEALTH_TIMEOUT / 2\<rceil>"
    using wait_healthy_ends [of 2 HEALTH_TIMEOUT 0 "\<lambda>n. of_nat n * 2" "\<lambda>n. if n < 5 then [''x''] else []"] by (auto simp: HEALTH_TIMEOUT_def)
  ultimately show ?thesis by (intro exI [of _ n]) (simp add: HEALTH_TIMEOUT_def)
qed

subsection \<open>What is recorded holds\<close>

lemma expectation_problems_none:
  "expectation_problems expect now active = [] \<longleftrightarrow>
     list_all (\<lambda>d. dv_carrier (dict_get_or now d no_device)) (ex_carrier expect)
     \<and> list_all (\<lambda>(d, a). a \<in> set (dv_addresses (dict_get_or now d no_device)) \<and> dv_up (dict_get_or now d no_device)) (ex_addresses expect)
     \<and> list_all (\<lambda>d. dv_xdp (dict_get_or now d no_device)) (ex_xdp expect)
     \<and> (ex_wireguard expect \<longrightarrow> dv_up (dict_get_or now WIREGUARD_IFACE no_device))
     \<and> list_all active (ex_services expect)"
  by (auto simp: expectation_problems_def filter_empty_conv list_all_iff)

lemma recorded_expectations_hold:
  assumes "list_all (\<lambda>(d, a). dv_up (dict_get_or now d no_device)) (ex_addresses (expectations as_interface cfg now active))"
  shows "expectation_problems (expectations as_interface cfg now active) now active = []"
  using assms unfolding expectation_problems_none
  by (auto simp: expectations_def list_all_iff split: prod.splits)

text \<open>An address of a device that is down is recorded all the same, and is then a problem at once.\<close>

lemma recorded_but_down:
  assumes "(d, a) \<in> set (ex_addresses (expectations as_interface cfg now active))" and "\<not> dv_up (dict_get_or now d no_device)"
  shows "expectation_problems (expectations as_interface cfg now active) now active \<noteq> []"
  using assms unfolding expectation_problems_none by (fastforce simp: list_all_iff)

end
