(* ===== verification/Update.thy ===== *)
theory Update
  imports Py_Text Validate "HOL-Library.Sublist"
begin

text \<open>
  Releases: their verification (\<open>src/src/frfw/release_signing.py\<close>), download, extraction, installation and
  roll-back (\<open>src/src/frfw/update.py\<close>).

  Parameters (\<open>update_env\<close>): openssl, SHA-256, the reader of tar archives, downloads, the lock file of a release,
  the keys an archive ships (\<open>frfw/release_keys\<close>), and the commands an installation runs.  The state is
  what is installed, from which archive and with which trusted keys, the
  version of the running process (Python reads \<open>__version__\<close> once, when it starts), the state file and the
  cache of releases.  \<open>None\<close> of openssl is a missing binary; a message of a command is its failure.

  Whatever is installed was signed by a trusted key under its own version's name; an update goes
  forward, and a roll-back returns to the version that was running when the update began.
\<close>

subsection \<open>Signed checksums (release_signing.py)\<close>

definition SUMS_NAME :: string where "SUMS_NAME = ''SHA256SUMS''"
definition SIGNATURE_NAME :: string where "SIGNATURE_NAME = ''SHA256SUMS.sig''"

definition source_tarball_name :: "string \<Rightarrow> string" where
  "source_tarball_name version = ''frfw-'' @ dropWhile (\<lambda>c. c = CHR ''v'') version @ ''.tar.gz''"

record release_files =
  rel_tarball :: string
  rel_sums :: string
  rel_signature :: string

datatype member_kind = RegularFile | Directory | OtherMember

record tar_member =
  member_name :: string
  member_kind :: member_kind

record update_env =
  openssl_verify :: "string \<Rightarrow> string \<Rightarrow> string \<Rightarrow> bool option"
  keys_shipped :: "string \<Rightarrow> string list"
  sha256_of :: "string \<Rightarrow> string"
  tar_members :: "string \<Rightarrow> tar_member list option"
  download :: "string \<Rightarrow> string option"
  has_lock :: "string \<Rightarrow> bool"
  run_command :: "string list \<Rightarrow> string option"
  place_files :: "string \<Rightarrow> string option"

datatype update_error = UpdateError string

type_synonym 'a update_result = "(update_error, 'a) result"

definition upd_refuse :: "bool \<Rightarrow> string \<Rightarrow> unit update_result" where
  "upd_refuse bad what = (if bad then Inl (UpdateError what) else Inr ())"

lemma upd_refuse_iff [simp]: "upd_refuse bad what = Inr x \<longleftrightarrow> \<not> bad"
  by (simp add: upd_refuse_def)

fun first_signer :: "update_env \<Rightarrow> string \<Rightarrow> string \<Rightarrow> string list \<Rightarrow> string update_result" where
  "first_signer env data sig [] = Inl (UpdateError ''the signature matches none of the trusted keys'')"
| "first_signer env data sig (key # keys) =
     (case openssl_verify env key data sig of
        None \<Rightarrow> Inl (UpdateError ''openssl not found; can't verify the release signature'')
      | Some True \<Rightarrow> Inr key
      | Some False \<Rightarrow> first_signer env data sig keys)"

definition verify_signature :: "update_env \<Rightarrow> string list \<Rightarrow> string \<Rightarrow> string \<Rightarrow> string update_result" where
  "verify_signature env keys data sig =
     bind_result (upd_refuse (keys = []) ''this build trusts no release signing key'') (\<lambda>_. first_signer env data sig keys)"

definition lstrip_chars :: "char set \<Rightarrow> string \<Rightarrow> string" where
  "lstrip_chars cs s = dropWhile (\<lambda>c. c \<in> cs) s"

fun expected_sha256_lines :: "string list \<Rightarrow> string \<Rightarrow> string update_result" where
  "expected_sha256_lines [] name = Inl (UpdateError (SUMS_NAME @ '' lists no checksum for '' @ name))"
| "expected_sha256_lines (line # ls) name =
     (if strip line = [] \<or> starts_with (dropWhile is_space line) ''#'' then expected_sha256_lines ls name
      else let (digest, listed) = partition_at CHR '' '' (strip line) in
        if lstrip_chars {CHR '' '', CHR ''*''} listed = name then Inr (lower digest) else expected_sha256_lines ls name)"

definition expected_sha256 :: "string \<Rightarrow> string \<Rightarrow> string update_result" where
  "expected_sha256 sums_text name = expected_sha256_lines (splitlines sums_text) name"

definition verify_release :: "update_env \<Rightarrow> string list \<Rightarrow> release_files \<Rightarrow> string \<Rightarrow> string update_result" where
  "verify_release env keys files name =
     bind_result (verify_signature env keys (rel_sums files) (rel_signature files)) (\<lambda>key.
     bind_result (expected_sha256 (rel_sums files) name) (\<lambda>want.
     bind_result (upd_refuse (sha256_of env (rel_tarball files) \<noteq> want) (name @ '': the sha256 does not match the signed '' @ SUMS_NAME)) (\<lambda>_.
     Inr key)))"

subsection \<open>Versions (update.py)\<close>

text \<open>\<open>v?(\d+)\.(\d+)\.(\d+)\<close>, and nothing else.\<close>

definition version_number :: "string \<Rightarrow> nat option" where
  "version_number s = (if s \<noteq> [] \<and> list_all is_digit s then Some (read_digits 0 s) else None)"

definition parse_release_version :: "string \<Rightarrow> (nat \<times> nat \<times> nat) update_result" where
  "parse_release_version s =
     (let t = (if starts_with s ''v'' then drop 1 s else s) in
      case map version_number (split_on CHR ''.'' t) of
        [Some a, Some b, Some c] \<Rightarrow> Inr (a, b, c)
      | _ \<Rightarrow> Inl (UpdateError (''not a recognized vMAJOR.MINOR.PATCH version: '' @ py_repr s)))"

text \<open>Tuples compare part by part, from the first.\<close>

definition version_less :: "nat \<times> nat \<times> nat \<Rightarrow> nat \<times> nat \<times> nat \<Rightarrow> bool" where
  "version_less v w =
     (case (v, w) of ((a, b, c), (a', b', c')) \<Rightarrow> a < a' \<or> a = a' \<and> (b < b' \<or> b = b' \<and> c < c'))"

subsection \<open>Extraction\<close>

text \<open>\<open>Path.resolve\<close> where nothing is a link: the parts of a path, from the root.\<close>

fun resolve_parts :: "string list \<Rightarrow> string list \<Rightarrow> string list" where
  "resolve_parts base [] = base"
| "resolve_parts base (p # ps) =
     (if p = [] \<or> p = ''.'' then resolve_parts base ps
      else if p = ''..'' then resolve_parts (butlast base) ps
      else resolve_parts (base @ [p]) ps)"

definition resolve_in :: "string list \<Rightarrow> string \<Rightarrow> string list" where
  "resolve_in dest name = resolve_parts (if starts_with name ''/'' then [] else dest) (split_on CHR ''/'' name)"

definition top_directories :: "string list \<Rightarrow> (string list \<times> member_kind) list \<Rightarrow> string list" where
  "top_directories dest ts =
     remdups (map (\<lambda>(t, _). t ! length dest) (filter (\<lambda>(t, k). length t > length dest + 1 \<or> length t = length dest + 1 \<and> k = Directory) ts))"

definition safe_extract :: "string list \<Rightarrow> tar_member list \<Rightarrow> string list list update_result" where
  "safe_extract dest ms =
     (let members = filter (\<lambda>m. member_kind m \<noteq> OtherMember) ms;
          targets = map (\<lambda>m. (resolve_in dest (member_name m), member_kind m)) members in
      bind_result (upd_refuse (\<not> list_all (\<lambda>(t, _). prefix dest t) targets) ''refusing to extract a member: escapes the directory'') (\<lambda>_.
      bind_result (upd_refuse (length (top_directories dest targets) \<noteq> 1) ''unexpected release archive layout'') (\<lambda>_.
      Inr (map fst targets))))"

subsection \<open>The state file\<close>

record last_update =
  lu_action :: string
  lu_version :: string
  lu_status :: string
  lu_message :: string

record update_state =
  up_current :: string
  up_previous :: "string option"
  up_last :: "last_update option"

record update_sys =
  installed :: string
  installed_from :: "release_files option"
  trusted_keys :: "string list"
  running :: string
  update_file :: "update_state option"
  release_cache :: "(string, release_files) dict"

definition load_update_state :: "string \<Rightarrow> update_state option \<Rightarrow> update_state" where
  "load_update_state current f =
     (case f of None \<Rightarrow> \<lparr>up_current = current, up_previous = None, up_last = None\<rparr>
      | Some u \<Rightarrow> u\<lparr>up_current := current\<rparr>)"

definition save_update_state :: "update_state \<Rightarrow> update_sys \<Rightarrow> update_sys" where
  "save_update_state u sys = sys\<lparr>update_file := Some u\<rparr>"

subsection \<open>Fetching a release\<close>

definition checked_repo :: "string \<Rightarrow> string update_result" where
  "checked_repo repo = (case github_repo (VStr repo) of Inl _ \<Rightarrow> Inl (UpdateError ''repository'') | Inr r \<Rightarrow> Inr r)"

definition fetch_file :: "update_env \<Rightarrow> string \<Rightarrow> string update_result" where
  "fetch_file env url = (case download env url of None \<Rightarrow> Inl (UpdateError (''could not download '' @ url)) | Some c \<Rightarrow> Inr c)"

definition download_release_assets :: "update_env \<Rightarrow> string \<Rightarrow> string \<Rightarrow> string \<Rightarrow> release_files update_result" where
  "download_release_assets env repo tag version =
     bind_result (checked_repo repo) (\<lambda>r.
     let base = ''https://github.com/'' @ r @ ''/releases/download/'' @ tag in
     bind_result (fetch_file env (base @ ''/'' @ source_tarball_name version)) (\<lambda>t.
     bind_result (fetch_file env (base @ ''/'' @ SUMS_NAME)) (\<lambda>s.
     bind_result (fetch_file env (base @ ''/'' @ SIGNATURE_NAME)) (\<lambda>g.
     Inr \<lparr>rel_tarball = t, rel_sums = s, rel_signature = g\<rparr>))))"

definition fetch_release :: "update_env \<Rightarrow> string list \<Rightarrow> string \<Rightarrow> string \<Rightarrow> update_sys \<Rightarrow> (release_files \<times> update_sys) update_result" where
  "fetch_release env dest repo version sys =
     (let tag = (if starts_with version ''v'' then version else CHR ''v'' # version) in
      bind_result (case map_of (release_cache sys) version of Some files \<Rightarrow> Inr files | None \<Rightarrow> download_release_assets env repo tag version) (\<lambda>files.
      bind_result (verify_release env (trusted_keys sys) files (source_tarball_name version)) (\<lambda>_.
      bind_result (case tar_members env (rel_tarball files) of None \<Rightarrow> Inl (UpdateError ''not a tar archive'') | Some ms \<Rightarrow> safe_extract dest ms) (\<lambda>_.
      Inr (files, sys\<lparr>release_cache := AList.update version files (release_cache sys)\<rparr>)))))"

subsection \<open>Installing it\<close>

definition SERVICES_TO_RESTART :: "string list" where
  "SERVICES_TO_RESTART = [''fr-accounts.service'', ''fr-apply-helper.service'', ''fr-firewall.service'', ''fr-ai-ids.service'', ''fr-appid.service'', ''fr-tls-fp.service'']"

definition UNIT_FILES_NOT_RESTARTED :: "string list" where "UNIT_FILES_NOT_RESTARTED = [''fr-first-boot.service'']"

definition pip :: "string list" where "pip = [''pip3'', ''install'', ''--break-system-packages'', ''--no-cache-dir'']"

definition restart_commands :: "string list list" where
  "restart_commands = map (\<lambda>u. [''systemctl'', ''try-restart'', ''--'', u]) (filter (\<lambda>u. u \<notin> set UNIT_FILES_NOT_RESTARTED) SERVICES_TO_RESTART)
     @ [[''systemd-run'', ''--quiet'', ''--on-active=3'', ''--unit=fr-webui-restart'', ''systemctl'', ''try-restart'', ''--'', ''fr-webui.service'']]"

fun run_commands :: "update_env \<Rightarrow> string list list \<Rightarrow> unit update_result" where
  "run_commands env [] = Inr ()"
| "run_commands env (c # cs) =
     (case run_command env c of Some e \<Rightarrow> Inl (UpdateError (''`'' @ py_join '' '' c @ ''` failed: '' @ e)) | None \<Rightarrow> run_commands env cs)"

text \<open>
  \<open>_install_and_activate\<close>: what changes the system, after \<open>before\<close> has run on it.  The new code is in place
  once the second pip command has succeeded; the release's own \<open>__version__\<close> is its version without the \<open>v\<close>.
  \<open>place_files\<close> stands for \<open>_install_xdp_object\<close> and \<open>_stage_systemd_units\<close>, which copy files of the release.
\<close>

definition install_and_activate :: "update_env \<Rightarrow> string list \<Rightarrow> string \<Rightarrow> string \<Rightarrow> (update_sys \<Rightarrow> update_sys) \<Rightarrow> update_sys \<Rightarrow> unit update_result \<times> bool \<times> update_sys" where
  "install_and_activate env dest repo version before sys =
     (case fetch_release env dest repo version sys of
        Inl e \<Rightarrow> (Inl e, False, sys)
      | Inr (files, sys1) \<Rightarrow>
         (let sys2 = before sys1; dir = py_join ''/'' (dest @ [version]) in
          if \<not> has_lock env (rel_tarball files) then (Inl (UpdateError ''the release has no requirements.lock: refusing to install unpinned dependencies''), True, sys2)
          else
            case run_commands env [pip @ [''--require-hashes'', ''--only-binary=:all:'', ''-r'', dir @ ''/requirements.lock''],
                pip @ [''--no-deps'', ''--no-build-isolation'', ''--'', dir]] of
              Inl e \<Rightarrow> (Inl e, True, sys2)
            | Inr _ \<Rightarrow>
                (case place_files env (rel_tarball files) of
                   Some e \<Rightarrow> Inl (UpdateError e) | None \<Rightarrow> run_commands env ([''systemctl'', ''daemon-reload''] # restart_commands), True,
                 sys2\<lparr>installed := dropWhile (\<lambda>c. c = CHR ''v'') version, installed_from := Some files,
                     trusted_keys := keys_shipped env (rel_tarball files)\<rparr>)))"

definition record_update :: "string \<Rightarrow> string \<Rightarrow> string \<Rightarrow> string \<Rightarrow> update_state \<Rightarrow> update_state" where
  "record_update act version status message u = u\<lparr>up_last := Some \<lparr>lu_action = act, lu_version = version, lu_status = status, lu_message = message\<rparr>\<rparr>"

definition error_text :: "update_error \<Rightarrow> string" where
  "error_text e = (case e of UpdateError m \<Rightarrow> m)"

definition apply_update :: "update_env \<Rightarrow> string list \<Rightarrow> string \<Rightarrow> string \<Rightarrow> update_sys \<Rightarrow> string update_result \<times> update_sys" where
  "apply_update env dest repo target sys =
     (let current = running sys in
      case bind_result (parse_release_version target) (\<lambda>t. bind_result (parse_release_version current) (\<lambda>c.
          bind_result (upd_refuse (t = c) (''already running version '' @ target)) (\<lambda>_.
          upd_refuse (version_less t c) (''refusing to install '' @ target @ '': it is older than the installed '' @ current)))) of
        Inl e \<Rightarrow> (Inl e, sys)
      | Inr _ \<Rightarrow>
         (let u = load_update_state current (update_file sys);
              started = record_update ''apply'' target ''in_progress'' [] (u\<lparr>up_previous := Some current\<rparr>)
          in case install_and_activate env dest repo target (save_update_state started) sys of
               (Inl e, changed, sys1) \<Rightarrow>
                 (let hint = (if changed then '' -- the system may be partly updated; roll back to '' @ current else []);
                      m = error_text e @ hint
                  in (Inl (UpdateError (''update to '' @ target @ '' failed: '' @ m)),
                      save_update_state (record_update ''apply'' target ''failed'' m (if changed then started else u)) sys1))
             | (Inr _, _, sys1) \<Rightarrow>
                 (Inr target, save_update_state (record_update ''apply'' target ''success'' [] (started\<lparr>up_current := target\<rparr>)) sys1)))"

definition rollback_update :: "update_env \<Rightarrow> string list \<Rightarrow> string \<Rightarrow> update_sys \<Rightarrow> string update_result \<times> update_sys" where
  "rollback_update env dest repo sys =
     (let u = load_update_state (running sys) (update_file sys) in
      case up_previous u of
        None \<Rightarrow> (Inl (UpdateError ''no previous version recorded to roll back to''), sys)
      | Some target \<Rightarrow>
          if target = [] then (Inl (UpdateError ''no previous version recorded to roll back to''), sys)
          else
            case parse_release_version target of
              Inl e \<Rightarrow> (Inl e, sys)
            | Inr _ \<Rightarrow>
               (case install_and_activate env dest repo target (\<lambda>s. s) sys of
                  (Inl e, _, sys1) \<Rightarrow>
                    (Inl (UpdateError (''rollback to '' @ target @ '' failed: '' @ error_text e)),
                     save_update_state (record_update ''rollback'' target ''failed'' (error_text e) u) sys1)
                | (Inr _, _, sys1) \<Rightarrow>
                    (Inr target, save_update_state (record_update ''rollback'' target ''success'' [] (u\<lparr>up_current := target, up_previous := None\<rparr>)) sys1)))"

subsection \<open>Only signed releases are installed\<close>

definition signed_release :: "update_env \<Rightarrow> string list \<Rightarrow> string \<Rightarrow> release_files \<Rightarrow> bool" where
  "signed_release env keys version files \<longleftrightarrow>
     (\<exists>key\<in>set keys. openssl_verify env key (rel_sums files) (rel_signature files) = Some True)
     \<and> expected_sha256 (rel_sums files) (source_tarball_name version) = Inr (sha256_of env (rel_tarball files))
     \<and> (\<exists>ms. tar_members env (rel_tarball files) = Some ms)"

lemma first_signer_trusted: "first_signer env data sig keys = Inr key \<Longrightarrow> key \<in> set keys \<and> openssl_verify env key data sig = Some True"
  by (induction keys) (auto split: option.splits bool.splits)

lemma verify_release_signed:
  assumes "verify_release env keys files name = Inr key"
  shows "key \<in> set keys" "openssl_verify env key (rel_sums files) (rel_signature files) = Some True"
    "expected_sha256 (rel_sums files) name = Inr (sha256_of env (rel_tarball files))"
  using assms first_signer_trusted by (auto simp: verify_release_def verify_signature_def)

lemma resolve_prefix_of_safe:
  assumes "safe_extract dest ms = Inr ts" and "t \<in> set ts"
  shows "prefix dest t"
  using assms by (auto simp: safe_extract_def Let_def list_all_iff)

lemma fetch_release_signed:
  assumes "fetch_release env dest repo version sys = Inr (files, sys1)"
  shows "signed_release env (trusted_keys sys) version files" "\<exists>ms ts. tar_members env (rel_tarball files) = Some ms \<and> safe_extract dest ms = Inr ts"
    "sys1 = sys\<lparr>release_cache := AList.update version files (release_cache sys)\<rparr>"
proof -
  from assms obtain key ts where k: "verify_release env (trusted_keys sys) files (source_tarball_name version) = Inr key"
    and t: "(case tar_members env (rel_tarball files) of None \<Rightarrow> Inl (UpdateError ''not a tar archive'') | Some ms \<Rightarrow> safe_extract dest ms) = Inr ts"
    and s: "sys1 = sys\<lparr>release_cache := AList.update version files (release_cache sys)\<rparr>"
    unfolding fetch_release_def Let_def bind_result_Inr_iff by auto
  from t obtain ms where ms: "tar_members env (rel_tarball files) = Some ms" "safe_extract dest ms = Inr ts" by (auto split: option.splits)
  with verify_release_signed [OF k] show "signed_release env (trusted_keys sys) version files" unfolding signed_release_def by blast
  show "\<exists>ms ts. tar_members env (rel_tarball files) = Some ms \<and> safe_extract dest ms = Inr ts" using ms by blast
  show "sys1 = sys\<lparr>release_cache := AList.update version files (release_cache sys)\<rparr>" by (rule s)
qed

text \<open>An installation changes nothing, or only what \<open>before\<close> changes, or it puts a signed release in place.\<close>

lemma install_cases:
  assumes "install_and_activate env dest repo version before sys = (r, changed, sys1)"
  obtains (fetch) e where "r = Inl e" "\<not> changed" "sys1 = sys"
  | (early) e files where "r = Inl e" "changed" "sys1 = before (sys\<lparr>release_cache := AList.update version files (release_cache sys)\<rparr>)"
  | (done_) files where "changed" "signed_release env (trusted_keys sys) version files"
      "sys1 = (before (sys\<lparr>release_cache := AList.update version files (release_cache sys)\<rparr>))
         \<lparr>installed := dropWhile (\<lambda>c. c = CHR ''v'') version, installed_from := Some files,
            trusted_keys := keys_shipped env (rel_tarball files)\<rparr>"
proof (cases "fetch_release env dest repo version sys")
  case (Inl e)
  with assms show thesis by (intro fetch [of e]) (auto simp: install_and_activate_def)
next
  case (Inr fs)
  obtain files sys' where fs: "fs = (files, sys')" by fastforce
  note f = fetch_release_signed [OF Inr [unfolded fs]]
  let ?dir = "py_join ''/'' (dest @ [version])"
  let ?cs = "[pip @ [''--require-hashes'', ''--only-binary=:all:'', ''-r'', ?dir @ ''/requirements.lock''], pip @ [''--no-deps'', ''--no-build-isolation'', ''--'', ?dir]]"
  show thesis
  proof (cases "has_lock env (rel_tarball files) \<and> run_commands env ?cs = Inr ()")
    case True
    with assms Inr fs f show thesis by (intro done_ [of files]) (auto simp: install_and_activate_def Let_def simp del: run_commands.simps)
  next
    case False
    then consider "\<not> has_lock env (rel_tarball files)" | e where "has_lock env (rel_tarball files)" "run_commands env ?cs = Inl e"
      by (cases "run_commands env ?cs") auto
    then show thesis
    proof cases
      case 1
      with assms Inr fs f(3) show thesis by (intro early [of _ files]) (auto simp: install_and_activate_def Let_def)
    next
      case 2
      with assms Inr fs f(3) show thesis by (intro early [of e files]) (auto simp: install_and_activate_def Let_def simp del: run_commands.simps)
    qed
  qed
qed

lemma save_update_simps [simp]:
  "installed (save_update_state u s) = installed s" "installed_from (save_update_state u s) = installed_from s"
  "running (save_update_state u s) = running s" "trusted_keys (save_update_state u s) = trusted_keys s" "update_file (save_update_state u s) = Some u" "release_cache (save_update_state u s) = release_cache s"
  by (simp_all add: save_update_state_def)

lemma record_update_simps [simp]: "up_previous (record_update a v st m u) = up_previous u"
  by (simp add: record_update_def)

lemma apply_update_cases:
  assumes "apply_update env dest repo target sys = (r, sys')"
  obtains (refused) e where "r = Inl e" "sys' = sys"
  | (unchanged) e where "r = Inl e" "installed sys' = installed sys" "installed_from sys' = installed_from sys" "trusted_keys sys' = trusted_keys sys" "running sys' = running sys"
      "\<exists>u. update_file sys' = Some u \<and> up_previous u = up_previous (load_update_state (running sys) (update_file sys))"
  | (started) e where "r = Inl e" "installed sys' = installed sys" "installed_from sys' = installed_from sys" "trusted_keys sys' = trusted_keys sys" "running sys' = running sys"
      "\<exists>u. update_file sys' = Some u \<and> up_previous u = Some (running sys)"
  | (updated) files t c where "parse_release_version target = Inr t" "parse_release_version (running sys) = Inr c" "version_less c t"
      "signed_release env (trusted_keys sys) target files" "installed sys' = dropWhile (\<lambda>c. c = CHR ''v'') target" "installed_from sys' = Some files" "running sys' = running sys"
      "trusted_keys sys' = keys_shipped env (rel_tarball files)" "\<exists>u. update_file sys' = Some u \<and> up_previous u = Some (running sys)"
proof (cases "bind_result (parse_release_version target) (\<lambda>t. bind_result (parse_release_version (running sys)) (\<lambda>c.
          bind_result (upd_refuse (t = c) (''already running version '' @ target)) (\<lambda>_.
          upd_refuse (version_less t c) (''refusing to install '' @ target @ '': it is older than the installed '' @ running sys))))")
  case (Inl e)
  with assms show thesis by (intro refused [of e]) (auto simp: apply_update_def)
next
  case (Inr x)
  then obtain t c where tc: "parse_release_version target = Inr t" "parse_release_version (running sys) = Inr c" "t \<noteq> c" "\<not> version_less t c" by auto
  then have less: "version_less c t" by (auto simp: version_less_def split: prod.splits)
  let ?u = "load_update_state (running sys) (update_file sys)"
  let ?started = "record_update ''apply'' target ''in_progress'' [] (?u\<lparr>up_previous := Some (running sys)\<rparr>)"
  obtain q changed sys1 where i: "install_and_activate env dest repo target (save_update_state ?started) sys = (q, changed, sys1)"
    by (cases "install_and_activate env dest repo target (save_update_state ?started) sys") auto
  note step = assms [unfolded apply_update_def Let_def Inr i]
  from i show thesis
  proof (cases rule: install_cases)
    case (fetch e)
    with step show thesis by (intro unchanged) (auto simp: Let_def split: prod.splits)
  next
    case (early e files)
    with step show thesis by (intro started) (auto simp: Let_def split: prod.splits)
  next
    case (done_ files)
    with step tc less show thesis by (intro updated [of t c files]) (auto simp: Let_def split: sum.splits prod.splits)
  qed
qed

lemma rollback_update_cases:
  assumes "rollback_update env dest repo sys = (r, sys')"
  obtains (refused) e where "r = Inl e" "sys' = sys"
  | (unchanged) e where "r = Inl e" "installed sys' = installed sys" "installed_from sys' = installed_from sys" "trusted_keys sys' = trusted_keys sys" "running sys' = running sys"
      "\<exists>u. update_file sys' = Some u \<and> up_previous u = up_previous (load_update_state (running sys) (update_file sys))"
  | (restored) files target where "up_previous (load_update_state (running sys) (update_file sys)) = Some target" "signed_release env (trusted_keys sys) target files"
      "trusted_keys sys' = keys_shipped env (rel_tarball files)" "installed sys' = dropWhile (\<lambda>c. c = CHR ''v'') target" "installed_from sys' = Some files" "running sys' = running sys"
proof (cases "\<exists>target t. up_previous (load_update_state (running sys) (update_file sys)) = Some target \<and> target \<noteq> [] \<and> parse_release_version target = Inr t")
  case False
  with assms show thesis by (cases r) (auto simp: rollback_update_def Let_def intro: refused split: option.splits if_splits sum.splits)
next
  case True
  then obtain target t where t: "up_previous (load_update_state (running sys) (update_file sys)) = Some target" "target \<noteq> []" "parse_release_version target = Inr t" by blast
  obtain q changed sys1 where i: "install_and_activate env dest repo target (\<lambda>s. s) sys = (q, changed, sys1)"
    by (cases "install_and_activate env dest repo target (\<lambda>s. s) sys") auto
  note step = assms [unfolded rollback_update_def Let_def t option.case i]
  from i show thesis
  proof (cases rule: install_cases)
    case (fetch e)
    with step t show thesis by (intro unchanged) (auto split: if_splits)
  next
    case (early e files)
    with step t show thesis by (intro unchanged) (auto split: if_splits)
  next
    case (done_ files)
    with step t show thesis by (intro restored [of target files]) (auto split: if_splits sum.splits)
  qed
qed

datatype update_op = Apply string | Rollback | Restart

text \<open>One operation under the downloads and command results it meets; \<open>Restart\<close> is a new process.\<close>

fun update_step :: "update_env \<Rightarrow> string list \<Rightarrow> string \<Rightarrow> (string \<Rightarrow> string option) \<times> (string list \<Rightarrow> string option) \<times> update_op \<Rightarrow> update_sys \<Rightarrow> update_sys" where
  "update_step env dest repo (dl, rc, Apply v) sys = snd (apply_update (env\<lparr>download := dl, run_command := rc\<rparr>) dest repo v sys)"
| "update_step env dest repo (dl, rc, Rollback) sys = snd (rollback_update (env\<lparr>download := dl, run_command := rc\<rparr>) dest repo sys)"
| "update_step env dest repo (dl, rc, Restart) sys = sys\<lparr>running := installed sys\<rparr>"

lemma signed_release_env: "signed_release (env\<lparr>download := dl, run_command := rc\<rparr>) ks v f = signed_release env ks v f"
  by (simp add: signed_release_def)

text \<open>What one operation does to the installed code: nothing, or it puts a release in place that the keys installed until then have signed.\<close>

lemma update_step_signed:
  "installed (update_step env dest repo p s) = installed s \<and> installed_from (update_step env dest repo p s) = installed_from s \<and>
     trusted_keys (update_step env dest repo p s) = trusted_keys s
   \<or> (\<exists>v files. installed (update_step env dest repo p s) = dropWhile (\<lambda>c. c = CHR ''v'') v \<and>
       installed_from (update_step env dest repo p s) = Some files \<and> signed_release env (trusted_keys s) v files \<and>
       trusted_keys (update_step env dest repo p s) = keys_shipped env (rel_tarball files))"
proof -
  obtain dl rc op where p: "p = (dl, rc, op)" by (cases p) auto
  show ?thesis
  proof (cases op)
    case (Apply v)
    obtain r s' where a: "apply_update (env\<lparr>download := dl, run_command := rc\<rparr>) dest repo v s = (r, s')" by fastforce
    then show ?thesis by (cases rule: apply_update_cases) (use p Apply a in \<open>auto simp: signed_release_env\<close>)
  next
    case Rollback
    obtain r s' where a: "rollback_update (env\<lparr>download := dl, run_command := rc\<rparr>) dest repo s = (r, s')" by fastforce
    then show ?thesis by (cases rule: rollback_update_cases) (use p Rollback a in \<open>auto simp: signed_release_env\<close>)
  qed (use p in simp)
qed

text \<open>
  C19: whatever sequence of updates, roll-backs and restarts a router goes through, with whatever
  downloads are served, whatever commands fail and whatever its cache holds, the installed code is
  what it was, or comes from an archive whose checksum was signed, under the name of exactly the
  version that is installed, by a key the router trusted at the moment of one of the operations.  The
  trusted keys are files of the installed package, so each installation replaces them by the keys its
  archive carries; they are those of the archive the installed code comes from.  As this holds after
  every number of operations, each set of trusted keys comes from an archive that the set before it
  had signed: a chain back to the keys the router started with.
\<close>

theorem only_signed_installed:
  "let state = (\<lambda>n. fold (update_step env dest repo) (take n ops) sys); sys' = fold (update_step env dest repo) ops sys in
     installed sys' = installed sys \<and> installed_from sys' = installed_from sys \<and> trusted_keys sys' = trusted_keys sys
     \<or> (\<exists>n<length ops. \<exists>v files. installed sys' = dropWhile (\<lambda>c. c = CHR ''v'') v \<and> installed_from sys' = Some files \<and>
          signed_release env (trusted_keys (state n)) v files \<and> trusted_keys sys' = keys_shipped env (rel_tarball files))"
  unfolding Let_def
proof (induction ops rule: rev_induct)
  case (snoc p ops)
  let ?s = "fold (update_step env dest repo) ops sys"
  from update_step_signed [of env dest repo p ?s] show ?case
  proof
    assume same: "installed (update_step env dest repo p ?s) = installed ?s \<and> installed_from (update_step env dest repo p ?s) = installed_from ?s \<and>
      trusted_keys (update_step env dest repo p ?s) = trusted_keys ?s"
    from snoc.IH show ?thesis
    proof
      assume "\<exists>n<length ops. \<exists>v files. installed ?s = dropWhile (\<lambda>c. c = CHR ''v'') v \<and> installed_from ?s = Some files \<and>
          signed_release env (trusted_keys (fold (update_step env dest repo) (take n ops) sys)) v files \<and> trusted_keys ?s = keys_shipped env (rel_tarball files)"
      then obtain n v files where "n < length ops" "installed ?s = dropWhile (\<lambda>c. c = CHR ''v'') v" "installed_from ?s = Some files"
        "signed_release env (trusted_keys (fold (update_step env dest repo) (take n ops) sys)) v files" "trusted_keys ?s = keys_shipped env (rel_tarball files)"
        by blast
      with same show ?thesis by (intro disjI2 exI [of _ n] conjI exI [of _ v] exI [of _ files]) auto
    qed (use same in simp)
  next
    assume "\<exists>v files. installed (update_step env dest repo p ?s) = dropWhile (\<lambda>c. c = CHR ''v'') v \<and>
       installed_from (update_step env dest repo p ?s) = Some files \<and> signed_release env (trusted_keys ?s) v files \<and>
       trusted_keys (update_step env dest repo p ?s) = keys_shipped env (rel_tarball files)"
    then show ?thesis by (intro disjI2 exI [of _ "length ops"]) simp
  qed
qed simp

text \<open>An update by a process that runs what is installed goes forward.\<close>

lemma update_goes_forward:
  assumes "apply_update env dest repo target sys = (r, sys')" and "running sys = installed sys" and "installed sys' \<noteq> installed sys"
  shows "\<exists>t c. parse_release_version target = Inr t \<and> parse_release_version (installed sys) = Inr c \<and> version_less c t
    \<and> installed sys' = dropWhile (\<lambda>c. c = CHR ''v'') target"
  using assms(1) by (cases rule: apply_update_cases) (use assms(2,3) in auto)

text \<open>
  A roll-back, tried after whatever updates, restores nothing but the version that ran when the last
  update with changes began.
\<close>

lemma rollback_returns:
  assumes "apply_update env dest repo target sys = (Inr v, sys1)" and "rollback_update env' dest repo sys2 = (r, sys3)"
    and "update_file sys2 = update_file sys1" and "installed sys3 \<noteq> installed sys2"
  shows "installed sys3 = dropWhile (\<lambda>c. c = CHR ''v'') (running sys)"
proof -
  from assms(1) obtain u where u: "update_file sys1 = Some u" "up_previous u = Some (running sys)"
    by (cases rule: apply_update_cases) auto
  from assms(2) show ?thesis
    by (cases rule: rollback_update_cases) (use u assms(3,4) in \<open>auto simp: load_update_state_def\<close>)
qed

subsection \<open>A process that was started before the last update\<close>

text \<open>
  The helper that applies updates is not restarted by them, so it compares with the version it was
  started from: after an update to 0.3.0 it still accepts the older 0.2.5, which the code is meant to refuse.
\<close>

definition signs_all :: update_env where
  "signs_all = \<lparr>openssl_verify = (\<lambda>_ _ _. Some True), keys_shipped = (\<lambda>_. [''key'']), sha256_of = (\<lambda>_. ''00''),
     tar_members = (\<lambda>_. Some [\<lparr>member_name = ''frfw/setup.py'', member_kind = RegularFile\<rparr>]),
     download = (\<lambda>_. Some ''00 *frfw-0.3.0.tar.gz\<newline>00 *frfw-0.2.5.tar.gz''), has_lock = (\<lambda>_. True), run_command = (\<lambda>_. None), place_files = (\<lambda>_. None)\<rparr>"

definition router_021 :: update_sys where
  "router_021 = \<lparr>installed = ''0.2.1'', installed_from = None, trusted_keys = [''key''], running = ''0.2.1'', update_file = None, release_cache = []\<rparr>"

lemma stale_helper_downgrades:
  "installed (update_step signs_all [''var''] ''a/b'' (download signs_all, run_command signs_all, Apply ''0.3.0'') router_021) = ''0.3.0''"
  "installed (fold (update_step signs_all [''var''] ''a/b'')
     [(download signs_all, run_command signs_all, Apply ''0.3.0''), (download signs_all, run_command signs_all, Apply ''0.2.5'')] router_021) = ''0.2.5''"
  by code_simp+

end
