(* ===== verification/Quarantine.thy ===== *)
theory Quarantine
  imports Ruleset_Props Loader Login_Guard
begin

text \<open>
  The quarantine of hosts: what may be quarantined, the neighbour table and the sets a request adds to
  (\<open>src/src/frfw/ids_quarantine.py\<close>), and the helper's command in front of it (\<open>_handle_quarantine_ip\<close> of
  \<open>src/src/frfw/helper/server.py\<close>).

  Parameters (\<open>quarantine_env\<close>): the reader of IPv6 text (value and scope), the answers of \<open>ip -j\<close> (or the text of
  its failure) and of \<open>nft\<close> (\<open>None\<close>: it succeeded).  An entry of the table has the fields the code reads,
  \<open>None\<close> where they are missing.  The state is every element added so far: set, element and seconds.  The
  configuration is \<open>None\<close> when its file cannot be loaded.

  Whatever is asked for, only hosts enter the sets, never the router itself, a MAC only from a LAN link, for at
  most seven days; and a request that succeeds cuts the host off.
\<close>

subsection \<open>Addresses\<close>

record neigh_entry =
  nb_dst :: "string option"
  nb_dev :: "string option"
  nb_state :: "string list"
  nb_lladdr :: "string option"

record quarantine_env =
  read_ipv6 :: "string \<Rightarrow> (int \<times> string option) option"
  ip_neigh :: "string list \<Rightarrow> (string, neigh_entry list) result"
  nft_result :: "string list \<Rightarrow> string option"

text \<open>\<open>ipaddress.ip_address\<close>: IPv4 text has no colon, IPv6 text has one.\<close>

definition read_address :: "quarantine_env \<Rightarrow> string \<Rightarrow> py_address option" where
  "read_address env s =
     (if CHR '':'' \<in> set s then map_option (\<lambda>(x, scope). IPv6Address x scope) (read_ipv6 env s)
      else map_option IPv4Address (ipv4_address s))"

definition show_py_address :: "py_address \<Rightarrow> string" where
  "show_py_address a = (case a of IPv4Address x \<Rightarrow> show_ipv4 x
     | IPv6Address x scope \<Rightarrow> show_ipv6 x @ (case scope of None \<Rightarrow> [] | Some s \<Rightarrow> CHR ''%'' # s))"

definition net4 :: "int \<Rightarrow> nat \<Rightarrow> ip_network" where
  "net4 x n = \<lparr>net_family = V4, net_address = x * 2 ^ 16, net_prefixlen = n\<rparr>"

definition net6 :: "int \<Rightarrow> nat \<Rightarrow> ip_network" where
  "net6 x n = \<lparr>net_family = V6, net_address = x * 2 ^ 112, net_prefixlen = n\<rparr>"

text \<open>
  \<open>is_loopback\<close>, \<open>is_unspecified\<close>, \<open>is_multicast\<close>, \<open>is_link_local\<close> and \<open>is_reserved\<close> of \<open>ipaddress\<close>, with the broadcast
  address and the IPv4-mapped ones: the networks a host is not in.
\<close>

definition NOT_HOSTS4 :: "ip_network list" where
  "NOT_HOSTS4 = [net4 0x7f00 8, net4 0 32, net4 0xe000 4, net4 0xa9fe 16, net4 0xf000 4]"

definition NOT_HOSTS6 :: "ip_network list" where
  "NOT_HOSTS6 = [net6 0xff00 8, net6 0xfe80 10, net6 0 8, net6 0x100 8, net6 0x200 7, net6 0x400 6, net6 0x800 5, net6 0x1000 4,
     net6 0x4000 3, net6 0x6000 3, net6 0x8000 3, net6 0xa000 3, net6 0xc000 3, net6 0xe000 4, net6 0xf000 5, net6 0xf800 6, net6 0xfe00 9]"

definition host_address :: "py_address \<Rightarrow> bool" where
  "host_address a = (case a of
       IPv4Address x \<Rightarrow> \<not> list_ex (in_network V4 x) NOT_HOSTS4 \<and> x \<noteq> 2 ^ 32 - 1
     | IPv6Address x _ \<Rightarrow> \<not> list_ex (in_network V6 x) NOT_HOSTS6 \<and> x \<noteq> 1 \<and> x \<noteq> 0 \<and> ipv4_mapped x = None)"

datatype quarantine_error = IdsQuarantineError string | InvalidArgument string

definition MAX_DURATION_SECONDS :: int where "MAX_DURATION_SECONDS = 7 * 24 * 3600"

definition check_target :: "quarantine_env \<Rightarrow> string \<Rightarrow> string list \<Rightarrow> (quarantine_error, py_address) result" where
  "check_target env ip own =
     (case read_address env ip of
        None \<Rightarrow> Inl (IdsQuarantineError (''invalid address '' @ ip))
      | Some a \<Rightarrow>
          if (case a of IPv6Address _ (Some _) \<Rightarrow> True | _ \<Rightarrow> False) then Inl (IdsQuarantineError (''invalid IPv6 address '' @ ip @ '': no scope (%) allowed''))
          else if \<not> host_address a then Inl (IdsQuarantineError (''refusing to quarantine '' @ ip @ '': not a host address''))
          else if show_py_address a \<in> set own then Inl (IdsQuarantineError (''refusing to quarantine '' @ ip @ '': it is one of the router's own addresses''))
          else Inr a)"

subsection \<open>The neighbour table\<close>

definition USABLE_NEIGH_STATES :: "string list" where
  "USABLE_NEIGH_STATES = [''REACHABLE'', ''STALE'', ''DELAY'', ''PROBE'', ''PERMANENT'']"

definition entry_text :: "string option \<Rightarrow> pyval" where
  "entry_text v = (case v of None \<Rightarrow> VNone | Some s \<Rightarrow> VStr s)"

definition same_address :: "quarantine_env \<Rightarrow> string option \<Rightarrow> string \<Rightarrow> bool" where
  "same_address env dst ip =
     (case dst of None \<Rightarrow> False
      | Some d \<Rightarrow> (case (read_address env d, read_address env ip) of (Some a, Some b) \<Rightarrow> a = b | _ \<Rightarrow> False))"

definition on_device :: "string list \<Rightarrow> neigh_entry \<Rightarrow> bool" where
  "on_device lan e = (case nb_dev e of None \<Rightarrow> False | Some d \<Rightarrow> d \<in> set lan)"

definition usable_entry :: "neigh_entry \<Rightarrow> bool" where
  "usable_entry e = list_ex (\<lambda>s. s \<in> set USABLE_NEIGH_STATES) (nb_state e)"

definition family_option :: "family \<Rightarrow> string" where
  "family_option f = (case f of V4 \<Rightarrow> ''-4'' | V6 \<Rightarrow> ''-6'')"

definition neigh_read :: "quarantine_env \<Rightarrow> string list \<Rightarrow> neigh_entry list" where
  "neigh_read env args = (case ip_neigh env args of Inl _ \<Rightarrow> [] | Inr es \<Rightarrow> es)"

definition neigh_to :: "quarantine_env \<Rightarrow> family \<Rightarrow> string \<Rightarrow> neigh_entry list" where
  "neigh_to env f ip = neigh_read env [family_option f, ''neigh'', ''show'', ''to'', ip]"

definition neigh_show :: "quarantine_env \<Rightarrow> family \<Rightarrow> neigh_entry list" where
  "neigh_show env f = neigh_read env [family_option f, ''neigh'', ''show'']"

fun first_mac :: "quarantine_env \<Rightarrow> string \<Rightarrow> string list \<Rightarrow> neigh_entry list \<Rightarrow> string option" where
  "first_mac env ip lan [] = None"
| "first_mac env ip lan (e # es) =
     (if \<not> same_address env (nb_dst e) ip \<or> \<not> on_device lan e \<or> \<not> usable_entry e then first_mac env ip lan es
      else case validate_mac (entry_text (nb_lladdr e)) of Inr m \<Rightarrow> Some m | Inl _ \<Rightarrow> first_mac env ip lan es)"

text \<open>\<open>validate.ipv6\<close>: the address in its own form, without a scope.\<close>

definition validate_ipv6 :: "quarantine_env \<Rightarrow> string \<Rightarrow> (quarantine_error, string) result" where
  "validate_ipv6 env s =
     (case read_ipv6 env s of
        Some (x, scope) \<Rightarrow> if scope = None \<and> show_ipv6 x = s then Inr s else Inl (InvalidArgument ''IPv6 address'')
      | None \<Rightarrow> Inl (InvalidArgument ''IPv6 address''))"

definition lan_neighbour_mac :: "quarantine_env \<Rightarrow> string \<Rightarrow> string list \<Rightarrow> (quarantine_error, string option) result" where
  "lan_neighbour_mac env ip lan =
     (if lan = [] then Inr None
      else if CHR '':'' \<in> set ip
      then bind_result (validate_ipv6 env ip) (\<lambda>i. Inr (first_mac env i lan (neigh_to env V6 i)))
      else (case validate_ipv4 (VStr ip) of Inl _ \<Rightarrow> Inl (InvalidArgument ''IPv4 address'')
            | Inr i \<Rightarrow> Inr (first_mac env i lan (neigh_to env V4 i))))"

definition note_neighbour :: "quarantine_env \<Rightarrow> string list \<Rightarrow> neigh_entry \<Rightarrow> (string, string) dict \<Rightarrow> (string, string) dict" where
  "note_neighbour env lan e out =
     (if \<not> on_device lan e \<or> \<not> usable_entry e then out
      else case (nb_dst e, validate_mac (entry_text (nb_lladdr e))) of
          (Some d, Inr m) \<Rightarrow> (case read_address env d of None \<Rightarrow> out | Some a \<Rightarrow> AList.update (show_py_address a) m out)
        | _ \<Rightarrow> out)"

definition lan_neighbours :: "quarantine_env \<Rightarrow> string list \<Rightarrow> family \<Rightarrow> (string, string) dict" where
  "lan_neighbours env lan f = (if lan = [] then [] else fold (note_neighbour env lan) (neigh_show env f) [])"

definition lan_ipv4_addresses :: "quarantine_env \<Rightarrow> string \<Rightarrow> string list \<Rightarrow> string list" where
  "lan_ipv4_addresses env mac lan = sort (map fst (filter (\<lambda>(_, at_mac). at_mac = mac) (lan_neighbours env lan V4)))"

subsection \<open>Requests\<close>

type_synonym elements = "(string \<times> string \<times> int) list"

definition add_element :: "quarantine_env \<Rightarrow> string \<Rightarrow> string \<Rightarrow> int \<Rightarrow> elements \<Rightarrow> (quarantine_error, unit) result \<times> elements" where
  "add_element env name el seconds st =
     (case nft_result env (nft_argv [''add'', ''element'', ''inet'', FILTER_TABLE, name, ''{'', timeout_item el seconds, ''}'']) of
        Some err \<Rightarrow> (Inl (IdsQuarantineError err), st)
      | None \<Rightarrow> (Inr (), st @ [(name, el, seconds)]))"

fun add_ipv4s :: "quarantine_env \<Rightarrow> string list \<Rightarrow> int \<Rightarrow> string list \<Rightarrow> elements \<Rightarrow> (quarantine_error, unit) result \<times> elements" where
  "add_ipv4s env own seconds [] st = (Inr (), st)"
| "add_ipv4s env own seconds (ip # ips) st =
     (case check_target env ip own of
        Inl _ \<Rightarrow> add_ipv4s env own seconds ips st
      | Inr _ \<Rightarrow>
         (case add_element env IDS_QUARANTINE_SET_NAME ip seconds st of
            (Inl e, st') \<Rightarrow> (Inl e, st')
          | (Inr _, st') \<Rightarrow> add_ipv4s env own seconds ips st'))"

definition quarantine_ipv6_host :: "quarantine_env \<Rightarrow> string \<Rightarrow> int \<Rightarrow> string list \<Rightarrow> string list \<Rightarrow> elements \<Rightarrow>
    (quarantine_error, string option) result \<times> elements" where
  "quarantine_ipv6_host env ip seconds own lan st =
     (case lan_neighbour_mac env ip lan of
        Inl e \<Rightarrow> (Inl e, st)
      | Inr None \<Rightarrow> (Inl (IdsQuarantineError (''refusing to quarantine '' @ ip @ '': the router has no MAC for it on a LAN link'')), st)
      | Inr (Some mac) \<Rightarrow>
         (case add_element env IDS_QUARANTINE_MAC_SET_NAME mac seconds st of
            (Inl e, st1) \<Rightarrow> (Inl e, st1)
          | (Inr _, st1) \<Rightarrow>
             (case add_ipv4s env own seconds (lan_ipv4_addresses env mac lan) st1 of
                (Inl e, st2) \<Rightarrow> (Inl e, st2)
              | (Inr _, st2) \<Rightarrow> (Inr (Some mac), st2))))"

definition quarantine_ipv4_host :: "quarantine_env \<Rightarrow> string \<Rightarrow> string \<Rightarrow> int \<Rightarrow> string list \<Rightarrow> elements \<Rightarrow>
    (quarantine_error, string option) result \<times> elements" where
  "quarantine_ipv4_host env ip address seconds lan st =
     (case add_element env IDS_QUARANTINE_SET_NAME ip seconds st of
        (Inl e, st1) \<Rightarrow> (Inl e, st1)
      | (Inr _, st1) \<Rightarrow>
         (case lan_neighbour_mac env address lan of
            Inl e \<Rightarrow> (Inl e, st1)
          | Inr None \<Rightarrow> (Inr None, st1)
          | Inr (Some mac) \<Rightarrow>
             (case add_element env IDS_QUARANTINE_MAC_SET_NAME mac seconds st1 of
                (Inl e, st2) \<Rightarrow> (Inl e, st2)
              | (Inr _, st2) \<Rightarrow> (Inr (Some mac), st2))))"

definition quarantine_ip :: "quarantine_env \<Rightarrow> string \<Rightarrow> int \<Rightarrow> string list \<Rightarrow> string list \<Rightarrow> elements \<Rightarrow>
    (quarantine_error, string option) result \<times> elements" where
  "quarantine_ip env ip seconds own lan st =
     (case check_target env ip own of
        Inl e \<Rightarrow> (Inl e, st)
      | Inr address \<Rightarrow>
          if seconds \<le> 0 then (Inl (IdsQuarantineError ''duration_seconds must be positive''), st)
          else if seconds > MAX_DURATION_SECONDS then (Inl (IdsQuarantineError ''duration_seconds may be at most 604800 (7 days)''), st)
          else (case address of
              IPv6Address _ _ \<Rightarrow> quarantine_ipv6_host env (show_py_address address) seconds own lan st
            | IPv4Address _ \<Rightarrow> quarantine_ipv4_host env ip (show_py_address address) seconds lan st))"

subsection \<open>Reading the sets back\<close>

text \<open>
  The answer of \<open>nft -j list set\<close>: its status, its error text and its JSON (\<open>None\<close> where it is not JSON).
\<close>

record nft_answer =
  returncode :: int
  stderr :: string
  stdout_json :: "pyval option"

definition expires_of :: "pyval \<Rightarrow> int" where
  "expires_of elem = (case json_get elem ''expires'' of VInt n \<Rightarrow> n | _ \<Rightarrow> 0)"

fun infix_of :: "string \<Rightarrow> string \<Rightarrow> bool" where
  "infix_of p [] = (p = [])"
| "infix_of p (c # s) = (take (length p) (c # s) = p \<or> infix_of p s)"

definition set_element :: "pyval \<Rightarrow> (string \<times> int) option" where
  "set_element entry =
     (case json_get (json_get entry ''elem'') ''val'' of VStr ip \<Rightarrow> Some (ip, expires_of (json_get entry ''elem'')) | _ \<Rightarrow> None)"

text \<open>What both modules do with an answer: \<open>element\<close> reads one entry of the set.\<close>

definition answer_elements :: "(pyval \<Rightarrow> 'a option) \<Rightarrow> nft_answer \<Rightarrow> (string, 'a list) result" where
  "answer_elements element a =
     (if returncode a \<noteq> 0 then
        (let err = strip (stderr a) in
         if infix_of ''No such file or directory'' err \<or> infix_of ''does not exist'' err then Inr []
         else Inl (if err = [] then ''nft exited with status '' @ show_int (returncode a) else err))
      else case stdout_json a of
          None \<Rightarrow> Inl ''could not parse nft JSON output''
        | Some data \<Rightarrow> Inr (concat (map (\<lambda>obj. List.map_filter element (json_items (json_get (json_get obj ''set'') ''elem'')))
            (json_items (json_get data ''nftables'')))))"

definition list_set_elements :: "nft_answer \<Rightarrow> (quarantine_error, (string \<times> int) list) result" where
  "list_set_elements a = (case answer_elements set_element a of Inl m \<Rightarrow> Inl (IdsQuarantineError m) | Inr xs \<Rightarrow> Inr xs)"

text \<open>nft's JSON of a set with timeouts, and that it is read back whole.\<close>

definition nft_set_json :: "('a \<Rightarrow> pyval) \<Rightarrow> ('a \<times> int) list \<Rightarrow> pyval" where
  "nft_set_json val members = VDict [(VStr ''nftables'', VList [VDict [(VStr ''metainfo'', VDict [])],
     VDict [(VStr ''set'', VDict [(VStr ''family'', VStr ''inet''), (VStr ''elem'', VList (map (\<lambda>(x, left).
       VDict [(VStr ''elem'', VDict [(VStr ''val'', val x), (VStr ''timeout'', VInt 3600), (VStr ''expires'', VInt left)])]) members))])]])]"

lemma answer_elements_json:
  assumes "\<And>x left. element (VDict [(VStr ''elem'', VDict [(VStr ''val'', val x), (VStr ''timeout'', VInt 3600), (VStr ''expires'', VInt left)])]) = Some (f x left)"
  shows "answer_elements element \<lparr>returncode = 0, stderr = [], stdout_json = Some (nft_set_json val members)\<rparr> = Inr (map (\<lambda>(x, left). f x left) members)"
  using assms by (simp add: answer_elements_def nft_set_json_def json_get_def json_items_def map_filter_def comp_def split_beta)

lemma snapshot_complete:
  "list_set_elements \<lparr>returncode = 0, stderr = [], stdout_json = Some (nft_set_json VStr members)\<rparr> = Inr members"
proof -
  have "set_element (VDict [(VStr ''elem'', VDict [(VStr ''val'', VStr x), (VStr ''timeout'', VInt 3600), (VStr ''expires'', VInt left)])]) = Some (x, left)" for x left
    by (simp add: set_element_def json_get_def expires_of_def)
  from answer_elements_json [of set_element VStr "\<lambda>x left. (x, left)", OF this] show ?thesis by (simp add: list_set_elements_def)
qed

subsection \<open>The helper's command\<close>

definition own_addresses :: "config \<Rightarrow> int list" where
  "own_addresses c =
     List.map_filter (\<lambda>(_, i). case if_address i of None \<Rightarrow> None | Some a \<Rightarrow> map_option fst (ipv4_interface a)) (interfaces c)
     @ (if wg_enabled (wireguard c) then List.map_filter (\<lambda>a. map_option fst (ipv4_interface a)) [wg_address (wireguard c)] else [])"

definition router_addresses :: "config option \<Rightarrow> string list" where
  "router_addresses cfg = (case cfg of None \<Rightarrow> [] | Some c \<Rightarrow> map show_ipv4 (own_addresses c))"

definition lan_device_names :: "config option \<Rightarrow> string list" where
  "lan_device_names cfg = (case cfg of None \<Rightarrow> []
     | Some c \<Rightarrow> map (if_device \<circ> snd) (filter (\<lambda>(_, i). if_zone i \<notin> set (internet_facing_zones (zones c) (nat_cfg c))) (interfaces c)))"

datatype helper_reply = ReplyOk string | ReplyFail string

definition quarantine_reply :: "string \<Rightarrow> int \<Rightarrow> (quarantine_error, string option) result \<Rightarrow> helper_reply" where
  "quarantine_reply ip seconds r =
     (case r of
        Inl (IdsQuarantineError m) \<Rightarrow> ReplyFail m
      | Inl (InvalidArgument m) \<Rightarrow> ReplyFail (''invalid request: '' @ m)
      | Inr mac \<Rightarrow> ReplyOk (ip @ '' quarantined for '' @ show_int seconds @ ''s'' @
          (if CHR '':'' \<in> set ip then '' by its MAC '' @ (case mac of Some m \<Rightarrow> m | None \<Rightarrow> ''None'') @ '', with its IPv4 addresses on the LAN''
           else case mac of Some m \<Rightarrow> '' (and its IPv6, by MAC '' @ m @ '')'' | None \<Rightarrow> [])))"

text \<open>A request is a JSON object; the duration defaults to two hours.\<close>

definition handle_quarantine_ip :: "quarantine_env \<Rightarrow> config option \<Rightarrow> (string, pyval) dict \<Rightarrow> elements \<Rightarrow> helper_reply \<times> elements" where
  "handle_quarantine_ip env cfg request st =
     (case map_of request ''ip'' of
        Some (VStr ip) \<Rightarrow>
          if ip = [] then (ReplyFail '''ip' is required'', st)
          else (case dict_get_or request ''duration_seconds'' (VInt 7200) of
              VInt seconds \<Rightarrow>
                (case quarantine_ip env ip seconds (router_addresses cfg) (lan_device_names cfg) st of
                   (r, st') \<Rightarrow> (quarantine_reply ip seconds r, st'))
            | _ \<Rightarrow> (ReplyFail '''duration_seconds' must be an integer'', st))
      | _ \<Rightarrow> (ReplyFail '''ip' is required'', st))"

subsection \<open>What enters the sets\<close>

definition known_on_lan :: "string list \<Rightarrow> neigh_entry list \<Rightarrow> string \<Rightarrow> bool" where
  "known_on_lan lan es m \<longleftrightarrow> (\<exists>e\<in>set es. on_device lan e \<and> usable_entry e \<and> validate_mac (entry_text (nb_lladdr e)) = Inr m)"

definition quarantinable :: "quarantine_env \<Rightarrow> string list \<Rightarrow> string list \<Rightarrow> string \<times> string \<times> int \<Rightarrow> bool" where
  "quarantinable env own lan e =
     (case e of (name, el, seconds) \<Rightarrow> 0 < seconds \<and> seconds \<le> MAX_DURATION_SECONDS \<and>
       (name = IDS_QUARANTINE_SET_NAME \<and> (\<exists>a. read_address env el = Some a \<and> host_address a \<and> show_py_address a \<notin> set own)
        \<or> name = IDS_QUARANTINE_MAC_SET_NAME \<and> (\<exists>f ip. known_on_lan lan (neigh_to env f ip) el)))"

lemma first_mac_known: "first_mac env ip lan es = Some m \<Longrightarrow> known_on_lan lan es m"
  by (induction es) (auto simp: known_on_lan_def split: if_splits sum.splits)

lemma lan_neighbour_mac_known: "lan_neighbour_mac env ip lan = Inr (Some m) \<Longrightarrow> \<exists>f i. known_on_lan lan (neigh_to env f i) m"
  by (auto simp: lan_neighbour_mac_def dest!: first_mac_known split: if_splits sum.splits)

lemma check_target_host:
  "check_target env ip own = Inr a \<Longrightarrow> read_address env ip = Some a \<and> host_address a \<and> show_py_address a \<notin> set own
     \<and> (\<forall>x scope. a = IPv6Address x scope \<longrightarrow> scope = None)"
  by (auto simp: check_target_def split: option.splits if_splits py_address.splits)

lemma add_element_cases:
  assumes "add_element env name el seconds st = (r, st')"
  obtains (failed) e where "r = Inl e" "st' = st" | (added) "r = Inr ()" "st' = st @ [(name, el, seconds)]"
  using assms by (auto simp: add_element_def split: option.splits)

lemma add_ipv4s_elements:
  assumes "add_ipv4s env own seconds ips st = (r, st')" and "0 < seconds" and "seconds \<le> MAX_DURATION_SECONDS"
  shows "\<exists>new. st' = st @ new \<and> list_all (quarantinable env own lan) new"
  using assms(1)
proof (induction ips arbitrary: st)
  case (Cons ip ips)
  show ?case
  proof (cases "check_target env ip own")
    case (Inl e)
    with Cons show ?thesis by simp
  next
    case (Inr a)
    obtain q st1 where q: "add_element env IDS_QUARANTINE_SET_NAME ip seconds st = (q, st1)" by fastforce
    from q show ?thesis
    proof (cases rule: add_element_cases)
      case (failed e)
      with Cons.prems Inr q show ?thesis by simp
    next
      case added
      with Cons.prems Inr q have "add_ipv4s env own seconds ips st1 = (r, st')" by simp
      from Cons.IH [OF this] obtain new where "st' = st1 @ new" "list_all (quarantinable env own lan) new" by blast
      moreover have "quarantinable env own lan (IDS_QUARANTINE_SET_NAME, ip, seconds)"
        using assms(2,3) check_target_host [OF Inr] by (auto simp: quarantinable_def)
      ultimately show ?thesis using added by simp
    qed
  qed
qed simp

lemma mac_quarantinable:
  assumes "lan_neighbour_mac env ip lan = Inr (Some m)" and "0 < seconds" and "seconds \<le> MAX_DURATION_SECONDS"
  shows "quarantinable env own lan (IDS_QUARANTINE_MAC_SET_NAME, m, seconds)"
  using assms lan_neighbour_mac_known by (auto simp: quarantinable_def)

lemma quarantine_ipv6_elements:
  assumes "quarantine_ipv6_host env ip seconds own lan st = (r, st')" and "0 < seconds" "seconds \<le> MAX_DURATION_SECONDS"
  shows "\<exists>new. st' = st @ new \<and> list_all (quarantinable env own lan) new
    \<and> (\<forall>x. r = Inr x \<longrightarrow> (\<exists>m. lan_neighbour_mac env ip lan = Inr (Some m) \<and> (IDS_QUARANTINE_MAC_SET_NAME, m, seconds) \<in> set new))"
proof (cases "\<exists>m. lan_neighbour_mac env ip lan = Inr (Some m)")
  case True
  then obtain m where m: "lan_neighbour_mac env ip lan = Inr (Some m)" by blast
  note ok = mac_quarantinable [OF m assms(2,3)]
  obtain q st1 where q: "add_element env IDS_QUARANTINE_MAC_SET_NAME m seconds st = (q, st1)" by fastforce
  from q show ?thesis
  proof (cases rule: add_element_cases)
    case added
    obtain q2 st2 where q2: "add_ipv4s env own seconds (lan_ipv4_addresses env m lan) st1 = (q2, st2)" by fastforce
    from add_ipv4s_elements [OF q2 assms(2,3)] obtain new where "st2 = st1 @ new" "list_all (quarantinable env own lan) new" by blast
    with assms(1) m q q2 added ok show ?thesis
      by (auto simp: quarantine_ipv6_host_def intro!: exI [of _ "(IDS_QUARANTINE_MAC_SET_NAME, m, seconds) # new"] split: sum.splits)
  qed (use assms(1) m q in \<open>auto simp: quarantine_ipv6_host_def\<close>)
qed (use assms(1) in \<open>auto simp: quarantine_ipv6_host_def split: sum.splits option.splits\<close>)

lemma quarantine_ipv4_elements:
  assumes "quarantine_ipv4_host env ip address seconds lan st = (r, st')" and "0 < seconds" "seconds \<le> MAX_DURATION_SECONDS"
    and "quarantinable env own lan (IDS_QUARANTINE_SET_NAME, ip, seconds)"
  shows "\<exists>new. st' = st @ new \<and> list_all (quarantinable env own lan) new
    \<and> (\<forall>x. r = Inr x \<longrightarrow> (IDS_QUARANTINE_SET_NAME, ip, seconds) \<in> set new)"
proof -
  obtain q st1 where q: "add_element env IDS_QUARANTINE_SET_NAME ip seconds st = (q, st1)" by fastforce
  from q show ?thesis
  proof (cases rule: add_element_cases)
    case added
    show ?thesis
    proof (cases "\<exists>m. lan_neighbour_mac env address lan = Inr (Some m)")
      case True
      then obtain m where m: "lan_neighbour_mac env address lan = Inr (Some m)" by blast
      obtain q2 st2 where q2: "add_element env IDS_QUARANTINE_MAC_SET_NAME m seconds st1 = (q2, st2)" by fastforce
      from q2 show ?thesis
        by (cases rule: add_element_cases)
          (use assms added q q2 m mac_quarantinable [OF m assms(2,3)] in \<open>auto simp: quarantine_ipv4_host_def\<close>)
    qed (use assms added q in \<open>auto simp: quarantine_ipv4_host_def split: sum.splits option.splits\<close>)
  qed (use assms q in \<open>auto simp: quarantine_ipv4_host_def\<close>)
qed

lemma quarantine_ip_elements:
  assumes "quarantine_ip env ip seconds own lan st = (r, st')"
  shows "\<exists>new. st' = st @ new \<and> list_all (quarantinable env own lan) new"
proof (cases "\<exists>a. check_target env ip own = Inr a \<and> 0 < seconds \<and> seconds \<le> MAX_DURATION_SECONDS")
  case True
  then obtain a where a: "check_target env ip own = Inr a" and d: "0 < seconds" "seconds \<le> MAX_DURATION_SECONDS" by blast
  have "quarantinable env own lan (IDS_QUARANTINE_SET_NAME, ip, seconds)"
    using d check_target_host [OF a] by (auto simp: quarantinable_def)
  with assms a d show ?thesis
    using quarantine_ipv4_elements [OF _ d] quarantine_ipv6_elements [OF _ d]
    by (fastforce simp: quarantine_ip_def split: py_address.splits)
qed (use assms in \<open>auto simp: quarantine_ip_def split: sum.splits if_splits\<close>)

text \<open>
  Whatever requests the sensors send -- any address, any duration, well-formed or not -- what enters the
  quarantine sets is the address of a host that is not one of the router's own, or a MAC the neighbour table holds on a
  device of a zone that does not face the internet, for at most seven days.
\<close>

theorem quarantine_elements:
  "set (fold (\<lambda>(env, cfg, request) st. snd (handle_quarantine_ip env cfg request st)) requests st)
     \<subseteq> set st \<union> {e. \<exists>(env, cfg, request)\<in>set requests. quarantinable env (router_addresses cfg) (lan_device_names cfg) e}"
proof (rule fold_adds [where g = "\<lambda>st. st"])
  fix r :: "quarantine_env \<times> config option \<times> (string, pyval) dict" and st
  obtain env cfg request where r: "r = (env, cfg, request)" by (cases r) auto
  obtain reply st1 where h: "handle_quarantine_ip env cfg request st = (reply, st1)" by fastforce
  have "\<exists>new. st1 = st @ new \<and> list_all (quarantinable env (router_addresses cfg) (lan_device_names cfg)) new"
    using h by (auto simp: handle_quarantine_ip_def dest: quarantine_ip_elements split: option.splits pyval.splits if_splits prod.splits)
  then show "set ((case r of (env, cfg, request) \<Rightarrow> \<lambda>st. snd (handle_quarantine_ip env cfg request st)) st)
      \<subseteq> set st \<union> {e. case r of (env, cfg, request) \<Rightarrow> quarantinable env (router_addresses cfg) (lan_device_names cfg) e}"
    by (auto simp: r h list_all_iff)
qed

subsection \<open>A quarantined host is cut off\<close>

text \<open>The kernel's sets hold what was added and has not timed out.\<close>

definition sets_hold :: "quarantine_env \<Rightarrow> elements \<Rightarrow> named_sets \<Rightarrow> bool" where
  "sets_hold env st S \<longleftrightarrow> (\<forall>(name, el, _)\<in>set st.
     (\<forall>x. name = IDS_QUARANTINE_SET_NAME \<and> read_address env el = Some (IPv4Address x)
        \<longrightarrow> \<lparr>net_family = V4, net_address = x, net_prefixlen = 32\<rparr> \<in> set (addr_sets S name))
     \<and> (name = IDS_QUARANTINE_MAC_SET_NAME \<longrightarrow> el \<in> set (mac_sets S name)))"

text \<open>The packets of the host at \<open>ip\<close>: from its IPv4 address, or over IPv6 from the MAC it has on the LAN.\<close>

definition sent_by :: "quarantine_env \<Rightarrow> string list \<Rightarrow> string \<Rightarrow> packet \<Rightarrow> bool" where
  "sent_by env lan ip p =
     (case read_address env ip of
        Some (IPv4Address x) \<Rightarrow> pk_family p = V4 \<and> pk_src p = x
      | Some (IPv6Address x scope) \<Rightarrow> pk_family p = V6 \<and> lan_neighbour_mac env (show_ipv6 x) lan = Inr (Some (pk_mac p))
      | None \<Rightarrow> False)"

lemma quarantined_in_sets:
  assumes "quarantine_ip env ip seconds own lan st = (Inr r, st')" and "sets_hold env st' S" and "sent_by env lan ip p"
  shows "packet_holds S c p (AddrSet V4 Saddr IDS_QUARANTINE_SET_NAME)
    \<or> packet_holds S c p (Nfproto V6) \<and> packet_holds S c p (EtherSet IDS_QUARANTINE_MAC_SET_NAME)"
proof -
  obtain a where a: "check_target env ip own = Inr a" and d: "0 < seconds" "seconds \<le> MAX_DURATION_SECONDS"
    using assms(1) by (auto simp: quarantine_ip_def split: sum.splits if_splits)
  note host = check_target_host [OF a]
  show ?thesis
  proof (cases a)
    case (IPv4Address x)
    have "quarantinable env own lan (IDS_QUARANTINE_SET_NAME, ip, seconds)" using d host by (auto simp: quarantinable_def)
    with quarantine_ipv4_elements [OF _ d, of env ip _ lan st "Inr r" st'] assms(1) a d IPv4Address
    have "(IDS_QUARANTINE_SET_NAME, ip, seconds) \<in> set st'" by (fastforce simp: quarantine_ip_def)
    with assms(2) host IPv4Address have "\<lparr>net_family = V4, net_address = x, net_prefixlen = 32\<rparr> \<in> set (addr_sets S IDS_QUARANTINE_SET_NAME)"
      by (fastforce simp: sets_hold_def)
    with assms(3) host IPv4Address show ?thesis
      by (auto simp: sent_by_def list_ex_iff in_network_def net_broadcast_def pk_addr_def intro!: bexI)
  next
    case (IPv6Address x scope)
    with host have t: "show_py_address a = show_ipv6 x" by (simp add: show_py_address_def)
    from quarantine_ipv6_elements [OF _ d, of env "show_ipv6 x" own lan st "Inr r" st'] assms(1) a d IPv6Address t
    obtain m where m: "lan_neighbour_mac env (show_ipv6 x) lan = Inr (Some m)" "(IDS_QUARANTINE_MAC_SET_NAME, m, seconds) \<in> set st'"
      by (fastforce simp: quarantine_ip_def)
    with assms(2,3) host IPv6Address show ?thesis by (fastforce simp: sets_hold_def sent_by_def)
  qed
qed

text \<open>
  C7: a quarantine that succeeds cuts the host off.  Whatever the configuration and its rules say, while the kernel's
  sets hold what was added, nothing from its IPv4 address (or, for an IPv6 host, nothing over IPv6 from its MAC) reaches the
  router or is forwarded, connections already open included.
\<close>

theorem quarantined_cut_off:
  assumes "handle_quarantine_ip env cfg [(''ip'', VStr ip), (''duration_seconds'', VInt seconds)] st = (ReplyOk m, st')"
    and "build_ruleset current_clock running clock now runtime = Inr s"
    and "sets_hold env st' S" and "sent_by env (lan_device_names cfg) ip p"
  shows "input_decision (packet_holds S c p) s = Dropped \<and> forward_decision (packet_holds S c p) s \<noteq> Accepted"
proof -
  from assms(1) obtain r where "quarantine_ip env ip seconds (router_addresses cfg) (lan_device_names cfg) st = (Inr r, st')"
    by (auto simp: handle_quarantine_ip_def quarantine_reply_def dict_get_or_def split: if_splits prod.splits sum.splits quarantine_error.splits)
  from quarantined_in_sets [OF this assms(3,4)] show ?thesis
    using jailed_input_dropped [OF assms(2)] quarantine_forward_refused [OF assms(2)] by blast
qed

definition entry1 :: neigh_entry where
  "entry1 = \<lparr>nb_dst = Some ''2001:db8::5'', nb_dev = Some ''eth1'', nb_state = [''REACHABLE''], nb_lladdr = Some ''02:00:00:00:00:05''\<rparr>"

definition env1 :: quarantine_env where
  "env1 = \<lparr>read_ipv6 = (\<lambda>s. if s = ''2001:db8::5'' then Some (0x20010db8000000000000000000000005, None) else None),
     ip_neigh = (\<lambda>args. Inr (if args = [''-6'', ''neigh'', ''show'', ''to'', ''2001:db8::5''] then [entry1] else [])), nft_result = (\<lambda>_. None)\<rparr>"

definition sets1 :: named_sets where
  "sets1 = sets0\<lparr>mac_sets := (\<lambda>_. [''02:00:00:00:00:05''])\<rparr>"

lemma show_ipv6_1: "show_ipv6 0x20010db8000000000000000000000005 = ''2001:db8::5''"
  by (simp add: show_ipv6_def hextets_def show_ip_simps)

lemma env1_sel: "nft_result env1 = (\<lambda>_. None)" "neigh_show env1 = (\<lambda>_. [])"
  by (simp_all add: env1_def neigh_show_def neigh_read_def fun_eq_iff)

lemma no_ipv4: "lan_ipv4_addresses env1 m lan = []"
  by (simp add: lan_ipv4_addresses_def lan_neighbours_def env1_sel)

lemma mac1: "lan_neighbour_mac env1 ''2001:db8::5'' [''eth1''] = Inr (Some ''02:00:00:00:00:05'')"
  by (simp add: lan_neighbour_mac_def validate_ipv6_def env1_def neigh_to_def neigh_read_def family_option_def entry1_def show_ipv6_1 same_address_def read_address_def on_device_def
    usable_entry_def USABLE_NEIGH_STATES_def entry_text_def validate_mac_def check_text_def refuse_unless_def; code_simp)

theorem quarantined_cut_off_witness:
  "input_decision (packet_holds sets1 clock0 (packet0\<lparr>pk_family := V6, pk_mac := ''02:00:00:00:00:05''\<rparr>)) ruleset1 = Dropped"
proof -
  let ?p = "packet0\<lparr>pk_family := V6, pk_mac := ''02:00:00:00:00:05''\<rparr>"
  have lan: "lan_device_names (Some config1) = [''eth1'']"
    by (simp add: lan_device_names_def internet_facing_zones_def)
  have own: "router_addresses (Some config1) = []"
    by (simp add: router_addresses_def own_addresses_def interface0_def config0_simps map_filter_def)
  have t: "check_target env1 ''2001:db8::5'' [] = Inr (IPv6Address 0x20010db8000000000000000000000005 None)"
    by (simp add: check_target_def read_address_def env1_def host_address_def NOT_HOSTS6_def net6_def in_network_def net_broadcast_def ipv4_mapped_def)
  have q: "quarantine_ip env1 ''2001:db8::5'' 3600 [] [''eth1''] [] = (Inr (Some ''02:00:00:00:00:05''), [(IDS_QUARANTINE_MAC_SET_NAME, ''02:00:00:00:00:05'', 3600)])"
    by (simp add: quarantine_ip_def t MAX_DURATION_SECONDS_def quarantine_ipv6_host_def show_py_address_def show_ipv6_1 mac1 add_element_def no_ipv4 env1_sel)
  have "handle_quarantine_ip env1 (Some config1) [(''ip'', VStr ''2001:db8::5''), (''duration_seconds'', VInt 3600)] []
      = (quarantine_reply ''2001:db8::5'' 3600 (Inr (Some ''02:00:00:00:00:05'')), [(IDS_QUARANTINE_MAC_SET_NAME, ''02:00:00:00:00:05'', 3600)])"
    by (simp add: handle_quarantine_ip_def dict_get_or_def lan own q)
  then obtain m where h: "handle_quarantine_ip env1 (Some config1) [(''ip'', VStr ''2001:db8::5''), (''duration_seconds'', VInt 3600)] []
      = (ReplyOk m, [(IDS_QUARANTINE_MAC_SET_NAME, ''02:00:00:00:00:05'', 3600)])"
    by (simp add: quarantine_reply_def)
  have "sets_hold env1 [(IDS_QUARANTINE_MAC_SET_NAME, ''02:00:00:00:00:05'', 3600)] sets1"
    by (simp add: sets_hold_def sets1_def IDS_QUARANTINE_SET_NAME_def IDS_QUARANTINE_MAC_SET_NAME_def)
  moreover have "sent_by env1 (lan_device_names (Some config1)) ''2001:db8::5'' ?p"
    using mac1 by (simp add: sent_by_def read_address_def lan) (simp add: env1_def show_ipv6_1 packet0_def)
  ultimately show ?thesis using quarantined_cut_off [OF h built1] by blast
qed

end
