(* ===== verification/Ztna.thy ===== *)
theory Ztna
  imports Quarantine
begin

text \<open>
  The zero-trust gate: a sign-in admits one device (\<open>src/src/frfw/ztna.py\<close>), and the helper's commands in front of
  it (\<open>_ztna_tunnel_twin\<close>, \<open>_ztna_client\<close>, \<open>_handle_authorize_ztna\<close>, \<open>_handle_ztna_status\<close> of
  \<open>src/src/frfw/helper/server.py\<close>).

  The readers of addresses, the neighbour table and \<open>nft\<close> are those of \<open>Quarantine\<close>.  \<open>gen\<close> is the ULA prefix the
  router has generated, if any.  The state is every element added to the four sets, and the file that
  remembers who signed in from where.

  Whatever sign-ins are asked for, the sets hold only addresses paired with the MAC the router's own neighbour
  table has for them, and tunnel addresses: nothing a client says about itself gets in.
\<close>

subsection \<open>Clients\<close>

datatype ztna_error = ZtnaError string | ClientNotDirect string

type_synonym 'a ztna_result = "(ztna_error, 'a) result"

definition ZTNA_NEIGH_STATES :: "string list" where
  "ZTNA_NEIGH_STATES = [''REACHABLE'', ''STALE'', ''DELAY'', ''PROBE'', ''PERMANENT'', ''NOARP'']"

definition ztna_usable :: "neigh_entry \<Rightarrow> bool" where
  "ztna_usable e = list_ex (\<lambda>s. s \<in> set ZTNA_NEIGH_STATES) (nb_state e)"

definition validated_address :: "quarantine_env \<Rightarrow> string \<Rightarrow> string ztna_result" where
  "validated_address env ip =
     (if CHR '':'' \<in> set ip
      then (case validate_ipv6 env ip of Inl _ \<Rightarrow> Inl (ZtnaError ''invalid IPv6 address'') | Inr i \<Rightarrow> Inr i)
      else (case validate_ipv4 (VStr ip) of Inl _ \<Rightarrow> Inl (ZtnaError ''invalid IPv4 address'') | Inr i \<Rightarrow> Inr i))"

definition neighbours :: "quarantine_env \<Rightarrow> string list \<Rightarrow> neigh_entry list ztna_result" where
  "neighbours env args = (case ip_neigh env ([''neigh'', ''show''] @ args) of Inl m \<Rightarrow> Inl (ZtnaError m) | Inr es \<Rightarrow> Inr es)"

record client_link =
  link_mac :: string
  link_device :: string

fun first_link :: "quarantine_env \<Rightarrow> string \<Rightarrow> neigh_entry list \<Rightarrow> client_link option" where
  "first_link env ip [] = None"
| "first_link env ip (e # es) =
     (if \<not> same_address env (nb_dst e) ip \<or> \<not> ztna_usable e then first_link env ip es
      else case (nb_lladdr e, nb_dev e) of
          (Some l, Some d) \<Rightarrow>
            (case (validate_mac (VStr l), ifname (VStr d)) of
               (Inr m, Inr dev) \<Rightarrow> Some \<lparr>link_mac = m, link_device = dev\<rparr>
             | _ \<Rightarrow> first_link env ip es)
        | _ \<Rightarrow> first_link env ip es)"

definition client_link_of :: "quarantine_env \<Rightarrow> string \<Rightarrow> client_link option ztna_result" where
  "client_link_of env ip =
     bind_result (validated_address env ip) (\<lambda>i.
     bind_result (neighbours env [''to'', i]) (\<lambda>es. Inr (first_link env i es)))"

text \<open>\<open>is_link_local\<close>, \<open>is_multicast\<close> and \<open>is_unspecified\<close>.\<close>

definition left_out :: "py_address \<Rightarrow> bool" where
  "left_out a = (case a of
       IPv4Address x \<Rightarrow> list_ex (in_network V4 x) [net4 0xa9fe 16, net4 0xe000 4] \<or> x = 0
     | IPv6Address x _ \<Rightarrow> list_ex (in_network V6 x) [net6 0xfe80 10, net6 0xff00 8] \<or> x = 0)"

definition note_device_address :: "quarantine_env \<Rightarrow> string \<Rightarrow> neigh_entry \<Rightarrow> string list \<Rightarrow> string list" where
  "note_device_address env mac e out =
     (if \<not> ztna_usable e then out
      else case (nb_lladdr e, nb_dst e) of
          (Some l, Some d) \<Rightarrow>
            if lower l \<noteq> mac then out
            else (case read_address env d of
                None \<Rightarrow> out
              | Some a \<Rightarrow> if left_out a \<or> show_py_address a \<in> set out then out else out @ [show_py_address a])
        | _ \<Rightarrow> out)"

definition device_addresses :: "quarantine_env \<Rightarrow> client_link \<Rightarrow> string list ztna_result" where
  "device_addresses env link =
     (case ifname (VStr (link_device link)) of
        Inl _ \<Rightarrow> Inl (ZtnaError ''invalid interface name'')
      | Inr d \<Rightarrow> bind_result (neighbours env [''dev'', d]) (\<lambda>es. Inr (fold (note_device_address env (link_mac link)) es [])))"

subsection \<open>Sign-ins\<close>

record ztna_sys =
  ztna_elements :: elements
  ztna_names :: "(string, string \<times> string) dict"

definition ztna_item_of :: "string \<Rightarrow> string \<Rightarrow> string \<times> string" where
  "ztna_item_of mac address =
     (let v6 = (CHR '':'' \<in> set address) in
      if mac \<noteq> [] then (if v6 then ZTNA6_SET_NAME else ZTNA_SET_NAME, address @ '' . '' @ mac)
      else (if v6 then ZTNA_TUNNEL6_SET_NAME else ZTNA_TUNNEL_SET_NAME, address))"

fun distinct_addresses :: "quarantine_env \<Rightarrow> string list \<Rightarrow> string list \<Rightarrow> string list ztna_result" where
  "distinct_addresses env [] out = Inr out"
| "distinct_addresses env (a # as) out =
     bind_result (validated_address env a) (\<lambda>v. distinct_addresses env as (if v \<in> set out then out else out @ [v]))"

fun add_clients :: "quarantine_env \<Rightarrow> string \<Rightarrow> int \<Rightarrow> string \<Rightarrow> string list \<Rightarrow> ztna_sys \<Rightarrow> unit ztna_result \<times> ztna_sys" where
  "add_clients env mac ttl username [] sys = (Inr (), sys)"
| "add_clients env mac ttl username (a # as) sys =
     (case ztna_item_of mac a of (name, el) \<Rightarrow>
        (case nft_result env (nft_argv [''add'', ''element'', ''inet'', FILTER_TABLE, name, ''{'', timeout_item el ttl, ''}'']) of
           Some err \<Rightarrow> (Inl (ZtnaError err), sys)
         | None \<Rightarrow> add_clients env mac ttl username as
             (sys\<lparr>ztna_elements := ztna_elements sys @ [(name, el, ttl)], ztna_names := AList.update a (username, mac) (ztna_names sys)\<rparr>)))"

definition authorize_client :: "quarantine_env \<Rightarrow> string \<Rightarrow> string \<Rightarrow> int \<Rightarrow> string \<Rightarrow> string list \<Rightarrow> ztna_sys \<Rightarrow> string list ztna_result \<times> ztna_sys" where
  "authorize_client env ip mac ttl username also sys =
     (case bind_result (distinct_addresses env (ip # also) []) (\<lambda>addresses.
         if mac = [] then Inr (addresses, mac)
         else (case validate_mac (VStr mac) of Inl _ \<Rightarrow> Inl (ZtnaError ''invalid MAC address'') | Inr m \<Rightarrow> Inr (addresses, m))) of
        Inl e \<Rightarrow> (Inl e, sys)
      | Inr (addresses, m) \<Rightarrow>
         (case add_clients env m ttl username addresses sys of
            (Inl e, sys') \<Rightarrow> (Inl e, sys')
          | (Inr _, sys') \<Rightarrow> (Inr addresses, sys')))"

subsection \<open>Who is signed in\<close>

definition paired_element :: "pyval \<Rightarrow> (string \<times> string \<times> int) option" where
  "paired_element entry =
     (case json_get (json_get (json_get entry ''elem'') ''val'') ''concat'' of
        VList [VStr ip, VStr mac] \<Rightarrow> if mac = [] then None else Some (ip, lower mac, expires_of (json_get entry ''elem''))
      | _ \<Rightarrow> None)"

definition tunnel_element :: "pyval \<Rightarrow> (string \<times> string \<times> int) option" where
  "tunnel_element entry =
     (case json_get (json_get entry ''elem'') ''val'' of VStr ip \<Rightarrow> Some (ip, [], expires_of (json_get entry ''elem'')) | _ \<Rightarrow> None)"

definition ztna_set_elements :: "(string \<Rightarrow> nft_answer) \<Rightarrow> string \<times> bool \<Rightarrow> (string \<times> string \<times> int) list ztna_result" where
  "ztna_set_elements nfts s =
     (case answer_elements (if snd s then paired_element else tunnel_element) (nfts (fst s)) of
        Inl m \<Rightarrow> Inl (ZtnaError m) | Inr xs \<Rightarrow> Inr xs)"

definition list_elements :: "(string \<Rightarrow> nft_answer) \<Rightarrow> (string \<times> string \<times> int) list ztna_result" where
  "list_elements nfts =
     fold_result (\<lambda>s out. bind_result (ztna_set_elements nfts s) (\<lambda>xs. Inr (out @ xs)))
       [(ZTNA_SET_NAME, True), (ZTNA_TUNNEL_SET_NAME, False), (ZTNA6_SET_NAME, True), (ZTNA_TUNNEL6_SET_NAME, False)] []"

record ztna_authorization =
  auth_ip :: string
  auth_username :: "string option"
  auth_expires :: int
  auth_mac :: string

definition get_authorization :: "quarantine_env \<Rightarrow> (string \<Rightarrow> nft_answer) \<Rightarrow> string \<Rightarrow> string \<Rightarrow> ztna_sys \<Rightarrow> ztna_authorization option ztna_result" where
  "get_authorization env nfts ip mac sys =
     bind_result (list_elements nfts) (\<lambda>xs.
     Inr (map_option (\<lambda>(i, m, left). \<lparr>auth_ip = ip, auth_username = map_option fst (map_of (ztna_names sys) i), auth_expires = left, auth_mac = m\<rparr>)
       (List.find (\<lambda>(i, m, _). same_address env (Some i) ip \<and> m = lower mac) xs)))"

subsection \<open>The helper's commands\<close>

definition ula_prefix_of :: "config \<Rightarrow> ip_network option \<Rightarrow> ip_network option" where
  "ula_prefix_of c gen = (case ula_prefix (ipv6 c) of Some p \<Rightarrow> Some p | None \<Rightarrow> gen)"

definition tunnel_network6 :: "ip_network \<Rightarrow> ip_network" where
  "tunnel_network6 prefix = \<lparr>net_family = V6, net_address = or (net_address prefix) (0xffff * 2 ^ 64), net_prefixlen = 64\<rparr>"

definition tunnel_network :: "config \<Rightarrow> ip_network option" where
  "tunnel_network c = (if wg_enabled (wireguard c) then map_option interface_network (ipv4_interface (wg_address (wireguard c))) else None)"

text \<open>\<open>None\<close>: not in the tunnel; the empty text: no address of the other family.\<close>

definition ztna_tunnel_twin :: "py_address \<Rightarrow> config \<Rightarrow> ip_network option \<Rightarrow> string option" where
  "ztna_tunnel_twin address c gen =
     (case tunnel_network c of
        None \<Rightarrow> None
      | Some network4 \<Rightarrow>
         (let network6 = map_option tunnel_network6 (ula_prefix_of c gen) in
          case address of
            IPv4Address x \<Rightarrow>
              if in_network V4 x network4
              then Some (case network6 of None \<Rightarrow> [] | Some n6 \<Rightarrow> show_ipv6 (net_address n6 + (x - net_address network4)))
              else None
          | IPv6Address x _ \<Rightarrow>
             (case network6 of
                None \<Rightarrow> None
              | Some n6 \<Rightarrow>
                  if in_network V6 x n6 then
                    let host = x - net_address n6 in
                    Some (if 0 < host \<and> host < 2 ^ (32 - net_prefixlen network4) - 1 then show_ipv4 (net_address network4 + host) else [])
                  else None)))"

definition ztna_client :: "quarantine_env \<Rightarrow> config \<Rightarrow> ip_network option \<Rightarrow> string \<Rightarrow> py_address \<Rightarrow> (string \<times> string list) ztna_result" where
  "ztna_client env c gen ip address =
     (case ztna_tunnel_twin address c gen of
        Some twin \<Rightarrow> Inr ([], if twin = [] then [] else [twin])
      | None \<Rightarrow>
          bind_result (client_link_of env ip) (\<lambda>link.
            case link of
              None \<Rightarrow> Inl (ClientNotDirect (ip @ '' is not on a network the router is attached to''))
            | Some l \<Rightarrow> bind_result (device_addresses env l) (\<lambda>as. Inr (link_mac l, filter (\<lambda>a. a \<noteq> show_py_address address) as))))"

text \<open>Text with a percent sign names a scope and is refused before it is read.\<close>

definition request_address :: "quarantine_env \<Rightarrow> string \<Rightarrow> py_address option" where
  "request_address env ip = (if CHR ''%'' \<in> set ip then None else read_address env ip)"

definition ztna_error_text :: "ztna_error \<Rightarrow> string" where
  "ztna_error_text e = (case e of ZtnaError m \<Rightarrow> m | ClientNotDirect m \<Rightarrow> m)"

definition handle_authorize_ztna :: "quarantine_env \<Rightarrow> config option \<Rightarrow> ip_network option \<Rightarrow> (string, pyval) dict \<Rightarrow> ztna_sys \<Rightarrow> helper_reply \<times> ztna_sys" where
  "handle_authorize_ztna env cfg gen request sys =
     (case (map_of request ''ip'', map_of request ''username'') of
        (Some (VStr ip), Some (VStr username)) \<Rightarrow>
          if ip = [] then (ReplyFail '''ip' is required'', sys)
          else if username = [] then (ReplyFail '''username' is required'', sys)
          else (case (request_address env ip, cfg) of
              (None, _) \<Rightarrow> (ReplyFail (''invalid IP address '' @ ip), sys)
            | (_, None) \<Rightarrow> (ReplyFail ''the configuration cannot be loaded'', sys)
            | (Some address, Some c) \<Rightarrow>
                if \<not> ztna_enabled (ztna c) then (ReplyFail ''ZTNA gate is disabled in the current config'', sys)
                else if \<not> list_ex (\<lambda>u. ztna_username u = username) (ztna_users (ztna c)) then (ReplyFail (''no such ZTNA user '' @ username), sys)
                else (case ztna_client env c gen ip address of
                    Inl e \<Rightarrow> (ReplyFail (ztna_error_text e), sys)
                  | Inr (mac, others) \<Rightarrow>
                     (case authorize_client env ip mac (session_ttl_seconds (ztna c)) username others sys of
                        (Inl e, sys') \<Rightarrow> (ReplyFail (ztna_error_text e), sys')
                      | (Inr addresses, sys') \<Rightarrow> (ReplyOk (py_join '', '' addresses @ '' authorized as '' @ username), sys'))))
      | (Some (VStr ip), _) \<Rightarrow> (ReplyFail (if ip = [] then '''ip' is required'' else '''username' is required''), sys)
      | _ \<Rightarrow> (ReplyFail '''ip' is required'', sys))"

datatype ztna_status = NotAuthorized | NotDirect | AuthorizedAs "string option" int string

definition handle_ztna_status :: "quarantine_env \<Rightarrow> (string \<Rightarrow> nft_answer) \<Rightarrow> config \<Rightarrow> ip_network option \<Rightarrow> string \<Rightarrow> ztna_sys \<Rightarrow> ztna_status ztna_result" where
  "handle_ztna_status env nfts c gen ip sys =
     (case request_address env ip of
        None \<Rightarrow> Inl (ZtnaError (''invalid IP address '' @ ip))
      | Some address \<Rightarrow>
         (case ztna_client env c gen ip address of
            Inl (ClientNotDirect _) \<Rightarrow> Inr NotDirect
          | Inl e \<Rightarrow> Inl e
          | Inr (mac, _) \<Rightarrow>
              bind_result (get_authorization env nfts ip mac sys) (\<lambda>auth.
                Inr (case auth of None \<Rightarrow> NotAuthorized | Some a \<Rightarrow> AuthorizedAs (auth_username a) (auth_expires a) (auth_mac a)))))"

subsection \<open>What a sign-in admits\<close>

definition table_has :: "quarantine_env \<Rightarrow> string list \<Rightarrow> string \<Rightarrow> string \<Rightarrow> neigh_entry \<Rightarrow> bool" where
  "table_has env args mac address e \<longleftrightarrow>
     (\<exists>es. ip_neigh env ([''neigh'', ''show''] @ args) = Inr es \<and> e \<in> set es) \<and> ztna_usable e
     \<and> (\<exists>l. nb_lladdr e = Some l \<and> lower l = mac)
     \<and> (\<exists>d a. nb_dst e = Some d \<and> read_address env d = Some a \<and> show_py_address a = address)"

text \<open>The device that sent the request: the MAC of its own address, and any address of that MAC on the same link.\<close>

definition client_device :: "quarantine_env \<Rightarrow> string \<Rightarrow> string \<Rightarrow> string \<Rightarrow> bool" where
  "client_device env ip mac address \<longleftrightarrow>
     (\<exists>e dev. table_has env [''to'', ip] mac ip e \<and> nb_dev e = Some dev
        \<and> (address = ip \<or> (\<exists>e'. table_has env [''dev'', dev] mac address e')))"

definition in_tunnel :: "config \<Rightarrow> ip_network option \<Rightarrow> string \<Rightarrow> bool" where
  "in_tunnel c gen address \<longleftrightarrow>
     (\<exists>n4. tunnel_network c = Some n4 \<and>
       ((\<exists>x. address = show_ipv4 x \<and> in_network V4 x n4)
        \<or> (\<exists>x p. ula_prefix_of c gen = Some p \<and> address = show_ipv6 x \<and> in_network V6 x (tunnel_network6 p))))"

definition admitted :: "quarantine_env \<Rightarrow> config \<Rightarrow> ip_network option \<Rightarrow> string \<Rightarrow> string \<times> string \<times> int \<Rightarrow> bool" where
  "admitted env c gen ip e \<longleftrightarrow>
     (\<exists>mac address. e = (fst (ztna_item_of mac address), snd (ztna_item_of mac address), session_ttl_seconds (ztna c))
        \<and> (if mac = [] then in_tunnel c gen ip \<and> in_tunnel c gen address else client_device env ip mac address))"

lemma validated_address_shows:
  assumes "validated_address env s = Inr v"
  shows "v = s" and "\<exists>a. read_address env s = Some a \<and> show_py_address a = s"
  using assms by (auto simp: validated_address_def validate_ipv6_def validate_ipv4_def check_text_def refuse_unless_def read_address_def
    show_py_address_def split: if_splits option.splits sum.splits)

lemma distinct_addresses_set:
  "distinct_addresses env as out = Inr out' \<Longrightarrow> set out' = set out \<union> set as \<and> (\<forall>a\<in>set as. validated_address env a = Inr a)"
proof (induction as arbitrary: out)
  case (Cons a as)
  from Cons.prems obtain v where v: "validated_address env a = Inr v" and d: "distinct_addresses env as (if v \<in> set out then out else out @ [v]) = Inr out'"
    by auto
  with Cons.IH [OF d] validated_address_shows(1) [OF v] show ?case by (auto split: if_splits)
qed simp

lemma add_clients_elements:
  "add_clients env mac ttl username as sys = (r, sys') \<Longrightarrow>
     \<exists>new. ztna_elements sys' = ztna_elements sys @ new \<and> (\<forall>e\<in>set new. \<exists>a\<in>set as. e = (fst (ztna_item_of mac a), snd (ztna_item_of mac a), ttl))"
proof (induction as arbitrary: sys)
  case (Cons a as)
  obtain name el where i: "ztna_item_of mac a = (name, el)" by fastforce
  show ?case
  proof (cases "nft_result env (nft_argv [''add'', ''element'', ''inet'', FILTER_TABLE, name, ''{'', timeout_item el ttl, ''}''])")
    case None
    with Cons.prems i have "add_clients env mac ttl username as (sys\<lparr>ztna_elements := ztna_elements sys @ [(name, el, ttl)],
        ztna_names := AList.update a (username, mac) (ztna_names sys)\<rparr>) = (r, sys')" by simp
    from Cons.IH [OF this] i show ?thesis by fastforce
  qed (use Cons.prems i in auto)
qed simp

lemma validate_mac_same: "validate_mac v = Inr m \<Longrightarrow> lower m = m \<and> m \<noteq> [] \<and> validate_mac (VStr m) = Inr m"
  by (auto simp: validate_mac_def check_text_def refuse_unless_def mac_re_def split: pyval.splits if_splits)

lemma neighbours_Inr_iff [simp]: "neighbours env args = Inr es \<longleftrightarrow> ip_neigh env (''neigh'' # ''show'' # args) = Inr es"
  by (simp add: neighbours_def split: sum.split)

lemma first_link_entry:
  assumes "first_link env ip es = Some l"
  shows "\<exists>e\<in>set es. same_address env (nb_dst e) ip \<and> ztna_usable e \<and> (\<exists>ll. nb_lladdr e = Some ll \<and> validate_mac (VStr ll) = Inr (link_mac l))
    \<and> nb_dev e = Some (link_device l)"
  using assms
proof (induction es)
  case (Cons e es)
  have "ifname (VStr d) = Inr x \<Longrightarrow> x = d" for d x
    by (auto simp: ifname_def check_text_def refuse_unless_def split: if_splits)
  with Cons show ?case by (fastforce split: if_splits option.splits sum.splits)
qed simp

lemma client_link_entry:
  assumes "client_link_of env ip = Inr (Some l)"
  shows "\<exists>e. table_has env [''to'', ip] (link_mac l) ip e \<and> nb_dev e = Some (link_device l)" and "lower (link_mac l) = link_mac l" "link_mac l \<noteq> []"
    "validate_mac (VStr (link_mac l)) = Inr (link_mac l)"
proof -
  from assms obtain v es where v: "validated_address env ip = Inr v" and es: "ip_neigh env ([''neigh'', ''show''] @ [''to'', v]) = Inr es"
    and l: "first_link env v es = Some l"
    by (auto simp: client_link_of_def)
  note ip = validated_address_shows [OF v]
  from first_link_entry [OF l] obtain e ll where e: "e \<in> set es" "same_address env (nb_dst e) v" "ztna_usable e" "nb_lladdr e = Some ll"
    "validate_mac (VStr ll) = Inr (link_mac l)" "nb_dev e = Some (link_device l)" by blast
  from e(5) have "lower ll = link_mac l" by (auto simp: validate_mac_def check_text_def refuse_unless_def split: if_splits)
  with e es ip show "\<exists>e. table_has env [''to'', ip] (link_mac l) ip e \<and> nb_dev e = Some (link_device l)"
    by (auto simp: table_has_def same_address_def split: option.splits)
  show "lower (link_mac l) = link_mac l" "link_mac l \<noteq> []" "validate_mac (VStr (link_mac l)) = Inr (link_mac l)"
    using validate_mac_same [OF e(5)] by simp_all
qed

lemma note_device_address_has:
  assumes "ip_neigh env ([''neigh'', ''show''] @ args) = Inr es" and "e \<in> set es" and "\<forall>a\<in>set out. \<exists>e. table_has env args mac a e"
  shows "\<forall>a\<in>set (note_device_address env mac e out). \<exists>e. table_has env args mac a e"
  using assms by (auto simp: note_device_address_def table_has_def split: option.splits if_splits)

lemma device_addresses_has:
  assumes "device_addresses env l = Inr as" and "a \<in> set as"
  shows "\<exists>e. table_has env [''dev'', link_device l] (link_mac l) a e"
proof -
  from assms(1) obtain es where es: "ip_neigh env ([''neigh'', ''show''] @ [''dev'', link_device l]) = Inr es"
    and as: "as = fold (note_device_address env (link_mac l)) es []"
    by (auto simp: device_addresses_def ifname_def check_text_def refuse_unless_def split: sum.splits if_splits)
  let ?P = "\<lambda>out. \<forall>a\<in>set out. \<exists>e. table_has env [''dev'', link_device l] (link_mac l) a e"
  have "?P (fold (note_device_address env (link_mac l)) es [])"
    by (rule fold_invariant [where Q = "\<lambda>e. e \<in> set es"]) (assumption, simp, rule note_device_address_has [OF es])
  with assms(2) as show ?thesis by blast
qed


lemma tunnel_twin_in_tunnel:
  assumes "ztna_tunnel_twin address c gen = Some twin" and "\<And>x scope. address = IPv6Address x scope \<Longrightarrow> scope = None"
  shows "in_tunnel c gen (show_py_address address)" and "twin \<noteq> [] \<Longrightarrow> in_tunnel c gen twin"
proof -
  from assms(1) obtain n4 where n4: "tunnel_network c = Some n4" by (auto simp: ztna_tunnel_twin_def split: option.splits)
  then have f4: "net_family n4 = V4" "net_prefixlen n4 \<le> 32 \<or> True" by (auto simp: tunnel_network_def interface_network_def split: if_splits)
  have small: "(2::int) ^ (32 - k) \<le> 2 ^ 64" for k :: nat by (rule power_increasing) auto
  show "in_tunnel c gen (show_py_address address)"
    using assms n4 by (cases address) (auto simp: ztna_tunnel_twin_def in_tunnel_def show_py_address_def split: if_splits option.splits)
  show "in_tunnel c gen twin" if "twin \<noteq> []"
  proof (cases address)
    case (IPv4Address x)
    with assms(1) n4 that obtain p where p: "ula_prefix_of c gen = Some p" and x: "in_network V4 x n4"
      and t: "twin = show_ipv6 (net_address (tunnel_network6 p) + (x - net_address n4))"
      by (auto simp: ztna_tunnel_twin_def Let_def split: if_splits option.splits)
    have "in_network V6 (net_address (tunnel_network6 p) + (x - net_address n4)) (tunnel_network6 p)"
      using x f4 small [of "net_prefixlen n4"] by (auto simp: in_network_def net_broadcast_def tunnel_network6_def)
    with p t n4 show ?thesis by (auto simp: in_tunnel_def)
  next
    case (IPv6Address x scope)
    with assms(1) n4 that obtain p where h: "0 < x - net_address (tunnel_network6 p)" "x - net_address (tunnel_network6 p) < 2 ^ (32 - net_prefixlen n4) - 1"
      and t: "twin = show_ipv4 (net_address n4 + (x - net_address (tunnel_network6 p)))"
      by (auto simp: ztna_tunnel_twin_def Let_def split: if_splits option.splits)
    have "in_network V4 (net_address n4 + (x - net_address (tunnel_network6 p))) n4"
      using h f4 by (auto simp: in_network_def net_broadcast_def)
    with t n4 show ?thesis by (auto simp: in_tunnel_def)
  qed
qed

lemma ztna_client_devices:
  assumes "ztna_client env c gen ip address = Inr (mac, others)" and "validated_address env ip = Inr ip" and "read_address env ip = Some address"
    and "a \<in> set (ip # others)"
  shows "if mac = [] then in_tunnel c gen ip \<and> in_tunnel c gen a else client_device env ip mac a"
    and "mac = [] \<or> validate_mac (VStr mac) = Inr mac"
proof -
  have shown: "show_py_address address = ip" using validated_address_shows(2) [OF assms(2)] assms(3) by auto
  have scope: "scope = None" if "address = IPv6Address x scope" for x scope
    using assms(2,3) that by (auto simp: validated_address_def validate_ipv6_def read_address_def split: if_splits option.splits sum.splits)
  have "(if mac = [] then in_tunnel c gen ip \<and> in_tunnel c gen a else client_device env ip mac a) \<and> (mac = [] \<or> validate_mac (VStr mac) = Inr mac)"
  proof (cases "ztna_tunnel_twin address c gen")
    case (Some twin)
    with assms(1) have "mac = []" "others = (if twin = [] then [] else [twin])" by (auto simp: ztna_client_def)
    with tunnel_twin_in_tunnel [OF Some] scope shown assms(4) show ?thesis by (auto split: if_splits)
  next
    case None
    then obtain link where link: "client_link_of env ip = Inr link" and rest: "(case link of
          None \<Rightarrow> Inl (ClientNotDirect (ip @ '' is not on a network the router is attached to''))
        | Some l \<Rightarrow> bind_result (device_addresses env l) (\<lambda>as. Inr (link_mac l, filter (\<lambda>a. a \<noteq> show_py_address address) as))) = Inr (mac, others)"
      using assms(1) unfolding ztna_client_def by (simp del: split_paired_Ex) blast
    then obtain l as where l: "client_link_of env ip = Inr (Some l)" and as: "device_addresses env l = Inr as"
      and m: "mac = link_mac l" "others = filter (\<lambda>a. a \<noteq> show_py_address address) as"
      by (cases link) auto
    note link = client_link_entry [OF l]
    have "client_device env ip mac a"
    proof -
      obtain e where e: "table_has env [''to'', ip] (link_mac l) ip e" "nb_dev e = Some (link_device l)" using link(1) by blast
      have "a = ip \<or> (\<exists>e'. table_has env [''dev'', link_device l] (link_mac l) a e')"
        using assms(4) m(2) device_addresses_has [OF as, of a] by auto
      with e show ?thesis unfolding client_device_def m(1) by blast
    qed
    with link m show ?thesis by simp
  qed
  then show "if mac = [] then in_tunnel c gen ip \<and> in_tunnel c gen a else client_device env ip mac a"
    and "mac = [] \<or> validate_mac (VStr mac) = Inr mac" by blast+
qed

lemma authorize_ztna_elements:
  assumes "handle_authorize_ztna env cfg gen request sys = (reply, sys')"
  shows "set (ztna_elements sys') \<subseteq> set (ztna_elements sys) \<union> {e. \<exists>c ip u. cfg = Some c \<and> map_of request ''ip'' = Some (VStr ip)
    \<and> ztna_enabled (ztna c) \<and> u \<in> set (ztna_users (ztna c)) \<and> map_of request ''username'' = Some (VStr (ztna_username u)) \<and> admitted env c gen ip e}"
proof (cases "\<exists>ip username c address mac others. map_of request ''ip'' = Some (VStr ip) \<and> map_of request ''username'' = Some (VStr username)
    \<and> request_address env ip = Some address \<and> cfg = Some c \<and> ztna_enabled (ztna c) \<and> list_ex (\<lambda>u. ztna_username u = username) (ztna_users (ztna c))
    \<and> ztna_client env c gen ip address = Inr (mac, others) \<and> sys' = snd (authorize_client env ip mac (session_ttl_seconds (ztna c)) username others sys)")
  case True
  then obtain ip username c address mac others where r: "map_of request ''ip'' = Some (VStr ip)" "map_of request ''username'' = Some (VStr username)"
    "request_address env ip = Some address" "cfg = Some c" "ztna_enabled (ztna c)" "list_ex (\<lambda>u. ztna_username u = username) (ztna_users (ztna c))"
    and client: "ztna_client env c gen ip address = Inr (mac, others)"
    and sys': "sys' = snd (authorize_client env ip mac (session_ttl_seconds (ztna c)) username others sys)" by blast
  have read: "read_address env ip = Some address" using r(3) by (auto simp: request_address_def split: if_splits)
  show ?thesis
  proof (cases "distinct_addresses env (ip # others) []")
    case (Inl e)
    with sys' show ?thesis by (auto simp: authorize_client_def)
  next
    case (Inr addresses)
    from distinct_addresses_set [OF Inr] have as: "set addresses = set (ip # others)" and v: "validated_address env ip = Inr ip" by auto
    note dev = ztna_client_devices [OF client v read]
    obtain q where q: "add_clients env mac (session_ttl_seconds (ztna c)) username addresses sys = (q, sys')"
      using sys' Inr dev(2) [of ip] by (fastforce simp: authorize_client_def split: sum.splits prod.splits)
    from add_clients_elements [OF q] as obtain new where "ztna_elements sys' = ztna_elements sys @ new"
      and new: "\<forall>e\<in>set new. \<exists>a\<in>set (ip # others). e = (fst (ztna_item_of mac a), snd (ztna_item_of mac a), session_ttl_seconds (ztna c))" by blast
    moreover have "admitted env c gen ip e" if "e \<in> set new" for e
    proof -
      from new that obtain a where a: "a \<in> set (ip # others)" "e = (fst (ztna_item_of mac a), snd (ztna_item_of mac a), session_ttl_seconds (ztna c))" by blast
      with dev(1) [OF a(1)] show ?thesis unfolding admitted_def by blast
    qed
    ultimately show ?thesis using r by (fastforce simp: list_ex_iff)
  qed
next
  case False
  with assms have "sys' = sys"
    by (auto simp: handle_authorize_ztna_def split: option.splits pyval.splits if_splits sum.splits prod.splits)
  then show ?thesis by simp
qed

text \<open>
  C14: whatever sign-ins are asked for, every element of the gate's sets is for a user of an enabled gate, lasts the
  configured time, and is either an address of the tunnel, for a client whose own address is in the tunnel, or the MAC
  under which the router's neighbour table has the client's address, with that address or another one the table
  has for the same MAC on the same link.
\<close>

theorem only_devices_admitted:
  "set (ztna_elements (fold (\<lambda>(env, cfg, gen, request) sys. snd (handle_authorize_ztna env cfg gen request sys)) requests sys))
     \<subseteq> set (ztna_elements sys) \<union> {e. \<exists>(env, cfg, gen, request)\<in>set requests. \<exists>c ip u. cfg = Some c \<and> map_of request ''ip'' = Some (VStr ip)
       \<and> ztna_enabled (ztna c) \<and> u \<in> set (ztna_users (ztna c)) \<and> map_of request ''username'' = Some (VStr (ztna_username u)) \<and> admitted env c gen ip e}"
proof (rule fold_adds [where g = ztna_elements])
  fix r :: "quarantine_env \<times> config option \<times> ip_network option \<times> (string, pyval) dict" and sys
  obtain env cfg gen request where r: "r = (env, cfg, gen, request)" by (cases r) auto
  obtain reply sys1 where h: "handle_authorize_ztna env cfg gen request sys = (reply, sys1)" by fastforce
  from authorize_ztna_elements [OF h] show "set (ztna_elements ((case r of (env, cfg, gen, request) \<Rightarrow> \<lambda>sys. snd (handle_authorize_ztna env cfg gen request sys)) sys))
      \<subseteq> set (ztna_elements sys) \<union> {e. case r of (env, cfg, gen, request) \<Rightarrow> \<exists>c ip u. cfg = Some c \<and> map_of request ''ip'' = Some (VStr ip)
       \<and> ztna_enabled (ztna c) \<and> u \<in> set (ztna_users (ztna c)) \<and> map_of request ''username'' = Some (VStr (ztna_username u)) \<and> admitted env c gen ip e}"
    by (simp add: r h)
qed

end
