(* ===== verification/Anomaly.thy ===== *)
theory Anomaly
  imports Complex_Main Prelude
begin

text \<open>
  The scoring of hosts (\<open>src/src/frfw/ai_ids/engine.py\<close>): sliding windows of what a host did, its own history of past
  windows, and the scores.

  Times and values are rationals, the standard deviation (\<open>statistics.pstdev\<close>) and the scores reals.  Each method
  holds the lock for its whole body, so a method is one step; \<open>now\<close> is what the clock returned.  A \<open>deque\<close> is a list,
  oldest first.

  The windows are exact: what an event reports are the numbers of observations of that host within the
  window, whatever happened before and however the table was swept; and no host is flagged for a value that is not above
  half its floor.
\<close>

subsection \<open>Constants\<close>

definition ENGINE_WINDOW_SECONDS :: seconds where "ENGINE_WINDOW_SECONDS = 60"
definition BASELINE_SAMPLES :: nat where "BASELINE_SAMPLES = 30"
definition MIN_BASELINE_SAMPLES :: nat where "MIN_BASELINE_SAMPLES = 5"
definition ZSCORE_THRESHOLD :: real where "ZSCORE_THRESHOLD = 3"
definition ABS_CONN_RATE_FLOOR :: rat where "ABS_CONN_RATE_FLOOR = 5"
definition ABS_UNIQUE_DST_RATIO_FLOOR :: rat where "ABS_UNIQUE_DST_RATIO_FLOOR = 8 / 10"
definition ABS_SNI_BLOCK_COUNT_FLOOR :: rat where "ABS_SNI_BLOCK_COUNT_FLOOR = 3"
definition ABS_NXDOMAIN_FLOOR :: rat where "ABS_NXDOMAIN_FLOOR = 30"
definition ABS_DGA_NXDOMAIN_FLOOR :: rat where "ABS_DGA_NXDOMAIN_FLOOR = 10"
definition ABS_DNS_THREAT_FLOOR :: rat where "ABS_DNS_THREAT_FLOOR = 3"
definition MIN_CONNS_FOR_RATIO :: nat where "MIN_CONNS_FOR_RATIO = 5"
definition ENGINE_SWEEP_INTERVAL :: nat where "ENGINE_SWEEP_INTERVAL = 200"
definition STALE_IP_SECONDS :: seconds where "STALE_IP_SECONDS = 3600"

subsection \<open>The windows of a host\<close>

record ip_window =
  new_conn_ts :: "seconds list"
  dst_ips_seen :: "(string, seconds) dict"
  sni_block_ts :: "seconds list"
  nxdomain_ts :: "(seconds \<times> string) list"
  dga_nxdomain_ts :: "(seconds \<times> string) list"
  dns_threat_ts :: "seconds list"
  conn_rate_history :: "rat list"
  dst_ratio_history :: "rat list"
  sni_block_history :: "rat list"
  nxdomain_history :: "rat list"
  dga_nxdomain_history :: "rat list"
  dns_threat_history :: "rat list"
  win_last_seen :: seconds

definition empty_window :: ip_window where
  "empty_window = \<lparr>new_conn_ts = [], dst_ips_seen = [], sni_block_ts = [], nxdomain_ts = [], dga_nxdomain_ts = [], dns_threat_ts = [],
     conn_rate_history = [], dst_ratio_history = [], sni_block_history = [], nxdomain_history = [], dga_nxdomain_history = [],
     dns_threat_history = [], win_last_seen = 0\<rparr>"

record anomaly_event =
  ev_ip :: string
  ev_score :: real
  ev_reasons :: "string list"
  ev_conn_rate :: rat
  ev_unique_dst_ratio :: rat
  ev_sni_block_count :: nat
  ev_nxdomain_count :: nat
  ev_dga_nxdomain_count :: nat
  ev_dns_threat_count :: nat

record anomaly_engine =
  eng_window_seconds :: seconds
  eng_zscore_threshold :: real
  eng_ips :: "(string, ip_window) dict"
  eng_calls_since_sweep :: nat

definition engine_init :: "seconds \<Rightarrow> real \<Rightarrow> anomaly_engine" where
  "engine_init window threshold = \<lparr>eng_window_seconds = window, eng_zscore_threshold = threshold, eng_ips = [], eng_calls_since_sweep = 0\<rparr>"

definition prune_series :: "('a \<Rightarrow> seconds) \<Rightarrow> seconds \<Rightarrow> 'a list \<Rightarrow> 'a list" where
  "prune_series time_of cutoff xs = dropWhile (\<lambda>x. time_of x < cutoff) xs"

definition prune_window :: "seconds \<Rightarrow> ip_window \<Rightarrow> ip_window" where
  "prune_window cutoff w =
     w\<lparr>new_conn_ts := prune_series (\<lambda>t. t) cutoff (new_conn_ts w), sni_block_ts := prune_series (\<lambda>t. t) cutoff (sni_block_ts w),
       dns_threat_ts := prune_series (\<lambda>t. t) cutoff (dns_threat_ts w), nxdomain_ts := prune_series fst cutoff (nxdomain_ts w),
       dga_nxdomain_ts := prune_series fst cutoff (dga_nxdomain_ts w), dst_ips_seen := filter (\<lambda>(_, t). \<not> t < cutoff) (dst_ips_seen w)\<rparr>"

definition engine_sweep :: "seconds \<Rightarrow> anomaly_engine \<Rightarrow> anomaly_engine" where
  "engine_sweep now eng = eng\<lparr>eng_ips := filter (\<lambda>(_, w). \<not> now - win_last_seen w > STALE_IP_SECONDS) (eng_ips eng)\<rparr>"

definition window_of :: "anomaly_engine \<Rightarrow> string \<Rightarrow> ip_window" where
  "window_of eng ip = dict_get_or (eng_ips eng) ip empty_window"

text \<open>\<open>_get_locked\<close>: the table after the sweep, if one is due, and the window of the host.\<close>

definition engine_get :: "seconds \<Rightarrow> string \<Rightarrow> anomaly_engine \<Rightarrow> ip_window \<times> anomaly_engine" where
  "engine_get now ip eng =
     (let calls = Suc (eng_calls_since_sweep eng);
          eng1 = (if calls \<ge> ENGINE_SWEEP_INTERVAL then engine_sweep now (eng\<lparr>eng_calls_since_sweep := 0\<rparr>) else eng\<lparr>eng_calls_since_sweep := calls\<rparr>)
      in ((window_of eng1 ip)\<lparr>win_last_seen := now\<rparr>, eng1))"

datatype observation =
    Connection string string
  | SniBlock string
  | Nxdomain string string bool
  | ThreatBlock string

fun observed_ip :: "observation \<Rightarrow> string" where
  "observed_ip (Connection src dst) = src"
| "observed_ip (SniBlock src) = src"
| "observed_ip (Nxdomain src name generated) = src"
| "observed_ip (ThreatBlock src) = src"

fun note_observation :: "seconds \<Rightarrow> observation \<Rightarrow> ip_window \<Rightarrow> ip_window" where
  "note_observation now (Connection src dst) w = w\<lparr>new_conn_ts := new_conn_ts w @ [now], dst_ips_seen := AList.update dst now (dst_ips_seen w)\<rparr>"
| "note_observation now (SniBlock src) w = w\<lparr>sni_block_ts := sni_block_ts w @ [now]\<rparr>"
| "note_observation now (Nxdomain src name generated) w =
     w\<lparr>nxdomain_ts := nxdomain_ts w @ [(now, name)], dga_nxdomain_ts := (if generated then dga_nxdomain_ts w @ [(now, name)] else dga_nxdomain_ts w)\<rparr>"
| "note_observation now (ThreatBlock src) w = w\<lparr>dns_threat_ts := dns_threat_ts w @ [now]\<rparr>"

text \<open>\<open>observe_connection\<close>, \<open>observe_sni_block\<close>, \<open>observe_dns_nxdomain\<close> and \<open>observe_dns_threat_block\<close>.\<close>

definition observe :: "seconds \<Rightarrow> observation \<Rightarrow> anomaly_engine \<Rightarrow> anomaly_engine" where
  "observe now ob eng =
     (case engine_get now (observed_ip ob) eng of (w, eng1) \<Rightarrow>
        eng1\<lparr>eng_ips := AList.update (observed_ip ob) (prune_window (now - eng_window_seconds eng1) (note_observation now ob w)) (eng_ips eng1)\<rparr>)"

definition tracked_ips :: "anomaly_engine \<Rightarrow> string list" where
  "tracked_ips eng = map fst (eng_ips eng)"

subsection \<open>Scores\<close>

definition rat_mean :: "rat list \<Rightarrow> rat" where
  "rat_mean xs = sum_list xs / of_nat (length xs)"

definition variance :: "rat list \<Rightarrow> rat" where
  "variance xs = sum_list (map (\<lambda>x. (x - rat_mean xs) * (x - rat_mean xs)) xs) / of_nat (length xs)"

definition pstdev :: "rat list \<Rightarrow> real" where
  "pstdev xs = sqrt (of_rat (variance xs))"

definition score_feature :: "real \<Rightarrow> rat \<Rightarrow> rat list \<Rightarrow> rat \<Rightarrow> bool \<times> real" where
  "score_feature threshold v history floor_value =
     (if length history \<ge> MIN_BASELINE_SAMPLES then
        let stdev = (if pstdev history = 0 then 1 / 10 ^ 6 else pstdev history);
            z = of_rat (v - rat_mean history) / stdev
        in if z \<ge> threshold \<and> v > floor_value / 2 then (True, z) else (False, 0)
      else if v \<ge> floor_value then (True, of_rat (v / floor_value)) else (False, 0))"

definition push_history :: "rat list \<Rightarrow> rat \<Rightarrow> rat list" where
  "push_history h v = (let h' = h @ [v] in drop (length h' - BASELINE_SAMPLES) h')"

text \<open>Python's \<open>round\<close>: to the nearest, ties to even.\<close>

definition round_half_even :: "'a::floor_ceiling \<Rightarrow> int" where
  "round_half_even y =
     (let f = \<lfloor>y\<rfloor>; d = y - of_int f in if d < 1 / 2 then f else if d > 1 / 2 then f + 1 else if even f then f else f + 1)"

definition round_to :: "nat \<Rightarrow> 'a::floor_ceiling \<Rightarrow> 'a" where
  "round_to n x = of_int (round_half_even (x * 10 ^ n)) / 10 ^ n"

definition unique_dst_ratio :: "ip_window \<Rightarrow> rat" where
  "unique_dst_ratio w = (if new_conn_ts w = [] then 0 else of_nat (length (dst_ips_seen w)) / of_nat (length (new_conn_ts w)))"

definition distinct_names :: "(seconds \<times> string) list \<Rightarrow> nat" where
  "distinct_names xs = length (remdups (map snd xs))"

text \<open>The features in order: label, value, history and floor.\<close>

definition window_features :: "seconds \<Rightarrow> ip_window \<Rightarrow> (string \<times> rat \<times> rat list \<times> rat) list" where
  "window_features window w =
     [(''connection-rate spike'', of_nat (length (new_conn_ts w)) / window, conn_rate_history w, ABS_CONN_RATE_FLOOR),
      (''SNI-blocklist beacon'', of_nat (length (sni_block_ts w)), sni_block_history w, ABS_SNI_BLOCK_COUNT_FLOOR),
      (''NXDOMAIN burst'', of_nat (distinct_names (nxdomain_ts w)), nxdomain_history w, ABS_NXDOMAIN_FLOOR),
      (''DGA-like NXDOMAIN lookups'', of_nat (distinct_names (dga_nxdomain_ts w)), dga_nxdomain_history w, ABS_DGA_NXDOMAIN_FLOOR),
      (''malware/phishing DNS lookups'', of_nat (length (dns_threat_ts w)), dns_threat_history w, ABS_DNS_THREAT_FLOOR)]
     @ (if length (new_conn_ts w) \<ge> MIN_CONNS_FOR_RATIO
        then [(''destination-scan pattern'', unique_dst_ratio w, dst_ratio_history w, ABS_UNIQUE_DST_RATIO_FLOOR)] else [])"

definition commit_window :: "seconds \<Rightarrow> ip_window \<Rightarrow> ip_window" where
  "commit_window window w =
     w\<lparr>conn_rate_history := push_history (conn_rate_history w) (of_nat (length (new_conn_ts w)) / window),
       sni_block_history := push_history (sni_block_history w) (of_nat (length (sni_block_ts w))),
       nxdomain_history := push_history (nxdomain_history w) (of_nat (distinct_names (nxdomain_ts w))),
       dga_nxdomain_history := push_history (dga_nxdomain_history w) (of_nat (distinct_names (dga_nxdomain_ts w))),
       dns_threat_history := push_history (dns_threat_history w) (of_nat (length (dns_threat_ts w))),
       dst_ratio_history := (if length (new_conn_ts w) \<ge> MIN_CONNS_FOR_RATIO then push_history (dst_ratio_history w) (unique_dst_ratio w) else dst_ratio_history w)\<rparr>"

definition window_event :: "seconds \<Rightarrow> real \<Rightarrow> string \<Rightarrow> ip_window \<Rightarrow> anomaly_event option" where
  "window_event window threshold ip w =
     (let triggered = filter (\<lambda>(l, v, h, f). fst (score_feature threshold v h f)) (window_features window w);
          best = fold (\<lambda>(l, v, h, f) m. max m (snd (score_feature threshold v h f))) triggered 0
      in if triggered = [] then None
         else Some \<lparr>ev_ip = ip, ev_score = round_to 2 best, ev_reasons = map fst triggered,
           ev_conn_rate = round_to 3 (of_nat (length (new_conn_ts w)) / window), ev_unique_dst_ratio = round_to 3 (unique_dst_ratio w),
           ev_sni_block_count = length (sni_block_ts w), ev_nxdomain_count = distinct_names (nxdomain_ts w),
           ev_dga_nxdomain_count = distinct_names (dga_nxdomain_ts w), ev_dns_threat_count = length (dns_threat_ts w)\<rparr>)"

definition evaluate :: "seconds \<Rightarrow> string \<Rightarrow> anomaly_engine \<Rightarrow> anomaly_event option \<times> anomaly_engine" where
  "evaluate now ip eng =
     (case map_of (eng_ips eng) ip of
        None \<Rightarrow> (None, eng)
      | Some w0 \<Rightarrow>
         (let w = prune_window (now - eng_window_seconds eng) w0
          in (window_event (eng_window_seconds eng) (eng_zscore_threshold eng) ip w,
              eng\<lparr>eng_ips := AList.update ip (commit_window (eng_window_seconds eng) w) (eng_ips eng)\<rparr>)))"

subsection \<open>Sliding windows\<close>

text \<open>
  A series follows a log of items in time order when, from now on, the items in any window of length \<open>W\<close> are those
  of the log.
\<close>

definition follows :: "seconds \<Rightarrow> seconds \<Rightarrow> ('a \<Rightarrow> seconds) \<Rightarrow> 'a list \<Rightarrow> 'a list \<Rightarrow> bool" where
  "follows W now f lg xs \<longleftrightarrow> sorted (map f xs) \<and> (\<forall>x\<in>set xs. f x \<le> now)
     \<and> (\<forall>later\<ge>now. filter (\<lambda>x. later - W \<le> f x) xs = filter (\<lambda>x. later - W \<le> f x) lg)"

lemma prune_series_sorted: "sorted (map f xs) \<Longrightarrow> prune_series f c xs = filter (\<lambda>x. c \<le> f x) xs"
proof (induction xs)
  case (Cons x xs)
  then show ?case by (cases "f x < c") (auto simp: prune_series_def intro!: filter_True [symmetric])
qed (simp add: prune_series_def)

lemma follows_later: "follows W now f lg xs \<Longrightarrow> now \<le> later \<Longrightarrow> follows W later f lg xs"
  unfolding follows_def by (meson order_trans)

lemma follows_prune:
  assumes "follows W now f lg xs"
  shows "follows W now f lg (prune_series f (now - W) xs)" and "prune_series f (now - W) xs = filter (\<lambda>x. now - W \<le> f x) lg"
proof -
  from assms have sorted: "sorted (map f xs)" and le: "\<forall>x\<in>set xs. f x \<le> now"
    and win: "\<And>later. now \<le> later \<Longrightarrow> filter (\<lambda>x. later - W \<le> f x) xs = filter (\<lambda>x. later - W \<le> f x) lg"
    unfolding follows_def by blast+
  note p = prune_series_sorted [OF sorted, of "now - W"]
  show "prune_series f (now - W) xs = filter (\<lambda>x. now - W \<le> f x) lg" unfolding p by (rule win) simp
  have "filter (\<lambda>x. later - W \<le> f x) (filter (\<lambda>x. now - W \<le> f x) xs) = filter (\<lambda>x. later - W \<le> f x) xs" if "now \<le> later" for later
    using that by (auto intro!: filter_cong)
  then have "filter (\<lambda>x. later - W \<le> f x) (filter (\<lambda>x. now - W \<le> f x) xs) = filter (\<lambda>x. later - W \<le> f x) lg" if "now \<le> later" for later
    using that win [OF that] by (simp del: filter_filter)
  moreover have "\<forall>x\<in>set (filter (\<lambda>x. now - W \<le> f x) xs). f x \<le> now" using le by simp
  ultimately show "follows W now f lg (prune_series f (now - W) xs)"
    unfolding p follows_def using sorted_filter [OF sorted] by blast
qed

lemma follows_append: "follows W now f lg xs \<Longrightarrow> f x = now \<Longrightarrow> follows W now f (lg @ [x]) (xs @ [x])"
  by (auto simp: follows_def sorted_append)

lemma follows_Nil:
  assumes "\<And>x. x \<in> set lg \<Longrightarrow> f x < now - W"
  shows "follows W now f lg []"
proof -
  have "\<not> later - W \<le> f x" if "now \<le> later" "x \<in> set lg" for later x using assms [OF that(2)] that(1) by linarith
  then have "filter (\<lambda>x. later - W \<le> f x) lg = []" if "now \<le> later" for later using that by (simp add: filter_empty_conv)
  then show ?thesis by (simp add: follows_def)
qed

text \<open>A table from keys to the last time follows the pairs of a log.\<close>

definition dict_follows :: "seconds \<Rightarrow> seconds \<Rightarrow> (seconds \<times> string) list \<Rightarrow> (string, seconds) dict \<Rightarrow> bool" where
  "dict_follows W now lg d \<longleftrightarrow> dict_ok d \<and> (\<forall>(k, t)\<in>set d. t \<le> now) \<and> (\<forall>(t, k)\<in>set lg. t \<le> now)
     \<and> (\<forall>later\<ge>now. \<forall>k. (\<exists>t\<ge>later - W. (k, t) \<in> set d) \<longleftrightarrow> (\<exists>t\<ge>later - W. (t, k) \<in> set lg))"

lemma dict_follows_later: "dict_follows W now lg d \<Longrightarrow> now \<le> later \<Longrightarrow> dict_follows W later lg d"
  unfolding dict_follows_def by (auto intro: order_trans simp del: split_paired_Ex)

lemma dict_follows_prune:
  assumes "dict_follows W now lg d"
  shows "dict_follows W now lg (filter (\<lambda>(_, t). \<not> t < now - W) d)"
    and "length (filter (\<lambda>(_, t). \<not> t < now - W) d) = card (snd ` set (filter (\<lambda>(t, _). now - W \<le> t) lg))"
proof -
  let ?d = "filter (\<lambda>(_, t). \<not> t < now - W) d"
  have ok: "dict_ok ?d" using assms by (simp add: dict_follows_def dict_ok_def distinct_map_filter)
  have "(\<exists>t\<ge>later - W. (k, t) \<in> set ?d) \<longleftrightarrow> (\<exists>t\<ge>later - W. (k, t) \<in> set d)" if "now \<le> later" for later k
    using that by fastforce
  with assms ok show "dict_follows W now lg ?d" by (auto simp: dict_follows_def)
  have "fst ` set ?d = snd ` set (filter (\<lambda>(t, _). now - W \<le> t) lg)"
  proof (intro set_eqI)
    fix k
    have "k \<in> fst ` set ?d \<longleftrightarrow> (\<exists>t\<ge>now - W. (k, t) \<in> set d)" by (force simp: not_less)
    also have "\<dots> \<longleftrightarrow> (\<exists>t\<ge>now - W. (t, k) \<in> set lg)" using assms by (simp add: dict_follows_def)
    also have "\<dots> \<longleftrightarrow> k \<in> snd ` set (filter (\<lambda>(t, _). now - W \<le> t) lg)" by force
    finally show "k \<in> fst ` set ?d \<longleftrightarrow> k \<in> snd ` set (filter (\<lambda>(t, _). now - W \<le> t) lg)" .
  qed
  moreover have "length ?d = card (fst ` set ?d)" using ok by (metis dict_ok_def distinct_card length_map set_map)
  ultimately show "length ?d = card (snd ` set (filter (\<lambda>(t, _). now - W \<le> t) lg))" by simp
qed

lemma dict_follows_update:
  assumes "dict_follows W now lg d" and "0 \<le> W"
  shows "dict_follows W now (lg @ [(now, k)]) (AList.update k now d)"
proof -
  have ok: "dict_ok d" and le: "\<forall>(k, t)\<in>set d. t \<le> now" "\<forall>(t, k)\<in>set lg. t \<le> now"
    and f: "\<And>later k. now \<le> later \<Longrightarrow> (\<exists>t\<ge>later - W. (k, t) \<in> set d) \<longleftrightarrow> (\<exists>t\<ge>later - W. (t, k) \<in> set lg)"
    using assms(1) by (auto simp: dict_follows_def)
  have ok': "dict_ok (AList.update k now d)" using ok by (simp add: dict_ok_def distinct_update)
  note m = mem_AList_update [OF ok]
  have "(\<exists>t\<ge>later - W. (j, t) \<in> set (AList.update k now d)) \<longleftrightarrow> (\<exists>t\<ge>later - W. (t, j) \<in> set (lg @ [(now, k)]))" if l: "now \<le> later" for later j
  proof (cases "j = k")
    case True
    have "later - W \<le> now" if "(t, k) \<in> set lg" "later - W \<le> t" for t using le(2) that by (auto intro: order_trans)
    with True show ?thesis unfolding m by auto
  next
    case False
    then show ?thesis unfolding m using f [OF l, of j] by auto
  qed
  with ok' le show ?thesis using m by (auto simp: dict_follows_def split: if_splits)
qed

subsection \<open>The engine follows what it was told\<close>

datatype engine_event = Observe observation | Evaluate string

definition engine_step :: "seconds \<times> engine_event \<Rightarrow> anomaly_engine \<Rightarrow> anomaly_engine" where
  "engine_step e eng = (case e of (now, Observe ob) \<Rightarrow> observe now ob eng | (now, Evaluate ip) \<Rightarrow> snd (evaluate now ip eng))"

lemma engine_step_simps:
  "engine_step (now, Observe ob) eng = observe now ob eng" "engine_step (now, Evaluate ip) eng = snd (evaluate now ip eng)"
  by (simp_all add: engine_step_def)

definition logged :: "(observation \<Rightarrow> 'b option) \<Rightarrow> string \<Rightarrow> (seconds \<times> engine_event) list \<Rightarrow> (seconds \<times> 'b) list" where
  "logged sel ip es = List.map_filter (\<lambda>(t, e). case e of
     Observe ob \<Rightarrow> if observed_ip ob = ip then map_option (\<lambda>b. (t, b)) (sel ob) else None | Evaluate _ \<Rightarrow> None) es"

definition connection_to :: "observation \<Rightarrow> string option" where
  "connection_to ob = (case ob of Connection _ dst \<Rightarrow> Some dst | _ \<Rightarrow> None)"

definition sni_block :: "observation \<Rightarrow> unit option" where
  "sni_block ob = (case ob of SniBlock _ \<Rightarrow> Some () | _ \<Rightarrow> None)"

definition threat_block :: "observation \<Rightarrow> unit option" where
  "threat_block ob = (case ob of ThreatBlock _ \<Rightarrow> Some () | _ \<Rightarrow> None)"

definition nxdomain_name :: "observation \<Rightarrow> string option" where
  "nxdomain_name ob = (case ob of Nxdomain _ name _ \<Rightarrow> Some name | _ \<Rightarrow> None)"

definition dga_name :: "observation \<Rightarrow> string option" where
  "dga_name ob = (case ob of Nxdomain _ name generated \<Rightarrow> if generated then Some name else None | _ \<Rightarrow> None)"

lemmas selectors = connection_to_def sni_block_def threat_block_def nxdomain_name_def dga_name_def

lemma logged_append:
  "logged sel ip (es @ [(t, Observe ob)]) = logged sel ip es @ (case (if observed_ip ob = ip then sel ob else None) of None \<Rightarrow> [] | Some b \<Rightarrow> [(t, b)])"
  "logged sel ip (es @ [(t, Evaluate i)]) = logged sel ip es"
  by (auto simp: logged_def map_filter_def split: option.split)

definition window_follows :: "seconds \<Rightarrow> seconds \<Rightarrow> string \<Rightarrow> (seconds \<times> engine_event) list \<Rightarrow> ip_window \<Rightarrow> bool" where
  "window_follows W now ip es w \<longleftrightarrow>
     follows W now (\<lambda>t. t) (map fst (logged connection_to ip es)) (new_conn_ts w)
     \<and> follows W now (\<lambda>t. t) (map fst (logged sni_block ip es)) (sni_block_ts w)
     \<and> follows W now (\<lambda>t. t) (map fst (logged threat_block ip es)) (dns_threat_ts w)
     \<and> follows W now fst (logged nxdomain_name ip es) (nxdomain_ts w)
     \<and> follows W now fst (logged dga_name ip es) (dga_nxdomain_ts w)
     \<and> dict_follows W now (logged connection_to ip es) (dst_ips_seen w)"

lemma window_follows_later: "window_follows W now ip es w \<Longrightarrow> now \<le> later \<Longrightarrow> window_follows W later ip es w"
  unfolding window_follows_def by (blast intro: follows_later dict_follows_later)

lemma window_follows_prune: "window_follows W now ip es w \<Longrightarrow> window_follows W now ip es (prune_window (now - W) w)"
  by (simp add: window_follows_def prune_window_def follows_prune(1) dict_follows_prune(1))

lemma window_follows_irrelevant [simp]:
  "window_follows W now ip es (w\<lparr>win_last_seen := t\<rparr>) = window_follows W now ip es w"
  "window_follows W now ip es (commit_window W w) = window_follows W now ip es w"
  "window_follows W now ip (es @ [(t, Evaluate i)]) w = window_follows W now ip es w"
  by (simp_all add: window_follows_def commit_window_def logged_append)

lemma window_follows_other: "observed_ip ob \<noteq> ip \<Longrightarrow> window_follows W now ip (es @ [(t, Observe ob)]) w = window_follows W now ip es w"
  by (simp add: window_follows_def logged_append)

lemma window_follows_note:
  assumes "window_follows W now (observed_ip ob) es w" and "0 \<le> W"
  shows "window_follows W now (observed_ip ob) (es @ [(now, Observe ob)]) (note_observation now ob w)"
  using assms by (cases ob) (simp_all add: window_follows_def logged_append selectors follows_append dict_follows_update)

text \<open>Every time the host did something is at most the time it was last seen, so a host that is swept away has an empty window.\<close>

definition seen_until :: "seconds \<Rightarrow> string \<Rightarrow> (seconds \<times> engine_event) list \<Rightarrow> bool" where
  "seen_until t ip es \<longleftrightarrow> (\<forall>(s, e)\<in>set es. \<forall>ob. e = Observe ob \<longrightarrow> observed_ip ob = ip \<longrightarrow> s \<le> t)"

lemma logged_seen: "seen_until t ip es \<Longrightarrow> (s, b) \<in> set (logged sel ip es) \<Longrightarrow> s \<le> t"
  by (auto simp: logged_def map_filter_def seen_until_def split: engine_event.splits if_splits)

lemma logged_follows_Nil:
  assumes "seen_until t ip es" and "t < now - W"
  shows "follows W now (\<lambda>t. t) (map fst (logged sel ip es)) []" and "follows W now fst (logged sel ip es) []"
proof -
  have b: "s < now - W" if "(s, b) \<in> set (logged sel ip es)" for s b
    using logged_seen [OF assms(1) that] assms(2) by linarith
  show "follows W now (\<lambda>t. t) (map fst (logged sel ip es)) []" "follows W now fst (logged sel ip es) []"
    by (intro follows_Nil; use b in force)+
qed

lemma empty_window_follows:
  assumes "seen_until t ip es" and "t < now - W" and "0 \<le> W"
  shows "window_follows W now ip es empty_window"
proof -
  have "s < now - W" if "(s, b) \<in> set (logged connection_to ip es)" for s b
    using logged_seen [OF assms(1) that] assms(2) by linarith
  then have "dict_follows W now (logged connection_to ip es) []"
    using assms(3) by (fastforce simp: dict_follows_def dict_ok_def)
  then show ?thesis by (simp add: window_follows_def empty_window_def logged_follows_Nil [OF assms(1,2)])
qed

definition engine_follows :: "seconds \<Rightarrow> seconds \<Rightarrow> (seconds \<times> engine_event) list \<Rightarrow> anomaly_engine \<Rightarrow> bool" where
  "engine_follows W now es eng \<longleftrightarrow> eng_window_seconds eng = W \<and> dict_ok (eng_ips eng)
     \<and> (\<forall>ip. window_follows W now ip es (window_of eng ip))
     \<and> (\<forall>(ip, w)\<in>set (eng_ips eng). seen_until (win_last_seen w) ip es)"

lemma window_of_update: "window_of (eng\<lparr>eng_ips := AList.update ip w (eng_ips eng)\<rparr>) j = (if j = ip then w else window_of eng j)"
  by (simp add: window_of_def dict_get_or_def update_conv')

lemma seen_until_later: "seen_until t ip es \<Longrightarrow> t \<le> s \<Longrightarrow> seen_until s ip es"
  by (fastforce simp: seen_until_def)

lemma seen_until_append:
  "seen_until t ip (es @ [(s, Observe ob)]) \<longleftrightarrow> seen_until t ip es \<and> (observed_ip ob = ip \<longrightarrow> s \<le> t)"
  "seen_until t ip (es @ [(s, Evaluate i)]) \<longleftrightarrow> seen_until t ip es"
  by (auto simp: seen_until_def)

lemma sweep_follows:
  assumes "engine_follows W now es eng" and "0 \<le> W" and "W \<le> STALE_IP_SECONDS"
  shows "engine_follows W now es (engine_sweep now eng)"
proof -
  have ok: "dict_ok (eng_ips eng)" and win: "\<And>ip. window_follows W now ip es (window_of eng ip)"
    and seen: "\<And>ip w. (ip, w) \<in> set (eng_ips eng) \<Longrightarrow> seen_until (win_last_seen w) ip es" and W: "eng_window_seconds eng = W"
    using assms(1) by (auto simp: engine_follows_def)
  have "window_follows W now ip es (window_of (engine_sweep now eng) ip)" for ip
  proof (cases "map_of (eng_ips eng) ip")
    case None
    then have "map_of (eng_ips (engine_sweep now eng)) ip = None"
      by (auto simp: engine_sweep_def map_of_eq_None_iff)
    with None win [of ip] show ?thesis by (simp add: window_of_def dict_get_or_def)
  next
    case (Some w)
    then have w: "(ip, w) \<in> set (eng_ips eng)" by (rule map_of_SomeD)
    have m: "map_of (eng_ips (engine_sweep now eng)) ip = (if now - win_last_seen w > STALE_IP_SECONDS then None else Some w)"
      using Some by (simp add: engine_sweep_def map_of_filter_dict [OF ok])
    show ?thesis
    proof (cases "now - win_last_seen w > STALE_IP_SECONDS")
      case True
      then have "win_last_seen w < now - W" using assms(3) by linarith
      from empty_window_follows [OF seen [OF w] this assms(2)] m True show ?thesis by (simp add: window_of_def dict_get_or_def)
    next
      case False
      with m Some win [of ip] show ?thesis by (simp add: window_of_def dict_get_or_def)
    qed
  qed
  moreover have "dict_ok (eng_ips (engine_sweep now eng))" using ok by (simp add: engine_sweep_def dict_ok_def distinct_map_filter)
  moreover have "\<forall>(ip, w)\<in>set (eng_ips (engine_sweep now eng)). seen_until (win_last_seen w) ip es" using seen by (auto simp: engine_sweep_def)
  ultimately show ?thesis using W by (simp add: engine_follows_def engine_sweep_def)
qed

lemma engine_follows_calls [simp]: "engine_follows W now es (eng\<lparr>eng_calls_since_sweep := n\<rparr>) = engine_follows W now es eng"
  by (simp add: engine_follows_def window_of_def)

lemma engine_follows_later: "engine_follows W now es eng \<Longrightarrow> now \<le> later \<Longrightarrow> engine_follows W later es eng"
  unfolding engine_follows_def by (auto intro: window_follows_later)

lemma observe_follows:
  assumes "engine_follows W now es eng" and "0 \<le> W" and "W \<le> STALE_IP_SECONDS" and "\<forall>(t, _)\<in>set es. t \<le> now"
  shows "engine_follows W now (es @ [(now, Observe ob)]) (observe now ob eng)"
proof -
  obtain w eng1 where g: "engine_get now (observed_ip ob) eng = (w, eng1)" by fastforce
  then have w: "w = (window_of eng1 (observed_ip ob))\<lparr>win_last_seen := now\<rparr>" and e1: "engine_follows W now es eng1"
    using assms(1) sweep_follows [OF _ assms(2,3)] by (auto simp: engine_get_def Let_def split: if_splits)
  let ?w = "prune_window (now - W) (note_observation now ob w)"
  have "window_follows W now (observed_ip ob) (es @ [(now, Observe ob)]) ?w"
    using e1 w assms(2) by (intro window_follows_prune window_follows_note) (simp_all add: engine_follows_def)
  moreover have "win_last_seen ?w = now" using w by (cases ob) (simp_all add: prune_window_def)
  moreover have "seen_until now ip es" for ip using assms(4) by (auto simp: seen_until_def)
  moreover have "observe now ob eng = eng1\<lparr>eng_ips := AList.update (observed_ip ob) ?w (eng_ips eng1)\<rparr>"
    using g e1 by (simp add: observe_def engine_follows_def)
  moreover have "\<forall>(ip, w)\<in>set (AList.update (observed_ip ob) ?w (eng_ips eng1)). ip = observed_ip ob \<and> w = ?w \<or> ip \<noteq> observed_ip ob \<and> (ip, w) \<in> set (eng_ips eng1)"
    using e1 by (auto simp: engine_follows_def mem_AList_update split: if_splits)
  ultimately show ?thesis using e1
    by (fastforce simp: engine_follows_def window_of_update window_follows_other seen_until_append py_dict_laws dict_ok_def distinct_update)
qed


lemma evaluate_follows:
  assumes "engine_follows W now es eng"
  shows "engine_follows W now (es @ [(now, Evaluate ip)]) (snd (evaluate now ip eng))"
proof (cases "map_of (eng_ips eng) ip")
  case None
  with assms show ?thesis by (auto simp: evaluate_def engine_follows_def seen_until_append)
next
  case (Some w0)
  let ?w = "commit_window W (prune_window (now - W) w0)"
  have e: "snd (evaluate now ip eng) = eng\<lparr>eng_ips := AList.update ip ?w (eng_ips eng)\<rparr>" and ok: "dict_ok (eng_ips eng)"
    using assms Some by (auto simp: evaluate_def engine_follows_def Let_def)
  have "window_follows W now ip es w0" using assms Some by (auto simp: engine_follows_def window_of_def dict_get_or_def dest: spec [of _ ip])
  then have "window_follows W now ip es ?w" by (simp add: window_follows_prune)
  moreover have "seen_until (win_last_seen ?w) ip es"
    using assms map_of_SomeD [OF Some] by (auto simp: engine_follows_def commit_window_def prune_window_def)
  ultimately show ?thesis
    using assms unfolding e engine_follows_def
    by (auto simp: window_of_update seen_until_append mem_AList_update [OF ok] py_dict.ok_put split: if_splits)
qed

lemma run_follows:
  assumes "sorted (map fst es @ [now])" and "0 \<le> W" and "W \<le> STALE_IP_SECONDS"
  shows "engine_follows W now es (fold engine_step es (engine_init W thr))"
  using assms(1)
proof (induction es arbitrary: now rule: rev_induct)
  case Nil
  have "window_follows W now ip [] empty_window" for ip
    using assms(2) by (simp add: window_follows_def empty_window_def logged_def map_filter_def follows_def dict_follows_def dict_ok_def)
  then show ?case by (simp add: engine_follows_def engine_init_def window_of_def dict_get_or_def dict_ok_def)
next
  case (snoc e es)
  obtain t ev where e: "e = (t, ev)" by fastforce
  with snoc.prems have "sorted (map fst es @ [t])" and t: "t \<le> now" "\<forall>(s, _)\<in>set es. s \<le> t" by (auto simp: sorted_append)
  from snoc.IH [OF this(1)] have "engine_follows W t (es @ [e]) (engine_step e (fold engine_step es (engine_init W thr)))"
    using observe_follows [OF _ assms(2,3) t(2)] evaluate_follows by (cases ev) (simp_all add: e engine_step_simps)
  with t(1) show ?case by (simp add: engine_follows_later)
qed

subsection \<open>Alarms\<close>

text \<open>What a host did within the window before \<open>now\<close>.\<close>

definition recent_items :: "(observation \<Rightarrow> 'b option) \<Rightarrow> seconds \<Rightarrow> seconds \<Rightarrow> string \<Rightarrow> (seconds \<times> engine_event) list \<Rightarrow> (seconds \<times> 'b) list" where
  "recent_items sel W now ip es = filter (\<lambda>(t, _). now - W \<le> t) (logged sel ip es)"

definition recent_count :: "(observation \<Rightarrow> 'b option) \<Rightarrow> seconds \<Rightarrow> seconds \<Rightarrow> string \<Rightarrow> (seconds \<times> engine_event) list \<Rightarrow> nat" where
  "recent_count sel W now ip es = length (recent_items sel W now ip es)"

definition recent_distinct :: "(observation \<Rightarrow> 'b option) \<Rightarrow> seconds \<Rightarrow> seconds \<Rightarrow> string \<Rightarrow> (seconds \<times> engine_event) list \<Rightarrow> nat" where
  "recent_distinct sel W now ip es = card (snd ` set (recent_items sel W now ip es))"

text \<open>The values a host is judged by, each with half its floor.\<close>

definition judged :: "seconds \<Rightarrow> seconds \<Rightarrow> string \<Rightarrow> (seconds \<times> engine_event) list \<Rightarrow> (string \<times> rat \<times> rat) list" where
  "judged W now ip es =
     [(''connection-rate spike'', of_nat (recent_count connection_to W now ip es) / W, 5 / 2),
      (''SNI-blocklist beacon'', of_nat (recent_count sni_block W now ip es), 3 / 2),
      (''NXDOMAIN burst'', of_nat (recent_distinct nxdomain_name W now ip es), 15),
      (''DGA-like NXDOMAIN lookups'', of_nat (recent_distinct dga_name W now ip es), 5),
      (''malware/phishing DNS lookups'', of_nat (recent_count threat_block W now ip es), 3 / 2),
      (''destination-scan pattern'', of_nat (recent_distinct connection_to W now ip es) / of_nat (recent_count connection_to W now ip es), 4 / 10)]"

lemma followed_count:
  assumes "follows W now (\<lambda>t. t) (map fst (logged sel ip es)) ts"
  shows "length (prune_series (\<lambda>t. t) (now - W) ts) = recent_count sel W now ip es"
  unfolding follows_prune(2) [OF assms] by (simp add: recent_count_def recent_items_def filter_map comp_def case_prod_unfold)

lemma followed_distinct:
  assumes "follows W now fst (logged sel ip es) ts"
  shows "distinct_names (prune_series fst (now - W) ts) = recent_distinct sel W now ip es"
  unfolding follows_prune(2) [OF assms]
  by (simp add: recent_distinct_def recent_items_def distinct_names_def length_remdups_card_conv case_prod_unfold)

lemma followed_keys:
  assumes "dict_follows W now (logged sel ip es) d"
  shows "length (filter (\<lambda>(_, t). \<not> t < now - W) d) = recent_distinct sel W now ip es"
  unfolding dict_follows_prune(2) [OF assms] by (simp add: recent_distinct_def recent_items_def)

lemma pruned_window:
  assumes "window_follows W now ip es w0"
  defines "w \<equiv> prune_window (now - W) w0"
  shows "length (new_conn_ts w) = recent_count connection_to W now ip es" "length (sni_block_ts w) = recent_count sni_block W now ip es"
    "length (dns_threat_ts w) = recent_count threat_block W now ip es" "distinct_names (nxdomain_ts w) = recent_distinct nxdomain_name W now ip es"
    "distinct_names (dga_nxdomain_ts w) = recent_distinct dga_name W now ip es" "length (dst_ips_seen w) = recent_distinct connection_to W now ip es"
  using assms(1) by (simp_all add: w_def prune_window_def window_follows_def followed_count followed_distinct followed_keys)

lemma score_feature_floor: "fst (score_feature thr v h f) \<Longrightarrow> 0 < f \<Longrightarrow> f / 2 < v"
  by (auto simp: score_feature_def Let_def split: if_splits)

lemmas floor_defs = ABS_CONN_RATE_FLOOR_def ABS_SNI_BLOCK_COUNT_FLOOR_def ABS_NXDOMAIN_FLOOR_def ABS_DGA_NXDOMAIN_FLOOR_def
  ABS_DNS_THREAT_FLOOR_def ABS_UNIQUE_DST_RATIO_FLOOR_def

lemma features_judged:
  assumes "window_follows W now ip es w0" and "(l, v, h, f) \<in> set (window_features W (prune_window (now - W) w0))"
  shows "(l, v, f / 2) \<in> set (judged W now ip es)" and "0 < f"
proof -
  let ?fs = "window_features W (prune_window (now - W) w0)"
  note n = pruned_window [OF assms(1)]
  have nonempty: "length xs \<ge> 5 \<Longrightarrow> xs \<noteq> []" for xs :: "seconds list" by auto
  have "map (\<lambda>(l, v, h, f). (l, v, f / 2)) ?fs = (if recent_count connection_to W now ip es \<ge> 5 then judged W now ip es else take 5 (judged W now ip es))"
    using nonempty [of "new_conn_ts (prune_window (now - W) w0)"]
    by (simp add: window_features_def judged_def unique_dst_ratio_def n floor_defs MIN_CONNS_FOR_RATIO_def)
  moreover have "(l, v, f / 2) \<in> set (map (\<lambda>(l, v, h, f). (l, v, f / 2)) ?fs)" using assms(2) by force
  ultimately show "(l, v, f / 2) \<in> set (judged W now ip es)" by (metis in_set_takeD)
  have "list_all (\<lambda>(l, v, h, f). 0 < f) ?fs" by (simp add: window_features_def floor_defs)
  with assms(2) show "0 < f" by (auto simp: list_all_iff)
qed

text \<open>
  C30: every alarm is grounded.  For observations and evaluations that come in the order of their times -- of all hosts,
  in any mixture, and however the table was swept in between --, and a window no longer than the time after which a host
  is swept, an event reports exactly how often the host was seen within the window before it, and each reason it gives is a
  value of that window above half its floor; so a host that stays at or below these is never flagged.  (The
  daemon takes the time once for a round of evaluations, so an observation made during the round may carry a later time than an
  evaluation after it; such a run is not covered.)
\<close>

theorem alarms_grounded:
  assumes "sorted (map fst es @ [now])" and "0 < W" and "W \<le> STALE_IP_SECONDS"
    and "evaluate now ip (fold engine_step es (engine_init W thr)) = (Some e, eng)"
  shows "ev_ip e = ip \<and> ev_sni_block_count e = recent_count sni_block W now ip es \<and> ev_dns_threat_count e = recent_count threat_block W now ip es
    \<and> ev_nxdomain_count e = recent_distinct nxdomain_name W now ip es \<and> ev_dga_nxdomain_count e = recent_distinct dga_name W now ip es
    \<and> ev_reasons e \<noteq> [] \<and> set (ev_reasons e) \<subseteq> {l. \<exists>v half. (l, v, half) \<in> set (judged W now ip es) \<and> half < v}"
proof -
  let ?eng = "fold engine_step es (engine_init W thr)"
  have fol: "engine_follows W now es ?eng" by (rule run_follows) (use assms in auto)
  then have W: "eng_window_seconds ?eng = W" by (simp add: engine_follows_def)
  from assms(4) obtain w0 where w0: "map_of (eng_ips ?eng) ip = Some w0" by (auto simp: evaluate_def split: option.splits)
  then have win: "window_follows W now ip es w0" using fol by (auto simp: engine_follows_def window_of_def dict_get_or_def dest: spec [of _ ip])
  let ?w = "prune_window (now - W) w0" and ?thr = "eng_zscore_threshold ?eng"
  let ?on = "filter (\<lambda>(l, v, h, f). fst (score_feature ?thr v h f)) (window_features W ?w)"
  have e: "window_event W ?thr ip ?w = Some e" using assms(4) w0 W by (simp add: evaluate_def Let_def)
  then have on: "?on \<noteq> []" "ev_reasons e = map fst ?on" by (auto simp: window_event_def Let_def split: if_splits)
  have "\<exists>v half. (l, v, half) \<in> set (judged W now ip es) \<and> half < v" if "(l, v, h, f) \<in> set ?on" for l v h f
  proof -
    from that have m: "(l, v, h, f) \<in> set (window_features W ?w)" and t: "fst (score_feature ?thr v h f)" by auto
    from features_judged [OF win m] score_feature_floor [OF t] show ?thesis by blast
  qed
  then have "set (ev_reasons e) \<subseteq> {l. \<exists>v half. (l, v, half) \<in> set (judged W now ip es) \<and> half < v}" unfolding on(2) by fastforce
  moreover have "ev_ip e = ip" "ev_sni_block_count e = recent_count sni_block W now ip es" "ev_dns_threat_count e = recent_count threat_block W now ip es"
    "ev_nxdomain_count e = recent_distinct nxdomain_name W now ip es" "ev_dga_nxdomain_count e = recent_distinct dga_name W now ip es"
    using e by (auto simp: window_event_def Let_def pruned_window [OF win] split: if_splits)
  ultimately show ?thesis using on by simp
qed


definition beacon :: "(seconds \<times> engine_event) list" where
  "beacon = [(0, Observe (SniBlock ''10.0.0.5'')), (10, Observe (Connection ''10.0.0.6'' ''192.0.2.1'')),
     (20, Observe (SniBlock ''10.0.0.5'')), (30, Observe (SniBlock ''10.0.0.5''))]"

lemmas engine_defs = observe_def engine_get_def ENGINE_SWEEP_INTERVAL_def window_of_def dict_get_or_def empty_window_def engine_init_def
  prune_window_def prune_series_def

theorem alarms_grounded_witness:
  "\<exists>e eng. evaluate 40 ''10.0.0.5'' (fold engine_step beacon (engine_init 60 3)) = (Some e, eng) \<and> ev_reasons e \<noteq> []
     \<and> ev_sni_block_count e = recent_count sni_block 60 40 ''10.0.0.5'' beacon"
proof -
  let ?w = "empty_window\<lparr>sni_block_ts := [0, 20, 30], win_last_seen := 30\<rparr>"
  have "map_of (eng_ips (fold engine_step beacon (engine_init 60 3))) ''10.0.0.5'' = Some ?w"
    by (simp add: beacon_def engine_step_simps engine_defs)
  moreover have "eng_window_seconds (fold engine_step beacon (engine_init 60 3)) = 60"
    using run_follows [of beacon 40 60 3] by (simp add: engine_follows_def beacon_def STALE_IP_SECONDS_def)
  moreover have "window_event 60 t ''10.0.0.5'' (prune_window (40 - 60) ?w) \<noteq> None" for t
    by (simp add: window_event_def Let_def window_features_def engine_defs distinct_names_def score_feature_def MIN_BASELINE_SAMPLES_def floor_defs)
  ultimately obtain e eng where e: "evaluate 40 ''10.0.0.5'' (fold engine_step beacon (engine_init 60 3)) = (Some e, eng)"
    by (auto simp: evaluate_def Let_def)
  from alarms_grounded [OF _ _ _ e] have "ev_reasons e \<noteq> [] \<and> ev_sni_block_count e = recent_count sni_block 60 40 ''10.0.0.5'' beacon"
    by (simp add: beacon_def STALE_IP_SECONDS_def)
  with e show ?thesis by blast
qed


subsection \<open>What the daemon relies on\<close>

text \<open>
  Hosts come into the table by an observation and by nothing else, scoring adds none, and an event is about the host
  that was scored.
\<close>

locale host_scorer =
  fixes note_one :: "'t \<Rightarrow> 'o \<Rightarrow> 's \<Rightarrow> 's" and source_of :: "'o \<Rightarrow> string" and hosts :: "'s \<Rightarrow> string list"
    and score :: "'t \<Rightarrow> string \<Rightarrow> 's \<Rightarrow> 'e option \<times> 's" and host_of :: "'e \<Rightarrow> string"
  assumes hosts_note: "set (hosts (note_one t ob s)) \<subseteq> insert (source_of ob) (set (hosts s))"
    and hosts_score: "set (hosts (snd (score t ip s))) \<subseteq> set (hosts s)"
    and score_host: "fst (score t ip s) = Some e \<Longrightarrow> host_of e = ip"
begin

lemma note_keeps: "P (source_of ob) \<Longrightarrow> \<forall>k\<in>set (hosts s). P k \<Longrightarrow> \<forall>k\<in>set (hosts (note_one t ob s)). P k"
  using hosts_note by blast

lemma score_keeps: "\<forall>k\<in>set (hosts s). P k \<Longrightarrow> \<forall>k\<in>set (hosts (snd (score t ip s))). P k"
  using hosts_score by blast

end

interpretation scoring: host_scorer observe observed_ip tracked_ips evaluate ev_ip
proof
  fix t ob s ip e
  show "set (tracked_ips (observe t ob s)) \<subseteq> insert (observed_ip ob) (set (tracked_ips s))"
    by (auto simp: observe_def tracked_ips_def engine_get_def engine_sweep_def Let_def dom_update split: prod.splits if_splits)
  show "set (tracked_ips (snd (evaluate t ip s))) \<subseteq> set (tracked_ips s)"
    by (auto simp: evaluate_def tracked_ips_def Let_def dom_update split: option.splits dest!: map_of_SomeD intro: rev_image_eqI)
  show "fst (evaluate t ip s) = Some e \<Longrightarrow> ev_ip e = ip"
    by (auto simp: evaluate_def window_event_def Let_def split: option.splits if_splits)
qed

end
