(* ===== verification/Sensor_Input.thy ===== *)
theory Sensor_Input
  imports Complex_Main Py_Text Validate
begin

text \<open>
  What the intrusion detection reads: the connection table (\<open>src/src/frfw/conntrack.py\<close>), the lines of the
  resolver's query log (\<open>dnsmasq_message\<close> of \<open>src/src/frfw/adblock/dns_service.py\<close> and the patterns of
  \<open>src/src/frfw/ai_ids/daemon.py\<close>), and the names that look generated (\<open>src/src/frfw/adblock/dga.py\<close>).

  The table's file is its text, \<open>None\<close> where it does not exist.  Patterns are predicates on text; \<open>$\<close> also matches before
  a newline at the end.
\<close>

subsection \<open>The connection table (conntrack.py)\<close>

record conntrack_flow =
  fl_proto :: string
  fl_src :: string
  fl_sport :: int
  fl_dst :: string
  fl_dport :: int

text \<open>\<open>int(text)\<close> of a word: a sign, and digits that single underscores may separate.\<close>

definition to_int :: "string \<Rightarrow> int option" where
  "to_int s =
     (let neg = starts_with s ''-''; digits = (if neg \<or> starts_with s ''+'' then drop 1 s else s); ps = split_on CHR ''_'' digits
      in if list_all (\<lambda>p. p \<noteq> [] \<and> list_all is_digit p) ps
         then Some ((if neg then - 1 else 1) * int (read_digits 0 (concat ps))) else None)"

record flow_tokens =
  tk_src :: "string option"
  tk_dst :: "string option"
  tk_sport :: "int option"
  tk_dport :: "int option"

definition note_token :: "string \<Rightarrow> flow_tokens \<Rightarrow> flow_tokens" where
  "note_token token f =
     (if tk_src f = None \<and> starts_with token ''src='' then f\<lparr>tk_src := Some (drop 4 token)\<rparr>
      else if tk_dst f = None \<and> starts_with token ''dst='' then f\<lparr>tk_dst := Some (drop 4 token)\<rparr>
      else if tk_sport f = None \<and> starts_with token ''sport='' then f\<lparr>tk_sport := to_int (drop 6 token)\<rparr>
      else if tk_dport f = None \<and> starts_with token ''dport='' then f\<lparr>tk_dport := to_int (drop 6 token)\<rparr>
      else f)"

definition tokens_complete :: "flow_tokens \<Rightarrow> bool" where
  "tokens_complete f \<longleftrightarrow> tk_src f \<noteq> None \<and> tk_dst f \<noteq> None \<and> tk_sport f \<noteq> None \<and> tk_dport f \<noteq> None"

fun scan_tokens :: "string list \<Rightarrow> flow_tokens \<Rightarrow> flow_tokens" where
  "scan_tokens [] f = f"
| "scan_tokens (t # ts) f = (let f' = note_token t f in if tokens_complete f' then f' else scan_tokens ts f')"

definition parse_conntrack_line :: "string \<Rightarrow> conntrack_flow option" where
  "parse_conntrack_line line =
     (let parts = split_ws line in
      if length parts < 5 then None
      else if parts ! 2 \<notin> {''tcp'', ''udp''} then None
      else let f = scan_tokens parts \<lparr>tk_src = None, tk_dst = None, tk_sport = None, tk_dport = None\<rparr> in
        case (tk_src f, tk_dst f, tk_sport f, tk_dport f) of
          (Some s, Some d, Some sp, Some dp) \<Rightarrow> Some \<lparr>fl_proto = parts ! 2, fl_src = s, fl_sport = sp, fl_dst = d, fl_dport = dp\<rparr>
        | _ \<Rightarrow> None)"

definition read_snapshot :: "string option \<Rightarrow> conntrack_flow list" where
  "read_snapshot f = (case f of None \<Rightarrow> [] | Some s \<Rightarrow> List.map_filter parse_conntrack_line (splitlines s))"

text \<open>Once the original direction is complete, what comes behind it (the reply direction) changes nothing.\<close>

lemma scan_complete: "tokens_complete f \<Longrightarrow> fold note_token ts f = f"
  by (induction ts) (auto simp: tokens_complete_def note_token_def)

lemma scan_tokens_fold: "scan_tokens ts f = fold note_token ts f"
  by (induction ts arbitrary: f) (auto simp: Let_def scan_complete)

lemma original_direction: "tokens_complete (scan_tokens ts f) \<Longrightarrow> scan_tokens (ts @ us) f = scan_tokens ts f"
  by (simp add: scan_tokens_fold scan_complete)

subsection \<open>The query log\<close>

text \<open>\<open>^[A-Z][a-z]{2} [ \d]\d \d\d:\d\d:\d\d dnsmasq\[\d+\]: \<close> in front of the message.\<close>

definition log_stamp :: "string \<Rightarrow> bool" where
  "log_stamp s \<longleftrightarrow> length s = 15 \<and> is_upper (s ! 0) \<and> is_lower (s ! 1) \<and> is_lower (s ! 2) \<and> s ! 3 = CHR '' '' \<and> (s ! 4 = CHR '' '' \<or> is_digit (s ! 4))
     \<and> is_digit (s ! 5) \<and> s ! 6 = CHR '' '' \<and> is_digit (s ! 7) \<and> is_digit (s ! 8) \<and> s ! 9 = CHR '':'' \<and> is_digit (s ! 10) \<and> is_digit (s ! 11)
     \<and> s ! 12 = CHR '':'' \<and> is_digit (s ! 13) \<and> is_digit (s ! 14)"

definition dnsmasq_message :: "string \<Rightarrow> string" where
  "dnsmasq_message line =
     (let r = drop 15 line; pid = takeWhile is_digit (drop 9 r); rest = dropWhile is_digit (drop 9 r) in
      if log_stamp (take 15 line) \<and> starts_with r '' dnsmasq['' \<and> pid \<noteq> [] \<and> starts_with rest '']: '' then drop 3 rest else line)"

text \<open>\<open>.+$\<close>\<close>

definition dot_plus_end :: "string \<Rightarrow> string option" where
  "dot_plus_end s = (let t = (if s \<noteq> [] \<and> last s = LF then butlast s else s) in if t \<noteq> [] \<and> LF \<notin> set t then Some t else None)"

definition client_char :: "char \<Rightarrow> bool" where
  "client_char c \<longleftrightarrow> is_hex_lower c \<or> in_range 65 70 c \<or> c = CHR '':'' \<or> c = CHR ''.''"

definition dns_line :: "string \<Rightarrow> (string \<times> string) option" where
  "dns_line s =
     (let serial = takeWhile is_digit s; r1 = dropWhile is_digit s;
          client = takeWhile client_char (drop 1 r1); r2 = dropWhile client_char (drop 1 r1);
          port = takeWhile is_digit (drop 1 r2); r3 = dropWhile is_digit (drop 1 r2) in
      if serial \<noteq> [] \<and> starts_with r1 '' '' \<and> client \<noteq> [] \<and> starts_with r2 ''/'' \<and> port \<noteq> [] \<and> starts_with r3 '' ''
      then map_option (\<lambda>rest. (client, rest)) (dot_plus_end (drop 1 r3)) else None)"

definition word :: "string \<Rightarrow> bool" where
  "word s \<longleftrightarrow> s \<noteq> [] \<and> list_all (\<lambda>c. \<not> is_space c) s"

definition dns_nxdomain :: "string \<Rightarrow> string option" where
  "dns_nxdomain rest =
     (case split_on CHR '' '' rest of
        [kw, name, is_word, answer] \<Rightarrow> if (kw = ''reply'' \<or> kw = ''cached'') \<and> word name \<and> is_word = ''is'' \<and> answer = ''NXDOMAIN'' then Some name else None
      | _ \<Rightarrow> None)"

definition dns_hosts_block :: "string \<Rightarrow> string option" where
  "dns_hosts_block rest =
     (case split_on CHR '' '' rest of
        [file, name, is_word, answer] \<Rightarrow>
          if starts_with file ''/'' \<and> word (drop 1 file) \<and> word name \<and> is_word = ''is'' \<and> (answer = ''0.0.0.0'' \<or> answer = ''::'') then Some file else None
      | _ \<Rightarrow> None)"

subsection \<open>Generated names (dga.py)\<close>

definition SLD_PUBLIC :: "string list" where
  "SLD_PUBLIC = [''co'', ''com'', ''net'', ''org'', ''gov'', ''edu'', ''ac'', ''or'', ''ne'', ''go'', ''gob'', ''nic'', ''ltd'', ''plc'']"

definition COMMON_BIGRAMS :: "string list" where
  "COMMON_BIGRAMS = split_ws (''th he in er an re on at en nd ti es or te of ed is it al ar st to nt ng se ha as ou io le ''
     @ ''ve co me de hi ri ro ic ne ea ra ce li ch ll be ma si om ur ca el ta la ns di fo ho pe ec pr no ''
     @ ''ct us ac ot il tr ly nc et ut ss so rs un lo wa ge ie wh ee wi em ad ol rt po we na ul ni ts mo ''
     @ ''ow pa im mi ai sh ir su id os iv ia am fi ci vi pl ig tu ev ld ry mp fe bl ab gh ty op wo sa ay ''
     @ ''ex ke fr oo av ag if ap gr od bo sp rd do uc bu ei ov by rm ep tt oc fa ef cu rn sc gi da yo cr ''
     @ ''cl du ga qu ue ff ba ey ls va um pp ua up lu go ht ru ug ds lt pi rc rr eg au ck ew mu br bi pt ''
     @ ''ak pu ui rg ib tl ny ki rk ys ob mm fu ph og ms ye ud mb ip ub oi rl gu dr hr cc tw ft wn nu af ''
     @ ''hu nn eo vo rv nf xp gn sm fl iz ok nl my gl aw ju oa eq sy sl ps jo'')"

definition MIN_LENGTH :: nat where "MIN_LENGTH = 10"
definition MIN_ENTROPY :: real where "MIN_ENTROPY = 3"
definition MAX_COMMON_BIGRAM_RATIO :: rat where "MAX_COMMON_BIGRAM_RATIO = 40 / 100"

definition label_re :: "string \<Rightarrow> bool" where
  "label_re s \<longleftrightarrow> s \<noteq> [] \<and> list_all (\<lambda>c. is_lower c \<or> is_digit c \<or> c = CHR ''-'') s"

definition registered_label :: "string \<Rightarrow> string option" where
  "registered_label name =
     (let labels = split_on CHR ''.'' (rstrip_dots (lower name)) in
      if length labels < 2 \<or> [] \<in> set labels then None
      else
        let ls = butlast labels; ls' = (if length ls \<ge> 2 \<and> last ls \<in> set SLD_PUBLIC then butlast ls else ls); label = last ls'
        in if label_re label then Some label else None)"

definition shannon_entropy :: "string \<Rightarrow> real" where
  "shannon_entropy s =
     (if s = [] then 0
      else - sum_list (map (\<lambda>c. let p = of_nat (count_list s c) / of_nat (length s) in p * log 2 p) (remdups s)))"

definition letter_pairs :: "string \<Rightarrow> string list" where
  "letter_pairs s = filter (list_all (\<lambda>c. is_lower c \<or> is_upper c)) (map (\<lambda>i. [s ! i, s ! Suc i]) [0..<length s - 1])"

definition common_bigram_ratio :: "string \<Rightarrow> rat" where
  "common_bigram_ratio s =
     (let pairs = letter_pairs s in
      if pairs = [] then 0 else of_nat (length (filter (\<lambda>p. p \<in> set COMMON_BIGRAMS) pairs)) / of_nat (length pairs))"

definition looks_generated :: "string \<Rightarrow> bool" where
  "looks_generated name =
     (case registered_label name of
        None \<Rightarrow> False
      | Some label \<Rightarrow>
          if starts_with label ''xn--'' then False
          else let compact = filter (\<lambda>c. c \<noteq> CHR ''-'') label in
            length compact \<ge> MIN_LENGTH \<and> shannon_entropy compact \<ge> MIN_ENTROPY \<and> common_bigram_ratio compact < MAX_COMMON_BIGRAM_RATIO)"

end
