(* ===== verification/Ids_Daemon.thy ===== *)
theory Ids_Daemon
  imports Anomaly Sensor_Input Quarantine
begin

text \<open>
  The intrusion detection daemon (\<open>src/src/frfw/ai_ids/daemon.py\<close>): which hosts it scores, what it feeds the engine, whom it asks
  the helper to quarantine; and the sample of the connection table the helper gives it (\<open>_handle_conntrack_sample\<close> of
  \<open>src/src/frfw/helper/server.py\<close>).

  A line of the event file is its JSON, \<open>None\<close> where it has none.  A sample is the helper's list of flows with the
  MAC it found for an IPv6 source, \<open>None\<close> where the helper did not answer; \<open>answer\<close> is what it says to a
  quarantine request (\<open>None\<close>: no answer).  \<open>gateways\<close> and \<open>servers\<close> are the texts of the kernel's routes and of the
  resolver's configuration.

  Only hosts inside are scored, by address or (over IPv6) by MAC, and neither an excluded device nor, by its IPv4
  address, a part of the infrastructure is ever quarantined.
\<close>

subsection \<open>Who is inside, and who is left alone\<close>

definition resolve_excluded_ips :: "config \<Rightarrow> string list" where
  "resolve_excluded_ips cfg =
     concat (map (\<lambda>(_, pool). map res_address (filter (\<lambda>r. res_mac_address r \<in> set (excluded_macs (ai_ids cfg))) (reservations pool))) (dhcp_zones cfg))"

definition internal_networks :: "config \<Rightarrow> ip_network list" where
  "internal_networks cfg =
     (let outside = map out_zone (nat_masquerade (nat_cfg cfg));
          inside = filter (\<lambda>(_, i). if_zone i \<notin> set outside) (interfaces cfg);
          nets = List.map_filter (\<lambda>(_, i). case if_address i of None \<Rightarrow> None | Some a \<Rightarrow> map_option interface_network (ipv4_interface a)) inside;
          vpn = (if wg_enabled (wireguard cfg) then List.map_filter (\<lambda>a. map_option interface_network (ipv4_interface a)) [wg_address (wireguard cfg)] else [])
      in sort_key net_address (sort_key net_prefixlen (remdups (nets @ vpn))))"

fun read_hex :: "int \<Rightarrow> string \<Rightarrow> int" where
  "read_hex n [] = n"
| "read_hex n (c # s) = read_hex (16 * n + (if is_digit c then of_char c - 48 else of_char (lower_char c) - 87)) s"

text \<open>
  An address of \<open>/proc/net/route\<close>: hexadecimal, lowest octet first.  The kernel prints eight digits; a longer number would raise
  \<open>OverflowError\<close> in \<open>to_bytes\<close>, and is passed over here.
\<close>

definition little_endian :: "string \<Rightarrow> int option" where
  "little_endian s =
     (if s \<noteq> [] \<and> list_all (\<lambda>c. is_hex_lower (lower_char c)) s \<and> read_hex 0 s < 2 ^ 32 then
        let x = read_hex 0 s in Some (x mod 256 * 2 ^ 24 + x div 256 mod 256 * 2 ^ 16 + x div 2 ^ 16 mod 256 * 2 ^ 8 + x div 2 ^ 24)
      else None)"

definition default_gateways :: "string option \<Rightarrow> string list" where
  "default_gateways routes =
     (case routes of None \<Rightarrow> []
      | Some s \<Rightarrow> List.map_filter (\<lambda>line. let fs = split_ws line in
          if length fs < 3 \<or> fs ! 1 \<noteq> ''00000000'' then None
          else case little_endian (fs ! 2) of None \<Rightarrow> None | Some x \<Rightarrow> if x = 0 then None else Some (show_ipv4 x)) (drop 1 (splitlines s)))"

definition resolv_nameservers :: "string option \<Rightarrow> string list" where
  "resolv_nameservers conf =
     (case conf of None \<Rightarrow> []
      | Some s \<Rightarrow> List.map_filter (\<lambda>line. let fs = split_ws line in
          if length fs \<ge> 2 \<and> fs ! 0 = ''nameserver'' then map_option show_ipv4 (ipv4_address (fs ! 1)) else None) (splitlines s))"

definition infrastructure_ips :: "config \<Rightarrow> string option \<Rightarrow> string option \<Rightarrow> string list" where
  "infrastructure_ips cfg routes conf =
     map show_ipv4 (own_addresses cfg) @ concat (map (\<lambda>(_, pool). dns_servers pool) (dhcp_zones cfg))
     @ default_gateways routes @ resolv_nameservers conf"

subsection \<open>The sample (helper/server.py)\<close>

definition CONNTRACK_SAMPLE_MAX_FLOWS :: nat where "CONNTRACK_SAMPLE_MAX_FLOWS = 65536"

type_synonym sample = "(conntrack_flow \<times> string option) list"

definition handle_conntrack_sample :: "quarantine_env \<Rightarrow> config option \<Rightarrow> string option \<Rightarrow> sample" where
  "handle_conntrack_sample env cfg tracked =
     (let flows = take CONNTRACK_SAMPLE_MAX_FLOWS (read_snapshot tracked);
          macs = (if list_ex (\<lambda>f. CHR '':'' \<in> set (fl_src f)) flows then lan_neighbours env (lan_device_names cfg) V6 else [])
      in map (\<lambda>f. (f, if CHR '':'' \<in> set (fl_src f)
           then (case read_address env (fl_src f) of None \<Rightarrow> None | Some a \<Rightarrow> map_of macs (show_py_address a)) else None)) flows)"

subsection \<open>The daemon\<close>

definition RECENT_EVENTS_LIMIT :: nat where "RECENT_EVENTS_LIMIT = 50"
definition IPV6_LABELS_LIMIT :: nat where "IPV6_LABELS_LIMIT = 4096"
definition THREAT_CATEGORIES :: "string list" where "THREAT_CATEGORIES = [''malware'', ''phishing'']"
definition ADBLOCK_CATEGORY_DIR :: string where "ADBLOCK_CATEGORY_DIR = ''/etc/fr_os/adblock.d''"

record ids_daemon =
  ids_config :: config
  ids_engine :: anomaly_engine
  ids_ipv6_macs :: "(string, string) dict"
  ids_mac_address :: "(string, string) dict"
  ids_known_flows :: "conntrack_flow list"
  ids_requests :: "(string \<times> int) list"
  ids_events :: "(anomaly_event \<times> string) list"

definition ids_init :: "config \<Rightarrow> ids_daemon" where
  "ids_init cfg = \<lparr>ids_config = cfg, ids_engine = engine_init ENGINE_WINDOW_SECONDS ZSCORE_THRESHOLD, ids_ipv6_macs = [], ids_mac_address = [],
     ids_known_flows = [], ids_requests = [], ids_events = []\<rparr>"

definition threat_files :: "config \<Rightarrow> string list" where
  "threat_files cfg = map (\<lambda>n. ADBLOCK_CATEGORY_DIR @ ''/'' @ n @ ''.hosts'')
     (filter (\<lambda>n. n \<in> fst ` set (adblock_categories (adblocker cfg))) THREAT_CATEGORIES)"

definition is_internal :: "config \<Rightarrow> string \<Rightarrow> bool" where
  "is_internal cfg ip = (case ipv4_address ip of None \<Rightarrow> False | Some x \<Rightarrow> list_ex (in_network V4 x) (internal_networks cfg))"

definition ids_source :: "quarantine_env \<Rightarrow> ids_daemon \<Rightarrow> string \<Rightarrow> string option" where
  "ids_source env d ip =
     (if CHR '':'' \<notin> set ip then (if is_internal (ids_config d) ip then Some ip else None)
      else case read_ipv6 env ip of None \<Rightarrow> None | Some (x, scope) \<Rightarrow> map_of (ids_ipv6_macs d) (show_py_address (IPv6Address x scope)))"

definition feed :: "seconds \<Rightarrow> (string \<Rightarrow> observation) \<Rightarrow> string option \<Rightarrow> ids_daemon \<Rightarrow> ids_daemon" where
  "feed now ob source_key d = (case source_key of None \<Rightarrow> d | Some k \<Rightarrow> d\<lparr>ids_engine := observe now (ob k) (ids_engine d)\<rparr>)"

definition handle_sni_event_line :: "quarantine_env \<Rightarrow> seconds \<Rightarrow> pyval option \<Rightarrow> ids_daemon \<Rightarrow> ids_daemon" where
  "handle_sni_event_line env now line d =
     (case line of
        Some (VDict f) \<Rightarrow>
          if json_get (VDict f) ''action'' \<noteq> VStr ''drop'' then d
          else feed now SniBlock (case json_get (VDict f) ''saddr'' of VStr ip \<Rightarrow> ids_source env d ip | _ \<Rightarrow> None) d
      | _ \<Rightarrow> d)"

definition handle_dns_log_line :: "quarantine_env \<Rightarrow> seconds \<Rightarrow> string \<Rightarrow> ids_daemon \<Rightarrow> ids_daemon" where
  "handle_dns_log_line env now line d =
     (case dns_line (dnsmasq_message line) of
        None \<Rightarrow> d
      | Some (address, rest) \<Rightarrow>
         (case (dns_nxdomain rest, dns_hosts_block rest) of
            (Some name, _) \<Rightarrow> feed now (\<lambda>k. Nxdomain k (lower name) (looks_generated (lower name))) (ids_source env d address) d
          | (None, Some file) \<Rightarrow> if file \<in> set (threat_files (ids_config d)) then feed now ThreatBlock (ids_source env d address) d else d
          | (None, None) \<Rightarrow> d))"

definition note_label :: "quarantine_env \<Rightarrow> conntrack_flow \<times> string option \<Rightarrow> (string, string) dict \<Rightarrow> (string, string) dict" where
  "note_label env f labels =
     (case f of
        (fl, Some mac) \<Rightarrow>
          if CHR '':'' \<in> set (fl_src fl) \<and> mac_re (lower mac) then
            (case read_ipv6 env (fl_src fl) of None \<Rightarrow> labels | Some (x, scope) \<Rightarrow> AList.update (show_py_address (IPv6Address x scope)) (lower mac) labels)
          else labels
      | (_, None) \<Rightarrow> labels)"

definition learn_ipv6_labels :: "quarantine_env \<Rightarrow> sample \<Rightarrow> ids_daemon \<Rightarrow> ids_daemon" where
  "learn_ipv6_labels env flows d =
     (let labels = fold (note_label env) flows [];
          kept = (if length (ids_ipv6_macs d) + length labels > IPV6_LABELS_LIMIT then [] else ids_ipv6_macs d)
      in d\<lparr>ids_ipv6_macs := fold (\<lambda>(a, m). AList.update a m) labels kept,
           ids_mac_address := fold (\<lambda>(a, m). AList.update m a) labels (ids_mac_address d)\<rparr>)"

definition note_flow :: "quarantine_env \<Rightarrow> seconds \<Rightarrow> conntrack_flow \<times> string option \<Rightarrow> ids_daemon \<Rightarrow> ids_daemon" where
  "note_flow env now f d =
     (if fst f \<in> set (ids_known_flows d) then d else feed now (\<lambda>k. Connection k (fl_dst (fst f))) (ids_source env d (fl_src (fst f))) d)"

definition poll_conntrack_once :: "quarantine_env \<Rightarrow> seconds \<Rightarrow> sample option \<Rightarrow> ids_daemon \<Rightarrow> ids_daemon" where
  "poll_conntrack_once env now sample d =
     (case sample of None \<Rightarrow> d
      | Some flows \<Rightarrow> (fold (note_flow env now) flows (learn_ipv6_labels env flows d))\<lparr>ids_known_flows := remdups (map fst flows)\<rparr>)"

definition append_event_log :: "anomaly_event \<Rightarrow> string \<Rightarrow> ids_daemon \<Rightarrow> ids_daemon" where
  "append_event_log e mac d =
     d\<lparr>ids_events := (let es = ids_events d @ [(e, mac)] in drop (length es - RECENT_EVENTS_LIMIT) es)\<rparr>"

definition enforce :: "(string \<Rightarrow> bool option) \<Rightarrow> anomaly_event \<Rightarrow> ids_daemon \<Rightarrow> ids_daemon" where
  "enforce answer e d =
     (let mac = (if mac_re (ev_ip e) then ev_ip e else []) in
      case (if mac \<noteq> [] then map_of (ids_mac_address d) mac else Some (ev_ip e)) of
        None \<Rightarrow> d
      | Some target \<Rightarrow>
         (let d' = d\<lparr>ids_requests := ids_requests d @ [(target, quarantine_duration_seconds (ai_ids (ids_config d)))]\<rparr>
          in if answer target = Some True then append_event_log (e\<lparr>ev_ip := target\<rparr>) mac d' else d'))"

definition judge_host :: "seconds \<Rightarrow> string list \<Rightarrow> (string \<Rightarrow> bool option) \<Rightarrow> string \<Rightarrow> anomaly_event list \<times> ids_daemon \<Rightarrow> anomaly_event list \<times> ids_daemon" where
  "judge_host now infrastructure answer ip s =
     (case s of (flagged, d) \<Rightarrow>
       (case evaluate now ip (ids_engine d) of
          (None, eng) \<Rightarrow> (flagged, d\<lparr>ids_engine := eng\<rparr>)
        | (Some e, eng) \<Rightarrow>
           (let d1 = d\<lparr>ids_engine := eng\<rparr> in
            (flagged @ [e],
             if ip \<in> set (resolve_excluded_ips (ids_config d)) \<or> ip \<in> set (excluded_macs (ai_ids (ids_config d))) \<or> ip \<in> set infrastructure then d1
             else enforce answer e d1))))"

definition evaluate_and_enforce :: "seconds \<Rightarrow> string option \<Rightarrow> string option \<Rightarrow> (string \<Rightarrow> bool option) \<Rightarrow> ids_daemon \<Rightarrow> anomaly_event list \<times> ids_daemon" where
  "evaluate_and_enforce now routes conf answer d =
     fold (judge_host now (infrastructure_ips (ids_config d) routes conf) answer) (tracked_ips (ids_engine d)) ([], d)"

subsection \<open>Whom it asks to quarantine\<close>

inductive ids_reaches :: "config \<Rightarrow> ids_daemon \<Rightarrow> bool" for cfg where
  start: "ids_reaches cfg (ids_init cfg)"
| sni: "ids_reaches cfg d \<Longrightarrow> ids_reaches cfg (handle_sni_event_line env now line d)"
| dns: "ids_reaches cfg d \<Longrightarrow> ids_reaches cfg (handle_dns_log_line env now dns_text d)"
| poll: "ids_reaches cfg d \<Longrightarrow> ids_reaches cfg (poll_conntrack_once env now sample d)"
| judge: "ids_reaches cfg d \<Longrightarrow> evaluate_and_enforce now routes conf answer d = (flagged, d') \<Longrightarrow> ids_reaches cfg d'"

text \<open>A key the daemon scores: an internal IPv4 address, or a MAC it has learned an IPv6 address for.\<close>

definition scored_key :: "config \<Rightarrow> (string, string) dict \<Rightarrow> string \<Rightarrow> bool" where
  "scored_key cfg addresses k \<longleftrightarrow> is_internal cfg k \<or> mac_re k \<and> map_of addresses k \<noteq> None"

definition ids_ok :: "config \<Rightarrow> ids_daemon \<Rightarrow> bool" where
  "ids_ok cfg d \<longleftrightarrow> ids_config d = cfg \<and> (\<forall>k\<in>set (tracked_ips (ids_engine d)). scored_key cfg (ids_mac_address d) k)
     \<and> (\<forall>a m. map_of (ids_ipv6_macs d) a = Some m \<longrightarrow> mac_re m \<and> map_of (ids_mac_address d) m \<noteq> None)"

lemma feed_ok: "ids_ok cfg d \<Longrightarrow> (\<And>k. observed_ip (ob k) = k) \<Longrightarrow> s = ids_source env d ip \<Longrightarrow> ids_ok cfg (feed now ob s d)"
proof -
  assume ok: "ids_ok cfg d" and ob: "\<And>k. observed_ip (ob k) = k" and s: "s = ids_source env d ip"
  show ?thesis
  proof (cases s)
    case (Some k)
    have "scored_key cfg (ids_mac_address d) k"
      using ok s Some by (auto simp: ids_source_def ids_ok_def scored_key_def split: if_splits option.splits prod.splits)
    then have "\<forall>j\<in>set (tracked_ips (observe now (ob k) (ids_engine d))). scored_key cfg (ids_mac_address d) j"
      using ok ob by (intro scoring.note_keeps) (simp_all add: ids_ok_def)
    with ok Some show ?thesis by (simp add: feed_def ids_ok_def)
  qed (use ok in \<open>simp add: feed_def\<close>)
qed

lemma sni_ok: "ids_ok cfg d \<Longrightarrow> ids_ok cfg (handle_sni_event_line env now line d)"
proof -
  assume ok: "ids_ok cfg d"
  have "ids_ok cfg (feed now SniBlock None d)" using ok by (simp add: feed_def)
  with ok feed_ok [OF ok, of SniBlock, OF _ refl] show ?thesis
    by (auto simp: handle_sni_event_line_def split: option.splits pyval.splits)
qed

lemma dns_ok: "ids_ok cfg d \<Longrightarrow> ids_ok cfg (handle_dns_log_line env now dns_text d)"
  using feed_ok [OF _ _ refl, of cfg d] by (auto simp: handle_dns_log_line_def split: option.splits prod.splits)

lemma note_label_macs: "\<forall>(a, m)\<in>set labels. mac_re m \<Longrightarrow> \<forall>(a, m)\<in>set (note_label env f labels). mac_re m"
  using set_AList_update by (fastforce simp: note_label_def split: prod.splits option.splits if_splits)

lemma fold_addresses: "map_of (fold (\<lambda>(a, m). AList.update m a) ls d) k \<noteq> None \<longleftrightarrow> k \<in> snd ` set ls \<or> map_of d k \<noteq> None"
  by (induction ls arbitrary: d) (auto simp: update_conv' split: prod.splits)

lemma fold_labels: "map_of (fold (\<lambda>(a, m). AList.update a m) ls d) k = Some v \<Longrightarrow> (k, v) \<in> set ls \<or> map_of d k = Some v"
  by (induction ls arbitrary: d) (fastforce simp: update_conv' split: prod.splits if_splits)+

lemma learn_ok: "ids_ok cfg d \<Longrightarrow> ids_ok cfg (learn_ipv6_labels env flows d)"
proof -
  assume ok: "ids_ok cfg d"
  let ?labels = "fold (note_label env) flows []"
  have macs: "\<forall>(a, m)\<in>set ?labels. mac_re m"
    by (rule fold_invariant [where Q = "\<lambda>_. True" and P = "\<lambda>ls. \<forall>(a, m)\<in>set ls. mac_re m"]) (simp_all add: note_label_macs)
  have "mac_re m \<and> map_of (fold (\<lambda>(a, m). AList.update m a) ?labels (ids_mac_address d)) m \<noteq> None"
    if k: "map_of (fold (\<lambda>(a, m). AList.update a m) ?labels kept) a = Some m" "kept = [] \<or> kept = ids_ipv6_macs d" for kept a m
    unfolding fold_addresses
  proof -
    from fold_labels [OF k(1)] k(2) have "(a, m) \<in> set ?labels \<or> map_of (ids_ipv6_macs d) a = Some m" by auto
    with macs ok show "mac_re m \<and> (m \<in> snd ` set ?labels \<or> map_of (ids_mac_address d) m \<noteq> None)"
      unfolding ids_ok_def by (metis (mono_tags, lifting) case_prodD image_eqI snd_conv)
  qed
  with ok show ?thesis
    unfolding learn_ipv6_labels_def Let_def ids_ok_def scored_key_def by (auto simp: fold_addresses simp del: not_None_eq)
qed

lemma poll_ok:
  assumes "ids_ok cfg d"
  shows "ids_ok cfg (poll_conntrack_once env now sample d)"
proof (cases sample)
  case (Some flows)
  have "ids_ok cfg (fold (note_flow env now) flows (learn_ipv6_labels env flows d))"
    by (rule fold_invariant [where Q = "\<lambda>_. True" and P = "ids_ok cfg"])
      (simp_all add: learn_ok assms note_flow_def feed_ok [OF _ _ refl])
  with Some show ?thesis by (simp add: poll_conntrack_once_def ids_ok_def)
qed (use assms in \<open>simp add: poll_conntrack_once_def\<close>)

definition may_request :: "config \<Rightarrow> string list \<Rightarrow> (string, string) dict \<Rightarrow> string \<times> int \<Rightarrow> bool" where
  "may_request cfg infrastructure addresses r \<longleftrightarrow> snd r = quarantine_duration_seconds (ai_ids cfg) \<and>
     (is_internal cfg (fst r) \<and> fst r \<notin> set infrastructure \<and> fst r \<notin> set (resolve_excluded_ips cfg)
      \<or> (\<exists>mac. mac_re mac \<and> mac \<notin> set (excluded_macs (ai_ids cfg)) \<and> map_of addresses mac = Some (fst r)))"

definition judging :: "config \<Rightarrow> string list \<Rightarrow> ids_daemon \<Rightarrow> anomaly_event list \<times> ids_daemon \<Rightarrow> bool" where
  "judging cfg infrastructure d s \<longleftrightarrow> ids_ok cfg (snd s) \<and> ids_mac_address (snd s) = ids_mac_address d
     \<and> set (ids_requests (snd s)) \<subseteq> set (ids_requests d) \<union> {r. may_request cfg infrastructure (ids_mac_address d) r}"

lemma enforce_fields [simp]:
  "ids_config (enforce answer e d) = ids_config d" "ids_engine (enforce answer e d) = ids_engine d"
  "ids_mac_address (enforce answer e d) = ids_mac_address d" "ids_ipv6_macs (enforce answer e d) = ids_ipv6_macs d"
  by (simp_all add: enforce_def append_event_log_def Let_def split: option.split)

lemma enforce_requests:
  "set (ids_requests (enforce answer e d)) \<subseteq> set (ids_requests d) \<union> {(t, quarantine_duration_seconds (ai_ids (ids_config d))) | t.
     if mac_re (ev_ip e) then map_of (ids_mac_address d) (ev_ip e) = Some t else t = ev_ip e}"
proof -
  have "mac_re s \<Longrightarrow> s \<noteq> []" for s by (auto simp: mac_re_def)
  then show ?thesis by (auto simp: enforce_def append_event_log_def Let_def split: option.splits if_splits)
qed

lemma judge_host_judging:
  assumes s: "judging cfg infrastructure d s" and ip: "scored_key cfg (ids_mac_address d) ip"
  shows "judging cfg infrastructure d (judge_host now infrastructure answer ip s)"
proof -
  obtain flagged d1 where d1: "s = (flagged, d1)" by fastforce
  obtain r eng where r: "evaluate now ip (ids_engine d1) = (r, eng)" by fastforce
  let ?d = "d1\<lparr>ids_engine := eng\<rparr>"
  have cfg: "ids_config d1 = cfg" and addr: "ids_mac_address d1 = ids_mac_address d"
    using s d1 by (auto simp: judging_def ids_ok_def)
  have "\<forall>k\<in>set (tracked_ips eng). scored_key cfg (ids_mac_address d) k"
    using scoring.score_keeps [of "ids_engine d1" "scored_key cfg (ids_mac_address d)" now ip] s d1 r by (auto simp: judging_def ids_ok_def)
  then have eng: "ids_ok cfg ?d" "judging cfg infrastructure d (fs, ?d)" for fs using s d1 by (auto simp: judging_def ids_ok_def)
  show ?thesis
  proof (cases "\<exists>e. r = Some e \<and> ip \<notin> set (resolve_excluded_ips cfg) \<and> ip \<notin> set (excluded_macs (ai_ids cfg)) \<and> ip \<notin> set infrastructure")
    case True
    then obtain e where e: "r = Some e" and out: "ip \<notin> set (resolve_excluded_ips cfg)" "ip \<notin> set (excluded_macs (ai_ids cfg))" "ip \<notin> set infrastructure" by blast
    have host: "ev_ip e = ip" using scoring.score_host [of now ip "ids_engine d1" e] r e by simp
    have may: "may_request cfg infrastructure (ids_mac_address d) (t, quarantine_duration_seconds (ai_ids cfg))"
      if "if mac_re ip then map_of (ids_mac_address d) ip = Some t else t = ip" for t
      using that out ip by (auto simp: may_request_def scored_key_def split: if_splits)
    have "set (ids_requests (enforce answer e ?d)) \<subseteq> set (ids_requests d1) \<union> {(t, quarantine_duration_seconds (ai_ids cfg)) | t.
        if mac_re ip then map_of (ids_mac_address d) ip = Some t else t = ip}"
    proof -
      have "ids_mac_address ?d = ids_mac_address d" "ids_config ?d = cfg" "ids_requests ?d = ids_requests d1" by (simp_all add: cfg addr)
      with enforce_requests [of answer e ?d] show ?thesis unfolding host by metis
    qed
    also have "\<dots> \<subseteq> set (ids_requests d1) \<union> {r. may_request cfg infrastructure (ids_mac_address d) r}" using may by blast
    finally have "set (ids_requests (enforce answer e ?d)) \<subseteq> set (ids_requests d1) \<union> {r. may_request cfg infrastructure (ids_mac_address d) r}" .
    then have "judging cfg infrastructure d (flagged @ [e], enforce answer e ?d)"
      using eng s d1 by (auto simp: judging_def ids_ok_def)
    with d1 r e out cfg show ?thesis by (simp add: judge_host_def)
  qed (use d1 r eng cfg in \<open>auto simp: judge_host_def split: option.splits\<close>)
qed

lemma evaluate_judging:
  assumes "ids_ok cfg d"
  shows "judging cfg (infrastructure_ips cfg routes conf) d (evaluate_and_enforce now routes conf answer d)"
proof -
  have cfg: "ids_config d = cfg" using assms by (simp add: ids_ok_def)
  show ?thesis
    unfolding evaluate_and_enforce_def cfg
  proof (rule fold_invariant [where Q = "scored_key cfg (ids_mac_address d)"])
    show "judging cfg (infrastructure_ips cfg routes conf) d ([], d)" using assms by (simp add: judging_def)
    show "scored_key cfg (ids_mac_address d) ip" if "ip \<in> set (tracked_ips (ids_engine d))" for ip using assms that by (simp add: ids_ok_def)
  qed (rule judge_host_judging)
qed

lemma ids_reaches_ok: "ids_reaches cfg d \<Longrightarrow> ids_ok cfg d"
proof (induction rule: ids_reaches.induct)
  case start
  show ?case by (simp add: ids_ok_def ids_init_def tracked_ips_def engine_init_def)
next
  case (judge d now routes conf answer flagged d')
  with evaluate_judging [of cfg d routes conf now answer] show ?case by (simp add: judging_def)
qed (simp_all add: sni_ok dns_ok poll_ok)

text \<open>
  C38: whatever the daemon reads -- any lines, any samples, any answers -- an evaluation asks the helper to quarantine only
  for the configured time, and only an internal IPv4 address that is neither excluded nor the router's, a gateway's or a DNS server's,
  or the last IPv6 address learned for a MAC that is not excluded.
\<close>

theorem requests_justified:
  assumes "ids_reaches cfg d" and "evaluate_and_enforce now routes conf answer d = (flagged, d')"
  shows "set (ids_requests d') \<subseteq> set (ids_requests d)
    \<union> {r. may_request cfg (infrastructure_ips cfg routes conf) (ids_mac_address d) r}"
  using evaluate_judging [OF ids_reaches_ok [OF assms(1)], of routes conf now answer] assms(2) by (simp add: judging_def)


definition config2 :: config where
  "config2 = config1\<lparr>interfaces := [(''eth1'', (interface0 ''eth1'' ''lan'')\<lparr>if_address := Some ''10.0.0.1/24''\<rparr>)]\<rparr>"

definition drop_event :: "pyval option" where
  "drop_event = Some (VDict [(VStr ''action'', VStr ''drop''), (VStr ''saddr'', VStr ''10.0.0.5'')])"

definition daemon2 :: ids_daemon where
  "daemon2 = handle_sni_event_line env1 30 drop_event (handle_sni_event_line env1 20 drop_event (handle_sni_event_line env1 0 drop_event (ids_init config2)))"

lemma config2_sel [simp]: "interfaces config2 = [(''eth1'', (interface0 ''eth1'' ''lan'')\<lparr>if_address := Some ''10.0.0.1/24''\<rparr>)]"
  "wireguard config2 = wireguard config1" "nat_masquerade (nat_cfg config2) = [\<lparr>out_zone = ''wan''\<rparr>]" "dhcp_zones config2 = []"
  by (simp_all add: config2_def, simp add: config1_def config0_simps)

lemma internal2: "is_internal config2 ''10.0.0.5''"
proof -
  have "ipv4_interface ''10.0.0.1/24'' = Some (167772161, 24)" by code_simp
  moreover have "ipv4_address ''10.0.0.5'' = Some 167772165" by code_simp
  ultimately show ?thesis
    by (simp add: is_internal_def internal_networks_def map_filter_def interface_network_def in_network_def net_broadcast_def)
qed

lemma daemon2_reached: "ids_reaches config2 daemon2"
  unfolding daemon2_def by (intro ids_reaches.intros)

lemma daemon2_engine:
  "ids_config daemon2 = config2" "ids_requests daemon2 = []" "tracked_ips (ids_engine daemon2) = [''10.0.0.5'']"
  "eng_ips (ids_engine daemon2) = [(''10.0.0.5'', empty_window\<lparr>sni_block_ts := [0, 20, 30], win_last_seen := 30\<rparr>)]"
  "eng_window_seconds (ids_engine daemon2) = 60"
proof -
  have feed: "handle_sni_event_line env1 now drop_event d = d\<lparr>ids_engine := observe now (SniBlock ''10.0.0.5'') (ids_engine d)\<rparr>" if "ids_config d = config2" for now d
    using that internal2 by (simp add: handle_sni_event_line_def drop_event_def json_get_def feed_def ids_source_def)
  show "ids_config daemon2 = config2" "ids_requests daemon2 = []" "tracked_ips (ids_engine daemon2) = [''10.0.0.5'']"
    "eng_ips (ids_engine daemon2) = [(''10.0.0.5'', empty_window\<lparr>sni_block_ts := [0, 20, 30], win_last_seen := 30\<rparr>)]"
    "eng_window_seconds (ids_engine daemon2) = 60"
    by (simp_all add: daemon2_def feed ids_init_def engine_defs ENGINE_WINDOW_SECONDS_def tracked_ips_def)
qed

theorem requests_justified_witness:
  "\<exists>flagged d'. evaluate_and_enforce 40 None None (\<lambda>_. Some True) daemon2 = (flagged, d') \<and> ids_requests d' = [(''10.0.0.5'', 3600)]
     \<and> may_request config2 (infrastructure_ips config2 None None) (ids_mac_address daemon2) (''10.0.0.5'', 3600)"
proof -
  let ?w = "empty_window\<lparr>sni_block_ts := [0, 20, 30], win_last_seen := 30\<rparr>"
  have "window_event 60 t ''10.0.0.5'' (prune_window (40 - 60) ?w) \<noteq> None" for t
    by (simp add: window_event_def Let_def window_features_def engine_defs distinct_names_def score_feature_def MIN_BASELINE_SAMPLES_def floor_defs)
  then obtain e eng where e: "evaluate 40 ''10.0.0.5'' (ids_engine daemon2) = (Some e, eng)"
    by (auto simp: evaluate_def daemon2_engine Let_def)
  then have host: "ev_ip e = ''10.0.0.5''" using scoring.score_host [of 40 "''10.0.0.5''" "ids_engine daemon2" e] by simp
  have "ipv4_interface ''10.0.0.1/24'' = Some (167772161, 24)" by code_simp
  then have infra: "infrastructure_ips config2 None None = [''10.0.0.1'']"
    by (simp add: infrastructure_ips_def own_addresses_def map_filter_def default_gateways_def resolv_nameservers_def show_ipv4_def octet_def show_ip_simps)
  have "\<not> mac_re ''10.0.0.5''" by code_simp
  moreover have "quarantine_duration_seconds (ai_ids config2) = 3600" "excluded_macs (ai_ids config2) = []" "resolve_excluded_ips config2 = []"
    by (simp_all add: resolve_excluded_ips_def) (simp_all add: config2_def config1_def config0_simps)
  ultimately obtain flagged d' where d': "evaluate_and_enforce 40 None None (\<lambda>_. Some True) daemon2 = (flagged, d')" "ids_requests d' = [(''10.0.0.5'', 3600)]"
    by (simp add: evaluate_and_enforce_def daemon2_engine judge_host_def e infra enforce_def host append_event_log_def)
  from requests_justified [OF daemon2_reached d'(1)] d' show ?thesis by (auto simp: daemon2_engine)
qed


text \<open>
  The infrastructure is only known by IPv4 address: a DNS server on the LAN that is flagged for what it does over IPv6 is
  quarantined by its MAC, and the helper then holds its IPv4 address too.
\<close>

definition pool3 :: dhcp_pool where
  "pool3 = \<lparr>pool_zone = ''lan'', range_start = ''10.0.0.100'', range_end = ''10.0.0.200'', dns_servers = [''10.0.0.53''], lease_time = 3600, reservations = []\<rparr>"

definition config3 :: config where
  "config3 = config2\<lparr>dhcp_zones := [(''lan'', pool3)]\<rparr>"

definition env3 :: quarantine_env where
  "env3 = env1\<lparr>ip_neigh := (\<lambda>args. Inr (if args = [''-6'', ''neigh'', ''show'', ''to'', ''2001:db8::5''] then [entry1]
     else if args = [''-4'', ''neigh'', ''show''] then [entry1\<lparr>nb_dst := Some ''10.0.0.53''\<rparr>] else []))\<rparr>"

lemma infrastructure_held_by_mac:
  "''10.0.0.53'' \<in> set (infrastructure_ips config3 routes conf)"
  "(IDS_QUARANTINE_SET_NAME, ''10.0.0.53'', 3600) \<in> set (snd (quarantine_ip env3 ''2001:db8::5'' 3600 [''10.0.0.1''] [''eth1''] []))"
proof -
  show "''10.0.0.53'' \<in> set (infrastructure_ips config3 routes conf)"
    by (simp add: infrastructure_ips_def config3_def pool3_def)
  have dns: "ipv4_address ''10.0.0.53'' = Some 167772213" by code_simp
  have dns_text: "show_ipv4 167772213 = ''10.0.0.53''" by (simp add: show_ipv4_def octet_def show_ip_simps)
  have mac: "validate_mac (VStr ''02:00:00:00:00:05'') = Inr ''02:00:00:00:00:05''" by code_simp
  have env: "read_ipv6 env3 = read_ipv6 env1" "nft_result env3 = (\<lambda>_. None)" by (simp_all add: env3_def env1_def)
  have "read_address env3 ''2001:db8::5'' = Some (IPv6Address 0x20010db8000000000000000000000005 None)"
    by (simp add: read_address_def env) (simp add: env1_def)
  moreover from this have "lan_neighbour_mac env3 ''2001:db8::5'' [''eth1''] = Inr (Some ''02:00:00:00:00:05'')"
    by (simp add: lan_neighbour_mac_def validate_ipv6_def neigh_to_def neigh_read_def family_option_def env)
      (simp add: env1_def env3_def entry1_def same_address_def on_device_def usable_entry_def USABLE_NEIGH_STATES_def entry_text_def mac show_ipv6_1)
  moreover have "lan_ipv4_addresses env3 ''02:00:00:00:00:05'' [''eth1''] = [''10.0.0.53'']"
    by (simp add: lan_ipv4_addresses_def lan_neighbours_def neigh_show_def neigh_read_def family_option_def env3_def note_neighbour_def
      on_device_def usable_entry_def USABLE_NEIGH_STATES_def entry1_def entry_text_def mac read_address_def dns show_py_address_def dns_text)
  moreover have "check_target env3 ''10.0.0.53'' [''10.0.0.1''] = Inr (IPv4Address 167772213)"
    by (simp add: check_target_def read_address_def dns host_address_def NOT_HOSTS4_def net4_def in_network_def net_broadcast_def show_py_address_def dns_text)
  ultimately show "(IDS_QUARANTINE_SET_NAME, ''10.0.0.53'', 3600) \<in> set (snd (quarantine_ip env3 ''2001:db8::5'' 3600 [''10.0.0.1''] [''eth1''] []))"
    by (simp add: quarantine_ip_def check_target_def host_address_def NOT_HOSTS6_def net6_def in_network_def net_broadcast_def ipv4_mapped_def
      show_py_address_def show_ipv6_1 MAX_DURATION_SECONDS_def quarantine_ipv6_host_def add_element_def env)
qed

end
