(* ===== verification/Iot.thy ===== *)
theory Iot
  imports Quarantine Sensor_Input Mdns
begin

text \<open>
  Device discovery and isolation: the DHCP leases (\<open>src/src/frfw/iot/leases.py\<close>), the neighbour table
  (\<open>src/src/frfw/iot/arp.py\<close>), vendors (\<open>src/src/frfw/iot/oui.py\<close>), what a device looks like
  (\<open>src/src/frfw/iot/classify.py\<close>), the scan (\<open>src/src/frfw/iot/scanner.py\<close>), and the set of isolated devices the helper
  keeps (\<open>src/src/frfw/iot_isolation.py\<close>, \<open>_handle_iot_sync_isolation\<close> of \<open>src/src/frfw/helper/server.py\<close>).

  A CSV file is its rows, a text file its text, \<open>None\<close> where it cannot be opened.  The answers of the helper and of
  \<open>nft\<close> are arguments, the set of isolated devices the state.

  Whatever is announced on the network, a device the admin trusts is never isolated, one the admin isolates always
  is, and any other one only when it is classified as a thing and the admin has asked for that.
\<close>

subsection \<open>Hardware addresses and vendors (oui.py)\<close>

definition normalize_mac :: "string \<Rightarrow> string option" where
  "normalize_mac s = (let m = map (\<lambda>c. if c = CHR ''-'' then CHR '':'' else c) (lower (strip s)) in if mac_re m then Some m else None)"

definition hex_value :: "string \<Rightarrow> nat" where
  "hex_value s = fold (\<lambda>c n. 16 * n + (case hex_digit c of Some d \<Rightarrow> d | None \<Rightarrow> 0)) s 0"

definition is_locally_administered :: "string \<Rightarrow> bool" where
  "is_locally_administered mac \<longleftrightarrow> odd (hex_value (take 2 mac) div 2)"

definition note_vendor :: "string list \<Rightarrow> (string, string) dict \<Rightarrow> (string, string) dict" where
  "note_vendor row db =
     (if length row < 3 \<or> row ! 0 \<noteq> ''MA-L'' then db
      else let prefix = upper (strip (row ! 1)) in if length prefix = 6 then AList.update prefix (strip (row ! 2)) db else db)"

definition load_vendor_db :: "string list list option \<Rightarrow> (string, string) dict" where
  "load_vendor_db f = (case f of None \<Rightarrow> [] | Some rows \<Rightarrow> fold note_vendor rows [])"

definition vendor_for :: "string \<Rightarrow> (string, string) dict \<Rightarrow> string option" where
  "vendor_for mac db =
     (if is_locally_administered mac then None else map_of db (upper (take 6 (filter (\<lambda>c. c \<noteq> CHR '':'') mac))))"

subsection \<open>Leases (leases.py)\<close>

record lease =
  ls_ip :: string
  ls_mac :: string
  ls_hostname :: string
  ls_expire :: int

definition MAX_HOSTNAME :: nat where "MAX_HOSTNAME = 253"

text \<open>\<open>str.replace\<close>, from left to right; the pattern is not empty.\<close>

function replace_text :: "string \<Rightarrow> string \<Rightarrow> string \<Rightarrow> string" where
  "replace_text p r s =
     (if s = [] then [] else if p \<noteq> [] \<and> starts_with s p then r @ replace_text p r (drop (length p) s) else hd s # replace_text p r (tl s))"
  by pat_completeness auto
termination
  by (relation "measure (\<lambda>(p, r, s). length s)") auto

declare replace_text.simps [simp del]

definition clean_hostname :: "string \<Rightarrow> string" where
  "clean_hostname raw = take MAX_HOSTNAME (filter (in_range 33 126) (rstrip_dots (strip (replace_text ''&#x2c'' '','' raw))))"

text \<open>\<open>int(text or 0)\<close>\<close>

definition int_or_zero :: "(string, string) dict \<Rightarrow> string \<Rightarrow> int option" where
  "int_or_zero row k = (let s = dict_get_or row k [] in if s = [] then Some 0 else to_int (strip s))"

definition note_lease :: "seconds \<Rightarrow> (string, string) dict \<Rightarrow> (string, lease option) dict \<Rightarrow> (string, lease option) dict" where
  "note_lease now row by_address =
     (let address = strip (dict_get_or row ''address'' []); mac = normalize_mac (dict_get_or row ''hwaddr'' []) in
      if ipv4_address address = None then by_address
      else case (int_or_zero row ''expire'', int_or_zero row ''state'') of
          (Some expire, Some st) \<Rightarrow>
           (case mac of
              Some m \<Rightarrow>
                if st \<noteq> 0 \<or> of_int expire \<le> now then AList.update address None by_address
                else AList.update address (Some \<lparr>ls_ip = address, ls_mac = m, ls_hostname = clean_hostname (dict_get_or row ''hostname'' []),
                       ls_expire = expire\<rparr>) by_address
            | None \<Rightarrow> AList.update address None by_address)
        | _ \<Rightarrow> by_address)"

definition read_leases :: "(string, string) dict list option \<Rightarrow> seconds \<Rightarrow> lease list" where
  "read_leases f now =
     (case f of None \<Rightarrow> [] | Some rows \<Rightarrow> sort_key ls_ip (List.map_filter snd (fold (note_lease now) rows [])))"

subsection \<open>The neighbour table (arp.py)\<close>

record arp_entry =
  arp_ip :: string
  arp_mac :: string
  arp_device :: string

text \<open>\<open>int(text, 16)\<close> of a word.\<close>

definition to_int16 :: "string \<Rightarrow> int option" where
  "to_int16 s =
     (let neg = starts_with s ''-''; u = (if neg \<or> starts_with s ''+'' then drop 1 s else s);
          t = (if starts_with u ''0x'' \<or> starts_with u ''0X'' then (let r = drop 2 u in if starts_with r ''_'' then drop 1 r else r) else u);
          ps = split_on CHR ''_'' t
      in if list_all (\<lambda>p. p \<noteq> [] \<and> list_all (\<lambda>c. hex_digit c \<noteq> None) p) ps
         then Some ((if neg then - 1 else 1) * int (hex_value (concat ps))) else None)"

definition arp_line :: "string \<Rightarrow> arp_entry option" where
  "arp_line line =
     (case split_ws line of
        ip # _ # flags # hw # _ # device # _ \<Rightarrow>
         (case (to_int16 flags, normalize_mac hw) of
            (Some n, Some mac) \<Rightarrow>
              if even (n div 2) \<or> mac = ''00:00:00:00:00:00'' then None else Some \<lparr>arp_ip = ip, arp_mac = mac, arp_device = device\<rparr>
          | _ \<Rightarrow> None)
      | _ \<Rightarrow> None)"

definition read_arp_table :: "string option \<Rightarrow> arp_entry list" where
  "read_arp_table f = (case f of None \<Rightarrow> [] | Some s \<Rightarrow> List.map_filter arp_line (drop 1 (splitlines s)))"

subsection \<open>What a device looks like (classify.py)\<close>

definition IOT_THRESHOLD :: int where "IOT_THRESHOLD = 3"
definition GENERAL_THRESHOLD :: int where "GENERAL_THRESHOLD = -2"
definition CATEGORY_IOT :: string where "CATEGORY_IOT = ''iot''"
definition CATEGORY_GENERAL :: string where "CATEGORY_GENERAL = ''general''"
definition CATEGORY_UNKNOWN :: string where "CATEGORY_UNKNOWN = ''unknown''"

definition STRONG_IOT_VENDORS :: "string list" where
  "STRONG_IOT_VENDORS = [''espressif'', ''tuya'', ''allterco'', ''itead'', ''signify'', ''philips lighting'', ''sonos'', ''roku'',
     ''ecobee'', ''wyze'', ''hikvision'', ''dahua'', ''ring llc'', ''nest labs'', ''arlo'', ''chamberlain'', ''lifx'', ''meross'', ''govee'',
     ''nanoleaf'', ''yeelight'']"

definition MIXED_VENDORS :: "string list" where
  "MIXED_VENDORS = [''amazon technologies'', ''google'', ''xiaomi'', ''tp-link'', ''belkin'', ''raspberry pi'']"

definition IOT_SERVICES :: "(string, string) dict" where
  "IOT_SERVICES = [(''_hap._tcp'', ''HomeKit accessory''), (''_hap._udp'', ''HomeKit accessory (Thread)''), (''_homekit._tcp'', ''HomeKit''),
     (''_googlecast._tcp'', ''Google Cast device''), (''_hue._tcp'', ''Philips Hue bridge''), (''_sonos._tcp'', ''Sonos speaker''),
     (''_spotify-connect._tcp'', ''Spotify Connect speaker''), (''_matter._tcp'', ''Matter device''),
     (''_matterc._udp'', ''Matter commissionable device''), (''_esphomelib._tcp'', ''ESPHome firmware''), (''_shelly._tcp'', ''Shelly device''),
     (''_amzn-wplay._tcp'', ''Amazon Fire TV / Echo''), (''_ipp._tcp'', ''network printer''), (''_ipps._tcp'', ''network printer''),
     (''_printer._tcp'', ''network printer''), (''_pdl-datastream._tcp'', ''network printer''), (''_miio._udp'', ''Xiaomi Mi Home device''),
     (''_arduino._tcp'', ''Arduino board'')]"

definition GENERAL_SERVICES :: "(string, string) dict" where
  "GENERAL_SERVICES = [(''_workstation._tcp'', ''workstation''), (''_smb._tcp'', ''file sharing (SMB)''),
     (''_afpovertcp._tcp'', ''file sharing (AFP)''), (''_ssh._tcp'', ''SSH server''), (''_sftp-ssh._tcp'', ''SFTP server''),
     (''_companion-link._tcp'', ''Apple phone/tablet/computer''), (''_rdlink._tcp'', ''Apple phone/tablet/computer'')]"

definition IOT_HOSTNAME_HINTS :: "string list" where
  "IOT_HOSTNAME_HINTS = [''esp_'', ''esp-'', ''espressif'', ''tasmota'', ''shelly'', ''sonoff'', ''tuya'', ''wled'', ''chromecast'', ''echo-'',
     ''kasa'', ''hs100'', ''hs103'', ''hs105'', ''hs110'', ''philips-hue'', ''sonos'', ''roku'', ''ring-'', ''nest-'', ''wyze'', ''ipcam'',
     ''camera'', ''doorbell'', ''thermostat'', ''smartplug'', ''smart-plug'', ''bulb'', ''yeelink'', ''miio'', ''printer'']"

definition GENERAL_HOSTNAME_HINTS :: "string list" where
  "GENERAL_HOSTNAME_HINTS = [''desktop'', ''laptop'', ''macbook'', ''imac'', ''iphone'', ''ipad'', ''android-'', ''galaxy'', ''pixel'',
     ''thinkpad'', ''workstation'', ''-pc'']"

record observed_device =
  ob_mac :: string
  ob_ip :: "string option"
  ob_hostname :: string
  ob_interface :: string
  ob_vendor :: "string option"
  ob_services :: "string list"

record classification =
  cl_category :: string
  cl_score :: int
  cl_reasons :: "string list"

definition in_quotes :: "string \<Rightarrow> string" where
  "in_quotes s = CHR 0x27 # s @ [CHR 0x27]"

text \<open>Each signal gives points and a reason, or nothing.\<close>

definition vendor_signal :: "observed_device \<Rightarrow> (int \<times> string) list" where
  "vendor_signal ob =
     (case ob_vendor ob of
        None \<Rightarrow> []
      | Some v \<Rightarrow>
         (let l = lower v in
          if l = [] then []
          else if list_ex (\<lambda>x. infix_of x l) STRONG_IOT_VENDORS then [(3, ''+3 vendor '' @ in_quotes v @ '' ships mostly IoT hardware'')]
          else if list_ex (\<lambda>x. infix_of x l) MIXED_VENDORS then [(1, ''+1 vendor '' @ in_quotes v @ '' ships IoT and general devices'')]
          else []))"

definition service_names :: "(string, string) dict \<Rightarrow> observed_device \<Rightarrow> string list" where
  "service_names table ob = sort (remdups (List.map_filter (map_of table) (ob_services ob)))"

definition service_signals :: "observed_device \<Rightarrow> (int \<times> string) list" where
  "service_signals ob =
     (let things = service_names IOT_SERVICES ob; computers = service_names GENERAL_SERVICES ob in
      (if things = [] then [] else [(3, ''+3 advertises IoT services via mDNS ('' @ py_join '', '' things @ '')'')])
      @ (if computers = [] then [] else [(- 3, ''-3 advertises computer services via mDNS ('' @ py_join '', '' computers @ '')'')]))"

definition hostname_signal :: "observed_device \<Rightarrow> (int \<times> string) list" where
  "hostname_signal ob =
     (let l = lower (ob_hostname ob) in
      if l = [] then []
      else if list_ex (\<lambda>x. infix_of x l) IOT_HOSTNAME_HINTS then [(2, ''+2 DHCP hostname '' @ in_quotes (ob_hostname ob) @ '' looks like an IoT device'')]
      else if list_ex (\<lambda>x. infix_of x l) GENERAL_HOSTNAME_HINTS then [(- 2, ''-2 DHCP hostname '' @ in_quotes (ob_hostname ob) @ '' looks like a phone/computer'')]
      else [])"

definition mac_signal :: "observed_device \<Rightarrow> (int \<times> string) list" where
  "mac_signal ob =
     (if is_locally_administered (ob_mac ob) then [(- 2, ''-2 randomized (locally administered) MAC, typical of phones/laptops'')] else [])"

definition category_of :: "int \<Rightarrow> string" where
  "category_of score = (if score \<ge> IOT_THRESHOLD then CATEGORY_IOT else if score \<le> GENERAL_THRESHOLD then CATEGORY_GENERAL else CATEGORY_UNKNOWN)"

definition classify :: "observed_device \<Rightarrow> classification" where
  "classify ob =
     (let signals = vendor_signal ob @ service_signals ob @ hostname_signal ob @ mac_signal ob; score = sum_list (map fst signals) in
      \<lparr>cl_category = category_of score, cl_score = score,
       cl_reasons = (if signals = [] then [''no identifying signal (unknown vendor, no mDNS services, no hostname)''] else map snd signals)\<rparr>)"

subsection \<open>The scan (scanner.py)\<close>

definition iot_interfaces :: "config \<Rightarrow> interface list" where
  "iot_interfaces cfg = filter (\<lambda>i. if_zone i \<in> set (iot_zones (iot cfg))) (map snd (interfaces cfg))"

definition iot_networks :: "config \<Rightarrow> (string \<times> ip_network) list" where
  "iot_networks cfg = List.map_filter (\<lambda>i. case if_address i of None \<Rightarrow> None
     | Some a \<Rightarrow> map_option (\<lambda>x. (if_device i, interface_network x)) (ipv4_interface a)) (iot_interfaces cfg)"

text \<open>\<open>interface_for\<close>: the first of the networks the address is in.\<close>

definition interface_for :: "(string \<times> ip_network) list \<Rightarrow> string \<Rightarrow> string option" where
  "interface_for nets ip =
     (case ipv4_address ip of None \<Rightarrow> None | Some x \<Rightarrow> map_option fst (List.find (\<lambda>(_, n). in_network V4 x n) nets))"

record merged_device =
  md_ip :: string
  md_hostname :: string
  md_interface :: string

definition merge_lease :: "(string \<times> ip_network) list \<Rightarrow> lease \<Rightarrow> (string, merged_device) dict \<Rightarrow> (string, merged_device) dict" where
  "merge_lease nets l d =
     (case (normalize_mac (ls_mac l), interface_for nets (ls_ip l)) of
        (Some mac, Some device) \<Rightarrow> AList.update mac \<lparr>md_ip = ls_ip l, md_hostname = ls_hostname l, md_interface = device\<rparr> d
      | _ \<Rightarrow> d)"

definition merge_arp :: "string list \<Rightarrow> arp_entry \<Rightarrow> (string, merged_device) dict \<Rightarrow> (string, merged_device) dict" where
  "merge_arp iot_devices e d =
     (if arp_device e \<notin> set iot_devices \<or> map_of d (arp_mac e) \<noteq> None then d
      else d @ [(arp_mac e, \<lparr>md_ip = arp_ip e, md_hostname = [], md_interface = arp_device e\<rparr>)])"

definition gather_observations :: "config \<Rightarrow> lease list \<Rightarrow> arp_entry list \<Rightarrow> (string, string) dict \<Rightarrow> scan_results \<Rightarrow> observed_device list" where
  "gather_observations cfg leases arps vendor_db mdns_results =
     (let merged = fold (merge_arp (map if_device (iot_interfaces cfg))) arps (fold (merge_lease (iot_networks cfg)) leases []) in
      map (\<lambda>(mac, r). \<lparr>ob_mac = mac, ob_ip = Some (md_ip r), ob_hostname = md_hostname r, ob_interface = md_interface r,
          ob_vendor = vendor_for mac vendor_db, ob_services = sorted_list_of_set (dict_get_or mdns_results (md_ip r) {})\<rparr>)
        (sort_key fst merged))"

definition decide_isolation :: "config \<Rightarrow> (observed_device \<times> classification) list \<Rightarrow> string list" where
  "decide_isolation cfg classified =
     (let isolated = isolated_macs (iot cfg) @
            (if auto_isolate (iot cfg) then map (ob_mac \<circ> fst) (filter (\<lambda>(_, c). cl_category c = CATEGORY_IOT) classified) else [])
      in sort (remdups (filter (\<lambda>m. m \<notin> set (trusted_macs (iot cfg))) isolated)))"

record device_record =
  dr_device :: observed_device
  dr_class :: classification
  dr_isolated :: bool
  dr_trusted :: bool

definition device_record_of :: "config \<Rightarrow> string list \<Rightarrow> observed_device \<times> classification \<Rightarrow> device_record" where
  "device_record_of cfg isolated oc =
     \<lparr>dr_device = fst oc, dr_class = snd oc, dr_isolated = (ob_mac (fst oc) \<in> set isolated), dr_trusted = (ob_mac (fst oc) \<in> set (trusted_macs (iot cfg)))\<rparr>"

record scan_result =
  sr_devices :: "device_record list"
  sr_isolated :: "string list"
  sr_messages :: "string list"

record iot_inventory =
  iv_scanned_at :: int
  iv_auto_isolate :: bool
  iv_isolation_mode :: string
  iv_devices :: "device_record list"
  iv_isolated :: "string list"
  iv_messages :: "string list"

definition mode_value :: "iot_isolation_mode \<Rightarrow> string" where
  "mode_value m = (case m of INTERNET_ONLY \<Rightarrow> ''internet_only'' | BLOCK \<Rightarrow> ''block'')"

definition OUI_CSV_PATH :: string where "OUI_CSV_PATH = ''/usr/share/ieee-data/oui.csv''"

text \<open>What the scan reads, each source with the warning it leaves behind; the answers are errors or values.\<close>

record scan_sources =
  src_leases :: "(string, lease list) result"
  src_mdns :: "string list \<Rightarrow> (string, scan_results) result"
  src_arp :: "string option"
  src_oui :: "string list list option"

definition scan_leases :: "scan_sources \<Rightarrow> lease list \<times> string list" where
  "scan_leases src = (case src_leases src of Inr ls \<Rightarrow> (ls, []) | Inl m \<Rightarrow> ([], [''warning: DHCP leases unavailable: '' @ m]))"

definition scan_addresses :: "config \<Rightarrow> string list" where
  "scan_addresses cfg = List.map_filter (\<lambda>i. case if_address i of None \<Rightarrow> None | Some a \<Rightarrow> map_option (show_ipv4 \<circ> fst) (ipv4_interface a)) (iot_interfaces cfg)"

definition scan_mdns :: "config \<Rightarrow> scan_sources \<Rightarrow> scan_results \<times> string list" where
  "scan_mdns cfg src =
     (if scan_addresses cfg = [] then ([], [''warning: no IoT-zone interface has a static address; mDNS discovery skipped''])
      else case src_mdns src (scan_addresses cfg) of
          Inr r \<Rightarrow> (r, [])
        | Inl m \<Rightarrow> ([], [''warning: mDNS discovery skipped: '' @ m]))"

definition scan_vendors :: "scan_sources \<Rightarrow> (string, string) dict \<times> string list" where
  "scan_vendors src =
     (let db = load_vendor_db (src_oui src) in
      (db, if db = [] then [''note: no OUI vendor database at '' @ OUI_CSV_PATH @ '' (install the 'ieee-data' package)''] else []))"

definition scan_observations :: "config \<Rightarrow> scan_sources \<Rightarrow> observed_device list" where
  "scan_observations cfg src =
     gather_observations cfg (fst (scan_leases src)) (read_arp_table (src_arp src)) (fst (scan_vendors src)) (fst (scan_mdns cfg src))"

definition orphans_note :: "scan_results \<Rightarrow> observed_device list \<Rightarrow> string list" where
  "orphans_note mdns_results obs =
     (let orphans = sort (filter (\<lambda>ip. Some ip \<notin> ob_ip ` set obs) (map fst mdns_results)) in
      if orphans = [] then []
      else [''note: '' @ show_nat (length orphans) @ '' mDNS responder(s) with no known MAC, not enforceable: ['' @ py_join '', '' (map py_repr orphans) @ '']''])"

definition summary_line :: "device_record list \<Rightarrow> string" where
  "summary_line ds =
     (if ds = [] then ''0 device(s) found in the IoT zones''
      else let cats = map (cl_category \<circ> dr_class) ds in
        show_nat (length ds) @ '' device(s) found: '' @ py_join '', '' (map (\<lambda>c. show_nat (count_list cats c) @ '' '' @ c) (sort (remdups cats))))"

definition run_scan :: "config \<Rightarrow> scan_sources \<Rightarrow> (string list \<Rightarrow> 'w \<Rightarrow> (string, string list) result \<times> 'w) \<Rightarrow> seconds \<Rightarrow> 'w \<Rightarrow>
    scan_result \<times> iot_inventory option \<times> 'w" where
  "run_scan cfg src sync now w =
     (if \<not> iot_enabled (iot cfg) then (\<lparr>sr_devices = [], sr_isolated = [], sr_messages = [''IoT discovery is disabled (iot.enabled: false)'']\<rparr>, None, w)
      else
        let obs = scan_observations cfg src;
            classified = map (\<lambda>ob. (ob, classify ob)) obs;
            (answer, w') = sync (decide_isolation cfg classified) w;
            (isolated, note) = (case answer of
               Inr macs \<Rightarrow> (macs, show_nat (length macs) @ '' device(s) isolated ('' @ mode_value (isolation_mode (iot cfg)) @ '')'')
             | Inl m \<Rightarrow> ([], ''error: isolation not applied: '' @ m));
            ds = map (device_record_of cfg isolated) classified;
            msgs = summary_line ds # snd (scan_leases src) @ snd (scan_mdns cfg src) @ snd (scan_vendors src)
              @ orphans_note (fst (scan_mdns cfg src)) obs @ [note]
        in (\<lparr>sr_devices = ds, sr_isolated = isolated, sr_messages = msgs\<rparr>,
            Some \<lparr>iv_scanned_at = py_int now, iv_auto_isolate = auto_isolate (iot cfg), iv_isolation_mode = mode_value (isolation_mode (iot cfg)),
              iv_devices = ds, iv_isolated = isolated, iv_messages = msgs\<rparr>, w'))"

text \<open>The last scan's devices, as a JSON list of MAC and category.\<close>

definition resync_from_inventory :: "config \<Rightarrow> (string \<times> string) list option \<Rightarrow> (string list \<Rightarrow> 'w \<Rightarrow> 'r \<times> 'w) \<Rightarrow> 'w \<Rightarrow> 'r \<times> 'w" where
  "resync_from_inventory cfg inventory sync w =
     sync (decide_isolation cfg (List.map_filter (\<lambda>(mac, category). map_option (\<lambda>m.
        (\<lparr>ob_mac = m, ob_ip = None, ob_hostname = [], ob_interface = [], ob_vendor = None, ob_services = []\<rparr>,
         \<lparr>cl_category = category, cl_score = 0, cl_reasons = []\<rparr>)) (normalize_mac mac))
       (case inventory of None \<Rightarrow> [] | Some ds \<Rightarrow> ds))) w"

subsection \<open>The set of isolated devices (iot_isolation.py)\<close>

definition MAX_ISOLATED :: nat where "MAX_ISOLATED = 4096"

definition note_mac :: "pyval \<Rightarrow> string list \<Rightarrow> (string, string list) result" where
  "note_mac v out =
     (case v of
        VStr s \<Rightarrow> if mac_re (lower s) then Inr (if lower s \<in> set out then out else out @ [lower s]) else Inl (''invalid MAC address '' @ py_repr (lower s))
      | _ \<Rightarrow> Inl ''invalid MAC address'')"

definition normalize_macs :: "pyval list \<Rightarrow> (string, string list) result" where
  "normalize_macs macs =
     (if length macs > MAX_ISOLATED then Inl (''too many MACs ('' @ show_nat (length macs) @ '' > 4096)'')
      else fold_result note_mac macs [])"

definition isolation_script :: "string list \<Rightarrow> string" where
  "isolation_script macs =
     ''flush set inet '' @ FILTER_TABLE @ '' '' @ IOT_ISOLATED_SET_NAME @ [LF]
     @ (if macs = [] then [] else ''add element inet '' @ FILTER_TABLE @ '' '' @ IOT_ISOLATED_SET_NAME @ '' { '' @ py_join '', '' macs @ '' }'' @ [LF])"

text \<open>\<open>nft -f -\<close> answers with an error or does the whole script; the state is the set.\<close>

definition sync_isolated :: "(string \<Rightarrow> string option) \<Rightarrow> string list \<Rightarrow> string list \<Rightarrow> (string, string list) result \<times> string list" where
  "sync_isolated nft_script macs st =
     (case normalize_macs (map VStr macs) of
        Inl e \<Rightarrow> (Inl e, st)
      | Inr ms \<Rightarrow> (case nft_script (isolation_script ms) of Some err \<Rightarrow> (Inl err, st) | None \<Rightarrow> (Inr ms, ms)))"

definition isolated_element :: "pyval \<Rightarrow> string option" where
  "isolated_element entry =
     (case (case entry of VDict _ \<Rightarrow> json_get (json_get entry ''elem'') ''val'' | _ \<Rightarrow> entry) of VStr s \<Rightarrow> Some (lower s) | _ \<Rightarrow> None)"

definition list_isolated :: "nft_answer \<Rightarrow> (string, string list) result" where
  "list_isolated a = answer_elements isolated_element a"

subsection \<open>The helper's command\<close>

datatype iot_reply = IotFail string | Isolated "string list" "string list"

definition handle_iot_sync_isolation :: "(string \<Rightarrow> string option) \<Rightarrow> (string, config) result \<Rightarrow> pyval \<Rightarrow> string list \<Rightarrow> iot_reply \<times> string list" where
  "handle_iot_sync_isolation nft_script cfg macs st =
     (case macs of
        VList vs \<Rightarrow>
         (case (normalize_macs vs, cfg) of
            (Inl e, _) \<Rightarrow> (IotFail e, st)
          | (_, Inl e) \<Rightarrow> (IotFail e, st)
          | (Inr ms, Inr c) \<Rightarrow>
              if \<not> iot_enabled (iot c) then (IotFail ''IoT isolation is disabled in the current config'', st)
              else (case sync_isolated nft_script (filter (\<lambda>m. m \<notin> set (trusted_macs (iot c))) ms) st of
                  (Inl e, st') \<Rightarrow> (IotFail e, st')
                | (Inr written, st') \<Rightarrow> (Isolated written (filter (\<lambda>m. m \<in> set (trusted_macs (iot c))) ms), st')))
      | _ \<Rightarrow> (IotFail '''macs' must be a list'', st))"

subsection \<open>Asking for it over the socket (helper/client.py)\<close>

text \<open>
  \<open>helper_client.iot_sync_isolation\<close>: one line of JSON out, one back.  The helper reads at most 64 KiB of the line, and a longer one is no
  longer JSON; the client gives up on an answer over 64 KiB, by then the set has been replaced.  A request may not be handled at all (no socket,
  the helper refuses the user, it dies first), and one that is handled may stay without an answer the client can read.
\<close>

datatype transport = NotHandled string | AnswerLost string | Answered

text \<open>What the JSON library says of a line cut short, and its rendering of a text.\<close>

record iot_link =
  il_transport :: transport
  il_json_error :: "string \<Rightarrow> string"
  il_dumps :: "string \<Rightarrow> string"

definition MAX_LINE_BYTES :: nat where "MAX_LINE_BYTES = 64 * 1024"

definition json_quoted :: "string \<Rightarrow> string" where
  "json_quoted s = [CHR 0x22] @ s @ [CHR 0x22]"

definition json_macs :: "string list \<Rightarrow> string" where
  "json_macs macs = ''['' @ py_join '', '' (map json_quoted macs) @ '']''"

definition sync_request :: "string list \<Rightarrow> string" where
  "sync_request macs = ''{'' @ json_quoted ''cmd'' @ '': '' @ json_quoted ''iot_sync_isolation'' @ '', '' @ json_quoted ''macs'' @ '': '' @ json_macs macs @ ''}''"

definition sync_answer :: "(string \<Rightarrow> string) \<Rightarrow> iot_reply \<Rightarrow> string" where
  "sync_answer dumps reply =
     (case reply of
        IotFail e \<Rightarrow> ''{'' @ json_quoted ''ok'' @ '': false, '' @ json_quoted ''message'' @ '': '' @ dumps e @ ''}'' @ [LF]
      | Isolated written skipped \<Rightarrow>
          ''{'' @ json_quoted ''ok'' @ '': true, '' @ json_quoted ''message'' @ '': '' @ json_quoted (show_nat (length written) @ '' device(s) isolated'')
          @ '', '' @ json_quoted ''isolated'' @ '': '' @ json_macs written @ '', '' @ json_quoted ''count'' @ '': '' @ show_nat (length written)
          @ '', '' @ json_quoted ''skipped_trusted'' @ '': '' @ json_macs skipped @ ''}'' @ [LF])"

definition handle_sync_line :: "iot_link \<Rightarrow> (string \<Rightarrow> string option) \<Rightarrow> (string, config) result \<Rightarrow> string list \<Rightarrow> string list \<Rightarrow> iot_reply \<times> string list" where
  "handle_sync_line link nft_script cfg macs st =
     (if length (sync_request macs) > MAX_LINE_BYTES
      then (IotFail (''invalid request: '' @ il_json_error link (take MAX_LINE_BYTES (sync_request macs))), st)
      else handle_iot_sync_isolation nft_script cfg (VList (map VStr macs)) st)"

definition read_answer :: "iot_link \<Rightarrow> iot_reply \<Rightarrow> (string, string list) result" where
  "read_answer link reply =
     (if length (sync_answer (il_dumps link) reply) > MAX_LINE_BYTES then Inl ''response from apply-helper exceeded size limit''
      else case reply of IotFail e \<Rightarrow> Inl e | Isolated written _ \<Rightarrow> Inr written)"

definition ask_isolation :: "iot_link \<Rightarrow> (string \<Rightarrow> string option) \<Rightarrow> (string, config) result \<Rightarrow> string list \<Rightarrow> string list \<Rightarrow> (string, string list) result \<times> string list" where
  "ask_isolation link nft_script cfg macs st =
     (case il_transport link of
        NotHandled m \<Rightarrow> (Inl m, st)
      | AnswerLost m \<Rightarrow> (Inl m, snd (handle_sync_line link nft_script cfg macs st))
      | Answered \<Rightarrow> (case handle_sync_line link nft_script cfg macs st of (reply, st') \<Rightarrow> (read_answer link reply, st')))"

subsection \<open>Who is isolated\<close>

lemma mac_lower: "mac_re m \<Longrightarrow> lower m = m"
proof -
  assume mac: "mac_re m"
  have "lower_char c = c" if "c \<in> set m" for c
  proof -
    from split_on_chars [OF that, of "CHR '':''"] mac have "c = CHR '':'' \<or> is_hex_lower c" by (auto simp: mac_re_def Let_def list_all_iff)
    then show ?thesis by (auto simp: is_hex_lower_def is_digit_def in_range_def lower_char_def is_upper_def)
  qed
  then show ?thesis by (simp add: lower_def map_idI)
qed

lemma normalize_mac_ok: "normalize_mac s = Some m \<Longrightarrow> mac_re m"
  by (auto simp: normalize_mac_def Let_def split: if_splits)

lemma note_macs:
  "list_all mac_re ms \<Longrightarrow> distinct (out @ ms) \<Longrightarrow> fold_result note_mac (map VStr ms) out = Inr (out @ ms)"
  by (induction ms arbitrary: out) (auto simp: note_mac_def mac_lower)

lemma normalize_macs_ok:
  "list_all mac_re ms \<Longrightarrow> distinct ms \<Longrightarrow> length ms \<le> MAX_ISOLATED \<Longrightarrow> normalize_macs (map VStr ms) = Inr ms"
  by (simp add: normalize_macs_def note_macs)

text \<open>Only hardware addresses of the right form are observed, each once.\<close>

lemma merge_lease_macs: "\<forall>(m, r)\<in>set d. mac_re m \<Longrightarrow> \<forall>(m, r)\<in>set (merge_lease nets l d). mac_re m"
proof (cases "normalize_mac (ls_mac l)")
  case (Some m)
  assume "\<forall>(m, r)\<in>set d. mac_re m"
  then have "\<forall>(m, r)\<in>set (AList.update m v d). mac_re m" for v
    using set_AList_update [of m v d] normalize_mac_ok [OF Some] by fastforce
  with \<open>\<forall>(m, r)\<in>set d. mac_re m\<close> Some show ?thesis by (simp add: merge_lease_def split: option.split)
qed (simp add: merge_lease_def)

lemma arp_table_macs: "e \<in> set (read_arp_table f) \<Longrightarrow> mac_re (arp_mac e)"
  by (auto simp: read_arp_table_def map_filter_def arp_line_def dest: normalize_mac_ok split: option.splits list.splits if_splits)

lemma observed_macs: "ob \<in> set (scan_observations cfg src) \<Longrightarrow> mac_re (ob_mac ob)"
proof -
  let ?leased = "fold (merge_lease (iot_networks cfg)) (fst (scan_leases src)) []"
  let ?arps = "read_arp_table (src_arp src)"
  have "\<forall>(m, r)\<in>set ?leased. mac_re m"
    by (rule List.fold_invariant [where Q = "\<lambda>_. True" and P = "\<lambda>d. \<forall>(m, r)\<in>set d. mac_re m"]) (simp_all add: merge_lease_macs)
  then have "\<forall>(m, r)\<in>set (fold (merge_arp devs) ?arps ?leased). mac_re m" for devs
    by (rule List.fold_invariant [where Q = "\<lambda>e. mac_re (arp_mac e)" and P = "\<lambda>d. \<forall>(m, r)\<in>set d. mac_re m", rotated])
      (auto simp: merge_arp_def arp_table_macs)
  from this [of "map if_device (iot_interfaces cfg)"] show "ob \<in> set (scan_observations cfg src) \<Longrightarrow> ?thesis"
    by (auto simp: scan_observations_def gather_observations_def Let_def)
qed

definition to_isolate :: "config \<Rightarrow> scan_sources \<Rightarrow> string set" where
  "to_isolate cfg src = {m. m \<notin> set (trusted_macs (iot cfg)) \<and>
     (m \<in> set (isolated_macs (iot cfg)) \<or>
      auto_isolate (iot cfg) \<and> (\<exists>ob\<in>set (scan_observations cfg src). ob_mac ob = m \<and> cl_category (classify ob) = CATEGORY_IOT))}"

lemma decided_set: "set (decide_isolation cfg (map (\<lambda>ob. (ob, classify ob)) (scan_observations cfg src))) = to_isolate cfg src"
  by (auto simp: decide_isolation_def to_isolate_def Let_def filter_map comp_def)

text \<open>One address costs 21 bytes of the line, so some 3100 fit into it: the helper's own limit of 4096 is never met.\<close>

lemma join_length: "ms \<noteq> [] \<Longrightarrow> list_all (\<lambda>m. length m = n) ms \<Longrightarrow> length (py_join sep ms) = n * length ms + length sep * (length ms - 1)"
proof (induction ms)
  case (Cons m ms)
  then show ?case by (cases ms) auto
qed simp

lemma mac_length: "mac_re m \<Longrightarrow> length m = 17"
proof -
  let ?ps = "split_on CHR '':'' m"
  assume "mac_re m"
  then have ps: "length ?ps = 6" "list_all (\<lambda>p. length p = 2) ?ps" by (auto simp: mac_re_def Let_def list_all_iff)
  then have "?ps \<noteq> []" by auto
  with ps have "length (py_join '':'' ?ps) = 17" by (simp add: join_length)
  then show ?thesis by (simp add: join_split_on)
qed

lemma json_macs_length: "ms \<noteq> [] \<Longrightarrow> list_all mac_re ms \<Longrightarrow> length (json_macs ms) = 21 * length ms"
proof -
  assume ms: "ms \<noteq> []" and "list_all mac_re ms"
  then have "list_all (\<lambda>m. length m = 19) (map json_quoted ms)" by (auto simp: list_all_iff json_quoted_def dest: mac_length)
  with ms have "length (py_join '', '' (map json_quoted ms)) = 19 * length ms + 2 * (length ms - 1)" by (simp add: join_length)
  with ms show ?thesis by (cases ms) (simp_all add: json_macs_def)
qed

lemma sync_request_length: "ms \<noteq> [] \<Longrightarrow> list_all mac_re ms \<Longrightarrow> length (sync_request ms) = 39 + 21 * length ms"
  by (simp add: sync_request_def json_quoted_def json_macs_length)

lemma request_fits: "list_all mac_re ms \<Longrightarrow> ms \<noteq> [] \<Longrightarrow> length (sync_request ms) \<le> MAX_LINE_BYTES \<longleftrightarrow> length ms \<le> 3118"
  by (simp add: sync_request_length MAX_LINE_BYTES_def) arith

definition sync_allowed :: "(string \<Rightarrow> string option) \<Rightarrow> (string, config) result \<Rightarrow> string list \<Rightarrow> bool" where
  "sync_allowed nft_script cfg ms \<longleftrightarrow>
     (case cfg of Inl _ \<Rightarrow> False
      | Inr c \<Rightarrow> iot_enabled (iot c) \<and> nft_script (isolation_script (filter (\<lambda>m. m \<notin> set (trusted_macs (iot c))) ms)) = None)"

definition untrusted_of :: "(string, config) result \<Rightarrow> string list \<Rightarrow> string list" where
  "untrusted_of cfg ms = (case cfg of Inl _ \<Rightarrow> [] | Inr c \<Rightarrow> filter (\<lambda>m. m \<notin> set (trusted_macs (iot c))) ms)"

lemma handle_sync_line_cases:
  assumes "list_all mac_re ms" and "distinct ms"
  shows "if length (sync_request ms) \<le> MAX_LINE_BYTES \<and> sync_allowed nft_script cfg ms
    then handle_sync_line link nft_script cfg ms st = (Isolated (untrusted_of cfg ms) (filter (\<lambda>m. m \<notin> set (untrusted_of cfg ms)) ms), untrusted_of cfg ms)
    else \<exists>e. handle_sync_line link nft_script cfg ms st = (IotFail e, st)"
proof (cases "length (sync_request ms) \<le> MAX_LINE_BYTES")
  case True
  have "length ms \<le> MAX_ISOLATED" using True assms(1) request_fits [of ms] by (cases "ms = []") (auto simp: MAX_ISOLATED_def)
  then have n: "normalize_macs (map VStr ms) = Inr ms"
    and f: "normalize_macs (map (VStr \<circ> id) (filter P ms)) = Inr (filter P ms)" for P
    using assms by (auto intro!: normalize_macs_ok simp: list_all_iff intro: order_trans [OF length_filter_le])
  from True n f show ?thesis
    by (cases cfg) (auto simp: handle_sync_line_def handle_iot_sync_isolation_def sync_isolated_def sync_allowed_def untrusted_of_def
      intro!: filter_cong split: option.split)
qed (auto simp: handle_sync_line_def)

lemma run_scan_answer:
  assumes "iot_enabled (iot cfg)" and "sync (decide_isolation cfg (map (\<lambda>ob. (ob, classify ob)) (scan_observations cfg src))) w = (answer, w')"
  shows "\<exists>r written. run_scan cfg src sync now w = (r, written, w') \<and> sr_isolated r = (case answer of Inr ms \<Rightarrow> ms | Inl _ \<Rightarrow> [])
    \<and> (\<forall>m. answer = Inl m \<longrightarrow> ''error: isolation not applied: '' @ m \<in> set (sr_messages r))"
  using assms by (cases answer) (simp_all add: run_scan_def Let_def)

text \<open>
  C24: a scan isolates exactly the devices it should.  Whatever answers on the network -- leases, host names, mDNS services, neighbours --
  it asks for the devices the admin isolates, with automatic isolation also those of the scan that classify as things, and never for one the admin
  trusts.  The set the kernel holds becomes those of them the configuration the helper loads does not trust, when the helper handles the request, its
  line fits into 64 KiB (up to 3118 addresses), that configuration loads and has isolation on, and \<open>nft\<close> takes the script; otherwise it is as it was.
  The scan reports that set when the answer comes back and fits into 64 KiB too; else it says isolation was not applied and reports no device as
  isolated -- which is wrong exactly when the set was replaced and the answer lost or too long.
\<close>

theorem isolation_decided:
  assumes "iot_enabled (iot cfg)" and "list_all mac_re (isolated_macs (iot cfg))"
  shows "case run_scan cfg src (ask_isolation link nft_script helper_cfg) now st of (r, written, st') \<Rightarrow>
    \<exists>wanted. set wanted = to_isolate cfg src \<and> distinct wanted \<and>
      (let replaced = ((\<nexists>m. il_transport link = NotHandled m) \<and> length wanted \<le> 3118 \<and> sync_allowed nft_script helper_cfg wanted);
           isolated = untrusted_of helper_cfg wanted;
           reply = sync_answer (il_dumps link) (Isolated isolated (filter (\<lambda>m. m \<notin> set isolated) wanted))
       in st' = (if replaced then isolated else st) \<and>
          (if replaced \<and> il_transport link = Answered \<and> length reply \<le> MAX_LINE_BYTES then sr_isolated r = isolated
           else sr_isolated r = [] \<and> (\<exists>e. ''error: isolation not applied: '' @ e \<in> set (sr_messages r))))"
proof -
  let ?w = "decide_isolation cfg (map (\<lambda>ob. (ob, classify ob)) (scan_observations cfg src))"
  have w: "set ?w = to_isolate cfg src" by (rule decided_set)
  have d: "distinct ?w" by (simp add: decide_isolation_def)
  have m: "list_all mac_re ?w" using assms(2) w by (auto simp: list_all_iff to_isolate_def dest: observed_macs)
  have fits: "length (sync_request ?w) \<le> MAX_LINE_BYTES \<longleftrightarrow> length ?w \<le> 3118"
    using request_fits [OF m] by (cases "?w = []") (auto simp: sync_request_def json_quoted_def json_macs_def MAX_LINE_BYTES_def)
  obtain answer st' where a: "ask_isolation link nft_script helper_cfg ?w st = (answer, st')" by fastforce
  obtain r written where r: "run_scan cfg src (ask_isolation link nft_script helper_cfg) now st = (r, written, st')"
    "sr_isolated r = (case answer of Inr ms \<Rightarrow> ms | Inl _ \<Rightarrow> [])" "\<And>m. answer = Inl m \<Longrightarrow> ''error: isolation not applied: '' @ m \<in> set (sr_messages r)"
    using run_scan_answer [where sync = "ask_isolation link nft_script helper_cfg", OF assms(1) a] by blast
  define told where "told = (\<exists>e. ''error: isolation not applied: '' @ e \<in> set (sr_messages r))"
  have t: "answer = Inl m \<Longrightarrow> told" for m using r(3) unfolding told_def by blast
  from a handle_sync_line_cases [OF m d, of nft_script helper_cfg link st]
  show ?thesis unfolding r(1) prod.case Let_def told_def [symmetric]
    by (intro exI [of _ ?w] conjI w d; cases "il_transport link")
      (auto simp: ask_isolation_def read_answer_def fits r(2) intro: t split: if_splits)
qed

text \<open>A new device with an Espressif address, seen only in the neighbour table.\<close>

definition scan1 :: scan_sources where
  "scan1 = \<lparr>src_leases = Inr [], src_mdns = (\<lambda>_. Inr []),
     src_arp = Some (''IP address       HW type     Flags       HW address            Mask     Device'' @ [LF]
       @ ''10.0.0.9         0x1         0x2         a4:cf:12:00:00:01     *        eth1'' @ [LF]),
     src_oui = Some [[''Registry'', ''Assignment'', ''Organization Name'', ''Organization Address''], [''MA-L'', ''A4CF12'', ''Espressif Inc.'', ''CN'']]\<rparr>"

lemma scan1_observations: "scan_observations config1 scan1 =
    [\<lparr>ob_mac = ''a4:cf:12:00:00:01'', ob_ip = Some ''10.0.0.9'', ob_hostname = [], ob_interface = ''eth1'', ob_vendor = Some ''Espressif Inc.'', ob_services = []\<rparr>]"
proof -
  have i: "map if_device (iot_interfaces config1) = [''eth1'']" by (simp add: iot_interfaces_def config1_def config0_simps)
  have a: "read_arp_table (src_arp scan1) = [\<lparr>arp_ip = ''10.0.0.9'', arp_mac = ''a4:cf:12:00:00:01'', arp_device = ''eth1''\<rparr>]" by code_simp
  have v: "vendor_for ''a4:cf:12:00:00:01'' (load_vendor_db (src_oui scan1)) = Some ''Espressif Inc.''" by code_simp
  have "fst (scan_leases scan1) = []" by (simp add: scan_leases_def scan1_def)
  moreover have "fst (scan_mdns config1 scan1) = []" by (simp add: scan_mdns_def scan1_def)
  ultimately show ?thesis
    by (simp add: scan_observations_def gather_observations_def i a merge_arp_def scan_vendors_def Let_def v dict_get_or_def)
qed

definition link1 :: iot_link where
  "link1 = \<lparr>il_transport = Answered, il_json_error = (\<lambda>_. ''Expecting value''), il_dumps = json_quoted\<rparr>"

theorem isolation_decided_witness:
  "case run_scan config1 scan1 (ask_isolation link1 (\<lambda>_. None) (Inr config1)) 0 [] of (r, written, st') \<Rightarrow>
     st' = [''a4:cf:12:00:00:01''] \<and> sr_isolated r = st'"
proof -
  have c: "iot_enabled (iot config1)" "auto_isolate (iot config1)" "trusted_macs (iot config1) = []" "isolated_macs (iot config1) = []"
    by (simp_all add: config1_def)
  have "cl_category (classify \<lparr>ob_mac = ''a4:cf:12:00:00:01'', ob_ip = Some ''10.0.0.9'', ob_hostname = [], ob_interface = ''eth1'',
      ob_vendor = Some ''Espressif Inc.'', ob_services = []\<rparr>) = CATEGORY_IOT" by code_simp
  with c have t: "to_isolate config1 scan1 = {''a4:cf:12:00:00:01''}" by (auto simp: to_isolate_def scan1_observations)
  have one: "xs = [x]" if "set xs = {x}" "distinct xs" for xs :: "string list" and x
  proof (cases xs)
    case (Cons y ys)
    with that have "y = x" "set ys \<subseteq> {x}" "x \<notin> set ys" by auto
    then have "ys = []" by (cases ys) auto
    with Cons \<open>y = x\<close> show ?thesis by simp
  qed (use that in simp)
  have l: "length (sync_answer json_quoted (Isolated [''a4:cf:12:00:00:01''] [])) \<le> MAX_LINE_BYTES" by code_simp
  show ?thesis
    using isolation_decided [where cfg = config1 and src = scan1 and link = link1 and nft_script = "\<lambda>_. None" and helper_cfg = "Inr config1" and now = 0 and st = "[]"] t one c l
    by (fastforce simp: link1_def sync_allowed_def untrusted_of_def Let_def split: prod.splits)
qed

subsection \<open>Leases that count\<close>

text \<open>Every lease the helper hands out is live, has a hardware address of the right form and an address of its own.\<close>

definition lease_ok :: "seconds \<Rightarrow> string \<Rightarrow> lease \<Rightarrow> bool" where
  "lease_ok now a l \<longleftrightarrow> ls_ip l = a \<and> ipv4_address a \<noteq> None \<and> mac_re (ls_mac l) \<and> now < of_int (ls_expire l) \<and> length (ls_hostname l) \<le> MAX_HOSTNAME
     \<and> list_all (in_range 33 126) (ls_hostname l)"

lemma clean_hostname_ok: "length (clean_hostname s) \<le> MAX_HOSTNAME \<and> list_all (in_range 33 126) (clean_hostname s)"
  by (auto simp: clean_hostname_def list_all_iff dest: in_set_takeD)

definition lease_table_ok :: "seconds \<Rightarrow> (string, lease option) dict \<Rightarrow> bool" where
  "lease_table_ok now d \<longleftrightarrow> dict_ok d \<and> (\<forall>a l. (a, Some l) \<in> set d \<longrightarrow> lease_ok now a l)"

lemma lease_table_update:
  "lease_table_ok now d \<Longrightarrow> (\<And>l. x = Some l \<Longrightarrow> lease_ok now a l) \<Longrightarrow> lease_table_ok now (AList.update a x d)"
  by (auto simp: lease_table_ok_def dict_simps mem_AList_update split: if_splits)

lemma note_lease_ok: "lease_table_ok now d \<Longrightarrow> lease_table_ok now (note_lease now row d)"
  unfolding note_lease_def Let_def
  by (auto simp: lease_ok_def clean_hostname_ok not_le normalize_mac_ok intro!: lease_table_update split: option.split)

lemma live_leases_distinct:
  "lease_table_ok now d \<Longrightarrow> distinct (map ls_ip (List.map_filter snd d)) \<and> ls_ip ` set (List.map_filter snd d) \<subseteq> fst ` set d"
proof (induction d)
  case (Cons p d)
  obtain a x where p: "p = (a, x)" by fastforce
  from Cons.prems have "lease_table_ok now d" and fresh: "a \<notin> fst ` set d" and ok: "\<And>l. x = Some l \<Longrightarrow> ls_ip l = a"
    by (auto simp: p lease_table_ok_def dict_ok_def lease_ok_def)
  with Cons.IH show ?case by (cases x) (auto simp: p map_filter_simps)
qed (simp add: map_filter_simps)

lemma read_leases_ok: "distinct (map ls_ip (read_leases f now)) \<and> (\<forall>l\<in>set (read_leases f now). lease_ok now (ls_ip l) l)"
proof (cases f)
  case (Some rows)
  let ?d = "fold (note_lease now) rows []"
  have d: "lease_table_ok now ?d"
    by (rule List.fold_invariant [where Q = "\<lambda>_. True" and P = "lease_table_ok now"])
      (simp_all add: note_lease_ok, simp add: lease_table_ok_def dict_ok_def)
  then have "distinct (map ls_ip (List.map_filter snd ?d))" by (rule live_leases_distinct [THEN conjunct1])
  moreover from d have "\<forall>l\<in>set (List.map_filter snd ?d). lease_ok now (ls_ip l) l"
    by (fastforce simp: map_filter_def lease_table_ok_def lease_ok_def)
  ultimately show ?thesis by (simp add: read_leases_def Some distinct_map)
qed (simp add: read_leases_def)

end
