(* ===== verification/Helper.thy ===== *)
theory Helper
  imports Ztna Ids_Daemon Iot
begin

text \<open>
  The privileged helper's front door: who is at the other end of the socket and what they may ask for
  (\<open>src/src/frfw/helper/peer.py\<close>), one connection and the dispatch of its command (\<open>_Handler.handle\<close>, \<open>_handle_request\<close> of
  \<open>src/src/frfw/helper/server.py\<close>), the status and audit commands, and the audit log (\<open>src/src/frfw/webui/audit.py\<close>).

  The state (\<open>helper_world\<close>) is what the commands modelled here change -- the quarantine sets, the admitted devices, the
  isolated devices, the audit log -- with the saved configuration as it loads, and \<open>hw_other\<close> for all the rest (the
  ruleset, the services, the files).  The commands that change only the rest are one parameter of the outside world
  (\<open>helper_env\<close>), with the readers of JSON, of the system's tables and of \<open>nft\<close>; each connection has its own.

  A process of the sensors' account can have hosts quarantined and devices isolated, within bounds, and nothing else;
  a process of any other account can do nothing at all.
\<close>

subsection \<open>Peers (peer.py)\<close>

datatype peer_role = FULL | SENSOR

definition SENSOR_COMMANDS :: "string list" where
  "SENSOR_COMMANDS = [''ping'', ''quarantine_ip'', ''conntrack_sample'', ''dhcp_leases'', ''iot_sync_isolation'']"

record peer_policy =
  full_uids :: "int list"
  sensor_uids :: "int list"

text \<open>The accounts' uids: that of the helper itself, and those of the web interface and of the sensors where they exist.\<close>

definition from_system :: "int \<Rightarrow> int option \<Rightarrow> int option \<Rightarrow> peer_policy" where
  "from_system euid webui sensor =
     (let full = [0, euid] @ (case webui of None \<Rightarrow> [] | Some u \<Rightarrow> [u]); sensors = (case sensor of None \<Rightarrow> [] | Some u \<Rightarrow> [u])
      in \<lparr>full_uids = filter (\<lambda>u. u \<notin> set sensors) full, sensor_uids = sensors\<rparr>)"

definition role_of :: "peer_policy \<Rightarrow> int \<Rightarrow> peer_role option" where
  "role_of p uid = (if uid \<in> set (full_uids p) then Some FULL else if uid \<in> set (sensor_uids p) then Some SENSOR else None)"

text \<open>A command that is a list or an object cannot be looked up in the set of commands (\<open>TypeError\<close>).\<close>

definition allows :: "peer_policy \<Rightarrow> int \<Rightarrow> pyval \<Rightarrow> (string, bool) result" where
  "allows p uid cmd =
     (case role_of p uid of
        Some FULL \<Rightarrow> Inr True
      | Some SENSOR \<Rightarrow>
         (case cmd of VStr s \<Rightarrow> Inr (s \<in> set SENSOR_COMMANDS) | VList _ \<Rightarrow> Inl ''unhashable type'' | VDict _ \<Rightarrow> Inl ''unhashable type'' | _ \<Rightarrow> Inr False)
      | None \<Rightarrow> Inr False)"

subsection \<open>The audit log (audit.py)\<close>

definition AUDIT_MAX_BYTES :: nat where "AUDIT_MAX_BYTES = 1024 * 1024"

text \<open>The log and its one old generation; \<open>None\<close> where the file does not exist.\<close>

record audit_log =
  log_now :: "string option"
  log_old :: "string option"

definition audit_append_line :: "string \<Rightarrow> audit_log \<Rightarrow> audit_log" where
  "audit_append_line line a =
     (case log_now a of
        Some content \<Rightarrow>
          if length content + length line > AUDIT_MAX_BYTES then \<lparr>log_now = Some line, log_old = Some content\<rparr> else a\<lparr>log_now := Some (content @ line)\<rparr>
      | None \<Rightarrow> a\<lparr>log_now := Some line\<rparr>)"

definition AUDIT_MAX_FIELDS :: nat where "AUDIT_MAX_FIELDS = 20"
definition AUDIT_MAX_TEXT :: nat where "AUDIT_MAX_TEXT = 500"
definition AUDIT_RESERVED :: "string list" where "AUDIT_RESERVED = [''ts'', ''via'']"

text \<open>\<open>str.isidentifier()\<close>\<close>

definition ident_start :: "char \<Rightarrow> bool" where
  "ident_start c \<longleftrightarrow> is_lower c \<or> is_upper c \<or> c = CHR ''_'' \<or> in_range 170 170 c \<or> in_range 181 181 c \<or> in_range 186 186 c
     \<or> in_range 192 214 c \<or> in_range 216 246 c \<or> in_range 248 255 c"

definition is_identifier :: "string \<Rightarrow> bool" where
  "is_identifier s = (case s of [] \<Rightarrow> False | c # cs \<Rightarrow> ident_start c \<and> list_all (\<lambda>c. ident_start c \<or> is_digit c \<or> in_range 183 183 c) cs)"

definition clean_field :: "pyval \<times> pyval \<Rightarrow> (string, pyval) dict \<Rightarrow> (string, (string, pyval) dict) result" where
  "clean_field f clean =
     (case fst f of
        VStr key \<Rightarrow>
          if \<not> is_identifier key \<or> length key > 40 \<or> key \<in> set AUDIT_RESERVED then Inl (''invalid audit field '' @ py_repr key)
          else (case snd f of
              VStr s \<Rightarrow> Inr (AList.update key (VStr (take AUDIT_MAX_TEXT s)) clean)
            | VList _ \<Rightarrow> Inl (''invalid value for audit field '' @ py_repr key)
            | VDict _ \<Rightarrow> Inl (''invalid value for audit field '' @ py_repr key)
            | v \<Rightarrow> Inr (AList.update key v clean))
      | _ \<Rightarrow> Inl ''invalid audit field'')"

definition clean_entry :: "pyval \<Rightarrow> (string, (string, pyval) dict) result" where
  "clean_entry entry =
     (case entry of
        VDict d \<Rightarrow> if length d > AUDIT_MAX_FIELDS then Inl '''entry' must be a small mapping'' else fold_result clean_field d []
      | _ \<Rightarrow> Inl '''entry' must be a small mapping'')"

text \<open>
  \<open>dump\<close> is \<open>json.dumps(..., sort_keys=True)\<close> of an entry with the time \<open>ts\<close> in front.  The log's directory is there and writable.
\<close>

definition handle_audit_append :: "(seconds \<Rightarrow> (string, pyval) dict \<Rightarrow> string) \<Rightarrow> seconds \<Rightarrow> pyval \<Rightarrow> audit_log \<Rightarrow> (string, unit) result \<times> audit_log" where
  "handle_audit_append dump now entry a =
     (case clean_entry entry of
        Inl e \<Rightarrow> (Inl e, a)
      | Inr clean \<Rightarrow> (Inr (), audit_append_line (dump now (clean @ [(''via'', VStr ''webui'')]) @ [LF])
          (if log_now a = None then a\<lparr>log_now := Some []\<rparr> else a)))"

subsection \<open>Requests (server.py)\<close>

record 'r helper_world =
  hw_config :: "(string, config) result"
  hw_quarantine :: elements
  hw_ztna :: ztna_sys
  hw_isolated :: "string list"
  hw_audit :: audit_log
  hw_other :: 'r

text \<open>An answer is what its JSON stands for; \<open>Dropped\<close> is a connection closed without one.\<close>

datatype helper_answer = Pong | Answer helper_reply | Quarantined "(string \<times> int) list" "(string \<times> int) list" | Flows sample
  | Sessions "(string \<times> string \<times> int) list" | Status ztna_status | DhcpLeases "lease list" | Isolation iot_reply | IsolatedNow "string list"
  | AuditOk | Failed string | OtherAnswer pyval | Refused pyval int | InvalidRequest string | Dropped

record 'r helper_env =
  he_json :: "string \<Rightarrow> (string, pyval) result"
  he_dump :: "seconds \<Rightarrow> (string, pyval) dict \<Rightarrow> string"
  he_now :: seconds
  he_quarantine :: quarantine_env
  he_ula :: "ip_network option"
  he_nft_list :: "string \<Rightarrow> nft_answer"
  he_nft_script :: "string \<Rightarrow> string option"
  he_conntrack :: "string option"
  he_leases :: "(string, string) dict list option"
  he_other :: "string \<Rightarrow> (string, pyval) dict \<Rightarrow> 'r helper_world \<Rightarrow> helper_answer \<times> 'r helper_world"

definition OTHER_COMMANDS :: "string list" where
  "OTHER_COMMANDS = [''apply'', ''set_management_addresses'', ''apply_status'', ''apply_confirm'', ''apply_revert'', ''restore_rejected'', ''rollback'',
     ''save_config'', ''refresh_adblock'', ''ban_ip'', ''bruteforce_status'', ''hw_ram_info'', ''iot_scan'', ''listening_sockets'',
     ''wireguard_status'', ''firewall_drops'', ''xdp_stats'', ''ipv6_status'', ''source_device'']"

definition loaded_config :: "'r helper_world \<Rightarrow> config option" where
  "loaded_config w = (case hw_config w of Inl _ \<Rightarrow> None | Inr c \<Rightarrow> Some c)"

definition do_ids_quarantine_status :: "'r helper_env \<Rightarrow> helper_answer" where
  "do_ids_quarantine_status env =
     (case list_set_elements (he_nft_list env IDS_QUARANTINE_SET_NAME) of
        Inl (IdsQuarantineError m) \<Rightarrow> Failed m
      | Inl (InvalidArgument m) \<Rightarrow> InvalidRequest m
      | Inr ips \<Rightarrow>
         (case list_set_elements (he_nft_list env IDS_QUARANTINE_MAC_SET_NAME) of
            Inl (IdsQuarantineError m) \<Rightarrow> Failed m
          | Inl (InvalidArgument m) \<Rightarrow> InvalidRequest m
          | Inr macs \<Rightarrow> Quarantined ips macs))"

definition do_ztna_status :: "'r helper_env \<Rightarrow> (string, pyval) dict \<Rightarrow> 'r helper_world \<Rightarrow> helper_answer" where
  "do_ztna_status env request w =
     (case map_of request ''ip'' of
        Some (VStr ip) \<Rightarrow>
          if ip = [] then Failed '''ip' is required''
          else if request_address (he_quarantine env) ip = None then Failed (''invalid IP address '' @ py_repr ip)
          else (case hw_config w of
              Inl e \<Rightarrow> Failed e
            | Inr c \<Rightarrow> (case handle_ztna_status (he_quarantine env) (he_nft_list env) c (he_ula env) ip (hw_ztna w) of
                Inl e \<Rightarrow> Failed (ztna_error_text e) | Inr s \<Rightarrow> Status s))
      | _ \<Rightarrow> Failed '''ip' is required'')"

definition handle_request :: "'r helper_env \<Rightarrow> (string, pyval) dict \<Rightarrow> 'r helper_world \<Rightarrow> helper_answer \<times> 'r helper_world" where
  "handle_request env request w =
     (case map_of request ''cmd'' of
        Some (VStr cmd) \<Rightarrow>
          if cmd = ''ping'' then (Pong, w)
          else if cmd = ''authorize_ztna'' then
            (case handle_authorize_ztna (he_quarantine env) (loaded_config w) (he_ula env) request (hw_ztna w) of (r, z) \<Rightarrow> (Answer r, w\<lparr>hw_ztna := z\<rparr>))
          else if cmd = ''ztna_status'' then (do_ztna_status env request w, w)
          else if cmd = ''quarantine_ip'' then
            (case handle_quarantine_ip (he_quarantine env) (loaded_config w) request (hw_quarantine w) of (r, q) \<Rightarrow> (Answer r, w\<lparr>hw_quarantine := q\<rparr>))
          else if cmd = ''ids_quarantine_status'' then (do_ids_quarantine_status env, w)
          else if cmd = ''conntrack_sample'' then (Flows (handle_conntrack_sample (he_quarantine env) (loaded_config w) (he_conntrack env)), w)
          else if cmd = ''ztna_sessions_status'' then
            (case list_elements (he_nft_list env) of Inl e \<Rightarrow> (Failed (ztna_error_text e), w) | Inr xs \<Rightarrow> (Sessions xs, w))
          else if cmd = ''dhcp_leases'' then (DhcpLeases (read_leases (he_leases env) (he_now env)), w)
          else if cmd = ''iot_sync_isolation'' then
            (case handle_iot_sync_isolation (he_nft_script env) (hw_config w) (dict_get_or request ''macs'' VNone) (hw_isolated w) of
               (r, ms) \<Rightarrow> (Isolation r, w\<lparr>hw_isolated := ms\<rparr>))
          else if cmd = ''iot_isolation_status'' then
            (case list_isolated (he_nft_list env IOT_ISOLATED_SET_NAME) of Inl e \<Rightarrow> (Failed e, w) | Inr xs \<Rightarrow> (IsolatedNow xs, w))
          else if cmd = ''audit_append'' then
            (case handle_audit_append (he_dump env) (he_now env) (dict_get_or request ''entry'' VNone) (hw_audit w) of
               (Inl e, a) \<Rightarrow> (Failed e, w\<lparr>hw_audit := a\<rparr>) | (Inr _, a) \<Rightarrow> (AuditOk, w\<lparr>hw_audit := a\<rparr>))
          else if cmd \<in> set OTHER_COMMANDS then he_other env cmd request w
          else (Failed (''unknown command '' @ py_repr cmd), w)
      | _ \<Rightarrow> (Failed ''unknown command'', w))"

subsection \<open>Connections\<close>

definition request_line :: "string \<Rightarrow> string" where
  "request_line sent = take MAX_LINE_BYTES (takeWhile (\<lambda>c. c \<noteq> LF) sent @ (if LF \<in> set sent then [LF] else []))"

definition request_fields :: "(pyval \<times> pyval) list \<Rightarrow> (string, pyval) dict" where
  "request_fields d = List.map_filter (\<lambda>(k, v). case k of VStr s \<Rightarrow> Some (s, v) | _ \<Rightarrow> None) d"

definition handle_connection :: "'r helper_env \<Rightarrow> peer_policy \<Rightarrow> int \<Rightarrow> string \<Rightarrow> 'r helper_world \<Rightarrow> helper_answer \<times> 'r helper_world" where
  "handle_connection env policy uid sent w =
     (if request_line sent = [] then (Dropped, w)
      else case he_json env (request_line sent) of
          Inl e \<Rightarrow> (InvalidRequest e, w)
        | Inr (VDict d) \<Rightarrow>
           (let request = request_fields d; cmd = dict_get_or request ''cmd'' VNone in
            case allows policy uid cmd of
              Inl e \<Rightarrow> (InvalidRequest e, w)
            | Inr True \<Rightarrow> handle_request env request w
            | Inr False \<Rightarrow> (Refused cmd uid, w))
        | Inr _ \<Rightarrow> (InvalidRequest ''request must be a JSON object'', w))"

fun serve :: "peer_policy \<Rightarrow> ('r helper_env \<times> int \<times> string) list \<Rightarrow> 'r helper_world \<Rightarrow> 'r helper_world" where
  "serve policy [] w = w"
| "serve policy ((env, uid, sent) # conns) w = serve policy conns (snd (handle_connection env policy uid sent w))"

subsection \<open>What the sensors can do\<close>

definition isolatable :: "(string, config) result \<Rightarrow> string list \<Rightarrow> bool" where
  "isolatable cfg ms \<longleftrightarrow> list_all mac_re ms \<and> length ms \<le> MAX_ISOLATED \<and> (\<exists>c. cfg = Inr c \<and> iot_enabled (iot c) \<and> set ms \<inter> set (trusted_macs (iot c)) = {})"

text \<open>From \<open>w\<close> to \<open>w'\<close>, over these connections, the sets of quarantined and isolated devices have changed and nothing else.\<close>

definition confined :: "('r helper_env \<times> int \<times> string) list \<Rightarrow> 'r helper_world \<Rightarrow> 'r helper_world \<Rightarrow> bool" where
  "confined conns w w' \<longleftrightarrow>
     hw_config w' = hw_config w \<and> hw_ztna w' = hw_ztna w \<and> hw_audit w' = hw_audit w \<and> hw_other w' = hw_other w
     \<and> (\<exists>added. hw_quarantine w' = hw_quarantine w @ added
          \<and> (\<forall>e\<in>set added. \<exists>(env, uid, sent)\<in>set conns. quarantinable (he_quarantine env) (router_addresses (loaded_config w)) (lan_device_names (loaded_config w)) e))
     \<and> (hw_isolated w' = hw_isolated w \<or> conns \<noteq> [] \<and> isolatable (hw_config w) (hw_isolated w'))"

lemma confined_refl [simp]: "confined conns w w"
  by (simp add: confined_def)

lemma confined_trans: "confined xs w w' \<Longrightarrow> confined ys w' w'' \<Longrightarrow> confined (xs @ ys) w w''"
proof -
  assume c: "confined xs w w'" "confined ys w' w''"
  then obtain q q' where q: "hw_quarantine w' = hw_quarantine w @ q" "hw_quarantine w'' = hw_quarantine w @ q @ q'"
    "\<forall>e\<in>set (q @ q'). \<exists>(env, uid, sent)\<in>set (xs @ ys). quarantinable (he_quarantine env) (router_addresses (loaded_config w)) (lan_device_names (loaded_config w)) e"
    unfolding confined_def loaded_config_def by fastforce
  with c show ?thesis unfolding confined_def by auto
qed

lemma normalize_macs_bounded: "normalize_macs vs = Inr ms \<Longrightarrow> list_all mac_re ms \<and> length ms \<le> MAX_ISOLATED"
proof -
  assume r: "normalize_macs vs = Inr ms"
  have step: "note_mac v out = Inr out' \<Longrightarrow> list_all mac_re out \<Longrightarrow> list_all mac_re out' \<and> length out' \<le> Suc (length out)" for v out out'
    by (auto simp: note_mac_def split: pyval.splits if_splits)
  have "fold_result note_mac vs out = Inr ms \<Longrightarrow> list_all mac_re out \<Longrightarrow> list_all mac_re ms \<and> length ms \<le> length vs + length out" for out
  proof (induction vs arbitrary: out)
    case (Cons v vs)
    then obtain out' where "note_mac v out = Inr out'" "fold_result note_mac vs out' = Inr ms" by auto
    with step [OF this(1) Cons.prems(2)] Cons.IH [of out'] show ?case by auto
  qed simp
  from this [of "[]"] r show ?thesis by (auto simp: normalize_macs_def split: if_splits)
qed

lemma iot_sync_isolatable:
  assumes "handle_iot_sync_isolation script cfg v st = (r, st')"
  shows "st' = st \<or> isolatable cfg st'"
proof -
  have sync: "st' = st \<or> isolatable cfg st'" if "sync_isolated script (filter (\<lambda>m. m \<notin> set (trusted_macs (iot c))) ms) st = (q, st')" "cfg = Inr c" "iot_enabled (iot c)"
    "list_all mac_re ms" for c ms q
  proof -
    let ?ms = "filter (\<lambda>m. m \<notin> set (trusted_macs (iot c))) ms"
    have "fold_result note_mac (map VStr xs) out = Inr zs \<Longrightarrow> list_all mac_re xs \<Longrightarrow> set zs \<subseteq> set out \<union> set xs" for xs out zs
      by (induction xs arbitrary: out) (fastforce simp: note_mac_def mac_lower split: if_splits)+
    from this [of ?ms "[]"] that(4) have "normalize_macs (map VStr ?ms) = Inr zs \<Longrightarrow> set zs \<subseteq> set ?ms" for zs
      by (auto simp: normalize_macs_def list_all_iff split: if_splits)
    with that normalize_macs_bounded [of "map VStr ?ms"] show ?thesis
      by (fastforce simp: sync_isolated_def isolatable_def split: sum.splits option.splits)
  qed
  show ?thesis
  proof (cases "\<exists>vs ms c. v = VList vs \<and> normalize_macs vs = Inr ms \<and> cfg = Inr c \<and> iot_enabled (iot c)")
    case True
    then obtain vs ms c where "v = VList vs" and n: "normalize_macs vs = Inr ms" and "cfg = Inr c" "iot_enabled (iot c)" by blast
    with assms sync normalize_macs_bounded [OF n] show ?thesis
      by (auto simp: handle_iot_sync_isolation_def split: prod.splits sum.splits)
  qed (use assms in \<open>auto simp: handle_iot_sync_isolation_def split: pyval.splits sum.splits if_splits\<close>)
qed

lemma handle_quarantine_added:
  assumes "handle_quarantine_ip env cfg request st = (r, st')"
  shows "\<exists>new. st' = st @ new \<and> list_all (quarantinable env (router_addresses cfg) (lan_device_names cfg)) new"
  using assms
  by (auto simp: handle_quarantine_ip_def split: option.splits pyval.splits if_splits prod.splits dest: quarantine_ip_elements)

lemma sensor_request_confined:
  assumes "allows policy uid cmd = Inr True" and "role_of policy uid = Some SENSOR" and "cmd = dict_get_or request ''cmd'' VNone"
  shows "confined [(env, uid, sent)] w (snd (handle_request env request w))"
proof -
  obtain s where s: "cmd = VStr s" "s \<in> set SENSOR_COMMANDS" using assms(1,2) by (auto simp: allows_def split: pyval.splits)
  then have c: "map_of request ''cmd'' = Some (VStr s)" using assms(3) by (auto simp: dict_get_or_def split: option.splits)
  from s(2) have "s = ''ping'' \<or> s = ''quarantine_ip'' \<or> s = ''conntrack_sample'' \<or> s = ''dhcp_leases'' \<or> s = ''iot_sync_isolation''"
    unfolding SENSOR_COMMANDS_def by (simp only: list.set insert_iff empty_iff simp_thms)
  then show ?thesis
  proof (elim disjE)
    assume "s = ''quarantine_ip''"
    obtain r q where q: "handle_quarantine_ip (he_quarantine env) (loaded_config w) request (hw_quarantine w) = (r, q)" by fastforce
    have "snd (handle_request env request w) = w\<lparr>hw_quarantine := q\<rparr>" using \<open>s = _\<close> c q by (simp add: handle_request_def)
    with handle_quarantine_added [OF q] show ?thesis by (auto simp: confined_def list_all_iff)
  next
    assume "s = ''iot_sync_isolation''"
    obtain r ms where q: "handle_iot_sync_isolation (he_nft_script env) (hw_config w) (dict_get_or request ''macs'' VNone) (hw_isolated w) = (r, ms)" by fastforce
    have "snd (handle_request env request w) = w\<lparr>hw_isolated := ms\<rparr>" using \<open>s = _\<close> c q by (simp add: handle_request_def)
    with iot_sync_isolatable [OF q] show ?thesis by (auto simp: confined_def)
  qed (use c in \<open>simp_all add: handle_request_def\<close>)
qed

lemma connection_confined:
  assumes "role_of policy uid \<noteq> Some FULL"
  shows "confined (if role_of policy uid = Some SENSOR then [(env, uid, sent)] else []) w (snd (handle_connection env policy uid sent w))"
proof (cases "\<exists>d. request_line sent \<noteq> [] \<and> he_json env (request_line sent) = Inr (VDict d) \<and> allows policy uid (dict_get_or (request_fields d) ''cmd'' VNone) = Inr True")
  case True
  then obtain d where d: "request_line sent \<noteq> []" "he_json env (request_line sent) = Inr (VDict d)"
    "allows policy uid (dict_get_or (request_fields d) ''cmd'' VNone) = Inr True" by blast
  from d(3) assms have s: "role_of policy uid = Some SENSOR" by (auto simp: allows_def split: option.splits peer_role.splits)
  from d have "snd (handle_connection env policy uid sent w) = snd (handle_request env (request_fields d) w)" by (simp add: handle_connection_def)
  with sensor_request_confined [OF d(3) s refl] s show ?thesis by simp
next
  case False
  then have "snd (handle_connection env policy uid sent w) = w"
    by (auto simp: handle_connection_def Let_def split: sum.splits pyval.splits bool.splits)
  then show ?thesis by simp
qed

definition of_role :: "peer_policy \<Rightarrow> peer_role \<Rightarrow> ('r helper_env \<times> int \<times> string) list \<Rightarrow> ('r helper_env \<times> int \<times> string) list" where
  "of_role policy r conns = filter (\<lambda>(env, uid, sent). role_of policy uid = Some r) conns"

lemma serve_confined: "of_role policy FULL conns = [] \<Longrightarrow> confined (of_role policy SENSOR conns) w (serve policy conns w)"
proof (induction conns arbitrary: w)
  case (Cons c conns)
  obtain env uid sent where c: "c = (env, uid, sent)" by (metis prod.collapse)
  from Cons.prems have nf: "role_of policy uid \<noteq> Some FULL" "of_role policy FULL conns = []" by (auto simp: of_role_def c split: if_splits)
  have "of_role policy SENSOR (c # conns) = (if role_of policy uid = Some SENSOR then [(env, uid, sent)] else []) @ of_role policy SENSOR conns"
    by (simp add: of_role_def c)
  then show ?case using confined_trans [OF connection_confined [OF nf(1), of env sent w] Cons.IH [OF nf(2)]] by (simp add: c)
qed (simp add: of_role_def)

lemma sensor_role: "role_of (from_system euid webui (Some s)) s = Some SENSOR"
  by (auto simp: role_of_def from_system_def Let_def split: option.split)

lemma stranger_role: "uid \<noteq> s \<Longrightarrow> uid \<notin> {0, euid} \<Longrightarrow> webui \<noteq> Some uid \<Longrightarrow> role_of (from_system euid webui (Some s)) uid = None"
  by (auto simp: role_of_def from_system_def Let_def split: option.split)

text \<open>
  C26: a process that parses what the network sends is one bug away from its attacker, and this is all it gives away.  Whatever the
  processes of the sensors' account send to the root helper -- any bytes, any number of connections, and even if that account is also
  the web interface's -- the saved configuration, the signed-in devices, the audit log, the ruleset, the services and the files stay as they are.  The
  quarantine sets only grow, by addresses other than the IPv4 addresses the saved configuration gives the router (any address when
  that configuration does not load; the router's IPv6 addresses and one a provider assigned are not excluded) and by MACs the neighbour
  table holds on a LAN device, for at most seven days; the set of isolated devices is replaced, if isolation is on, by at most 4096 MACs of which the admin trusts none.
  Any other account, other than root, the helper's own and the web interface's, changes nothing at all.
\<close>

theorem sensors_confined:
  assumes "\<forall>(env, uid, sent)\<in>set conns. uid = s \<or> uid \<notin> {0, euid} \<and> webui \<noteq> Some uid"
  shows "confined (filter (\<lambda>(env, uid, sent). uid = s) conns) w (serve (from_system euid webui (Some s)) conns w)"
proof -
  let ?p = "from_system euid webui (Some s)"
  have role: "role_of ?p uid = (if uid = s then Some SENSOR else None)" if "(env, uid, sent) \<in> set conns" for env uid sent
  proof (cases "uid = s")
    case False
    with bspec [OF assms that] have "uid \<notin> {0, euid}" "webui \<noteq> Some uid" by simp_all
    with False show ?thesis by (simp add: stranger_role)
  qed (simp add: sensor_role)
  then have "of_role ?p FULL conns = []" by (auto simp: of_role_def filter_empty_conv split: if_splits)
  moreover have "of_role ?p SENSOR conns = filter (\<lambda>(env, uid, sent). uid = s) conns"
    unfolding of_role_def using role by (intro filter_cong) (auto split: if_splits)
  ultimately show ?thesis using serve_confined [of ?p conns w] by simp
qed

text \<open>The sensors' process has the laptop of the quarantine's example quarantined; a stranger's request is refused.\<close>

definition henv1 :: "unit helper_env" where
  "henv1 = \<lparr>he_json = (\<lambda>_. Inr (VDict [(VStr ''cmd'', VStr ''quarantine_ip''), (VStr ''ip'', VStr ''10.0.0.5'')])), he_dump = (\<lambda>_ _. []), he_now = 0,
     he_quarantine = env1, he_ula = None, he_nft_list = (\<lambda>_. \<lparr>returncode = 0, stderr = [], stdout_json = None\<rparr>), he_nft_script = (\<lambda>_. None),
     he_conntrack = None, he_leases = None, he_other = (\<lambda>_ _ w. (Dropped, w))\<rparr>"

definition hworld1 :: "unit helper_world" where
  "hworld1 = \<lparr>hw_config = Inr config1, hw_quarantine = [], hw_ztna = \<lparr>ztna_elements = [], ztna_names = []\<rparr>, hw_isolated = [],
     hw_audit = \<lparr>log_now = None, log_old = None\<rparr>, hw_other = ()\<rparr>"

theorem sensors_confined_witness:
  "confined [(henv1, 997, ''{}'')] hworld1 (serve (from_system 0 (Some 998) (Some 997)) [(henv1, 997, ''{}''), (henv1, 1000, ''{}'')] hworld1)"
proof -
  have "confined (filter (\<lambda>(env, uid, sent). uid = 997) [(henv1, 997, ''{}''), (henv1, 1000, ''{}'')]) hworld1
      (serve (from_system 0 (Some 998) (Some 997)) [(henv1, 997, ''{}''), (henv1, 1000, ''{}'')] hworld1)"
    by (rule sensors_confined) simp
  then show ?thesis by simp
qed

subsection \<open>How long the audit log remembers\<close>

text \<open>
  A compromised web interface can add lines, but not remove the ones that show what it did, \<open>audit.py\<close> says.  The log keeps one
  old generation: enough added lines push everything before them out of both files.
\<close>

lemma audit_rotates:
  assumes "line \<noteq> []"
  shows "\<exists>n k. (audit_append_line line ^^ n) \<lparr>log_now = Some c, log_old = old\<rparr>
    = \<lparr>log_now = Some line, log_old = Some (c @ concat (replicate k line))\<rparr>"
proof (induction "Suc AUDIT_MAX_BYTES - length c" arbitrary: c rule: less_induct)
  case less
  show ?case
  proof (cases "length c + length line > AUDIT_MAX_BYTES")
    case True
    then have "(audit_append_line line ^^ 1) \<lparr>log_now = Some c, log_old = old\<rparr> = \<lparr>log_now = Some line, log_old = Some (c @ concat (replicate 0 line))\<rparr>"
      by (simp add: audit_append_line_def)
    then show ?thesis by blast
  next
    case False
    then have step: "audit_append_line line \<lparr>log_now = Some c, log_old = old\<rparr> = \<lparr>log_now = Some (c @ line), log_old = old\<rparr>"
      by (simp add: audit_append_line_def)
    have "Suc AUDIT_MAX_BYTES - length (c @ line) < Suc AUDIT_MAX_BYTES - length c" using False assms by (cases line) auto
    from less [OF this] obtain n k where
      "(audit_append_line line ^^ n) \<lparr>log_now = Some (c @ line), log_old = old\<rparr> = \<lparr>log_now = Some line, log_old = Some ((c @ line) @ concat (replicate k line))\<rparr>"
      by blast
    with step have "(audit_append_line line ^^ Suc n) \<lparr>log_now = Some c, log_old = old\<rparr>
        = \<lparr>log_now = Some line, log_old = Some (c @ concat (replicate (Suc k) line))\<rparr>"
      by (simp add: funpow_Suc_right del: funpow.simps(2))
    then show ?thesis by blast
  qed
qed

lemma audit_forgets:
  assumes "line \<noteq> []"
  shows "\<exists>n k. (audit_append_line line ^^ n) \<lparr>log_now = Some c, log_old = old\<rparr> = \<lparr>log_now = Some line, log_old = Some (concat (replicate k line))\<rparr>"
proof -
  obtain n k where n: "(audit_append_line line ^^ n) \<lparr>log_now = Some c, log_old = old\<rparr> = \<lparr>log_now = Some line, log_old = Some (c @ concat (replicate k line))\<rparr>"
    using audit_rotates [OF assms] by blast
  obtain m j where m: "(audit_append_line line ^^ m) \<lparr>log_now = Some line, log_old = Some (c @ concat (replicate k line))\<rparr>
      = \<lparr>log_now = Some line, log_old = Some (line @ concat (replicate j line))\<rparr>"
    using audit_rotates [OF assms] by blast
  from n m have "(audit_append_line line ^^ (m + n)) \<lparr>log_now = Some c, log_old = old\<rparr> = \<lparr>log_now = Some line, log_old = Some (concat (replicate (Suc j) line))\<rparr>"
    by (simp add: funpow_add)
  then show ?thesis by blast
qed

end
