(* ===== verification/Ip6_Text.thy ===== *)
theory Ip6_Text
  imports Validate Py_Text Bytes
begin

text \<open>
  Python's \<open>ipaddress.IPv6Address(text)\<close> and \<open>ip_address(text)\<close>: eight groups of hexadecimal digits, one run of
  them left out as a double colon, the last two as an IPv4 address, and a zone behind a percent sign.  Reading
  the text \<open>show_ipv6\<close> writes gives the address back.
\<close>

fun hex_number :: "int \<Rightarrow> string \<Rightarrow> int option" where
  "hex_number n [] = Some n"
| "hex_number n (c # s) = (case hex_digit c of None \<Rightarrow> None | Some d \<Rightarrow> hex_number (16 * n + int d) s)"

text \<open>\<open>_parse_hextet\<close>.\<close>

definition hextet :: "string \<Rightarrow> int option" where
  "hextet p = (if p = [] \<or> length p > 4 then None else hex_number 0 p)"

text \<open>The groups between the colons (\<open>_ip_int_from_string\<close>).\<close>

definition ipv6_parts :: "string list \<Rightarrow> int list option" where
  "ipv6_parts parts =
     (if length parts > 9 then None
      else case filter (\<lambda>i. parts ! i = []) [1..<length parts - 1] of
        [] \<Rightarrow> if length parts = 8 then those (map hextet parts) else None
      | [i] \<Rightarrow>
          (let hi = (if hd parts = [] then i - 1 else i);
               lo = (if last parts = [] then length parts - i - 2 else length parts - i - 1)
           in if hd parts = [] \<and> hi \<noteq> 0 \<or> last parts = [] \<and> lo \<noteq> 0 \<or> 8 \<le> hi + lo then None
              else case (those (map hextet (take hi parts)), those (map hextet (drop (length parts - lo) parts))) of
                (Some a, Some b) \<Rightarrow> Some (a @ replicate (8 - (hi + lo)) 0 @ b)
              | _ \<Rightarrow> None)
      | _ \<Rightarrow> None)"

definition ipv6_value :: "int list \<Rightarrow> int" where
  "ipv6_value hs = fold (\<lambda>h n. n * 65536 + h) hs 0"

definition parse_ipv6 :: "string \<Rightarrow> (int \<times> string option) option" where
  "parse_ipv6 s =
     (let (addr, scope) = partition_at CHR ''%'' s; parts = split_on CHR '':'' addr in
      if CHR ''/'' \<in> set s \<or> CHR ''%'' \<in> set s \<and> (scope = [] \<or> CHR ''%'' \<in> set scope) \<or> length parts < 3 then None
      else case (if CHR ''.'' \<in> set (last parts)
                 then map_option (\<lambda>v. butlast parts @ [show_hex (v div 65536), show_hex (v mod 65536)]) (ipv4_address (last parts))
                 else Some parts) of
        None \<Rightarrow> None
      | Some ps \<Rightarrow> map_option (\<lambda>hs. (ipv6_value hs, if CHR ''%'' \<in> set s then Some scope else None)) (ipv6_parts ps))"

definition ip_address_ok :: "string \<Rightarrow> bool" where
  "ip_address_ok s \<longleftrightarrow> ipv4_address s \<noteq> None \<or> parse_ipv6 s \<noteq> None"

subsection \<open>Groups\<close>

lemma hex_number_append: "hex_number n (s @ [c]) = (case hex_number n s of None \<Rightarrow> None | Some m \<Rightarrow> map_option (\<lambda>d. 16 * m + int d) (hex_digit c))"
  by (induction s arbitrary: n) (auto split: option.split)

lemma show_hex_chars: "0 \<le> n \<Longrightarrow> c \<in> set (show_hex n) \<Longrightarrow> \<exists>d. 0 \<le> d \<and> d < 16 \<and> c = hex_char d"
proof (induction n rule: show_hex.induct)
  case (1 n)
  show ?case
  proof (cases "n < 16")
    case True
    with 1(2,3) show ?thesis by (auto simp: show_hex.simps [of n])
  next
    case False
    with 1(3) have "c \<in> set (show_hex (n div 16)) \<or> c = hex_char (n mod 16)" by (auto simp: show_hex.simps [of n])
    with False 1 show ?thesis by (auto intro: exI [of _ "n mod 16"])
  qed
qed

lemma show_hex_number: "0 \<le> n \<Longrightarrow> hex_number 0 (show_hex n) = Some n"
proof (induction n rule: show_hex.induct)
  case (1 n)
  have d: "0 \<le> x \<Longrightarrow> x < 16 \<Longrightarrow> hex_digit (hex_char x) = Some (nat x)" for x by (simp add: hex_char_digit)
  show ?case
  proof (cases "n < 16")
    case True
    with 1(2) show ?thesis by (simp add: show_hex.simps [of n] d)
  next
    case False
    with 1 have "hex_number 0 (show_hex (n div 16)) = Some (n div 16)" by simp
    with False show ?thesis by (simp add: show_hex.simps [of n] hex_number_append d)
  qed
qed

lemma show_hex_not_Nil [simp]: "show_hex n \<noteq> []"
  by (subst show_hex.simps) simp

lemma show_hex_length: "n < 16 ^ Suc k \<Longrightarrow> length (show_hex n) \<le> Suc k"
proof (induction k arbitrary: n)
  case 0
  then show ?case by (simp add: show_hex.simps)
next
  case (Suc k)
  show ?case
  proof (cases "n < 16")
    case False
    have "n < 16 * B \<Longrightarrow> n div 16 < B" for B by presburger
    then have "n div 16 < 16 ^ Suc k" using Suc.prems by simp
    from Suc.IH [OF this] False show ?thesis by (simp add: show_hex.simps [of n])
  qed (simp add: show_hex.simps [of n])
qed

lemma hextet_show: "0 \<le> n \<Longrightarrow> n < 65536 \<Longrightarrow> hextet (show_hex n) = Some n"
  using show_hex_length [of n 3] by (simp add: hextet_def show_hex_number)

lemma those_Some: "(\<And>x. x \<in> set xs \<Longrightarrow> f (g x) = Some x) \<Longrightarrow> those (map f (map g xs)) = Some xs"
  by (induction xs) auto

subsection \<open>The value of the groups\<close>

lemma hextets_range: "h \<in> set (hextets a) \<Longrightarrow> 0 \<le> h \<and> h < 65536"
  by (auto simp: hextets_def)

lemma ipv6_value_hextets:
  assumes "0 \<le> a" and "a < 2 ^ 128"
  shows "ipv6_value (hextets a) = a"
proof -
  define q where "q k = a div 2 ^ k" for k :: nat
  define h where "h k = q k mod 65536" for k
  have step: "q (k + 16) * 65536 + h k = q k" for k
    by (simp add: h_def q_def power_add zdiv_zmult2_eq)
  have steps: "q 112 * 65536 + h 96 = q 96" "q 96 * 65536 + h 80 = q 80" "q 80 * 65536 + h 64 = q 64" "q 64 * 65536 + h 48 = q 48"
    "q 48 * 65536 + h 32 = q 32" "q 32 * 65536 + h 16 = q 16" "q 16 * 65536 + h 0 = q 0"
    using step [of 96] step [of 80] step [of 64] step [of 48] step [of 32] step [of 16] step [of 0] by simp_all
  have top: "h 112 = q 112" using assms by (simp add: h_def q_def)
  have "hextets a = [h 112, h 96, h 80, h 64, h 48, h 32, h 16, h 0]"
    by (simp add: hextets_def h_def q_def)
  then have "ipv6_value (hextets a) = q 0"
    by (simp only: ipv6_value_def fold_simps top mult_zero_left add_0 steps)
  then show ?thesis by (simp add: q_def)
qed

subsection \<open>Reading back what was written\<close>

lemma zero_run_zeros: "take (zero_run xs) xs = replicate (zero_run xs) 0" "zero_run xs \<le> length xs"
  by (induction xs) auto

lemma best_run_zeros:
  assumes "best_run k xs = (j, n)" and "0 < n"
  shows "k \<le> j \<and> j - k + n \<le> length xs \<and> take n (drop (j - k) xs) = replicate n 0"
  using assms
proof (induction xs arbitrary: k)
  case (Cons x xs)
  obtain j' n' where r: "best_run (Suc k) xs = (j', n')" by fastforce
  show ?case
  proof (cases "n' \<le> zero_run (x # xs) \<and> 0 < zero_run (x # xs)")
    case True
    with Cons.prems r have "j = k" "n = zero_run (x # xs)" by (auto simp: Let_def split: if_splits)
    then show ?thesis using zero_run_zeros [of "x # xs"] by simp
  next
    case False
    with Cons.prems r have "best_run (Suc k) xs = (j, n)" by (auto simp: Let_def split: if_splits)
    from Cons.IH [OF this Cons.prems(2)] have "Suc k \<le> j \<and> j - Suc k + n \<le> length xs \<and> take n (drop (j - Suc k) xs) = replicate n 0" .
    moreover from this have "j - k = Suc (j - Suc k)" by linarith
    ultimately show ?thesis by simp
  qed
qed simp

definition padded :: "string list \<Rightarrow> string list" where
  "padded ps = (if ps = [] then [[]] else ps)"

lemma join_append: "as \<noteq> [] \<Longrightarrow> bs \<noteq> [] \<Longrightarrow> py_join sep (as @ bs) = py_join sep as @ sep @ py_join sep bs"
proof (induction as rule: induct_list012)
  case (2 a)
  then show ?case by (cases bs) auto
qed simp_all

lemma join_compressed: "py_join '':'' (padded as @ [] # padded bs) = py_join '':'' as @ ''::'' @ py_join '':'' bs"
  by (simp add: padded_def join_append join_append [of "[[]]", simplified])

lemma filter_one: "a \<le> j \<Longrightarrow> j < b \<Longrightarrow> (\<And>i. a \<le> i \<Longrightarrow> i < b \<Longrightarrow> P i \<longleftrightarrow> i = j) \<Longrightarrow> filter P [a..<b] = [j]"
proof -
  assume j: "a \<le> j" "j < b" and P: "\<And>i. a \<le> i \<Longrightarrow> i < b \<Longrightarrow> P i \<longleftrightarrow> i = j"
  have "[a..<b] = [a..<j] @ j # [Suc j..<b]" 
    using j upt_add_eq_append [of a j "b - j"] by (simp add: upt_conv_Cons)
  moreover have "filter P [a..<j] = []" "filter P [Suc j..<b] = []" using j by (auto simp: filter_empty_conv P)
  ultimately show ?thesis using P [OF j] by simp
qed

lemma ipv6_parts_compressed:
  assumes "length as + length bs < 7" and "\<And>h. h \<in> set (as @ bs) \<Longrightarrow> 0 \<le> h \<and> h < 65536"
  shows "ipv6_parts (padded (map show_hex as) @ [] # padded (map show_hex bs)) = Some (as @ replicate (8 - (length as + length bs)) 0 @ bs)"
proof -
  let ?A = "padded (map show_hex as)" and ?B = "padded (map show_hex bs)"
  let ?ps = "?A @ [] # ?B"
  have A: "?A \<noteq> []" "hd ?ps = [] \<longleftrightarrow> as = []" by (cases as; simp add: padded_def)+
  have B: "?B \<noteq> []" "last ?ps = [] \<longleftrightarrow> bs = []" by (cases bs rule: rev_cases; simp add: padded_def)+
  have len: "length ?A = (if as = [] then 1 else length as)" "length ?B = (if bs = [] then 1 else length bs)"
    by (simp_all add: padded_def)
  have one: "filter (\<lambda>i. ?ps ! i = []) [1..<length ?ps - 1] = [length ?A]"
  proof (rule filter_one)
    fix i assume i: "1 \<le> i" "i < length ?ps - 1"
    show "?ps ! i = [] \<longleftrightarrow> i = length ?A"
    proof (cases "i < length ?A")
      case True
      with i show ?thesis by (auto simp: nth_append padded_def split: if_splits)
    next
      case False
      with i show ?thesis by (cases "i - length ?A") (auto simp: nth_append padded_def split: if_splits)
    qed
  qed (use len A B in \<open>auto simp: Suc_le_eq\<close>)
  have t: "those (map hextet (map show_hex xs)) = Some xs" if "set xs \<subseteq> set (as @ bs)" for xs
    using that assms(2) by (intro those_Some hextet_show) auto
  have hi: "take (length as) ?ps = map show_hex as" and lo: "drop (length ?ps - length bs) ?ps = map show_hex bs"
    using len by (auto simp: padded_def)
  show ?thesis
    using assms(1) A B one t [of as] t [of bs] hi lo len
    by (cases "as = []"; cases "bs = []") (simp_all add: ipv6_parts_def Let_def padded_def)
qed

lemma ipv6_parts_full:
  assumes "length hs = 8" and "\<And>h. h \<in> set hs \<Longrightarrow> 0 \<le> h \<and> h < 65536"
  shows "ipv6_parts (map show_hex hs) = Some hs"
proof -
  have "filter (\<lambda>i. map show_hex hs ! i = []) [1..<length (map show_hex hs) - 1] = []"
    by (auto simp: filter_empty_conv assms(1))
  moreover have "those (map hextet (map show_hex hs)) = Some hs" by (intro those_Some hextet_show) (use assms(2) in auto)
  ultimately show ?thesis using assms(1) unfolding ipv6_parts_def by simp
qed

lemma hex_char_plain: "0 \<le> d \<Longrightarrow> d < 16 \<Longrightarrow> hex_char d \<notin> {CHR '':'', CHR ''.'', CHR ''%'', CHR ''/''}"
proof -
  assume d: "0 \<le> d" "d < 16"
  from hex_char_digit [OF this] have "hex_digit (hex_char d) \<noteq> None" by simp
  moreover have "hex_digit CHR '':'' = None" "hex_digit CHR ''.'' = None" "hex_digit CHR ''%'' = None" "hex_digit CHR ''/'' = None"
    by (simp_all add: hex_digit_def is_digit_def in_range_def)
  ultimately show ?thesis by (metis empty_iff insert_iff)
qed

lemma show_hex_plain: "0 \<le> n \<Longrightarrow> set (show_hex n) \<inter> {CHR '':'', CHR ''.'', CHR ''%'', CHR ''/''} = {}"
proof -
  assume n: "0 \<le> n"
  have "c \<notin> {CHR '':'', CHR ''.'', CHR ''%'', CHR ''/''}" if "c \<in> set (show_hex n)" for c
  proof -
    from show_hex_chars [OF n that] obtain d where "0 \<le> d" "d < 16" "c = hex_char d" by (elim exE conjE)
    then show ?thesis using hex_char_plain [of d] by (simp only: simp_thms)
  qed
  then show ?thesis unfolding disjoint_iff by (intro allI impI)
qed

lemma show_ipv6_parts:
  obtains ps where "show_ipv6 a = py_join '':'' ps" and "3 \<le> length ps" and "ipv6_parts ps = Some (hextets a)"
    and "\<And>p. p \<in> set ps \<Longrightarrow> set p \<inter> {CHR '':'', CHR ''.'', CHR ''%'', CHR ''/''} = {}"
proof -
  let ?hs = "hextets a"
  obtain i n where r: "best_run 0 ?hs = (i, n)" by fastforce
  have len: "length ?hs = 8" by (simp add: hextets_def)
  have range: "\<And>h. h \<in> set ?hs \<Longrightarrow> 0 \<le> h \<and> h < 65536" by (rule hextets_range)
  show thesis
  proof (cases "n > 1")
    case False
    with r have "show_ipv6 a = py_join '':'' (map show_hex ?hs)" by (simp add: show_ipv6_def)
    then show ?thesis by (rule that) (use len range ipv6_parts_full [OF len range] show_hex_plain in auto)
  next
    case True
    let ?a = "take i ?hs" and ?b = "drop (i + n) ?hs"
    have z: "i + n \<le> 8" "take n (drop i ?hs) = replicate n 0" using best_run_zeros [OF r] True len by auto
    then have ab: "length ?a + length ?b = 8 - n" "length ?a + length ?b < 7" using True len by auto
    have "?a @ take n (drop i ?hs) @ ?b = ?hs" by (metis append_take_drop_id drop_drop add.commute)
    then have hs: "?a @ replicate (8 - (length ?a + length ?b)) 0 @ ?b = ?hs" unfolding ab(1) using z by simp
    have mem: "h \<in> set (?a @ ?b) \<Longrightarrow> h \<in> set ?hs" for h by (auto dest: in_set_takeD in_set_dropD)
    show ?thesis
    proof (rule that)
      show "show_ipv6 a = py_join '':'' (padded (map show_hex ?a) @ [] # padded (map show_hex ?b))"
        using True r unfolding join_compressed by (simp add: show_ipv6_def Let_def)
      show "ipv6_parts (padded (map show_hex ?a) @ [] # padded (map show_hex ?b)) = Some ?hs"
        using ipv6_parts_compressed [OF ab(2)] mem range hs by metis
      show "3 \<le> length (padded (map show_hex ?a) @ [] # padded (map show_hex ?b))"
        by (auto simp: padded_def Suc_le_eq)
      show "set p \<inter> {CHR '':'', CHR ''.'', CHR ''%'', CHR ''/''} = {}" if "p \<in> set (padded (map show_hex ?a) @ [] # padded (map show_hex ?b))" for p
        using that mem range show_hex_plain by (auto simp: padded_def split: if_splits)
    qed
  qed
qed

lemma join_chars: "c \<in> set (py_join sep ps) \<Longrightarrow> c \<in> set sep \<or> (\<exists>p\<in>set ps. c \<in> set p)"
  by (induction ps rule: induct_list012) auto

lemma show_ipv6_chars: "CHR ''%'' \<notin> set (show_ipv6 a)" "CHR ''/'' \<notin> set (show_ipv6 a)" "CHR ''.'' \<notin> set (show_ipv6 a)"
proof -
  obtain ps where "show_ipv6 a = py_join '':'' ps"
    and "\<And>p. p \<in> set ps \<Longrightarrow> set p \<inter> {CHR '':'', CHR ''.'', CHR ''%'', CHR ''/''} = {}" by (rule show_ipv6_parts [of a]) blast
  then have "c \<in> set (show_ipv6 a) \<Longrightarrow> c = CHR '':'' \<or> c \<notin> {CHR ''.'', CHR ''%'', CHR ''/''}" for c
    using join_chars [of c "'':''" ps] by fastforce
  then show "CHR ''%'' \<notin> set (show_ipv6 a)" "CHR ''/'' \<notin> set (show_ipv6 a)" "CHR ''.'' \<notin> set (show_ipv6 a)" by fastforce+
qed

theorem parse_show_ipv6:
  assumes "0 \<le> a" and "a < 2 ^ 128"
  shows "parse_ipv6 (show_ipv6 a) = Some (a, None)"
proof -
  obtain ps where ps: "show_ipv6 a = py_join '':'' ps" "3 \<le> length ps" "ipv6_parts ps = Some (hextets a)"
    and plain: "\<And>p. p \<in> set ps \<Longrightarrow> set p \<inter> {CHR '':'', CHR ''.'', CHR ''%'', CHR ''/''} = {}" by (rule show_ipv6_parts) blast
  have "split_on CHR '':'' (show_ipv6 a) = ps" unfolding ps(1) by (rule split_on_join) (use ps(2) plain in auto)
  moreover have "takeWhile (\<lambda>x. x \<noteq> CHR ''%'') (show_ipv6 a) = show_ipv6 a"
    using show_ipv6_chars(1) [of a] by (auto simp: takeWhile_eq_all_conv)
  then obtain scope where "partition_at CHR ''%'' (show_ipv6 a) = (show_ipv6 a, scope)" by (simp only: partition_at_def)
  moreover have "CHR ''.'' \<notin> set (last ps)" using plain [of "last ps"] ps(2) by (cases ps rule: rev_cases) auto
  ultimately show ?thesis
    using ps(2,3) show_ipv6_chars [of a] ipv6_value_hextets [OF assms] by (simp add: parse_ipv6_def)
qed

end
