(* ===== verification/Adblock.thy ===== *)
theory Adblock
  imports Loader App_Id Ip6_Text "HOL-Library.Multiset"
begin

text \<open>
  The ad blocker's lists (\<open>src/src/frfw/adblock/__init__.py\<close>): reading a downloaded blocklist, writing the
  hosts file the resolver serves, and the refresh that fetches every list and replaces its file.

  A file system is a map from paths to texts (of 8-bit characters, as in \<open>Py_Text\<close>; a name with a character
  beyond ASCII matches no host name).  A Python set of names is a set; \<open>sorted\<close> orders it.  The network is a
  parameter: \<open>net name urls\<close> is what the downloads of the list \<open>name\<close> gave, each URL with its outcome, in the
  order in which they ended (\<open>as_completed\<close>): a text, the \<open>URLError\<close> that \<open>_fetch_url\<close> translates, or another
  exception, which nothing here catches.  \<open>each_ends\<close> says that every URL of the list ends once.

  What a refresh leaves on disk is stated in full: the list it fetched, the file it kept, the file it
  removed; reading a written file gives back exactly the names written.
\<close>

subsection \<open>Reading a list\<close>

definition IGNORED_HOSTNAMES :: "string list" where
  "IGNORED_HOSTNAMES = [''localhost'', ''localhost.localdomain'', ''local'', ''broadcasthost'', ''ip6-localhost'', ''ip6-loopback'',
     ''ip6-localnet'', ''ip6-mcastprefix'', ''ip6-allnodes'', ''ip6-allrouters'', ''ip6-allhosts'']"

text \<open>\<open>_HOSTNAME_RE\<close>, which ends in \<open>\Z\<close>.\<close>

definition blockable_re :: "string \<Rightarrow> bool" where
  "blockable_re s = list_all host_label_re (split_on CHR ''.'' s)"

definition plain_name :: "string \<Rightarrow> string set" where
  "plain_name token =
     (let h = rstrip_dots (lower token) in
      if CHR ''.'' \<in> set h \<and> h \<notin> set IGNORED_HOSTNAMES \<and> blockable_re h then {h} else {})"

definition hosts_names :: "string list \<Rightarrow> string set" where
  "hosts_names tokens = set (filter (\<lambda>h. h \<notin> set IGNORED_HOSTNAMES \<and> blockable_re h) (map lower tokens))"

definition parse_hosts_line :: "string \<Rightarrow> string set" where
  "parse_hosts_line line =
     (let l = strip (fst (partition_at CHR ''#'' line)); tokens = split_ws l in
      if l = [] then {}
      else if length tokens = 1 then plain_name (hd tokens)
      else if \<not> ip_address_ok (hd tokens) then {}
      else hosts_names (tl tokens))"

definition parse_hosts_text :: "string \<Rightarrow> string set" where
  "parse_hosts_text t = fold (\<lambda>line domains. domains \<union> parse_hosts_line line) (splitlines t) {}"

subsection \<open>Files\<close>

type_synonym files = "string \<Rightarrow> string option"

definition unlines :: "string list \<Rightarrow> string" where
  "unlines ls = concat (map (\<lambda>l. l @ [LF]) ls)"

definition HOSTS_FILE_HEADER :: "string list" where
  "HOSTS_FILE_HEADER =
     [''# Managed by FR_OS (frfw.adblock) -- regenerated by `firewall-cli'',
      ''# adblock-refresh`, do not edit by hand. One deduped entry per'',
      ''# blocked domain, hosts-format ('' @ quoted ''0.0.0.0 <domain>'' @ ''), served by the'',
      ''# fr-adblock-dns dnsmasq instance via addn-hosts= (see'',
      ''# frfw.adblock.dns_service).'']"

definition hosts_entry :: "string \<Rightarrow> string" where
  "hosts_entry domain = ''0.0.0.0 '' @ domain"

definition hosts_text :: "string set \<Rightarrow> string" where
  "hosts_text domains = unlines (HOSTS_FILE_HEADER @ map hosts_entry (sorted_list_of_set domains))"

definition write_hosts_file :: "string set \<Rightarrow> string \<Rightarrow> files \<Rightarrow> files" where
  "write_hosts_file domains path fs = fs(path \<mapsto> hosts_text domains)"

definition count_blocked_domains :: "string \<Rightarrow> files \<Rightarrow> nat" where
  "count_blocked_domains path fs =
     (case fs path of None \<Rightarrow> 0
      | Some t \<Rightarrow> length (filter (\<lambda>l. strip l \<noteq> [] \<and> \<not> starts_with l ''#'') (splitlines t)))"

text \<open>The names of a file that is text; one that is not UTF-8 raises in its reader (\<open>undecodable\<close> of \<open>Dns_Resolver\<close>).\<close>

definition read_hosts_file :: "string \<Rightarrow> files \<Rightarrow> string set" where
  "read_hosts_file path fs = (case fs path of None \<Rightarrow> {} | Some t \<Rightarrow> parse_hosts_text t)"

definition category_path :: "string \<Rightarrow> string \<Rightarrow> string" where
  "category_path dir category = dir @ ''/'' @ category @ ''.hosts''"

definition BASE_CATEGORY :: string where "BASE_CATEGORY = ''ads''"

definition category_counts :: "string list \<Rightarrow> string \<Rightarrow> string \<Rightarrow> files \<Rightarrow> (string, nat) dict" where
  "category_counts categories hosts_path dir fs =
     fold (\<lambda>n. AList.update n (count_blocked_domains (category_path dir n) fs)) categories
       [(BASE_CATEGORY, count_blocked_domains hosts_path fs)]"

subsection \<open>Names that are never blocked\<close>

definition FIREFOX_DOH_CANARY :: string where "FIREFOX_DOH_CANARY = ''use-application-dns.net''"

definition is_allowlisted :: "string \<Rightarrow> string list \<Rightarrow> bool" where
  "is_allowlisted domain allowlist = list_ex (\<lambda>a. domain = a \<or> ends_with domain (CHR ''.'' # a)) allowlist"

definition apply_allowlist :: "string set \<Rightarrow> string list \<Rightarrow> string set" where
  "apply_allowlist domains allowlist = Set.filter (\<lambda>d. \<not> is_allowlisted d (allowlist @ [FIREFOX_DOH_CANARY])) domains"

subsection \<open>Fetching\<close>

datatype response = Read string | URLError string | Raises string

datatype adblock_error = AdblockError string | Uncaught string

type_synonym downloads = "string \<Rightarrow> string list \<Rightarrow> (string \<times> response) list"

definition fetch_url :: "string \<Rightarrow> response \<Rightarrow> (adblock_error, string) result" where
  "fetch_url url r =
     (case r of Read t \<Rightarrow> Inr t
      | URLError m \<Rightarrow> Inl (AdblockError (''could not fetch '' @ url @ '': '' @ m))
      | Raises m \<Rightarrow> Inl (Uncaught m))"

record fetch_result =
  fr_domains :: "string set"
  fr_failed_urls :: "string list"

definition fetch_step :: "string \<times> response \<Rightarrow> fetch_result \<Rightarrow> (adblock_error, fetch_result) result" where
  "fetch_step f acc =
     (case fetch_url (fst f) (snd f) of
        Inr t \<Rightarrow> Inr (acc\<lparr>fr_domains := fr_domains acc \<union> parse_hosts_text t\<rparr>)
      | Inl (AdblockError _) \<Rightarrow> Inr (acc\<lparr>fr_failed_urls := fr_failed_urls acc @ [fst f]\<rparr>)
      | Inl (Uncaught m) \<Rightarrow> Inl (Uncaught m))"

definition py_repr_list :: "string list \<Rightarrow> string" where
  "py_repr_list xs = ''['' @ py_join '', '' (map Py_Text.py_repr xs) @ '']''"

definition fetch_and_parse :: "downloads \<Rightarrow> string \<Rightarrow> string list \<Rightarrow> (adblock_error, fetch_result) result" where
  "fetch_and_parse net name urls =
     bind_result (fold_result fetch_step (net name urls) \<lparr>fr_domains = {}, fr_failed_urls = []\<rparr>) (\<lambda>r.
       if fr_failed_urls r \<noteq> [] \<and> length (fr_failed_urls r) = length urls
       then Inl (AdblockError (''all '' @ show_nat (length urls) @ '' source_urls failed to fetch: '' @ py_repr_list (fr_failed_urls r)))
       else Inr r)"

subsection \<open>The refresh\<close>

record refresh_result =
  domain_count :: nat
  rr_failed_urls :: "string list"
  rr_message :: string
  rr_category_counts :: "(string, nat) dict"

type_synonym blocklist = "string \<times> string list \<times> string"

definition refresh_lists :: "string list \<Rightarrow> string \<Rightarrow> (string, string list) dict \<Rightarrow> string \<Rightarrow> blocklist list" where
  "refresh_lists urls hosts_path categories dir =
     (if urls \<noteq> [] then [(BASE_CATEGORY, urls, hosts_path)] else []) @
     map (\<lambda>(name, us). (name, us, category_path dir name)) (sort categories)"

record fetched_lists =
  fl_fetched :: "(string, string set) dict"
  fl_failed_urls :: "string list"
  fl_problems :: "string list"

definition fetch_list :: "downloads \<Rightarrow> string list \<Rightarrow> blocklist \<Rightarrow> fetched_lists \<Rightarrow> (adblock_error, fetched_lists) result" where
  "fetch_list net allowlist l st =
     (let (name, urls, _) = l in
      case fetch_and_parse net name urls of
        Inl (AdblockError m) \<Rightarrow> Inr (st\<lparr>fl_problems := fl_problems st @ [name @ '': '' @ m], fl_failed_urls := fl_failed_urls st @ urls\<rparr>)
      | Inl (Uncaught m) \<Rightarrow> Inl (Uncaught m)
      | Inr r \<Rightarrow> Inr (st\<lparr>fl_fetched := AList.update name (apply_allowlist (fr_domains r) allowlist) (fl_fetched st),
                        fl_failed_urls := fl_failed_urls st @ fr_failed_urls r\<rparr>))"

text \<open>\<open>path.stem\<close> of a name that ends in \<open>.hosts\<close>; \<open>glob("*.hosts")\<close> finds such names in the directory itself.\<close>

definition hosts_stem :: "string \<Rightarrow> string" where
  "hosts_stem name = (if name = ''.hosts'' then name else take (length name - 6) name)"

definition stale_file :: "string \<Rightarrow> string list \<Rightarrow> string \<Rightarrow> bool" where
  "stale_file dir categories path \<longleftrightarrow>
     starts_with path (dir @ ''/'') \<and>
     (let name = drop (length dir + 1) path in
      CHR ''/'' \<notin> set name \<and> ends_with name ''.hosts'' \<and> hosts_stem name \<notin> set categories)"

definition write_list :: "(string, string set) dict \<Rightarrow> blocklist \<Rightarrow> files \<Rightarrow> files" where
  "write_list fetched l fs =
     (let (name, _, path) = l in case map_of fetched name of None \<Rightarrow> fs | Some domains \<Rightarrow> write_hosts_file domains path fs)"

definition refresh_files :: "string list \<Rightarrow> string \<Rightarrow> (string, string list) dict \<Rightarrow> string \<Rightarrow> (string, string set) dict \<Rightarrow> files \<Rightarrow> files" where
  "refresh_files urls hosts_path categories dir fetched fs =
     (let written = fold (write_list fetched) (refresh_lists urls hosts_path categories dir) fs;
          base = (if urls = [] then write_hosts_file {} hosts_path written else written)
      in (\<lambda>path. if stale_file dir (map fst categories) path then None else base path))"

definition refresh ::
  "downloads \<Rightarrow> bool \<Rightarrow> bool \<Rightarrow> string list \<Rightarrow> string \<Rightarrow> (string, string list) dict \<Rightarrow> string \<Rightarrow> string list \<Rightarrow> files \<Rightarrow> (adblock_error, refresh_result) result \<times> files" where
  "refresh net is_root dry_run urls hosts_path categories dir allowlist fs =
     (if urls = [] \<and> categories = [] then (Inl (AdblockError ''adblocker.source_urls and adblocker.categories are both empty; nothing to fetch''), fs)
      else case fold_result (fetch_list net allowlist) (refresh_lists urls hosts_path categories dir) \<lparr>fl_fetched = [], fl_failed_urls = [], fl_problems = []\<rparr> of
        Inl e \<Rightarrow> (Inl e, fs)
      | Inr st \<Rightarrow>
          if fl_fetched st = [] then (Inl (AdblockError (if fl_problems st = [] then ''nothing fetched'' else py_join ''; '' (fl_problems st))), fs)
          else
            (let counts = map (\<lambda>(n, ds). (n, card ds)) (fl_fetched st);
                 total = sum_list (map snd counts);
                 summary = py_join '', '' (map (\<lambda>(n, k). n @ ''='' @ show_nat k) counts);
                 tail = (if fl_problems st \<noteq> [] then ''; kept previous list for: '' @ py_join ''; '' (fl_problems st)
                         else if fl_failed_urls st \<noteq> [] then '' ('' @ show_nat (length (fl_failed_urls st)) @ '' source(s) failed: '' @ py_repr_list (fl_failed_urls st) @ '')''
                         else [])
             in if dry_run then
                  (Inr \<lparr>domain_count = total, rr_failed_urls = fl_failed_urls st,
                     rr_message = ''Would write '' @ show_nat total @ '' deduped domains ('' @ summary @ '') (dry-run)'', rr_category_counts = counts\<rparr>, fs)
                else if \<not> is_root then (Inl (AdblockError ''Refreshing the ad-block list requires root privileges.''), fs)
                else
                  (Inr \<lparr>domain_count = total, rr_failed_urls = fl_failed_urls st,
                     rr_message = show_nat total @ '' deduped domains written ('' @ summary @ '')'' @ tail, rr_category_counts = counts\<rparr>,
                   refresh_files urls hosts_path categories dir (fl_fetched st) fs)))"

subsection \<open>What a list can name\<close>

definition blockable :: "string \<Rightarrow> bool" where
  "blockable d \<longleftrightarrow> blockable_re d \<and> lower d = d \<and> d \<notin> set IGNORED_HOSTNAMES"

lemma lower_rstrip: "lower (rstrip_dots (lower s)) = rstrip_dots (lower s)"
proof -
  have "set (rstrip_dots (lower s)) \<subseteq> set (lower s)" unfolding rstrip_dots_def by (auto dest: set_dropWhileD)
  then have "lower_char c = c" if "c \<in> set (rstrip_dots (lower s))" for c using that by (auto simp: lower_def)
  then show ?thesis unfolding lower_def [of "rstrip_dots _"] by (simp add: map_idI)
qed

lemma parse_hosts_text_union: "parse_hosts_text t = (\<Union>line\<in>set (splitlines t). parse_hosts_line line)"
proof -
  have "fold (\<lambda>line domains. domains \<union> parse_hosts_line line) ls D = D \<union> (\<Union>line\<in>set ls. parse_hosts_line line)" for ls D
    by (induction ls arbitrary: D) auto
  then show ?thesis by (simp add: parse_hosts_text_def)
qed

lemma parse_hosts_line_ok: "finite (parse_hosts_line l) \<and> (\<forall>d\<in>parse_hosts_line l. blockable d)"
  by (auto simp: parse_hosts_line_def plain_name_def hosts_names_def blockable_def Let_def lower_rstrip)

lemma parse_hosts_text_finite [simp]: "finite (parse_hosts_text t)"
  by (simp add: parse_hosts_text_union parse_hosts_line_ok)

lemma parse_hosts_text_blockable: "d \<in> parse_hosts_text t \<Longrightarrow> blockable d"
  using parse_hosts_line_ok by (auto simp: parse_hosts_text_union)

lemma blockable_chars:
  assumes "blockable d"
  shows "d \<noteq> []" and "\<And>c. c \<in> set d \<Longrightarrow> is_alnum_char c \<or> c \<in> {CHR ''-'', CHR ''.''}"
proof -
  from assms have ls: "\<And>p. p \<in> set (split_on CHR ''.'' d) \<Longrightarrow> host_label_re p" by (simp add: blockable_def blockable_re_def list_all_iff)
  show "d \<noteq> []"
  proof
    assume "d = []"
    with ls [of "[]"] show False by (simp add: host_label_re_def)
  qed
  fix c assume "c \<in> set d"
  from split_on_chars [OF this, of "CHR ''.''"] ls show "is_alnum_char c \<or> c \<in> {CHR ''-'', CHR ''.''}"
    by (auto simp: host_label_re_def list_all_iff)
qed

lemma blockable_plain:
  assumes "blockable d" and "c \<in> set d"
  shows "\<not> is_space c" and "\<not> is_line_break c" and "c \<noteq> CHR ''#''"
  using blockable_chars(2) [OF assms]
  by (auto simp: is_space_def is_line_break_def is_alnum_char_def is_digit_def is_lower_def is_upper_def in_range_def)

subsection \<open>Reading back what was written\<close>

lemma split_ws_from_word:
  assumes "\<And>c. c \<in> set s \<Longrightarrow> \<not> is_space c"
  shows "split_ws_from w s = (if w = [] \<and> s = [] then [] else [rev w @ s])"
  using assms by (induction s arbitrary: w) auto

lemma strip_id:
  assumes "s \<noteq> []" and "\<not> is_space (hd s)" and "\<not> is_space (last s)"
  shows "strip s = s"
proof -
  have "dropWhile is_space s = s" using assms by (cases s) auto
  moreover have "dropWhile is_space (rev s) = rev s" using assms by (cases s rule: rev_cases) auto
  ultimately show ?thesis by (simp add: strip_def)
qed

lemma split_entry: "(\<And>c. c \<in> set d \<Longrightarrow> \<not> is_space c) \<Longrightarrow> d \<noteq> [] \<Longrightarrow> split_ws (hosts_entry d) = [''0.0.0.0'', d]"
  by (simp add: hosts_entry_def split_ws_def split_ws_from_word is_space_def in_range_def)

lemma blocking_address: "ip_address_ok ''0.0.0.0''"
proof -
  have "ipv4_address ''0.0.0.0'' = Some 0" by code_simp
  then show ?thesis by (simp add: ip_address_ok_def)
qed

lemma parse_entry:
  assumes "blockable d"
  shows "parse_hosts_line (hosts_entry d) = {d}"
proof -
  let ?l = "hosts_entry d"
  have "takeWhile (\<lambda>x. x \<noteq> CHR ''#'') ?l = ?l"
    using blockable_plain(3) [OF assms] by (auto simp: takeWhile_eq_all_conv hosts_entry_def)
  then have comment: "fst (partition_at CHR ''#'' ?l) = ?l" by (simp only: partition_at_def fst_conv)
  have "\<not> is_space (last d)" by (rule blockable_plain(1) [OF assms]) (simp add: blockable_chars(1) [OF assms])
  then have strip: "strip ?l = ?l"
    using blockable_chars(1) [OF assms] by (intro strip_id) (auto simp: hosts_entry_def is_space_def in_range_def)
  have "split_ws ?l = [''0.0.0.0'', d]" by (rule split_entry) (use assms in \<open>auto simp: blockable_plain blockable_chars\<close>)
  then show ?thesis
    using assms unfolding parse_hosts_line_def comment strip Let_def
    by (auto simp: blocking_address hosts_names_def blockable_def hosts_entry_def [of d])
qed

lemma header_lines:
  "l \<in> set HOSTS_FILE_HEADER \<Longrightarrow> list_all (\<lambda>c. \<not> is_line_break c) l \<and> starts_with l ''#'' \<and> parse_hosts_line l = {}"
  by (auto simp: HOSTS_FILE_HEADER_def quoted_def dquote_def starts_with_def parse_hosts_line_def partition_at_def strip_def
    is_line_break_def in_range_def)

lemma splitlines_hosts_text:
  assumes "finite D" and "\<And>d. d \<in> D \<Longrightarrow> blockable d"
  shows "splitlines (hosts_text D) = HOSTS_FILE_HEADER @ map hosts_entry (sorted_list_of_set D)"
proof -
  have "list_all (\<lambda>c. \<not> is_line_break c) (hosts_entry d)" if "d \<in> D" for d
    using blockable_plain(2) [OF assms(2) [OF that]] by (auto simp: hosts_entry_def list_all_iff is_line_break_def in_range_def)
  then show ?thesis unfolding hosts_text_def unlines_def
    by (intro splitlines_unlines) (use assms(1) in \<open>auto simp: header_lines\<close>)
qed

lemma parse_written:
  assumes "finite D" and "\<And>d. d \<in> D \<Longrightarrow> blockable d"
  shows "parse_hosts_text (hosts_text D) = D"
  using assms by (auto simp: parse_hosts_text_union splitlines_hosts_text header_lines parse_entry)

lemma count_written:
  assumes "finite D" and "\<And>d. d \<in> D \<Longrightarrow> blockable d" and "fs path = Some (hosts_text D)"
  shows "count_blocked_domains path fs = card D"
proof -
  have "filter (\<lambda>l. strip l \<noteq> [] \<and> \<not> starts_with l ''#'') HOSTS_FILE_HEADER = []"
    using header_lines by (auto simp: filter_empty_conv)
  moreover have "strip (hosts_entry d) \<noteq> []" for d by (simp add: hosts_entry_def strip_def is_space_def in_range_def)
  then have "filter (\<lambda>l. strip l \<noteq> [] \<and> \<not> starts_with l ''#'') (map hosts_entry xs) = map hosts_entry xs" for xs
    by (auto simp: filter_id_conv starts_with_def hosts_entry_def)
  ultimately show ?thesis using assms by (simp add: count_blocked_domains_def splitlines_hosts_text)
qed

subsection \<open>What the downloads give\<close>

text \<open>The texts that came, the URLs that failed with \<open>URLError\<close>, and whether something else was raised.\<close>

definition texts_read :: "(string \<times> response) list \<Rightarrow> string list" where
  "texts_read fs = List.map_filter (\<lambda>(_, r). case r of Read t \<Rightarrow> Some t | _ \<Rightarrow> None) fs"

definition urls_failed :: "(string \<times> response) list \<Rightarrow> string list" where
  "urls_failed fs = List.map_filter (\<lambda>(u, r). case r of URLError _ \<Rightarrow> Some u | _ \<Rightarrow> None) fs"

definition raises :: "(string \<times> response) list \<Rightarrow> bool" where
  "raises fs = list_ex (\<lambda>(_, r). case r of Raises _ \<Rightarrow> True | _ \<Rightarrow> False) fs"

definition names_read :: "(string \<times> response) list \<Rightarrow> string set" where
  "names_read fs = (\<Union>t\<in>set (texts_read fs). parse_hosts_text t)"

definition each_ends :: "downloads \<Rightarrow> bool" where
  "each_ends net \<longleftrightarrow> (\<forall>name urls. mset (map fst (net name urls)) = mset urls)"

lemmas outcome_defs = texts_read_def urls_failed_def raises_def names_read_def

lemma names_read_ok [simp]: "finite (names_read fs)" "d \<in> names_read fs \<Longrightarrow> blockable d"
  by (auto simp: names_read_def parse_hosts_text_blockable)

lemma fetch_steps:
  "fold_result fetch_step fs acc =
     (if raises fs then Inl (Uncaught (hd (List.map_filter (\<lambda>(_, r). case r of Raises m \<Rightarrow> Some m | _ \<Rightarrow> None) fs)))
      else Inr (acc\<lparr>fr_domains := fr_domains acc \<union> names_read fs, fr_failed_urls := fr_failed_urls acc @ urls_failed fs\<rparr>))"
proof (induction fs arbitrary: acc)
  case Nil
  show ?case by (simp add: outcome_defs map_filter_simps)
next
  case (Cons f fs)
  obtain u r where f: "f = (u, r)" by fastforce
  show ?case using Cons [of "_ acc"] by (cases r) (auto simp: f fetch_step_def fetch_url_def outcome_defs map_filter_simps Cons Un_assoc)
qed

lemma outcomes_counted: "\<not> raises fs \<Longrightarrow> length (urls_failed fs) + length (texts_read fs) = length fs"
proof (induction fs)
  case (Cons f fs)
  then show ?case by (cases "snd f"; cases f) (auto simp: outcome_defs map_filter_simps)
qed (simp add: outcome_defs map_filter_simps)

text \<open>A list is replaced when a source of it was read (or it has none to read).\<close>

definition list_fetched :: "downloads \<Rightarrow> string \<Rightarrow> string list \<Rightarrow> bool" where
  "list_fetched net name urls \<longleftrightarrow> urls = [] \<or> texts_read (net name urls) \<noteq> []"

lemma fetch_and_parse_raises: "raises (net name urls) \<Longrightarrow> \<exists>m. fetch_and_parse net name urls = Inl (Uncaught m)"
  by (simp add: fetch_and_parse_def fetch_steps)

lemma fetch_and_parse_outcome:
  assumes "each_ends net" and "\<not> raises (net name urls)"
  shows "list_fetched net name urls \<Longrightarrow> fetch_and_parse net name urls =
      Inr \<lparr>fr_domains = names_read (net name urls), fr_failed_urls = urls_failed (net name urls)\<rparr>"
    and "\<not> list_fetched net name urls \<Longrightarrow> \<exists>m. fetch_and_parse net name urls = Inl (AdblockError m)"
proof -
  from assms(1) have "length (net name urls) = length urls"
    unfolding each_ends_def by (metis length_map size_mset)
  with outcomes_counted [OF assms(2)] have n: "length (urls_failed (net name urls)) + length (texts_read (net name urls)) = length urls" by simp
  show "list_fetched net name urls \<Longrightarrow> fetch_and_parse net name urls =
      Inr \<lparr>fr_domains = names_read (net name urls), fr_failed_urls = urls_failed (net name urls)\<rparr>"
    using n assms(2) by (auto simp: fetch_and_parse_def fetch_steps list_fetched_def)
  show "\<not> list_fetched net name urls \<Longrightarrow> \<exists>m. fetch_and_parse net name urls = Inl (AdblockError m)"
    using n assms(2) by (auto simp: fetch_and_parse_def fetch_steps list_fetched_def)
qed

subsection \<open>What a refresh leaves\<close>

definition some_raises :: "downloads \<Rightarrow> blocklist list \<Rightarrow> bool" where
  "some_raises net ls = list_ex (\<lambda>(name, urls, _). raises (net name urls)) ls"

text \<open>The names a list is to block: what was read, less what is never blocked.\<close>

definition list_names :: "downloads \<Rightarrow> string list \<Rightarrow> string \<Rightarrow> string list \<Rightarrow> string set" where
  "list_names net allowlist name urls = apply_allowlist (names_read (net name urls)) allowlist"

lemma list_names_ok: "finite (list_names net al name urls)" "d \<in> list_names net al name urls \<Longrightarrow> blockable d"
  by (auto simp: list_names_def apply_allowlist_def)

lemma fetch_lists:
  assumes "each_ends net" and "\<not> some_raises net ls"
  shows "\<exists>st'. fold_result (fetch_list net al) ls st = Inr st' \<and>
    (distinct (map fst ls) \<longrightarrow> (\<forall>n. map_of (fl_fetched st') n =
      (case map_of ls n of Some (urls, _) \<Rightarrow> if list_fetched net n urls then Some (list_names net al n urls) else map_of (fl_fetched st) n
       | None \<Rightarrow> map_of (fl_fetched st) n)))"
  using assms(2)
proof (induction ls arbitrary: st)
  case (Cons l ls)
  obtain name urls path where l: "l = (name, urls, path)" by (cases l)
  from Cons.prems have r: "\<not> raises (net name urls)" "\<not> some_raises net ls" by (simp_all add: some_raises_def l)
  obtain st1 where st1: "fetch_list net al l st = Inr st1" and
    f1: "map_of (fl_fetched st1) n = (if n = name \<and> list_fetched net name urls then Some (list_names net al name urls) else map_of (fl_fetched st) n)" for n
  proof (cases "list_fetched net name urls")
    case True
    show thesis by (rule that) (auto simp: l fetch_list_def fetch_and_parse_outcome(1) [OF assms(1) r(1) True] list_names_def True update_conv')
  next
    case False
    from fetch_and_parse_outcome(2) [OF assms(1) r(1) False] obtain m where "fetch_and_parse net name urls = Inl (AdblockError m)" ..
    then have "fetch_list net al l st = Inr (st\<lparr>fl_problems := fl_problems st @ [name @ '': '' @ m], fl_failed_urls := fl_failed_urls st @ urls\<rparr>)"
      by (simp add: l fetch_list_def)
    then show thesis by (rule that) (simp add: False)
  qed
  from Cons.IH [OF r(2), of st1] obtain st' where st': "fold_result (fetch_list net al) ls st1 = Inr st'"
    and f: "distinct (map fst ls) \<Longrightarrow> map_of (fl_fetched st') n = (case map_of ls n of
      Some (urls, _) \<Rightarrow> if list_fetched net n urls then Some (list_names net al n urls) else map_of (fl_fetched st1) n
       | None \<Rightarrow> map_of (fl_fetched st1) n)" for n by blast
  have "map_of (fl_fetched st') n = (case map_of (l # ls) n of
      Some (urls, _) \<Rightarrow> if list_fetched net n urls then Some (list_names net al n urls) else map_of (fl_fetched st) n
       | None \<Rightarrow> map_of (fl_fetched st) n)" if "distinct (map fst (l # ls))" for n
  proof (cases "n = name")
    case True
    with that have "map_of ls n = None" by (simp add: l map_of_eq_None_iff)
    with True that f [of n] f1 [of n] show ?thesis by (simp add: l)
  next
    case False
    then have "map_of (fl_fetched st1) n = map_of (fl_fetched st) n" by (simp add: f1)
    with that f [of n] False show ?thesis by (simp add: l split: option.split)
  qed
  with st1 st' show ?case by auto
qed simp

lemma fetch_lists_raise:
  assumes "some_raises net ls"
  shows "\<exists>m. fold_result (fetch_list net al) ls st = Inl (Uncaught m)"
  using assms
proof (induction ls arbitrary: st)
  case (Cons l ls)
  obtain name urls path where l: "l = (name, urls, path)" by (cases l)
  show ?case
  proof (cases "raises (net name urls)")
    case True
    then obtain m where "fetch_and_parse net name urls = Inl (Uncaught m)" using fetch_and_parse_raises by blast
    then show ?thesis by (simp add: l fetch_list_def)
  next
    case False
    with Cons have "some_raises net ls" by (simp add: l some_raises_def)
    then show ?thesis
      using Cons.IH fetch_and_parse_outcome by (cases "fetch_list net al l st") (auto simp: l fetch_list_def split: sum.splits adblock_error.splits)
  qed
qed (simp add: some_raises_def)

lemma fold_write_other: "p \<notin> (\<lambda>(_, _, q). q) ` set ls \<Longrightarrow> fold (write_list fetched) ls fs p = fs p"
  by (induction ls arbitrary: fs) (auto simp: write_list_def write_hosts_file_def split: option.splits)

lemma fold_write_list:
  assumes "distinct (map (\<lambda>(_, _, q). q) ls)" and "(n, urls, p) \<in> set ls"
  shows "fold (write_list fetched) ls fs p = (case map_of fetched n of None \<Rightarrow> fs p | Some ds \<Rightarrow> Some (hosts_text ds))"
  using assms
proof (induction ls arbitrary: fs)
  case (Cons l ls)
  show ?case
  proof (cases "l = (n, urls, p)")
    case True
    with Cons.prems(1) have "p \<notin> (\<lambda>(_, _, q). q) ` set ls" by (auto simp: image_iff)
    then have "fold (write_list fetched) (l # ls) fs p = write_list fetched l fs p" by (simp add: fold_write_other)
    also have "\<dots> = (case map_of fetched n of None \<Rightarrow> fs p | Some ds \<Rightarrow> Some (hosts_text ds))"
      by (simp add: True write_list_def write_hosts_file_def split: option.split)
    finally show ?thesis .
  next
    case False
    with Cons have "fold (write_list fetched) (l # ls) fs p = (case map_of fetched n of None \<Rightarrow> write_list fetched l fs p | Some ds \<Rightarrow> Some (hosts_text ds))"
      by simp
    moreover have "p \<noteq> (\<lambda>(_, _, q). q) l" using False Cons.prems by (cases l) (force simp: image_iff)
    then have "write_list fetched l fs p = fs p" using fold_write_other [of p "[l]"] by (cases l) auto
    ultimately show ?thesis by (simp split: option.split)
  qed
qed simp

text \<open>Where the lists are kept: every category has a name of its own, not that of the base list, whose file is elsewhere.\<close>

definition places_ok :: "string \<Rightarrow> (string, string list) dict \<Rightarrow> string \<Rightarrow> bool" where
  "places_ok hosts_path categories dir \<longleftrightarrow>
     distinct (map fst categories) \<and> [] \<notin> fst ` set categories \<and> BASE_CATEGORY \<notin> fst ` set categories \<and> \<not> starts_with hosts_path (dir @ ''/'')"

lemma category_path_inj: "category_path dir a = category_path dir b \<longleftrightarrow> a = b"
  by (simp add: category_path_def)

lemma category_path_inside: "starts_with (category_path dir a) (dir @ ''/'')"
  using starts_with_append [of "dir @ ''/''" "a @ ''.hosts''"] by (simp add: category_path_def)

lemma category_kept: "a \<noteq> [] \<Longrightarrow> a \<in> set names \<Longrightarrow> \<not> stale_file dir names (category_path dir a)"
  by (auto simp: stale_file_def category_path_def hosts_stem_def)

lemma refresh_lists_distinct:
  assumes "places_ok hosts_path categories dir"
  shows "distinct (map fst (refresh_lists urls hosts_path categories dir))"
    and "distinct (map (\<lambda>(_, _, q). q) (refresh_lists urls hosts_path categories dir))"
proof -
  have d: "distinct (map fst (sort categories))"
    using assms by (simp add: places_ok_def distinct_map)
  have names: "map fst (map (\<lambda>(name, us). (name, us, category_path dir name)) cs) = map fst cs" for cs :: "(string, string list) dict"
    by (induction cs) auto
  have paths: "map (\<lambda>(_, _, q). q) (map (\<lambda>(name, us). (name, us, category_path dir name)) cs) = map (category_path dir) (map fst cs)"
    for cs :: "(string, string list) dict" by (induction cs) auto
  show "distinct (map fst (refresh_lists urls hosts_path categories dir))"
    unfolding refresh_lists_def map_append names using assms d by (auto simp: places_ok_def)
  have "hosts_path \<noteq> category_path dir n" for n
    using assms category_path_inside by (auto simp: places_ok_def)
  moreover have "distinct (map (category_path dir) (map fst (sort categories)))"
    using d by (subst distinct_map) (auto simp: inj_on_def category_path_inj)
  ultimately show "distinct (map (\<lambda>(_, _, q). q) (refresh_lists urls hosts_path categories dir))"
    unfolding refresh_lists_def map_append paths by auto
qed

lemma refresh_lists_not_stale:
  assumes "places_ok hosts_path categories dir" and "(n, us, p) \<in> set (refresh_lists urls hosts_path categories dir)"
  shows "\<not> stale_file dir (map fst categories) p"
  using assms(2)
proof (cases "p = hosts_path")
  case True
  with assms(1) show ?thesis by (simp add: places_ok_def stale_file_def)
next
  case False
  with assms(2) have "(n, us) \<in> set categories" "p = category_path dir n" by (auto simp: refresh_lists_def split: if_splits)
  moreover from this(1) assms(1) have "n \<noteq> []" by (force simp: places_ok_def)
  ultimately show ?thesis using category_kept [of n "map fst categories" dir] by force
qed

lemma refresh_files_list:
  assumes "places_ok hosts_path categories dir" and "(n, us, p) \<in> set (refresh_lists urls hosts_path categories dir)"
  shows "refresh_files urls hosts_path categories dir fetched fs p = (case map_of fetched n of None \<Rightarrow> fs p | Some ds \<Rightarrow> Some (hosts_text ds))"
proof -
  have "urls = [] \<Longrightarrow> p \<noteq> hosts_path"
    using assms category_path_inside by (auto simp: refresh_lists_def places_ok_def)
  then show ?thesis
    using refresh_lists_not_stale [OF assms] fold_write_list [OF refresh_lists_distinct(2) [OF assms(1)] assms(2)]
    by (cases "urls = []") (simp_all add: refresh_files_def write_hosts_file_def Let_def)
qed

lemma refresh_files_other:
  assumes "p \<notin> (\<lambda>(_, _, q). q) ` set (refresh_lists urls hosts_path categories dir)" and "p \<noteq> hosts_path"
  shows "refresh_files urls hosts_path categories dir fetched fs p = (if stale_file dir (map fst categories) p then None else fs p)"
  using assms fold_write_other [OF assms(1)] by (cases "urls = []") (simp_all add: refresh_files_def write_hosts_file_def Let_def)

lemma refresh_fetches:
  assumes "each_ends net" and "places_ok hosts_path categories dir"
    and "\<not> some_raises net (refresh_lists urls hosts_path categories dir)"
  obtains st where "fold_result (fetch_list net al) (refresh_lists urls hosts_path categories dir) \<lparr>fl_fetched = [], fl_failed_urls = [], fl_problems = []\<rparr> = Inr st"
    and "\<And>n us p. (n, us, p) \<in> set (refresh_lists urls hosts_path categories dir) \<Longrightarrow>
      map_of (fl_fetched st) n = (if list_fetched net n us then Some (list_names net al n us) else None)"
    and "fl_fetched st = [] \<longleftrightarrow> \<not> (\<exists>(n, us, p)\<in>set (refresh_lists urls hosts_path categories dir). list_fetched net n us)"
proof -
  let ?ls = "refresh_lists urls hosts_path categories dir" and ?st = "\<lparr>fl_fetched = [], fl_failed_urls = [], fl_problems = []\<rparr> :: fetched_lists"
  have d: "distinct (map fst ?ls)" by (rule refresh_lists_distinct(1) [OF assms(2)])
  obtain st where st: "fold_result (fetch_list net al) ?ls ?st = Inr st"
    and f0: "map_of (fl_fetched st) n = (case map_of ?ls n of Some (us, _) \<Rightarrow> if list_fetched net n us then Some (list_names net al n us)
      else map_of (fl_fetched ?st) n | None \<Rightarrow> map_of (fl_fetched ?st) n)" for n
    using fetch_lists [OF assms(1,3), of al ?st] d by blast
  have f: "map_of (fl_fetched st) n = (case map_of ?ls n of Some (us, _) \<Rightarrow> if list_fetched net n us then Some (list_names net al n us) else None
      | None \<Rightarrow> None)" for n using f0 [of n] by (simp split: option.splits prod.splits)
  have one: "map_of (fl_fetched st) n = (if list_fetched net n us then Some (list_names net al n us) else None)" if "(n, us, p) \<in> set ?ls" for n us p
    using that d by (simp add: f)
  have "fl_fetched st = [] \<longleftrightarrow> (\<forall>n. map_of (fl_fetched st) n = None)"
    by (metis map_of_eq_empty_iff ext map_of.simps(1))
  also have "\<dots> \<longleftrightarrow> \<not> (\<exists>(n, us, p)\<in>set ?ls. list_fetched net n us)"
  proof
    assume "\<forall>n. map_of (fl_fetched st) n = None"
    with one show "\<not> (\<exists>(n, us, p)\<in>set ?ls. list_fetched net n us)" by fastforce
  next
    assume "\<not> (\<exists>(n, us, p)\<in>set ?ls. list_fetched net n us)"
    then show "\<forall>n. map_of (fl_fetched st) n = None" by (auto simp: f dest: map_of_SomeD split: option.split)
  qed
  finally show thesis using that st one by blast
qed

lemma read_names:
  assumes "fs path = Some (hosts_text (list_names net al name urls))"
  shows "read_hosts_file path fs = list_names net al name urls" and "count_blocked_domains path fs = card (list_names net al name urls)"
  using assms list_names_ok [where net = net and al = al and name = name and urls = urls] by (simp_all add: read_hosts_file_def parse_written count_written)

lemma read_nothing: "fs path = Some (hosts_text {}) \<Longrightarrow> read_hosts_file path fs = {}"
  using parse_written [of "{}"] by (simp add: read_hosts_file_def)

lemma refresh_result:
  assumes "each_ends net" and "places_ok hosts_path categories dir"
    and "refresh net is_root False urls hosts_path categories dir al fs = (res, fs')"
  defines "ls \<equiv> refresh_lists urls hosts_path categories dir"
  shows "(\<exists>r. res = Inr r) \<longleftrightarrow> is_root \<and> \<not> some_raises net ls \<and> (\<exists>(n, us, p)\<in>set ls. list_fetched net n us)"
    and "\<nexists>r. res = Inr r \<Longrightarrow> fs' = fs"
    and "res = Inr r \<Longrightarrow> \<exists>fetched. fs' = refresh_files urls hosts_path categories dir fetched fs \<and>
      (\<forall>(n, us, p)\<in>set ls. map_of fetched n = (if list_fetched net n us then Some (list_names net al n us) else None))"
proof -
  note r = assms(3) [unfolded refresh_def, folded ls_def]
  have "((\<exists>r. res = Inr r) \<longleftrightarrow> is_root \<and> \<not> some_raises net ls \<and> (\<exists>(n, us, p)\<in>set ls. list_fetched net n us)) \<and>
    ((\<nexists>r. res = Inr r) \<longrightarrow> fs' = fs) \<and>
    (\<forall>r. res = Inr r \<longrightarrow> (\<exists>fetched. fs' = refresh_files urls hosts_path categories dir fetched fs \<and>
      (\<forall>(n, us, p)\<in>set ls. map_of fetched n = (if list_fetched net n us then Some (list_names net al n us) else None))))"
  proof (cases "some_raises net ls")
    case True
    then obtain m where "fold_result (fetch_list net al) ls \<lparr>fl_fetched = [], fl_failed_urls = [], fl_problems = []\<rparr> = Inl (Uncaught m)"
      using fetch_lists_raise by blast
    with r True show ?thesis by (auto split: if_splits)
  next
    case False
    then obtain st where st: "fold_result (fetch_list net al) ls \<lparr>fl_fetched = [], fl_failed_urls = [], fl_problems = []\<rparr> = Inr st"
      and f: "\<And>n us p. (n, us, p) \<in> set ls \<Longrightarrow> map_of (fl_fetched st) n = (if list_fetched net n us then Some (list_names net al n us) else None)"
      and e: "fl_fetched st = [] \<longleftrightarrow> \<not> (\<exists>(n, us, p)\<in>set ls. list_fetched net n us)"
      unfolding ls_def by (rule refresh_fetches [OF assms(1,2)]) blast
    have none: "urls = [] \<Longrightarrow> categories = [] \<Longrightarrow> ls = []" by (simp add: ls_def refresh_lists_def)
    show ?thesis
    proof (cases "fl_fetched st = [] \<or> \<not> is_root")
      case True
      with r st e show ?thesis by (auto simp: Let_def split: if_splits)
    next
      case ok: False
      with none e have "\<not> (urls = [] \<and> categories = [])" by auto
      with ok r st have "fs' = refresh_files urls hosts_path categories dir (fl_fetched st) fs" "\<exists>r. res = Inr r"
        by (auto simp: Let_def)
      with False ok e f show ?thesis by fastforce
    qed
  qed
  then show "(\<exists>r. res = Inr r) \<longleftrightarrow> is_root \<and> \<not> some_raises net ls \<and> (\<exists>(n, us, p)\<in>set ls. list_fetched net n us)"
    and "\<nexists>r. res = Inr r \<Longrightarrow> fs' = fs"
    and "res = Inr r \<Longrightarrow> \<exists>fetched. fs' = refresh_files urls hosts_path categories dir fetched fs \<and>
      (\<forall>(n, us, p)\<in>set ls. map_of fetched n = (if list_fetched net n us then Some (list_names net al n us) else None))"
    by blast+
qed

subsection \<open>The outcome of a refresh\<close>

text \<open>
  C34: a refresh replaces exactly the lists it could fetch.  Whatever the downloads give, in whatever order
  they end, it succeeds exactly when it runs as root, no download raises anything but \<open>URLError\<close>, and at
  least one list had a source that was read.  Then every such list is on disk with exactly the names its
  sources named, less those that are never blocked (the allowlist with everything below it, and Firefox's
  canary), and is counted so; a list none of whose sources answered keeps its file; a base list that is no
  longer configured blocks nothing; a category that is no longer configured is gone; and no other file is
  touched.  Otherwise nothing on disk changes.
\<close>

theorem refresh_outcome:
  assumes "each_ends net" and "places_ok hosts_path categories dir"
    and "refresh net is_root False urls hosts_path categories dir al fs = (res, fs')"
  shows "((\<exists>r. res = Inr r) \<longleftrightarrow> is_root \<and> \<not> some_raises net (refresh_lists urls hosts_path categories dir) \<and>
      (\<exists>(n, us, p)\<in>set (refresh_lists urls hosts_path categories dir). list_fetched net n us)) \<and>
    (if \<exists>r. res = Inr r then
       (\<forall>(n, us, p)\<in>set (refresh_lists urls hosts_path categories dir).
          if list_fetched net n us
          then read_hosts_file p fs' = {d \<in> names_read (net n us). \<not> is_allowlisted d al \<and> \<not> is_allowlisted d [FIREFOX_DOH_CANARY]} \<and>
               count_blocked_domains p fs' = card (read_hosts_file p fs')
          else fs' p = fs p) \<and>
       (urls = [] \<longrightarrow> read_hosts_file hosts_path fs' = {}) \<and>
       (\<forall>p. p \<noteq> hosts_path \<and> (\<nexists>n us. (n, us, p) \<in> set (refresh_lists urls hosts_path categories dir)) \<longrightarrow>
          fs' p = (if stale_file dir (map fst categories) p then None else fs p))
     else fs' = fs)"
proof (cases "\<exists>r. res = Inr r")
  case False
  show ?thesis using refresh_result(1) [OF assms] refresh_result(2) [OF assms False] unfolding if_not_P [OF False] by blast
next
  case True
  then obtain r where r: "res = Inr r" ..
  from refresh_result(3) [OF assms r] obtain fetched where fs': "fs' = refresh_files urls hosts_path categories dir fetched fs"
    and f: "\<And>n us p. (n, us, p) \<in> set (refresh_lists urls hosts_path categories dir) \<Longrightarrow>
      map_of fetched n = (if list_fetched net n us then Some (list_names net al n us) else None)" by blast
  have names: "list_names net al n us = {d \<in> names_read (net n us). \<not> is_allowlisted d al \<and> \<not> is_allowlisted d [FIREFOX_DOH_CANARY]}" for n us
    by (auto simp: list_names_def apply_allowlist_def is_allowlisted_def)
  have "if list_fetched net n us
      then read_hosts_file p fs' = {d \<in> names_read (net n us). \<not> is_allowlisted d al \<and> \<not> is_allowlisted d [FIREFOX_DOH_CANARY]} \<and>
        count_blocked_domains p fs' = card (read_hosts_file p fs')
      else fs' p = fs p" if "(n, us, p) \<in> set (refresh_lists urls hosts_path categories dir)" for n us p
    using refresh_files_list [OF assms(2) that, of fetched fs] f [OF that] read_names [of fs' p net al n us] by (simp add: fs' names)
  moreover have "read_hosts_file hosts_path fs' = {}" if "urls = []"
    by (rule read_nothing) (use that assms(2) in \<open>simp add: fs' refresh_files_def write_hosts_file_def places_ok_def stale_file_def\<close>)
  moreover have "fs' p = (if stale_file dir (map fst categories) p then None else fs p)"
    if "p \<noteq> hosts_path" "\<nexists>n us. (n, us, p) \<in> set (refresh_lists urls hosts_path categories dir)" for p
    unfolding fs' by (rule refresh_files_other) (use that in auto)
  ultimately show ?thesis using True refresh_result(1) [OF assms] by auto
qed

text \<open>A router with a base list that answers and a category that does not.\<close>

definition net1 :: downloads where
  "net1 name = map (\<lambda>u. (u, if name = BASE_CATEGORY then Read (unlines [''# a list'', ''0.0.0.0 ads.example www.ok.example'']) else URLError ''no route''))"

definition files1 :: files where
  "files1 = [''/a.d/malware.hosts'' \<mapsto> hosts_text {''bad.example''}, ''/a.d/old.hosts'' \<mapsto> hosts_text {''gone.example'', ''more.example''}]"

lemma net1_lists:
  "each_ends net1" "places_ok ''/a.hosts'' [(''malware'', [''u2''])] ''/a.d''"
  "refresh_lists [''u1''] ''/a.hosts'' [(''malware'', [''u2''])] ''/a.d'' = [(''ads'', [''u1''], ''/a.hosts''), (''malware'', [''u2''], ''/a.d/malware.hosts'')]"
  "texts_read (net1 ''ads'' [''u1'']) = [unlines [''# a list'', ''0.0.0.0 ads.example www.ok.example'']]" "texts_read (net1 ''malware'' [''u2'']) = []"
  "\<not> raises (net1 ''ads'' [''u1''])" "\<not> raises (net1 ''malware'' [''u2''])"
  by (simp_all add: each_ends_def net1_def comp_def places_ok_def BASE_CATEGORY_def starts_with_def refresh_lists_def category_path_def outcome_defs
    map_filter_simps)

lemma net1_names: "{d \<in> parse_hosts_text (unlines [''# a list'', ''0.0.0.0 ads.example www.ok.example'']). \<not> is_allowlisted d [''ok.example''] \<and>
    \<not> is_allowlisted d [FIREFOX_DOH_CANARY]} = {''ads.example''}"
proof -
  have "parse_hosts_text (unlines [''# a list'', ''0.0.0.0 ads.example www.ok.example'']) = {''ads.example'', ''www.ok.example''}" by code_simp
  moreover have "is_allowlisted ''www.ok.example'' [''ok.example'']" "\<not> is_allowlisted ''ads.example'' [''ok.example'']"
    "\<not> is_allowlisted ''ads.example'' [FIREFOX_DOH_CANARY]" by code_simp+
  ultimately show ?thesis by auto
qed

theorem refresh_outcome_witness:
  "each_ends net1 \<and> places_ok ''/a.hosts'' [(''malware'', [''u2''])] ''/a.d'' \<and>
   (let fs' = snd (refresh net1 True False [''u1''] ''/a.hosts'' [(''malware'', [''u2''])] ''/a.d'' [''ok.example''] files1) in
    read_hosts_file ''/a.hosts'' fs' = {''ads.example''} \<and> fs' ''/a.d/malware.hosts'' = files1 ''/a.d/malware.hosts'' \<and> fs' ''/a.d/old.hosts'' = None)"
proof -
  obtain res fs' where r: "refresh net1 True False [''u1''] ''/a.hosts'' [(''malware'', [''u2''])] ''/a.d'' [''ok.example''] files1 = (res, fs')"
    by (cases "refresh net1 True False [''u1''] ''/a.hosts'' [(''malware'', [''u2''])] ''/a.d'' [''ok.example''] files1")
  have "stale_file ''/a.d'' [''malware''] ''/a.d/old.hosts''" by code_simp
  with refresh_outcome [OF net1_lists(1,2) r] show ?thesis
    by (auto simp: r net1_lists some_raises_def list_fetched_def names_read_def net1_names)
qed

text \<open>
  \<open>_fetch_url\<close> translates \<open>URLError\<close> only.  A server that accepts the connection and then stalls makes
  \<open>getresponse\<close> or \<open>read\<close> raise \<open>TimeoutError\<close>, which is none: one such source stops the refresh of every list.
\<close>

lemma stalled_source_stops_refresh:
  "refresh (\<lambda>name. map (\<lambda>u. (u, if name = ''malware'' then Raises ''The read operation timed out'' else Read (unlines [''0.0.0.0 ads.example'']))))
     True False [''u1''] ''/a.hosts'' [(''malware'', [''u2''])] ''/a.d'' [] fs = (Inl (Uncaught ''The read operation timed out''), fs)"
  by (simp add: refresh_def refresh_lists_def BASE_CATEGORY_def fetch_list_def fetch_and_parse_def fetch_step_def fetch_url_def)

end
