(* ===== verification/Dns_Resolver.thy ===== *)
theory Dns_Resolver
  imports Adblock
begin

text \<open>
  The router's own resolver (\<open>src/src/frfw/adblock/dns_service.py\<close>): the configuration of its dnsmasq
  instance, the names no blocklist may hold, and the step of an apply that reconciles it; with the list the
  kernel's TLS filter gets (\<open>xdp_config_for\<close> of \<open>src/src/frfw/provision.py\<close>), and the helper's and the
  command line's refresh (\<open>_handle_refresh_adblock\<close>, \<open>_cmd_adblock_refresh\<close>).

  dnsmasq and systemd are parameters (\<open>dns_env\<close>): what \<open>dnsmasq --test\<close> says of a configuration, what
  \<open>systemctl\<close> says, each \<open>None\<close> when it succeeds, whether the unit is active, and which hosts files are not UTF-8 (\<open>env_undecodable\<close>).  \<open>dns_calls\<close> records the
  calls of systemctl.  The catalog of applications is a parameter, as in \<open>App_Id\<close>.
\<close>

subsection \<open>The configuration\<close>

definition DEFAULT_UPSTREAM_SERVERS :: "string list" where
  "DEFAULT_UPSTREAM_SERVERS = [''1.1.1.1'', ''9.9.9.9'']"

definition own_ipv4 :: "config \<Rightarrow> string list" where
  "own_ipv4 cfg = List.map_filter (\<lambda>(_, i). case if_address i of None \<Rightarrow> None
     | Some a \<Rightarrow> if a = [] then None else map_option (show_ipv4 \<circ> fst) (ipv4_interface a)) (interfaces cfg)"

definition upstream_servers :: "config \<Rightarrow> string list" where
  "upstream_servers cfg =
     (let own = own_ipv4 cfg;
          servers = fold (\<lambda>server acc. if server \<notin> set acc \<and> server \<notin> set own then acc @ [server] else acc)
            (concat (map (\<lambda>(_, pool). dns_servers pool) (dhcp_zones cfg))) []
      in if servers = [] then DEFAULT_UPSTREAM_SERVERS else servers)"

definition listen_devices :: "config \<Rightarrow> string list" where
  "listen_devices cfg =
     fold (\<lambda>(_, i) acc. if if_zone i \<in> fst ` set (dhcp_zones cfg) \<and> if_device i \<notin> set acc then acc @ [if_device i] else acc)
       (interfaces cfg) [''lo'']"

definition blocked_app_names :: "catalog \<Rightarrow> config \<Rightarrow> string list" where
  "blocked_app_names cat cfg =
     (let ac = app_control cfg in if \<not> (app_enabled ac \<and> blocked_apps ac \<noteq> []) then [] else blocking_names (blocked_apps ac) cat)"

definition local_dns_lines :: "config \<Rightarrow> string list" where
  "local_dns_lines cfg =
     (let l = local_dns cfg in
      (if dns_domain l \<noteq> [] then [''local=/'' @ dns_domain l @ ''/''] else []) @
      concat (map (\<lambda>(name, address). [''host-record='' @ name @ '','' @ address, ''local=/'' @ name @ ''/'']) (sort (dns_hosts l))) @
      concat (map (\<lambda>(name, address). [''address=/'' @ name @ ''/'' @ address, ''local=/'' @ name @ ''/'']) (sort (dns_overrides l))))"

definition hosts_files :: "config \<Rightarrow> string \<Rightarrow> string \<Rightarrow> string list" where
  "hosts_files cfg hosts_path dir = hosts_path # map (category_path dir) (sort (map fst (adblock_categories (adblocker cfg))))"

definition addn_hosts :: "string \<Rightarrow> string" where
  "addn_hosts path = ''addn-hosts='' @ path"

definition extra_lines :: "catalog \<Rightarrow> config \<Rightarrow> string \<Rightarrow> string list" where
  "extra_lines cat cfg query_log =
     (if query_logging (adblocker cfg) then [''log-queries=extra'', ''log-facility='' @ query_log] else []) @
     (if force_dns (adblocker cfg) then [''address=/'' @ FIREFOX_DOH_CANARY @ ''/''] else []) @
     map (\<lambda>name. ''address=/'' @ name @ ''/'') (blocked_app_names cat cfg) @ local_dns_lines cfg"

definition CONF_HEAD :: "string list" where
  "CONF_HEAD =
     [''# Managed by FR_OS (frfw.adblock.dns_service) -- regenerated on every'',
      ''# `apply`, do not edit by hand. A dedicated, frfw-owned dnsmasq'',
      ''# instance (fr-adblock-dns.service) -- never the system's own'',
      ''# dnsmasq.service/dnsmasq.conf, which this never touches.'',
      ''port=53'', ''no-resolv'', ''no-hosts'']"

definition CONF_BIND :: "string list" where
  "CONF_BIND =
     [''# Each address of those interfaces, and the ones they get later (ROADMAP'',
      ''# FND-1c): IPv6 addresses come and go -- the provider's prefix is'',
      ''# renumbered, the stable ULA one is added by the next apply.'',
      ''bind-dynamic'']"

definition CONF_TAIL :: "string list" where
  "CONF_TAIL =
     [''user=nobody'', ''group=nogroup'',
      ''# No PID file: systemd tracks the process, and /run is read-only in the'',
      ''# unit's sandbox (security-lessons I1). Without this dnsmasq writes'',
      ''# /run/dnsmasq.pid even in the foreground.'',
      ''pid-file='']"

definition render_dnsmasq_config :: "catalog \<Rightarrow> config \<Rightarrow> string \<Rightarrow> string \<Rightarrow> string \<Rightarrow> string" where
  "render_dnsmasq_config cat cfg hosts_path dir query_log =
     unlines CONF_HEAD @
     py_join [LF] (map addn_hosts (hosts_files cfg hosts_path dir)) @ [LF] @
     py_join [LF] (map ((@) ''interface='') (listen_devices cfg)) @ [LF] @
     unlines CONF_BIND @
     py_join [LF] (map ((@) ''server='') (upstream_servers cfg)) @ [LF] @
     unlines (extra_lines cat cfg query_log) @
     unlines CONF_TAIL"

subsection \<open>Names no list may hold\<close>

definition never_blocked :: "config \<Rightarrow> string list" where
  "never_blocked cfg =
     (let names = adblock_allowlist (adblocker cfg) in names @ filter (\<lambda>n. n \<notin> set names) (local_dns_names (local_dns cfg)))"

definition enforce_file :: "string list \<Rightarrow> string \<Rightarrow> files \<times> nat \<Rightarrow> files \<times> nat" where
  "enforce_file allowlist path st =
     (let (fs, removed) = st; domains = read_hosts_file path fs; kept = apply_allowlist domains allowlist in
      if card kept \<noteq> card domains then (write_hosts_file kept path fs, removed + (card domains - card kept)) else (fs, removed))"

text \<open>A file whose bytes are not UTF-8 cannot be read as text: the loop ends there, with the files before it cleaned.\<close>

fun enforce_files :: "(string \<Rightarrow> bool) \<Rightarrow> string list \<Rightarrow> string list \<Rightarrow> files \<times> nat \<Rightarrow> string option \<times> files \<times> nat" where
  "enforce_files undecodable allowlist [] st = (None, st)"
| "enforce_files undecodable allowlist (path # paths) st =
     (if undecodable path then (Some path, st) else enforce_files undecodable allowlist paths (enforce_file allowlist path st))"

definition enforce_allowlist :: "(string \<Rightarrow> bool) \<Rightarrow> config \<Rightarrow> string \<Rightarrow> string \<Rightarrow> files \<Rightarrow> string option \<times> files \<times> nat" where
  "enforce_allowlist undecodable cfg hosts_path dir fs =
     enforce_files undecodable (never_blocked cfg) (hosts_path # map (category_path dir) (map fst (adblock_categories (adblocker cfg)))) (fs, 0)"

subsection \<open>The step of an apply\<close>

text \<open>A hosts file that is not UTF-8 raises past every handler: the path it was read from.\<close>

datatype dns_error = DnsServiceError string | UnicodeDecodeError string

record dns_env =
  env_root :: bool
  env_undecodable :: "string \<Rightarrow> bool"
  test_config :: "string \<Rightarrow> string option"
  env_restart :: "string option"
  env_stop :: "string option"
  env_active :: bool

record dns_state =
  dns_files :: files
  dns_calls :: "string list"

record dns_sync_result =
  sync_applied :: bool
  sync_message :: string

definition HOSTS_PLACEHOLDER :: string where
  "HOSTS_PLACEHOLDER = ''# (empty -- run `firewall-cli adblock-refresh` to populate)''"

definition ensure_hosts_placeholder :: "string \<Rightarrow> files \<Rightarrow> files" where
  "ensure_hosts_placeholder path fs = (if fs path \<noteq> None then fs else fs(path \<mapsto> unlines [HOSTS_PLACEHOLDER]))"

definition dns_service_call :: "string \<Rightarrow> string option \<Rightarrow> dns_state \<Rightarrow> (dns_error, dns_state) result \<times> dns_state" where
  "dns_service_call verb outcome st =
     (let st' = st\<lparr>dns_calls := dns_calls st @ [verb]\<rparr> in
      case outcome of None \<Rightarrow> (Inr st', st')
      | Some err \<Rightarrow> (Inl (DnsServiceError (if strip err = [] then ''failed to '' @ verb @ '' fr-adblock-dns'' else strip err)), st'))"

definition disable_resolver :: "dns_env \<Rightarrow> bool \<Rightarrow> string \<Rightarrow> dns_state \<Rightarrow> (dns_error, dns_sync_result) result \<times> dns_state" where
  "disable_resolver env dry_run conf_path st =
     (let off = \<lparr>sync_applied = False, sync_message = ''Ad-block DNS resolver disabled''\<rparr> in
      if dns_files st conf_path = None \<and> \<not> env_active env then (Inr off, st)
      else if dry_run then (Inr \<lparr>sync_applied = False, sync_message = ''Would stop the ad-block DNS resolver (dry-run)''\<rparr>, st)
      else if \<not> env_root env then (Inl (DnsServiceError ''Applying the ad-block DNS resolver requires root privileges.''), st)
      else case dns_service_call ''stop'' (env_stop env) st of
        (Inl e, st1) \<Rightarrow> (Inl e, st1)
      | (Inr _, st1) \<Rightarrow> (Inr off, st1\<lparr>dns_files := (dns_files st1)(conf_path := None)\<rparr>))"

definition resolver_message :: "config \<Rightarrow> nat \<Rightarrow> nat \<Rightarrow> string" where
  "resolver_message cfg loaded removed =
     (let cats = adblock_categories (adblocker cfg); ac = app_control cfg in
      ''Ad-block DNS resolver active, '' @ show_nat loaded @ '' domains loaded'' @
      (if cats \<noteq> [] then '' ('' @ show_nat (length cats) @ '' categories)'' else []) @
      (if removed \<noteq> 0 then '', '' @ show_nat removed @ '' allowlisted entries removed'' else []) @
      (if app_enabled ac \<and> blocked_apps ac \<noteq> [] then '', '' @ show_nat (length (blocked_apps ac)) @ '' app(s) blocked'' else []))"

text \<open>The files an apply leaves, before dnsmasq is asked.\<close>

definition undecodable :: "dns_env \<Rightarrow> files \<Rightarrow> string \<Rightarrow> bool" where
  "undecodable env fs path \<longleftrightarrow> fs path \<noteq> None \<and> env_undecodable env path"

definition prepare_files :: "catalog \<Rightarrow> dns_env \<Rightarrow> config \<Rightarrow> string \<Rightarrow> string \<Rightarrow> string \<Rightarrow> string \<Rightarrow> files \<Rightarrow> string option \<times> files \<times> nat" where
  "prepare_files cat env cfg hosts_path conf_path dir query_log fs =
     (let names = map fst (adblock_categories (adblocker cfg));
          fs1 = fold (\<lambda>n. ensure_hosts_placeholder (category_path dir n)) names (ensure_hosts_placeholder hosts_path fs);
          (failed, fs2, removed) = enforce_allowlist (undecodable env fs) cfg hosts_path dir fs1
      in case failed of
           Some path \<Rightarrow> (Some path, fs2, removed)
         | None \<Rightarrow> (None, fs2(conf_path \<mapsto> render_dnsmasq_config cat cfg hosts_path dir query_log), removed))"

definition sync_dns_resolver ::
  "catalog \<Rightarrow> dns_env \<Rightarrow> config \<Rightarrow> bool \<Rightarrow> string \<Rightarrow> string \<Rightarrow> string \<Rightarrow> string \<Rightarrow> dns_state \<Rightarrow> (dns_error, dns_sync_result) result \<times> dns_state" where
  "sync_dns_resolver cat env cfg dry_run hosts_path conf_path dir query_log st =
     (if \<not> adblock_enabled (adblocker cfg) then disable_resolver env dry_run conf_path st
      else if dry_run then
        (if undecodable env (dns_files st) hosts_path then (Inl (UnicodeDecodeError hosts_path), st)
         else (Inr \<lparr>sync_applied = True, sync_message = ''Would (re)start the ad-block DNS resolver ('' @ show_nat (count_blocked_domains hosts_path (dns_files st)) @
           '' domains currently loaded, dry-run)''\<rparr>, st))
      else if \<not> env_root env then (Inl (DnsServiceError ''Applying the ad-block DNS resolver requires root privileges.''), st)
      else
        (let (failed, fs, removed) = prepare_files cat env cfg hosts_path conf_path dir query_log (dns_files st); st1 = st\<lparr>dns_files := fs\<rparr> in
         case failed of Some path \<Rightarrow> (Inl (UnicodeDecodeError path), st1)
         | None \<Rightarrow>
         (case test_config env (render_dnsmasq_config cat cfg hosts_path dir query_log) of
           Some err \<Rightarrow> (Inl (DnsServiceError err), st1)
         | None \<Rightarrow>
             (case dns_service_call ''restart'' (env_restart env) st1 of
                (Inl e, st2) \<Rightarrow> (Inl e, st2)
              | (Inr _, st2) \<Rightarrow>
                  (let loaded = count_blocked_domains hosts_path fs +
                     sum_list (map (\<lambda>n. count_blocked_domains (category_path dir n) fs) (map fst (adblock_categories (adblocker cfg))))
                   in (Inr \<lparr>sync_applied = True, sync_message = resolver_message cfg loaded removed\<rparr>, st2))))))"

subsection \<open>The names the kernel's filter gets\<close>

definition DNS_MAX_SNI_LEN :: nat where "DNS_MAX_SNI_LEN = 32"

definition critical_domains :: "string \<Rightarrow> files \<Rightarrow> int \<Rightarrow> string list" where
  "critical_domains hosts_path fs limit =
     (if limit \<le> 0 then []
      else case fs hosts_path of None \<Rightarrow> []
        | Some t \<Rightarrow> take (nat limit) (sort (filter (\<lambda>d. length d < DNS_MAX_SNI_LEN)
            (List.map_filter (\<lambda>line. if strip line = [] \<or> starts_with line ''#'' then None
              else let parts = split_ws line in if length parts < 2 then None else Some (parts ! 1)) (splitlines t)))))"

definition XDP_MAX_SNI_LEN :: nat where "XDP_MAX_SNI_LEN = 32"

definition xdp_config_for :: "catalog \<Rightarrow> config \<Rightarrow> string \<Rightarrow> files \<Rightarrow> config \<times> string list" where
  "xdp_config_for cat cfg hosts_path fs =
     (let extra = (if adblock_enabled (adblocker cfg) \<and> xdp_critical_limit (adblocker cfg) > 0
                   then set (critical_domains hosts_path fs (xdp_critical_limit (adblocker cfg))) else {}) \<union>
                  (if block_via_xdp (app_control cfg) then set (blocked_app_names cat cfg) else {});
          too_long = sorted_list_of_set (Set.filter (\<lambda>n. length n \<ge> XDP_MAX_SNI_LEN) extra);
          kept = extra - set too_long
      in if kept = {} then (cfg, too_long)
         else (cfg\<lparr>xdp_sni_filter := (xdp_sni_filter cfg)\<lparr>xdp_blocklist := sorted_list_of_set (set (xdp_blocklist (xdp_sni_filter cfg)) \<union> kept)\<rparr>\<rparr>, too_long))"

subsection \<open>The refresh of a router\<close>

definition handle_refresh_adblock :: "downloads \<Rightarrow> bool \<Rightarrow> config \<Rightarrow> string \<Rightarrow> string \<Rightarrow> files \<Rightarrow> (adblock_error, refresh_result) result \<times> files" where
  "handle_refresh_adblock net is_root cfg hosts_path dir fs =
     refresh net is_root False (source_urls (adblocker cfg)) hosts_path (adblock_categories (adblocker cfg)) dir (never_blocked cfg) fs"

text \<open>The command's exit status and what it leaves; nothing but \<open>AdblockError\<close> is caught.\<close>

definition cmd_adblock_refresh :: "downloads \<Rightarrow> bool \<Rightarrow> bool \<Rightarrow> config \<Rightarrow> string \<Rightarrow> string \<Rightarrow> files \<Rightarrow> (string, nat) result \<times> files" where
  "cmd_adblock_refresh net is_root scheduled cfg hosts_path dir fs =
     (if scheduled \<and> \<not> adblock_enabled (adblocker cfg) then (Inr 0, fs)
      else case refresh net is_root False (source_urls (adblocker cfg)) hosts_path (adblock_categories (adblocker cfg)) dir (never_blocked cfg) fs of
        (Inl (AdblockError _), fs') \<Rightarrow> (Inr 1, fs')
      | (Inl (Uncaught m), fs') \<Rightarrow> (Inl m, fs')
      | (Inr _, fs') \<Rightarrow> (Inr 0, fs'))"

subsection \<open>The lists after an apply\<close>

lemma finite_read [simp]: "finite (read_hosts_file p fs)"
  by (simp add: read_hosts_file_def split: option.split)

lemma apply_allowlist_subset: "apply_allowlist D al \<subseteq> D"
  by (auto simp: apply_allowlist_def)

lemma apply_allowlist_idem [simp]: "apply_allowlist (apply_allowlist D al) al = apply_allowlist D al"
  by (auto simp: apply_allowlist_def)

lemma read_hosts_file_cong: "fs p = fs' p \<Longrightarrow> read_hosts_file p fs = read_hosts_file p fs'"
  by (simp add: read_hosts_file_def)

lemma read_kept: "fs p = Some (hosts_text (apply_allowlist (read_hosts_file q gs) al)) \<Longrightarrow> read_hosts_file p fs = apply_allowlist (read_hosts_file q gs) al"
proof -
  assume "fs p = Some (hosts_text (apply_allowlist (read_hosts_file q gs) al))"
  moreover have "finite (apply_allowlist (read_hosts_file q gs) al)" by (rule finite_subset [OF apply_allowlist_subset]) simp
  moreover have "blockable d" if "d \<in> apply_allowlist (read_hosts_file q gs) al" for d
    using that apply_allowlist_subset by (fastforce simp: read_hosts_file_def parse_hosts_text_blockable split: option.splits)
  ultimately show ?thesis by (simp add: read_hosts_file_def [of p] parse_written)
qed

lemma enforce_file_read:
  "read_hosts_file q (fst (enforce_file al p (fs, n))) = (if q = p then apply_allowlist (read_hosts_file p fs) al else read_hosts_file q fs)"
proof (cases "card (apply_allowlist (read_hosts_file p fs) al) = card (read_hosts_file p fs)")
  case True
  then have "apply_allowlist (read_hosts_file p fs) al = read_hosts_file p fs"
    by (intro card_subset_eq) (simp_all add: apply_allowlist_subset)
  then show ?thesis by (simp add: enforce_file_def)
next
  case False
  then have "fst (enforce_file al p (fs, n)) = fs(p \<mapsto> hosts_text (apply_allowlist (read_hosts_file p fs) al))"
    by (simp add: enforce_file_def write_hosts_file_def Let_def)
  then show ?thesis
    using read_kept [of "fst (enforce_file al p (fs, n))" p p fs al] read_hosts_file_cong [of "fst (enforce_file al p (fs, n))" q fs] by auto
qed

lemma enforce_file_other: "q \<noteq> p \<Longrightarrow> fst (enforce_file al p st) q = fst st q"
  by (cases st) (simp add: enforce_file_def write_hosts_file_def Let_def)

lemma enforce_fold:
  "read_hosts_file q (fst (fold (enforce_file al) ps st)) = (if q \<in> set ps then apply_allowlist (read_hosts_file q (fst st)) al else read_hosts_file q (fst st))"
proof (induction ps arbitrary: st)
  case (Cons p ps)
  show ?case using Cons [of "enforce_file al p st"] enforce_file_read [of q al p "fst st" "snd st"] by auto
qed simp

lemma enforce_fold_other: "q \<notin> set ps \<Longrightarrow> fst (fold (enforce_file al) ps st) q = fst st q"
  by (induction ps arbitrary: st) (auto simp: enforce_file_other)

lemma placeholder_read: "read_hosts_file q (ensure_hosts_placeholder p fs) = read_hosts_file q fs"
proof -
  have "parse_hosts_text (unlines [HOSTS_PLACEHOLDER]) = {}" by code_simp
  then show ?thesis by (simp add: read_hosts_file_def ensure_hosts_placeholder_def)
qed

lemma placeholders_read: "read_hosts_file q (fold (\<lambda>n. ensure_hosts_placeholder (f n)) ns fs) = read_hosts_file q fs"
  by (induction ns arbitrary: fs) (simp_all add: placeholder_read)

lemma placeholders_other: "q \<notin> f ` set ns \<Longrightarrow> fold (\<lambda>n. ensure_hosts_placeholder (f n)) ns fs q = fs q"
  by (induction ns arbitrary: fs) (auto simp: ensure_hosts_placeholder_def)

lemma set_hosts_files: "set (hosts_files cfg hosts_path dir) = insert hosts_path (category_path dir ` fst ` set (adblock_categories (adblocker cfg)))"
  by (simp add: hosts_files_def)

lemma enforce_files_prefix:
  "enforce_files bad al ps st = (find bad ps, fold (enforce_file al) (takeWhile (\<lambda>p. \<not> bad p) ps) st)"
  by (induction ps arbitrary: st) auto

lemma find_undecodable: "find P xs = Some x \<Longrightarrow> x \<in> set xs \<and> P x"
  by (auto simp: find_Some_iff)

text \<open>The files once the lists are there, and those the loop reaches.\<close>

definition placed :: "config \<Rightarrow> string \<Rightarrow> string \<Rightarrow> files \<Rightarrow> files" where
  "placed cfg hosts_path dir fs =
     fold (\<lambda>n. ensure_hosts_placeholder (category_path dir n)) (map fst (adblock_categories (adblocker cfg))) (ensure_hosts_placeholder hosts_path fs)"

definition list_paths :: "config \<Rightarrow> string \<Rightarrow> string \<Rightarrow> string list" where
  "list_paths cfg hosts_path dir = hosts_path # map (category_path dir) (map fst (adblock_categories (adblocker cfg)))"

lemma list_paths_set: "set (list_paths cfg hosts_path dir) = set (hosts_files cfg hosts_path dir)"
  by (auto simp: list_paths_def set_hosts_files)

lemma placed_read: "read_hosts_file p (placed cfg hosts_path dir fs) = read_hosts_file p fs"
  by (simp add: placed_def placeholders_read placeholder_read)

lemma placed_other: "p \<notin> set (hosts_files cfg hosts_path dir) \<Longrightarrow> placed cfg hosts_path dir fs p = fs p"
  unfolding placed_def by (subst placeholders_other) (auto simp: ensure_hosts_placeholder_def set_hosts_files)

lemma prepare_files_eq:
  "prepare_files cat env cfg hosts_path conf_path dir query_log fs =
     (let ps = list_paths cfg hosts_path dir; bad = undecodable env fs;
          (fs2, removed) = fold (enforce_file (never_blocked cfg)) (takeWhile (\<lambda>p. \<not> bad p) ps) (placed cfg hosts_path dir fs, 0)
      in (find bad ps, if find bad ps = None then fs2(conf_path \<mapsto> render_dnsmasq_config cat cfg hosts_path dir query_log) else fs2, removed))"
  by (simp add: prepare_files_def enforce_allowlist_def enforce_files_prefix Let_def split_def list_paths_def placed_def split: option.split)

lemma prepare_files_read:
  assumes "conf_path \<notin> set (hosts_files cfg hosts_path dir)" and "p \<in> set (hosts_files cfg hosts_path dir)"
    and "\<forall>q\<in>set (hosts_files cfg hosts_path dir). \<not> undecodable env fs q"
  shows "read_hosts_file p (fst (snd (prepare_files cat env cfg hosts_path conf_path dir query_log fs))) = apply_allowlist (read_hosts_file p fs) (never_blocked cfg)"
proof -
  let ?ps = "list_paths cfg hosts_path dir"
  have ok: "takeWhile (\<lambda>p. \<not> undecodable env fs p) ?ps = ?ps" "find (undecodable env fs) ?ps = None"
    using assms(3) by (auto simp: takeWhile_eq_all_conv find_None_iff simp flip: list_paths_set)
  have "p \<noteq> conf_path" using assms by auto
  then have "read_hosts_file p (fst (snd (prepare_files cat env cfg hosts_path conf_path dir query_log fs))) =
      read_hosts_file p (fst (fold (enforce_file (never_blocked cfg)) ?ps (placed cfg hosts_path dir fs, 0)))"
    by (intro read_hosts_file_cong) (simp add: prepare_files_eq Let_def split_def ok)
  also have "\<dots> = apply_allowlist (read_hosts_file p (placed cfg hosts_path dir fs)) (never_blocked cfg)"
    using assms(2) unfolding enforce_fold list_paths_set by simp
  finally show ?thesis by (simp add: placed_read)
qed

lemma prepare_files_other:
  assumes "p \<notin> set (hosts_files cfg hosts_path dir)" and "p \<noteq> conf_path"
  shows "fst (snd (prepare_files cat env cfg hosts_path conf_path dir query_log fs)) p = fs p"
proof -
  have "p \<notin> set (takeWhile (\<lambda>p. \<not> undecodable env fs p) (list_paths cfg hosts_path dir))"
    using assms(1) by (auto dest: set_takeWhileD simp: list_paths_set)
  then show ?thesis using assms placed_other [OF assms(1)]
    by (simp add: prepare_files_eq Let_def split_def enforce_fold_other)
qed

lemma prepare_files_conf:
  assumes "\<forall>q\<in>set (hosts_files cfg hosts_path dir). \<not> undecodable env fs q"
  shows "fst (snd (prepare_files cat env cfg hosts_path conf_path dir query_log fs)) conf_path = Some (render_dnsmasq_config cat cfg hosts_path dir query_log)"
  using assms by (simp add: prepare_files_eq Let_def split_def find_None_iff list_paths_set)

lemma prepare_files_failed:
  assumes "q \<in> set (hosts_files cfg hosts_path dir)" and "undecodable env fs q" and "conf_path \<notin> set (hosts_files cfg hosts_path dir)"
  shows "\<exists>path \<in> set (hosts_files cfg hosts_path dir). undecodable env fs path \<and>
      fst (prepare_files cat env cfg hosts_path conf_path dir query_log fs) = Some path"
    and "fst (snd (prepare_files cat env cfg hosts_path conf_path dir query_log fs)) conf_path = fs conf_path"
proof -
  from assms(1,2) obtain path where f: "find (undecodable env fs) (list_paths cfg hosts_path dir) = Some path"
    by (cases "find (undecodable env fs) (list_paths cfg hosts_path dir)") (auto simp: find_None_iff simp flip: list_paths_set)
  with find_undecodable [OF f] show "\<exists>path \<in> set (hosts_files cfg hosts_path dir). undecodable env fs path \<and>
      fst (prepare_files cat env cfg hosts_path conf_path dir query_log fs) = Some path"
    by (auto simp: prepare_files_eq Let_def split_def list_paths_set)
  have "conf_path \<notin> set (takeWhile (\<lambda>p. \<not> undecodable env fs p) (list_paths cfg hosts_path dir))"
    using assms(3) by (auto dest: set_takeWhileD simp: list_paths_set)
  then show "fst (snd (prepare_files cat env cfg hosts_path conf_path dir query_log fs)) conf_path = fs conf_path"
    by (simp add: prepare_files_eq Let_def split_def f enforce_fold_other placed_other [OF assms(3)])
qed

subsection \<open>The lines of the configuration\<close>

definition conf_lines :: "catalog \<Rightarrow> config \<Rightarrow> string \<Rightarrow> string \<Rightarrow> string \<Rightarrow> string list" where
  "conf_lines cat cfg hosts_path dir query_log =
     CONF_HEAD @ map addn_hosts (hosts_files cfg hosts_path dir) @ map ((@) ''interface='') (listen_devices cfg) @
     CONF_BIND @ map ((@) ''server='') (upstream_servers cfg) @ extra_lines cat cfg query_log @ CONF_TAIL"

text \<open>No value of the configuration holds a line break.\<close>

definition conf_plain :: "catalog \<Rightarrow> config \<Rightarrow> string \<Rightarrow> string \<Rightarrow> string \<Rightarrow> bool" where
  "conf_plain cat cfg hosts_path dir query_log = list_all (list_all (\<lambda>c. \<not> is_line_break c)) (conf_lines cat cfg hosts_path dir query_log)"

lemma unlines_append: "unlines (a @ b) = unlines a @ unlines b"
  by (simp add: unlines_def)

lemma join_unlines: "ls \<noteq> [] \<Longrightarrow> py_join [LF] ls @ LF # s = unlines ls @ s"
  by (induction ls rule: induct_list012) (auto simp: unlines_def)

lemma fold_app_nonempty:
  assumes "\<And>x acc. acc \<noteq> [] \<Longrightarrow> f x acc \<noteq> []" and "acc \<noteq> []"
  shows "fold f xs acc \<noteq> []"
  using assms(2) by (induction xs arbitrary: acc) (simp_all add: assms(1))

lemma listen_devices_nonempty: "listen_devices cfg \<noteq> []"
  unfolding listen_devices_def by (rule fold_app_nonempty) (auto split: if_splits)

lemma render_lines: "render_dnsmasq_config cat cfg hosts_path dir query_log = unlines (conf_lines cat cfg hosts_path dir query_log)"
proof -
  have "hosts_files cfg hosts_path dir \<noteq> []" "upstream_servers cfg \<noteq> []"
    by (simp_all add: hosts_files_def upstream_servers_def Let_def DEFAULT_UPSTREAM_SERVERS_def)
  with listen_devices_nonempty show ?thesis
    by (simp add: render_dnsmasq_config_def conf_lines_def unlines_append join_unlines)
qed

lemma splitlines_render:
  "conf_plain cat cfg hosts_path dir query_log \<Longrightarrow> splitlines (render_dnsmasq_config cat cfg hosts_path dir query_log) = conf_lines cat cfg hosts_path dir query_log"
  unfolding render_lines unlines_def by (rule splitlines_unlines) (simp add: conf_plain_def list_all_iff)

lemma hosts_lines: "addn_hosts p \<in> set (conf_lines cat cfg hosts_path dir query_log) \<longleftrightarrow> p \<in> set (hosts_files cfg hosts_path dir)"
  by (auto simp: addn_hosts_def conf_lines_def CONF_HEAD_def CONF_BIND_def CONF_TAIL_def extra_lines_def local_dns_lines_def Let_def)

lemma sync_files:
  assumes "adblock_enabled (adblocker cfg)" and "env_root env"
    and "sync_dns_resolver cat env cfg False hosts_path conf_path dir query_log st = (res, st')"
  shows "dns_files st' = fst (snd (prepare_files cat env cfg hosts_path conf_path dir query_log (dns_files st)))"
  using assms by (auto simp: sync_dns_resolver_def dns_service_call_def Let_def split: prod.splits option.splits)

lemma sync_failed:
  assumes "adblock_enabled (adblocker cfg)" and "env_root env"
    and "sync_dns_resolver cat env cfg False hosts_path conf_path dir query_log st = (res, st')"
    and "fst (prepare_files cat env cfg hosts_path conf_path dir query_log (dns_files st)) = Some path"
  shows "res = Inl (UnicodeDecodeError path) \<and> dns_calls st' = dns_calls st"
  using assms by (auto simp: sync_dns_resolver_def Let_def split: prod.splits option.splits)

text \<open>
  C32: an apply takes what is never to be blocked off every list the resolver serves.  Once an apply has come past its
  guards, and whatever dnsmasq and systemd then answer, every hosts file the resolver's configuration on disk
  names holds exactly the names it held before, less the allowlist, the router's own local names (each with
  everything below it) and Firefox's canary, whoever wrote the file; a file's names are those the program's own
  reader finds in it: all of them when the program wrote it, while of a file from elsewhere dnsmasq may read more (a name with a
  trailing dot, or with an underscore).  No file but these and the configuration
  changes.  This is when every hosts file is UTF-8: when one is not, the step raises, and the configuration of the
  resolver is not written and the resolver not restarted.  No configured value holds a line break, and the
  configuration is not itself one of the hosts files.
\<close>

theorem never_blocked_not_served:
  assumes "adblock_enabled (adblocker cfg)" and "env_root env" and "conf_plain cat cfg hosts_path dir query_log"
    and "conf_path \<notin> set (hosts_files cfg hosts_path dir)"
    and "sync_dns_resolver cat env cfg False hosts_path conf_path dir query_log st = (res, st')"
  shows "if \<exists>p\<in>set (hosts_files cfg hosts_path dir). undecodable env (dns_files st) p
    then (\<exists>p\<in>set (hosts_files cfg hosts_path dir). undecodable env (dns_files st) p \<and> res = Inl (UnicodeDecodeError p)) \<and>
      dns_files st' conf_path = dns_files st conf_path \<and> dns_calls st' = dns_calls st
    else \<exists>conf. dns_files st' conf_path = Some conf \<and>
      (\<forall>p. addn_hosts p \<in> set (splitlines conf) \<longrightarrow>
         read_hosts_file p (dns_files st') =
           {d \<in> read_hosts_file p (dns_files st). \<not> is_allowlisted d (adblock_allowlist (adblocker cfg)) \<and>
              \<not> is_allowlisted d (local_dns_names (local_dns cfg)) \<and> \<not> is_allowlisted d [FIREFOX_DOH_CANARY]}) \<and>
      (\<forall>p. p \<noteq> conf_path \<and> addn_hosts p \<notin> set (splitlines conf) \<longrightarrow> dns_files st' p = dns_files st p)"
proof (cases "\<exists>p\<in>set (hosts_files cfg hosts_path dir). undecodable env (dns_files st) p")
  case True
  then obtain q where q: "q \<in> set (hosts_files cfg hosts_path dir)" "undecodable env (dns_files st) q" by blast
  note failed = prepare_files_failed [OF q assms(4), where cat = cat and query_log = query_log]
  from failed(1) obtain path where path: "path \<in> set (hosts_files cfg hosts_path dir)" "undecodable env (dns_files st) path"
    "fst (prepare_files cat env cfg hosts_path conf_path dir query_log (dns_files st)) = Some path" by blast
  from sync_failed [OF assms(1,2,5) path(3)] path(1,2) failed(2) True show ?thesis
    by (auto simp: sync_files [OF assms(1,2,5)])
next
  case False
  have "apply_allowlist D (never_blocked cfg) = {d \<in> D. \<not> is_allowlisted d (adblock_allowlist (adblocker cfg)) \<and>
      \<not> is_allowlisted d (local_dns_names (local_dns cfg)) \<and> \<not> is_allowlisted d [FIREFOX_DOH_CANARY]}" for D
    by (auto simp: apply_allowlist_def never_blocked_def is_allowlisted_def Let_def list_ex_iff)
  with False show ?thesis
    using prepare_files_conf prepare_files_read [OF assms(4)] prepare_files_other [of _ cfg hosts_path dir conf_path]
    by (auto simp: sync_files [OF assms(1,2,5)] splitlines_render [OF assms(3)] hosts_lines)
qed

text \<open>A router with one list, on which a local name and an allowed one stand.\<close>

definition dns_cfg1 :: config where
  "dns_cfg1 = config0\<lparr>adblocker := (adblocker config0)\<lparr>adblock_enabled := True, adblock_allowlist := [''ok.example'']\<rparr>,
     local_dns := (local_dns config0)\<lparr>dns_hosts := [(''nas.lan'', ''10.0.0.2'')]\<rparr>\<rparr>"

definition dns_env1 :: dns_env where
  "dns_env1 = \<lparr>env_root = True, env_undecodable = (\<lambda>_. False), test_config = (\<lambda>_. None), env_restart = Some ''failed'', env_stop = None, env_active = False\<rparr>"

definition dns_state1 :: dns_state where
  "dns_state1 = \<lparr>dns_files = [''/a.hosts'' \<mapsto> unlines [''0.0.0.0 ads.example'', ''0.0.0.0 www.ok.example nas.lan'']], dns_calls = []\<rparr>"

lemma dns_cfg1_values:
  "hosts_files dns_cfg1 ''/a.hosts'' ''/a.d'' = [''/a.hosts'']" "listen_devices dns_cfg1 = [''lo'']" "upstream_servers dns_cfg1 = [''1.1.1.1'', ''9.9.9.9'']"
  "extra_lines [] dns_cfg1 ''/q.log'' = [''host-record=nas.lan,10.0.0.2'', ''local=/nas.lan/'']"
  "adblock_allowlist (adblocker dns_cfg1) = [''ok.example'']" "local_dns_names (local_dns dns_cfg1) = [''nas.lan'']"
  by (simp_all add: dns_cfg1_def config0_simps hosts_files_def listen_devices_def upstream_servers_def DEFAULT_UPSTREAM_SERVERS_def own_ipv4_def
    map_filter_simps extra_lines_def blocked_app_names_def local_dns_lines_def local_dns_names_def)

lemma dns_cfg1_plain: "conf_plain [] dns_cfg1 ''/a.hosts'' ''/a.d'' ''/q.log''"
  by (simp add: conf_plain_def conf_lines_def dns_cfg1_values addn_hosts_def CONF_HEAD_def CONF_BIND_def CONF_TAIL_def is_line_break_def in_range_def)

lemma dns_state1_names:
  "{d \<in> read_hosts_file ''/a.hosts'' (dns_files dns_state1). \<not> is_allowlisted d [''ok.example''] \<and>
     \<not> is_allowlisted d [''nas.lan''] \<and> \<not> is_allowlisted d [FIREFOX_DOH_CANARY]} = {''ads.example''}"
proof -
  have "parse_hosts_text (unlines [''0.0.0.0 ads.example'', ''0.0.0.0 www.ok.example nas.lan'']) = {''ads.example'', ''www.ok.example'', ''nas.lan''}" by code_simp
  then have "read_hosts_file ''/a.hosts'' (dns_files dns_state1) = {''ads.example'', ''www.ok.example'', ''nas.lan''}"
    by (simp add: read_hosts_file_def dns_state1_def)
  moreover have "is_allowlisted ''www.ok.example'' [''ok.example'']" "is_allowlisted ''nas.lan'' [''nas.lan'']" "\<not> is_allowlisted ''ads.example'' [''ok.example'']"
    "\<not> is_allowlisted ''ads.example'' [''nas.lan'']" "\<not> is_allowlisted ''ads.example'' [FIREFOX_DOH_CANARY]" by code_simp+
  ultimately show ?thesis by auto
qed

theorem never_blocked_not_served_witness:
  "read_hosts_file ''/a.hosts'' (dns_files (snd (sync_dns_resolver [] dns_env1 dns_cfg1 False ''/a.hosts'' ''/a.conf'' ''/a.d'' ''/q.log'' dns_state1))) = {''ads.example''}"
proof -
  obtain res st' where r: "sync_dns_resolver [] dns_env1 dns_cfg1 False ''/a.hosts'' ''/a.conf'' ''/a.d'' ''/q.log'' dns_state1 = (res, st')"
    by (cases "sync_dns_resolver [] dns_env1 dns_cfg1 False ''/a.hosts'' ''/a.conf'' ''/a.d'' ''/q.log'' dns_state1")
  have on: "adblock_enabled (adblocker dns_cfg1)" "env_root dns_env1" by (simp_all add: dns_cfg1_def dns_env1_def)
  have "dns_files st' ''/a.conf'' = Some (render_dnsmasq_config [] dns_cfg1 ''/a.hosts'' ''/a.d'' ''/q.log'')"
    by (simp add: sync_files [OF on r] prepare_files_conf undecodable_def dns_env1_def)
  moreover have "''/a.conf'' \<notin> set (hosts_files dns_cfg1 ''/a.hosts'' ''/a.d'')" by (simp add: dns_cfg1_values)
  ultimately show ?thesis
    using never_blocked_not_served [OF on dns_cfg1_plain _ r]
    unfolding r by (simp add: undecodable_def dns_env1_def splitlines_render [OF dns_cfg1_plain] hosts_lines dns_cfg1_values dns_state1_names)
qed

subsection \<open>The names the kernel's filter gets\<close>

text \<open>What this program leaves as a hosts file.\<close>

definition generated :: "string \<Rightarrow> bool" where
  "generated t \<longleftrightarrow> t = unlines [HOSTS_PLACEHOLDER] \<or> (\<exists>D. finite D \<and> (\<forall>d\<in>D. blockable d) \<and> t = hosts_text D)"

lemma map_filter_append_lists: "List.map_filter f (xs @ ys) = List.map_filter f xs @ List.map_filter f ys"
  by (simp add: List.map_filter_def)

lemma critical_written:
  assumes "finite D" and "\<And>d. d \<in> D \<Longrightarrow> blockable d" and "fs p = Some (hosts_text D)"
  shows "critical_domains p fs limit = take (nat limit) (filter (\<lambda>d. length d < DNS_MAX_SNI_LEN) (sorted_list_of_set D))"
proof -
  define f where "f line = (if strip line = [] \<or> starts_with line ''#'' then None
      else let parts = split_ws line in if length parts < 2 then None else Some (parts ! 1))" for line
  have "f l = None" if "l \<in> set HOSTS_FILE_HEADER" for l using header_lines [OF that] by (simp add: f_def)
  moreover have "List.map_filter f ls = []" if "\<And>l. l \<in> set ls \<Longrightarrow> f l = None" for ls
    using that by (induction ls) (auto simp: map_filter_simps)
  ultimately have h: "List.map_filter f HOSTS_FILE_HEADER = []" by blast
  have e: "f (hosts_entry d) = Some d" if "d \<in> D" for d
  proof -
    have "split_ws (hosts_entry d) = [''0.0.0.0'', d]"
      by (rule split_entry) (use assms(2) [OF that] in \<open>auto simp: blockable_plain blockable_chars\<close>)
    moreover have "strip (hosts_entry d) \<noteq> []" "\<not> starts_with (hosts_entry d) ''#''"
      by (simp_all add: hosts_entry_def strip_def starts_with_def is_space_def in_range_def)
    ultimately show ?thesis by (simp add: f_def)
  qed
  have "List.map_filter f (map hosts_entry xs) = xs" if "set xs \<subseteq> D" for xs
    using that by (induction xs) (auto simp: map_filter_simps e)
  then have "List.map_filter f (splitlines (hosts_text D)) = sorted_list_of_set D"
    using assms(1,2) h by (simp add: splitlines_hosts_text map_filter_append_lists)
  moreover have "sort (filter P (sorted_list_of_set D)) = filter P (sorted_list_of_set D)" for P
    by (intro sorted_sort_id) (simp add: sorted_wrt_filter)
  ultimately show ?thesis using assms(3)
    by (simp add: critical_domains_def f_def [abs_def, symmetric])
qed

lemma placeholder_names: "parse_hosts_text (unlines [HOSTS_PLACEHOLDER]) = {}" "splitlines (unlines [HOSTS_PLACEHOLDER]) = [HOSTS_PLACEHOLDER]"
  by code_simp+

lemma critical_read:
  assumes "generated t" and "fs p = Some t"
  shows "set (critical_domains p fs limit) \<subseteq> {d \<in> read_hosts_file p fs. length d < DNS_MAX_SNI_LEN}"
proof (cases "t = unlines [HOSTS_PLACEHOLDER]")
  case True
  have "starts_with HOSTS_PLACEHOLDER ''#''" by code_simp
  then have "critical_domains p fs limit = []"
    using assms(2) by (simp add: True critical_domains_def placeholder_names map_filter_simps)
  then show ?thesis by simp
next
  case False
  with assms(1) obtain D where D: "finite D" "\<And>d. d \<in> D \<Longrightarrow> blockable d" "t = hosts_text D" by (auto simp: generated_def)
  have "set (critical_domains p fs limit) \<subseteq> {d \<in> D. length d < DNS_MAX_SNI_LEN}"
    using critical_written [OF D(1,2), of fs p limit] assms(2) D(1,3) by (auto dest: in_set_takeD)
  then show ?thesis using assms(2) D by (simp add: read_hosts_file_def parse_written)
qed

text \<open>Every hosts file is one this program wrote: what an installed router starts with and every refresh and apply keeps.\<close>

definition files_ok :: "string \<Rightarrow> string \<Rightarrow> files \<Rightarrow> bool" where
  "files_ok hosts_path dir fs \<longleftrightarrow> (\<forall>p t. p = hosts_path \<or> p \<in> range (category_path dir) \<longrightarrow> fs p = Some t \<longrightarrow> generated t)"

lemma generated_hosts: "finite D \<Longrightarrow> (\<And>d. d \<in> D \<Longrightarrow> blockable d) \<Longrightarrow> generated (hosts_text D)"
  by (auto simp: generated_def)

lemma files_ok_write: "files_ok hosts_path dir fs \<Longrightarrow> generated t \<Longrightarrow> files_ok hosts_path dir (fs(p \<mapsto> t))"
  by (auto simp: files_ok_def)

lemma files_ok_enforce: "files_ok hosts_path dir (fst st) \<Longrightarrow> files_ok hosts_path dir (fst (fold (enforce_file al) ps st))"
proof (induction ps arbitrary: st)
  case (Cons p ps)
  have "generated (hosts_text (apply_allowlist (read_hosts_file p fs) al))" for fs
    by (rule generated_hosts)
      (auto intro: finite_subset [OF apply_allowlist_subset] simp: apply_allowlist_def read_hosts_file_def parse_hosts_text_blockable split: option.splits)
  then have "files_ok hosts_path dir (fst (enforce_file al p st))"
    using Cons.prems by (cases st) (simp add: enforce_file_def write_hosts_file_def Let_def files_ok_write)
  then show ?case using Cons.IH by simp
qed simp

lemma files_ok_placeholders: "files_ok hosts_path dir fs \<Longrightarrow> files_ok hosts_path dir (fold (\<lambda>n. ensure_hosts_placeholder (f n)) ns fs)"
  by (induction ns arbitrary: fs) (simp_all add: ensure_hosts_placeholder_def files_ok_write generated_def)

lemma files_ok_prepare:
  assumes "files_ok hosts_path dir fs" and "conf_path \<noteq> hosts_path" and "conf_path \<notin> range (category_path dir)"
  shows "files_ok hosts_path dir (fst (snd (prepare_files cat env cfg hosts_path conf_path dir query_log fs)))"
proof -
  have "files_ok hosts_path dir (ensure_hosts_placeholder hosts_path fs)"
    using files_ok_placeholders [OF assms(1), of "\<lambda>x. x" "[hosts_path]"] by simp
  then have "files_ok hosts_path dir (placed cfg hosts_path dir fs)"
    unfolding placed_def by (rule files_ok_placeholders)
  then have "files_ok hosts_path dir (fst (fold (enforce_file (never_blocked cfg)) ps (placed cfg hosts_path dir fs, 0)))" for ps
    by (intro files_ok_enforce) simp
  then show ?thesis using assms(2,3) unfolding prepare_files_eq Let_def split_def files_ok_def by auto
qed

lemma files_ok_refresh:
  assumes "files_ok hosts_path dir fs" and "each_ends net" and "places_ok hosts_path categories dir"
    and "refresh net is_root False urls hosts_path categories dir al fs = (res, fs')"
  shows "files_ok hosts_path dir fs'"
proof (cases "\<exists>r. res = Inr r")
  case False
  with refresh_result(2) [OF assms(2-4)] assms(1) show ?thesis by simp
next
  case True
  then obtain fetched where fs': "fs' = refresh_files urls hosts_path categories dir fetched fs"
    and f: "\<And>n us p. (n, us, p) \<in> set (refresh_lists urls hosts_path categories dir) \<Longrightarrow>
      map_of fetched n = (if list_fetched net n us then Some (list_names net al n us) else None)"
    using refresh_result(3) [OF assms(2-4)] by blast
  have "fs' p = fs p \<or> fs' p = None \<or> (\<exists>t. fs' p = Some t \<and> generated t)" for p
  proof (cases "\<exists>n us. (n, us, p) \<in> set (refresh_lists urls hosts_path categories dir)")
    case True
    then obtain n us where m: "(n, us, p) \<in> set (refresh_lists urls hosts_path categories dir)" by blast
    have "generated (hosts_text (list_names net al n us))" by (rule generated_hosts) (simp_all add: list_names_ok)
    then show ?thesis using refresh_files_list [OF assms(3) m, of fetched fs] f [OF m] by (simp add: fs')
  next
    case False
    then have other: "p \<notin> (\<lambda>(_, _, q). q) ` set (refresh_lists urls hosts_path categories dir)" by auto
    show ?thesis
    proof (cases "p = hosts_path")
      case True
      moreover have "generated (hosts_text {})" by (rule generated_hosts) simp_all
      ultimately show ?thesis using fold_write_other [OF other, of fetched fs]
        by (cases "urls = []") (auto simp: fs' refresh_files_def write_hosts_file_def)
    qed (simp add: fs' refresh_files_other [OF other])
  qed
  with assms(1) show ?thesis unfolding files_ok_def by (metis option.distinct(1) option.inject)
qed

text \<open>
  The kernel's filter gets, beyond the names configured for it, names of blocked applications and names the
  resolver blocks too: none that is never blocked, none its key cannot hold.
\<close>

lemma kernel_filter_names:
  assumes "files_ok hosts_path dir (dns_files st)" and "conf_path \<noteq> hosts_path" and "conf_path \<notin> range (category_path dir)"
    and "adblock_enabled (adblocker cfg)" and "env_root env"
    and "sync_dns_resolver cat env cfg False hosts_path conf_path dir query_log st = (res, st')"
    and "\<forall>q\<in>set (hosts_files cfg hosts_path dir). \<not> undecodable env (dns_files st) q"
    and "n \<in> set (xdp_blocklist (xdp_sni_filter (fst (xdp_config_for cat cfg hosts_path (dns_files st')))))"
  shows "n \<in> set (xdp_blocklist (xdp_sni_filter cfg)) \<or> length n < XDP_MAX_SNI_LEN \<and>
    (n \<in> set (blocked_app_names cat cfg) \<or> n \<in> read_hosts_file hosts_path (dns_files st') \<and> \<not> is_allowlisted n (never_blocked cfg))"
proof -
  note fs' = sync_files [OF assms(4-6)]
  have "conf_path \<notin> set (hosts_files cfg hosts_path dir)" using assms(2,3) by (auto simp: set_hosts_files)
  then have read: "read_hosts_file hosts_path (dns_files st') = apply_allowlist (read_hosts_file hosts_path (dns_files st)) (never_blocked cfg)"
    unfolding fs' using assms(7) by (intro prepare_files_read) (simp_all add: set_hosts_files)
  have "files_ok hosts_path dir (dns_files st')" unfolding fs' by (rule files_ok_prepare [OF assms(1-3)])
  then have "set (critical_domains hosts_path (dns_files st') k) \<subseteq> read_hosts_file hosts_path (dns_files st')" for k
    using critical_read [of _ "dns_files st'" hosts_path k]
    by (cases "dns_files st' hosts_path") (auto simp: files_ok_def critical_domains_def [of hosts_path])
  then show ?thesis using assms(8)
    by (auto simp: xdp_config_for_def Let_def read apply_allowlist_def is_allowlisted_def not_le split: if_splits)
qed

subsection \<open>The query log\<close>

definition QUERY_LOG_MAX_BYTES :: nat where "QUERY_LOG_MAX_BYTES = 16 * 1024 * 1024"

definition trim_query_log :: "nat \<Rightarrow> string \<Rightarrow> files \<Rightarrow> bool \<times> files" where
  "trim_query_log max_bytes path fs =
     (case fs path of None \<Rightarrow> (False, fs)
      | Some t \<Rightarrow> if length t \<le> max_bytes then (False, fs) else (True, fs(path \<mapsto> [])))"

lemma trimmed_log_bounded: "snd (trim_query_log m path fs) path = Some t \<Longrightarrow> length t \<le> m"
  by (auto simp: trim_query_log_def split: option.splits if_splits)

end
