(* ===== verification/Ipv6_Setup.thy ===== *)
theory Ipv6_Setup
  imports Ztna Ip6_Text Dns_Resolver
begin

text \<open>
  IPv6 on the router (\<open>src/src/frfw/ipv6.py\<close>): the files of dhcpcd and of the instance that sends Router
  Advertisements, the stable (ULA) network of each LAN device, the kernel settings, the step of an apply, and
  what of it is undone.

  \<open>ipv6_sys\<close> is what the step changes: the IPv6 addresses on the devices, the state file, the kernel settings,
  the files, and a record of the calls of systemctl.  The state file is missing, empty, not JSON, or a JSON value; the
  order of its keys, which nobody reads, is left out.  \<open>ip\<close>, systemd and dnsmasq are parameters (\<open>ipv6_env\<close>):
  \<open>run_ip\<close> says how a call ends; one that succeeds changes the addresses as iproute2 documents it (\<open>replace\<close> puts an
  address on, \<open>del\<close> takes it off), one that fails changes nothing.  \<open>random_bits\<close> is \<open>secrets.randbits(40)\<close>.
\<close>

subsection \<open>dhcpcd and the Router Advertisements\<close>

definition delegation :: "config \<Rightarrow> bool \<Rightarrow> string" where
  "delegation cfg first =
     (let lan = (if first then lan_devices cfg else []) in
      if lan = [] then ''-''
      else py_join '' '' (map (\<lambda>(sla, (_, device)). device @ ''/'' @ show_nat sla @ ''/64'') (zip [0..<length lan] lan)))"

definition DHCPCD_HEAD :: "string list" where
  "DHCPCD_HEAD =
     [''# Managed by FR_OS (frfw.ipv6) -- regenerated on every `apply`, do not edit.'',
      ''# IPv6 (ROADMAP FND-1): SLAAC from the provider's Router Advertisement,'',
      ''# DHCPv6 for an address and a delegated prefix on the WAN; a /64 of the'',
      ''# prefix for each LAN device (FND-1b), with an unreachable route installed'',
      ''# for the rest of it.'',
      ''ipv6only'', ''noipv4'', ''noipv4ll'',
      ''# Router Advertisements are read on the WAN only (its block below): never'',
      ''# on a LAN, which must not configure the router -- and dhcpcd.conf(5)'',
      ''# advises it when asking for a delegated prefix.'',
      ''noipv6rs'',
      ''# No hostname and no FQDN option: the router doesn't name itself to the'',
      ''# provider.'',
      ''fqdn disable'',
      ''# No hook script: nothing the provider sends is written to the router's'',
      ''# own files (resolv.conf, its hostname, NTP servers).'',
      ''script /bin/true'',
      ''# Stable addresses that don't carry the MAC (RFC 7217).'',
      ''slaac private'',
      ''# The LAN devices too: dhcpcd only assigns a prefix to an interface it'',
      ''# runs on.'']"

definition TAB :: string where "TAB = [CHR 0x09]"

definition wan_block :: "config \<Rightarrow> nat \<times> string \<Rightarrow> string" where
  "wan_block cfg w =
     (let (n, device) = w in
      [LF] @ unlines [''interface '' @ device, TAB @ ''ipv6rs'', TAB @ ''ia_na '' @ show_nat n,
        TAB @ ''ia_pd '' @ show_nat (n + 100) @ '' '' @ delegation cfg (n = 1)])"

definition render_dhcpcd_conf :: "config \<Rightarrow> string" where
  "render_dhcpcd_conf cfg =
     (let wan = wan_devices cfg;
          blocks = concat (map (wan_block cfg) (zip [1..<Suc (length wan)] wan));
          devices = wan @ filter (\<lambda>d. d \<notin> set wan) (map snd (lan_devices cfg))
      in unlines (DHCPCD_HEAD @ [''allowinterfaces '' @ py_join '' '' devices]) @ blocks)"

definition RA_HEAD :: "string list" where
  "RA_HEAD =
     [''# Managed by FR_OS (frfw.ipv6) -- regenerated on every `apply`, do not edit.'',
      ''# Router Advertisements on the LAN (ROADMAP FND-1b/1c), and nothing else:'',
      ''# each device's /64s, for SLAAC -- the one dhcpcd gave it from the'',
      ''# provider's prefix and the stable ULA one -- and, where the router's'',
      ''# resolver serves the zone, the resolver's address (RDNSS).'',
      ''# No DNS here: the ad-block resolver (fr-adblock-dns) answers it.'',
      ''port=0'', ''no-resolv'', ''no-hosts'',
      ''# Nothing is written: /run is read-only in fr-ra's sandbox, and there are'',
      ''# no leases to keep.'',
      ''pid-file='', ''leasefile-ro'',
      ''# No log line for every advertisement sent.'',
      ''quiet-ra'', ''enable-ra'']"

subsection \<open>The stable networks\<close>

definition ULA_LOCAL :: ip_network where "ULA_LOCAL = Builder.net6 (0xfd00 * 2 ^ 112) 8"

definition generate_ula_prefix :: "int \<Rightarrow> ip_network" where
  "generate_ula_prefix random_bits =
     (let global_id = (if random_bits = 0 then 1 else random_bits) in Builder.net6 (or (0xfd * 2 ^ 120) (global_id * 2 ^ 80)) 48)"

text \<open>The text of an IPv6 network, without host bits, and of an address with its prefix length.\<close>

definition prefix6 :: "string \<Rightarrow> nat option" where
  "prefix6 s = (if s \<noteq> [] \<and> list_all is_digit s \<and> read_digits 0 s \<le> 128 then Some (read_digits 0 s) else None)"

definition ipv6_interface :: "string \<Rightarrow> (int \<times> string option \<times> nat) option" where
  "ipv6_interface s =
     (case split_on CHR ''/'' s of
        [a] \<Rightarrow> map_option (\<lambda>(x, scope). (x, scope, 128)) (parse_ipv6 a)
      | [a, p] \<Rightarrow> (case (parse_ipv6 a, prefix6 p) of (Some (x, scope), Some n) \<Rightarrow> Some (x, scope, n) | _ \<Rightarrow> None)
      | _ \<Rightarrow> None)"

definition show_ipv6_interface :: "int \<times> string option \<times> nat \<Rightarrow> string" where
  "show_ipv6_interface i =
     (let (x, scope, n) = i in show_ipv6 x @ (case scope of None \<Rightarrow> [] | Some s \<Rightarrow> CHR ''%'' # s) @ ''/'' @ show_nat n)"

definition ipv6_network :: "string \<Rightarrow> ip_network option" where
  "ipv6_network s =
     (case ipv6_interface s of None \<Rightarrow> None
      | Some (x, _, n) \<Rightarrow> if x mod 2 ^ (128 - n) = 0 then Some (Builder.net6 x n) else None)"

datatype ula_file = NoFile | EmptyFile | NotJson | Json pyval

type_synonym ula_state = "(pyval, pyval) dict"

definition read_ula_state :: "ula_file \<Rightarrow> ula_state" where
  "read_ula_state f = (case f of Json (VDict d) \<Rightarrow> d | _ \<Rightarrow> [])"

definition write_ula_state :: "ula_state \<Rightarrow> ula_file" where
  "write_ula_state d = Json (VDict d)"

definition valid_ula :: "pyval option \<Rightarrow> ip_network option" where
  "valid_ula v =
     (case v of Some (VStr s) \<Rightarrow>
        (case ipv6_network s of Some n \<Rightarrow> if net_prefixlen n = 48 \<and> subnet_of n ULA_LOCAL then Some n else None | None \<Rightarrow> None)
      | _ \<Rightarrow> None)"

definition generated_ula :: "ula_file \<Rightarrow> ip_network option" where
  "generated_ula f = valid_ula (map_of (read_ula_state f) (VStr ''generated''))"

text \<open>\<open>ula_prefix\<close> is \<open>ula_prefix_of\<close> of the zero-trust gate, with the generated prefix read from the file.\<close>

definition ensure_ula_prefix :: "int \<Rightarrow> config \<Rightarrow> ula_file \<Rightarrow> ip_network option \<times> ula_file" where
  "ensure_ula_prefix random_bits cfg f =
     (let f' = (if generated_ula f = None
                then write_ula_state (AList.update (VStr ''generated'') (VStr (show_network (generate_ula_prefix random_bits))) (read_ula_state f))
                else f)
      in (ula_prefix_of cfg (generated_ula f'), f'))"

definition forwarding_wanted :: "config \<Rightarrow> bool" where
  "forwarding_wanted cfg \<longleftrightarrow> lan_devices cfg \<noteq> [] \<or> wg_enabled (wireguard cfg)"

definition sla_network :: "ip_network \<Rightarrow> nat \<Rightarrow> ip_network" where
  "sla_network prefix sla = Builder.net6 (or (net_address prefix) (int sla * 2 ^ 64)) 64"

definition ula_addresses :: "config \<Rightarrow> ip_network option \<Rightarrow> (string \<times> string \<times> string) list" where
  "ula_addresses cfg prefix =
     (case prefix of None \<Rightarrow> []
      | Some p \<Rightarrow> map (\<lambda>(sla, (zone, device)). (zone, device, show_ipv6 (net_address (sla_network p sla) + 1) @ ''/64''))
          (zip [0..<length (lan_devices cfg)] (lan_devices cfg)))"

definition render_ra_conf :: "config \<Rightarrow> ip_network option \<Rightarrow> string" where
  "render_ra_conf cfg ula =
     (let served = dns_resolver_zones cfg;
          addresses = fold (\<lambda>(_, device, address). AList.update device address) (ula_addresses cfg ula) [];
          lines = concat (map (\<lambda>(zone, device).
            [''interface='' @ device, ''dhcp-range=::,constructor:'' @ device @ '',ra-only''] @
            (case (zone \<in> set served, map_of addresses device) of
               (True, Some address) \<Rightarrow> [''dhcp-option=tag:'' @ device @ '',option6:dns-server,['' @
                 (case ipv6_interface address of Some (x, _) \<Rightarrow> show_ipv6 x | None \<Rightarrow> []) @ '']'']
             | _ \<Rightarrow> [])) (lan_devices cfg))
      in unlines (RA_HEAD @ lines))"

subsection \<open>Putting the addresses on\<close>

datatype ipv6_error = Ipv6Error string | InvalidValue string | Unhandled string

datatype ip_outcome = Ip_done | Ip_failed string | Ip_missing | Ip_raises string

record ipv6_sys =
  v6_addresses :: "(string \<times> string) set"
  v6_state :: ula_file
  v6_sysctls :: "(string, string) dict"
  v6_files :: files
  v6_calls :: "(string \<times> string) list"

record ipv6_env =
  run_ip :: "string list \<Rightarrow> (string \<times> string) set \<Rightarrow> ip_outcome"
  random_bits :: int
  v6_root :: bool
  kernel_has_ipv6 :: bool
  ra_test :: "string \<Rightarrow> string option"
  v6_systemctl :: "string \<Rightarrow> string \<Rightarrow> string option"
  v6_active :: "string \<Rightarrow> bool"
  sysctl_dir :: "string \<Rightarrow> bool"
  sysctl_write :: "string \<Rightarrow> string option"

fun infix_at :: "string \<Rightarrow> string \<Rightarrow> bool" where
  "infix_at p [] \<longleftrightarrow> p = []"
| "infix_at p (c # s) \<longleftrightarrow> starts_with (c # s) p \<or> infix_at p s"

definition IP_GONE :: "string list" where
  "IP_GONE = [''Cannot assign requested address'', ''Cannot find device'']"

definition checked_pair :: "string \<times> string \<Rightarrow> (ipv6_error, string \<times> string) result" where
  "checked_pair p =
     (case ifname (VStr (fst p)) of Inl _ \<Rightarrow> Inl (InvalidValue (fst p))
      | Inr device \<Rightarrow> (case ipv6_interface (snd p) of None \<Rightarrow> Inl (InvalidValue (snd p)) | Some i \<Rightarrow> Inr (device, show_ipv6_interface i)))"

fun take_off :: "ipv6_env \<Rightarrow> (string \<times> string) list \<Rightarrow> (string \<times> string) list \<Rightarrow> ipv6_sys \<Rightarrow> (ipv6_error, unit) result \<times> ipv6_sys" where
  "take_off env wanted [] sys = (Inr (), sys)"
| "take_off env wanted (p # ps) sys =
     (if p \<in> set wanted then take_off env wanted ps sys
      else case checked_pair p of
        Inl e \<Rightarrow> (Inl e, sys)
      | Inr (device, address) \<Rightarrow>
          (case run_ip env [''addr'', ''del'', address, ''dev'', device] (v6_addresses sys) of
             Ip_done \<Rightarrow> take_off env wanted ps (sys\<lparr>v6_addresses := v6_addresses sys - {(device, address)}\<rparr>)
           | Ip_failed err \<Rightarrow>
               if list_ex (\<lambda>gone. infix_at gone err) IP_GONE then take_off env wanted ps sys
               else (Inl (Ipv6Error (''cannot take '' @ address @ '' off '' @ device @ '': '' @ strip err)), sys)
           | Ip_missing \<Rightarrow> (Inl (Ipv6Error ''binary not found; install the iproute2 package''), sys)
           | Ip_raises m \<Rightarrow> (Inl (Unhandled m), sys)))"

fun put_on :: "ipv6_env \<Rightarrow> (string \<times> string) list \<Rightarrow> ipv6_sys \<Rightarrow> (ipv6_error, unit) result \<times> ipv6_sys" where
  "put_on env [] sys = (Inr (), sys)"
| "put_on env (p # ps) sys =
     (case checked_pair p of
        Inl e \<Rightarrow> (Inl e, sys)
      | Inr (device, address) \<Rightarrow>
          (case run_ip env [''addr'', ''replace'', address, ''dev'', device, ''nodad''] (v6_addresses sys) of
             Ip_done \<Rightarrow> put_on env ps (sys\<lparr>v6_addresses := insert (device, address) (v6_addresses sys)\<rparr>)
           | Ip_failed err \<Rightarrow> (Inl (Ipv6Error (''cannot put '' @ address @ '' on '' @ device @ '': '' @ strip err)), sys)
           | Ip_missing \<Rightarrow> (Inl (Ipv6Error ''binary not found; install the iproute2 package''), sys)
           | Ip_raises m \<Rightarrow> (Inl (Unhandled m), sys)))"

definition set_ula_addresses :: "ipv6_env \<Rightarrow> (string \<times> string) list \<Rightarrow> (string \<times> string) list \<Rightarrow> ipv6_sys \<Rightarrow> (ipv6_error, unit) result \<times> ipv6_sys" where
  "set_ula_addresses env wanted before sys =
     (case take_off env wanted before sys of (Inl e, sys1) \<Rightarrow> (Inl e, sys1) | (Inr _, sys1) \<Rightarrow> put_on env wanted sys1)"

definition applied_pair :: "pyval \<Rightarrow> (string \<times> string) option" where
  "applied_pair item =
     (case item of VList [VStr device, VStr address] \<Rightarrow>
        (case (ifname (VStr device), ipv6_interface address) of
           (Inr _, Some (x, _)) \<Rightarrow> if in_network V6 x ULA then Some (device, address) else None
         | _ \<Rightarrow> None)
      | _ \<Rightarrow> None)"

definition applied :: "ula_state \<Rightarrow> (ipv6_error, (string \<times> string) list) result" where
  "applied d =
     (case map_of d (VStr ''addresses'') of None \<Rightarrow> Inr []
      | Some v \<Rightarrow>
          if \<not> truthy v then Inr []
          else case v of VList xs \<Rightarrow> Inr (List.map_filter applied_pair xs)
            | VStr _ \<Rightarrow> Inr [] | VDict _ \<Rightarrow> Inr [] | _ \<Rightarrow> Inl (Unhandled ''TypeError''))"

definition pair_value :: "string \<times> string \<Rightarrow> pyval" where
  "pair_value p = VList [VStr (fst p), VStr (snd p)]"

text \<open>What \<open>sync_ula\<close> wants on the devices, and the state file after the prefix is settled.\<close>

definition ula_wanted :: "int \<Rightarrow> config \<Rightarrow> ula_file \<Rightarrow> (string \<times> string \<times> string) list \<times> ula_file" where
  "ula_wanted bits cfg f =
     (if lan_devices cfg = [] then ([], f)
      else let (prefix, f') = ensure_ula_prefix bits cfg f in (ula_addresses cfg prefix, f'))"

definition sync_ula :: "ipv6_env \<Rightarrow> config \<Rightarrow> ipv6_sys \<Rightarrow> (ipv6_error, (string \<times> string \<times> string) list) result \<times> ipv6_sys" where
  "sync_ula env cfg sys =
     (let (addresses, f) = ula_wanted (random_bits env) cfg (v6_state sys); wanted = map snd addresses; sys1 = sys\<lparr>v6_state := f\<rparr> in
      case applied (read_ula_state f) of
        Inl e \<Rightarrow> (Inl e, sys1)
      | Inr before \<Rightarrow>
          (case set_ula_addresses env wanted before sys1 of
             (Inl e, sys2) \<Rightarrow> (Inl e, sys2)
           | (Inr _, sys2) \<Rightarrow>
               (Inr addresses, sys2\<lparr>v6_state := write_ula_state (AList.update (VStr ''addresses'') (VList (map pair_value wanted)) (read_ula_state f))\<rparr>)))"

text \<open>\<open>UlaState\<close>: the file as it was.\<close>

definition ula_capture :: "ipv6_sys \<Rightarrow> ula_file" where
  "ula_capture sys = v6_state sys"

definition captured_pairs :: "ula_file \<Rightarrow> (ipv6_error, (string \<times> string) list) result" where
  "captured_pairs f =
     (case f of NoFile \<Rightarrow> Inr [] | EmptyFile \<Rightarrow> Inr [] | NotJson \<Rightarrow> Inl (Unhandled ''JSONDecodeError'')
      | Json (VDict d) \<Rightarrow> applied d | Json _ \<Rightarrow> Inl (Unhandled ''AttributeError''))"

definition ula_restore :: "ipv6_env \<Rightarrow> ula_file \<Rightarrow> ipv6_sys \<Rightarrow> (ipv6_error, unit) result \<times> ipv6_sys" where
  "ula_restore env captured sys =
     (case captured_pairs captured of
        Inl e \<Rightarrow> (Inl e, sys)
      | Inr before \<Rightarrow>
          (case applied (read_ula_state (v6_state sys)) of
             Inl e \<Rightarrow> (Inl e, sys)
           | Inr now \<Rightarrow>
               (case set_ula_addresses env before now sys of
                  (Inl e, sys1) \<Rightarrow> (Inl e, sys1)
                | (Inr _, sys1) \<Rightarrow> (Inr (), sys1\<lparr>v6_state := captured\<rparr>))))"

subsection \<open>The networks of the devices\<close>

definition ula_ok :: "ip_network \<Rightarrow> bool" where
  "ula_ok p \<longleftrightarrow> net_family p = V6 \<and> net_prefixlen p = 48 \<and> net_address p mod 2 ^ 80 = 0 \<and> subnet_of p ULA_LOCAL"


lemma or_add:
  fixes a b :: int
  assumes "a mod 2 ^ n = 0" and "0 \<le> b" and "b < 2 ^ n"
  shows "or a b = a + b"
proof -
  have "and a b = 0"
  proof (rule bit_eqI)
    fix k
    have "\<not> bit a k" if "k < n"
      using assms(1) that by (metis bit_take_bit_iff take_bit_eq_mod bit_0_eq bot_apply bot_bool_def)
    moreover have "\<not> bit b k" if "n \<le> k"
      using assms(2,3) that by (metis bit_take_bit_iff take_bit_int_eq_self not_le)
    ultimately show "bit (and a b) k \<longleftrightarrow> bit 0 k" by (cases "k < n") (auto simp: bit_and_iff)
  qed
  then show ?thesis by (simp add: disjunctive_add_eq_or)
qed

lemma sla_address:
  assumes "ula_ok p" and "sla < 2 ^ 16"
  shows "net_address (sla_network p sla) = net_address p + int sla * 2 ^ 64"
proof -
  have "int sla * 2 ^ 64 < 2 ^ 80" using assms(2) by simp
  then have "or (net_address p) (int sla * 2 ^ 64) = net_address p + int sla * 2 ^ 64"
    by (intro or_add [where n = 80]) (use assms(1) in \<open>simp_all add: ula_ok_def\<close>)
  then show ?thesis by (simp add: sla_network_def Builder.net6_def)
qed


subsection \<open>The text of an address\<close>

lemma split_slash: "CHR ''/'' \<notin> set a \<Longrightarrow> CHR ''/'' \<notin> set b \<Longrightarrow> split_on CHR ''/'' (a @ ''/'' @ b) = [a, b]"
  using split_on_join [of "[a, b]" "CHR ''/''"] by auto

lemma interface_text:
  assumes "0 \<le> a" and "a < 2 ^ 128"
  shows "ipv6_interface (show_ipv6 a @ ''/64'') = Some (a, None, 64)" and "ipv6_interface (show_ipv6 a @ ''/48'') = Some (a, None, 48)"
    and "show_ipv6_interface (a, None, 64) = show_ipv6 a @ ''/64''"
proof -
  have "split_on CHR ''/'' (show_ipv6 a @ ''/64'') = [show_ipv6 a, ''64'']" "split_on CHR ''/'' (show_ipv6 a @ ''/48'') = [show_ipv6 a, ''48'']"
    using split_slash [of "show_ipv6 a" "''64''"] split_slash [of "show_ipv6 a" "''48''"] show_ipv6_chars [of a] by simp_all
  moreover have "prefix6 ''64'' = Some 64" "prefix6 ''48'' = Some 48" by code_simp+
  ultimately show "ipv6_interface (show_ipv6 a @ ''/64'') = Some (a, None, 64)" "ipv6_interface (show_ipv6 a @ ''/48'') = Some (a, None, 48)"
    by (simp_all add: ipv6_interface_def parse_show_ipv6 [OF assms])
  show "show_ipv6_interface (a, None, 64) = show_ipv6 a @ ''/64''"
    by (simp add: show_ipv6_interface_def show_nat.simps digit_char_def)
qed


lemma generated_valid:
  assumes "0 \<le> bits" and "bits < 2 ^ 40"
  shows "valid_ula (Some (VStr (show_network (generate_ula_prefix bits)))) = Some (generate_ula_prefix bits)" and "ula_ok (generate_ula_prefix bits)"
proof -
  define g where "g = (if bits = 0 then 1 else bits)"
  have g: "0 \<le> g" "g < 2 ^ 40" using assms by (auto simp: g_def)
  have "or (0xfd * 2 ^ 120) (g * 2 ^ 80) = 0xfd * 2 ^ 120 + g * 2 ^ 80" by (rule or_add [where n = 120]) (use g in simp_all)
  then have p: "generate_ula_prefix bits = Builder.net6 (0xfd * 2 ^ 120 + g * 2 ^ 80) 48" by (simp add: generate_ula_prefix_def g_def Let_def)
  let ?x = "0xfd * 2 ^ 120 + g * 2 ^ 80 :: int"
  have x: "0 \<le> ?x" "?x < 2 ^ 128" "?x mod 2 ^ 80 = 0"
    using g by simp_all
  have "show_network (generate_ula_prefix bits) = show_ipv6 ?x @ ''/48''"
    by (simp add: p show_network_def show_address_def Builder.net6_def show_nat.simps digit_char_def)
  then have "ipv6_network (show_network (generate_ula_prefix bits)) = Some (Builder.net6 ?x 48)"
    using x interface_text(2) [OF x(1,2)] by (simp add: ipv6_network_def)
  moreover have "subnet_of (Builder.net6 ?x 48) ULA_LOCAL"
    using g by (simp add: subnet_of_def ULA_LOCAL_def Builder.net6_def net_broadcast_def)
  ultimately show "valid_ula (Some (VStr (show_network (generate_ula_prefix bits)))) = Some (generate_ula_prefix bits)"
    by (simp add: valid_ula_def p Builder.net6_def)
  show "ula_ok (generate_ula_prefix bits)" using x \<open>subnet_of (Builder.net6 ?x 48) ULA_LOCAL\<close> by (simp add: ula_ok_def p Builder.net6_def)
qed

subsection \<open>What the step wants\<close>




lemma read_written [simp]: "read_ula_state (write_ula_state d) = d"
  by (simp add: read_ula_state_def write_ula_state_def)

lemma ensure_state:
  assumes "ensure_ula_prefix bits cfg f = (prefix, f')"
  shows "map_of (read_ula_state f') (VStr ''addresses'') = map_of (read_ula_state f) (VStr ''addresses'')"
    and "generated_ula f \<noteq> None \<Longrightarrow> f' = f" and "prefix = ula_prefix_of cfg (generated_ula f')"
  using assms by (auto simp: ensure_ula_prefix_def Let_def update_conv' split: if_splits)

lemma ensure_generates:
  assumes "0 \<le> bits" and "bits < 2 ^ 40" and "ensure_ula_prefix bits cfg f = (prefix, f')"
  shows "generated_ula f' \<noteq> None"
proof (cases "generated_ula f = None")
  case True
  with assms(3) have "f' = write_ula_state (AList.update (VStr ''generated'') (VStr (show_network (generate_ula_prefix bits))) (read_ula_state f))"
    by (auto simp: ensure_ula_prefix_def Let_def)
  then show ?thesis using generated_valid [OF assms(1,2)]
    by (simp add: generated_ula_def update_conv')
next
  case False
  with ensure_state(2) [OF assms(3)] show ?thesis by simp
qed



subsection \<open>What it does to the addresses\<close>








subsection \<open>Applies, kept and undone\<close>



definition readable :: "ula_file \<Rightarrow> bool" where
  "readable f \<longleftrightarrow> (case f of NotJson \<Rightarrow> False | Json (VDict _) \<Rightarrow> True | Json _ \<Rightarrow> False | _ \<Rightarrow> True)"

lemma readable_captured: "readable f \<Longrightarrow> captured_pairs f = applied (read_ula_state f)"
  by (auto simp: readable_def captured_pairs_def read_ula_state_def applied_def split: ula_file.splits pyval.splits)
















text \<open>
  An apply that fails half way is not undone in full: the addresses it put on before the failing one are in no state file,
  so the restore leaves them on, and so does every later apply.
\<close>

lemma failed_sync_leaves_address:
  assumes "checked_pair p = Inr p" and "checked_pair q = Inr q" and "p \<noteq> q" and "readable (v6_state sys)" and "applied (read_ula_state (v6_state sys)) = Inr []"
    and "\<And>d a now. run_ip env [''addr'', ''replace'', a, ''dev'', d, ''nodad''] now = (if (d, a) = q then Ip_failed ''Cannot find device'' else Ip_done)"
  shows "\<exists>e sys'. set_ula_addresses env [p, q] [] sys = (Inl e, sys') \<and> p \<in> v6_addresses sys' \<and> ula_restore env (ula_capture sys) sys' = (Inr (), sys')"
proof -
  obtain d a where p: "p = (d, a)" by fastforce
  obtain d' a' where q: "q = (d', a')" by fastforce
  let ?sys = "sys\<lparr>v6_addresses := insert p (v6_addresses sys)\<rparr>"
  have "set_ula_addresses env [p, q] [] sys = (Inl (Ipv6Error (''cannot put '' @ a' @ '' on '' @ d' @ '': '' @ strip ''Cannot find device'')), ?sys)"
    using assms(1-3) assms(6) [of a d] assms(6) [of a' d'] unfolding p q set_ula_addresses_def by auto
  moreover have "ula_restore env (ula_capture sys) ?sys = (Inr (), ?sys)"
    using assms(4,5) by (simp add: ula_restore_def ula_capture_def readable_captured set_ula_addresses_def)
  ultimately show ?thesis by auto
qed

text \<open>A state file that is not JSON, which every reader takes for an empty one, stops the restore.\<close>

lemma damaged_state_stops_restore: "ula_restore env NotJson sys = (Inl (Unhandled ''JSONDecodeError''), sys)"
  by (simp add: ula_restore_def captured_pairs_def)

subsection \<open>Networks apart\<close>

text \<open>Every LAN device has a network of its own, inside the prefix, and none has the tunnel's.\<close>

lemma sla_networks_apart:
  assumes "ula_ok p" and "i < 2 ^ 16" and "j < 2 ^ 16" and "i \<noteq> j" and "in_network V6 x (sla_network p i)"
  shows "\<not> in_network V6 x (sla_network p j)" and "in_network V6 x p"
proof -
  note a = sla_address [OF assms(1,2)] sla_address [OF assms(1,3)]
  have "int i \<le> int j - 1 \<or> int j \<le> int i - 1" using assms(4) by linarith
  then have "int i * 2 ^ 64 + 2 ^ 64 \<le> int j * 2 ^ 64 \<or> int j * 2 ^ 64 + 2 ^ 64 \<le> int i * 2 ^ 64" by (elim disjE) simp_all
  then show "\<not> in_network V6 x (sla_network p j)"
    using assms(5) a by (auto simp: in_network_def net_broadcast_def sla_network_def Builder.net6_def)
  have "int i * 2 ^ 64 + 2 ^ 64 \<le> 2 ^ 80" using assms(2) by simp
  then show "in_network V6 x p"
    using assms(1,5) a(1) by (auto simp: in_network_def net_broadcast_def sla_network_def Builder.net6_def ula_ok_def)
qed

lemma tunnel_is_last: "tunnel_network6 p = sla_network p (2 ^ 16 - 1)"
  by (simp add: tunnel_network6_def sla_network_def Builder.net6_def)

subsection \<open>Kernel settings\<close>

definition sysctl_key :: "string \<Rightarrow> string \<Rightarrow> string \<Rightarrow> string" where
  "sysctl_key family device key = family @ ''/conf/'' @ device @ ''/'' @ key"

definition safe_settings :: "string \<Rightarrow> (string, string) dict \<Rightarrow> (string, string) dict" where
  "safe_settings device d = fold (\<lambda>key. AList.update (sysctl_key ''ipv6'' device key) ''0'') [''accept_ra'', ''accept_redirects'', ''accept_source_route'', ''autoconf''] d"

definition sysctl_settings :: "config \<Rightarrow> (string, string) dict" where
  "sysctl_settings cfg =
     (let wan = wan_devices cfg; lan = map snd (lan_devices cfg);
          d0 = [(sysctl_key ''ipv6'' ''all'' ''forwarding'', if forwarding_wanted cfg then ''1'' else ''0'')];
          d1 = fold safe_settings ([''all'', ''default''] @ sort (remdups (map (\<lambda>(_, i). if_device i) (interfaces cfg)))) d0;
          d2 = fold (\<lambda>device d. AList.update (sysctl_key ''ipv4'' device ''promote_secondaries'') ''1''
                 (AList.update (sysctl_key ''ipv6'' device ''disable_ipv6'') ''0'' d)) (wan @ lan) d1
      in fold (\<lambda>device. AList.update (sysctl_key ''ipv6'' device ''keep_addr_on_down'') ''1'') lan d2)"

definition read_sysctls :: "string list \<Rightarrow> ipv6_sys \<Rightarrow> (string, string option) dict" where
  "read_sysctls keys sys = fold (\<lambda>key. AList.update key (map_option strip (map_of (v6_sysctls sys) key))) keys []"

fun write_sysctls :: "ipv6_env \<Rightarrow> (string, string option) dict \<Rightarrow> ipv6_sys \<Rightarrow> (ipv6_error, unit) result \<times> ipv6_sys" where
  "write_sysctls env [] sys = (Inr (), sys)"
| "write_sysctls env ((key, value) # rest) sys =
     (case value of None \<Rightarrow> write_sysctls env rest sys
      | Some v \<Rightarrow>
          if \<not> sysctl_dir env key then write_sysctls env rest sys
          else case map_of (v6_sysctls sys) key of
            None \<Rightarrow> (Inl (Ipv6Error (''cannot set net.'' @ map (\<lambda>c. if c = CHR ''/'' then CHR ''.'' else c) key @ '' = '' @ v)), sys)
          | Some now \<Rightarrow>
              if strip now = v then write_sysctls env rest sys
              else case sysctl_write env key of
                Some err \<Rightarrow> (Inl (Ipv6Error (''cannot set net.'' @ map (\<lambda>c. if c = CHR ''/'' then CHR ''.'' else c) key @ '' = '' @ v @ '': '' @ err)), sys)
              | None \<Rightarrow> write_sysctls env rest (sys\<lparr>v6_sysctls := AList.update key (v @ [LF]) (v6_sysctls sys)\<rparr>))"

subsection \<open>The step of an apply\<close>

definition IPV6_SERVICE_NAME :: string where "IPV6_SERVICE_NAME = ''fr-dhcp6''"
definition IPV6_RA_SERVICE_NAME :: string where "IPV6_RA_SERVICE_NAME = ''fr-ra''"

type_synonym 'a v6_step = "ipv6_sys \<Rightarrow> (ipv6_error, 'a) result \<times> ipv6_sys"

definition v6_bind :: "'a v6_step \<Rightarrow> ('a \<Rightarrow> 'b v6_step) \<Rightarrow> 'b v6_step" where
  "v6_bind m k sys = (case m sys of (Inl e, sys1) \<Rightarrow> (Inl e, sys1) | (Inr a, sys1) \<Rightarrow> k a sys1)"

definition systemctl6 :: "ipv6_env \<Rightarrow> string \<Rightarrow> string \<Rightarrow> unit v6_step" where
  "systemctl6 env verb unit sys =
     (let sys1 = sys\<lparr>v6_calls := v6_calls sys @ [(verb, unit)]\<rparr> in
      case v6_systemctl env verb unit of None \<Rightarrow> (Inr (), sys1)
      | Some err \<Rightarrow> (Inl (Ipv6Error (''systemctl '' @ verb @ '' '' @ unit @ '' failed: '' @ strip err @ '' (see journalctl -u '' @ unit @ '')'')), sys1))"

definition put_file :: "string \<Rightarrow> string option \<Rightarrow> unit v6_step" where
  "put_file path content sys = (Inr (), sys\<lparr>v6_files := (v6_files sys)(path := content)\<rparr>)"

definition stop_ra :: "ipv6_env \<Rightarrow> string \<Rightarrow> unit v6_step" where
  "stop_ra env ra_path sys =
     (if v6_files sys ra_path \<noteq> None \<or> v6_active env IPV6_RA_SERVICE_NAME
      then v6_bind (systemctl6 env ''stop'' IPV6_RA_SERVICE_NAME) (\<lambda>_. put_file ra_path None) sys
      else (Inr (), sys))"

definition forwarding_setting :: "config \<Rightarrow> (string, string option) dict" where
  "forwarding_setting cfg = [(''ipv6/conf/all/forwarding'', Some (if forwarding_wanted cfg then ''1'' else ''0''))]"

definition ipv6_off :: "ipv6_env \<Rightarrow> config \<Rightarrow> string \<Rightarrow> string \<Rightarrow> unit v6_step" where
  "ipv6_off env cfg conf_path ra_path =
     v6_bind (stop_ra env ra_path) (\<lambda>_.
     v6_bind (sync_ula env cfg) (\<lambda>_.
     v6_bind (systemctl6 env ''stop'' IPV6_SERVICE_NAME) (\<lambda>_.
     v6_bind (put_file conf_path None) (\<lambda>_.
     write_sysctls env (forwarding_setting cfg)))))"

text \<open>The files of a service: written and restarted when they change, started otherwise.\<close>

definition put_service :: "ipv6_env \<Rightarrow> string \<Rightarrow> string \<Rightarrow> string \<Rightarrow> unit v6_step" where
  "put_service env path content unit sys =
     (let changed = (v6_files sys path \<noteq> Some content) in
      v6_bind (if changed then put_file path (Some content) else (\<lambda>s. (Inr (), s)))
        (\<lambda>_. systemctl6 env (if changed then ''restart'' else ''start'') unit) sys)"

definition settle_prefix :: "ipv6_env \<Rightarrow> config \<Rightarrow> ip_network option v6_step" where
  "settle_prefix env cfg sys =
     (if lan_devices cfg = [] then (Inr None, sys)
      else let (prefix, f) = ensure_ula_prefix (random_bits env) cfg (v6_state sys) in (Inr prefix, sys\<lparr>v6_state := f\<rparr>))"

definition test_ra_conf :: "ipv6_env \<Rightarrow> string \<Rightarrow> unit v6_step" where
  "test_ra_conf env content sys =
     (case ra_test env content of None \<Rightarrow> (Inr (), sys)
      | Some err \<Rightarrow> (Inl (Ipv6Error (''dnsmasq rejected the Router Advertisement config: '' @ strip err)), sys))"

definition ipv6_on :: "ipv6_env \<Rightarrow> config \<Rightarrow> string \<Rightarrow> string \<Rightarrow> (string \<times> string \<times> string) list v6_step" where
  "ipv6_on env cfg conf_path ra_path =
     v6_bind (settle_prefix env cfg) (\<lambda>ula.
     (let lan = lan_devices cfg; ra_text = render_ra_conf cfg ula in
      v6_bind (if lan = [] then (\<lambda>s. (Inr (), s)) else test_ra_conf env ra_text) (\<lambda>_.
      v6_bind (write_sysctls env (map (\<lambda>(k, v). (k, Some v)) (sysctl_settings cfg))) (\<lambda>_.
      v6_bind (put_service env conf_path (render_dhcpcd_conf cfg) IPV6_SERVICE_NAME) (\<lambda>_.
      v6_bind (sync_ula env cfg) (\<lambda>stable.
      v6_bind (if lan = [] then stop_ra env ra_path else put_service env ra_path ra_text IPV6_RA_SERVICE_NAME) (\<lambda>_ s.
      (Inr stable, s))))))))"

definition ipv6_touched :: "ipv6_env \<Rightarrow> string \<Rightarrow> string \<Rightarrow> ipv6_sys \<Rightarrow> (ipv6_error, bool) result" where
  "ipv6_touched env conf_path ra_path sys =
     (if v6_files sys conf_path \<noteq> None \<or> v6_files sys ra_path \<noteq> None then Inr True
      else bind_result (applied (read_ula_state (v6_state sys))) (\<lambda>ps.
        Inr (ps \<noteq> [] \<or> v6_active env IPV6_SERVICE_NAME \<or> v6_active env IPV6_RA_SERVICE_NAME)))"

record v6_sync_result =
  v6_result_active :: bool
  v6_result_message :: string

definition lan_message :: "config \<Rightarrow> string" where
  "lan_message cfg =
     (if lan_devices cfg = [] then ''; no LAN zone gets IPv6''
      else ''; the LAN gets a /64 each on '' @ py_join '', '' (map snd (lan_devices cfg)) @ '' (Router Advertisements, SLAAC)'')"

definition ipv6_sync :: "ipv6_env \<Rightarrow> config \<Rightarrow> bool \<Rightarrow> string \<Rightarrow> string \<Rightarrow> v6_sync_result v6_step" where
  "ipv6_sync env cfg dry_run conf_path ra_path sys =
     (if \<not> ipv6_enabled (ipv6 cfg) then
        (case ipv6_touched env conf_path ra_path sys of
           Inl e \<Rightarrow> (Inl e, sys)
         | Inr touched \<Rightarrow>
             if \<not> touched then (Inr \<lparr>v6_result_active = False, v6_result_message = ''IPv6 off''\<rparr>, sys)
             else if dry_run then (Inr \<lparr>v6_result_active = False, v6_result_message = ''Would turn IPv6 off (dry-run)''\<rparr>, sys)
             else if \<not> v6_root env then (Inl (Ipv6Error ''Setting up IPv6 requires root privileges.''), sys)
             else v6_bind (ipv6_off env cfg conf_path ra_path) (\<lambda>_ s. (Inr \<lparr>v6_result_active = False, v6_result_message = ''IPv6 turned off''\<rparr>, s)) sys)
      else if \<not> kernel_has_ipv6 env then (Inl (Ipv6Error ''this kernel runs without IPv6 (ipv6.disable=1 on its command line)''), sys)
      else if dry_run then
        (Inr \<lparr>v6_result_active = True, v6_result_message = ''Would take IPv6 from the provider on '' @ py_join '', '' (wan_devices cfg) @ lan_message cfg @ '' (dry-run)''\<rparr>, sys)
      else if \<not> v6_root env then (Inl (Ipv6Error ''Setting up IPv6 requires root privileges.''), sys)
      else v6_bind (ipv6_on env cfg conf_path ra_path) (\<lambda>stable s.
        (Inr \<lparr>v6_result_active = True, v6_result_message = ''IPv6: dhcpcd on '' @ py_join '', '' (wan_devices cfg) @
           '' (SLAAC, DHCPv6 address and prefix delegation)'' @ lan_message cfg @
           (if stable = [] then [] else ''; stable addresses '' @ py_join '', '' (map (\<lambda>(_, device, address). device @ '' '' @ address) stable))\<rparr>, s)) sys)"

subsection \<open>No advertisement is accepted\<close>

text \<open>The settings that refuse Router Advertisements are in the table, under keys that no other setting shares.\<close>

lemma last_sysctl_key: "key \<noteq> [] \<Longrightarrow> last (sysctl_key family device key) = last key"
  by (simp add: sysctl_key_def)

lemma key_apart: "last k \<noteq> last k' \<Longrightarrow> k \<noteq> [] \<Longrightarrow> k' \<noteq> [] \<Longrightarrow> sysctl_key f d k \<noteq> sysctl_key f' d' k'"
  by (metis last_sysctl_key)

lemma accept_ra_other:
  assumes "k \<in> {''accept_redirects'', ''accept_source_route'', ''autoconf'', ''disable_ipv6'', ''promote_secondaries'', ''keep_addr_on_down''}"
  shows "sysctl_key f d ''accept_ra'' \<noteq> sysctl_key f' d' k"
  by (rule key_apart) (use assms in auto)

lemma accept_ra_key: "sysctl_key f d ''accept_ra'' = sysctl_key f d' ''accept_ra'' \<longleftrightarrow> d = d'"
  by (simp add: sysctl_key_def)

lemma fold_update_other: "(\<And>x. x \<in> set xs \<Longrightarrow> k x \<noteq> j) \<Longrightarrow> map_of (fold (\<lambda>x. AList.update (k x) (v x)) xs d) j = map_of d j"
  by (induction xs arbitrary: d) (auto simp: update_conv')

lemma safe_settings_lookup:
  "map_of (safe_settings device d) (sysctl_key ''ipv6'' x ''accept_ra'') =
     (if x = device then Some ''0'' else map_of d (sysctl_key ''ipv6'' x ''accept_ra''))"
  by (simp add: safe_settings_def update_conv' accept_ra_key accept_ra_other)

lemma fold_safe_settings:
  "map_of (fold safe_settings ds d) (sysctl_key ''ipv6'' x ''accept_ra'') = (if x \<in> set ds then Some ''0'' else map_of d (sysctl_key ''ipv6'' x ''accept_ra''))"
  by (induction ds arbitrary: d) (auto simp: safe_settings_lookup)

lemma settings_refuse_advertisements:
  assumes "x \<in> {''all'', ''default''} \<union> if_device ` snd ` set (interfaces cfg)"
  shows "map_of (sysctl_settings cfg) (sysctl_key ''ipv6'' x ''accept_ra'') = Some ''0''"
proof -
  let ?k = "sysctl_key ''ipv6'' x ''accept_ra''"
  have step: "map_of (fold (\<lambda>device d. AList.update (sysctl_key ''ipv4'' device ''promote_secondaries'') ''1''
      (AList.update (sysctl_key ''ipv6'' device ''disable_ipv6'') ''0'' d)) ds d) ?k = map_of d ?k" for ds d
    by (induction ds arbitrary: d) (simp_all add: update_conv' accept_ra_other)
  have "map_of (fold safe_settings ([''all'', ''default''] @ sort (remdups (map (\<lambda>(_, i). if_device i) (interfaces cfg)))) d) ?k = Some ''0''" for d
    unfolding fold_safe_settings using assms by (auto simp: image_iff split: prod.splits)
  then show ?thesis unfolding sysctl_settings_def Let_def by (subst fold_update_other) (simp_all add: accept_ra_other [THEN not_sym] step)
qed

lemma fold_update_values:
  assumes "\<And>x d. x \<in> set xs \<Longrightarrow> snd ` set d \<subseteq> V \<Longrightarrow> snd ` set (f x d) \<subseteq> V" and "snd ` set d \<subseteq> V"
  shows "snd ` set (fold f xs d) \<subseteq> V"
  using assms by (induction xs arbitrary: d) auto

lemma update_values: "snd ` set d \<subseteq> V \<Longrightarrow> v \<in> V \<Longrightarrow> snd ` set (AList.update k v d) \<subseteq> V"
proof -
  assume d: "snd ` set d \<subseteq> V" and v: "v \<in> V"
  have "snd ` set (AList.update k v d) \<subseteq> snd ` insert (k, v) (set d)" by (rule image_mono [OF set_AList_update])
  then show ?thesis using d v by (simp add: subset_insertI2) (meson insert_subset order_trans)
qed

lemma settings_ok: "dict_ok (sysctl_settings cfg) \<and> snd ` set (sysctl_settings cfg) \<subseteq> {''0'', ''1''}"
proof -
  have keys: "dict_ok (fold f xs d)" if "\<And>x d. dict_ok d \<Longrightarrow> dict_ok (f x d)" "dict_ok d" for f :: "string \<Rightarrow> (string, string) dict \<Rightarrow> (string, string) dict" and xs d
    using that by (induction xs arbitrary: d) auto
  have "dict_ok (sysctl_settings cfg)"
    unfolding sysctl_settings_def Let_def by (intro keys) (auto simp: safe_settings_def py_dict.ok_put dict_ok_def [of "[_]"])
  moreover have "snd ` set (safe_settings device d) \<subseteq> {''0'', ''1''}" if "snd ` set d \<subseteq> {''0'', ''1''}" for device d
    unfolding safe_settings_def by (rule fold_update_values [OF update_values]) (use that in simp_all)
  then have "snd ` set (sysctl_settings cfg) \<subseteq> {''0'', ''1''}"
    unfolding sysctl_settings_def Let_def by (intro fold_update_values update_values) auto
  ultimately show ?thesis by blast
qed

lemma write_sysctls_done:
  assumes "write_sysctls env settings sys = (Inr u, sys')" and "dict_ok settings" and "(k, Some v) \<in> set settings" and "sysctl_dir env k" and "v \<in> {''0'', ''1''}"
  shows "map_option strip (map_of (v6_sysctls sys') k) = Some v"
proof -
  have other: "map_of (v6_sysctls sys') j = map_of (v6_sysctls sys) j" if "write_sysctls env settings sys = (Inr u, sys')" "j \<notin> fst ` set settings"
    for env :: ipv6_env and settings :: "(string, string option) dict" and sys sys' j
    using that by (induction env settings sys rule: write_sysctls.induct) (auto simp: update_conv' split: option.splits if_splits)
  have stripped: "strip (v @ [LF]) = v" using assms(5) by (auto simp: strip_def is_space_def LF_def in_range_def)
  from assms(1-4) show ?thesis
  proof (induction env settings sys rule: write_sysctls.induct)
    case (2 env key val rest sys)
    show ?case
    proof (cases "(k, Some v) = (key, val)")
      case True
      then have "k \<notin> fst ` set rest" using 2(6) by (simp add: dict_ok_def)
      moreover from 2(5,8) True have "\<exists>sys1. write_sysctls env rest sys1 = (Inr u, sys') \<and> map_option strip (map_of (v6_sysctls sys1) k) = Some v"
        by (auto simp: update_conv' stripped split: option.splits if_splits)
      then obtain sys1 where "write_sysctls env rest sys1 = (Inr u, sys')" "map_option strip (map_of (v6_sysctls sys1) k) = Some v" by (elim exE conjE)
      ultimately show ?thesis using other [of env rest sys1 sys' k] by simp
    next
      case False
      with 2 show ?thesis by (auto simp: dict_ok_def split: option.splits if_splits)
    qed
  qed simp
qed

text \<open>The other steps leave the settings alone.\<close>

lemma take_off_sysctls: "v6_sysctls (snd (take_off env wanted ps sys)) = v6_sysctls sys"
  by (induction env wanted ps sys rule: take_off.induct) (auto split: sum.splits ip_outcome.splits)

lemma put_on_sysctls: "v6_sysctls (snd (put_on env ps sys)) = v6_sysctls sys"
  by (induction env ps sys rule: put_on.induct) (auto split: sum.splits ip_outcome.splits)

lemma set_ula_sysctls: "v6_sysctls (snd (set_ula_addresses env wanted before sys)) = v6_sysctls sys"
  using take_off_sysctls [of env wanted before sys] put_on_sysctls
  by (auto simp: set_ula_addresses_def split: prod.splits sum.splits)

lemma sync_ula_sysctls: "v6_sysctls (snd (sync_ula env cfg sys)) = v6_sysctls sys"
proof -
  obtain as f where "ula_wanted (random_bits env) cfg (v6_state sys) = (as, f)" by fastforce
  then show ?thesis
    using set_ula_sysctls [of env "map snd as" _ "sys\<lparr>v6_state := f\<rparr>"]
    by (auto simp: sync_ula_def Let_def split: sum.splits prod.splits) (metis ipv6_sys.select_convs(3) ipv6_sys.surjective ipv6_sys.update_convs(2) snd_conv)+
qed

lemma v6_bind_done: "v6_bind m k sys = (Inr b, sys') \<longleftrightarrow> (\<exists>a sys1. m sys = (Inr a, sys1) \<and> k a sys1 = (Inr b, sys'))"
  by (auto simp: v6_bind_def split: prod.splits sum.splits)

lemma put_service_sysctls: "put_service env path content unit sys = (Inr u, sys') \<Longrightarrow> v6_sysctls sys' = v6_sysctls sys"
  by (auto simp: put_service_def Let_def v6_bind_done put_file_def systemctl6_def split: if_splits option.splits)

lemma stop_ra_sysctls: "stop_ra env path sys = (Inr u, sys') \<Longrightarrow> v6_sysctls sys' = v6_sysctls sys"
  by (auto simp: stop_ra_def Let_def v6_bind_done put_file_def systemctl6_def split: if_splits option.splits)

text \<open>
  Once IPv6 is on, the kernel takes no Router Advertisement on any device of the configuration that is there, and none
  by default on a new one, whatever was set before: a LAN cannot configure the router.
\<close>

lemma advertisements_refused:
  assumes "ipv6_on env cfg conf_path ra_path sys = (Inr out, sys')"
    and "x \<in> {''all'', ''default''} \<union> if_device ` snd ` set (interfaces cfg)" and "sysctl_dir env (sysctl_key ''ipv6'' x ''accept_ra'')"
  shows "map_option strip (map_of (v6_sysctls sys') (sysctl_key ''ipv6'' x ''accept_ra'')) = Some ''0''"
proof -
  let ?settings = "map (\<lambda>(k, v). (k, Some v)) (sysctl_settings cfg)"
  obtain u sys1 sys2 where w: "write_sysctls env ?settings sys1 = (Inr u, sys2)" and same: "v6_sysctls sys' = v6_sysctls sys2"
  proof -
    from assms(1) obtain ula s0 s1 u1 s2 u2 s3 where steps: "write_sysctls env ?settings s1 = (Inr u1, s2)"
      "put_service env conf_path (render_dhcpcd_conf cfg) IPV6_SERVICE_NAME s2 = (Inr u2, s3)"
      and rest: "v6_bind (sync_ula env cfg) (\<lambda>stable. v6_bind (if lan_devices cfg = [] then stop_ra env ra_path
        else put_service env ra_path (render_ra_conf cfg ula) IPV6_RA_SERVICE_NAME) (\<lambda>_ s. (Inr stable, s))) s3 = (Inr out, sys')"
      unfolding ipv6_on_def Let_def v6_bind_done by blast
    from rest obtain as s4 u3 where s4: "sync_ula env cfg s3 = (Inr as, s4)"
      and s5: "(if lan_devices cfg = [] then stop_ra env ra_path else put_service env ra_path (render_ra_conf cfg ula) IPV6_RA_SERVICE_NAME) s4 = (Inr u3, sys')"
      unfolding v6_bind_done by blast
    have "v6_sysctls sys' = v6_sysctls s4" using s5 by (auto simp: stop_ra_sysctls put_service_sysctls split: if_splits)
    also have "\<dots> = v6_sysctls s3" using sync_ula_sysctls [of env cfg s3] s4 by simp
    also have "\<dots> = v6_sysctls s2" using steps(2) by (rule put_service_sysctls)
    finally show thesis using that steps(1) by blast
  qed
  have "dict_ok ?settings" using settings_ok [of cfg] by (simp add: dict_ok_def comp_def split_def)
  moreover have "(sysctl_key ''ipv6'' x ''accept_ra'', Some ''0'') \<in> set ?settings"
    using map_of_SomeD [OF settings_refuse_advertisements [OF assms(2)]] by force
  ultimately show ?thesis using write_sysctls_done [OF w] assms(3) same by simp
qed

subsection \<open>What the provider gave\<close>

text \<open>
  The answers of \<open>ip -j -6\<close>: the addresses of each device, and the routes of the main table (the default
  route is none of the routes \<open>dhcpcd\<close> adds for a delegated prefix).
\<close>

record addr_info =
  ai_inet6 :: bool
  ai_global :: bool
  ai_address :: int
  ai_length :: nat

record v6_route =
  rt_default :: bool
  rt_network :: "ip_network option"
  rt_dev :: string
  rt_gateway :: "int option"
  rt_unreachable :: bool
  rt_dhcp :: bool

datatype v6_verdict = OFF | NO_KERNEL | NOTHING | ADDRESS_ONLY | PREFIX

record ipv6_status =
  st_state :: v6_verdict
  st_devices :: "string list"
  st_addresses :: "(string \<times> string \<times> string) list"
  st_default_routes :: "(string \<times> string) list"
  st_prefixes :: "string list"
  st_service :: bool
  st_lan :: "(string \<times> string \<times> ip_network option) list"
  st_ra :: bool
  st_excluded :: "(string \<times> string) list"
  st_ula_prefix :: string
  st_ula :: "(string \<times> string \<times> string) list"
  st_pinholes :: "(string \<times> string \<times> string \<times> string list option) list"

definition excluded_zones :: "config \<Rightarrow> (string \<times> string) list" where
  "excluded_zones cfg =
     (if \<not> ipv6_enabled (ipv6 cfg) \<or> lan_zones (ipv6 cfg) \<noteq> None then []
      else filter (\<lambda>(zone, _). zone \<in> (\<lambda>(_, i). if_zone i) ` set (interfaces cfg)) (ipv6_lan_exclusions (zones cfg) (nat_cfg cfg) (rules cfg)))"

definition lan_networks :: "ip_network \<Rightarrow> nat" where
  "lan_networks n = 2 ^ (64 - net_prefixlen n)"

definition host_network6 :: "int \<Rightarrow> nat \<Rightarrow> ip_network" where
  "host_network6 x n = Builder.net6 (x div 2 ^ (128 - n) * 2 ^ (128 - n)) n"

record found_addresses =
  fa_wan :: "(string \<times> string \<times> string) list"
  fa_lan :: "(string, ip_network) dict"
  fa_ula :: "(string \<times> string) list"

definition note_address :: "string list \<Rightarrow> string list \<Rightarrow> string \<times> addr_info \<Rightarrow> found_addresses \<Rightarrow> found_addresses" where
  "note_address wan lan p fa =
     (let (device, info) = p; shown = show_ipv6 (ai_address info) @ ''/'' @ show_nat (ai_length info) in
      if \<not> ai_inet6 info \<or> \<not> ai_global info then fa
      else if in_network V6 (ai_address info) Builder.ULA then fa\<lparr>fa_ula := fa_ula fa @ [(device, shown)]\<rparr>
      else if device \<in> set wan then fa\<lparr>fa_wan := fa_wan fa @ [(device, shown, if ai_length info = 128 then ''DHCPv6'' else ''SLAAC'')]\<rparr>
      else if device \<in> set lan \<and> ai_length info = 64 then fa\<lparr>fa_lan := setdefault device (host_network6 (ai_address info) 64) (fa_lan fa)\<rparr>
      else fa)"

definition not_delegated :: "ip_network \<Rightarrow> bool" where
  "not_delegated n \<longleftrightarrow> subnet_of n (Builder.net6 (0xfe80 * 2 ^ 112) 10) \<or> subnet_of n (Builder.net6 (0xff00 * 2 ^ 112) 8) \<or> subnet_of n (Builder.net6 1 128)"

definition delegated_prefixes :: "v6_route list \<Rightarrow> ip_network list" where
  "delegated_prefixes routes =
     List.map_filter (\<lambda>r. if rt_default r then None
       else case rt_network r of None \<Rightarrow> None
         | Some n \<Rightarrow> if rt_unreachable r \<and> rt_dhcp r \<and> net_prefixlen n \<le> 64 \<and> \<not> not_delegated n then Some n else None) routes"

definition pinhole_targets :: "config \<Rightarrow> (string \<times> string \<times> ip_network option) list \<Rightarrow> (string \<times> string \<times> string \<times> string list option) list" where
  "pinhole_targets cfg lan =
     map (\<lambda>p. (pin_name p, pin_zone p, proto_value (pin_proto p) @ '' '' @ show_port_spec (pin_port p),
       if pin_zone p \<notin> fst ` set (lan_devices cfg) then None
       else if is_suffix p then Some (List.map_filter (\<lambda>(zone, _, network). case network of
           Some n \<Rightarrow> if zone = pin_zone p then Some (show_ipv6 (net_address n + pin_host p)) else None | None \<Rightarrow> None) lan)
       else Some [show_ipv6 (pin_host p)])) (pinholes (ipv6 cfg))"

definition ipv6_status_of :: "ipv6_env \<Rightarrow> config \<Rightarrow> ula_file \<Rightarrow> (string \<times> addr_info list) list \<Rightarrow> v6_route list \<Rightarrow> ipv6_status" where
  "ipv6_status_of env cfg f links routes =
     (let wan = wan_devices cfg; lan = lan_devices cfg;
          blank = \<lparr>st_state = NOTHING, st_devices = wan, st_addresses = [], st_default_routes = [], st_prefixes = [], st_service = False,
            st_lan = [], st_ra = False, st_excluded = [], st_ula_prefix = [], st_ula = [], st_pinholes = []\<rparr> in
      if \<not> ipv6_enabled (ipv6 cfg) then blank\<lparr>st_state := OFF\<rparr>
      else if \<not> kernel_has_ipv6 env then blank\<lparr>st_state := NO_KERNEL\<rparr>
      else
        (let ula = ula_prefix_of cfg (generated_ula f);
             fa = fold (note_address wan (map snd lan)) (concat (map (\<lambda>(device, infos). map (Pair device) infos) links)) \<lparr>fa_wan = [], fa_lan = [], fa_ula = []\<rparr>;
             found = map (\<lambda>(zone, device). (zone, device, map_of (fa_lan fa) device)) lan;
             delegated = delegated_prefixes routes;
             prefixes = (if delegated \<noteq> [] then map show_network delegated else sort (remdups (map (show_network \<circ> snd) (fa_lan fa))))
         in blank\<lparr>st_state := (if prefixes \<noteq> [] then PREFIX else if fa_wan fa \<noteq> [] then ADDRESS_ONLY else NOTHING),
              st_addresses := fa_wan fa,
              st_default_routes := List.map_filter (\<lambda>r. if rt_default r \<and> rt_dev r \<in> set wan then map_option (\<lambda>g. (rt_dev r, show_ipv6 g)) (rt_gateway r) else None) routes,
              st_prefixes := prefixes, st_service := v6_active env IPV6_SERVICE_NAME, st_lan := found,
              st_ra := lan \<noteq> [] \<and> v6_active env IPV6_RA_SERVICE_NAME, st_excluded := excluded_zones cfg,
              st_ula_prefix := (case ula of Some p \<Rightarrow> if lan \<noteq> [] then show_network p else [] | None \<Rightarrow> []),
              st_ula := filter (\<lambda>(_, pair). pair \<in> set (fa_ula fa)) (ula_addresses cfg ula),
              st_pinholes := pinhole_targets cfg found\<rparr>))"

text \<open>A pinhole of an interface identifier is shown with an address in each network its zone has, and in no other.\<close>

lemma pinhole_shown:
  assumes "(pin_name p, pin_zone p, what, Some targets) \<in> set (pinhole_targets cfg lan)" and "distinct (map pin_name (pinholes (ipv6 cfg)))"
    and "p \<in> set (pinholes (ipv6 cfg))" and "is_suffix p"
  shows "set targets = {show_ipv6 (net_address n + pin_host p) | device n. (pin_zone p, device, Some n) \<in> set lan}"
proof -
  from assms(1) obtain q where q: "q \<in> set (pinholes (ipv6 cfg))" "pin_name q = pin_name p" and
    t: "Some targets = (if pin_zone q \<notin> fst ` set (lan_devices cfg) then None
       else if is_suffix q then Some (List.map_filter (\<lambda>(zone, _, network). case network of
           Some n \<Rightarrow> if zone = pin_zone q then Some (show_ipv6 (net_address n + pin_host q)) else None | None \<Rightarrow> None) lan)
       else Some [show_ipv6 (pin_host q)])" unfolding pinhole_targets_def by auto
  have "q = p" using q assms(2,3) by (metis inj_onD distinct_map)
  with t have "Some targets = (if pin_zone p \<notin> fst ` set (lan_devices cfg) then None
       else if is_suffix p then Some (List.map_filter (\<lambda>(zone, _, network). case network of
           Some n \<Rightarrow> if zone = pin_zone p then Some (show_ipv6 (net_address n + pin_host p)) else None | None \<Rightarrow> None) lan)
       else Some [show_ipv6 (pin_host p)])" by (simp only:)
  with assms(4) have "targets = List.map_filter (\<lambda>(zone, _, network). case network of
      Some n \<Rightarrow> if zone = pin_zone p then Some (show_ipv6 (net_address n + pin_host p)) else None | None \<Rightarrow> None) lan"
    by (simp split: if_splits)
  then show ?thesis by (force simp: List.map_filter_def split: option.splits if_splits)
qed


text \<open>The sentences of the status page (a prefix is shown as its text, which is read again for its size).\<close>

definition prefix_room :: "string \<Rightarrow> nat" where
  "prefix_room s = (case ipv6_network s of Some n \<Rightarrow> lan_networks n | None \<Rightarrow> 0)"

definition lan_summary :: "ipv6_status \<Rightarrow> string" where
  "lan_summary st =
     (let served = List.map_filter (\<lambda>(zone, device, network). map_option (\<lambda>n. zone @ '' ('' @ device @ '') '' @ show_network n) network) (st_lan st);
          waiting = List.map_filter (\<lambda>(zone, device, network). if network = None then Some (zone @ '' ('' @ device @ '')'') else None) (st_lan st);
          room = sum_list (map prefix_room (st_prefixes st))
      in (if served = [] then [] else '' The LAN has IPv6: '' @ py_join '', '' served @ ''.'') @
         (if waiting = [] then []
          else if room \<noteq> 0 \<and> room < length (st_lan st)
          then '' No network on '' @ py_join '', '' waiting @ '': the prefix holds '' @ show_nat room @ '' LAN network(s) and '' @
            show_nat (length (st_lan st)) @ '' are needed. Ask the provider for a larger prefix (a /56 or /60), or leave zones out of ipv6.lan_zones.''
          else '' No network on '' @ py_join '', '' waiting @ '' yet.''))"

definition provider_summary :: "ipv6_status \<Rightarrow> string" where
  "provider_summary st =
     (if st_state st = NOTHING then
        ''Nothing from the provider (yet): no IPv6 address on the WAN. Either the network upstream has no IPv6, or it hasn't answered yet; the router keeps using IPv4.''
      else if st_state st = ADDRESS_ONLY then
        ''The WAN has an IPv6 address, but no prefix was delegated: the router itself has IPv6, the LAN can't get it from this upstream. Turn on prefix delegation (DHCPv6-PD) on the router in front of this one, or ask the provider for it.''
      else
        (let text = ''A prefix was delegated: '' @ py_join '', '' (map (\<lambda>p. p @ '' ('' @ show_nat (prefix_room p) @ '' LAN networks)'') (st_prefixes st)) @ ''.'';
             left_out = concat (map (\<lambda>(zone, why). '' Zone '' @ zone @ '' gets no IPv6: '' @ why @ ''.'') (st_excluded st))
         in if st_lan st = [] then text @ '' No LAN zone gets IPv6, so only the router uses it.'' @ left_out
            else text @ lan_summary st @ left_out))"

definition stable_summary :: "ipv6_status \<Rightarrow> string" where
  "stable_summary st =
     (if st_ula st = [] then []
      else '' The LAN's stable networks come from '' @ st_ula_prefix st @ '' (ULA, never routed to the internet): the router answers there whatever the provider gives.'')"

definition status_summary :: "ipv6_status \<Rightarrow> string" where
  "status_summary st =
     (case st_state st of OFF \<Rightarrow> ''IPv6 is off.'' | NO_KERNEL \<Rightarrow> ''This router's kernel runs without IPv6.''
      | _ \<Rightarrow> provider_summary st @ stable_summary st)"

text \<open>The check in front of an apply: \<open>is_file\<close> says which binaries are installed.\<close>

definition DHCPCD_BINARY :: string where "DHCPCD_BINARY = ''/usr/sbin/dhcpcd''"

definition check_available :: "ipv6_env \<Rightarrow> (string \<Rightarrow> bool) \<Rightarrow> config option \<Rightarrow> (ipv6_error, unit) result" where
  "check_available env is_file cfg =
     (if \<not> kernel_has_ipv6 env then Inl (Ipv6Error ''this kernel runs without IPv6 (ipv6.disable=1 on its command line)'')
      else if \<not> is_file DHCPCD_BINARY then Inl (Ipv6Error (DHCPCD_BINARY @ '' is not installed (Debian's dhcpcd-base)''))
      else case cfg of
        None \<Rightarrow> Inr ()
      | Some c \<Rightarrow>
          if lan_devices c \<noteq> [] \<and> \<not> is_file ''/usr/sbin/dnsmasq''
          then Inl (Ipv6Error (''/usr/sbin/dnsmasq is not installed (Debian's dnsmasq-base), and the LAN's Router Advertisements need it''))
          else Inr ())"

text \<open>
  The page says that the prefix is too small only when it is: with a network of its own for every device the
  delegated prefixes hold, no larger one is asked for.
\<close>

lemma enough_room:
  assumes "length (st_lan st) \<le> sum_list (map prefix_room (st_prefixes st))" and "waiting \<noteq> []"
    and "waiting = List.map_filter (\<lambda>(zone, device, network). if network = None then Some (zone @ '' ('' @ device @ '')'') else None) (st_lan st)"
  shows "\<exists>served. lan_summary st = served @ '' No network on '' @ py_join '', '' waiting @ '' yet.''"
  using assms by (auto simp: lan_summary_def Let_def)

text \<open>What the check lets through, the step does not refuse for the kernel.\<close>

lemma available_not_refused:
  assumes "check_available env is_file (Some cfg) = Inr ()" and "ipv6_enabled (ipv6 cfg)" and "ipv6_sync env cfg True conf_path ra_path sys = (r, sys')"
  shows "\<exists>m. r = Inr \<lparr>v6_result_active = True, v6_result_message = m\<rparr>" and "sys' = sys"
  using assms by (auto simp: check_available_def ipv6_sync_def split: if_splits)

end
