(* ===== verification/App_Usage.thy ===== *)
theory App_Usage
  imports App_Id Sensor_Input Config_Schema
begin

text \<open>
  Application usage (\<open>src/src/frfw/appid/usage.py\<close>, \<open>src/src/frfw/appid/daemon.py\<close>): which client used
  which application when, counted in hourly buckets, from the resolver's query log and the SNI filter's
  events; the summary the daemon writes, and reads back when it starts again.

  The daemon's state is a record, an observed line a transition.  A JSON text is the value it stands for, \<open>None\<close>
  where it is none; the keys of an object are strings.  Times are exact rationals; \<open>fl\<close> writes a float as JSON does and
  \<open>rd\<close> reads a float's text, both parameters.  The numbers \<open>NaN\<close> and \<open>Infinity\<close> that Python adds to JSON are left out.

  A daemon started again from the summary it wrote has the counts it had when it wrote it.
\<close>

subsection \<open>Counters (usage.py)\<close>

definition BUCKET_SECONDS :: int where "BUCKET_SECONDS = 3600"
definition RETENTION_SECONDS :: int where "RETENTION_SECONDS = 24 * 3600"
definition ACTIVE_WINDOW_SECONDS :: int where "ACTIVE_WINDOW_SECONDS = 15 * 60"
definition MAX_CLIENTS_PER_APP :: nat where "MAX_CLIENTS_PER_APP = 512"
definition SOURCES :: "string list" where "SOURCES = [''dns'', ''sni'']"

record client_usage =
  us_first :: seconds
  us_last :: seconds
  us_buckets :: "(int, int) dict"
  us_sources :: "string set"

type_synonym clients = "(string, client_usage) dict"
type_synonym usage_tracker = "(string, clients) dict"

definition usage_hits :: "client_usage \<Rightarrow> int" where
  "usage_hits u = sum_list (map snd (us_buckets u))"

definition count_hit :: "string \<Rightarrow> seconds \<Rightarrow> client_usage \<Rightarrow> client_usage" where
  "count_hit src now u =
     (let b = \<lfloor>now / of_int BUCKET_SECONDS\<rfloor> * BUCKET_SECONDS
      in u\<lparr>us_last := max (us_last u) now, us_buckets := AList.update b (dict_get_or (us_buckets u) b 0 + 1) (us_buckets u),
           us_sources := insert src (us_sources u)\<rparr>)"

definition record_usage :: "string \<Rightarrow> string \<Rightarrow> string \<Rightarrow> seconds \<Rightarrow> usage_tracker \<Rightarrow> usage_tracker" where
  "record_usage app client src now tr =
     (let clients = dict_get_or tr app [];
          (usage, room) = (case map_of clients client of
             Some u \<Rightarrow> (u, clients)
           | None \<Rightarrow> (\<lparr>us_first = now, us_last = now, us_buckets = [], us_sources = {}\<rparr>, evict_least MAX_CLIENTS_PER_APP us_last clients))
      in AList.update app (AList.update client (count_hit src now usage) room) tr)"

definition prune_buckets :: "seconds \<Rightarrow> client_usage \<Rightarrow> client_usage" where
  "prune_buckets cutoff u = u\<lparr>us_buckets := filter (\<lambda>(b, n). of_int b > cutoff) (us_buckets u)\<rparr>"

definition prune_clients :: "seconds \<Rightarrow> clients \<Rightarrow> clients" where
  "prune_clients cutoff cs = filter (\<lambda>(c, u). us_buckets u \<noteq> []) (map (\<lambda>(c, u). (c, prune_buckets cutoff u)) cs)"

definition usage_cutoff :: "seconds \<Rightarrow> seconds" where
  "usage_cutoff now = now - of_int RETENTION_SECONDS - of_int BUCKET_SECONDS"

definition prune_usage :: "seconds \<Rightarrow> usage_tracker \<Rightarrow> usage_tracker" where
  "prune_usage now tr = filter (\<lambda>(a, cs). cs \<noteq> []) (map (\<lambda>(a, cs). (a, prune_clients (usage_cutoff now) cs)) tr)"

subsection \<open>The summary\<close>

definition is_active :: "seconds \<Rightarrow> client_usage \<Rightarrow> bool" where
  "is_active now u \<longleftrightarrow> now - us_last u \<le> of_int ACTIVE_WINDOW_SECONDS"

definition bucket_items :: "(int, int) dict \<Rightarrow> (pyval \<times> pyval) list" where
  "bucket_items bs = map (\<lambda>(b, n). (VStr (show_int b), VInt n)) (sort_key fst bs)"

definition usage_row :: "(seconds \<Rightarrow> string) \<Rightarrow> seconds \<Rightarrow> client_usage \<Rightarrow> pyval" where
  "usage_row fl now u = VDict
     [(VStr ''hits_24h'', VInt (usage_hits u)),
      (VStr ''first_seen'', VOther (fl (us_first u))),
      (VStr ''last_seen'', VOther (fl (us_last u))),
      (VStr ''active'', VBool (is_active now u)),
      (VStr ''sources'', VList (map VStr (sorted_list_of_set (us_sources u)))),
      (VStr ''buckets'', VDict (bucket_items (us_buckets u)))]"

definition usage_app :: "(seconds \<Rightarrow> string) \<Rightarrow> seconds \<Rightarrow> clients \<Rightarrow> pyval" where
  "usage_app fl now cs = VDict
     [(VStr ''hits_24h'', VInt (sum_list (map (usage_hits \<circ> snd) cs))),
      (VStr ''active_clients'', VInt (int (length (filter (is_active now \<circ> snd) cs)))),
      (VStr ''last_seen'', VOther (fl (Max (set (map (us_last \<circ> snd) cs))))),
      (VStr ''clients'', VDict (map (\<lambda>(c, u). (VStr c, usage_row fl now u)) (sort_key fst cs)))]"

definition usage_json :: "(seconds \<Rightarrow> string) \<Rightarrow> seconds \<Rightarrow> usage_tracker \<Rightarrow> pyval" where
  "usage_json fl now tr = VDict
     [(VStr ''generated'', VOther (fl now)),
      (VStr ''apps'', VDict (map (\<lambda>(a, cs). (VStr a, usage_app fl now cs)) (sort_key fst tr)))]"

definition usage_snapshot :: "(seconds \<Rightarrow> string) \<Rightarrow> seconds \<Rightarrow> usage_tracker \<Rightarrow> usage_tracker \<times> pyval" where
  "usage_snapshot fl now tr = (let tr' = prune_usage now tr in (tr', usage_json fl now tr'))"

subsection \<open>Reading it back\<close>

text \<open>
  What a row may raise: an error \<open>restore\<close> catches (\<open>KeyError\<close>, \<open>TypeError\<close>, \<open>ValueError\<close>, \<open>AttributeError\<close>), or the
  \<open>OverflowError\<close> of an integer that no float holds, which it does not; the file itself may raise \<open>UnicodeDecodeError\<close>.
\<close>

datatype restore_error = RowError | OverflowError | UnicodeDecodeError

definition FLOAT_OVERFLOW :: int where "FLOAT_OVERFLOW = 2 ^ 1024 - 2 ^ 970"

definition or_row_error :: "'a option \<Rightarrow> (restore_error, 'a) result" where
  "or_row_error x = (case x of None \<Rightarrow> Inl RowError | Some v \<Rightarrow> Inr v)"

definition read_float :: "(string \<Rightarrow> seconds option) \<Rightarrow> pyval \<Rightarrow> (restore_error, seconds) result" where
  "read_float rd v =
     (case v of
        VInt i \<Rightarrow> if \<bar>i\<bar> < FLOAT_OVERFLOW then Inr (of_int i) else Inl OverflowError
      | VBool b \<Rightarrow> Inr (if b then 1 else 0)
      | VStr s \<Rightarrow> or_row_error (rd s)
      | VOther s \<Rightarrow> or_row_error (rd s)
      | _ \<Rightarrow> Inl RowError)"

definition read_int :: "(string \<Rightarrow> seconds option) \<Rightarrow> pyval \<Rightarrow> (restore_error, int) result" where
  "read_int rd v =
     (case v of
        VInt i \<Rightarrow> Inr i
      | VBool b \<Rightarrow> Inr (if b then 1 else 0)
      | VStr s \<Rightarrow> or_row_error (to_int (strip s))
      | VOther s \<Rightarrow> or_row_error (map_option py_int (rd s))
      | _ \<Rightarrow> Inl RowError)"

definition restore_buckets :: "(string \<Rightarrow> seconds option) \<Rightarrow> pyval \<Rightarrow> (restore_error, (int, int) dict) result" where
  "restore_buckets rd v =
     (case v of
        VDict d \<Rightarrow> fold_result (\<lambda>(b, n) acc. bind_result (read_int rd b) (\<lambda>i. bind_result (read_int rd n) (\<lambda>k. Inr (AList.update i k acc)))) d []
      | _ \<Rightarrow> Inl RowError)"

definition restore_sources :: "pyval \<Rightarrow> (restore_error, string set) result" where
  "restore_sources v =
     (case v of
        VList xs \<Rightarrow> Inr (set (filter (\<lambda>s. VStr s \<in> set xs) SOURCES))
      | VDict d \<Rightarrow> Inr (set (filter (\<lambda>s. VStr s \<in> fst ` set d) SOURCES))
      | VStr _ \<Rightarrow> Inr {}
      | _ \<Rightarrow> Inl RowError)"

definition restore_row :: "(string \<Rightarrow> seconds option) \<Rightarrow> pyval \<Rightarrow> (restore_error, client_usage) result" where
  "restore_row rd v =
     (case v of
        VDict row \<Rightarrow>
          bind_result (bind_result (or_row_error (map_of row (VStr ''first_seen''))) (read_float rd)) (\<lambda>first.
          bind_result (bind_result (or_row_error (map_of row (VStr ''last_seen''))) (read_float rd)) (\<lambda>last_one.
          bind_result (restore_buckets rd (dict_get_or row (VStr ''buckets'') (VDict []))) (\<lambda>bs.
          bind_result (restore_sources (dict_get_or row (VStr ''sources'') (VList []))) (\<lambda>srcs.
          Inr \<lparr>us_first = first, us_last = last_one, us_buckets = bs, us_sources = srcs\<rparr>))))
      | _ \<Rightarrow> Inl RowError)"

definition put_usage :: "string \<Rightarrow> string \<Rightarrow> client_usage \<Rightarrow> usage_tracker \<Rightarrow> usage_tracker" where
  "put_usage app client u tr = AList.update app (AList.update client u (dict_get_or tr app [])) tr"

definition json_key :: "pyval \<Rightarrow> string" where
  "json_key v = (case v of VStr s \<Rightarrow> s | _ \<Rightarrow> [])"

definition restore_client :: "(string \<Rightarrow> seconds option) \<Rightarrow> string \<Rightarrow> pyval \<times> pyval \<Rightarrow> usage_tracker \<Rightarrow> (restore_error, usage_tracker) result" where
  "restore_client rd app item tr =
     (case restore_row rd (snd item) of
        Inl RowError \<Rightarrow> Inr tr
      | Inl e \<Rightarrow> Inl e
      | Inr u \<Rightarrow> Inr (if us_buckets u = [] then tr else put_usage app (json_key (fst item)) u tr))"

definition restore_app :: "(string \<Rightarrow> seconds option) \<Rightarrow> pyval \<times> pyval \<Rightarrow> usage_tracker \<Rightarrow> (restore_error, usage_tracker) result" where
  "restore_app rd item tr =
     (case json_get (snd item) ''clients'' of VDict cs \<Rightarrow> fold_result (restore_client rd (json_key (fst item))) cs tr | _ \<Rightarrow> Inr tr)"

definition restore_usage :: "(string \<Rightarrow> seconds option) \<Rightarrow> pyval \<Rightarrow> (restore_error, usage_tracker) result" where
  "restore_usage rd v = (case json_get v ''apps'' of VDict apps \<Rightarrow> fold_result (restore_app rd) apps [] | _ \<Rightarrow> Inr [])"

subsection \<open>The daemon (daemon.py)\<close>

definition DEDUP_SECONDS :: seconds where "DEDUP_SECONDS = 10"
definition DEDUP_MAX_ENTRIES :: nat where "DEDUP_MAX_ENTRIES = 20000"
definition IGNORED_QTYPES :: "string list" where "IGNORED_QTYPES = [''PTR'', ''SOA'', ''NS'', ''SRV'', ''TXT'']"
definition XDP_LOGGER_UNIT :: string where "XDP_LOGGER_UNIT = ''fr-xdp-sni-logger.service''"
definition ADBLOCK_DNS_UNIT :: string where "ADBLOCK_DNS_UNIT = ''fr-adblock-dns.service''"

record appid_daemon =
  ap_matcher :: app_matcher
  ap_recent :: "(string \<times> string \<times> string, seconds) dict"
  ap_tracker :: usage_tracker

text \<open>The summary's file: absent or unreadable, not UTF-8, not JSON, or a value.\<close>

datatype usage_file = No_File | Undecodable | Not_Json | Json_File pyval

definition read_json :: "usage_file \<Rightarrow> (restore_error, pyval) result" where
  "read_json f = (case f of No_File \<Rightarrow> Inr VNone | Undecodable \<Rightarrow> Inl UnicodeDecodeError | Not_Json \<Rightarrow> Inr VNone | Json_File v \<Rightarrow> Inr v)"

definition load_usage :: "usage_file \<Rightarrow> (restore_error, pyval) result" where
  "load_usage f = bind_result (read_json f) (\<lambda>v.
     Inr (case json_get v ''apps'' of VDict _ \<Rightarrow> v | _ \<Rightarrow> VDict [(VStr ''generated'', VNone), (VStr ''apps'', VDict [])]))"

definition appid_init :: "(string \<Rightarrow> seconds option) \<Rightarrow> catalog \<Rightarrow> usage_file \<Rightarrow> (restore_error, appid_daemon) result" where
  "appid_init rd cat f = bind_result (read_json f) (\<lambda>v. bind_result (restore_usage rd v) (\<lambda>tr.
     Inr \<lparr>ap_matcher = app_matcher_of cat, ap_recent = [], ap_tracker = tr\<rparr>))"

definition seen_lately :: "seconds \<Rightarrow> string \<times> string \<times> string \<Rightarrow> appid_daemon \<Rightarrow> bool" where
  "seen_lately now key d = (case map_of (ap_recent d) key of None \<Rightarrow> False | Some t \<Rightarrow> now - t < DEDUP_SECONDS)"

definition observe_name :: "seconds \<Rightarrow> string \<Rightarrow> string \<Rightarrow> string \<Rightarrow> appid_daemon \<Rightarrow> string option \<times> appid_daemon" where
  "observe_name now client name src d =
     (case match_app (ap_matcher d) name of
        None \<Rightarrow> (None, d)
      | Some app \<Rightarrow>
         (let key = (client, lower name, src) in
          if seen_lately now key d then (Some app, d)
          else let recent = AList.update key now (ap_recent d);
                   kept = (if length recent > DEDUP_MAX_ENTRIES then filter (\<lambda>(k, t). now - t < DEDUP_SECONDS) recent else recent)
               in (Some app, d\<lparr>ap_recent := kept, ap_tracker := record_usage app client src now (ap_tracker d)\<rparr>)))"

text \<open>\<open>^\d+ (?P<client>[0-9A-Fa-f:.]+)/\d+ query\[(?P<qtype>[A-Za-z0-9]+)\] (?P<name>\S+) from \S+$\<close>\<close>

definition dns_query :: "string \<Rightarrow> (string \<times> string \<times> string) option" where
  "dns_query s =
     (let serial = takeWhile is_digit s; r1 = dropWhile is_digit s;
          client = takeWhile client_char (drop 1 r1); r2 = dropWhile client_char (drop 1 r1);
          port = takeWhile is_digit (drop 1 r2); r3 = dropWhile is_digit (drop 1 r2);
          qtype = takeWhile is_alnum_char (drop 7 r3); r4 = dropWhile is_alnum_char (drop 7 r3);
          rest = drop 2 r4; line = (if rest \<noteq> [] \<and> last rest = LF then butlast rest else rest) in
      if serial \<noteq> [] \<and> starts_with r1 '' '' \<and> client \<noteq> [] \<and> starts_with r2 ''/'' \<and> port \<noteq> [] \<and> starts_with r3 '' query[''
         \<and> qtype \<noteq> [] \<and> starts_with r4 ''] ''
      then (case split_on CHR '' '' line of
              [name, kw, asker] \<Rightarrow> if word name \<and> kw = ''from'' \<and> word asker then Some (client, qtype, name) else None
            | _ \<Rightarrow> None)
      else None)"

definition appid_dns_log_line :: "seconds \<Rightarrow> string \<Rightarrow> appid_daemon \<Rightarrow> appid_daemon" where
  "appid_dns_log_line now line d =
     (case dns_query (dnsmasq_message line) of
        None \<Rightarrow> d
      | Some (client, qtype, name) \<Rightarrow> if upper qtype \<in> set IGNORED_QTYPES then d else snd (observe_name now client name ''dns'' d))"

definition appid_sni_event_line :: "seconds \<Rightarrow> pyval option \<Rightarrow> appid_daemon \<Rightarrow> appid_daemon" where
  "appid_sni_event_line now line d =
     (case line of
        Some (VDict f) \<Rightarrow>
          if json_get (VDict f) ''action'' \<notin> {VStr ''pass'', VStr ''drop''} then d
          else (case (json_get (VDict f) ''saddr'', json_get (VDict f) ''sni'') of
                  (VStr client, VStr sni) \<Rightarrow> if client \<noteq> [] \<and> sni \<noteq> [] then snd (observe_name now client sni ''sni'' d) else d
                | _ \<Rightarrow> d)
      | _ \<Rightarrow> d)"

definition write_snapshot :: "(seconds \<Rightarrow> string) \<Rightarrow> seconds \<Rightarrow> appid_daemon \<Rightarrow> appid_daemon \<times> usage_file" where
  "write_snapshot fl now d = (let (tr, v) = usage_snapshot fl now (ap_tracker d) in (d\<lparr>ap_tracker := tr\<rparr>, Json_File v))"

definition source_units :: "config \<Rightarrow> string list" where
  "source_units cfg =
     (if \<not> app_enabled (app_control cfg) then []
      else (if adblock_enabled (adblocker cfg) \<and> query_logging (adblocker cfg) then [ADBLOCK_DNS_UNIT] else [])
         @ (if xdp_enabled (xdp_sni_filter cfg) \<and> observe_sni (app_control cfg) then [XDP_LOGGER_UNIT] else []))"

subsection \<open>What the daemon holds\<close>

text \<open>The states a daemon passes through: started from whatever the file holds, then lines and summaries in any order.\<close>

inductive appid_reaches :: "(seconds \<Rightarrow> string) \<Rightarrow> (string \<Rightarrow> seconds option) \<Rightarrow> catalog \<Rightarrow> appid_daemon \<Rightarrow> bool"
  for fl rd cat where
  started: "appid_init rd cat f = Inr d \<Longrightarrow> appid_reaches fl rd cat d"
| dns: "appid_reaches fl rd cat d \<Longrightarrow> appid_reaches fl rd cat (appid_dns_log_line now line d)"
| sni: "appid_reaches fl rd cat d \<Longrightarrow> appid_reaches fl rd cat (appid_sni_event_line now event d)"
| flush: "appid_reaches fl rd cat d \<Longrightarrow> appid_reaches fl rd cat (fst (write_snapshot fl now d))"

definition usage_ok :: "client_usage \<Rightarrow> bool" where
  "usage_ok u \<longleftrightarrow> dict_ok (us_buckets u) \<and> us_sources u \<subseteq> set SOURCES"

definition clients_ok :: "clients \<Rightarrow> bool" where
  "clients_ok cs \<longleftrightarrow> dict_ok cs \<and> (\<forall>(c, u)\<in>set cs. usage_ok u)"

definition tracker_ok :: "usage_tracker \<Rightarrow> bool" where
  "tracker_ok tr \<longleftrightarrow> dict_ok tr \<and> (\<forall>(a, cs)\<in>set tr. clients_ok cs)"

lemma dict_ok_map: "dict_ok (map (\<lambda>(k, v). (k, f v)) d) = dict_ok d"
  by (simp add: dict_ok_def comp_def case_prod_unfold)

lemma dict_get_or_ok: "\<forall>(k, v)\<in>set d. P v \<Longrightarrow> P z \<Longrightarrow> P (dict_get_or d k z)"
  by (auto simp: dict_get_or_def split: option.split dest: map_of_SomeD)

lemma clients_ok_update: "clients_ok cs \<Longrightarrow> usage_ok u \<Longrightarrow> clients_ok (AList.update c u cs)"
  using set_AList_update [of c u cs] by (fastforce simp: clients_ok_def dict_simps)

lemma tracker_ok_update: "tracker_ok tr \<Longrightarrow> clients_ok cs \<Longrightarrow> tracker_ok (AList.update a cs tr)"
  using set_AList_update [of a cs tr] by (fastforce simp: tracker_ok_def dict_simps)

lemma clients_ok_of: "tracker_ok tr \<Longrightarrow> clients_ok (dict_get_or tr a [])"
  by (rule dict_get_or_ok) (auto simp: tracker_ok_def clients_ok_def dict_ok_def)

lemma count_hit_ok: "usage_ok u \<Longrightarrow> src \<in> set SOURCES \<Longrightarrow> usage_ok (count_hit src now u)"
  by (simp add: usage_ok_def count_hit_def Let_def dict_simps)

lemma evict_clients_ok: "clients_ok cs \<Longrightarrow> clients_ok (evict_least n f cs)"
  using set_AList_delete by (fastforce simp: clients_ok_def evict_least_def dict_simps)

lemma record_usage_ok:
  assumes "tracker_ok tr" and "src \<in> set SOURCES"
  shows "tracker_ok (record_usage app client src now tr)"
proof -
  let ?cs = "dict_get_or tr app []"
  have cs: "clients_ok ?cs" using assms(1) by (rule clients_ok_of)
  show ?thesis
  proof (cases "map_of ?cs client")
    case None
    have "usage_ok \<lparr>us_first = now, us_last = now, us_buckets = [], us_sources = {}\<rparr>" by (simp add: usage_ok_def dict_ok_def)
    with None cs assms show ?thesis
      by (simp add: record_usage_def tracker_ok_update clients_ok_update count_hit_ok evict_clients_ok)
  next
    case (Some u)
    then have "usage_ok u" using cs map_of_SomeD [OF Some] by (auto simp: clients_ok_def)
    with Some cs assms show ?thesis by (simp add: record_usage_def tracker_ok_update clients_ok_update count_hit_ok)
  qed
qed

lemma prune_buckets_ok: "usage_ok u \<Longrightarrow> usage_ok (prune_buckets cutoff u)"
  by (simp add: usage_ok_def prune_buckets_def dict_ok_filter)

lemma prune_clients_ok: "clients_ok cs \<Longrightarrow> clients_ok (prune_clients cutoff cs)"
  by (auto simp: clients_ok_def prune_clients_def dict_ok_map prune_buckets_ok intro!: dict_ok_filter)

lemma prune_usage_ok: "tracker_ok tr \<Longrightarrow> tracker_ok (prune_usage now tr)"
  by (auto simp: tracker_ok_def prune_usage_def dict_ok_map prune_clients_ok intro!: dict_ok_filter)

lemma restore_buckets_ok: "restore_buckets rd v = Inr bs \<Longrightarrow> dict_ok bs"
proof (cases v)
  case (VDict d)
  assume "restore_buckets rd v = Inr bs"
  with VDict have "fold_result (\<lambda>(b, n) acc. bind_result (read_int rd b) (\<lambda>i. bind_result (read_int rd n) (\<lambda>k. Inr (AList.update i k acc)))) d [] = Inr bs"
    by (simp add: restore_buckets_def)
  then show ?thesis by (rule fold_result_invariant [where P = dict_ok]) (auto simp: dict_simps, simp add: dict_ok_def)
qed (simp_all add: restore_buckets_def)

lemma restore_sources_ok: "restore_sources v = Inr srcs \<Longrightarrow> srcs \<subseteq> set SOURCES"
  by (cases v) (auto simp: restore_sources_def)

lemma restore_row_ok: "restore_row rd v = Inr u \<Longrightarrow> usage_ok u"
  by (cases v) (auto simp: restore_row_def usage_ok_def dest: restore_buckets_ok restore_sources_ok [THEN subsetD])

lemma put_usage_ok: "tracker_ok tr \<Longrightarrow> usage_ok u \<Longrightarrow> tracker_ok (put_usage a c u tr)"
  by (simp add: put_usage_def tracker_ok_update clients_ok_update clients_ok_of)

lemma restore_client_ok: "tracker_ok tr \<Longrightarrow> restore_client rd a item tr = Inr tr' \<Longrightarrow> tracker_ok tr'"
  by (auto simp: restore_client_def put_usage_ok restore_row_ok split: sum.splits restore_error.splits if_splits)

lemma restore_app_ok: "tracker_ok tr \<Longrightarrow> restore_app rd item tr = Inr tr' \<Longrightarrow> tracker_ok tr'"
  by (auto simp: restore_app_def split: pyval.splits intro: fold_result_invariant [where P = tracker_ok] restore_client_ok)

lemma restore_usage_ok: "restore_usage rd v = Inr tr \<Longrightarrow> tracker_ok tr"
proof (cases "json_get v ''apps''")
  case (VDict apps)
  assume "restore_usage rd v = Inr tr"
  with VDict have "fold_result (restore_app rd) apps [] = Inr tr" by (simp add: restore_usage_def)
  then show ?thesis
    by (rule fold_result_invariant [where P = tracker_ok]) (auto intro: restore_app_ok, simp add: tracker_ok_def dict_ok_def)
qed (auto simp: restore_usage_def tracker_ok_def dict_ok_def)

lemma observe_name_ok: "tracker_ok (ap_tracker d) \<Longrightarrow> src \<in> set SOURCES \<Longrightarrow> tracker_ok (ap_tracker (snd (observe_name now client name src d)))"
  by (simp add: observe_name_def Let_def record_usage_ok split: option.split)

lemma reached_ok: "appid_reaches fl rd cat d \<Longrightarrow> tracker_ok (ap_tracker d)"
proof (induction rule: appid_reaches.induct)
  case (started f d)
  then show ?case by (auto simp: appid_init_def restore_usage_ok)
next
  case (dns d now line)
  then show ?case by (simp add: appid_dns_log_line_def observe_name_ok SOURCES_def split: option.split)
next
  case (sni d now event)
  then show ?case by (simp add: appid_sni_event_line_def observe_name_ok SOURCES_def split: option.split pyval.split)
next
  case (flush d now)
  then show ?case by (simp add: write_snapshot_def usage_snapshot_def prune_usage_ok Let_def)
qed

subsection \<open>Started again\<close>

lemma digit_value: "d < 10 \<Longrightarrow> of_char (digit_char d) = 48 + (d :: nat)"
proof -
  have "list_all (\<lambda>d. of_char (digit_char d) = 48 + d) [0..<10]" by code_simp
  then show "d < 10 \<Longrightarrow> ?thesis" by (simp add: list_all_iff)
qed

lemma read_digits_append: "read_digits n (s @ t) = read_digits (read_digits n s) t"
  by (induction s arbitrary: n) simp_all

lemma read_digits_show: "read_digits 0 (show_nat n) = n"
proof (induction n rule: show_nat.induct)
  case (1 n)
  then show ?case
    by (cases "n < 10") (simp_all add: show_nat.simps [of n] read_digits_append digit_value)
qed

lemma show_nat_chars: "c \<in> set (show_nat n) \<Longrightarrow> is_digit c"
proof -
  have "list_all (\<lambda>d. is_digit (digit_char d)) [0..<10]" by code_simp
  then show "c \<in> set (show_nat n) \<Longrightarrow> ?thesis" using show_nat_digits [of n] by (auto simp: list_all_iff)
qed

lemma not_digit [simp]: "\<not> is_digit CHR ''-''" "\<not> is_digit CHR ''+''" "\<not> is_digit CHR ''_''"
  by (simp_all add: is_digit_def in_range_def)

lemma digit_not_space: "is_digit c \<Longrightarrow> \<not> is_space c"
  by (auto simp: is_digit_def is_space_def in_range_def)

lemma dropWhile_id: "(\<And>c. c \<in> set s \<Longrightarrow> \<not> P c) \<Longrightarrow> dropWhile P s = s"
  by (cases s) auto

lemma strip_show_int: "strip (show_int i) = show_int i"
proof -
  have "\<not> is_space c" if "c \<in> set (show_int i)" for c
    using that by (auto simp: show_int_def is_space_def in_range_def dest!: show_nat_chars digit_not_space split: if_splits)
  then have "dropWhile is_space (show_int i) = show_int i" "dropWhile is_space (rev (show_int i)) = rev (show_int i)"
    by (auto intro: dropWhile_id)
  then show ?thesis by (simp add: strip_def)
qed

lemma to_int_show: "to_int (show_int i) = Some i"
proof -
  have d: "list_all is_digit (show_nat n)" for n by (simp add: list_all_iff show_nat_chars)
  have one: "split_on CHR ''_'' (show_nat n) = [show_nat n]" for n
    using split_on_join [of "[show_nat n]" "CHR ''_''"] show_nat_chars [of "CHR ''_''" n] by auto
  have sign: "\<not> starts_with (show_nat n) ''-''" "\<not> starts_with (show_nat n) ''+''" for n
    using show_nat_chars [of _ n] by (cases "show_nat n"; force simp: starts_with_def)+
  have "starts_with (CHR ''-'' # s) ''-''" for s by (simp add: starts_with_def)
  with d show ?thesis by (cases "i < 0") (simp_all add: to_int_def show_int_def one sign read_digits_show)
qed

lemma fold_update_fresh:
  "dict_ok (acc @ xs) \<Longrightarrow> fold (\<lambda>(k, v). AList.update k v) xs acc = acc @ xs"
proof (induction xs arbitrary: acc)
  case (Cons p xs)
  have fresh: "k \<notin> fst ` set d \<Longrightarrow> AList.update k v d = d @ [(k, v)]" for k v and d :: "('a, 'b) dict"
    by (induction d) auto
  from Cons.prems have "AList.update (fst p) (snd p) acc = acc @ [p]" using fresh [of "fst p" acc "snd p"] by (auto simp: dict_ok_def)
  with Cons.IH [of "acc @ [p]"] Cons.prems show ?case by (simp add: case_prod_unfold dict_ok_def)
qed simp

lemma fold_result_ok: "(\<And>x s. x \<in> set xs \<Longrightarrow> f x s = Inr (g x s)) \<Longrightarrow> fold_result f xs s = Inr (fold g xs s)"
  by (induction xs arbitrary: s) simp_all

lemma fold_result_map: "fold_result f (map g xs) s = fold_result (f \<circ> g) xs s"
  by (induction xs arbitrary: s) (auto intro!: bind_result_cong)

text \<open>A client's counters as the summary keeps them: the buckets in order.\<close>

definition in_order :: "client_usage \<Rightarrow> client_usage" where
  "in_order u = u\<lparr>us_buckets := sort_key fst (us_buckets u)\<rparr>"

lemma dict_ok_sort: "dict_ok (sort_key f d) = dict_ok d"
  by (simp add: dict_ok_def distinct_map)

lemma map_of_sort: "dict_ok d \<Longrightarrow> map_of (sort_key f d) = map_of d"
  by (rule map_of_inject_set [THEN iffD2]) (simp_all add: dict_ok_sort [unfolded dict_ok_def] dict_ok_def)

lemma restore_bucket_items:
  assumes "dict_ok bs"
  shows "restore_buckets rd (VDict (bucket_items bs)) = Inr (sort_key fst bs)"
proof -
  have "restore_buckets rd (VDict (bucket_items bs)) = Inr (fold (\<lambda>(k, v). AList.update k v) (sort_key fst bs) [])"
    unfolding restore_buckets_def bucket_items_def pyval.case fold_result_map
    by (rule fold_result_ok) (simp add: case_prod_unfold read_int_def strip_show_int to_int_show or_row_error_def)
  then show ?thesis using assms by (simp add: fold_update_fresh dict_ok_sort)
qed

lemma restore_usage_row:
  assumes "usage_ok u" and "rd (fl (us_first u)) = Some (us_first u)" and "rd (fl (us_last u)) = Some (us_last u)"
  shows "restore_row rd (usage_row fl now u) = Inr (in_order u)"
proof -
  have "finite (us_sources u)" using assms(1) by (auto simp: usage_ok_def intro: finite_subset)
  then have "restore_sources (VList (map VStr (sorted_list_of_set (us_sources u)))) = Inr (us_sources u)"
    using assms(1) by (auto simp: restore_sources_def usage_ok_def image_iff)
  with assms restore_bucket_items [of "us_buckets u" rd] show ?thesis
    by (simp add: restore_row_def usage_row_def in_order_def or_row_error_def read_float_def dict_get_or_def usage_ok_def)
qed

text \<open>Where a client's counters are.\<close>

definition lookup_usage :: "usage_tracker \<Rightarrow> string \<times> string \<Rightarrow> client_usage option" where
  "lookup_usage tr k = (case map_of tr (fst k) of None \<Rightarrow> None | Some cs \<Rightarrow> map_of cs (snd k))"

lemma lookup_put: "lookup_usage (put_usage a c u tr) k = (if k = (a, c) then Some u else lookup_usage tr k)"
  by (cases k) (auto simp: lookup_usage_def put_usage_def dict_get_or_def update_conv' split: option.split)

definition usage_items :: "usage_tracker \<Rightarrow> (string \<times> string, client_usage) dict" where
  "usage_items tr = concat (map (\<lambda>(a, cs). map (\<lambda>(c, u). ((a, c), u)) cs) tr)"

lemma map_of_usage_items: "dict_ok tr \<Longrightarrow> map_of (usage_items tr) k = lookup_usage tr k"
proof (induction tr)
  case (Cons p tr)
  obtain a cs where p: "p = (a, cs)" by fastforce
  obtain a' c where k: "k = (a', c)" by fastforce
  have one: "map_of (map (\<lambda>(c, u). ((a, c), u)) cs) (a', c) = (if a' = a then map_of cs c else None)"
    by (induction cs) auto
  from Cons.prems p have "map_of tr a = None" by (auto simp: dict_ok_def map_of_eq_None_iff)
  with Cons one show ?case
    by (auto simp: p k usage_items_def lookup_usage_def dict_ok_def map_add_def split: option.split)
qed (simp add: usage_items_def lookup_usage_def)

lemma usage_items_mem: "(k, u) \<in> set (usage_items tr) \<longleftrightarrow> (\<exists>cs. (fst k, cs) \<in> set tr \<and> (snd k, u) \<in> set cs)"
  by (cases k) (force simp: usage_items_def)

lemma usage_items_ok: "dict_ok tr \<Longrightarrow> (\<And>a cs. (a, cs) \<in> set tr \<Longrightarrow> dict_ok cs) \<Longrightarrow> dict_ok (usage_items tr)"
proof (induction tr)
  case (Cons p tr)
  obtain a cs where p: "p = (a, cs)" by fastforce
  let ?new = "map (\<lambda>(c, u). ((a, c), u)) cs"
  have "dict_ok cs" using Cons.prems p by auto
  then have "distinct (map fst ?new)" by (force simp: dict_ok_def distinct_map inj_on_def)
  moreover from Cons.IH Cons.prems have "distinct (map fst (usage_items tr))" by (auto simp: dict_ok_def)
  moreover have "a \<notin> fst ` set tr" using Cons.prems p by (simp add: dict_ok_def)
  then have "set (map fst ?new) \<inter> set (map fst (usage_items tr)) = {}" by (force simp: usage_items_mem)
  moreover have "usage_items (p # tr) = ?new @ usage_items tr" by (simp add: usage_items_def p)
  ultimately show ?case by (simp only: dict_ok_def map_append distinct_append simp_thms)
qed (simp add: usage_items_def dict_ok_def)

lemma lookup_fold_put:
  "dict_ok xs \<Longrightarrow> lookup_usage (fold (\<lambda>((a, c), u). put_usage a c (f u)) xs tr) k
     = (case map_of xs k of Some u \<Rightarrow> Some (f u) | None \<Rightarrow> lookup_usage tr k)"
proof (induction xs arbitrary: tr)
  case (Cons p xs)
  obtain a c u where p: "p = ((a, c), u)" by (metis prod.collapse)
  have "map_of xs (a, c) = None" using Cons.prems p by (auto simp: dict_ok_def map_of_eq_None_iff)
  with Cons p show ?case by (auto simp: dict_ok_def lookup_put split: option.split)
qed simp

definition usage_times :: "usage_tracker \<Rightarrow> seconds set" where
  "usage_times tr = (\<Union>(k, u)\<in>set (usage_items tr). {us_first u, us_last u})"

definition sorted_tracker :: "usage_tracker \<Rightarrow> usage_tracker" where
  "sorted_tracker tr = map (\<lambda>(a, cs). (a, sort_key fst cs)) (sort_key fst tr)"

lemma clients_ok_sort: "clients_ok (sort_key f cs) = clients_ok cs"
  by (simp add: clients_ok_def dict_ok_sort)

lemma sorted_tracker_ok: "tracker_ok tr \<Longrightarrow> tracker_ok (sorted_tracker tr)"
  by (auto simp: sorted_tracker_def tracker_ok_def dict_ok_map dict_ok_sort clients_ok_sort)

lemma fold_concat_map: "fold f (concat xss) s = fold (fold f) xss s"
  by (induction xss arbitrary: s) simp_all

lemma lookup_sorted: "tracker_ok tr \<Longrightarrow> lookup_usage (sorted_tracker tr) k = lookup_usage tr k"
proof -
  assume ok: "tracker_ok tr"
  have "map_of (map (\<lambda>(a, cs). (a, sort_key fst cs)) d) a = map_option (sort_key fst) (map_of d a)" for d :: usage_tracker and a
    by (simp add: map_of_map)
  then have "map_of (sorted_tracker tr) (fst k) = map_option (sort_key fst) (map_of tr (fst k))"
    using ok by (simp add: sorted_tracker_def tracker_ok_def map_of_sort)
  then show ?thesis using ok
    by (auto simp: lookup_usage_def tracker_ok_def clients_ok_def map_of_sort dest!: map_of_SomeD split: option.split)
qed

definition kept_usage :: "client_usage \<Rightarrow> bool" where
  "kept_usage u \<longleftrightarrow> us_buckets u \<noteq> []"

lemma restore_usage_app:
  assumes "clients_ok cs" and "\<forall>(c, u)\<in>set cs. kept_usage u \<and> rd (fl (us_first u)) = Some (us_first u) \<and> rd (fl (us_last u)) = Some (us_last u)"
  shows "restore_app rd (VStr a, usage_app fl now cs) tr = Inr (fold (\<lambda>(c, u). put_usage a c (in_order u)) (sort_key fst cs) tr)"
proof -
  have "restore_client rd a (VStr c, usage_row fl now u) t = Inr (put_usage a c (in_order u) t)" if "(c, u) \<in> set cs" for c u t
  proof -
    from assms that have "usage_ok u" "kept_usage u" "rd (fl (us_first u)) = Some (us_first u)" "rd (fl (us_last u)) = Some (us_last u)"
      by (auto simp: clients_ok_def)
    then show ?thesis by (simp add: restore_client_def restore_usage_row json_key_def kept_usage_def in_order_def sort_key_Nil)
  qed
  then have "fold_result (restore_client rd a \<circ> (\<lambda>(c, u). (VStr c, usage_row fl now u))) (sort_key fst cs) tr
      = Inr (fold (\<lambda>(c, u). put_usage a c (in_order u)) (sort_key fst cs) tr)"
    by (intro fold_result_ok) auto
  then show ?thesis by (simp add: restore_app_def usage_app_def json_get_def json_key_def fold_result_map)
qed

lemma restore_usage_json:
  assumes ok: "tracker_ok tr" and kept: "\<forall>(k, u)\<in>set (usage_items tr). kept_usage u" and rd: "\<forall>t\<in>usage_times tr. rd (fl t) = Some t"
  shows "\<exists>tr'. restore_usage rd (usage_json fl now tr) = Inr tr' \<and> (\<forall>k. lookup_usage tr' k = map_option in_order (lookup_usage tr k))"
proof -
  let ?put = "\<lambda>((a, c), u). put_usage a c (in_order u)"
  have "restore_app rd (VStr a, usage_app fl now cs) t = Inr (fold (\<lambda>(c, u). put_usage a c (in_order u)) (sort_key fst cs) t)"
    if "(a, cs) \<in> set tr" for a cs t
  proof (rule restore_usage_app)
    show "clients_ok cs" using ok that by (auto simp: tracker_ok_def)
    have "((a, c), u) \<in> set (usage_items tr)" if "(c, u) \<in> set cs" for c u using that \<open>(a, cs) \<in> set tr\<close> by (auto simp: usage_items_mem)
    then show "\<forall>(c, u)\<in>set cs. kept_usage u \<and> rd (fl (us_first u)) = Some (us_first u) \<and> rd (fl (us_last u)) = Some (us_last u)"
      using kept rd by (force simp: usage_times_def)
  qed
  then have "fold_result (restore_app rd \<circ> (\<lambda>(a, cs). (VStr a, usage_app fl now cs))) (sort_key fst tr) []
      = Inr (fold (\<lambda>(a, cs). fold (\<lambda>(c, u). put_usage a c (in_order u)) (sort_key fst cs)) (sort_key fst tr) [])"
    by (intro fold_result_ok) auto
  also have "fold (\<lambda>(a, cs). fold (\<lambda>(c, u). put_usage a c (in_order u)) (sort_key fst cs)) (sort_key fst tr) [] = fold ?put (usage_items (sorted_tracker tr)) []"
    by (simp add: usage_items_def sorted_tracker_def fold_concat_map fold_map comp_def case_prod_unfold)
  finally have "restore_usage rd (usage_json fl now tr) = Inr (fold ?put (usage_items (sorted_tracker tr)) [])"
    by (simp add: restore_usage_def usage_json_def json_get_def fold_result_map comp_def)
  moreover have "dict_ok (usage_items (sorted_tracker tr))" "dict_ok (sorted_tracker tr)"
    using sorted_tracker_ok [OF ok] by (auto simp: tracker_ok_def clients_ok_def intro!: usage_items_ok)
  then have "lookup_usage (fold ?put (usage_items (sorted_tracker tr)) []) k = map_option in_order (lookup_usage tr k)" for k
    using ok by (simp add: lookup_fold_put map_of_usage_items lookup_sorted lookup_usage_def [of "[]"] split: option.split)
  ultimately show ?thesis by blast
qed

text \<open>What is known of a client's use of an application: first and last seen, hits by hour, and how it was seen.\<close>

definition usage_facts :: "client_usage \<Rightarrow> seconds \<times> seconds \<times> (int \<rightharpoonup> int) \<times> string set" where
  "usage_facts u = (us_first u, us_last u, map_of (us_buckets u), us_sources u)"

definition usage_view :: "appid_daemon \<Rightarrow> string \<times> string \<Rightarrow> (seconds \<times> seconds \<times> (int \<rightharpoonup> int) \<times> string set) option" where
  "usage_view d k = map_option usage_facts (lookup_usage (ap_tracker d) k)"

definition within_retention :: "seconds \<Rightarrow> (seconds \<times> seconds \<times> (int \<rightharpoonup> int) \<times> string set) option \<Rightarrow> (seconds \<times> seconds \<times> (int \<rightharpoonup> int) \<times> string set) option" where
  "within_retention now v =
     (case v of
        None \<Rightarrow> None
      | Some (first, last_one, hits, srcs) \<Rightarrow>
          let kept = hits |` {b. of_int b > now - 25 * 3600} in if kept = Map.empty then None else Some (first, last_one, kept, srcs))"

lemma lookup_prune:
  assumes "tracker_ok tr"
  shows "lookup_usage (prune_usage now tr) k
     = (case lookup_usage tr k of None \<Rightarrow> None
        | Some u \<Rightarrow> if us_buckets (prune_buckets (usage_cutoff now) u) = [] then None else Some (prune_buckets (usage_cutoff now) u))"
proof -
  let ?c = "usage_cutoff now"
  have clients: "map_of (prune_clients ?c cs) c = (case map_of cs c of None \<Rightarrow> None
      | Some u \<Rightarrow> if us_buckets (prune_buckets ?c u) = [] then None else Some (prune_buckets ?c u))" if "clients_ok cs" for cs c
  proof -
    have "dict_ok (map (\<lambda>(c, u). (c, prune_buckets ?c u)) cs)" using that by (simp add: dict_ok_map clients_ok_def)
    then show ?thesis by (simp add: prune_clients_def map_of_filter_dict map_of_map split: option.split)
  qed
  have "dict_ok (map (\<lambda>(a, cs). (a, prune_clients ?c cs)) tr)" using assms by (simp add: dict_ok_map tracker_ok_def)
  then have "map_of (prune_usage now tr) (fst k) = (case map_of tr (fst k) of None \<Rightarrow> None
      | Some cs \<Rightarrow> if prune_clients ?c cs = [] then None else Some (prune_clients ?c cs))"
    by (simp add: prune_usage_def map_of_filter_dict map_of_map split: option.split)
  moreover have "clients_ok cs" if "map_of tr (fst k) = Some cs" for cs using assms map_of_SomeD [OF that] by (auto simp: tracker_ok_def)
  moreover from calculation(1) have "lookup_usage (prune_usage now tr) k
      = (case map_of tr (fst k) of None \<Rightarrow> None | Some cs \<Rightarrow> map_of (prune_clients ?c cs) (snd k))"
    by (auto simp: lookup_usage_def split: option.split)
  ultimately show ?thesis by (cases "map_of tr (fst k)") (simp_all add: clients lookup_usage_def)
qed

lemma prune_facts: "dict_ok (us_buckets u) \<Longrightarrow>
    within_retention now (Some (usage_facts u))
      = (if us_buckets (prune_buckets (usage_cutoff now) u) = [] then None else Some (usage_facts (prune_buckets (usage_cutoff now) u)))"
proof -
  assume ok: "dict_ok (us_buckets u)"
  have "map_of (filter (\<lambda>(b, n). of_int b > usage_cutoff now) (us_buckets u)) = map_of (us_buckets u) |` {b. of_int b > now - 25 * 3600}"
    using ok by (auto simp: map_of_filter_dict restrict_map_def usage_cutoff_def RETENTION_SECONDS_def BUCKET_SECONDS_def split: option.split)
  then show ?thesis
    by (auto simp: within_retention_def usage_facts_def prune_buckets_def Let_def)
qed

lemma lookup_usage_ok: "tracker_ok tr \<Longrightarrow> lookup_usage tr k = Some u \<Longrightarrow> usage_ok u"
  by (force simp: lookup_usage_def tracker_ok_def clients_ok_def dest: map_of_SomeD split: option.splits)

lemma view_in_order: "usage_ok u \<Longrightarrow> usage_facts (in_order u) = usage_facts u"
  by (simp add: usage_facts_def in_order_def usage_ok_def map_of_sort)

lemma usage_items_lookup: "tracker_ok tr \<Longrightarrow> (k, u) \<in> set (usage_items tr) \<longleftrightarrow> lookup_usage tr k = Some u"
proof -
  assume ok: "tracker_ok tr"
  then have "dict_ok (usage_items tr)" by (intro usage_items_ok) (auto simp: tracker_ok_def clients_ok_def)
  with ok show ?thesis using map_of_eq_Some_iff [of "usage_items tr" k u] map_of_usage_items [of tr k] by (simp add: tracker_ok_def dict_ok_def)
qed

lemma pruned_kept: "tracker_ok tr \<Longrightarrow> \<forall>(k, u)\<in>set (usage_items (prune_usage now tr)). kept_usage u"
  by (auto simp: usage_items_lookup prune_usage_ok lookup_prune kept_usage_def split: option.splits if_splits)

lemma pruned_times: "tracker_ok tr \<Longrightarrow> usage_times (prune_usage now tr) \<subseteq> usage_times tr"
  by (fastforce simp: usage_times_def usage_items_lookup prune_usage_ok lookup_prune prune_buckets_def split: option.splits if_splits)

text \<open>
  C35: what \<open>fr-appid\<close> has counted survives its restart.  Whatever file it was started from and whatever lines it has read, the
  summary it writes can be read, and a daemon started from it knows of every client and application exactly what the one
  that wrote it knew: when it was first and last seen, its hits hour by hour and how it was seen.  Writing it drops the hours that
  ended before the last 24 hours, and a client with no hour left, and nothing else.  The floats are those JSON reads back as it wrote them.
\<close>

theorem usage_survives_restart:
  assumes "appid_reaches fl rd cat d" and "\<forall>t\<in>usage_times (ap_tracker d). rd (fl t) = Some t"
  shows "case write_snapshot fl now d of (d', f) \<Rightarrow>
    \<exists>d2. appid_init rd cat f = Inr d2 \<and> usage_view d2 = usage_view d' \<and> usage_view d' = within_retention now \<circ> usage_view d"
proof -
  let ?tr = "prune_usage now (ap_tracker d)"
  have ok: "tracker_ok (ap_tracker d)" using assms(1) by (rule reached_ok)
  then have pok: "tracker_ok ?tr" by (rule prune_usage_ok)
  obtain tr' where tr': "restore_usage rd (usage_json fl now ?tr) = Inr tr'" "\<And>k. lookup_usage tr' k = map_option in_order (lookup_usage ?tr k)"
    using restore_usage_json [OF pok pruned_kept [OF ok], of rd fl now] assms(2) pruned_times [OF ok, of now] by blast
  have "map_option usage_facts (lookup_usage tr' k) = map_option usage_facts (lookup_usage ?tr k)" for k
    using lookup_usage_ok [OF pok, of k] by (cases "lookup_usage ?tr k") (simp_all add: tr'(2) view_in_order)
  moreover have "map_option usage_facts (lookup_usage ?tr k) = within_retention now (map_option usage_facts (lookup_usage (ap_tracker d) k))" for k
    using lookup_usage_ok [OF ok, of k]
    by (cases "lookup_usage (ap_tracker d) k") (simp_all add: lookup_prune [OF ok] prune_facts usage_ok_def within_retention_def [of _ None])
  ultimately show ?thesis
    using tr'(1) by (auto simp: write_snapshot_def usage_snapshot_def Let_def appid_init_def read_json_def usage_view_def)
qed

text \<open>A query of a catalogued name at 7200 s, written and read back at 7300 s.  Whole seconds are written as \<open>7200.0\<close>.\<close>

definition whole_float :: "seconds \<Rightarrow> string" where
  "whole_float t = show_int \<lfloor>t\<rfloor> @ ''.0''"

definition read_whole :: "string \<Rightarrow> seconds option" where
  "read_whole s = map_option of_int (to_int (take (length s - 2) s))"

definition catalog1 :: catalog where
  "catalog1 = [\<lparr>app_id = ''netflix'', app_name = ''Netflix'', app_category = ''video'', app_domains = [''netflix.com''], app_exact = []\<rparr>]"

definition appid1 :: appid_daemon where
  "appid1 = appid_dns_log_line 7200 ''2 10.0.0.5/46381 query[A] www.netflix.com from 10.0.0.5''
     \<lparr>ap_matcher = app_matcher_of catalog1, ap_recent = [], ap_tracker = []\<rparr>"

lemma appid1_tracker: "ap_tracker appid1
    = [(''netflix'', [(''10.0.0.5'', \<lparr>us_first = 7200, us_last = 7200, us_buckets = [(7200, 1)], us_sources = {''dns''}\<rparr>)])]"
proof -
  have q: "dns_query (dnsmasq_message ''2 10.0.0.5/46381 query[A] www.netflix.com from 10.0.0.5'') = Some (''10.0.0.5'', ''A'', ''www.netflix.com'')"
    by code_simp
  have m: "match_app (app_matcher_of catalog1) ''www.netflix.com'' = Some ''netflix''" by code_simp
  have u: "upper ''A'' \<notin> set IGNORED_QTYPES" by code_simp
  show ?thesis
    by (simp add: appid1_def appid_dns_log_line_def q u observe_name_def m Let_def seen_lately_def record_usage_def dict_get_or_def
        evict_least_def MAX_CLIENTS_PER_APP_def count_hit_def BUCKET_SECONDS_def)
qed

theorem usage_survives_restart_witness:
  "\<exists>d2. appid_init read_whole catalog1 (snd (write_snapshot whole_float 7300 appid1)) = Inr d2
     \<and> usage_view d2 (''netflix'', ''10.0.0.5'') = Some (7200, 7200, [7200 \<mapsto> 1], {''dns''})"
proof -
  have "appid_init read_whole catalog1 No_File = Inr \<lparr>ap_matcher = app_matcher_of catalog1, ap_recent = [], ap_tracker = []\<rparr>"
    by (simp add: appid_init_def read_json_def restore_usage_def json_get_def)
  then have "appid_reaches whole_float read_whole catalog1 appid1"
    unfolding appid1_def by (intro appid_reaches.dns appid_reaches.started)
  moreover have "\<forall>t\<in>usage_times (ap_tracker appid1). read_whole (whole_float t) = Some t"
    by (simp add: appid1_tracker usage_times_def usage_items_def read_whole_def whole_float_def to_int_show)
  ultimately have "case write_snapshot whole_float 7300 appid1 of (d', f) \<Rightarrow>
    \<exists>d2. appid_init read_whole catalog1 f = Inr d2 \<and> usage_view d2 = usage_view d' \<and> usage_view d' = within_retention 7300 \<circ> usage_view appid1"
    by (rule usage_survives_restart)
  moreover have "usage_view appid1 (''netflix'', ''10.0.0.5'') = Some (7200, 7200, [7200 \<mapsto> 1], {''dns''})"
    by (simp add: usage_view_def appid1_tracker lookup_usage_def usage_facts_def)
  moreover have "[7200 \<mapsto> 1] |` {b::int. of_int b > (7300::rat) - 25 * 3600} = [7200 \<mapsto> (1::int)]" by (auto simp: restrict_map_def)
  ultimately show ?thesis by (auto simp: case_prod_unfold within_retention_def)
qed

subsection \<open>A damaged file\<close>

text \<open>
  A damaged file must never stop the daemon, \<open>restore\<close> says.  Two do: one that is not UTF-8, since \<open>_read_json\<close> catches only what
  JSON raises, and one with a time no float holds, since \<open>restore\<close> does not catch \<open>OverflowError\<close>.  The web interface's
  \<open>load_usage\<close> fails on the first one too.
\<close>

lemma undecodable_file_stops: "appid_init rd cat Undecodable = Inl UnicodeDecodeError" "load_usage Undecodable = Inl UnicodeDecodeError"
  by (simp_all add: appid_init_def load_usage_def read_json_def)

definition huge_row :: pyval where
  "huge_row = VDict [(VStr ''apps'', VDict [(VStr ''netflix'', VDict [(VStr ''clients'',
     VDict [(VStr ''10.0.0.5'', VDict [(VStr ''first_seen'', VInt (2 ^ 1024))])])])])]"

lemma huge_time_stops: "appid_init rd cat (Json_File huge_row) = Inl OverflowError"
  by (simp add: appid_init_def read_json_def huge_row_def restore_usage_def json_get_def restore_app_def restore_client_def
      restore_row_def or_row_error_def read_float_def FLOAT_OVERFLOW_def)

text \<open>Any other damage only loses what it hit: nothing that \<open>restore\<close> catches stops it.\<close>

lemma restore_stops_only_on_overflow: "restore_usage rd v = Inl e \<Longrightarrow> e \<noteq> RowError"
proof -
  have step: "restore_client rd a item tr \<noteq> Inl RowError" for a item tr by (simp add: restore_client_def split: sum.split restore_error.split)
  have lift: "(\<And>x s. f x s \<noteq> Inl RowError) \<Longrightarrow> fold_result f xs s \<noteq> Inl RowError"
    for f :: "pyval \<times> pyval \<Rightarrow> usage_tracker \<Rightarrow> (restore_error, usage_tracker) result" and xs s
    by (induction xs arbitrary: s) (auto simp: bind_result_Inl_iff)
  have "restore_app rd item tr \<noteq> Inl RowError" for item tr using step lift by (auto simp: restore_app_def split: pyval.split)
  then have "restore_usage rd v \<noteq> Inl RowError" using lift by (auto simp: restore_usage_def split: pyval.split)
  then show "restore_usage rd v = Inl e \<Longrightarrow> e \<noteq> RowError" by auto
qed

end
