(* ===== verification/Link_Setup.thy ===== *)
theory Link_Setup
  imports Ipv6_Setup App_Usage Load_Sections
begin

text \<open>
  The IPv4 side of the devices: their static addresses (\<open>src/src/frfw/ifaddr.py\<close>), the switch that makes the box
  route (\<open>forwarding.py\<close>), and the DHCP server of the zones (\<open>kea.py\<close>); and, now that every kind of address is there, what the
  validators of \<open>validate.py\<close> let through.

  \<open>link_kernel\<close> is what the first of them changes: the devices there are, which are up, and the IPv4 addresses on them.  \<open>ip\<close> is a
  parameter (\<open>link_env\<close>): how a call ends is its answer, and one that succeeds changes the devices as iproute2 documents
  it; what \<open>ip -j addr show\<close> prints is the list of the \<open>inet\<close> entries (their address and prefix length).
\<close>

subsection \<open>Text of an IPv4 interface\<close>

text \<open>What \<open>str\<close> writes of an address, \<open>IPv4Interface\<close> reads back.\<close>

lemma octet_split:
  assumes "0 \<le> x" and "x < 2 ^ 32"
  shows "int (octet x 3) * 2 ^ 24 + int (octet x 2) * 2 ^ 16 + int (octet x 1) * 2 ^ 8 + int (octet x 0) = x"
proof -
  let ?y = "x div 256" and ?z = "x div 256 div 256" and ?w = "x div 256 div 256 div 256"
  have d: "x div 65536 = ?z" "x div 16777216 = ?w" by (simp_all add: zdiv_zmult2_eq [symmetric])
  have "0 \<le> ?w" "?w < 256" using assms by (simp_all add: d [symmetric])
  then have "?w mod 256 = ?w" by simp
  moreover have "x = ?y * 256 + x mod 256" "?y = ?z * 256 + ?y mod 256" "?z = ?w * 256 + ?z mod 256" by simp_all
  ultimately have "?w mod 256 * 16777216 + ?z mod 256 * 65536 + ?y mod 256 * 256 + x mod 256 = x" by linarith
  then show ?thesis by (simp add: octet_def d del: div_mult_mod_eq)
qed

lemma octet_small: "octet x i \<le> 255"
  using pos_mod_bound [of 256 "x div 2 ^ (8 * i)"] by (simp add: octet_def nat_le_iff)

lemma show_nat_length: "n \<le> 255 \<Longrightarrow> length (show_nat n) \<le> 3"
  by (simp add: show_nat.simps)

lemma show_nat_head: "n \<noteq> 0 \<Longrightarrow> hd (show_nat n) \<noteq> CHR ''0''"
proof (induction n rule: show_nat.induct)
  case (1 n)
  then show ?case
    by (cases "n < 10") (auto simp: show_nat.simps [of n] digit_char_def hd_append nth_Cons' split: if_splits)
qed

lemma octet_of_show: "n \<le> 255 \<Longrightarrow> octet_of (show_nat n) = Some (int n)"
  using show_nat_head [of n] show_nat_length [of n] show_nat_chars [of _ n] show_nat_digits [of n]
  by (cases "n = 0") (auto simp: octet_of_def read_digits_show list_all_iff, auto simp: show_nat.simps digit_char_def octet_of_def)

lemma ipv4_address_show:
  assumes "0 \<le> x" and "x < 2 ^ 32"
  shows "ipv4_address (show_ipv4 x) = Some x"
proof -
  have "split_on CHR ''.'' (show_ipv4 x) = map (\<lambda>i. show_nat (octet x i)) [3, 2, 1, 0]"
    unfolding show_ipv4_def by (rule split_on_join) (auto dest!: show_nat_chars simp: is_digit_def in_range_def)
  then show ?thesis using octet_split [OF assms] by (simp add: ipv4_address_def octet_of_show octet_small)
qed

lemma show_ipv4_chars: "CHR ''/'' \<notin> set (show_ipv4 x)"
  by (auto simp: show_ipv4_def dest!: show_nat_chars simp: is_digit_def in_range_def)

lemma ipv4_interface_show:
  assumes "0 \<le> x" and "x < 2 ^ 32" and "n \<le> 32"
  shows "ipv4_interface (show_interface (x, n)) = Some (x, n)"
proof -
  have "split_on CHR ''/'' (show_interface (x, n)) = [show_ipv4 x, show_nat n]"
    using split_on_join [of "[show_ipv4 x, show_nat n]" "CHR ''/''"] show_ipv4_chars [of x] show_nat_chars [of "CHR ''/''" n]
    by (auto simp: show_interface_def is_digit_def in_range_def)
  moreover have "prefix_of (show_nat n) = Some n"
    using assms(3) show_nat_chars [of _ n] show_nat_digits [of n] by (auto simp: prefix_of_def read_digits_show list_all_iff)
  ultimately show ?thesis using ipv4_address_show [OF assms(1,2)] by (simp add: ipv4_interface_def)
qed

subsection \<open>Static addresses\<close>

datatype ifaddr_error = IfaddrError string | ValueError string

text \<open>A finished process: its exit status and its standard output and error; \<open>No_binary\<close> is \<open>FileNotFoundError\<close>.\<close>

datatype tool_answer = No_binary | Proc int string string

datatype shown_addresses = Show_no_binary | Show_failed | Show_unreadable string | Shown "(string \<times> nat) list"

record link_kernel =
  lk_devices :: "string set"
  lk_up :: "string set"
  lk_addresses :: "(string \<times> string) set"

record link_env =
  ip_answer :: "string list \<Rightarrow> link_kernel \<Rightarrow> tool_answer"
  ip_shows :: "string \<Rightarrow> link_kernel \<Rightarrow> shown_addresses"
  link_root :: bool

text \<open>\<open>validate.ipv4_interface\<close>\<close>

definition validate_ipv4_interface :: "pyval \<Rightarrow> (argument_error, string) result" where
  "validate_ipv4_interface v = bind_result (check_text v ''IPv4 address/prefix'') (\<lambda>s.
     refuse_unless (case ipv4_interface s of None \<Rightarrow> False | Some i \<Rightarrow> show_interface i = s) ''IPv4 address/prefix'' s)"

definition canonical4 :: "string \<Rightarrow> (ifaddr_error, string) result" where
  "canonical4 a = (case ipv4_interface a of None \<Rightarrow> Inl (ValueError a) | Some i \<Rightarrow> Inr (show_interface i))"

text \<open>The interfaces with an address, and the pairs a configuration sets.\<close>

definition with_address :: "config \<Rightarrow> (interface \<times> string) list" where
  "with_address cfg = List.map_filter (\<lambda>(_, i). case if_address i of None \<Rightarrow> None | Some a \<Rightarrow> if a = [] then None else Some (i, a)) (interfaces cfg)"

definition set_pairs :: "config \<Rightarrow> (ifaddr_error, (string \<times> string) list) result" where
  "set_pairs cfg = fold_result (\<lambda>(i, a) acc. bind_result (canonical4 a) (\<lambda>c. Inr (acc @ [(if_device i, c)]))) (with_address cfg) []"

definition stale_addresses :: "config \<Rightarrow> config option \<Rightarrow> (ifaddr_error, (string \<times> string) list) result" where
  "stale_addresses cfg previous =
     (case previous of None \<Rightarrow> Inr []
      | Some old \<Rightarrow>
          bind_result (set_pairs cfg) (\<lambda>wanted.
          fold_result (\<lambda>(i, a) stale. bind_result (canonical4 a) (\<lambda>c.
            Inr (if (if_device i, c) \<notin> set wanted \<and> (if_device i, c) \<notin> set stale then stale @ [(if_device i, c)] else stale))) (with_address old) []))"

text \<open>A step on the devices: what it returns, and the devices after it.\<close>

type_synonym 'a link_step = "link_kernel \<Rightarrow> (ifaddr_error, 'a) result \<times> link_kernel"

definition link_bind :: "'a link_step \<Rightarrow> ('a \<Rightarrow> 'b link_step) \<Rightarrow> 'b link_step" where
  "link_bind m f k = (case m k of (Inl e, k1) \<Rightarrow> (Inl e, k1) | (Inr a, k1) \<Rightarrow> f a k1)"

definition link_return :: "(ifaddr_error, 'a) result \<Rightarrow> 'a link_step" where
  "link_return r k = (r, k)"

fun for_each :: "('a \<Rightarrow> unit link_step) \<Rightarrow> 'a list \<Rightarrow> unit link_step" where
  "for_each f [] k = (Inr (), k)"
| "for_each f (x # xs) k = link_bind (f x) (\<lambda>_. for_each f xs) k"

definition NO_IP :: string where "NO_IP = ''binary not found; install the iproute2 package''"

definition link_ip :: "link_env \<Rightarrow> string list \<Rightarrow> (link_kernel \<Rightarrow> link_kernel) \<Rightarrow> unit link_step" where
  "link_ip env args effect k =
     (case ip_answer env args k of
        No_binary \<Rightarrow> (Inl (IfaddrError NO_IP), k)
      | Proc rc out err \<Rightarrow>
          if rc \<noteq> 0 then (Inl (IfaddrError (if strip err = [] then ''ip exited with status '' @ show_int rc else strip err)), k)
          else (Inr (), effect k))"

definition bring_up :: "link_env \<Rightarrow> string \<Rightarrow> unit link_step" where
  "bring_up env device = link_ip env [''link'', ''set'', ''dev'', device, ''up''] (\<lambda>k. k\<lparr>lk_up := insert device (lk_up k)\<rparr>)"

definition checked_argument :: "(argument_error, string) result \<Rightarrow> (ifaddr_error, string) result" where
  "checked_argument r = (case r of Inl (ArgumentError m) \<Rightarrow> Inl (IfaddrError m) | Inr s \<Rightarrow> Inr s)"

definition apply_one :: "link_env \<Rightarrow> interface \<times> string \<Rightarrow> unit link_step" where
  "apply_one env ia =
     link_bind (link_return (checked_argument (ifname (VStr (if_device (fst ia)))))) (\<lambda>device.
     link_bind (link_return (checked_argument (validate_ipv4_interface (VStr (snd ia))))) (\<lambda>address.
     link_bind (link_ip env [''addr'', ''replace'', address, ''dev'', device] (\<lambda>k. k\<lparr>lk_addresses := insert (device, address) (lk_addresses k)\<rparr>)) (\<lambda>_.
     bring_up env device)))"

definition shown_on :: "link_env \<Rightarrow> string \<Rightarrow> link_kernel \<Rightarrow> (ifaddr_error, string list) result" where
  "shown_on env device k =
     (case ip_shows env device k of
        Show_no_binary \<Rightarrow> Inl (IfaddrError NO_IP)
      | Show_failed \<Rightarrow> Inr []
      | Show_unreadable e \<Rightarrow> Inl (IfaddrError (''could not read the addresses of '' @ device @ '': '' @ e))
      | Shown entries \<Rightarrow> fold_result (\<lambda>(local, n) acc. bind_result (canonical4 (local @ ''/'' @ show_nat n)) (\<lambda>c. Inr (acc @ [c]))) entries [])"

definition remove_one :: "link_env \<Rightarrow> string \<times> string \<Rightarrow> unit link_step" where
  "remove_one env pair =
     link_bind (link_return (checked_argument (ifname (VStr (fst pair))))) (\<lambda>device.
     link_bind (link_return (checked_argument (validate_ipv4_interface (VStr (snd pair))))) (\<lambda>address.
     link_bind (\<lambda>k. link_return (shown_on env device k) k) (\<lambda>shown.
     if address \<notin> set shown then link_return (Inr ())
     else link_ip env [''addr'', ''del'', address, ''dev'', device] (\<lambda>k. k\<lparr>lk_addresses := lk_addresses k - {(device, address)}\<rparr>))))"

text \<open>\<open>_ensure_vlan\<close>: the question whether the device is there does not translate a missing \<open>ip\<close>.\<close>

definition ensure_vlan :: "link_env \<Rightarrow> interface \<Rightarrow> unit link_step" where
  "ensure_vlan env i =
     link_bind (link_return (checked_argument (ifname (VStr (if_device i))))) (\<lambda>device.
     link_bind (link_return (checked_argument (ifname (case vlan_parent i of None \<Rightarrow> VNone | Some p \<Rightarrow> VStr p)))) (\<lambda>parent.
     link_bind (\<lambda>k. case ip_answer env [''link'', ''show'', ''dev'', device] k of
         No_binary \<Rightarrow> (Inl (ValueError ''FileNotFoundError''), k)
       | Proc rc out err \<Rightarrow>
           if rc \<noteq> 0 then link_ip env [''link'', ''add'', ''link'', parent, ''name'', device, ''type'', ''vlan'', ''id'', (case vlan_id i of None \<Rightarrow> ''None'' | Some n \<Rightarrow> show_int n)]
             (\<lambda>k. k\<lparr>lk_devices := insert device (lk_devices k)\<rparr>) k
           else (Inr (), k)) (\<lambda>_.
     link_bind (bring_up env parent) (\<lambda>_.
     bring_up env device))))"

record ifaddr_result =
  ifaddr_applied :: bool
  ifaddr_message :: string

definition pairs_text :: "(string \<times> string) list \<Rightarrow> string" where
  "pairs_text ps = py_join '', '' (map (\<lambda>(device, address). device @ ''='' @ address) ps)"

definition sync_message :: "string \<Rightarrow> string \<Rightarrow> (interface \<times> string) list \<Rightarrow> (string \<times> string) list \<Rightarrow> string" where
  "sync_message put taken here stale =
     py_join ''; '' ((if here = [] then [] else [put @ pairs_text (map (\<lambda>(i, a). (if_device i, a)) here)]) @
       (if stale = [] then [] else [taken @ pairs_text stale]))"

definition NEEDS_ROOT :: string where "NEEDS_ROOT = ''Applying interface addresses requires root privileges.''"

definition require_link_root :: "link_env \<Rightarrow> unit link_step" where
  "require_link_root env = link_return (if link_root env then Inr () else Inl (IfaddrError NEEDS_ROOT))"

definition sync_addresses :: "link_env \<Rightarrow> config \<Rightarrow> config option \<Rightarrow> bool \<Rightarrow> ifaddr_result link_step" where
  "sync_addresses env cfg previous dry_run =
     (let vlans = filter (\<lambda>i. vlan_id i \<noteq> None) (map snd (interfaces cfg)); here = with_address cfg in
      link_bind (if vlans = [] \<or> dry_run then link_return (Inr ())
                 else link_bind (require_link_root env) (\<lambda>_. for_each (ensure_vlan env) vlans)) (\<lambda>_.
      link_bind (link_return (stale_addresses cfg previous)) (\<lambda>stale.
      if here = [] \<and> stale = [] then link_return (Inr \<lparr>ifaddr_applied = False, ifaddr_message = ''No interface addresses to sync''\<rparr>)
      else if dry_run then link_return (Inr \<lparr>ifaddr_applied = False, ifaddr_message = sync_message ''Would set addresses: '' ''Would remove addresses: '' here stale\<rparr>)
      else link_bind (require_link_root env) (\<lambda>_.
           link_bind (for_each (remove_one env) stale) (\<lambda>_.
           link_bind (for_each (apply_one env) here) (\<lambda>_.
           link_return (Inr \<lparr>ifaddr_applied = True, ifaddr_message = sync_message ''Addresses applied: '' ''Addresses removed: '' here stale\<rparr>)))))))"

text \<open>
  Whatever the calls answer, and wherever a run stops, only the addresses this configuration sets and the stale ones
  are touched: a DHCP lease, or an address put on by hand, stays as it is.
\<close>

definition own_pairs :: "config \<Rightarrow> (string \<times> string) set" where
  "own_pairs cfg = (\<lambda>(i, a). (if_device i, a)) ` set (with_address cfg)"

definition untouched :: "string \<times> string \<Rightarrow> 'a link_step \<Rightarrow> bool" where
  "untouched p m \<longleftrightarrow> (\<forall>k. p \<in> lk_addresses (snd (m k)) \<longleftrightarrow> p \<in> lk_addresses k)"

lemma untouched_return [simp]: "untouched p (link_return r)"
  by (simp add: untouched_def link_return_def)

lemma untouched_bind [intro]: "untouched p m \<Longrightarrow> (\<And>a. untouched p (f a)) \<Longrightarrow> untouched p (link_bind m f)"
  unfolding untouched_def link_bind_def by (auto split: prod.splits sum.splits) (metis snd_conv)+

lemma untouched_reading: "(\<And>k. snd (m k) = k) \<Longrightarrow> untouched p m"
  by (simp add: untouched_def)

lemma untouched_ip: "(\<And>k. p \<in> lk_addresses (effect k) \<longleftrightarrow> p \<in> lk_addresses k) \<Longrightarrow> untouched p (link_ip env args effect)"
  by (auto simp: untouched_def link_ip_def split: tool_answer.splits)

lemma untouched_for_each: "(\<And>x. x \<in> set xs \<Longrightarrow> untouched p (f x)) \<Longrightarrow> untouched p (for_each f xs)"
proof (induction xs)
  case (Cons x xs)
  then have "untouched p (link_bind (f x) (\<lambda>_. for_each f xs))" by (intro untouched_bind) auto
  then show ?case by (simp add: untouched_def)
qed (simp add: untouched_def)

lemma untouched_up [simp]: "untouched p (bring_up env device)"
  unfolding bring_up_def by (rule untouched_ip) simp

lemma untouched_vlan [simp]: "untouched p (ensure_vlan env i)"
proof -
  have "untouched p (\<lambda>k. case ip_answer env [''link'', ''show'', ''dev'', device] k of
         No_binary \<Rightarrow> (Inl (ValueError ''FileNotFoundError''), k)
       | Proc rc out err \<Rightarrow> if rc \<noteq> 0 then link_ip env args (\<lambda>k. k\<lparr>lk_devices := insert device (lk_devices k)\<rparr>) k else (Inr (), k))" for device args
    by (auto simp: untouched_def link_ip_def split: tool_answer.splits)
  then show ?thesis unfolding ensure_vlan_def by (intro untouched_bind untouched_return untouched_up)
qed

lemma checked_ifname: "checked_argument (ifname (VStr s)) = Inr t \<Longrightarrow> t = s"
  by (auto simp: checked_argument_def ifname_def check_text_def refuse_unless_def split: sum.splits argument_error.splits if_splits)

lemma checked_interface: "checked_argument (validate_ipv4_interface (VStr s)) = Inr t \<Longrightarrow> t = s \<and> canonical4 s = Inr s"
  by (auto simp: checked_argument_def validate_ipv4_interface_def check_text_def refuse_unless_def canonical4_def split: sum.splits argument_error.splits if_splits option.splits)

lemma untouched_bind_return:
  "(\<And>a. r = Inr a \<Longrightarrow> untouched p (f a)) \<Longrightarrow> untouched p (link_bind (link_return r) f)"
  by (cases r) (auto simp: untouched_def link_bind_def link_return_def)

lemma untouched_apply: "p \<noteq> (if_device (fst ia), snd ia) \<Longrightarrow> untouched p (apply_one env ia)"
  unfolding apply_one_def
  by (intro untouched_bind_return untouched_bind [OF untouched_ip] untouched_up) (auto dest!: checked_ifname checked_interface)

lemma untouched_remove: "p \<noteq> q \<Longrightarrow> untouched p (remove_one env q)"
  unfolding remove_one_def
  by (intro untouched_bind_return untouched_bind [OF untouched_reading])
     (auto simp: link_return_def [abs_def] untouched_def [of _ "Pair _"] intro!: untouched_ip dest!: checked_ifname checked_interface)

theorem foreign_addresses_kept:
  assumes "stale_addresses cfg previous = Inr stale" and "p \<notin> set stale" and "p \<notin> own_pairs cfg"
  shows "p \<in> lk_addresses (snd (sync_addresses env cfg previous dry_run k)) \<longleftrightarrow> p \<in> lk_addresses k"
proof -
  have "untouched p (for_each (apply_one env) (with_address cfg))"
    by (intro untouched_for_each untouched_apply) (use assms(3) in \<open>force simp: own_pairs_def\<close>)
  moreover have "untouched p (for_each (remove_one env) stale)"
    by (intro untouched_for_each untouched_remove) (use assms(2) in auto)
  moreover have "untouched p (for_each (ensure_vlan env) vs)" for vs
    by (intro untouched_for_each untouched_vlan)
  ultimately have "untouched p (sync_addresses env cfg previous dry_run)"
    unfolding sync_addresses_def Let_def require_link_root_def
    by (intro untouched_bind untouched_bind_return) (auto simp: assms(1) intro!: untouched_bind)
  then show ?thesis by (simp add: untouched_def)
qed

text \<open>
  What the kernel shows is what is on the devices.  Then the addresses follow the configuration: however many
  applies there are, the devices carry the addresses of the last one, and what was there before the first and none of them
  set; nothing an earlier configuration set and the last does not have is left.
\<close>

definition shows_truth :: "link_env \<Rightarrow> bool" where
  "shows_truth env \<longleftrightarrow> (\<forall>device k xs. shown_on env device k = Inr xs \<longrightarrow> set xs = {a. (device, a) \<in> lk_addresses k})"

lemma link_bind_Inr:
  "link_bind m f k = (Inr b, k') \<longleftrightarrow> (\<exists>a k1. m k = (Inr a, k1) \<and> f a k1 = (Inr b, k'))"
  by (auto simp: link_bind_def split: prod.splits sum.splits)

lemma link_return_Inr [simp]: "link_return r k = (Inr a, k') \<longleftrightarrow> r = Inr a \<and> k' = k"
  by (auto simp: link_return_def)

lemma link_ip_Inr: "link_ip env args effect k = (Inr u, k') \<Longrightarrow> k' = effect k"
  by (auto simp: link_ip_def split: tool_answer.splits if_splits)

lemma untouched_addresses: "(\<And>p. untouched p m) \<Longrightarrow> m k = (r, k') \<Longrightarrow> lk_addresses k' = lk_addresses k"
  by (auto simp: untouched_def) (metis snd_conv)+

lemma apply_one_done:
  assumes "apply_one env ia k = (Inr u, k')"
  shows "lk_addresses k' = insert (if_device (fst ia), snd ia) (lk_addresses k)" and "canonical4 (snd ia) = Inr (snd ia)"
proof -
  from assms obtain device address k1 where d: "checked_argument (ifname (VStr (if_device (fst ia)))) = Inr device"
    and a: "checked_argument (validate_ipv4_interface (VStr (snd ia))) = Inr address"
    and k1: "k1 = k\<lparr>lk_addresses := insert (device, address) (lk_addresses k)\<rparr>" and up: "bring_up env device k1 = (Inr u, k')"
    by (auto simp: apply_one_def link_bind_Inr dest!: link_ip_Inr)
  from untouched_addresses [OF untouched_up up] k1 checked_ifname [OF d] checked_interface [OF a]
  show "lk_addresses k' = insert (if_device (fst ia), snd ia) (lk_addresses k)" "canonical4 (snd ia) = Inr (snd ia)" by simp_all
qed

lemma remove_one_done:
  assumes "remove_one env q k = (Inr u, k')" and "shows_truth env"
  shows "lk_addresses k' = lk_addresses k - {q}"
proof -
  from assms(1) obtain device address shown where d: "checked_argument (ifname (VStr (fst q))) = Inr device"
    and a: "checked_argument (validate_ipv4_interface (VStr (snd q))) = Inr address" and s: "shown_on env device k = Inr shown"
    and r: "(if address \<notin> set shown then link_return (Inr ())
      else link_ip env [''addr'', ''del'', address, ''dev'', device] (\<lambda>k. k\<lparr>lk_addresses := lk_addresses k - {(device, address)}\<rparr>)) k = (Inr u, k')"
    by (auto simp: remove_one_def link_bind_Inr)
  have q: "q = (device, address)" using checked_ifname [OF d] checked_interface [OF a] by (cases q) simp
  have "address \<in> set shown \<longleftrightarrow> q \<in> lk_addresses k" using assms(2) s unfolding shows_truth_def q by blast
  with r show ?thesis by (auto simp: q split: if_splits dest!: link_ip_Inr)
qed

lemma for_each_apply_done:
  assumes "for_each (apply_one env) ias k = (Inr u, k')"
  shows "lk_addresses k' = (\<lambda>(i, a). (if_device i, a)) ` set ias \<union> lk_addresses k \<and> (\<forall>(i, a)\<in>set ias. canonical4 a = Inr a)"
  using assms
proof (induction ias arbitrary: k)
  case (Cons ia ias)
  then obtain v k1 where "apply_one env ia k = (Inr v, k1)" "for_each (apply_one env) ias k1 = (Inr u, k')" by (auto simp: link_bind_Inr)
  with apply_one_done [of env ia k v k1] Cons.IH [of k1] show ?case by (cases ia) auto
qed simp

lemma for_each_remove_done:
  assumes "for_each (remove_one env) qs k = (Inr u, k')" and "shows_truth env"
  shows "lk_addresses k' = lk_addresses k - set qs"
  using assms(1)
proof (induction qs arbitrary: k)
  case (Cons q qs)
  then obtain v k1 where "remove_one env q k = (Inr v, k1)" "for_each (remove_one env) qs k1 = (Inr u, k')" by (auto simp: link_bind_Inr)
  with remove_one_done [of env q k v k1, OF _ assms(2)] Cons.IH [of k1] show ?case by auto
qed simp

lemma set_pairs_canonical:
  assumes "\<forall>(i, a)\<in>set ias. canonical4 a = Inr a"
  shows "fold_result (\<lambda>(i, a) acc. bind_result (canonical4 a) (\<lambda>c. Inr (acc @ [(if_device i, c)]))) ias acc = Inr (acc @ map (\<lambda>(i, a). (if_device i, a)) ias)"
  using assms by (induction ias arbitrary: acc) auto

lemma stale_canonical:
  assumes "\<forall>(i, a)\<in>set ias. canonical4 a = Inr a"
    and "fold_result (\<lambda>(i, a) stale. bind_result (canonical4 a) (\<lambda>c.
      Inr (if (if_device i, c) \<notin> wanted \<and> (if_device i, c) \<notin> set stale then stale @ [(if_device i, c)] else stale))) ias acc = Inr stale"
  shows "set stale = set acc \<union> ((\<lambda>(i, a). (if_device i, a)) ` set ias - wanted)"
  using assms by (induction ias arbitrary: acc) (auto split: if_splits)

lemma sync_addresses_done:
  assumes "sync_addresses env cfg previous False k = (Inr r, k')" and "shows_truth env"
  obtains stale where "stale_addresses cfg previous = Inr stale" and "lk_addresses k' = (lk_addresses k - set stale) \<union> own_pairs cfg"
    and "\<forall>(i, a)\<in>set (with_address cfg). canonical4 a = Inr a"
proof -
  have v: "lk_addresses k2 = lk_addresses k1" if "for_each (ensure_vlan env) vs k1 = (x, k2)" for vs k1 k2 and x :: "(ifaddr_error, unit) result"
    by (rule untouched_addresses [OF untouched_for_each that]) simp
  from assms(1) obtain k1 stale where k1: "lk_addresses k1 = lk_addresses k" and stale: "stale_addresses cfg previous = Inr stale"
    and rest: "with_address cfg = [] \<and> stale = [] \<and> k' = k1 \<or>
      (\<exists>u k2 w. for_each (remove_one env) stale k1 = (Inr u, k2) \<and> for_each (apply_one env) (with_address cfg) k2 = (Inr w, k'))"
    unfolding sync_addresses_def Let_def by (auto simp: link_bind_Inr require_link_root_def split: if_splits dest!: v)
  from rest have "lk_addresses k' = (lk_addresses k - set stale) \<union> own_pairs cfg \<and> (\<forall>(i, a)\<in>set (with_address cfg). canonical4 a = Inr a)"
    using for_each_apply_done for_each_remove_done [OF _ assms(2)] k1 by (fastforce simp: own_pairs_def)
  with stale show thesis by (intro that) auto
qed

inductive link_run :: "link_kernel \<Rightarrow> (string \<times> string) set \<Rightarrow> config option \<Rightarrow> link_kernel \<Rightarrow> bool" for k0 where
  start: "link_run k0 {} None k0"
| applied: "link_run k0 ever previous k \<Longrightarrow> shows_truth env \<Longrightarrow> sync_addresses env cfg previous False k = (Inr r, k')
    \<Longrightarrow> link_run k0 (ever \<union> own_pairs cfg) (Some cfg) k'"

theorem static_addresses_follow:
  assumes "link_run k0 ever previous k"
  shows "lk_addresses k = (lk_addresses k0 - ever) \<union> (case previous of None \<Rightarrow> {} | Some cfg \<Rightarrow> own_pairs cfg)
    \<and> (\<forall>cfg. previous = Some cfg \<longrightarrow> own_pairs cfg \<subseteq> ever \<and> (\<forall>(i, a)\<in>set (with_address cfg). canonical4 a = Inr a))"
  using assms
proof induction
  case (applied ever previous k env cfg r k')
  obtain stale where s: "stale_addresses cfg previous = Inr stale" "lk_addresses k' = (lk_addresses k - set stale) \<union> own_pairs cfg"
    and c: "\<forall>(i, a)\<in>set (with_address cfg). canonical4 a = Inr a" by (rule sync_addresses_done [OF applied(3,2)])
  have "set stale = (case previous of None \<Rightarrow> {} | Some old \<Rightarrow> own_pairs old - own_pairs cfg)"
  proof (cases previous)
    case (Some old)
    then have o: "\<forall>(i, a)\<in>set (with_address old). canonical4 a = Inr a" using applied.IH by blast
    have "set (map (\<lambda>(i, a). (if_device i, a)) (with_address cfg)) = own_pairs cfg" by (auto simp: own_pairs_def)
    with s(1) Some stale_canonical [OF o, of "own_pairs cfg" "[]" stale] show ?thesis
      by (simp add: stale_addresses_def set_pairs_def set_pairs_canonical [OF c] own_pairs_def)
  qed (use s(1) in \<open>simp add: stale_addresses_def\<close>)
  with s(2) applied.IH c show ?case by (auto split: option.splits)
qed simp

subsection \<open>Routing\<close>

text \<open>
  \<open>forwarding.enable\<close>: the switch is a file (\<open>None\<close>: it cannot be read), \<open>cannot_write\<close> what writing it raises.
\<close>

definition enable_forwarding :: "string option \<Rightarrow> string \<Rightarrow> bool \<Rightarrow> string option \<Rightarrow> (string, string) result \<times> string option" where
  "enable_forwarding cannot_write path dry_run switch =
     (if dry_run then (Inr ''Would turn IPv4 forwarding on (dry-run)'', switch)
      else case switch of
        None \<Rightarrow> (Inl (''cannot turn IPv4 forwarding on ('' @ path @ '')''), switch)
      | Some now \<Rightarrow>
          if strip now = ''1'' then (Inr ''IPv4 forwarding on'', switch)
          else (case cannot_write of
              Some e \<Rightarrow> (Inl (''cannot turn IPv4 forwarding on ('' @ path @ ''): '' @ e), switch)
            | None \<Rightarrow> (Inr ''IPv4 forwarding turned on'', Some (''1'' @ [LF]))))"

lemma forwarding_on:
  "enable_forwarding cannot_write path False switch = (Inr m, switch') \<Longrightarrow> \<exists>now. switch' = Some now \<and> strip now = ''1''"
  by (auto simp: enable_forwarding_def strip_def is_space_def LF_def in_range_def split: option.splits if_splits)

subsection \<open>The DHCP server\<close>

text \<open>\<open>json.dumps(value, indent=2)\<close> of text, numbers, lists and dictionaries with text keys.\<close>

definition json_char :: "char \<Rightarrow> string" where
  "json_char c =
     (let n = (of_char c :: nat); hex = (\<lambda>d. hex_char (int d)) in
      if c = CHR 0x22 then [CHR 0x5C, CHR 0x22]
      else if c = CHR 0x5C then [CHR 0x5C, CHR 0x5C]
      else if n = 8 then [CHR 0x5C, CHR ''b''] else if n = 9 then [CHR 0x5C, CHR ''t''] else if n = 10 then [CHR 0x5C, CHR ''n'']
      else if n = 12 then [CHR 0x5C, CHR ''f''] else if n = 13 then [CHR 0x5C, CHR ''r'']
      else if n < 32 \<or> 126 < n then [CHR 0x5C, CHR ''u'', CHR ''0'', CHR ''0'', hex (n div 16), hex (n mod 16)]
      else [c])"

definition json_string :: "string \<Rightarrow> string" where
  "json_string s = [CHR 0x22] @ concat (map json_char s) @ [CHR 0x22]"

definition json_block :: "string \<Rightarrow> string \<Rightarrow> nat \<Rightarrow> string list \<Rightarrow> string" where
  "json_block open' close n items =
     (if items = [] then open' @ close
      else let pad = (\<lambda>m. LF # replicate (2 * m) CHR '' '') in open' @ pad (Suc n) @ py_join ('','' @ pad (Suc n)) items @ pad n @ close)"

fun json_text :: "nat \<Rightarrow> pyval \<Rightarrow> string" where
  "json_text n VNone = ''null''"
| "json_text n (VBool b) = (if b then ''true'' else ''false'')"
| "json_text n (VInt i) = show_int i"
| "json_text n (VStr s) = json_string s"
| "json_text n (VList xs) = json_block ''['' '']'' n (map (json_text (Suc n)) xs)"
| "json_text n (VDict d) = json_block ''{'' ''}'' n (map (\<lambda>(k, v). (case k of VStr s \<Rightarrow> json_string s | _ \<Rightarrow> []) @ '': '' @ json_text (Suc n) v) d)"
| "json_text n (VOther s) = s"

datatype kea_error = KeaError string | KeaRaises string

definition interfaces_by_zone :: "config \<Rightarrow> (string, interface) dict" where
  "interfaces_by_zone cfg = fold (\<lambda>(_, i). AList.update (if_zone i) i) (interfaces cfg) []"

definition reservation_value :: "dhcp_reservation \<Rightarrow> pyval" where
  "reservation_value r = VDict ([(VStr ''hw-address'', VStr (res_mac_address r)), (VStr ''ip-address'', VStr (res_address r))] @
     (if res_hostname r = [] then [] else [(VStr ''hostname'', VStr (res_hostname r))]))"

definition option_value :: "string \<Rightarrow> string \<Rightarrow> pyval" where
  "option_value name data = VDict [(VStr ''name'', VStr name), (VStr ''data'', VStr data)]"

definition build_subnet :: "int \<times> nat \<Rightarrow> dhcp_pool \<Rightarrow> bool \<Rightarrow> pyval" where
  "build_subnet own pool router_is_dns =
     VDict [(VStr ''subnet'', VStr (show_network (interface_network own))),
       (VStr ''pools'', VList [VDict [(VStr ''pool'', VStr (range_start pool @ '' - '' @ range_end pool))]]),
       (VStr ''valid-lifetime'', VInt (lease_time pool)),
       (VStr ''option-data'', VList [option_value ''routers'' (show_ipv4 (fst own)),
         option_value ''domain-name-servers'' (py_join '', '' (if router_is_dns then [show_ipv4 (fst own)] else dns_servers pool))]),
       (VStr ''reservations'', VList (map reservation_value (reservations pool)))]"

definition serves_lan :: "config \<Rightarrow> bool" where
  "serves_lan cfg \<longleftrightarrow> adblock_enabled (adblocker cfg) \<and> serve_lan (adblocker cfg)"

definition kea_subnet :: "config \<Rightarrow> string \<times> dhcp_pool \<Rightarrow> string list \<times> pyval list \<Rightarrow> (kea_error, string list \<times> pyval list) result" where
  "kea_subnet cfg zp acc =
     (case map_of (interfaces_by_zone cfg) (fst zp) of
        None \<Rightarrow> Inl (KeaRaises ''KeyError'')
      | Some i \<Rightarrow> (case if_address i of None \<Rightarrow> Inl (KeaRaises ''AddressValueError'')
          | Some a \<Rightarrow> (case ipv4_interface a of None \<Rightarrow> Inl (KeaRaises ''AddressValueError'')
              | Some own \<Rightarrow> Inr (fst acc @ [if_device i], snd acc @ [build_subnet own (snd zp) (serves_lan cfg)]))))"

definition build_kea_config :: "config \<Rightarrow> (kea_error, pyval) result" where
  "build_kea_config cfg =
     bind_result (fold_result (kea_subnet cfg) (dhcp_zones cfg) ([], [])) (\<lambda>(devices, subnets).
     Inr (VDict [(VStr ''Dhcp4'', VDict
       [(VStr ''interfaces-config'', VDict [(VStr ''interfaces'', VList (map VStr devices))]),
        (VStr ''lease-database'', VDict [(VStr ''type'', VStr ''memfile''), (VStr ''lfc-interval'', VInt 3600)]),
        (VStr ''valid-lifetime'', VInt 3600),
        (VStr ''subnet4'', VList subnets)])]))"

definition render_kea_config :: "config \<Rightarrow> (kea_error, string) result" where
  "render_kea_config cfg = bind_result (build_kea_config cfg) (\<lambda>v. Inr (json_text 0 v @ [LF]))"

record kea_env =
  kea_test :: "string \<Rightarrow> tool_answer"
  kea_restart :: tool_answer
  kea_root :: bool

definition run_kea_test :: "kea_env \<Rightarrow> string \<Rightarrow> (kea_error, unit) result" where
  "run_kea_test env content =
     (case kea_test env content of
        No_binary \<Rightarrow> Inl (KeaError ''binary not found; install kea-dhcp4-server'')
      | Proc rc out err \<Rightarrow> if rc = 0 then Inr ()
          else Inl (KeaError (if strip err \<noteq> [] then strip err else if strip out \<noteq> [] then strip out else ''kea-dhcp4 -t exited with status '' @ show_int rc)))"

definition restart_kea_service :: "kea_env \<Rightarrow> (kea_error, unit) result" where
  "restart_kea_service env =
     (case kea_restart env of
        No_binary \<Rightarrow> Inl (KeaError ''systemctl not found'')
      | Proc rc out err \<Rightarrow> if rc = 0 then Inr () else Inl (KeaError (if strip err \<noteq> [] then strip err else ''failed to restart kea-dhcp4-server'')))"

record kea_result =
  kea_applied :: bool
  kea_message :: string

text \<open>The file after it, whatever it returns.\<close>

definition apply_dhcp_config :: "kea_env \<Rightarrow> config \<Rightarrow> bool \<Rightarrow> string \<Rightarrow> files \<Rightarrow> (kea_error, kea_result) result \<times> files" where
  "apply_dhcp_config env cfg dry_run path fs =
     (if dhcp_zones cfg = [] then (Inr \<lparr>kea_applied = False, kea_message = ''No DHCP zones configured''\<rparr>, fs)
      else case bind_result (render_kea_config cfg) (\<lambda>content. bind_result (run_kea_test env content) (\<lambda>_. Inr content)) of
        Inl e \<Rightarrow> (Inl e, fs)
      | Inr content \<Rightarrow>
          if dry_run then (Inr \<lparr>kea_applied = False, kea_message = ''Kea config syntax OK (dry-run, not applied)''\<rparr>, fs)
          else if \<not> kea_root env then (Inl (KeaError ''Applying the DHCP config requires root privileges.''), fs)
          else (bind_result (restart_kea_service env) (\<lambda>_. Inr \<lparr>kea_applied = True, kea_message = ''Kea DHCP config applied ('' @ path @ '')''\<rparr>),
                fs(path := Some content)))"

text \<open>
  For a configuration the loader accepts, a subnet is built for every pool, in order: of the network of the one interface
  of its zone, with that interface's address as the router.
\<close>

lemma interfaces_by_zone_only:
  assumes "zone_interfaces (interfaces cfg) z = [i]"
  shows "map_of (interfaces_by_zone cfg) z = Some i"
proof -
  have "map_of (fold (\<lambda>(_, i). AList.update (if_zone i) i) ifs m) z =
      (if zone_interfaces ifs z = [] then map_of m z else Some (last (zone_interfaces ifs z)))" for ifs :: "(string \<times> interface) list" and m
    by (induction ifs arbitrary: m) (auto simp: zone_interfaces_def update_conv')
  from this [of "interfaces cfg" "[]"] assms show ?thesis by (simp add: interfaces_by_zone_def)
qed

lemma kea_subnets_built:
  assumes "\<forall>(z, p)\<in>set ps. pool_interface (interfaces cfg) z = Inr (own z)"
  shows "\<exists>devices. fold_result (kea_subnet cfg) ps acc = Inr (fst acc @ devices, snd acc @ map (\<lambda>(z, p). build_subnet (own z) p (serves_lan cfg)) ps)"
  using assms
proof (induction ps arbitrary: acc)
  case (Cons zp ps)
  obtain z p where zp: "zp = (z, p)" by fastforce
  with Cons.prems obtain i a where i: "zone_interfaces (interfaces cfg) z = [i]" and a: "if_address i = Some a" "ipv4_interface a = Some (own z)"
    by (auto simp: pool_interface_def split: list.splits option.splits)
  have "kea_subnet cfg zp acc = Inr (fst acc @ [if_device i], snd acc @ [build_subnet (own z) p (serves_lan cfg)])"
    by (simp add: kea_subnet_def zp interfaces_by_zone_only [OF i] a)
  moreover obtain devices where "fold_result (kea_subnet cfg) ps (fst acc @ [if_device i], snd acc @ [build_subnet (own z) p (serves_lan cfg)]) =
      Inr ((fst acc @ [if_device i]) @ devices, (snd acc @ [build_subnet (own z) p (serves_lan cfg)]) @ map (\<lambda>(z, p). build_subnet (own z) p (serves_lan cfg)) ps)"
    using Cons.IH [of "(fst acc @ [if_device i], snd acc @ [build_subnet (own z) p (serves_lan cfg)])"] Cons.prems by auto
  ultimately show ?case by (auto simp: zp)
qed (rule exI [of _ "[]"], simp)

theorem loaded_config_serves_dhcp:
  assumes "\<forall>(z, p)\<in>set (dhcp_zones cfg). pool_ok (interfaces cfg) z p"
  obtains v own where "build_kea_config cfg = Inr v"
    and "json_items (json_get (json_get v ''Dhcp4'') ''subnet4'') = map (\<lambda>(z, p). build_subnet (own z) p (serves_lan cfg)) (dhcp_zones cfg)"
    and "\<forall>(z, p)\<in>set (dhcp_zones cfg). pool_interface (interfaces cfg) z = Inr (own z)"
proof -
  define own where "own z = (case pool_interface (interfaces cfg) z of Inr o' \<Rightarrow> o' | Inl _ \<Rightarrow> (0, 0))" for z
  have own: "\<forall>(z, p)\<in>set (dhcp_zones cfg). pool_interface (interfaces cfg) z = Inr (own z)"
    using assms by (auto simp: own_def pool_ok_def)
  then obtain devices where "fold_result (kea_subnet cfg) (dhcp_zones cfg) ([], []) =
      Inr (devices, map (\<lambda>(z, p). build_subnet (own z) p (serves_lan cfg)) (dhcp_zones cfg))" using kea_subnets_built [OF own, of "([], [])"] by auto
  then show thesis by (intro that [of _ own, OF _ _ own]) (auto simp: build_kea_config_def json_get_def json_items_def)
qed

text \<open>
  The router's own address may lie inside a pool: the loader compares it with the ends of the range only, so the
  server may lease it to a client.
\<close>

lemma gateway_inside_pool:
  "parse_dhcp (VDict [(VStr ''lan'', VDict [(VStr ''range_start'', VStr ''10.0.0.50''), (VStr ''range_end'', VStr ''10.0.0.200''), (VStr ''dns_servers'', VList [VStr ''9.9.9.9''])])])
     [(''lan'', \<lparr>zone_name = ''lan'', zone_description = []\<rparr>)] [(''lan'', (interface0 ''eth1'' ''lan'')\<lparr>if_address := Some ''10.0.0.100/24''\<rparr>)] =
   Inr [(''lan'', \<lparr>pool_zone = ''lan'', range_start = ''10.0.0.50'', range_end = ''10.0.0.200'', dns_servers = [''9.9.9.9''], lease_time = 3600, reservations = []\<rparr>)]"
  by code_simp

subsection \<open>What the validators let through\<close>

text \<open>\<open>validate.ipv6\<close>, the last of the validators of \<open>validate.py\<close>, and all eleven of them.\<close>

definition validate_ipv6_address :: "pyval \<Rightarrow> (argument_error, string) result" where
  "validate_ipv6_address v = bind_result (check_text v ''IPv6 address'') (\<lambda>s.
     refuse_unless (case Ip6_Text.parse_ipv6 s of None \<Rightarrow> False | Some (x, scope) \<Rightarrow> show_ipv6 x = s \<and> scope = None) ''IPv6 address'' s)"

definition validators :: "(pyval \<Rightarrow> (argument_error, string) result) list" where
  "validators = [ifname, validate_ipv4, validate_ipv6_address, validate_ipv4_interface, validate_mac, systemd_unit, systemctl_action,
     validate_version, github_repo, block_device, hostname]"

lemma hex_char_alnum: "0 \<le> d \<Longrightarrow> d < 16 \<Longrightarrow> is_alnum_char (hex_char d)"
proof -
  assume "0 \<le> d" "d < 16"
  then have "d \<in> {0, 1, 2, 3, 4, 5, 6, 7, 8, 9, 10, 11, 12, 13, 14, 15}" unfolding insert_iff empty_iff by presburger
  then show ?thesis
    by (elim insertE emptyE) (simp_all add: hex_char_def is_alnum_char_def is_digit_def is_lower_def is_upper_def in_range_def)
qed

lemma show_ipv6_safe: "safe_argument (show_ipv6 x)"
proof -
  have h: "is_alnum_char c" if "c \<in> set (show_hex n)" "n \<in> set (hextets x)" for c n
    using that show_hex_chars [of n c] hextets_range [of n x] hex_char_alnum by blast
  have p: "is_alnum_char c \<or> c = CHR '':''" if "c \<in> set (show_ipv6 x)" for c
    using that unfolding show_ipv6_def Let_def
    by (auto dest!: join_chars dest: h h [OF _ in_set_takeD] h [OF _ in_set_dropD] split: if_splits prod.splits)
  moreover have "show_ipv6 x \<noteq> []"
  proof -
    obtain ps where ps: "show_ipv6 x = py_join '':'' ps" "3 \<le> length ps" by (rule show_ipv6_parts [of x]) blast
    then obtain a b qs where "ps = a # b # qs" by (cases ps rule: remdups_adj.cases) auto
    with ps(1) show ?thesis by simp
  qed
  moreover have "CHR ''-'' \<notin> set (show_ipv6 x)" using p [of "CHR ''-''"] by auto
  ultimately have "hd (show_ipv6 x) \<noteq> CHR ''-''" by (metis hd_in_set)
  with p \<open>show_ipv6 x \<noteq> []\<close> show ?thesis by (auto simp: safe_argument_def list_all_iff plain_char_def)
qed

lemma show_interface_safe: "safe_argument (show_interface i)"
proof -
  have d: "is_alnum_char c" if "c \<in> set (show_nat n)" for c n using show_nat_chars [OF that] by blast
  have "is_alnum_char c \<or> c \<in> set ''./''" if "c \<in> set (show_interface i)" for c
    using that d by (auto simp: show_interface_def show_ipv4_def dest!: join_chars)
  then have p: "c \<noteq> CHR ''-'' \<and> plain_char c" if "c \<in> set (show_interface i)" for c
    using that by (fastforce simp: plain_char_def)
  have "show_interface i \<noteq> []" by (simp add: show_interface_def)
  with p hd_in_set [of "show_interface i"] show ?thesis by (auto simp: safe_argument_def list_all_iff)
qed

text \<open>
  C3: whatever one of the eleven validators lets through is safe on a command line and in an nft script: it is not empty, cannot be read as
  an option, and has no space, line break, quote or other special character.  This is for text of 8-bit characters: of
  other text only \<open>version\<close> lets any through, since its \<open>\d\<close> also takes the decimal digits of other scripts.
\<close>

theorem validated_safe:
  assumes "f \<in> set validators" and "f v = Inr s"
  shows "safe_argument s"
  using assms ifname_safe ipv4_address_safe mac_safe unit_safe systemctl_safe version_safe repo_safe block_device_safe hostname_safe
    show_ipv6_safe show_interface_safe
  by (auto simp: validators_def validator_defs validate_ipv6_address_def validate_ipv4_interface_def split: if_splits option.splits)

theorem validated_safe_witness: "hostname (VStr ''fr-os.lan'') = Inr ''fr-os.lan'' \<and> safe_argument ''fr-os.lan''"
proof -
  have h: "hostname (VStr ''fr-os.lan'') = Inr ''fr-os.lan''"
    by (simp add: hostname_def check_text_def refuse_unless_def host_label_re_def is_alnum_char_def is_digit_def is_lower_def is_upper_def
      in_range_def)
  moreover have "hostname \<in> set validators" by (simp add: validators_def)
  ultimately show ?thesis using validated_safe by blast
qed

end
