(* ===== verification/Wireguard.thy ===== *)
theory Wireguard
  imports Link_Setup
begin

text \<open>
  The WireGuard VPN (\<open>src/src/frfw/wireguard.py\<close>): the router's key, the configuration of \<open>wg\<close> and of a client, the
  addresses of the peers, and the step of an apply that brings the tunnel up.

  \<open>wg_sys\<close> is what the step changes: the key file, whether \<open>wg0\<close> is there and up, its configuration and addresses, the state of
  \<open>ipv6.py\<close>, and a record of the calls with what was put on their standard input.  \<open>ip\<close>, \<open>wg\<close> and X25519 are parameters
  (\<open>wg_env\<close>): \<open>tool\<close> answers a call, \<open>public_of\<close> is the public key of a private key's text (\<open>None\<close>: it is none), \<open>fresh_key\<close> the key generated.
\<close>

subsection \<open>Keys\<close>

datatype wg_error = WireguardError string | WgRaises string | WgIpv6 ipv6_error

record wg_sys =
  wg_key :: "string option"
  wg_exists :: bool
  wg_is_up :: bool
  wg_conf :: string
  wg_addresses :: "string list"
  wg_addresses6 :: "string list"
  wg_v6 :: ipv6_sys
  wg_calls :: "(string list \<times> string option) list"

record wg_env =
  tool :: "string list \<Rightarrow> string option \<Rightarrow> wg_sys \<Rightarrow> tool_answer"
  public_of :: "string \<Rightarrow> string option"
  fresh_key :: string
  wg_ipv6_env :: ipv6_env

type_synonym 'a wg_step = "wg_sys \<Rightarrow> (wg_error, 'a) result \<times> wg_sys"

definition wg_bind :: "'a wg_step \<Rightarrow> ('a \<Rightarrow> 'b wg_step) \<Rightarrow> 'b wg_step" where
  "wg_bind m f s = (case m s of (Inl e, s1) \<Rightarrow> (Inl e, s1) | (Inr a, s1) \<Rightarrow> f a s1)"

definition wg_return :: "(wg_error, 'a) result \<Rightarrow> 'a wg_step" where
  "wg_return r s = (r, s)"

definition wg_run :: "wg_env \<Rightarrow> string list \<Rightarrow> string option \<Rightarrow> (wg_sys \<Rightarrow> wg_sys) \<Rightarrow> string wg_step" where
  "wg_run env argv input effect s =
     (let s1 = s\<lparr>wg_calls := wg_calls s @ [(argv, input)]\<rparr> in
      case tool env argv input s of
        No_binary \<Rightarrow> (Inl (WireguardError (Py_Text.py_repr (hd argv) @ '' not found; install the '' @
          (if hd argv = ''wg'' then ''wireguard-tools'' else ''iproute2'') @ '' package'')), s1)
      | Proc rc out err \<Rightarrow>
          if rc \<noteq> 0 then (Inl (WireguardError (if strip err \<noteq> [] then strip err else hd argv @ '' exited with status '' @ show_int rc)), s1)
          else (Inr out, effect s1))"

definition public_key_of :: "wg_env \<Rightarrow> string \<Rightarrow> (wg_error, string) result" where
  "public_key_of env key = (case public_of env key of None \<Rightarrow> Inl (WireguardError ''not a WireGuard private key'') | Some p \<Rightarrow> Inr p)"

definition ensure_private_key :: "wg_env \<Rightarrow> string wg_step" where
  "ensure_private_key env s =
     (case wg_key s of
        Some content \<Rightarrow> (bind_result (public_key_of env (strip content)) (\<lambda>_. Inr (strip content)), s)
      | None \<Rightarrow> (Inr (fresh_key env), s\<lparr>wg_key := Some (fresh_key env @ [LF])\<rparr>))"

definition router_public_key :: "wg_env \<Rightarrow> wg_sys \<Rightarrow> string option" where
  "router_public_key env s = (case wg_key s of None \<Rightarrow> None | Some content \<Rightarrow> public_of env (strip content))"

subsection \<open>Configuration\<close>

definition router_address6 :: "ip_network \<Rightarrow> int" where
  "router_address6 prefix = net_address (tunnel_network6 prefix) + 1"

definition interface4 :: "string \<Rightarrow> (wg_error, int \<times> nat) result" where
  "interface4 a = (case ipv4_interface a of None \<Rightarrow> Inl (WgRaises ''ValueError'') | Some i \<Rightarrow> Inr i)"

definition wg_network :: "wireguard_config \<Rightarrow> (wg_error, ip_network) result" where
  "wg_network wg = bind_result (interface4 (wg_address wg)) (\<lambda>i. Inr (interface_network i))"

definition peer_number6 :: "wireguard_config \<Rightarrow> string \<Rightarrow> ip_network \<Rightarrow> (wg_error, int) result" where
  "peer_number6 wg address prefix =
     bind_result (interface4 address) (\<lambda>i.
     bind_result (wg_network wg) (\<lambda>n.
     Inr (net_address (tunnel_network6 prefix) + (fst i - net_address n))))"

definition peer_address6 :: "wireguard_config \<Rightarrow> string \<Rightarrow> ip_network \<Rightarrow> (wg_error, string) result" where
  "peer_address6 wg address prefix = bind_result (peer_number6 wg address prefix) (\<lambda>x. Inr (show_ipv6 x @ ''/128''))"

definition both_addresses :: "wireguard_config \<Rightarrow> string \<Rightarrow> ip_network option \<Rightarrow> (wg_error, string) result" where
  "both_addresses wg address ula =
     (case ula of None \<Rightarrow> Inr address | Some p \<Rightarrow> bind_result (peer_address6 wg address p) (\<lambda>a6. Inr (address @ '', '' @ a6)))"

definition peer_lines :: "wireguard_config \<Rightarrow> ip_network option \<Rightarrow> wireguard_peer \<Rightarrow> string list \<Rightarrow> (wg_error, string list) result" where
  "peer_lines wg ula peer lines =
     bind_result (both_addresses wg (peer_address peer) ula) (\<lambda>allowed.
     Inr (lines @ [[], ''# '' @ peer_name peer, ''[Peer]'', ''PublicKey = '' @ peer_public_key peer, ''AllowedIPs = '' @ allowed]))"

definition render_conf :: "wireguard_config \<Rightarrow> string \<Rightarrow> ip_network option \<Rightarrow> (wg_error, string) result" where
  "render_conf wg private_key ula =
     bind_result (fold_result (peer_lines wg ula) (wg_peers wg)
       [''[Interface]'', ''PrivateKey = '' @ private_key, ''ListenPort = '' @ show_nat (wg_listen_port wg)]) (\<lambda>lines.
     Inr (unlines lines))"

text \<open>\<open>IPv4Network.hosts()\<close>\<close>

definition network_hosts :: "ip_network \<Rightarrow> int list" where
  "network_hosts n =
     (if net_prefixlen n = 32 then [net_address n]
      else if net_prefixlen n = 31 then [net_address n .. net_broadcast n]
      else [net_address n + 1 .. net_broadcast n - 1])"

definition used_addresses :: "wireguard_config \<Rightarrow> (wg_error, int list) result" where
  "used_addresses wg =
     fold_result (\<lambda>a used. bind_result (interface4 a) (\<lambda>i. Inr (used @ [fst i]))) (map peer_address (wg_peers wg) @ [wg_address wg]) []"

definition next_free_address :: "wireguard_config \<Rightarrow> (wg_error, string) result" where
  "next_free_address wg =
     bind_result (used_addresses wg) (\<lambda>used.
     bind_result (wg_network wg) (\<lambda>n.
     case List.find (\<lambda>ip. ip \<notin> set used) (network_hosts n) of
       Some ip \<Rightarrow> Inr (show_ipv4 ip @ ''/32'')
     | None \<Rightarrow> Inl (WireguardError (''no free address left in '' @ show_network n))))"

definition add_network :: "string \<Rightarrow> string list \<Rightarrow> string list" where
  "add_network net nets = (if net \<in> set nets then nets else nets @ [net])"

definition lan_network :: "config \<Rightarrow> interface \<Rightarrow> string list \<Rightarrow> (wg_error, string list) result" where
  "lan_network cfg i nets =
     (case if_address i of None \<Rightarrow> Inr nets
      | Some a \<Rightarrow>
          if a \<noteq> [] \<and> if_zone i \<notin> set (internet_facing_zones (zones cfg) (nat_cfg cfg))
          then bind_result (interface4 a) (\<lambda>x. Inr (add_network (show_network (interface_network x)) nets)) else Inr nets)"

definition split_tunnel_networks :: "config \<Rightarrow> ip_network option \<Rightarrow> (wg_error, string list) result" where
  "split_tunnel_networks cfg ula =
     bind_result (wg_network (wireguard cfg)) (\<lambda>own.
     bind_result (fold_result (lan_network cfg) (sort_key if_name (map snd (interfaces cfg))) [show_network own]) (\<lambda>nets.
     case ula of
       None \<Rightarrow> Inr nets
     | Some p \<Rightarrow>
         (let nets6 = nets @ [show_network (tunnel_network6 p)] in
          Inr (if tunnel_served cfg
               then fold (\<lambda>(_, _, address). case ipv6_interface address of None \<Rightarrow> id | Some (x, _, n) \<Rightarrow> add_network (show_network (host_network6 x n)))
                 (ula_addresses cfg (Some p)) nets6
               else nets6))))"

definition FULL_TUNNEL :: string where "FULL_TUNNEL = ''0.0.0.0/0, ::/0''"

definition client_config :: "config \<Rightarrow> string \<Rightarrow> string \<Rightarrow> string \<Rightarrow> bool \<Rightarrow> ip_network option \<Rightarrow> (wg_error, string) result" where
  "client_config cfg private_key address router_key full_tunnel ula =
     (let wg = wireguard cfg; endpoint = (if wg_endpoint wg = [] then ''YOUR-ROUTER-ADDRESS'' else wg_endpoint wg) in
      bind_result (if full_tunnel then Inr FULL_TUNNEL else bind_result (split_tunnel_networks cfg ula) (\<lambda>ns. Inr (py_join '', '' ns))) (\<lambda>allowed.
      bind_result (both_addresses wg address ula) (\<lambda>addresses.
      Inr (py_join [LF] [''[Interface]'', ''PrivateKey = '' @ private_key, ''Address = '' @ addresses, [], ''[Peer]'', ''PublicKey = '' @ router_key,
        ''Endpoint = '' @ endpoint @ '':'' @ show_nat (wg_listen_port wg), ''AllowedIPs = '' @ allowed, ''PersistentKeepalive = 25'', []]))))"

subsection \<open>The step of an apply\<close>

definition LINK_SHOW :: "string list" where "LINK_SHOW = [''ip'', ''link'', ''show'', ''dev'', WIREGUARD_IFACE]"

definition link_exists :: "wg_env \<Rightarrow> bool wg_step" where
  "link_exists env s =
     (let s1 = s\<lparr>wg_calls := wg_calls s @ [(LINK_SHOW, None)]\<rparr> in
      case tool env LINK_SHOW None s of
        No_binary \<Rightarrow> (Inl (WireguardError (Py_Text.py_repr ''ip'' @ '' not found; install the iproute2 package'')), s1)
      | Proc rc out err \<Rightarrow> (Inr (rc = 0), s1))"

definition wg_sysctls :: "wg_env \<Rightarrow> (string, string option) dict \<Rightarrow> unit wg_step" where
  "wg_sysctls env settings s =
     (case write_sysctls (wg_ipv6_env env) settings (wg_v6 s) of
        (Inl e, v) \<Rightarrow> (Inl (WgIpv6 e), s\<lparr>wg_v6 := v\<rparr>) | (Inr u, v) \<Rightarrow> (Inr u, s\<lparr>wg_v6 := v\<rparr>))"

definition tunnel_prefix :: "wg_env \<Rightarrow> config \<Rightarrow> ip_network option wg_step" where
  "tunnel_prefix env cfg s =
     (if \<not> kernel_has_ipv6 (wg_ipv6_env env) then (Inr None, s)
      else let (prefix, f) = ensure_ula_prefix (random_bits (wg_ipv6_env env)) cfg (v6_state (wg_v6 s))
           in (Inr prefix, s\<lparr>wg_v6 := (wg_v6 s)\<lparr>v6_state := f\<rparr>\<rparr>))"

text \<open>\<open>parts[parts.index(word) + 1]\<close> of a line that holds the word.\<close>

fun field_after :: "string \<Rightarrow> string list \<Rightarrow> (wg_error, string option) result" where
  "field_after keyword [] = Inr None"
| "field_after keyword (p # ps) =
     (if p \<noteq> keyword then field_after keyword ps else case ps of [] \<Rightarrow> Inl (WgRaises ''IndexError'') | q # _ \<Rightarrow> Inr (Some q))"

text \<open>Addresses of the interface other than the wanted one come off: \<open>is_wanted\<close> reads an address of its family (\<open>None\<close>: \<open>ValueError\<close>).\<close>

fun take_others_off :: "wg_env \<Rightarrow> string \<Rightarrow> (string \<Rightarrow> bool option) \<Rightarrow> string list \<Rightarrow> (string \<Rightarrow> wg_sys \<Rightarrow> wg_sys) \<Rightarrow> string list \<Rightarrow> unit wg_step" where
  "take_others_off env keyword is_wanted ip drop_address [] s = (Inr (), s)"
| "take_others_off env keyword is_wanted ip drop_address (line # rest) s =
     (case field_after keyword (split_ws line) of
        Inl e \<Rightarrow> (Inl e, s)
      | Inr None \<Rightarrow> take_others_off env keyword is_wanted ip drop_address rest s
      | Inr (Some current) \<Rightarrow>
          (case is_wanted current of
             None \<Rightarrow> (Inl (WgRaises ''ValueError''), s)
           | Some True \<Rightarrow> take_others_off env keyword is_wanted ip drop_address rest s
           | Some False \<Rightarrow> wg_bind (wg_run env (ip @ [''addr'', ''del'', current, ''dev'', WIREGUARD_IFACE]) None (drop_address current))
               (\<lambda>_. take_others_off env keyword is_wanted ip drop_address rest) s))"

definition drop4 :: "string \<Rightarrow> wg_sys \<Rightarrow> wg_sys" where
  "drop4 a s = s\<lparr>wg_addresses := filter (\<lambda>b. b \<noteq> a) (wg_addresses s)\<rparr>"

definition put4 :: "string \<Rightarrow> wg_sys \<Rightarrow> wg_sys" where
  "put4 a s = s\<lparr>wg_addresses := (if a \<in> set (wg_addresses s) then wg_addresses s else wg_addresses s @ [a])\<rparr>"

definition drop6 :: "string \<Rightarrow> wg_sys \<Rightarrow> wg_sys" where
  "drop6 a s = s\<lparr>wg_addresses6 := filter (\<lambda>b. b \<noteq> a) (wg_addresses6 s)\<rparr>"

definition put6 :: "string \<Rightarrow> wg_sys \<Rightarrow> wg_sys" where
  "put6 a s = s\<lparr>wg_addresses6 := (if a \<in> set (wg_addresses6 s) then wg_addresses6 s else wg_addresses6 s @ [a])\<rparr>"

definition address4_step :: "wg_env \<Rightarrow> int \<times> nat \<Rightarrow> unit wg_step" where
  "address4_step env wanted =
     wg_bind (wg_run env [''ip'', ''-o'', ''-4'', ''addr'', ''show'', ''dev'', WIREGUARD_IFACE] None id) (\<lambda>shown.
     wg_bind (take_others_off env ''inet'' (\<lambda>c. map_option (\<lambda>i. i = wanted) (ipv4_interface c)) [''ip''] drop4 (splitlines shown)) (\<lambda>_.
     wg_bind (wg_run env [''ip'', ''addr'', ''replace'', show_interface wanted, ''dev'', WIREGUARD_IFACE] None (put4 (show_interface wanted))) (\<lambda>_.
     wg_return (Inr ()))))"

definition address6_text :: "ip_network \<Rightarrow> string" where
  "address6_text ula = show_ipv6 (router_address6 ula) @ ''/64''"

definition address6_step :: "wg_env \<Rightarrow> ip_network option \<Rightarrow> string wg_step" where
  "address6_step env ula =
     (case ula of None \<Rightarrow> wg_return (Inr [])
      | Some p \<Rightarrow>
          wg_bind (wg_sysctls env [(sysctl_key ''ipv6'' WIREGUARD_IFACE ''disable_ipv6'', Some ''0''), (''ipv6/conf/all/forwarding'', Some ''1'')]) (\<lambda>_.
          wg_bind (wg_run env [''ip'', ''-o'', ''-6'', ''addr'', ''show'', ''dev'', WIREGUARD_IFACE, ''scope'', ''global''] None id) (\<lambda>shown.
          wg_bind (take_others_off env ''inet6'' (\<lambda>c. map_option (\<lambda>i. i = (router_address6 p, None, 64)) (ipv6_interface c)) [''ip'', ''-6''] drop6 (splitlines shown)) (\<lambda>_.
          wg_bind (wg_run env [''ip'', ''-6'', ''addr'', ''replace'', address6_text p, ''dev'', WIREGUARD_IFACE, ''nodad''] None (put6 (address6_text p))) (\<lambda>_.
          wg_return (Inr (''; IPv6 '' @ address6_text p @ '' in the tunnel'')))))))"

text \<open>With the key read: everything from the prefix of the tunnel on.\<close>

definition bring_tunnel_up :: "wg_env \<Rightarrow> config \<Rightarrow> string \<Rightarrow> string \<Rightarrow> string wg_step" where
  "bring_tunnel_up env cfg summary key =
     wg_bind (tunnel_prefix env cfg) (\<lambda>ula.
     wg_bind (link_exists env) (\<lambda>there.
     wg_bind (if there then wg_return (Inr []) else wg_run env [''ip'', ''link'', ''add'', ''dev'', WIREGUARD_IFACE, ''type'', ''wireguard''] None (\<lambda>s. s\<lparr>wg_exists := True\<rparr>)) (\<lambda>_.
     wg_bind (wg_return (render_conf (wireguard cfg) key ula)) (\<lambda>conf.
     wg_bind (wg_run env [''wg'', ''syncconf'', WIREGUARD_IFACE, ''/dev/stdin''] (Some conf) (\<lambda>s. s\<lparr>wg_conf := conf\<rparr>)) (\<lambda>_.
     wg_bind (wg_return (interface4 (wg_address (wireguard cfg)))) (\<lambda>wanted.
     wg_bind (address4_step env wanted) (\<lambda>_.
     wg_bind (address6_step env ula) (\<lambda>more.
     wg_bind (wg_run env [''ip'', ''link'', ''set'', ''dev'', WIREGUARD_IFACE, ''up''] None (\<lambda>s. s\<lparr>wg_is_up := True\<rparr>)) (\<lambda>_.
     wg_return (Inr (''WireGuard up: '' @ summary @ more)))))))))))"

definition wg_up :: "wg_env \<Rightarrow> config \<Rightarrow> string \<Rightarrow> string wg_step" where
  "wg_up env cfg summary = wg_bind (ensure_private_key env) (bring_tunnel_up env cfg summary)"

definition wg_off :: "wg_env \<Rightarrow> config \<Rightarrow> string wg_step" where
  "wg_off env cfg =
     wg_bind (link_exists env) (\<lambda>there.
     if \<not> there then wg_return (Inr ''WireGuard off'')
     else wg_bind (wg_run env [''ip'', ''link'', ''del'', ''dev'', WIREGUARD_IFACE] None
            (\<lambda>s. s\<lparr>wg_exists := False, wg_is_up := False, wg_conf := [], wg_addresses := [], wg_addresses6 := []\<rparr>)) (\<lambda>_.
          wg_bind (if kernel_has_ipv6 (wg_ipv6_env env) then wg_sysctls env (forwarding_setting cfg) else wg_return (Inr ())) (\<lambda>_.
          wg_return (Inr (''WireGuard off: '' @ WIREGUARD_IFACE @ '' removed'')))))"

definition wg_sync :: "wg_env \<Rightarrow> config \<Rightarrow> bool \<Rightarrow> string wg_step" where
  "wg_sync env cfg dry_run =
     (let wg = wireguard cfg;
          summary = WIREGUARD_IFACE @ '' '' @ wg_address wg @ '', UDP '' @ show_nat (wg_listen_port wg) @ '', '' @ show_nat (length (wg_peers wg)) @ '' peer(s)'' in
      if \<not> wg_enabled wg then (if dry_run then wg_return (Inr ''WireGuard off (dry-run: nothing checked)'') else wg_off env cfg)
      else if dry_run then wg_return (Inr (''WireGuard: would bring up '' @ summary))
      else wg_up env cfg summary)"

subsection \<open>Status\<close>

record wg_peer_status =
  ps_endpoint :: string
  ps_handshake :: int
  ps_rx_bytes :: int
  ps_tx_bytes :: int

record wg_status =
  wgs_public_key :: "string option"
  wgs_up :: bool
  wgs_peers :: "(string, wg_peer_status) dict"

definition field_number :: "string \<Rightarrow> (wg_error, int) result" where
  "field_number s = (if s = [] then Inr 0 else case to_int (strip s) of None \<Rightarrow> Inl (WgRaises ''ValueError'') | Some i \<Rightarrow> Inr i)"

definition dump_line :: "string \<Rightarrow> (string, wg_peer_status) dict \<Rightarrow> (wg_error, (string, wg_peer_status) dict) result" where
  "dump_line line acc =
     (let fields = split_on CHR 0x09 line in
      if length fields < 7 then Inr acc
      else bind_result (field_number (fields ! 4)) (\<lambda>handshake.
           bind_result (field_number (fields ! 5)) (\<lambda>rx.
           bind_result (field_number (fields ! 6)) (\<lambda>tx.
           Inr (AList.update (fields ! 0) \<lparr>ps_endpoint = (if fields ! 2 = ''(none)'' then [] else fields ! 2),
             ps_handshake = handshake, ps_rx_bytes = rx, ps_tx_bytes = tx\<rparr> acc)))))"

definition wg_show_status :: "wg_env \<Rightarrow> wg_sys \<Rightarrow> (wg_error, wg_status) result" where
  "wg_show_status env s =
     (let down = \<lparr>wgs_public_key = router_public_key env s, wgs_up = False, wgs_peers = []\<rparr> in
      case tool env [''wg'', ''show'', WIREGUARD_IFACE, ''dump''] None s of
        No_binary \<Rightarrow> Inl (WireguardError (Py_Text.py_repr ''wg'' @ '' not found; install the wireguard-tools package''))
      | Proc rc out err \<Rightarrow> if rc \<noteq> 0 then Inr down
          else bind_result (fold_result dump_line (drop 1 (splitlines out)) []) (\<lambda>peers. Inr (down\<lparr>wgs_up := True, wgs_peers := peers\<rparr>)))"

subsection \<open>Addresses of the peers\<close>

lemma ipv4_address_bounds: "ipv4_address s = Some x \<Longrightarrow> 0 \<le> x \<and> x < 2 ^ 32"
proof -
  have o: "octet_of t = Some a \<Longrightarrow> 0 \<le> a \<and> a \<le> 255" for t a
    by (auto simp: octet_of_def Let_def split: if_splits)
  show "ipv4_address s = Some x \<Longrightarrow> 0 \<le> x \<and> x < 2 ^ 32"
    by (auto simp: ipv4_address_def map_eq_Cons_conv split: list.splits option.splits dest!: o)
qed

lemma interface_of_bounds: "interface_of v = Some i \<Longrightarrow> 0 \<le> fst i \<and> fst i < 2 ^ 32"
  by (auto simp: interface_of_def ipv4_interface_def split: pyval.splits list.splits option.splits if_splits dest!: ipv4_address_bounds)

lemma interface_network_bounds:
  assumes "0 \<le> x" and "x < 2 ^ 32" and "n \<le> 32"
  shows "0 \<le> net_address (interface_network (x, n))" and "net_broadcast (interface_network (x, n)) < 2 ^ 32"
proof -
  have e: "(2::int) ^ 32 = 2 ^ n * 2 ^ (32 - n)" using assms(3) by (simp flip: power_add)
  show "0 \<le> net_address (interface_network (x, n))" using assms(1) by (simp add: interface_network_def pos_imp_zdiv_nonneg_iff)
  have "0 \<le> x mod 2 ^ (32 - n)" by simp
  with div_mult_mod_eq [of x "2 ^ (32 - n)"] have "x div 2 ^ (32 - n) * 2 ^ (32 - n) \<le> x" by linarith
  then have "x div 2 ^ (32 - n) * 2 ^ (32 - n) < 2 ^ n * 2 ^ (32 - n)" using assms(2) unfolding e by (rule le_less_trans)
  then have "x div 2 ^ (32 - n) < 2 ^ n" by (simp add: mult_less_cancel_right)
  then have "x div 2 ^ (32 - n) + 1 \<le> 2 ^ n" by simp
  then have "(x div 2 ^ (32 - n) + 1) * 2 ^ (32 - n) \<le> 2 ^ n * 2 ^ (32 - n)" by (intro mult_right_mono) simp_all
  with e show "net_broadcast (interface_network (x, n)) < 2 ^ 32" by (simp add: interface_network_def net_broadcast_def algebra_simps)
qed

definition tunnel_ok :: "int \<times> nat \<Rightarrow> bool" where
  "tunnel_ok t \<longleftrightarrow> 0 \<le> fst t \<and> fst t < 2 ^ 32 \<and> snd t \<le> 30"

definition peers_ok :: "int \<times> nat \<Rightarrow> (wireguard_peer \<times> int) list \<Rightarrow> bool" where
  "peers_ok t ps \<longleftrightarrow> distinct (map snd ps) \<and> (\<forall>(p, ip)\<in>set ps. peer_address p = show_interface (ip, 32) \<and>
     net_address (interface_network t) < ip \<and> ip < net_broadcast (interface_network t) \<and> ip \<noteq> fst t)"

lemma parse_peer_ok:
  assumes "parse_peer env (Some t) v acc = Inr acc'" and "peers_ok t acc"
  shows "peers_ok t acc'"
proof -
  from assms(1) obtain p ip where "acc' = acc @ [(p, ip)]" "peer_address p = show_ipv4 ip @ ''/32''"
    "net_address (interface_network t) \<le> ip" "ip \<le> net_broadcast (interface_network t)"
    "ip \<notin> {net_address (interface_network t), net_broadcast (interface_network t), fst t}" "ip \<notin> snd ` set acc"
    unfolding parse_peer_def Let_def bind_result_Inr_iff require_iff option.case
    by (auto split: option.splits)
  moreover have "show_nat 32 = ''32''" by (simp add: show_nat.simps digit_char_def)
  ultimately show ?thesis using assms(2) by (auto simp: peers_ok_def show_interface_def)
qed

lemma loaded_wireguard:
  assumes "parse_wireguard env raw zs n ifs = Inr wg" and "wg_enabled wg \<or> wg_peers wg \<noteq> []"
  obtains t ps where "tunnel_ok t" and "peers_ok t ps" and "wg_address wg = show_interface t" and "wg_peers wg = map fst ps"
proof -
  from assms(1) obtain enabled port v tunnel z host peers_raw peers where
    tunnel: "parse_tunnel_address v ifs = Inr tunnel" and ps: "fold_result (parse_peer env tunnel) peers_raw [] = Inr peers"
    and e: "\<not> (enabled \<and> tunnel = None)"
    and wg: "\<lparr>wg_enabled = enabled, wg_listen_port = port, wg_address = (case tunnel of None \<Rightarrow> [] | Some i \<Rightarrow> show_interface i), wg_zone = z, wg_endpoint = host, wg_peers = map fst peers\<rparr> = wg"
    unfolding parse_wireguard_def Let_def bind_result_Inr_iff [of _ _ wg] require_iff sum.inject by (elim exE conjE) (rule that; assumption)
  have none: "fold_result (parse_peer env None) xs acc = Inr acc' \<Longrightarrow> xs = []" for xs acc acc'
    by (cases xs) (auto simp: parse_peer_def Let_def)
  have "tunnel \<noteq> None"
  proof
    assume "tunnel = None"
    with none ps have "peers = []" by fastforce
    with \<open>tunnel = None\<close> e wg assms(2) show False by auto
  qed
  then obtain t where t: "tunnel = Some t" by auto
  have "tunnel_ok t"
    using tunnel interface_of_bounds [of v t] unfolding t parse_tunnel_address_def tunnel_ok_def by (auto split: if_splits option.splits)
  moreover have "peers_ok t peers"
    by (rule fold_result_invariant [OF ps [unfolded t]]) (auto intro: parse_peer_ok simp: peers_ok_def [of _ "[]"])
  ultimately show thesis using wg t by (intro that [of t peers]) auto
qed

text \<open>The addresses of the peers of an accepted configuration, as numbers.\<close>

lemma peer_numbers:
  assumes "parse_wireguard env raw zs n ifs = Inr wg"
  obtains t hosts where "map (\<lambda>p. ipv4_interface (peer_address p)) (wg_peers wg) = map (\<lambda>h. Some (h, 32)) hosts" and "distinct hosts"
    and "hosts \<noteq> [] \<longrightarrow> ipv4_interface (wg_address wg) = Some t"
    and "\<forall>h\<in>set hosts. h \<noteq> fst t \<and> net_address (interface_network t) < h \<and> h < net_broadcast (interface_network t) \<and> h - net_address (interface_network t) < 2 ^ 64"
    and "map (\<lambda>p. peer_number6 wg (peer_address p) prefix) (wg_peers wg) =
      map (\<lambda>h. Inr (net_address (tunnel_network6 prefix) + (h - net_address (interface_network t)))) hosts"
proof (cases "wg_peers wg = []")
  case False
  then obtain t ps where t: "tunnel_ok t" "peers_ok t ps" "wg_address wg = show_interface t" "wg_peers wg = map fst ps"
    using loaded_wireguard [OF assms(1)] by metis
  let ?n = "interface_network t"
  have b: "0 \<le> net_address ?n" "net_broadcast ?n < 2 ^ 32"
    using interface_network_bounds [of "fst t" "snd t"] t(1) by (auto simp: tunnel_ok_def)
  have own: "ipv4_interface (wg_address wg) = Some t"
    using ipv4_interface_show [of "fst t" "snd t"] t(1,3) by (simp add: tunnel_ok_def)
  then have net: "wg_network wg = Inr ?n" by (simp add: wg_network_def interface4_def)
  have a: "ipv4_interface (peer_address p) = Some (ip, 32)" if "(p, ip) \<in> set ps" for p ip
    using that t(2) b ipv4_interface_show [of ip 32] by (auto simp: peers_ok_def)
  then have "peer_number6 wg (peer_address p) prefix = Inr (net_address (tunnel_network6 prefix) + (ip - net_address ?n))" if "(p, ip) \<in> set ps" for p ip
    using that net by (simp add: peer_number6_def interface4_def)
  with a t(2) b own show thesis by (intro that [of "map snd ps" t]) (auto simp: t(4) peers_ok_def)
qed (auto intro: that [of "[]"])

text \<open>
  C20: whatever WireGuard section the loader accepts, every client's addresses in the tunnel are its own, so no key may
  send from another client's address (WireGuard takes from a key only the addresses listed for it): its IPv4 address is
  a host of the tunnel's network, not the router's and no other client's, and the IPv6 address derived from it under
  the router's prefix exists, is no other client's, lies in the tunnel's network and in none of the networks of the LAN
  devices.  (It may be the router's own IPv6 address, where the router is not the first host of its tunnel.)
\<close>

theorem peer_addresses_apart:
  assumes "parse_wireguard env raw zs n ifs = Inr wg" and "ula_ok prefix"
  shows "\<exists>hosts numbers. map (\<lambda>p. ipv4_interface (peer_address p)) (wg_peers wg) = map (\<lambda>h. Some (h, 32)) hosts \<and> distinct hosts \<and>
    (\<forall>h\<in>set hosts. \<exists>t. ipv4_interface (wg_address wg) = Some t \<and> h \<noteq> fst t \<and>
       net_address (interface_network t) < h \<and> h < net_broadcast (interface_network t)) \<and>
    map (\<lambda>p. peer_number6 wg (peer_address p) prefix) (wg_peers wg) = map Inr numbers \<and> distinct numbers \<and>
    (\<forall>x\<in>set numbers. in_network V6 x (tunnel_network6 prefix) \<and> (\<forall>sla < 2 ^ 16 - 1. \<not> in_network V6 x (sla_network prefix sla)))"
proof -
  obtain t hosts where h: "map (\<lambda>p. ipv4_interface (peer_address p)) (wg_peers wg) = map (\<lambda>h. Some (h, 32)) hosts" "distinct hosts"
    "hosts \<noteq> [] \<longrightarrow> ipv4_interface (wg_address wg) = Some t"
    "\<forall>h\<in>set hosts. h \<noteq> fst t \<and> net_address (interface_network t) < h \<and> h < net_broadcast (interface_network t) \<and> h - net_address (interface_network t) < 2 ^ 64"
    "map (\<lambda>p. peer_number6 wg (peer_address p) prefix) (wg_peers wg) =
      map (\<lambda>h. Inr (net_address (tunnel_network6 prefix) + (h - net_address (interface_network t)))) hosts"
    by (rule peer_numbers [OF assms(1), of prefix])
  define number where "number = (\<lambda>h. net_address (tunnel_network6 prefix) + (h - net_address (interface_network t)))"
  have "in_network V6 x (tunnel_network6 prefix) \<and> (\<forall>sla < 2 ^ 16 - 1. \<not> in_network V6 x (sla_network prefix sla))"
    if x: "x \<in> set (map number hosts)" for x
  proof -
    have "in_network V6 x (tunnel_network6 prefix)"
      using x h(4) by (auto simp: in_network_def number_def net_broadcast_def tunnel_network6_def)
    moreover have "\<not> in_network V6 x (sla_network prefix sla)" if "sla < 2 ^ 16 - 1" for sla
      using sla_networks_apart(1) [OF assms(2), of "2 ^ 16 - 1" sla x] that calculation by (simp add: tunnel_is_last)
    ultimately show ?thesis by blast
  qed
  moreover have "distinct (map number hosts)" using h(2) by (simp add: number_def distinct_map inj_on_def)
  moreover have "\<forall>x\<in>set hosts. \<exists>t. ipv4_interface (wg_address wg) = Some t \<and> x \<noteq> fst t \<and>
       net_address (interface_network t) < x \<and> x < net_broadcast (interface_network t)"
    using h(3,4) by (metis empty_iff list.set(1))
  ultimately show ?thesis
    using h(1,2,5) by (intro exI [of _ hosts] exI [of _ "map number hosts"]) (simp add: number_def comp_def)
qed

definition phone1 :: pyval where
  "phone1 = VDict [(VStr ''name'', VStr ''phone''), (VStr ''public_key'', VStr (replicate 44 (CHR ''A''))), (VStr ''address'', VStr ''10.9.0.2'')]"

definition laptop1 :: pyval where
  "laptop1 = VDict [(VStr ''name'', VStr ''laptop''), (VStr ''public_key'', VStr (replicate 44 (CHR ''B''))), (VStr ''address'', VStr ''10.9.0.3'')]"

definition wireguard1 :: pyval where
  "wireguard1 = VDict [(VStr ''address'', VStr ''10.9.0.1/24''), (VStr ''peers'', VList [phone1, laptop1])]"

definition wireguard_env1 :: load_env where
  "wireguard_env1 = env1\<lparr>base64_length := (\<lambda>_. Some 32)\<rparr>"

definition peers1 :: "(wireguard_peer \<times> int) list" where
  "peers1 = [(\<lparr>peer_name = ''phone'', peer_public_key = replicate 44 (CHR ''A''), peer_address = ''10.9.0.2/32'', dual_stack = False\<rparr>, 168361986),
     (\<lparr>peer_name = ''laptop'', peer_public_key = replicate 44 (CHR ''B''), peer_address = ''10.9.0.3/32'', dual_stack = False\<rparr>, 168361987)]"

lemma peers1_parsed:
  "parse_tunnel_address (VStr ''10.9.0.1/24'') [] = Inr (Some (168361985, 24))"
  "fold_result (parse_peer wireguard_env1 (Some (168361985, 24))) [phone1, laptop1] [] = Inr peers1"
  by code_simp+

lemma wireguard1_parsed:
  "parse_wireguard wireguard_env1 wireguard1 zs n [] = Inr \<lparr>wg_enabled = False, wg_listen_port = 51820, wg_address = show_interface (168361985, 24),
     wg_zone = ''vpn'', wg_endpoint = [], wg_peers = map fst peers1\<rparr>"
  by (simp add: parse_wireguard_def wireguard1_def value_simps peers1_parsed Let_def del: fold_result.simps)

theorem peer_addresses_apart_witness:
  "\<exists>wg numbers. parse_wireguard wireguard_env1 wireguard1 [] \<lparr>nat_masquerade = [], nat_port_forwards = []\<rparr> [] = Inr wg
     \<and> length (wg_peers wg) = 2 \<and> length numbers = 2 \<and> distinct numbers
     \<and> map (\<lambda>p. peer_number6 wg (peer_address p) (Builder.net6 (0xfd00 * 2 ^ 112) 48)) (wg_peers wg) = map Inr numbers"
proof -
  obtain wg where wg: "parse_wireguard wireguard_env1 wireguard1 [] \<lparr>nat_masquerade = [], nat_port_forwards = []\<rparr> [] = Inr wg" "length (wg_peers wg) = 2"
    by (simp add: wireguard1_parsed peers1_def)
  have "ula_ok (Builder.net6 (0xfd00 * 2 ^ 112) 48)" by code_simp
  from peer_addresses_apart [OF wg(1) this] obtain numbers where
    "map (\<lambda>p. peer_number6 wg (peer_address p) (Builder.net6 (0xfd00 * 2 ^ 112) 48)) (wg_peers wg) = map Inr numbers" "distinct numbers" by blast
  moreover from this(1) wg(2) have "length numbers = 2" by (metis length_map)
  ultimately show ?thesis using wg by blast
qed

text \<open>
  The address offered to a new client is the first that is free, and one the loader accepts; none is offered only
  when every host address of the tunnel is taken.
\<close>

lemma used_addresses_loaded:
  assumes "tunnel_ok t" and "peers_ok t ps" and "wg_address wg = show_interface t" and "wg_peers wg = map fst ps"
  shows "used_addresses wg = Inr (map snd ps @ [fst t])" and "wg_network wg = Inr (interface_network t)"
proof -
  have b: "0 \<le> net_address (interface_network t)" "net_broadcast (interface_network t) < 2 ^ 32"
    using interface_network_bounds [of "fst t" "snd t"] assms(1) by (auto simp: tunnel_ok_def)
  have own: "interface4 (wg_address wg) = Inr t"
    using ipv4_interface_show [of "fst t" "snd t"] assms(1,3) by (simp add: interface4_def tunnel_ok_def)
  have step: "fold_result (\<lambda>a used. bind_result (interface4 a) (\<lambda>i. Inr (used @ [fst i]))) (map (peer_address \<circ> fst) qs @ [wg_address wg]) acc
      = Inr (acc @ map snd qs @ [fst t])" if "set qs \<subseteq> set ps" for qs acc
    using that
  proof (induction qs arbitrary: acc)
    case (Cons q qs)
    then have "interface4 (peer_address (fst q)) = Inr (snd q, 32)"
      using assms(2) b ipv4_interface_show [of "snd q" 32] by (auto simp: peers_ok_def interface4_def case_prod_unfold)
    with Cons show ?case by simp
  qed (simp add: own)
  then show "used_addresses wg = Inr (map snd ps @ [fst t])" by (simp add: used_addresses_def assms(4))
  show "wg_network wg = Inr (interface_network t)" using own by (simp add: wg_network_def)
qed

theorem next_address_free:
  assumes "parse_wireguard env raw zs n ifs = Inr wg" and "wg_enabled wg"
  obtains t ps where "wg_address wg = show_interface t" and "wg_peers wg = map fst ps" and "peers_ok t ps"
    and "\<And>a. next_free_address wg = Inr a \<Longrightarrow> \<exists>ip. a = show_interface (ip, 32) \<and> peers_ok t (ps @ [(p\<lparr>peer_address := a\<rparr>, ip)])"
    and "\<And>e. next_free_address wg = Inl e \<Longrightarrow>
      {net_address (interface_network t) <..< net_broadcast (interface_network t)} \<subseteq> insert (fst t) (snd ` set ps)"
proof -
  obtain t ps where t: "tunnel_ok t" "peers_ok t ps" "wg_address wg = show_interface t" "wg_peers wg = map fst ps"
    using loaded_wireguard [OF assms(1)] assms(2) by metis
  let ?n = "interface_network t"
  have hosts: "network_hosts ?n = [net_address ?n + 1 .. net_broadcast ?n - 1]"
    using t(1) by (simp add: network_hosts_def tunnel_ok_def interface_network_def)
  note u = used_addresses_loaded [OF t]
  have "\<exists>ip. a = show_interface (ip, 32) \<and> peers_ok t (ps @ [(p\<lparr>peer_address := a\<rparr>, ip)])" if a: "next_free_address wg = Inr a" for a
  proof -
    from a obtain ip where ip: "List.find (\<lambda>ip. ip \<notin> set (map snd ps @ [fst t])) (network_hosts ?n) = Some ip" "a = show_ipv4 ip @ ''/32''"
      by (auto simp: next_free_address_def u split: option.splits)
    then have "ip \<notin> set (map snd ps @ [fst t]) \<and> ip \<in> set (network_hosts ?n)" by (auto simp: find_Some_iff)
    moreover have "show_nat 32 = ''32''" by (simp add: show_nat.simps digit_char_def)
    ultimately show ?thesis using t(2) ip(2) by (intro exI [of _ ip]) (auto simp: hosts peers_ok_def show_interface_def)
  qed
  moreover have "{net_address ?n <..< net_broadcast ?n} \<subseteq> insert (fst t) (snd ` set ps)" if "next_free_address wg = Inl e" for e
    using that by (auto simp: next_free_address_def u hosts find_None_iff split: option.splits)
  ultimately show thesis using t by (intro that [of t ps]) auto
qed

text \<open>
  The router's IPv6 address in the tunnel is host 1 whatever its IPv4 host number is: where the router is not the first host
  of its tunnel, the first client offered an address gets the router's own IPv6 address.
\<close>

lemma client_gets_router_address:
  fixes wg :: wireguard_config
  assumes "wg_address wg = ''10.9.0.254/24''" and "wg_peers wg = []"
  shows "next_free_address wg = Inr ''10.9.0.1/32''" and "peer_number6 wg ''10.9.0.1/32'' prefix = Inr (router_address6 prefix)"
proof -
  have i: "ipv4_interface ''10.9.0.254/24'' = Some (168362238, 24)" "ipv4_interface ''10.9.0.1/32'' = Some (168361985, 32)" by code_simp+
  have "List.find (\<lambda>ip. ip \<noteq> 168362238) [168361985 .. 168362238] = Some (168361985::int)"
    by (subst upto_rec1) simp_all
  moreover have "show_ipv4 168361985 = ''10.9.0.1''" by (simp add: show_ipv4_def octet_def show_ip_simps)
  ultimately show "next_free_address wg = Inr ''10.9.0.1/32''"
    by (simp add: next_free_address_def used_addresses_def wg_network_def interface4_def assms i interface_network_def network_hosts_def net_broadcast_def)
  show "peer_number6 wg ''10.9.0.1/32'' prefix = Inr (router_address6 prefix)"
    by (simp add: peer_number6_def interface4_def wg_network_def assms i interface_network_def router_address6_def)
qed

subsection \<open>The private key\<close>

text \<open>
  The private key reaches \<open>wg\<close> on its standard input only.  Two routers that differ in nothing but their keys run
  the same command lines, in the same order, and report the same message or error -- as long as what the tools
  print and how they end does not depend on the key (\<open>blind\<close>).
\<close>

definition same_but_key :: "wg_sys \<Rightarrow> wg_sys \<Rightarrow> bool" where
  "same_but_key s s' \<longleftrightarrow> s'\<lparr>wg_key := wg_key s, wg_conf := wg_conf s, wg_calls := wg_calls s\<rparr> = s \<and> map fst (wg_calls s) = map fst (wg_calls s')"

definition blind :: "wg_env \<Rightarrow> bool" where
  "blind env \<longleftrightarrow> (\<forall>argv i i' s s'. same_but_key s s' \<and> (i = None \<longleftrightarrow> i' = None) \<longrightarrow> tool env argv i s = tool env argv i' s')"

definition alike :: "'a wg_step \<Rightarrow> 'a wg_step \<Rightarrow> bool" where
  "alike m m' \<longleftrightarrow> (\<forall>s s'. same_but_key s s' \<longrightarrow> fst (m s) = fst (m' s') \<and> same_but_key (snd (m s)) (snd (m' s')))"

lemma alike_bind: "alike m m' \<Longrightarrow> (\<And>a. alike (f a) (f' a)) \<Longrightarrow> alike (wg_bind m f) (wg_bind m' f')"
  unfolding alike_def wg_bind_def by (fastforce split: prod.splits sum.splits)

lemma alike_return: "alike (wg_return r) (wg_return r)"
  by (simp add: alike_def wg_return_def)

lemma same_parts:
  assumes "same_but_key s s'"
  shows "wg_v6 s' = wg_v6 s" and "wg_exists s' = wg_exists s" and "wg_is_up s' = wg_is_up s" and "wg_addresses s' = wg_addresses s" and "wg_addresses6 s' = wg_addresses6 s"
    and "map fst (wg_calls s') = map fst (wg_calls s)"
  using assms by (cases s; cases s'; simp add: same_but_key_def)+

lemma alike_run:
  assumes "blind env" and "i = None \<longleftrightarrow> i' = None"
    and "\<And>s s'. same_but_key s s' \<Longrightarrow> same_but_key (effect s) (effect' s')"
  shows "alike (wg_run env argv i effect) (wg_run env argv i' effect')"
proof -
  have "same_but_key (s\<lparr>wg_calls := wg_calls s @ [(argv, i)]\<rparr>) (s'\<lparr>wg_calls := wg_calls s' @ [(argv, i')]\<rparr>)" if "same_but_key s s'" for s s'
    using that by (cases s; cases s'; simp add: same_but_key_def)
  moreover have "tool env argv i s = tool env argv i' s'" if "same_but_key s s'" for s s'
    using assms(1,2) that by (auto simp: blind_def)
  ultimately show ?thesis using assms(3) by (auto simp: alike_def wg_run_def Let_def split: tool_answer.splits)
qed

lemma alike_exists:
  assumes "blind env"
  shows "alike (link_exists env) (link_exists env)"
proof -
  have "same_but_key (s\<lparr>wg_calls := wg_calls s @ [(LINK_SHOW, None)]\<rparr>) (s'\<lparr>wg_calls := wg_calls s' @ [(LINK_SHOW, None)]\<rparr>)" if "same_but_key s s'" for s s'
    using that by (cases s; cases s'; simp add: same_but_key_def)
  moreover have "tool env LINK_SHOW None s = tool env LINK_SHOW None s'" if "same_but_key s s'" for s s'
    using assms that by (auto simp: blind_def)
  ultimately show ?thesis by (auto simp: alike_def link_exists_def Let_def split: tool_answer.splits)
qed

lemma same_v6: "same_but_key s s' \<Longrightarrow> same_but_key (s\<lparr>wg_v6 := v\<rparr>) (s'\<lparr>wg_v6 := v\<rparr>)"
  by (cases s; cases s'; simp add: same_but_key_def)

lemma alike_sysctls: "alike (wg_sysctls env settings) (wg_sysctls env settings)"
  by (auto simp: alike_def wg_sysctls_def same_parts intro: same_v6 split: prod.splits sum.splits)

lemma alike_prefix: "alike (tunnel_prefix env cfg) (tunnel_prefix env cfg)"
  by (auto simp: alike_def tunnel_prefix_def same_parts Let_def intro: same_v6 split: prod.splits)

lemma alike_take_off:
  assumes "blind env" and "\<And>a s s'. same_but_key s s' \<Longrightarrow> same_but_key (drop_address a s) (drop_address a s')"
  shows "alike (take_others_off env keyword is_wanted ip drop_address lines) (take_others_off env keyword is_wanted ip drop_address lines)"
proof (induction lines)
  case (Cons line lines)
  have "alike (wg_bind (wg_run env argv None (drop_address c)) (\<lambda>_. take_others_off env keyword is_wanted ip drop_address lines))
      (wg_bind (wg_run env argv None (drop_address c)) (\<lambda>_. take_others_off env keyword is_wanted ip drop_address lines))" for argv c
    by (intro alike_bind alike_run Cons.IH assms) simp_all
  with Cons.IH show ?case unfolding alike_def by (auto split: sum.splits option.splits bool.splits)
qed (simp add: alike_def)

lemma same_effects:
  assumes "same_but_key s s'"
  shows "same_but_key (drop4 a s) (drop4 a s')" and "same_but_key (put4 a s) (put4 a s')" and "same_but_key (drop6 a s) (drop6 a s')"
    and "same_but_key (put6 a s) (put6 a s')" and "same_but_key (s\<lparr>wg_exists := b\<rparr>) (s'\<lparr>wg_exists := b\<rparr>)"
    and "same_but_key (s\<lparr>wg_is_up := b\<rparr>) (s'\<lparr>wg_is_up := b\<rparr>)" and "same_but_key (s\<lparr>wg_conf := c\<rparr>) (s'\<lparr>wg_conf := c'\<rparr>)"
    and "same_but_key (id s) (id s')"
  using assms by (cases s; cases s'; simp add: same_but_key_def drop4_def put4_def drop6_def put6_def)+

lemma alike_address4: "blind env \<Longrightarrow> alike (address4_step env wanted) (address4_step env wanted)"
  unfolding address4_step_def by (intro alike_bind alike_run alike_take_off alike_return same_effects) simp_all

lemma alike_address6:
  assumes "blind env"
  shows "alike (address6_step env ula) (address6_step env ula)"
proof (cases ula)
  case (Some p)
  show ?thesis
    unfolding address6_step_def Some option.case
    by (intro alike_bind alike_run alike_take_off alike_return alike_sysctls same_effects assms) simp_all
qed (simp add: address6_step_def alike_return)

lemma peer_lines_append:
  "fold_result (peer_lines wg ula) ps acc = bind_result (fold_result (peer_lines wg ula) ps []) (\<lambda>ls. Inr (acc @ ls))"
proof (induction ps arbitrary: acc)
  case (Cons p ps)
  show ?case
  proof (cases "peer_lines wg ula p []")
    case (Inl e)
    then have "peer_lines wg ula p acc = Inl e" by (auto simp: peer_lines_def bind_result_Inl_iff)
    with Inl show ?thesis by simp
  next
    case (Inr block)
    then have "peer_lines wg ula p acc = Inr (acc @ block)" by (auto simp: peer_lines_def)
    with Inr Cons.IH [of "acc @ block"] Cons.IH [of block] show ?thesis by (cases "fold_result (peer_lines wg ula) ps []") simp_all
  qed
qed simp

lemma render_conf_alike:
  obtains (error) e where "\<And>key. render_conf wg key ula = Inl e"
  | (rendered) conf where "\<And>key. render_conf wg key ula = Inr (conf key)"
proof (cases "fold_result (peer_lines wg ula) (wg_peers wg) []")
  case (Inl e)
  then show thesis by (intro error [of e]) (simp add: render_conf_def peer_lines_append [of _ _ _ "_ # _"])
next
  case (Inr ls)
  then show thesis
    by (intro rendered [of "\<lambda>key. unlines ([''[Interface]'', ''PrivateKey = '' @ key, ''ListenPort = '' @ show_nat (wg_listen_port wg)] @ ls)"])
       (simp add: render_conf_def peer_lines_append [of _ _ _ "_ # _"])
qed

lemma alike_conf:
  assumes "blind env" and "\<And>u. alike (f u) (f u)"
  shows "alike (wg_bind (wg_return (render_conf wg key ula)) (\<lambda>conf. wg_bind (wg_run env argv (Some conf) (\<lambda>s. s\<lparr>wg_conf := conf\<rparr>)) f))
    (wg_bind (wg_return (render_conf wg key' ula)) (\<lambda>conf. wg_bind (wg_run env argv (Some conf) (\<lambda>s. s\<lparr>wg_conf := conf\<rparr>)) f))"
proof (rule render_conf_alike [of wg ula])
  fix e assume "\<And>key. render_conf wg key ula = Inl e"
  then show ?thesis using alike_return [of "Inl e"] by (simp add: alike_def wg_bind_def wg_return_def)
next
  fix conf assume c: "\<And>key. render_conf wg key ula = Inr (conf key)"
  have "alike (wg_bind (wg_run env argv (Some (conf key)) (\<lambda>s. s\<lparr>wg_conf := conf key\<rparr>)) f)
      (wg_bind (wg_run env argv (Some (conf key')) (\<lambda>s. s\<lparr>wg_conf := conf key'\<rparr>)) f)"
    by (intro alike_bind alike_run assms same_effects) simp_all
  then show ?thesis by (simp add: alike_def wg_bind_def wg_return_def c)
qed

lemma alike_up:
  assumes "blind env"
  shows "alike (bring_tunnel_up env cfg summary key) (bring_tunnel_up env cfg summary key')"
proof -
  have "alike (if there then wg_return (Inr []) else wg_run env argv None (\<lambda>s. s\<lparr>wg_exists := True\<rparr>))
      (if there then wg_return (Inr []) else wg_run env argv None (\<lambda>s. s\<lparr>wg_exists := True\<rparr>))" for there argv
    by (cases there) (simp_all add: alike_return alike_run assms same_effects)
  note parts = this alike_prefix alike_exists [OF assms] alike_address4 [OF assms] alike_address6 [OF assms]
  show ?thesis
    unfolding bring_tunnel_up_def
    by (intro alike_bind parts alike_conf [OF assms] alike_return alike_run [OF assms] same_effects) simp_all
qed

lemma same_off: "same_but_key s s' \<Longrightarrow> same_but_key (s\<lparr>wg_exists := False, wg_is_up := False, wg_conf := [], wg_addresses := [], wg_addresses6 := []\<rparr>)
    (s'\<lparr>wg_exists := False, wg_is_up := False, wg_conf := [], wg_addresses := [], wg_addresses6 := []\<rparr>)"
  by (cases s; cases s'; simp add: same_but_key_def)

lemma alike_off:
  assumes "blind env"
  shows "alike (wg_off env cfg) (wg_off env cfg)"
proof -
  have "alike (if b then wg_sysctls env settings else wg_return (Inr ())) (if b then wg_sysctls env settings else wg_return (Inr ()))" for b settings
    by (simp add: alike_sysctls alike_return)
  note rest = alike_bind [OF alike_run [OF assms refl same_off] alike_bind [OF this alike_return]]
  show ?thesis unfolding wg_off_def by (rule alike_bind [OF alike_exists [OF assms]]) (simp add: alike_return rest)
qed

theorem key_on_stdin_only:
  assumes "blind env" and "same_but_key s s'" and "router_public_key env s \<noteq> None" and "router_public_key env s' \<noteq> None"
  shows "fst (wg_sync env cfg dry_run s) = fst (wg_sync env cfg dry_run s')"
    and "map fst (wg_calls (snd (wg_sync env cfg dry_run s))) = map fst (wg_calls (snd (wg_sync env cfg dry_run s')))"
proof -
  obtain key key' where k: "ensure_private_key env s = (Inr key, s)" "ensure_private_key env s' = (Inr key', s')"
    using assms(3,4) by (auto simp: router_public_key_def ensure_private_key_def public_key_of_def split: option.splits)
  have "fst (wg_sync env cfg dry_run s) = fst (wg_sync env cfg dry_run s') \<and> same_but_key (snd (wg_sync env cfg dry_run s)) (snd (wg_sync env cfg dry_run s'))"
    using alike_up [OF assms(1), unfolded alike_def, rule_format, OF assms(2)] alike_off [OF assms(1), unfolded alike_def, rule_format, OF assms(2)] assms(2)
    by (simp add: wg_sync_def Let_def wg_up_def wg_bind_def [of "ensure_private_key env"] k wg_return_def)
  then show "fst (wg_sync env cfg dry_run s) = fst (wg_sync env cfg dry_run s')"
    "map fst (wg_calls (snd (wg_sync env cfg dry_run s))) = map fst (wg_calls (snd (wg_sync env cfg dry_run s')))"
    using same_parts(6) by fastforce+
qed

end
