(* ===== verification/Spec2Isabelle.thy ===== *)
theory Spec2Isabelle
  imports Schedule Rule_Semantics Login_Guard Transaction Apply_Confirm Tls_Inventory Mdns Load_Sections Account_Routes Boot_Trial Boot_Health Update
    Helper Wireguard
begin

text \<open>
  FR OS is a router: a YAML file describes zones, interfaces, firewall rules and services; a loader
  checks it; a builder renders it into one nftables ruleset; an apply, run by a privileged helper as one
  transaction, brings the router to it and waits for a confirmation; around that run a web interface
  with a sign-in guard and sensors (TLS fingerprints, intrusion detection, device discovery, application usage).  All of it is Python under
  \<open>src/src/frfw\<close>.  This library models those parts and proves what they promise.

  \<^bold>\<open>Theories, in dependency order.\<close>

  \<^item> \<open>Prelude\<close>: Python values HOL lacks (text of numbers, \<open>join\<close>, \<open>split\<close>, \<open>strip\<close>, insertion-ordered
    dictionaries with the locale \<open>dict_table\<close>, computations that may raise) and the lemmas the
    components share.  \<open>Bytes\<close>: byte strings.
  \<^item> \<open>Ip_Address\<close>: networks and addresses of Python's \<open>ipaddress\<close> and their text.  \<open>Ip6_Text\<close>: reading an IPv6 address, and that what is written
    is read back.
  \<^item> \<open>Schedule\<close> (\<open>nft/schedule.py\<close>): weekly schedules and the kernel time matches they are cut into; C1
    says the matches hold exactly in the scheduled minutes, for every UTC offset and kernel time zone.
  \<^item> \<open>Config_Schema\<close> (\<open>config/schema.py\<close>): the configuration, one record per dataclass.
  \<^item> \<open>Rule_Lint\<close> (\<open>rule_lint.py\<close>, \<open>rule_order.py\<close>, \<open>rule_hits.py\<close>): which rule covers which, the findings of
    the rule check, placing and moving rules, hit counters; C2.
  \<^item> \<open>Validate\<close> (\<open>validate.py\<close>): the allow-lists in front of every command line (C3 is in \<open>Link_Setup\<close>, where every kind of address is there).
  \<^item> \<open>App_Id\<close> (\<open>appid/__init__.py\<close>): attribution of names to applications, and the names that block one.
  \<^item> \<open>Loader\<close>, \<open>Load_Sections\<close> (\<open>config/loader.py\<close>): every section of the file and \<open>parse_config\<close>; C29 says what
    an accepted configuration is guaranteed to be.
  \<^item> \<open>Nft\<close>, \<open>Builder\<close>, \<open>Ruleset\<close> (\<open>nft/builder.py\<close>, with the zones of \<open>management.py\<close> and \<open>ipv6.py\<close>): nft matches and
    verdicts as data, every set and chain of \<open>build_ruleset\<close>, and the text of the script.  \<open>Kernel\<close>: what is
    relied on of the kernel's matches, as the locale \<open>nft_kernel\<close> (and \<open>timed_kernel\<close>), interpreted on
    every packet and every content of the named sets.
  \<^item> \<open>Ruleset_Props\<close>, \<open>Rule_Semantics\<close>: what a built ruleset does to a packet (C6, C8, C10, C11), that it is total on
    declared interfaces and releases no jailed source, and that the rule check and the schedules mean on packets what
    they say (C13).
  \<^item> \<open>Login_Guard\<close> (\<open>bruteforce.py\<close>, \<open>webui/auth_rate_limiter.py\<close>): C16 to C18; the guard refines a
    specification that counts events, and a restart loses no counter of a history that fits the table.
  \<^item> \<open>Transaction\<close> (\<open>transaction.py\<close>, \<open>provision.py\<close>): journal, roll-back, saved states, the run of the steps;
    C21 says what a failed apply undoes, in which order, from which states, and what it reports of each undo; the locale \<open>undoable_steps\<close>,
    interpreted on files, units and links, says when that brings the old state back.
  \<^item> \<open>Apply_Confirm\<close> (\<open>apply_confirm.py\<close>, \<open>apply.py\<close>, \<open>schedule_refresh.py\<close>, and the commands of \<open>helper/server.py\<close> and \<open>cli.py\<close> that
    change what the router runs): a router with its configuration, its ruleset, the backups and the record of a pending apply, and
    everything that can happen to it: apply, confirm, revert, roll-back, saving, the hourly schedule check, moving the management
    address, the boot.  C22 says what each may do while an apply waits -- roll-back and schedule check pay it no heed --, C23 that a
    revert keeps what it takes back, C25 that the waiting process reverts at its deadline.
  \<^item> \<open>Client_Hello\<close>, \<open>Tls_Fingerprint\<close>, \<open>Reassembly\<close>, \<open>Tls_Inventory\<close> (\<open>tlsfp\<close>): parsing, JA3 and JA4, reassembly of
    segments among those of other connections, inventory and quarantine through restarts; C27, C28, C33, C37.
  \<^item> \<open>Mdns\<close> (\<open>iot/mdns.py\<close>): names, service records and a scan.
  \<^item> \<open>Accounts\<close> (\<open>admin_account.py\<close>, \<open>passwords.py\<close>): password rules, stored hashes, the account file and its changes;
    C39.  \<open>Sign_In\<close> (\<open>webui/auth.py\<close>, \<open>webui/mfa.py\<close>, \<open>webui/deps.py\<close> and the sign-in handlers): sessions, cookies,
    CSRF tokens, authenticator codes and tickets; C31, C36 (for an app no other write replaces).  \<open>Account_Routes\<close> (\<open>webui/routes/accounts.py\<close> and the
    handlers of setup and enrolment) composes them: the requests as a step relation whose every step is one
    of the steps of the stores; C4.
  \<^item> \<open>Py_Text\<close>: lines, words and \<open>repr\<close> of Python text.  \<open>Kernel_Boot\<close> (\<open>kernel_boot.py\<close> and the boot menu
    \<open>grub.cfg\<close>): the environment block both sides share, staging a kernel, the menu, the check late in the boot.
    \<open>Boot_Trial\<close>: menu and check together refine a table of states; a failing kernel boots once (C5), and staging
    survives a crash at any point (C12).  \<open>Boot_Health\<close>: what a boot is checked for, and that the wait for it ends (C15).
  \<^item> \<open>Update\<close> (\<open>update.py\<close>, \<open>release_signing.py\<close>): signatures, versions, extraction, update and roll-back, with the trusted keys as each installed release
    brings them; C19.
  \<^item> \<open>Quarantine\<close> (\<open>ids_quarantine.py\<close> and the helper's command): which hosts may be quarantined, by which
    addresses and MACs; C7 follows a request through the sets and the ruleset to the packet.  \<open>Ztna\<close> (\<open>ztna.py\<close> and the
    helper's commands): what a sign-in at the zero-trust gate admits; C14.
  \<^item> \<open>Anomaly\<close> (\<open>ai_ids/engine.py\<close>): windows, histories and scores of the hosts, as the locale \<open>host_scorer\<close>, interpreted
    on the engine; C30.  \<open>Sensor_Input\<close> (\<open>conntrack.py\<close>, \<open>adblock/dga.py\<close>, the query log): what the sensors
    read.  \<open>Ids_Daemon\<close> (\<open>ai_ids/daemon.py\<close>): who is scored and who is quarantined; C38.
  \<^item> \<open>App_Usage\<close> (\<open>appid/usage.py\<close>, \<open>appid/daemon.py\<close>): the usage counters, their summary and their restart; C35.
  \<^item> \<open>Iot\<close> (\<open>iot/leases.py\<close>, \<open>iot/arp.py\<close>, \<open>iot/oui.py\<close>, \<open>iot/classify.py\<close>, \<open>iot/scanner.py\<close>, \<open>iot_isolation.py\<close>): the scan, its
    request over the socket with the limits of both ends, and the set of isolated devices the helper keeps; C24.
  \<^item> \<open>Helper\<close> (\<open>helper/peer.py\<close>, the connections of \<open>helper/server.py\<close>, \<open>webui/audit.py\<close>): who may ask the root helper
    for what, and all that the sensors' account can change; C26.
  \<^item> \<open>Adblock\<close> (\<open>adblock/__init__.py\<close>): reading and writing block lists, and what a refresh leaves of them (C34).
    \<open>Dns_Resolver\<close> (\<open>adblock/dns_service.py\<close>, \<open>xdp_config_for\<close>): the resolver's configuration, the step of an apply that takes the
    names no list may hold off the lists, when they are text (C32), and the names the kernel's filter gets.
  \<^item> \<open>Ipv6_Setup\<close> (\<open>ipv6.py\<close>): the files of dhcpcd and of the Router Advertisements, the kernel settings, the stable addresses
    of the LAN devices, the step of an apply, its undo and the status; C9 says the addresses follow the applies that
    were kept, and what a failed one may leave, and a successful step leaves no configured device that accepts advertisements.
  \<^item> \<open>Link_Setup\<close> (\<open>ifaddr.py\<close>, \<open>forwarding.py\<close>, \<open>kea.py\<close>): static addresses (no address the configuration never set is
    touched, and those of the last apply are on), routing, the DHCP server's configuration, and what all validators let through (C3).  \<open>Wireguard\<close> (\<open>wireguard.py\<close>): keys,
    peers and the tunnel; peers never share an address (C20), and the private key shows on no command line.

  The last property, C40 below, spans the components: from any accepted file to what the kernel does
  with a packet.

  \<^bold>\<open>Conventions.\<close>  A raise is \<open>Inl\<close> of an error that keeps what the message names.  Text is of 8-bit characters.
  Times are rationals.  Dictionaries keep their order.  Loops are structural, or
  come with a measure (\<open>handshake_loop\<close>, \<open>decode_loop\<close>), or wait for the clock (\<open>wait_from\<close>, a partial function that C15 proves to return); only \<open>wait\<close> of \<open>Apply_Confirm\<close> counts its turns, and C25 says how many are enough.  Parameters stand for what is not in the repository or
  is read from the machine: the readers of IPv6, date and base64 text and the catalog file (\<open>load_env\<close>),
  digests, scrypt, PBKDF2, signed cookies and pyotp (\<open>account_env\<close>, \<open>web_env\<close>), \<open>ip_address\<close>, the lookup of a MAC address, \<open>ip\<close> and \<open>systemctl\<close>,
  openssl, tar archives and downloads (\<open>update_env\<close>, \<open>downloads\<close>), dnsmasq (\<open>dns_env\<close>), the calls of \<open>ip\<close>, \<open>wg\<close> and Kea (\<open>ipv6_env\<close>, \<open>link_env\<close>, \<open>wg_env\<close>, \<open>kea_env\<close>), the outcome of an apply and the texts it goes by (\<open>apply_env\<close>), the socket (\<open>iot_link\<close>), the neighbour table and \<open>nft\<close> (\<open>quarantine_env\<close>, \<open>helper_env\<close>), the text of floats (\<open>fl\<close>, \<open>rd\<close>), the decoding of bytes and GRUB's \<open>hashsum\<close>, the kernel.

  \<^bold>\<open>Not modelled.\<close>  Subprocesses and files beyond the states above; templates, and the
  commands and request handlers other than those named; the file integrity check; security keys
  (WebAuthn); the hybrid key exchange of TLS and SSH; the metrics and status pages.
\<close>

section \<open>From the file to the packet\<close>

lemma config_ok_builds:
  assumes "config_ok cfg"
  shows "zones_declared cfg \<and> cuts_refuse cfg \<and> list_all rule_ok (rules cfg)"
proof -
  have "zones_declared cfg"
    using assms by (auto simp: config_ok_def zones_declared_def list_all_iff loaded_interface_def map_of_eq_None_iff)
  moreover have "cuts_refuse cfg"
    using assms by (auto simp: config_ok_def cuts_refuse_def cuts_def list_all_iff loaded_rule_def split: option.splits)
  moreover have "list_all rule_ok (rules cfg)"
    using assms by (auto simp: config_ok_def rule_ok_def list_all_iff loaded_rule_def)
  ultimately show ?thesis by blast
qed

lemma internet_zone_blocked:
  assumes "config_ok cfg" and "\<not> allow_wan (management cfg)" and "z \<in> set (internet_zones cfg)" and "z \<in> fst ` set (zones cfg)"
  shows "z \<in> set (blocked_zones cfg)"
  using assms by (auto simp: config_ok_def blocked_zones_def management_zones_def)

text \<open>
  C40: from the configuration file to the packet.  Whatever configuration the loader accepts (a port or
  lease time written \<open>true\<close> aside, which the real loader lets through and the model stops at), its rules
  have the form the rule check reasons about, the builder makes a ruleset of it, and unless the
  configuration opens management to the internet (\<open>allow_wan\<close>) that ruleset refuses, on every kernel
  that follows nft's meaning of its matches, each new connection to the web interface or SSH from an
  internet-facing zone -- no rule, NAT entry or section of the file can open it.
\<close>

theorem loaded_config_guarded:
  assumes "parse_config env raw = Inr cfg"
  shows "list_all rule_ok (rules cfg) \<and>
    (\<exists>s. build_ruleset current_clock cfg clock now runtime = Inr s \<and>
      (\<forall>holds z. nft_kernel holds \<and> \<not> allow_wan (management cfg) \<and> z \<in> set (internet_zones cfg)
         \<and> z \<in> fst ` set (zones cfg) \<and> devices_of cfg z \<noteq> [] \<and> holds (IifnameSet (iface_set_name z))
         \<and> holds (Dport ''tcp'' MANAGEMENT_PORTS) \<and> \<not> holds (IifnameIs ''lo'') \<and> \<not> holds established
         \<longrightarrow> input_decision holds s \<noteq> Accepted))"
proof -
  note ok = parse_config_ok [OF assms]
  note parts = config_ok_builds [OF ok]
  then obtain s where s: "build_ruleset current_clock cfg clock now runtime = Inr s" using build_ruleset_declared by blast
  have "input_decision holds s \<noteq> Accepted"
    if "nft_kernel holds" "\<not> allow_wan (management cfg)" "z \<in> set (internet_zones cfg)" "z \<in> fst ` set (zones cfg)" "devices_of cfg z \<noteq> []"
      "holds (IifnameSet (iface_set_name z))" "holds (Dport ''tcp'' MANAGEMENT_PORTS)" "\<not> holds (IifnameIs ''lo'')" "\<not> holds established"
    for holds z
    using parts by (intro management_refused [OF s _ that(1) internet_zone_blocked [OF ok that(2-4)] that(5-9)]) blast
  with s parts show ?thesis by blast
qed

theorem loaded_config_guarded_witness:
  "\<exists>cfg s. parse_config Load_Sections.env1 (VDict d1) = Inr cfg \<and> build_ruleset clock0 cfg None 0 runtime0 = Inr s
     \<and> input_decision (packet_holds sets0 clock0 (packet0\<lparr>pk_in := ''eth0''\<rparr>)) s \<noteq> Accepted"
proof -
  obtain cfg where cfg: "parse_config Load_Sections.env1 (VDict d1) = Inr cfg" "zones cfg = wan_lan" "interfaces cfg = up_in"
    "nat_masquerade (nat_cfg cfg) = [\<lparr>out_zone = ''wan''\<rparr>]" "\<not> allow_wan (management cfg)"
    using raw1_loaded by (elim exE conjE)
  obtain s where s: "build_ruleset clock0 cfg None 0 runtime0 = Inr s" and
    refused: "nft_kernel holds \<and> \<not> allow_wan (management cfg) \<and> z \<in> set (internet_zones cfg)
         \<and> z \<in> fst ` set (zones cfg) \<and> devices_of cfg z \<noteq> [] \<and> holds (IifnameSet (iface_set_name z))
         \<and> holds (Dport ''tcp'' MANAGEMENT_PORTS) \<and> \<not> holds (IifnameIs ''lo'') \<and> \<not> holds established
         \<Longrightarrow> input_decision holds s \<noteq> Accepted" for holds z
    using loaded_config_guarded [OF cfg(1), of clock0 None 0 runtime0] by blast
  have "input_decision (packet_holds sets0 clock0 (packet0\<lparr>pk_in := ''eth0''\<rparr>)) s \<noteq> Accepted"
    by (rule refused [of _ "''wan''"])
      (use packet_kernel.nft_kernel_axioms cfg in \<open>simp add: internet_zones_def internet_facing_zones_def wan_lan_def up_in_def devices_of_def
        sample_simps MANAGEMENT_PORTS_def port_in_def\<close>)
  with cfg(1) s show ?thesis by blast
qed

end
